(* ===== verification/Js_Prelude.thy ===== *)
theory Js_Prelude
  imports Main "HOL-Library.AList" "HOL-Library.Word" "HOL-Library.Sublist" "HOL-Library.Multiset"
begin

unbundle bit_operations_syntax

text \<open>
  The part of the language and of its standard library that the console uses, as HOL
  functions, and the lemmas every component shares.

  \<^item> A string is a list of code units. The model ranges over the code units 0 to 255, so
    a \<^typ>\<open>string\<close> is the source's string whenever the text stays in that range; a
    character above it (the dots and dashes of captions) occurs only in text that is
    shown and never read back, and is written as the bytes of its UTF-8 form.
  \<^item> A \<^verbatim>\<open>Map\<close> is an association list in insertion order: \<open>AList.update\<close> replaces in place or
    appends, which is what \<^verbatim>\<open>Map.prototype.set\<close> does to the iteration order.
  \<^item> A thrown exception is the left side of a sum, \<open>{ok: true, data}\<close> / \<open>{ok: false, ...}\<close>
    results are sums with a \<open>failure\<close> record on the left.
  \<^item> A number is an \<^typ>\<open>int\<close> or \<^typ>\<open>nat\<close>; where the source relies on 32-bit wrap-around it
    is a \<open>32 word\<close>.
\<close>

named_theorems char_simps \<open>character classes\<close>
named_theorems store_simps \<open>reads after writes of the in-memory stores\<close>
named_theorems page_simps \<open>cursor pagination\<close>
named_theorems wf_intros \<open>well-formedness of stores and responses\<close>

section \<open>Results and exceptions\<close>

record failure =
  f_status :: nat
  f_title :: string
  f_detail :: "string option"

type_synonym 'a result = "failure + 'a"

datatype exn = ZodError | SlugTakenError string | TypeError | RangeError

type_synonym 'a throws = "exn + 'a"

text \<open>\<^verbatim>\<open>Schema.parse(v)\<close>: the value itself, or a thrown ZodError when a constraint of the schema fails.\<close>

definition parse_with :: "('a \<Rightarrow> bool) \<Rightarrow> 'a \<Rightarrow> 'a throws" where
  "parse_with ok v = (if ok v then Inr v else Inl ZodError)"

lemma parse_with_ok [simp]: "ok v \<Longrightarrow> parse_with ok v = Inr v"
  by (simp add: parse_with_def)

lemma parse_with_Inr_iff: "parse_with ok v = Inr w \<longleftrightarrow> ok v \<and> w = v"
  by (auto simp: parse_with_def)

section \<open>Objects\<close>

text \<open>The property names every object literal inherits.\<close>

definition inherited_keys :: "string list" where
  "inherited_keys = [''constructor'', ''toString'', ''toLocaleString'', ''valueOf'', ''hasOwnProperty'', ''isPrototypeOf'',
     ''propertyIsEnumerable'', ''__proto__'', ''__defineGetter__'', ''__defineSetter__'', ''__lookupGetter__'', ''__lookupSetter__'']"

text \<open>
  What can be read of the inherited values. All but \<^verbatim>\<open>__proto__\<close> are functions; reading a name of a function finds what
  functions have, and reading \<^verbatim>\<open>caller\<close> or \<^verbatim>\<open>arguments\<close> of one throws. Only names whose value is truthy are listed: three of
  the functions have length 0.
\<close>

definition OBJECT_STATICS :: "string list" where
  "OBJECT_STATICS = [''assign'', ''create'', ''defineProperties'', ''defineProperty'', ''entries'', ''freeze'', ''fromEntries'',
     ''getOwnPropertyDescriptor'', ''getOwnPropertyDescriptors'', ''getOwnPropertyNames'', ''getOwnPropertySymbols'', ''getPrototypeOf'',
     ''groupBy'', ''hasOwn'', ''is'', ''isExtensible'', ''isFrozen'', ''isSealed'', ''keys'', ''preventExtensions'', ''prototype'', ''seal'',
     ''setPrototypeOf'', ''values'']"

definition keys_of_inherited :: "string \<Rightarrow> string list" where
  "keys_of_inherited name =
     (if name \<notin> set inherited_keys then []
      else if name = ''__proto__'' then filter (\<lambda>k. k \<noteq> ''__proto__'') inherited_keys
      else inherited_keys @ [''apply'', ''bind'', ''call'', ''name'']
        @ (if name \<in> {''toString'', ''toLocaleString'', ''valueOf''} then [] else [''length''])
        @ (if name = ''constructor'' then OBJECT_STATICS else []))"

definition read_throws :: "string \<Rightarrow> string \<Rightarrow> bool" where
  "read_throws name key \<longleftrightarrow> name \<in> set inherited_keys \<and> name \<noteq> ''__proto__'' \<and> key \<in> {''caller'', ''arguments''}"

text \<open>An inherited value in a template string.\<close>

definition inherited_text :: "string \<Rightarrow> string" where
  "inherited_text name =
     (if name = ''__proto__'' then ''[object Object]''
      else ''function '' @ (if name = ''constructor'' then ''Object'' else name) @ ''() { [native code] }'')"

section \<open>Numbers\<close>

text \<open>Rounding to the nearest integer, halves up, as \<^verbatim>\<open>Math.round\<close> of a quotient of naturals.\<close>

definition round_div :: "nat \<Rightarrow> nat \<Rightarrow> nat" where
  "round_div a b = (2 * a + b) div (2 * b)"

section \<open>Characters\<close>

definition code :: "char \<Rightarrow> nat" where
  "code c = of_char c"

definition is_space :: "char \<Rightarrow> bool" where
  "is_space c \<longleftrightarrow> (let n = code c in 9 \<le> n \<and> n \<le> 13 \<or> n = 32 \<or> n = 160)"

definition is_digit :: "char \<Rightarrow> bool" where
  "is_digit c \<longleftrightarrow> (let n = code c in 48 \<le> n \<and> n \<le> 57)"

definition is_lower :: "char \<Rightarrow> bool" where
  "is_lower c \<longleftrightarrow> (let n = code c in 97 \<le> n \<and> n \<le> 122)"

definition is_upper :: "char \<Rightarrow> bool" where
  "is_upper c \<longleftrightarrow> (let n = code c in 65 \<le> n \<and> n \<le> 90)"

definition is_ident_start :: "char \<Rightarrow> bool" where
  "is_ident_start c \<longleftrightarrow> is_lower c \<or> is_upper c \<or> c = CHR ''_''"

definition is_word :: "char \<Rightarrow> bool" where
  "is_word c \<longleftrightarrow> is_lower c \<or> is_upper c \<or> is_digit c \<or> c = CHR ''_''"

definition is_word_dash :: "char \<Rightarrow> bool" where
  "is_word_dash c \<longleftrightarrow> is_word c \<or> c = CHR ''-''"

definition is_hex :: "char \<Rightarrow> bool" where
  "is_hex c \<longleftrightarrow> (let n = code c in 48 \<le> n \<and> n \<le> 57 \<or> 97 \<le> n \<and> n \<le> 102)"

text \<open>The \<open>.\<close> of a regular expression: anything but a line terminator.\<close>

definition not_newline :: "char \<Rightarrow> bool" where
  "not_newline c \<longleftrightarrow> c \<noteq> CHR 0x0A \<and> c \<noteq> CHR 0x0D"

lemmas char_class_defs =
  code_def is_space_def is_digit_def is_lower_def is_upper_def is_ident_start_def is_word_def
  is_word_dash_def is_hex_def not_newline_def

lemma code_char_of [simp]: "code (char_of n) = n mod 256"
  by (simp add: code_def)

lemma code_inject [simp]: "code c = code d \<longleftrightarrow> c = d"
  by (simp add: code_def)

text \<open>\<^verbatim>\<open>toLowerCase\<close> on the Latin letters of the range.\<close>

definition char_lower :: "char \<Rightarrow> char" where
  "char_lower c =
     (let n = code c
      in if 65 \<le> n \<and> n \<le> 90 \<or> 192 \<le> n \<and> n \<le> 222 \<and> n \<noteq> 215 then char_of (n + 32) else c)"

definition toLowerCase :: "string \<Rightarrow> string" where
  "toLowerCase s = map char_lower s"

lemma char_lower_idem [simp]: "char_lower (char_lower c) = char_lower c"
  by (auto simp: char_lower_def Let_def)

lemma toLowerCase_idem [simp]: "toLowerCase (toLowerCase s) = toLowerCase s"
  by (simp add: toLowerCase_def)

lemma length_toLowerCase [simp]: "length (toLowerCase s) = length s"
  by (simp add: toLowerCase_def)

section \<open>Maps in insertion order\<close>

type_synonym ('k, 'v) jsmap = "('k \<times> 'v) list"

abbreviation map_get :: "('k, 'v) jsmap \<Rightarrow> 'k \<Rightarrow> 'v option" where
  "map_get m k \<equiv> map_of m k"

abbreviation map_set :: "('k, 'v) jsmap \<Rightarrow> 'k \<Rightarrow> 'v \<Rightarrow> ('k, 'v) jsmap" where
  "map_set m k v \<equiv> AList.update k v m"

abbreviation map_delete :: "('k, 'v) jsmap \<Rightarrow> 'k \<Rightarrow> ('k, 'v) jsmap" where
  "map_delete m k \<equiv> AList.delete k m"

abbreviation map_values :: "('k, 'v) jsmap \<Rightarrow> 'v list" where
  "map_values m \<equiv> map snd m"

abbreviation map_wf :: "('k, 'v) jsmap \<Rightarrow> bool" where
  "map_wf m \<equiv> distinct (map fst m)"

lemma map_get_set [simp, store_simps]: "map_get (map_set m k v) k' = (if k' = k then Some v else map_get m k')"
  by (simp add: update_conv)

lemma map_get_delete [simp, store_simps]: "map_get (map_delete m k) k' = (if k' = k then None else map_get m k')"
  by (simp add: delete_conv)

lemma map_wf_set [simp, wf_intros]: "map_wf m \<Longrightarrow> map_wf (map_set m k v)"
  by (rule distinct_update)

lemma map_wf_delete [simp, wf_intros]: "map_wf m \<Longrightarrow> map_wf (map_delete m k)"
  by (rule distinct_delete)

lemma map_get_in_set: "map_get m k = Some v \<Longrightarrow> (k, v) \<in> set m"
  by (rule map_of_SomeD)

lemma map_get_values: "map_get m k = Some v \<Longrightarrow> v \<in> set (map_values m)"
  by (force dest: map_of_SomeD)

lemma set_map_set: "set (map_set m k v) \<subseteq> insert (k, v) (set m)"
  by (induction m) auto

lemma set_map_values_set: "set (map_values (map_set m k v)) \<subseteq> insert v (set (map_values m))"
  using set_map_set [of k v m] by force

lemma set_map_delete: "set (map_delete m k) \<subseteq> set m"
  by (induction m) auto

lemma map_set_new: "map_get m k = None \<Longrightarrow> map_set m k v = m @ [(k, v)]"
  by (induction m) (auto split: if_splits)

lemma fold_map_set:
  "distinct (map f xs) \<Longrightarrow> (\<forall>x \<in> set xs. map_get m (f x) = None)
     \<Longrightarrow> fold (\<lambda>r m. map_set m (f r) r) xs m = m @ map (\<lambda>r. (f r, r)) xs"
proof (induction xs arbitrary: m)
  case Nil
  then show ?case by simp
next
  case (Cons x xs)
  then have "\<forall>y \<in> set xs. map_get (map_set m (f x) x) (f y) = None" by (force simp: image_iff)
  with Cons show ?case by (simp add: map_set_new)
qed

section \<open>Lists\<close>

text \<open>\<^verbatim>\<open>xs.slice(from, to)\<close> for indices at or above 0; \<^verbatim>\<open>find\<close> and \<^verbatim>\<open>findIndex\<close>.\<close>

definition slice :: "nat \<Rightarrow> nat \<Rightarrow> 'a list \<Rightarrow> 'a list" where
  "slice from to xs = take (to - from) (drop from xs)"

fun find_index :: "('a \<Rightarrow> bool) \<Rightarrow> 'a list \<Rightarrow> nat option" where
  "find_index P [] = None"
| "find_index P (x # xs) = (if P x then Some 0 else map_option Suc (find_index P xs))"

lemma length_dropWhile_less_Suc [termination_simp]: "length (dropWhile P xs) < Suc (length xs)"
  by (simp add: length_dropWhile_le le_imp_less_Suc)

lemma length_slice: "length (slice a b xs) = min (b - a) (length xs - a)"
  by (simp add: slice_def min.commute)

lemma slice_append_drop: "a \<le> b \<Longrightarrow> slice a b xs @ drop b xs = drop a xs"
  by (metis append_take_drop_id drop_drop le_add_diff_inverse2 slice_def)

lemma set_slice: "set (slice a b xs) \<subseteq> set xs"
  unfolding slice_def by (meson dual_order.trans set_drop_subset set_take_subset)

lemma find_SomeD: "List.find P xs = Some x \<Longrightarrow> x \<in> set xs \<and> P x"
  by (induction xs) (auto split: if_splits)

lemma find_eq_None: "List.find P xs = None \<longleftrightarrow> (\<forall>x \<in> set xs. \<not> P x)"
  by (induction xs) auto

lemma find_index_Some:
  "find_index P xs = Some i \<Longrightarrow> i < length xs \<and> P (xs ! i) \<and> (\<forall>j < i. \<not> P (xs ! j))"
proof (induction xs arbitrary: i)
  case Nil
  then show ?case by simp
next
  case (Cons x xs)
  show ?case
  proof (cases "P x")
    case True
    with Cons.prems show ?thesis by simp
  next
    case False
    with Cons.prems obtain j where j: "find_index P xs = Some j" "i = Suc j" by auto
    with Cons.IH [OF j(1)] False show ?thesis by (auto simp: less_Suc_eq_0_disj)
  qed
qed

lemma find_index_None: "find_index P xs = None \<longleftrightarrow> (\<forall>x \<in> set xs. \<not> P x)"
  by (induction xs) auto

lemma find_index_unique:
  "distinct (map f xs) \<Longrightarrow> i < length xs \<Longrightarrow> find_index (\<lambda>x. f x = f (xs ! i)) xs = Some i"
proof (induction xs arbitrary: i)
  case Nil
  then show ?case by simp
next
  case (Cons x xs)
  show ?case
  proof (cases i)
    case 0
    then show ?thesis by simp
  next
    case (Suc j)
    with Cons.prems have "j < length xs" and "f x \<noteq> f (xs ! j)" by force+
    with Cons Suc show ?thesis by simp
  qed
qed

text \<open>\<^verbatim>\<open>[...new Set(xs)]\<close>: the distinct elements in first-seen order.\<close>

definition js_set :: "'a list \<Rightarrow> 'a list" where
  "js_set xs = rev (fold (\<lambda>x acc. if x \<in> set acc then acc else x # acc) xs [])"

lemma fold_js_set:
  "distinct acc \<Longrightarrow> distinct (fold (\<lambda>x acc. if x \<in> set acc then acc else x # acc) xs acc)
     \<and> set (fold (\<lambda>x acc. if x \<in> set acc then acc else x # acc) xs acc) = set acc \<union> set xs"
  by (induction xs arbitrary: acc) auto

lemma set_js_set [simp]: "set (js_set xs) = set xs"
  using fold_js_set [of "[]" xs] by (simp add: js_set_def)

lemma distinct_js_set [simp]: "distinct (js_set xs)"
  using fold_js_set [of "[]" xs] by (simp add: js_set_def)

lemma length_js_set: "length (js_set xs) = card (set xs)"
  by (metis distinct_card distinct_js_set set_js_set)

section \<open>Sorting\<close>

text \<open>
  \<^verbatim>\<open>Array.prototype.sort(cmp)\<close> is stable; for a consistent comparator there is one stable
  result, the one insertion sort computes.
\<close>

fun js_insert :: "('a \<Rightarrow> 'a \<Rightarrow> int) \<Rightarrow> 'a \<Rightarrow> 'a list \<Rightarrow> 'a list" where
  "js_insert cmp x [] = [x]"
| "js_insert cmp x (y # ys) = (if cmp x y \<le> 0 then x # y # ys else y # js_insert cmp x ys)"

definition js_sort :: "('a \<Rightarrow> 'a \<Rightarrow> int) \<Rightarrow> 'a list \<Rightarrow> 'a list" where
  "js_sort cmp xs = foldr (js_insert cmp) xs []"

lemma mset_js_insert [simp]: "mset (js_insert cmp x xs) = add_mset x (mset xs)"
  by (induction xs) auto

lemma mset_js_sort [simp]: "mset (js_sort cmp xs) = mset xs"
  unfolding js_sort_def by (induction xs) simp_all

lemma set_js_sort [simp]: "set (js_sort cmp xs) = set xs"
  by (metis mset_js_sort set_mset_mset)

lemma set_js_insert [simp]: "set (js_insert cmp x xs) = insert x (set xs)"
  by (metis mset_js_insert set_mset_add_mset_insert set_mset_mset)

lemma length_js_sort [simp]: "length (js_sort cmp xs) = length xs"
  by (metis mset_js_sort size_mset)

lemma distinct_map_js_sort [simp]: "distinct (map f (js_sort cmp xs)) = distinct (map f xs)"
proof -
  have "mset (map f (js_sort cmp xs)) = mset (map f xs)" by simp
  then show ?thesis by (metis distinct_count_atmost_1 mset_eq_setD)
qed

text \<open>
  The contract of a comparator on the rows it is used on (\<open>ok\<close>: a comparator that subtracts dates
  is an order only on rows whose dates parse), and that sorting with one sorts.
\<close>

locale js_comparator =
  fixes cmp :: "'a \<Rightarrow> 'a \<Rightarrow> int"
    and ok :: "'a \<Rightarrow> bool"
  assumes total: "ok x \<Longrightarrow> ok y \<Longrightarrow> cmp x y \<le> 0 \<or> cmp y x \<le> 0"
    and trans: "ok x \<Longrightarrow> ok y \<Longrightarrow> ok z \<Longrightarrow> cmp x y \<le> 0 \<Longrightarrow> cmp y z \<le> 0 \<Longrightarrow> cmp x z \<le> 0"
begin

lemma sorted_js_insert:
  "ok x \<Longrightarrow> list_all ok xs \<Longrightarrow> sorted_wrt (\<lambda>x y. cmp x y \<le> 0) xs
     \<Longrightarrow> sorted_wrt (\<lambda>x y. cmp x y \<le> 0) (js_insert cmp x xs)"
proof (induction xs)
  case Nil
  then show ?case by simp
next
  case (Cons y ys)
  show ?case
  proof (cases "cmp x y \<le> 0")
    case True
    with Cons.prems show ?thesis by (auto simp: list_all_iff intro: trans)
  next
    case False
    then have "cmp y x \<le> 0" using total [of x y] Cons.prems by simp
    with False Cons show ?thesis by auto
  qed
qed

lemma sorted_js_sort: "list_all ok xs \<Longrightarrow> sorted_wrt (\<lambda>x y. cmp x y \<le> 0) (js_sort cmp xs)"
proof (induction xs)
  case Nil
  then show ?case by (simp add: js_sort_def)
next
  case (Cons x xs)
  moreover have "list_all ok (js_sort cmp xs)" using Cons.prems by (simp add: list_all_iff)
  ultimately show ?case using sorted_js_insert [of x "js_sort cmp xs"] by (simp add: js_sort_def)
qed

end

end
