(* ===== verification/Js_String.thy ===== *)
theory Js_String
  imports Js_Prelude
begin

unbundle bit_operations_syntax

text \<open>
  String operations, decimal and hexadecimal numerals, the FNV-1a hash and a small matcher
  for the regular expressions of the source. The matcher is the backtracking semantics
  restricted to what the source writes: repetition is only ever over a character class, so
  the list of successes (in the engine's order of preference) is defined by recursion on
  the expression.
\<close>

section \<open>Strings\<close>

definition startsWith :: "string \<Rightarrow> string \<Rightarrow> bool" where
  "startsWith s p \<longleftrightarrow> take (length p) s = p"

definition endsWith :: "string \<Rightarrow> string \<Rightarrow> bool" where
  "endsWith s p \<longleftrightarrow> length p \<le> length s \<and> drop (length s - length p) s = p"

fun includes_str :: "string \<Rightarrow> string \<Rightarrow> bool" where
  "includes_str [] p = (p = [])"
| "includes_str (c # cs) p = (startsWith (c # cs) p \<or> includes_str cs p)"

definition trim :: "string \<Rightarrow> string" where
  "trim s = rev (dropWhile is_space (rev (dropWhile is_space s)))"

definition trimStart :: "string \<Rightarrow> string" where
  "trimStart s = dropWhile is_space s"

text \<open>\<^verbatim>\<open>s.split(sep)\<close> for a one-character separator.\<close>

fun split_on :: "(char \<Rightarrow> bool) \<Rightarrow> string \<Rightarrow> string list" where
  "split_on P [] = [[]]"
| "split_on P (c # cs) =
     (if P c then [] # split_on P cs
      else (case split_on P cs of [] \<Rightarrow> [[c]] | w # ws \<Rightarrow> (c # w) # ws))"

abbreviation split_char :: "char \<Rightarrow> string \<Rightarrow> string list" where
  "split_char sep \<equiv> split_on (\<lambda>c. c = sep)"

fun join :: "string \<Rightarrow> string list \<Rightarrow> string" where
  "join sep [] = []"
| "join sep [w] = w"
| "join sep (w # ws) = w @ sep @ join sep ws"

text \<open>\<^verbatim>\<open>replace(/\r\n?/g, "\n")\<close> and \<^verbatim>\<open>replace(/\r\n/g, "\n")\<close>.\<close>

fun normalize_newlines :: "string \<Rightarrow> string" where
  "normalize_newlines [] = []"
| "normalize_newlines (c # cs) =
     (if c = CHR 0x0D
      then CHR 0x0A # (case cs of [] \<Rightarrow> [] | d # ds \<Rightarrow> if d = CHR 0x0A then normalize_newlines ds else normalize_newlines cs)
      else c # normalize_newlines cs)"

fun crlf_to_lf :: "string \<Rightarrow> string" where
  "crlf_to_lf [] = []"
| "crlf_to_lf (c # cs) =
     (case cs of
        [] \<Rightarrow> [c]
      | d # ds \<Rightarrow> if c = CHR 0x0D \<and> d = CHR 0x0A then CHR 0x0A # crlf_to_lf ds else c # crlf_to_lf cs)"

definition lines_of :: "string \<Rightarrow> string list" where
  "lines_of s = split_char (CHR 0x0A) s"

definition padStart :: "nat \<Rightarrow> char \<Rightarrow> string \<Rightarrow> string" where
  "padStart w c s = replicate (w - length s) c @ s"

text \<open>\<^verbatim>\<open>s.slice(-k)\<close>: the last \<open>k\<close> code units.\<close>

definition last_chars :: "nat \<Rightarrow> string \<Rightarrow> string" where
  "last_chars k s = drop (length s - k) s"

text \<open>Characters above the 8-bit range, in captions only.\<close>

definition ellipsis :: string where
  "ellipsis = [CHR 0xE2, CHR 0x80, CHR 0xA6]"

definition em_dash :: string where
  "em_dash = [CHR 0xE2, CHR 0x80, CHR 0x94]"

definition en_dash :: string where
  "en_dash = [CHR 0xE2, CHR 0x80, CHR 0x93]"

definition minus_sign :: string where
  "minus_sign = [CHR 0xE2, CHR 0x88, CHR 0x92]"

definition mid_dot :: string where
  "mid_dot = [CHR 0xB7]"

definition middot :: string where
  "middot = '' '' @ [CHR 0xB7] @ '' ''"

definition quoted :: "string \<Rightarrow> string" where
  "quoted s = [CHR 0x22] @ s @ [CHR 0x22]"

lemma startsWith_iff: "startsWith s p \<longleftrightarrow> (\<exists>t. s = p @ t)"
  unfolding startsWith_def by (metis append_eq_conv_conj append_take_drop_id)

lemma startsWith_append [simp]: "startsWith (p @ s) p"
  by (simp add: startsWith_def)

lemma endsWith_append [simp]: "endsWith (s @ p) p"
  by (simp add: endsWith_def)

lemma endsWith_iff: "endsWith s p \<longleftrightarrow> (\<exists>t. s = t @ p)"
  unfolding endsWith_def by (metis append_eq_append_conv append_take_drop_id endsWith_append endsWith_def)

lemma includes_str_iff: "includes_str s p \<longleftrightarrow> (\<exists>u v. s = u @ p @ v)"
proof (induction s)
  case Nil
  then show ?case by auto
next
  case (Cons c cs)
  have "(\<exists>u v. c # cs = u @ p @ v) \<longleftrightarrow> (\<exists>v. c # cs = p @ v) \<or> (\<exists>u v. cs = u @ p @ v)"
    by (metis append_Cons append_Nil list.exhaust list.inject)
  then show ?case using Cons.IH by (simp add: startsWith_iff)
qed

lemma split_on_not_Nil [simp]: "split_on P s \<noteq> []"
  by (induction s) (auto split: list.splits)

lemma split_on_none: "\<forall>c \<in> set s. \<not> P c \<Longrightarrow> split_on P s = [s]"
  by (induction s) auto

lemma split_on_append:
  "\<forall>c \<in> set s. \<not> P c \<Longrightarrow> P sep \<Longrightarrow> split_on P (s @ sep # t) = s # split_on P t"
  by (induction s) auto

lemma join_split_char: "join [sep] (split_char sep s) = s"
proof (induction s)
  case Nil
  then show ?case by simp
next
  case (Cons c cs)
  obtain w ws where w: "split_char sep cs = w # ws"
    by (metis list.exhaust split_on_not_Nil)
  show ?case
  proof (cases "c = sep")
    case True
    with Cons.IH w show ?thesis by simp
  next
    case False
    with Cons.IH w show ?thesis by (cases ws) auto
  qed
qed

lemma split_join:
  "ws \<noteq> [] \<Longrightarrow> \<forall>w \<in> set ws. sep \<notin> set w \<Longrightarrow> split_char sep (join [sep] ws) = ws"
proof (induction "[sep]" ws rule: join.induct)
  case 1
  then show ?case by simp
next
  case (2 w)
  then show ?case by (auto intro!: split_on_none)
next
  case (3 w v vs)
  then have "\<forall>c \<in> set w. c \<noteq> sep" by auto
  with 3 show ?case by (simp add: split_on_append)
qed

lemma set_split_char: "w \<in> set (split_char sep s) \<Longrightarrow> sep \<notin> set w \<and> set w \<subseteq> set s"
proof (induction s arbitrary: w)
  case Nil
  then show ?case by simp
next
  case (Cons c cs)
  then show ?case by (force split: if_splits list.splits)
qed

lemma trim_idem [simp]: "trim (trim s) = trim s"
proof -
  define a where "a = dropWhile is_space s"
  define b where "b = rev (dropWhile is_space (rev a))"
  have hd: "\<not> is_space (hd a)" if "a \<noteq> []" using that hd_dropWhile unfolding a_def by blast
  obtain c where c: "a = b @ c" using suffix_dropWhile [of is_space "rev a"] unfolding b_def by (metis rev_append rev_rev_ident suffix_def)
  have "dropWhile is_space b = b" using hd c by (cases b) auto
  moreover have "dropWhile is_space (rev b) = rev b" by (simp add: b_def dropWhile_idem)
  moreover have "trim s = b" by (simp add: trim_def a_def b_def)
  ultimately show ?thesis by (simp add: trim_def)
qed

lemma length_trim_le: "length (trim s) \<le> length s"
  unfolding trim_def by (metis length_dropWhile_le length_rev le_trans)

lemma length_padStart: "length (padStart w c s) = max w (length s)"
  by (auto simp: padStart_def)

section \<open>Numerals\<close>

definition digit_char :: "nat \<Rightarrow> char" where
  "digit_char d = char_of (48 + d)"

definition hex_char :: "nat \<Rightarrow> char" where
  "hex_char d = (if d < 10 then char_of (48 + d) else char_of (87 + d))"

text \<open>\<^verbatim>\<open>String(n)\<close> and \<^verbatim>\<open>n.toString(16)\<close> of a number at or above 0, and \<^verbatim>\<open>Number(s)\<close> of a run of digits.\<close>

fun show_nat :: "nat \<Rightarrow> string" where
  "show_nat n = (if n < 10 then [digit_char n] else show_nat (n div 10) @ [digit_char (n mod 10)])"

fun show_hex :: "nat \<Rightarrow> string" where
  "show_hex n = (if n < 16 then [hex_char n] else show_hex (n div 16) @ [hex_char (n mod 16)])"

definition read_nat :: "string \<Rightarrow> nat" where
  "read_nat s = foldl (\<lambda>n c. 10 * n + (code c - 48)) 0 s"

definition show_int :: "int \<Rightarrow> string" where
  "show_int i = (if i < 0 then CHR ''-'' # show_nat (nat (- i)) else show_nat (nat i))"

declare show_nat.simps [simp del] show_hex.simps [simp del]

lemma code_digit_char [simp]: "d < 10 \<Longrightarrow> code (digit_char d) = 48 + d"
  by (simp add: digit_char_def)

lemma is_digit_digit_char [simp]: "d < 10 \<Longrightarrow> is_digit (digit_char d)"
  by (simp add: is_digit_def)

lemma is_hex_hex_char [simp]: "d < 16 \<Longrightarrow> is_hex (hex_char d)"
  by (simp add: is_hex_def hex_char_def)

lemma show_nat_digits: "\<forall>c \<in> set (show_nat n). is_digit c"
proof (induction n rule: show_nat.induct)
  case (1 n)
  then show ?case by (subst show_nat.simps) auto
qed

lemma show_nat_not_Nil [simp]: "show_nat n \<noteq> []"
  by (subst show_nat.simps) simp

lemma read_nat_snoc: "read_nat (s @ [c]) = 10 * read_nat s + (code c - 48)"
  by (simp add: read_nat_def)

lemma read_show_nat [simp]: "read_nat (show_nat n) = n"
proof (induction n rule: show_nat.induct)
  case (1 n)
  show ?case
  proof (cases "n < 10")
    case True
    then show ?thesis by (subst show_nat.simps) (simp add: read_nat_def)
  next
    case False
    with 1 have "read_nat (show_nat (n div 10)) = n div 10" by simp
    with False show ?thesis by (subst show_nat.simps) (simp add: read_nat_snoc)
  qed
qed

lemma show_nat_inject [simp]: "show_nat m = show_nat n \<longleftrightarrow> m = n"
  by (metis read_show_nat)

lemma show_hex_hex: "\<forall>c \<in> set (show_hex n). is_hex c"
proof (induction n rule: show_hex.induct)
  case (1 n)
  then show ?case by (subst show_hex.simps) auto
qed

lemma length_show_hex: "n < 16 ^ Suc k \<Longrightarrow> length (show_hex n) \<le> Suc k"
proof (induction k arbitrary: n)
  case 0
  then show ?case by (subst show_hex.simps) simp
next
  case (Suc k)
  have "n div 16 < 16 ^ Suc k" using Suc.prems by (simp add: div_less_iff_less_mult mult.commute)
  with Suc.IH show ?case by (subst show_hex.simps) auto
qed

section \<open>FNV-1a\<close>

definition fnv_step :: "32 word \<Rightarrow> char \<Rightarrow> 32 word" where
  "fnv_step h c = (h XOR of_nat (code c)) * 0x01000193"

definition fnv_hash :: "string \<Rightarrow> 32 word" where
  "fnv_hash s = foldl fnv_step 0x811c9dc5 s"

definition hex8 :: "32 word \<Rightarrow> string" where
  "hex8 h = padStart 8 (CHR ''0'') (show_hex (unat h))"

lemma length_hex8 [simp]: "length (hex8 h) = 8"
proof -
  have "unat h < 16 ^ Suc 7" using unsigned_less [of h, where 'a = nat] by simp
  then have "length (show_hex (unat h)) \<le> 8" using length_show_hex [of "unat h" 7] by simp
  then show ?thesis by (simp add: hex8_def length_padStart)
qed

lemma hex8_hex: "\<forall>c \<in> set (hex8 h). is_hex c"
  using show_hex_hex [of "unat h"]
  by (auto simp: hex8_def padStart_def is_hex_def code_def)

section \<open>Regular expressions\<close>

text \<open>
  \<open>Ch P\<close> is one character of a class, \<open>Rep P\<close> the greedy \<open>[P]*\<close>, \<open>Cap r\<close> a capturing group,
  \<open>Eos\<close> the anchor \<open>$\<close> (no source expression uses the multiline flag). \<open>re_run r s\<close> lists the
  ways to match a prefix of \<open>s\<close>, most preferred first, each with the remaining input and the
  captured groups in the order they opened.
\<close>

datatype re = Eps | Ch "char \<Rightarrow> bool" | Rep "char \<Rightarrow> bool" | Seq re re | Alt re re | Cap re | Eos

primrec re_run :: "re \<Rightarrow> string \<Rightarrow> (string \<times> string list) list" where
  "re_run Eps s = [(s, [])]"
| "re_run (Ch P) s = (case s of [] \<Rightarrow> [] | c # cs \<Rightarrow> if P c then [(cs, [])] else [])"
| "re_run (Rep P) s = map (\<lambda>k. (drop k s, [])) (rev [0..<Suc (length (takeWhile P s))])"
| "re_run (Seq a b) s =
     concat (map (\<lambda>(s1, c1). map (\<lambda>(s2, c2). (s2, c1 @ c2)) (re_run b s1)) (re_run a s))"
| "re_run (Alt a b) s = re_run a s @ re_run b s"
| "re_run (Cap a) s = map (\<lambda>(s1, c). (s1, take (length s - length s1) s # c)) (re_run a s)"
| "re_run Eos s = (if s = [] then [(s, [])] else [])"

text \<open>\<^verbatim>\<open>/^r/.exec(s)\<close>: the groups of the preferred match, and the rest of the input.\<close>

definition re_match :: "re \<Rightarrow> string \<Rightarrow> (string \<times> string list) option" where
  "re_match r s = (case re_run r s of [] \<Rightarrow> None | m # _ \<Rightarrow> Some m)"

definition re_exec :: "re \<Rightarrow> string \<Rightarrow> string list option" where
  "re_exec r s = map_option snd (re_match r s)"

definition re_test :: "re \<Rightarrow> string \<Rightarrow> bool" where
  "re_test r s \<longleftrightarrow> re_run r s \<noteq> []"

primrec re_seq :: "re list \<Rightarrow> re" where
  "re_seq [] = Eps"
| "re_seq (r # rs) = Seq r (re_seq rs)"

definition re_lit :: "string \<Rightarrow> re" where
  "re_lit s = re_seq (map (\<lambda>c. Ch (\<lambda>d. d = c)) s)"

definition re_plus :: "(char \<Rightarrow> bool) \<Rightarrow> re" where
  "re_plus P = Seq (Ch P) (Rep P)"

definition re_opt :: "re \<Rightarrow> re" where
  "re_opt r = Alt r Eps"

primrec re_exactly :: "nat \<Rightarrow> (char \<Rightarrow> bool) \<Rightarrow> re" where
  "re_exactly 0 P = Eps"
| "re_exactly (Suc n) P = Seq (Ch P) (re_exactly n P)"

text \<open>\<^verbatim>\<open>[A-Za-z_][\w-]*\<close>, the identifiers of the model language and of specs.\<close>

definition re_ident :: re where
  "re_ident = Seq (Ch is_ident_start) (Rep is_word_dash)"

lemma re_run_suffix: "(s', c) \<in> set (re_run r s) \<Longrightarrow> suffix s' s"
proof (induction r arbitrary: s s' c)
  case (Rep P)
  then show ?case by (auto simp: suffix_drop)
next
  case (Seq a b)
  then show ?case by (fastforce dest: suffix_order.trans)
qed (auto split: list.splits if_splits simp: suffix_ConsI)

lemma re_run_captures: "(s', c) \<in> set (re_run r s) \<Longrightarrow> g \<in> set c \<Longrightarrow> set g \<subseteq> set s"
proof (induction r arbitrary: s s' c g)
  case (Seq a b)
  then obtain s1 c1 c2 where "(s1, c1) \<in> set (re_run a s)" "(s', c2) \<in> set (re_run b s1)" "c = c1 @ c2" by auto
  moreover have "set s1 \<subseteq> set s" using re_run_suffix [OF calculation(1)] by (rule set_mono_suffix)
  ultimately show ?case using Seq.IH Seq.prems(2) by (metis Un_iff dual_order.trans set_append)
next
  case (Cap r)
  then obtain b where b: "(s', b) \<in> set (re_run r s)" "c = take (length s - length s') s # b" by auto
  then show ?case using Cap.IH [OF b(1)] Cap.prems(2) set_take_subset by fastforce
next
  case (Alt a b)
  then show ?case by (simp only: re_run.simps set_append Un_iff) blast
qed (auto split: list.splits if_splits)

lemma re_exec_captures: "re_exec r s = Some c \<Longrightarrow> g \<in> set c \<Longrightarrow> set g \<subseteq> set s"
proof (cases "re_run r s")
  case (Cons m ms)
  assume "re_exec r s = Some c" "g \<in> set c"
  with Cons have "(fst m, c) \<in> set (re_run r s)" by (auto simp: re_exec_def re_match_def)
  then show ?thesis using \<open>g \<in> set c\<close> by (rule re_run_captures)
qed (simp add: re_exec_def re_match_def)

text \<open>
  A repetition whose continuation rejects every input that starts inside the class matches
  in one way only: it takes the whole run.
\<close>

lemma re_run_Rep_Seq:
  assumes "\<And>c cs. P c \<Longrightarrow> re_run b (c # cs) = []"
  shows "re_run (Seq (Rep P) b) s = re_run b (dropWhile P s)"
proof -
  let ?n = "length (takeWhile P s)"
  have run: "re_run (Rep P) s = (drop ?n s, []) # map (\<lambda>k. (drop k s, [])) (rev [0..<?n])"
    by simp
  have none: "re_run b (drop k s) = []" if "k < ?n" for k
  proof -
    have k: "k < length s" using that length_takeWhile_le le_less_trans less_le_trans by blast
    have "takeWhile P s ! k = s ! k" using that by (rule takeWhile_nth)
    then have "P (s ! k)" using that by (metis nth_mem set_takeWhileD)
    then show ?thesis using assms k by (simp add: Cons_nth_drop_Suc [symmetric])
  qed
  have "concat (map (\<lambda>(s1, c1). map (\<lambda>(s2, c2). (s2, c1 @ c2)) (re_run b s1)) (map (\<lambda>k. (drop k s, [])) (rev [0..<?n]))) = []"
    using none by auto
  then show ?thesis by (simp only: re_run.simps(4) run) (simp add: dropWhile_eq_drop)
qed

lemma re_run_Rep_Seq_ne:
  "re_run (Seq (Rep P) b) s \<noteq> [] \<longleftrightarrow> (\<exists>k \<le> length (takeWhile P s). re_run b (drop k s) \<noteq> [])"
  by (simp del: upt_Suc) (metis atLeastLessThan_iff le_imp_less_Suc less_Suc_eq_le set_upt zero_le)

lemma re_run_Ch_Cons [simp]: "re_run (Ch P) (c # cs) = (if P c then [(cs, [])] else [])"
  by simp

lemma re_run_Seq_Ch:
  "re_run (Seq (Ch P) b) s = (case s of [] \<Rightarrow> [] | c # cs \<Rightarrow> if P c then re_run b cs else [])"
  by (auto split: list.split)

lemma re_run_Seq_Eps: "re_run (Seq Eps b) s = re_run b s"
  by simp

lemma concat_concat_map: "concat (concat (map f xs)) = concat (map (\<lambda>x. concat (f x)) xs)"
  by (induction xs) auto

lemma re_run_Seq_assoc: "re_run (Seq (Seq a b) c) s = re_run (Seq a (Seq b c)) s"
  by (simp add: map_concat comp_def case_prod_unfold concat_concat_map)

text \<open>The same for a captured run, with or without a distinguished first character.\<close>

lemma re_run_Cap_Rep_Seq:
  assumes "\<And>c cs. P c \<Longrightarrow> re_run b (c # cs) = []"
  shows "re_run (Seq (Cap (Rep P)) b) s
    = map (\<lambda>(s2, c2). (s2, takeWhile P s # c2)) (re_run b (dropWhile P s))"
proof -
  let ?n = "length (takeWhile P s)"
  have none: "re_run b (drop k s) = []" if "k < ?n" for k
  proof -
    have k: "k < length s" using that length_takeWhile_le le_less_trans less_le_trans by blast
    have "P (s ! k)" using that by (metis nth_mem set_takeWhileD takeWhile_nth)
    then show ?thesis using assms k by (simp add: Cons_nth_drop_Suc [symmetric])
  qed
  have "length s - length (drop ?n s) = ?n"
    using length_takeWhile_le [of P s] by simp
  then have run: "re_run (Cap (Rep P)) s =
      (dropWhile P s, [takeWhile P s]) # map (\<lambda>k. (drop k s, [take (length s - length (drop k s)) s])) (rev [0..<?n])"
    by (simp add: dropWhile_eq_drop takeWhile_eq_take [symmetric])
  have "concat (map (\<lambda>(s1, c1). map (\<lambda>(s2, c2). (s2, c1 @ c2)) (re_run b s1))
      (map (\<lambda>k. (drop k s, [take (length s - length (drop k s)) s])) (rev [0..<?n]))) = []"
    using none by auto
  then show ?thesis by (simp only: re_run.simps(4) run) simp
qed

lemma re_run_Cap_ident_Seq:
  assumes "\<And>c cs. P c \<Longrightarrow> re_run b (c # cs) = []"
  shows "re_run (Seq (Cap (Seq (Ch Q) (Rep P))) b) s
    = (case s of [] \<Rightarrow> [] | c # cs \<Rightarrow>
        if Q c then map (\<lambda>(s2, c2). (s2, (c # takeWhile P cs) # c2)) (re_run b (dropWhile P cs)) else [])"
proof (cases s)
  case Nil
  then show ?thesis by simp
next
  case (Cons c cs)
  show ?thesis
  proof (cases "Q c")
    case False
    with Cons show ?thesis by simp
  next
    case True
    have suf: "length s1 \<le> length cs" if "(s1, c1) \<in> set (re_run (Rep P) cs)" for s1 c1
      using re_run_suffix [OF that] by (rule suffix_length_le)
    have "re_run (Cap (Seq (Ch Q) (Rep P))) s
        = map (\<lambda>(s1, c1). (s1, (c # take (length cs - length s1) cs) # c1)) (re_run (Rep P) cs)"
      using Cons True suf by (simp only: re_run.simps(6) re_run_Seq_Ch) (auto simp: Suc_diff_le)
    also have "\<dots> = map (\<lambda>(s1, c1). (s1, (c # hd c1) # tl c1)) (re_run (Cap (Rep P)) cs)"
      by (simp only: re_run.simps(6) map_map) (simp add: case_prod_unfold comp_def)
    finally have "re_run (Seq (Cap (Seq (Ch Q) (Rep P))) b) s
        = map (\<lambda>(s2, c2). (s2, (c # hd c2) # tl c2)) (re_run (Seq (Cap (Rep P)) b) cs)"
      by (simp only: re_run.simps(4)) (simp add: map_concat comp_def case_prod_unfold)
    then show ?thesis using Cons True by (simp only: re_run_Cap_Rep_Seq [OF assms]) (simp add: comp_def case_prod_unfold)
  qed
qed

lemma re_run_lit: "re_run (Seq (re_lit p) b) s = (if startsWith s p then re_run b (drop (length p) s) else [])"
proof (induction p arbitrary: s)
  case Nil
  then show ?case by (simp add: re_lit_def startsWith_def)
next
  case (Cons c p)
  have "re_run (Seq (re_lit (c # p)) b) s = re_run (Seq (Ch (\<lambda>d. d = c)) (Seq (re_lit p) b)) s"
    by (simp only: re_lit_def list.map re_seq.simps re_run_Seq_assoc)
  then show ?case
    by (simp only: re_run_Seq_Ch Cons.IH) (auto simp: startsWith_def split: list.split)
qed

lemma re_run_exactly:
  "re_run (Seq (re_exactly n P) b) s
    = (if n \<le> length s \<and> (\<forall>c \<in> set (take n s). P c) then re_run b (drop n s) else [])"
proof (induction n arbitrary: s)
  case 0
  then show ?case by simp
next
  case (Suc n)
  have "re_run (Seq (re_exactly (Suc n) P) b) s = re_run (Seq (Ch P) (Seq (re_exactly n P) b)) s"
    by (simp only: re_exactly.simps re_run_Seq_assoc)
  then show ?case by (simp only: re_run_Seq_Ch Suc.IH) (auto split: list.split)
qed

text \<open>\<^verbatim>\<open>/^[0-9a-f]{n}$/\<close>, the shape of every run id, hash and change key.\<close>

definition hex_n :: "nat \<Rightarrow> string \<Rightarrow> bool" where
  "hex_n n s = re_test (Seq (re_exactly n is_hex) Eos) s"

lemma hex_n_iff: "hex_n n s \<longleftrightarrow> length s = n \<and> (\<forall>c \<in> set s. is_hex c)"
  unfolding hex_n_def re_test_def re_run_exactly by auto

lemma hex_n_hex8 [simp]: "hex_n 8 (hex8 h)"
  using hex8_hex by (simp add: hex_n_iff)

lemma hex_n_append: "hex_n m s \<Longrightarrow> hex_n n t \<Longrightarrow> hex_n (m + n) (s @ t)"
  by (auto simp: hex_n_iff)

lemma hex_n_take: "hex_n m s \<Longrightarrow> n \<le> m \<Longrightarrow> hex_n n (take n s)"
  by (auto simp: hex_n_iff dest: in_set_takeD)

text \<open>
  \<^verbatim>\<open>crypto.randomUUID()\<close>: the text of 128 bits in groups of 8-4-4-4-12 hexadecimal digits. The bits
  are an argument wherever the source draws one; \<open>hex_id\<close> is the idiom
  \<^verbatim>\<open>crypto.randomUUID().replaceAll("-", "").slice(0, n)\<close>.
\<close>

definition uuid_text :: "128 word \<Rightarrow> string" where
  "uuid_text u =
     (let h = padStart 32 (CHR ''0'') (show_hex (unat u))
      in take 8 h @ ''-'' @ take 4 (drop 8 h) @ ''-'' @ take 4 (drop 12 h) @ ''-'' @ take 4 (drop 16 h)
         @ ''-'' @ drop 20 h)"

definition hex_id :: "nat \<Rightarrow> 128 word \<Rightarrow> string" where
  "hex_id n u = take n (filter (\<lambda>c. c \<noteq> CHR ''-'') (uuid_text u))"

lemma is_hex_not_dash: "is_hex c \<Longrightarrow> c \<noteq> CHR ''-''"
  by (auto simp: is_hex_def code_def)

lemma uuid_digits: "hex_n 32 (padStart 32 (CHR ''0'') (show_hex (unat u)))" for u :: "128 word"
proof -
  have "unat u < 16 ^ Suc 31" using unsigned_less [of u] by simp
  then have "length (show_hex (unat u)) \<le> 32" using length_show_hex [of "unat u" 31] by simp
  then show ?thesis using show_hex_hex [of "unat u"]
    by (auto simp: hex_n_iff length_padStart) (auto simp: padStart_def is_hex_def code_def)
qed

lemma hex_id_eq: "hex_id n u = take n (padStart 32 (CHR ''0'') (show_hex (unat u)))"
proof -
  define h where "h = padStart 32 (CHR ''0'') (show_hex (unat u))"
  have hex: "\<forall>c \<in> set h. c \<noteq> CHR ''-''" using uuid_digits [of u] is_hex_not_dash by (auto simp: h_def hex_n_iff)
  then have f: "filter (\<lambda>c. c \<noteq> CHR ''-'') xs = xs" if "set xs \<subseteq> set h" for xs
    using that by (auto simp: filter_id_conv)
  have parts: "filter (\<lambda>c. c \<noteq> CHR ''-'') (take k (drop j h)) = take k (drop j h)"
      "filter (\<lambda>c. c \<noteq> CHR ''-'') (drop j h) = drop j h" for j k
    by (rule f; meson order_trans set_drop_subset set_take_subset)+
  have "take 8 h @ take 4 (drop 8 h) @ take 4 (drop 12 h) @ take 4 (drop 16 h) @ drop 20 h = h"
    using append_take_drop_id [of 8 h] append_take_drop_id [of 4 "drop 8 h"]
      append_take_drop_id [of 4 "drop 12 h"] append_take_drop_id [of 4 "drop 16 h"] by (simp add: add.commute)
  then show ?thesis using parts [where j = 0] parts
    by (simp add: hex_id_def uuid_text_def Let_def flip: h_def)
qed

lemma hex_n_hex_id [simp]: "n \<le> 32 \<Longrightarrow> hex_n n (hex_id n u)"
  unfolding hex_id_eq by (rule hex_n_take [OF uuid_digits])

lemma re_run_Cap_exactly:
  "re_run (Seq (Cap (re_exactly n P)) b) s
    = (if n \<le> length s \<and> (\<forall>c \<in> set (take n s). P c)
       then map (\<lambda>(s2, c2). (s2, take n s # c2)) (re_run b (drop n s)) else [])"
proof -
  have "re_run (re_exactly n P) s = re_run (Seq (re_exactly n P) Eps) s"
    by (simp add: case_prod_unfold)
  also have "\<dots> = (if n \<le> length s \<and> (\<forall>c \<in> set (take n s). P c) then [(drop n s, [])] else [])"
    by (simp only: re_run_exactly) simp
  finally show ?thesis by (simp only: re_run.simps) auto
qed

lemma char_of_eq_code [char_simps]: "char_of n = c \<longleftrightarrow> n mod 256 = code c"
  by (metis char_of_char char_of_mod_256 code_char_of code_def)

lemma length_show_nat: "n < 10 ^ Suc k \<Longrightarrow> length (show_nat n) \<le> Suc k"
proof (induction k arbitrary: n)
  case 0
  then show ?case by (subst show_nat.simps) simp
next
  case (Suc k)
  have "n div 10 < 10 ^ Suc k" using Suc.prems by (simp add: div_less_iff_less_mult mult.commute)
  with Suc.IH show ?case by (subst show_nat.simps) auto
qed

text \<open>A number as exactly \<open>w\<close> digits: \<^verbatim>\<open>String(n).padStart(w, "0")\<close>.\<close>

definition pad :: "nat \<Rightarrow> nat \<Rightarrow> string" where
  "pad w n = padStart w (CHR ''0'') (show_nat n)"

lemma length_pad: "n < 10 ^ w \<Longrightarrow> 0 < w \<Longrightarrow> length (pad w n) = w"
  using length_show_nat [of n "w - 1"] by (simp add: pad_def length_padStart)

lemma pad_digits: "c \<in> set (pad w n) \<Longrightarrow> is_digit c"
  using show_nat_digits [of n] by (auto simp: pad_def padStart_def is_digit_def code_def)

lemma read_nat_zeros: "read_nat (replicate k (CHR ''0'') @ s) = read_nat s"
  by (induction k) (simp_all add: read_nat_def code_def)

lemma read_nat_pad [simp]: "read_nat (pad w n) = n"
  by (simp add: pad_def padStart_def read_nat_zeros)

lemma re_run_opt_Seq: "re_run (Seq (re_opt r) b) s = re_run (Seq r b) s @ re_run b s"
  by (simp add: re_opt_def)

lemma re_run_Seq_Eos: "re_run (Seq Eos b) s = (if s = [] then re_run b s else [])"
  by simp

lemmas re_det = re_run_Seq_Eos re_run_Cap_exactly re_run_lit re_run_opt_Seq re_run_Seq_assoc re_run_Seq_Eps

section \<open>Splitting at a regular expression\<close>

text \<open>
  \<^verbatim>\<open>s.split(/r/)\<close> for an expression that matches no empty string and a non-empty \<open>s\<close>: the
  leftmost match ends the current piece.
\<close>

function split_re :: "re \<Rightarrow> string \<Rightarrow> string \<Rightarrow> string list" where
  "split_re r acc [] = [rev acc]"
| "split_re r acc (c # cs) =
     (case re_match r (c # cs) of
        Some (rest, _) \<Rightarrow>
          if length rest \<le> length cs then rev acc # split_re r [] rest else split_re r (c # acc) cs
      | None \<Rightarrow> split_re r (c # acc) cs)"
  by pat_completeness auto

termination
  by (relation "measure (\<lambda>(r, acc, s). length s)") auto

end
