(* ===== verification/Js_Date.thy ===== *)
theory Js_Date
  imports Js_String
begin

text \<open>
  \<^verbatim>\<open>Date\<close>: an instant is a number of milliseconds since 1970-01-01T00:00:00Z, here a natural
  number (every clock the console reads is after 1970). \<open>toISOString\<close> and \<open>Date_parse\<close> are the
  built-ins on the one format the console writes and reads, \<^verbatim>\<open>YYYY-MM-DDTHH:mm:ss[.sss]Z\<close>;
  \<^verbatim>\<open>NaN\<close>, the result on any other text, is \<open>None\<close>.
\<close>

type_synonym instant = nat

definition leap :: "nat \<Rightarrow> bool" where
  "leap y \<longleftrightarrow> y mod 4 = 0 \<and> (y mod 100 \<noteq> 0 \<or> y mod 400 = 0)"

definition days_in_year :: "nat \<Rightarrow> nat" where
  "days_in_year y = (if leap y then 366 else 365)"

definition month_lengths :: "nat \<Rightarrow> nat list" where
  "month_lengths y = [31, if leap y then 29 else 28, 31, 30, 31, 30, 31, 31, 30, 31, 30, 31]"

text \<open>Split a day number into the year it falls in, and a day of the year into month and day.\<close>

function year_of :: "nat \<Rightarrow> nat \<Rightarrow> nat \<times> nat" where
  "year_of y d = (if d < days_in_year y then (y, d) else year_of (Suc y) (d - days_in_year y))"
  by pat_completeness auto
termination
  by (relation "measure snd") (auto simp: days_in_year_def)

declare year_of.simps [simp del]

fun month_of :: "nat list \<Rightarrow> nat \<Rightarrow> nat \<Rightarrow> nat \<times> nat" where
  "month_of [] m d = (m, d)"
| "month_of (l # ls) m d = (if d < l then (m, d) else month_of ls (Suc m) (d - l))"

definition toISOString :: "instant \<Rightarrow> string" where
  "toISOString t =
     (let (y, yd) = year_of 1970 (t div 86400000);
          (m, d) = month_of (month_lengths y) 1 yd;
          r = t mod 86400000
      in pad 4 y @ ''-'' @ pad 2 m @ ''-'' @ pad 2 (Suc d) @ ''T'' @ pad 2 (r div 3600000) @ '':''
         @ pad 2 (r div 60000 mod 60) @ '':'' @ pad 2 (r div 1000 mod 60) @ ''.'' @ pad 3 (r mod 1000) @ ''Z'')"

definition getUTCHours :: "instant \<Rightarrow> nat" where
  "getUTCHours t = t mod 86400000 div 3600000"

definition getUTCMinutes :: "instant \<Rightarrow> nat" where
  "getUTCMinutes t = t mod 86400000 div 60000 mod 60"

definition getUTCSeconds :: "instant \<Rightarrow> nat" where
  "getUTCSeconds t = t mod 86400000 div 1000 mod 60"

definition iso_re :: re where
  "iso_re = re_seq
     [Cap (re_exactly 4 is_digit), re_lit ''-'', Cap (re_exactly 2 is_digit), re_lit ''-'',
      Cap (re_exactly 2 is_digit), re_lit ''T'', Cap (re_exactly 2 is_digit), re_lit '':'',
      Cap (re_exactly 2 is_digit), re_lit '':'', Cap (re_exactly 2 is_digit),
      re_opt (Seq (re_lit ''.'') (Cap (re_exactly 3 is_digit))), re_lit ''Z'', Eos]"

definition days_before_year :: "nat \<Rightarrow> nat" where
  "days_before_year y = sum_list (map days_in_year [1970..<y])"

definition instant_of :: "nat \<Rightarrow> nat \<Rightarrow> nat \<Rightarrow> nat \<Rightarrow> instant option" where
  "instant_of y m d ms =
     (if 1970 \<le> y \<and> 1 \<le> m \<and> m \<le> 12 \<and> 1 \<le> d \<and> d \<le> month_lengths y ! (m - 1) \<and> ms < 86400000
      then Some ((days_before_year y + sum_list (take (m - 1) (month_lengths y)) + (d - 1)) * 86400000 + ms)
      else None)"

definition Date_parse :: "string \<Rightarrow> instant option" where
  "Date_parse s =
     (case re_exec iso_re s of
        Some [y, mo, d, h, mi, sec] \<Rightarrow>
          (if read_nat mi < 60 \<and> read_nat sec < 60
           then instant_of (read_nat y) (read_nat mo) (read_nat d)
                  (read_nat h * 3600000 + read_nat mi * 60000 + read_nat sec * 1000)
           else None)
      | Some [y, mo, d, h, mi, sec, ms] \<Rightarrow>
          (if read_nat mi < 60 \<and> read_nat sec < 60
           then instant_of (read_nat y) (read_nat mo) (read_nat d)
                  (read_nat h * 3600000 + read_nat mi * 60000 + read_nat sec * 1000 + read_nat ms)
           else None)
      | _ \<Rightarrow> None)"

section \<open>The calendar splits invert\<close>

lemma days_before_year_Suc: "1970 \<le> y \<Longrightarrow> days_before_year (Suc y) = days_before_year y + days_in_year y"
  by (simp add: days_before_year_def)

lemma year_of_correct:
  "year_of y d = (y', d') \<Longrightarrow> 1970 \<le> y \<Longrightarrow>
     y \<le> y' \<and> d' < days_in_year y' \<and> days_before_year y' + d' = days_before_year y + d"
proof (induction y d arbitrary: y' d' rule: year_of.induct)
  case (1 y d)
  show ?case
  proof (cases "d < days_in_year y")
    case True
    with 1 show ?thesis by (simp add: year_of.simps [of y d])
  next
    case False
    with 1 have "Suc y \<le> y' \<and> d' < days_in_year y' \<and>
        days_before_year y' + d' = days_before_year (Suc y) + (d - days_in_year y)"
      by (simp add: year_of.simps [of y d])
    with False 1 show ?thesis by (simp add: days_before_year_Suc)
  qed
qed

lemma month_of_correct:
  "month_of ls m d = (m', d') \<Longrightarrow> d < sum_list ls \<Longrightarrow>
     m \<le> m' \<and> m' - m < length ls \<and> d' < ls ! (m' - m) \<and> sum_list (take (m' - m) ls) + d' = d"
proof (induction ls m d arbitrary: m' d' rule: month_of.induct)
  case (1 m d)
  then show ?case by simp
next
  case (2 l ls m d)
  show ?case
  proof (cases "d < l")
    case True
    with 2 show ?thesis by simp
  next
    case False
    with 2 have "Suc m \<le> m' \<and> m' - Suc m < length ls \<and> d' < ls ! (m' - Suc m) \<and>
        sum_list (take (m' - Suc m) ls) + d' = d - l" by auto
    moreover from this have "m' - m = Suc (m' - Suc m)" by arith
    ultimately show ?thesis using False by (simp add: add.assoc)
  qed
qed

lemma sum_month_lengths: "sum_list (month_lengths y) = days_in_year y"
  by (simp add: month_lengths_def days_in_year_def)

lemma month_length_le: "i < 12 \<Longrightarrow> month_lengths y ! i \<le> 31"
  by (simp add: month_lengths_def less_Suc_eq numeral_eq_Suc) auto

section \<open>Formatting and parsing invert\<close>

lemma clock_sum:
  "r = q * 1000 + d \<Longrightarrow> q = s * 60 + c \<Longrightarrow> s = a * 60 + b \<Longrightarrow>
     a * 3600000 + b * 60000 + c * 1000 + d = (r :: nat)"
  by simp

lemma clock_parts:
  "r div 3600000 * 3600000 + r div 60000 mod 60 * 60000 + r div 1000 mod 60 * 1000 + r mod 1000 = (r :: nat)"
proof -
  have "r div 60000 = r div 1000 div 60" "r div 3600000 = r div 60000 div 60"
    by (simp_all add: div_mult2_eq [symmetric])
  then show ?thesis
    by (intro clock_sum [of r "r div 1000" _ "r div 60000"]) (simp_all only: div_mult_mod_eq)
qed

lemma iso_re_exec:
  assumes "length a = 4" "length b = 2" "length c = 2" "length d = 2" "length e = 2" "length f = 2" "length g = 3"
    and "\<forall>x \<in> set a \<union> set b \<union> set c \<union> set d \<union> set e \<union> set f \<union> set g. is_digit x"
  shows "re_exec iso_re (a @ ''-'' @ b @ ''-'' @ c @ ''T'' @ d @ '':'' @ e @ '':'' @ f @ ''.'' @ g @ ''Z'')
    = Some [a, b, c, d, e, f, g]"
  using assms unfolding re_exec_def re_match_def iso_re_def re_seq.simps
  by (simp add: re_det startsWith_def del: re_run.simps(4))

theorem Date_parse_toISOString:
  assumes "fst (year_of 1970 (t div 86400000)) < 10000"
  shows "Date_parse (toISOString t) = Some t"
proof -
  obtain y yd where y: "year_of 1970 (t div 86400000) = (y, yd)" by fastforce
  obtain m d where m: "month_of (month_lengths y) 1 yd = (m, d)" by fastforce
  let ?r = "t mod 86400000"
  from year_of_correct [OF y] have yc: "1970 \<le> y" "yd < days_in_year y" "days_before_year y + yd = t div 86400000"
    by (simp_all add: days_before_year_def)
  from month_of_correct [OF m] yc(2) have mc: "1 \<le> m" "m - 1 < 12" "d < month_lengths y ! (m - 1)"
      "sum_list (take (m - 1) (month_lengths y)) + d = yd"
    by (simp_all add: sum_month_lengths) (simp_all add: month_lengths_def)
  have d31: "d < 31" using mc(2,3) month_length_le less_le_trans by blast
  have r: "?r < 86400000" by simp
  have parts: "?r div 3600000 < 24" "?r div 60000 mod 60 < 60" "?r div 1000 mod 60 < 60" "?r mod 1000 < 1000"
    using r by (simp_all add: div_less_iff_less_mult)
  note sum = clock_parts [of ?r]
  have iso: "re_exec iso_re (toISOString t) = Some [pad 4 y, pad 2 m, pad 2 (Suc d), pad 2 (?r div 3600000),
      pad 2 (?r div 60000 mod 60), pad 2 (?r div 1000 mod 60), pad 3 (?r mod 1000)]"
    unfolding toISOString_def y m Let_def prod.case
    by (rule iso_re_exec) (use assms y mc d31 parts in \<open>auto simp: length_pad pad_digits\<close>)
  have "Date_parse (toISOString t) = instant_of y m (Suc d) ?r"
    unfolding Date_parse_def iso using parts sum by simp
  also have "\<dots> = Some (t div 86400000 * 86400000 + ?r)"
    using yc mc r by (simp add: instant_of_def add.assoc)
  also have "\<dots> = Some t" by simp
  finally show ?thesis .
qed

text \<open>Instants whose year is written with four digits; a day count below 365 times 8030 is a safe bound.\<close>

definition clock_ok :: "instant \<Rightarrow> bool" where
  "clock_ok t \<longleftrightarrow> t div 86400000 < 2930950"

lemma days_before_year_ge: "1970 \<le> y \<Longrightarrow> 365 * (y - 1970) \<le> days_before_year y"
proof (induction y rule: dec_induct)
  case base
  then show ?case by simp
next
  case (step y)
  have "365 \<le> days_in_year y" by (simp add: days_in_year_def)
  with step days_before_year_Suc [of y] show ?case by arith
qed

lemma clock_ok_parse: "clock_ok t \<Longrightarrow> Date_parse (toISOString t) = Some t"
proof (rule Date_parse_toISOString)
  assume t: "clock_ok t"
  obtain y d where y: "year_of 1970 (t div 86400000) = (y, d)" by fastforce
  have "1970 \<le> y" "days_before_year y \<le> t div 86400000"
    using year_of_correct [OF y] by (auto simp: days_before_year_def)
  then have "365 * (y - 1970) < 2930950" using days_before_year_ge [of y] t by (simp add: clock_ok_def)
  then show "fst (year_of 1970 (t div 86400000)) < 10000" by (simp add: y)
qed

end
