(* ===== verification/Paging.thy ===== *)
theory Paging
  imports Js_String
begin

text \<open>
  Cursor pagination. Every list endpoint of the console answers one page and a cursor for the
  next one; the browser follows cursors until it gets \<^verbatim>\<open>null\<close>. \<open>walk\<close> is that client loop.
  The contract of an endpoint is the locale \<open>cursor_pager\<close>: the page at offset \<open>j\<close> is reached
  by a cursor \<open>enc j\<close>. Two encodings occur in the source, an offset written as \<^verbatim>\<open>c<offset>\<close>
  (\<open>offset_pager\<close>) and the key of the last row of the previous page (\<open>key_pager\<close>); each gives
  the general contract by a sublocale.
\<close>

section \<open>The client loop\<close>

fun walk :: "nat \<Rightarrow> (string option \<Rightarrow> 'a list \<times> string option) \<Rightarrow> string option \<Rightarrow> 'a list option" where
  "walk 0 fetch cur = None"
| "walk (Suc n) fetch cur =
     (case fetch cur of
        (items, None) \<Rightarrow> Some items
      | (items, Some c) \<Rightarrow> map_option ((@) items) (walk n fetch (Some c)))"

text \<open>
  The code of the offset endpoints (relations, audit events, users) after filtering: decode
  the cursor, slice, and encode the end of the page.
\<close>

definition CURSOR :: re where
  "CURSOR = re_seq [re_lit ''c'', Cap (Seq (Ch is_digit) (Rep is_digit)), Eos]"

definition cursor_offset :: "string option \<Rightarrow> nat" where
  "cursor_offset cursor =
     (case cursor of
        None \<Rightarrow> 0
      | Some c \<Rightarrow>
          if c = [] then 0
          else (case re_exec CURSOR c of Some [d] \<Rightarrow> read_nat d | _ \<Rightarrow> 0))"

definition offset_cursor :: "nat \<Rightarrow> string" where
  "offset_cursor n = ''c'' @ show_nat n"

definition offset_page :: "'a list \<Rightarrow> nat \<Rightarrow> string option \<Rightarrow> 'a list \<times> string option" where
  "offset_page filtered limit cursor =
     (let offset = cursor_offset cursor;
          items = slice offset (offset + limit) filtered;
          stop = offset + length items
      in (items, if stop < length filtered then Some (offset_cursor stop) else None))"

lemma CURSOR_exec:
  "re_exec CURSOR (offset_cursor n) = Some [show_nat n]"
proof -
  obtain d ds where d: "show_nat n = d # ds" by (meson list.exhaust show_nat_not_Nil)
  with show_nat_digits [of n] have dig: "is_digit d" "\<forall>c \<in> set ds. is_digit c" by auto
  have "re_run (Seq (Cap (Seq (Ch is_digit) (Rep is_digit))) (Seq Eos Eps)) (d # ds) = [([], [d # ds])]"
    by (subst re_run_Cap_ident_Seq) (use dig in auto)
  then show ?thesis
    by (simp add: CURSOR_def offset_cursor_def re_exec_def re_match_def re_run_lit d startsWith_def del: re_run.simps(4))
qed

lemma cursor_offset_offset_cursor [simp]: "cursor_offset (Some (offset_cursor n)) = n"
  by (simp add: cursor_offset_def CURSOR_exec) (simp add: offset_cursor_def)

lemma cursor_offset_None [simp]: "cursor_offset None = 0"
  by (simp add: cursor_offset_def)

section \<open>The contract of a paged endpoint\<close>

locale cursor_pager =
  fixes fetch :: "string option \<Rightarrow> 'a list \<times> string option"
    and all :: "'a list"
    and limit :: nat
    and enc :: "nat \<Rightarrow> string"
  assumes limit_pos: "0 < limit"
    and fetch_first: "fetch None = (slice 0 limit all, if limit < length all then Some (enc limit) else None)"
    and fetch_next: "0 < j \<Longrightarrow> j < length all \<Longrightarrow>
      fetch (Some (enc j)) = (slice j (j + limit) all, if j + limit < length all then Some (enc (j + limit)) else None)"
begin

lemma walk_from:
  "0 < j \<Longrightarrow> j < length all \<Longrightarrow> length all - j < n \<Longrightarrow> walk n fetch (Some (enc j)) = Some (drop j all)"
proof (induction n arbitrary: j)
  case 0
  then show ?case by simp
next
  case (Suc n)
  show ?case
  proof (cases "j + limit < length all")
    case True
    with Suc limit_pos have "walk n fetch (Some (enc (j + limit))) = Some (drop (j + limit) all)"
      by simp
    with True Suc.prems show ?thesis by (simp add: fetch_next slice_append_drop)
  next
    case False
    then have "slice j (j + limit) all = drop j all" by (simp add: slice_def)
    with False Suc.prems show ?thesis by (simp add: fetch_next)
  qed
qed

text \<open>The loop ends, and the pages together are exactly the list, in order, each row once.\<close>

lemma walk_complete: "length all < n \<Longrightarrow> walk n fetch None = Some all"
proof (cases n)
  case 0
  assume "length all < n"
  with 0 show ?thesis by simp
next
  case (Suc m)
  assume n: "length all < n"
  show ?thesis
  proof (cases "limit < length all")
    case True
    with n Suc limit_pos have "walk m fetch (Some (enc limit)) = Some (drop limit all)"
      by (intro walk_from) auto
    with True Suc show ?thesis by (simp add: fetch_first slice_def)
  next
    case False
    with Suc show ?thesis by (simp add: fetch_first slice_def)
  qed
qed

lemma first_page_bounded: "length (fst (fetch None)) \<le> limit"
  by (simp add: fetch_first length_slice)

end

locale offset_pager =
  fixes fetch :: "string option \<Rightarrow> 'a list \<times> string option"
    and all :: "'a list"
    and limit :: nat
  assumes pos: "0 < limit"
    and law: "fetch cur = offset_page all limit cur"

sublocale offset_pager \<subseteq> cursor_pager fetch all limit offset_cursor
  by unfold_locales (auto simp: pos law offset_page_def Let_def length_slice)

context offset_pager
begin

lemma pages_complete: "length all < n \<Longrightarrow> walk n fetch None = Some all"
  by (rule walk_complete)

end

locale key_pager =
  fixes fetch :: "string option \<Rightarrow> 'a list \<times> string option"
    and all :: "'a list"
    and limit :: nat
    and key :: "'a \<Rightarrow> string"
  assumes pos: "0 < limit"
    and keys_distinct: "distinct (map key all)"
    and first: "fetch None = (take limit all, if limit < length all then Some (key (last (take limit all))) else None)"
    and after: "i < length all \<Longrightarrow>
      fetch (Some (key (all ! i))) =
        (take limit (drop (Suc i) all),
         if Suc i + limit < length all then Some (key (last (take limit (drop (Suc i) all)))) else None)"

lemma last_take_nth: "0 < n \<Longrightarrow> n \<le> length xs \<Longrightarrow> last (take n xs) = xs ! (n - 1)"
  by (subst last_conv_nth) (auto simp: min_def)

sublocale key_pager \<subseteq> cursor_pager fetch all limit "\<lambda>j. key (all ! (j - 1))"
proof unfold_locales
  show "0 < limit" by (rule pos)
  have "limit < length all \<Longrightarrow> last (take limit all) = all ! (limit - 1)"
    using pos by (simp add: last_take_nth)
  then show "fetch None = (slice 0 limit all, if limit < length all then Some (key (all ! (limit - 1))) else None)"
    by (simp add: first slice_def)
  fix j
  assume j: "0 < j" "j < length all"
  have "j + limit < length all \<Longrightarrow> last (take limit (drop j all)) = all ! (j + limit - 1)"
    using pos j by (simp add: last_take_nth)
  then show "fetch (Some (key (all ! (j - 1)))) =
      (slice j (j + limit) all, if j + limit < length all then Some (key (all ! (j + limit - 1))) else None)"
    using after [of "j - 1"] j by (simp add: slice_def)
qed

context key_pager
begin

lemma pages_complete: "length all < n \<Longrightarrow> walk n fetch None = Some all"
  by (rule walk_complete)

end

end
