(* ===== verification/Stores.thy ===== *)
theory Stores
  imports Js_Prelude
begin

text \<open>
  The contracts of the in-memory stores behind the server functions.

  \<^item> \<open>lazy_store\<close>: six features keep a \<^verbatim>\<open>Map\<close> from tenant slug to state and seed an entry on
    first use (\<^verbatim>\<open>stateFor\<close>, \<^verbatim>\<open>storeFor\<close>, \<^verbatim>\<open>rolesFor\<close>, \<^verbatim>\<open>providersFor\<close>). The laws are what
    the callers rely on: a cached entry is returned as it is, an unknown tenant leaves the
    store alone, a seeded entry is the one stored, other tenants are untouched.
  \<^item> \<open>keyed_replay\<close>: three mutations carry an Idempotency-Key and answer a replay from a table.
  \<^item> \<open>transition_system\<close>: a component as a step function with an invariant, and its runs.
  \<^item> \<open>single_flight\<close>: a screen that sends nothing while a request is in flight.
\<close>

section \<open>Lazily seeded stores\<close>

locale lazy_store =
  fixes acquire :: "'s \<Rightarrow> 'k \<Rightarrow> 's \<times> 'v option"
    and peek :: "'s \<Rightarrow> 'k \<Rightarrow> 'v option"
    and seed :: "'k \<Rightarrow> 'v option"
  assumes hit: "peek s k = Some v \<Longrightarrow> acquire s k = (s, Some v)"
    and miss_unknown: "peek s k = None \<Longrightarrow> seed k = None \<Longrightarrow> acquire s k = (s, None)"
    and miss_known: "peek s k = None \<Longrightarrow> seed k = Some v \<Longrightarrow> snd (acquire s k) = Some v"
    and seeded: "peek s k = None \<Longrightarrow> seed k = Some v \<Longrightarrow> peek (fst (acquire s k)) k = Some v"
    and frame: "k' \<noteq> k \<Longrightarrow> peek (fst (acquire s k)) k' = peek s k'"
begin

text \<open>What a caller sees of a key, cached or not.\<close>

definition view :: "'s \<Rightarrow> 'k \<Rightarrow> 'v option" where
  "view s k = (case peek s k of Some v \<Rightarrow> Some v | None \<Rightarrow> seed k)"

lemma snd_acquire: "snd (acquire s k) = view s k"
proof (cases "peek s k")
  case None
  then show ?thesis by (cases "seed k") (simp_all add: view_def miss_unknown miss_known)
next
  case (Some v)
  then show ?thesis by (simp add: view_def hit)
qed

lemma view_acquire: "view (fst (acquire s k)) k' = view s k'"
proof (cases "k' = k")
  case True
  show ?thesis
  proof (cases "peek s k")
    case None
    then show ?thesis using True
      by (cases "seed k") (simp_all add: view_def miss_unknown seeded)
  next
    case (Some v)
    then show ?thesis using True by (simp add: view_def hit)
  qed
next
  case False
  then show ?thesis by (simp add: view_def frame)
qed

lemma peek_acquire: "snd (acquire s k) = Some v \<Longrightarrow> peek (fst (acquire s k)) k = Some v"
proof (cases "peek s k")
  case None
  assume "snd (acquire s k) = Some v"
  with None show ?thesis by (cases "seed k") (simp_all add: miss_unknown miss_known seeded)
next
  case (Some w)
  assume "snd (acquire s k) = Some v"
  with Some show ?thesis by (simp add: hit)
qed

lemma acquire_idem: "acquire (fst (acquire s k)) k = (fst (acquire s k), snd (acquire s k))"
proof (cases "snd (acquire s k)")
  case None
  then have v: "view s k = None" by (simp add: snd_acquire)
  then have "peek s k = None" "seed k = None" by (auto simp: view_def split: option.splits)
  then show ?thesis by (simp add: miss_unknown)
next
  case (Some v)
  then show ?thesis using hit [OF peek_acquire [OF Some]] by simp
qed

end

section \<open>Runs of a component\<close>

primrec run :: "('s \<Rightarrow> 'op \<Rightarrow> 's) \<Rightarrow> 's \<Rightarrow> 'op list \<Rightarrow> 's" where
  "run step s [] = s"
| "run step s (x # xs) = run step (step s x) xs"

lemma run_append: "run step s (xs @ ys) = run step (run step s xs) ys"
  by (induction xs arbitrary: s) simp_all

locale transition_system =
  fixes step :: "'s \<Rightarrow> 'op \<Rightarrow> 's"
    and inv :: "'s \<Rightarrow> bool"
  assumes step_inv: "inv s \<Longrightarrow> inv (step s x)"
begin

lemma run_inv: "inv s \<Longrightarrow> inv (run step s xs)"
  by (induction xs arbitrary: s) (auto intro: step_inv)

end

text \<open>
  Requests one at a time: while one is in flight none is sent, sending puts one in flight, and only an event that settles it
  ends that. Then, between a request and what settles it, no other is sent, whatever else happens.
\<close>

locale single_flight =
  fixes step :: "'s \<Rightarrow> 'x \<Rightarrow> 's"
    and sends :: "'s \<Rightarrow> 'x \<Rightarrow> bool"
    and in_flight :: "'s \<Rightarrow> bool"
    and settles :: "'x \<Rightarrow> bool"
  assumes one: "sends s x \<Longrightarrow> \<not> in_flight s"
    and starts: "sends s x \<Longrightarrow> in_flight (step s x)"
    and stays: "in_flight s \<Longrightarrow> \<not> settles x \<Longrightarrow> in_flight (step s x)"
begin

lemma stays_run: "in_flight s \<Longrightarrow> list_all (\<lambda>x. \<not> settles x) xs \<Longrightarrow> in_flight (run step s xs)"
  by (induction xs arbitrary: s) (simp_all add: stays)

lemma none_until_settled: "sends s x \<Longrightarrow> list_all (\<lambda>y. \<not> settles y) ys \<Longrightarrow> \<not> sends (run step (step s x) ys) y"
  using one stays_run starts by blast

end

section \<open>Idempotency keys\<close>

locale keyed_replay =
  fixes perform :: "'k \<Rightarrow> 'a \<Rightarrow> 's \<Rightarrow> 's \<times> 'r"
    and answered :: "'s \<Rightarrow> 'k \<Rightarrow> 'r option"
    and accepted :: "'r \<Rightarrow> bool"
  assumes replay: "answered s k = Some r \<Longrightarrow> perform k a s = (s, r)"
    and recorded: "answered s k = None \<Longrightarrow> perform k a s = (s', r) \<Longrightarrow> accepted r \<Longrightarrow> answered s' k = Some r"
begin

lemma answered_after:
  assumes "perform k a s = (s', r)" and "accepted r"
  shows "answered s' k = Some r"
proof (cases "answered s k")
  case None
  then show ?thesis using assms by (intro recorded)
next
  case (Some q)
  with assms show ?thesis by (simp add: replay)
qed

text \<open>Sending the key of an accepted request again, whatever the payload, changes nothing and answers the same.\<close>

lemma perform_twice: "perform k a s = (s', r) \<Longrightarrow> accepted r \<Longrightarrow> perform k b s' = (s', r)"
  by (rule replay) (rule answered_after)

end

text \<open>
  Answers that other operations never revoke: however the component is used in between, the
  key still answers what it answered first.
\<close>

locale keyed_log = keyed_replay perform answered accepted
  for perform :: "'k \<Rightarrow> 'a \<Rightarrow> 's \<Rightarrow> 's \<times> 'r" and answered :: "'s \<Rightarrow> 'k \<Rightarrow> 'r option" and accepted :: "'r \<Rightarrow> bool" +
  fixes step :: "'s \<Rightarrow> 'op \<Rightarrow> 's"
  assumes kept: "answered s k = Some r \<Longrightarrow> answered (step s x) k = Some r"
begin

lemma answered_run: "answered s k = Some r \<Longrightarrow> answered (run step s xs) k = Some r"
  by (induction xs arbitrary: s) (auto intro: kept)

lemma perform_later:
  assumes "perform k a s = (s', r)" and "accepted r"
  shows "perform k b (run step s' xs) = (run step s' xs, r)"
  using answered_run [OF answered_after [OF assms]] by (rule replay)

end

end
