(* ===== verification/Tenants_Data.thy ===== *)
theory Tenants_Data
  imports Js_Date
begin

text \<open>
  Tenant wire shapes (\<^verbatim>\<open>features/tenants/schemas.ts\<close>), slug rules (\<^verbatim>\<open>slug.ts\<close>), the generation-1
  spec preview (\<^verbatim>\<open>spec-preview.ts\<close>), the canonical fixture tenants (\<^verbatim>\<open>fixtures.ts\<close>) and the
  phase language (\<^verbatim>\<open>lib/phase.ts\<close>, \<^verbatim>\<open>dashboard/polling.ts\<close>). A zod object is a record; the part
  of its constraints that the types do not carry is the boolean function \<open>..._ok\<close>.
\<close>

section \<open>Schemas\<close>

datatype Phase = Pending | Planning | Applying | Ready | Degraded | Failed | Deleting

definition PHASES :: "Phase list" where
  "PHASES = [Pending, Planning, Applying, Ready, Degraded, Failed, Deleting]"

fun phase_name :: "Phase \<Rightarrow> string" where
  "phase_name Pending = ''Pending''"
| "phase_name Planning = ''Planning''"
| "phase_name Applying = ''Applying''"
| "phase_name Ready = ''Ready''"
| "phase_name Degraded = ''Degraded''"
| "phase_name Failed = ''Failed''"
| "phase_name Deleting = ''Deleting''"

record TenantSummary =
  ts_id :: string
  ts_slug :: string
  ts_displayName :: string
  ts_phase :: Phase
  ts_generation :: nat
  ts_observedGeneration :: nat
  ts_openDrift :: nat
  ts_lastReconciledAt :: "string option"
  ts_idp :: "string option"
  ts_autoHeal :: bool
  ts_resyncIntervalSeconds :: nat
  ts_createdAt :: string
  ts_orgId :: "string option"
  ts_specHash :: string

definition TenantSummarySchema_ok :: "'a TenantSummary_scheme \<Rightarrow> bool" where
  "TenantSummarySchema_ok t \<longleftrightarrow> 0 < ts_generation t \<and> 0 < ts_resyncIntervalSeconds t"

record TenantError =
  te_message :: string
  te_attempt :: nat
  te_maxAttempts :: nat
  te_nextAttemptAt :: "string option"
  te_runId :: string

definition TenantErrorSchema_ok :: "TenantError \<Rightarrow> bool" where
  "TenantErrorSchema_ok e \<longleftrightarrow> 0 < te_attempt e \<and> 0 < te_maxAttempts e"

record Desired =
  de_identityProviders :: "string list"
  de_modelSummary :: string
  de_roles :: "string list"
  de_userCount :: nat
  de_policy :: string

record TenantDetail = TenantSummary +
  td_lastError :: "TenantError option"
  td_observedLagSeconds :: nat
  td_tupleCount :: nat
  td_modelVersion :: nat
  td_desired :: Desired

definition TenantDetailSchema_ok :: "TenantDetail \<Rightarrow> bool" where
  "TenantDetailSchema_ok t \<longleftrightarrow>
     TenantSummarySchema_ok t \<and> (case td_lastError t of None \<Rightarrow> True | Some e \<Rightarrow> TenantErrorSchema_ok e)"

record TenantListFilter =
  tf_phase :: "Phase option"
  tf_hasDrift :: "bool option"
  tf_q :: "string option"
  tf_cursor :: "string option"
  tf_limit :: nat

definition TenantListFilterSchema_ok :: "TenantListFilter \<Rightarrow> bool" where
  "TenantListFilterSchema_ok f \<longleftrightarrow> 1 \<le> tf_limit f \<and> tf_limit f \<le> 100"

record TenantPage =
  tp_items :: "TenantSummary list"
  tp_nextCursor :: "string option"
  tp_total :: nat
  tp_all :: nat
  tp_byPhase :: "Phase \<Rightarrow> nat"
  tp_withDrift :: nat

definition TenantPageSchema_ok :: "TenantPage \<Rightarrow> bool" where
  "TenantPageSchema_ok p \<longleftrightarrow> list_all TenantSummarySchema_ok (tp_items p)"

definition SLUG_MIN :: nat where
  "SLUG_MIN = 3"

definition SLUG_MAX :: nat where
  "SLUG_MAX = 63"

definition is_slug_alnum :: "char \<Rightarrow> bool" where
  "is_slug_alnum c \<longleftrightarrow> is_lower c \<or> is_digit c"

definition SLUG_PATTERN :: re where
  "SLUG_PATTERN =
     Seq (Ch is_slug_alnum)
       (Seq (re_opt (Seq (Rep (\<lambda>c. is_slug_alnum c \<or> c = CHR ''-'')) (Ch is_slug_alnum))) Eos)"

definition RESERVED_SLUGS :: "string list" where
  "RESERVED_SLUGS = [''new'', ''platform'', ''api'', ''admin'']"

definition SlugSchema_ok :: "string \<Rightarrow> bool" where
  "SlugSchema_ok s \<longleftrightarrow>
     SLUG_MIN \<le> length s \<and> length s \<le> SLUG_MAX \<and> re_test SLUG_PATTERN s \<and> s \<notin> set RESERVED_SLUGS"

datatype StartFrom = Blank | Copy | Yaml

datatype StarterModel = Roles_only | Documents

record CreateTenantInput =
  ci_displayName :: string
  ci_slug :: string
  ci_startFrom :: StartFrom
  ci_copyFromSlug :: "string option"
  ci_yaml :: "string option"
  ci_starterModel :: StarterModel
  ci_autoHeal :: bool
  ci_resyncIntervalSeconds :: nat

text \<open>\<^verbatim>\<open>CreateTenantInputSchema.parse\<close>: the display name is trimmed before its length is checked.\<close>

definition CreateTenantInputSchema_parse :: "CreateTenantInput \<Rightarrow> CreateTenantInput throws" where
  "CreateTenantInputSchema_parse raw =
     (let input = raw\<lparr>ci_displayName := trim (ci_displayName raw)\<rparr>
      in if 1 \<le> length (ci_displayName input) \<and> length (ci_displayName input) \<le> 80
            \<and> SlugSchema_ok (ci_slug input)
            \<and> (case ci_yaml input of None \<Rightarrow> True | Some y \<Rightarrow> length y \<le> 64000)
            \<and> 30 \<le> ci_resyncIntervalSeconds input \<and> ci_resyncIntervalSeconds input \<le> 86400
         then Inr input else Inl ZodError)"

record SlugCheck =
  sc_available :: bool
  sc_reason :: "string option"

definition LIFECYCLE :: "Phase list" where
  "LIFECYCLE = [Pending, Planning, Applying, Ready]"

section \<open>Slugs\<close>

text \<open>\<^verbatim>\<open>replace(/[^a-z0-9]+/g, "-")\<close>: every run of other characters becomes one hyphen.\<close>

fun collapse_runs :: "string \<Rightarrow> string" where
  "collapse_runs [] = []"
| "collapse_runs (c # cs) =
     (if is_slug_alnum c then c # collapse_runs cs
      else CHR ''-'' # collapse_runs (dropWhile (\<lambda>d. \<not> is_slug_alnum d) cs))"

definition strip_hyphens_end :: "string \<Rightarrow> string" where
  "strip_hyphens_end s = rev (dropWhile (\<lambda>c. c = CHR ''-'') (rev s))"

text \<open>
  \<^verbatim>\<open>deriveSlug\<close>. The Unicode step, NFKD normalisation followed by the removal of the combining
  marks it leaves, is the argument \<open>fold_diacritics\<close>.
\<close>

definition deriveSlug :: "(string \<Rightarrow> string) \<Rightarrow> string \<Rightarrow> string" where
  "deriveSlug fold_diacritics displayName =
     strip_hyphens_end
       (take SLUG_MAX
          (strip_hyphens_end
             (dropWhile (\<lambda>c. c = CHR ''-'')
                (collapse_runs (toLowerCase (fold_diacritics displayName))))))"

definition validateSlug :: "string \<Rightarrow> string option" where
  "validateSlug slug =
     (if length slug = 0 then Some ''enter a slug''
      else if length slug < SLUG_MIN then Some (''at least '' @ show_nat SLUG_MIN @ '' characters'')
      else if SLUG_MAX < length slug then Some (''at most '' @ show_nat SLUG_MAX @ '' characters'')
      else if \<not> re_test SLUG_PATTERN slug
      then Some ''lowercase letters, digits and hyphens; must start and end with a letter or digit''
      else if slug \<in> set RESERVED_SLUGS then Some ''reserved''
      else None)"

section \<open>The generation-1 spec preview\<close>

datatype SpecValueTone = Plain | Bool_tone | Number_tone

record SpecLine =
  sl_indent :: nat
  sl_key :: "string option"
  sl_value :: "string option"
  sl_tone :: "SpecValueTone option"
  sl_raw :: "string option"

fun STARTER_ROLES :: "StarterModel \<Rightarrow> string list" where
  "STARTER_ROLES Roles_only = [''tenant_admin'', ''tenant_viewer'']"
| "STARTER_ROLES Documents = [''tenant_admin'', ''tenant_editor'', ''tenant_viewer'']"

fun STARTER_MODEL_title :: "StarterModel \<Rightarrow> string" where
  "STARTER_MODEL_title Roles_only = ''Roles only''"
| "STARTER_MODEL_title Documents = ''Documents starter''"

definition kv :: "nat \<Rightarrow> string \<Rightarrow> string option \<Rightarrow> SpecValueTone \<Rightarrow> SpecLine" where
  "kv indent key v tone =
     \<lparr>sl_indent = indent, sl_key = Some key, sl_value = v, sl_tone = Some tone, sl_raw = None\<rparr>"

definition raw_line :: "nat \<Rightarrow> string \<Rightarrow> SpecLine" where
  "raw_line indent raw = \<lparr>sl_indent = indent, sl_key = None, sl_value = None, sl_tone = None, sl_raw = Some raw\<rparr>"

definition truthy :: "string option \<Rightarrow> bool" where
  "truthy s \<longleftrightarrow> (case s of None \<Rightarrow> False | Some t \<Rightarrow> t \<noteq> [])"

definition show_bool :: "bool \<Rightarrow> string" where
  "show_bool b = (if b then ''true'' else ''false'')"

definition specPreviewLines :: "CreateTenantInput \<Rightarrow> SpecLine list" where
  "specPreviewLines input =
     (if ci_startFrom input = Yaml \<and> truthy (map_option trim (ci_yaml input))
      then map (raw_line 0) (lines_of (crlf_to_lf (the (ci_yaml input))))
      else
        (let slug = (if ci_slug input = [] then ''~'' else ci_slug input);
             name = (if trim (ci_displayName input) = [] then ''~'' else trim (ci_displayName input))
         in [kv 0 ''apiVersion'' (Some ''authzplane.dev/v1'') Plain,
             kv 0 ''kind'' (Some ''Tenant'') Plain,
             kv 0 ''metadata'' None Plain,
             kv 1 ''slug'' (Some slug) Plain,
             kv 1 ''displayName'' (Some name) Plain,
             kv 0 ''spec'' None Plain,
             kv 1 ''reconcilePolicy'' None Plain,
             kv 2 ''autoHeal'' (Some (show_bool (ci_autoHeal input))) Bool_tone,
             kv 2 ''resyncIntervalSeconds'' (Some (show_nat (ci_resyncIntervalSeconds input))) Number_tone]
          @ (if ci_startFrom input = Copy \<and> truthy (ci_copyFromSlug input)
             then [kv 1 ''copyFrom'' (ci_copyFromSlug input) Plain] else [])
          @ [kv 1 ''identityProviders'' (Some ''[]'') Plain, kv 1 ''roles'' None Plain]
          @ map (\<lambda>role. raw_line 2 (''- key: '' @ role)) (STARTER_ROLES (ci_starterModel input))
          @ (if ci_starterModel input = Documents
             then [kv 1 ''authorizationModel'' None Plain,
                   kv 2 ''starter'' (Some ''documents'') Plain,
                   kv 2 ''types'' (Some ''[user, organization, document]'') Plain]
             else [])))"

definition spec_line_text :: "SpecLine \<Rightarrow> string" where
  "spec_line_text l =
     (let padding = concat (replicate (sl_indent l) ''  '');
          key = (case sl_key l of None \<Rightarrow> ''undefined'' | Some k \<Rightarrow> k)
      in case sl_raw l of
           Some r \<Rightarrow> padding @ r
         | None \<Rightarrow> (case sl_value l of None \<Rightarrow> padding @ key @ '':'' | Some v \<Rightarrow> padding @ key @ '': '' @ v))"

definition specYaml :: "CreateTenantInput \<Rightarrow> string" where
  "specYaml input = join [CHR 0x0A] (map spec_line_text (specPreviewLines input))"

definition starterRoles :: "StarterModel \<Rightarrow> string list" where
  "starterRoles m = STARTER_ROLES m"

section \<open>Fixtures\<close>

definition FIXTURE_NOW :: string where
  "FIXTURE_NOW = ''2026-09-04T10:15:00Z''"

definition T0 :: instant where
  "T0 = (case Date_parse FIXTURE_NOW of Some t \<Rightarrow> t | None \<Rightarrow> 0)"

text \<open>\<^verbatim>\<open>minutesAgo(m)\<close>, with the minutes given in tenths (the fixtures use 1.6, 0.3 and 0.8).\<close>

definition minutesAgo :: "nat \<Rightarrow> string" where
  "minutesAgo tenths = toISOString (T0 - tenths * 6000)"

definition fixture_tenant :: "string \<Rightarrow> string \<Rightarrow> string \<Rightarrow> Phase \<Rightarrow> TenantSummary" where
  "fixture_tenant tid slug name phase =
     \<lparr>ts_id = tid, ts_slug = slug, ts_displayName = name, ts_phase = phase,
      ts_generation = 3, ts_observedGeneration = 3, ts_openDrift = 0,
      ts_lastReconciledAt = Some (minutesAgo 120), ts_idp = Some (''oidc'' @ middot @ ''login.microsoftonline.com''),
      ts_autoHeal = True, ts_resyncIntervalSeconds = 600, ts_createdAt = ''2026-06-14T09:00:00Z'',
      ts_orgId = Some ''214785'', ts_specHash = ''3a91c7e0''\<rparr>"

definition TENANTS :: "TenantSummary list" where
  "TENANTS =
     [(fixture_tenant ''9f2c1a'' ''acme-air'' ''Acme Air'' Degraded)
        \<lparr>ts_generation := 9, ts_observedGeneration := 8, ts_openDrift := 2,
         ts_lastReconciledAt := Some (minutesAgo 16), ts_autoHeal := True, ts_specHash := ''b7e21f04''\<rparr>,
      (fixture_tenant ''4d17be'' ''northwind-rail'' ''Northwind Rail'' Failed)
        \<lparr>ts_generation := 4, ts_observedGeneration := 3, ts_lastReconciledAt := Some (minutesAgo 240),
         ts_idp := Some (''oidc'' @ middot @ ''idp.northwind-rail.example''), ts_orgId := None,
         ts_specHash := ''91d0aa3c''\<rparr>,
      (fixture_tenant ''c02e77'' ''globex-logistics'' ''Globex Logistics'' Ready)
        \<lparr>ts_generation := 6, ts_observedGeneration := 6, ts_openDrift := 4,
         ts_lastReconciledAt := Some (minutesAgo 60), ts_idp := Some (''oidc'' @ middot @ ''accounts.google.com''),
         ts_autoHeal := False, ts_orgId := Some ''214790'', ts_specHash := ''5c8f1e22''\<rparr>,
      (fixture_tenant ''e81a05'' ''initech-labs'' ''Initech Labs'' Applying)
        \<lparr>ts_generation := 7, ts_observedGeneration := 6, ts_lastReconciledAt := Some (minutesAgo 3),
         ts_orgId := Some ''214801'', ts_specHash := ''0fa7d9b1''\<rparr>,
      (fixture_tenant ''77b3f9'' ''umbrella-health'' ''Umbrella Health'' Ready)
        \<lparr>ts_generation := 12, ts_observedGeneration := 12, ts_openDrift := 1,
         ts_lastReconciledAt := Some (minutesAgo 30), ts_idp := Some (''saml'' @ middot @ ''sso.umbrella-health.example''),
         ts_orgId := Some ''214733'', ts_specHash := ''ee41b2c8''\<rparr>,
      (fixture_tenant ''a5c0d2'' ''stark-freight'' ''Stark Freight'' Ready)
        \<lparr>ts_generation := 2, ts_observedGeneration := 2, ts_lastReconciledAt := Some (minutesAgo 90),
         ts_idp := Some (''oidc'' @ middot @ ''login.microsoftonline.com''), ts_orgId := Some ''214812'',
         ts_specHash := ''17c3e5f9''\<rparr>,
      (fixture_tenant ''3b9e4c'' ''wayne-transit'' ''Wayne Transit'' Deleting)
        \<lparr>ts_generation := 5, ts_observedGeneration := 5, ts_lastReconciledAt := Some (minutesAgo 8),
         ts_idp := None, ts_orgId := Some ''214699'', ts_specHash := ''c9a2f043''\<rparr>]"

definition FLEET_TOTAL :: nat where
  "FLEET_TOTAL = 42"

fun FLEET_BY_PHASE :: "Phase \<Rightarrow> nat" where
  "FLEET_BY_PHASE Applying = 1"
| "FLEET_BY_PHASE Ready = 38"
| "FLEET_BY_PHASE Degraded = 2"
| "FLEET_BY_PHASE Failed = 1"
| "FLEET_BY_PHASE _ = 0"

definition FLEET_WITH_DRIFT :: nat where
  "FLEET_WITH_DRIFT = 3"

definition findTenant :: "string \<Rightarrow> TenantSummary option" where
  "findTenant slug = List.find (\<lambda>t. ts_slug t = slug) TENANTS"

definition fixture_policy :: string where
  "fixture_policy = ''auto-heal on'' @ middot @ ''resync 600s''"

text \<open>\<^verbatim>\<open>DETAILS[slug] ?? DEFAULT_DETAIL\<close>, spread over the summary.\<close>

definition tenantDetailFor :: "TenantSummary \<Rightarrow> TenantDetail" where
  "tenantDetailFor s =
     (if ts_slug s = ''acme-air'' then
        TenantSummary.extend s (TenantDetail.fields
          (Some \<lparr>te_message = ''OpenFGA WriteTuples timed out after 3000ms'', te_attempt = 3, te_maxAttempts = 8,
                 te_nextAttemptAt = Some (toISOString (T0 + 45000)), te_runId = ''8f1c9e4b27d2''\<rparr>)
          96 1284 6
          \<lparr>de_identityProviders = [''acme-entra (oidc)'', ''acme-legacy-saml (disabled)''],
           de_modelSummary = ''v7 staged'' @ middot @ ''3 types'' @ middot @ ''8 relations'',
           de_roles = [''tenant_admin'', ''tenant_editor'', ''tenant_viewer'', ''tenant_auditor*''],
           de_userCount = 312, de_policy = fixture_policy\<rparr>)
      else if ts_slug s = ''northwind-rail'' then
        TenantSummary.extend s (TenantDetail.fields
          (Some \<lparr>te_message = ''Zitadel CreateIdentityProvider returned 400 invalid_idp_config'', te_attempt = 8,
                 te_maxAttempts = 8, te_nextAttemptAt = None, te_runId = ''2c77e0b9a413''\<rparr>)
          1440 96 2
          \<lparr>de_identityProviders = [''northwind-okta (oidc)''],
           de_modelSummary = ''v2'' @ middot @ ''2 types'' @ middot @ ''4 relations'',
           de_roles = [''tenant_admin'', ''tenant_viewer''], de_userCount = 41, de_policy = fixture_policy\<rparr>)
      else
        TenantSummary.extend s (TenantDetail.fields None 0 240 3
          \<lparr>de_identityProviders = [''primary (oidc)''],
           de_modelSummary = ''v3'' @ middot @ ''2 types'' @ middot @ ''5 relations'',
           de_roles = [''tenant_admin'', ''tenant_viewer''], de_userCount = 58, de_policy = fixture_policy\<rparr>))"

definition tenantDetailFixture :: "string \<Rightarrow> TenantDetail option" where
  "tenantDetailFixture slug = map_option tenantDetailFor (findTenant slug)"

section \<open>Phases on screen\<close>

datatype Tone = Neutral | Link | Ready_tone | Degraded_tone | Failed_tone | Drift_tone

fun toneForPhase :: "Phase \<Rightarrow> Tone" where
  "toneForPhase Ready = Ready_tone"
| "toneForPhase Degraded = Degraded_tone"
| "toneForPhase Failed = Failed_tone"
| "toneForPhase Pending = Link"
| "toneForPhase Planning = Link"
| "toneForPhase Applying = Link"
| "toneForPhase Deleting = Link"

definition IN_FLIGHT_PHASES :: "Phase list" where
  "IN_FLIGHT_PHASES = [Planning, Applying, Deleting]"

text \<open>\<^verbatim>\<open>pollIntervalFor\<close>: 2s while any tenant is in flight, 10s otherwise.\<close>

definition pollIntervalFor :: "(Phase \<Rightarrow> nat option) option \<Rightarrow> nat" where
  "pollIntervalFor byPhase =
     (case byPhase of
        None \<Rightarrow> 10000
      | Some m \<Rightarrow>
          if list_ex (\<lambda>p. 0 < (case m p of None \<Rightarrow> 0 | Some n \<Rightarrow> n)) IN_FLIGHT_PHASES then 2000 else 10000)"

section \<open>Slug lemmas\<close>

lemma TENANTS_slugs:
  "map ts_slug TENANTS = [''acme-air'', ''northwind-rail'', ''globex-logistics'', ''initech-labs'',
     ''umbrella-health'', ''stark-freight'', ''wayne-transit'']"
  by (simp add: TENANTS_def fixture_tenant_def)

lemma TENANTS_distinct [simp]: "distinct (map ts_slug TENANTS)"
  by (simp add: TENANTS_slugs)

lemma TENANTS_ok: "t \<in> set TENANTS \<Longrightarrow> TenantSummarySchema_ok t"
  by (auto simp: TENANTS_def fixture_tenant_def TenantSummarySchema_ok_def)

lemma tenantDetailFor_summary [simp]:
  "ts_slug (tenantDetailFor s) = ts_slug s"
  "ts_generation (tenantDetailFor s) = ts_generation s"
  "ts_observedGeneration (tenantDetailFor s) = ts_observedGeneration s"
  "ts_resyncIntervalSeconds (tenantDetailFor s) = ts_resyncIntervalSeconds s"
  by (simp_all add: tenantDetailFor_def TenantSummary.defs TenantDetail.defs)

lemma tenantDetailFor_ok: "TenantSummarySchema_ok s \<Longrightarrow> TenantDetailSchema_ok (tenantDetailFor s)"
  by (simp add: TenantDetailSchema_ok_def TenantSummarySchema_ok_def)
    (simp add: tenantDetailFor_def TenantSummary.defs TenantDetail.defs TenantErrorSchema_ok_def)

text \<open>What \<open>SLUG_PATTERN\<close> says: letters, digits and inner hyphens.\<close>

lemma slug_tail_run:
  "re_test (Seq (Rep (\<lambda>c. is_slug_alnum c \<or> c = CHR ''-'')) (Seq (Ch is_slug_alnum) Eos)) s
     \<longleftrightarrow> s \<noteq> [] \<and> is_slug_alnum (last s) \<and> (\<forall>c \<in> set s. is_slug_alnum c \<or> c = CHR ''-'')"
  (is "?L \<longleftrightarrow> ?R")
proof
  let ?P = "\<lambda>c. is_slug_alnum c \<or> c = CHR ''-''"
  assume ?L
  then obtain k where k: "k \<le> length (takeWhile ?P s)"
    and run: "re_run (Seq (Ch is_slug_alnum) Eos) (drop k s) \<noteq> []"
    by (auto simp only: re_test_def re_run_Rep_Seq_ne)
  from run obtain c where c: "drop k s = [c]" "is_slug_alnum c"
    by (cases "drop k s") (auto split: list.splits if_splits)
  then have s: "s = take k s @ [c]" by (metis append_take_drop_id)
  have "set (take k s) \<subseteq> set (takeWhile ?P s)"
    using k set_take_subset_set_take [OF k, of s] by (simp add: takeWhile_eq_take [symmetric])
  then have "\<forall>d \<in> set (take k s). ?P d" by (auto dest: set_takeWhileD)
  with s c(2) show ?R by (metis Un_iff last_snoc list.set(1) list.set(2) set_append singletonD snoc_eq_iff_butlast)
next
  let ?P = "\<lambda>c. is_slug_alnum c \<or> c = CHR ''-''"
  assume R: ?R
  then have all: "takeWhile ?P s = s" by (auto intro: takeWhile_eq_all_conv [THEN iffD2])
  have "drop (length s - 1) s = [last s]" using R by (metis append_butlast_last_id append_eq_conv_conj length_butlast)
  then have "re_run (Seq (Ch is_slug_alnum) Eos) (drop (length s - 1) s) \<noteq> []"
    using R by simp
  then show ?L using all by (auto simp only: re_test_def re_run_Rep_Seq_ne intro!: exI [of _ "length s - 1"])
qed

lemma SLUG_PATTERN_iff:
  "re_test SLUG_PATTERN s \<longleftrightarrow>
     s \<noteq> [] \<and> is_slug_alnum (hd s) \<and> is_slug_alnum (last s) \<and> (\<forall>c \<in> set s. is_slug_alnum c \<or> c = CHR ''-'')"
proof (cases s)
  case Nil
  then show ?thesis by (simp add: re_test_def SLUG_PATTERN_def)
next
  case (Cons c cs)
  have "re_test SLUG_PATTERN s \<longleftrightarrow> is_slug_alnum c \<and>
      (re_test (Seq (Rep (\<lambda>c. is_slug_alnum c \<or> c = CHR ''-'')) (Seq (Ch is_slug_alnum) Eos)) cs \<or> cs = [])"
    unfolding re_test_def SLUG_PATTERN_def Cons
    by (simp only: re_run_Seq_Ch list.case re_run_opt_Seq re_run_Seq_assoc) auto
  then show ?thesis using Cons by (auto simp: slug_tail_run)
qed

lemma set_collapse_runs: "c \<in> set (collapse_runs s) \<Longrightarrow> is_slug_alnum c \<or> c = CHR ''-''"
  by (induction s rule: collapse_runs.induct) (auto split: if_splits)

lemma strip_hyphens_end_last:
  assumes "strip_hyphens_end s \<noteq> []"
  shows "last (strip_hyphens_end s) \<noteq> CHR ''-''"
proof -
  let ?d = "dropWhile (\<lambda>c. c = CHR ''-'') (rev s)"
  have ne: "?d \<noteq> []" using assms by (simp add: strip_hyphens_end_def)
  have "last (strip_hyphens_end s) = hd ?d" using ne by (simp add: strip_hyphens_end_def last_rev)
  moreover have "hd ?d \<noteq> CHR ''-''" using hd_dropWhile [OF ne] by simp
  ultimately show ?thesis by simp
qed

lemma strip_hyphens_end_prefix: "\<exists>t. s = strip_hyphens_end s @ t"
proof -
  let ?P = "\<lambda>c. c = CHR ''-''"
  have "rev (takeWhile ?P (rev s) @ dropWhile ?P (rev s)) = s"
    by (simp only: takeWhile_dropWhile_id rev_rev_ident)
  then have "s = strip_hyphens_end s @ rev (takeWhile ?P (rev s))"
    unfolding strip_hyphens_end_def rev_append by (rule sym)
  then show ?thesis by (rule exI)
qed

lemma hd_prefix: "s = p @ t \<Longrightarrow> p \<noteq> [] \<Longrightarrow> hd p = hd s"
  by simp

lemma deriveSlug_shape:
  assumes "deriveSlug f name \<noteq> []"
  shows "re_test SLUG_PATTERN (deriveSlug f name)"
proof -
  let ?raw = "dropWhile (\<lambda>c. c = CHR ''-'') (collapse_runs (toLowerCase (f name)))"
  obtain u where u: "?raw = strip_hyphens_end ?raw @ u" using strip_hyphens_end_prefix by blast
  let ?cut = "take SLUG_MAX (strip_hyphens_end ?raw)"
  obtain v where v: "?cut = strip_hyphens_end ?cut @ v" using strip_hyphens_end_prefix by blast
  have d: "deriveSlug f name = strip_hyphens_end ?cut" by (simp add: deriveSlug_def)
  have "strip_hyphens_end ?raw = ?cut @ drop SLUG_MAX (strip_hyphens_end ?raw)"
    by (simp only: append_take_drop_id)
  then have pre: "?raw = deriveSlug f name @ v @ drop SLUG_MAX (strip_hyphens_end ?raw) @ u"
    using u v unfolding d by (metis append_assoc)
  then have "set (deriveSlug f name) \<subseteq> set ?raw" by (metis Un_upper1 set_append)
  then have sub: "set (deriveSlug f name) \<subseteq> set (collapse_runs (toLowerCase (f name)))"
    by (meson set_dropWhileD subset_eq)
  then have cs: "\<forall>c \<in> set (deriveSlug f name). is_slug_alnum c \<or> c = CHR ''-''"
    using set_collapse_runs by blast
  have "hd (deriveSlug f name) = hd ?raw" using pre assms by (rule hd_prefix)
  moreover have ne: "?raw \<noteq> []" using pre assms by (metis Nil_is_append_conv)
  ultimately have "hd (deriveSlug f name) \<noteq> CHR ''-''" using hd_dropWhile [OF ne] by simp
  moreover have "last (deriveSlug f name) \<noteq> CHR ''-''"
    using assms d strip_hyphens_end_last by metis
  ultimately show ?thesis using assms cs by (auto simp: SLUG_PATTERN_iff)
qed

lemma length_deriveSlug: "length (deriveSlug f name) \<le> SLUG_MAX"
proof -
  let ?cut = "take SLUG_MAX (strip_hyphens_end (dropWhile (\<lambda>c. c = CHR ''-'') (collapse_runs (toLowerCase (f name)))))"
  obtain v where "?cut = deriveSlug f name @ v"
    using strip_hyphens_end_prefix unfolding deriveSlug_def by blast
  then have "length (deriveSlug f name) \<le> length ?cut" by (metis length_append le_add1)
  then show ?thesis by simp
qed

lemma validateSlug_None_iff: "validateSlug s = None \<longleftrightarrow> SlugSchema_ok s"
  by (auto simp: validateSlug_def SlugSchema_ok_def SLUG_MIN_def)

end
