(* ===== verification/Js_Url.thy ===== *)
theory Js_Url
  imports Js_String
begin

text \<open>
  \<^verbatim>\<open>URLSearchParams\<close>: the name-value list, its printer (\<^verbatim>\<open>application/x-www-form-urlencoded\<close>) and its
  parser. Code units above 127 travel as two UTF-8 bytes. The parser answers \<open>None\<close> when the
  decoded text is not in the model's range of code units.
\<close>

section \<open>Bytes\<close>

definition utf8 :: "char \<Rightarrow> nat list" where
  "utf8 c = (let n = code c in if n < 128 then [n] else [192 + n div 64, 128 + n mod 64])"

fun utf8_decode :: "nat list \<Rightarrow> string option" where
  "utf8_decode [] = Some []"
| "utf8_decode (b # bs) =
     (if b < 128 then map_option ((#) (char_of b)) (utf8_decode bs)
      else (case bs of
              [] \<Rightarrow> None
            | d # ds \<Rightarrow>
                if (b = 194 \<or> b = 195) \<and> 128 \<le> d \<and> d < 192
                then map_option ((#) (char_of ((b - 192) * 64 + (d - 128)))) (utf8_decode ds)
                else None))"

definition is_unreserved :: "nat \<Rightarrow> bool" where
  "is_unreserved b \<longleftrightarrow>
     48 \<le> b \<and> b \<le> 57 \<or> 65 \<le> b \<and> b \<le> 90 \<or> 97 \<le> b \<and> b \<le> 122 \<or> b = 42 \<or> b = 45 \<or> b = 46 \<or> b = 95"

definition upper_hex :: "nat \<Rightarrow> char" where
  "upper_hex d = (if d < 10 then char_of (48 + d) else char_of (55 + d))"

definition hex_digit :: "char \<Rightarrow> nat option" where
  "hex_digit c =
     (let n = code c
      in if 48 \<le> n \<and> n \<le> 57 then Some (n - 48)
         else if 65 \<le> n \<and> n \<le> 70 then Some (n - 55)
         else if 97 \<le> n \<and> n \<le> 102 then Some (n - 87) else None)"

definition encode_byte :: "nat \<Rightarrow> string" where
  "encode_byte b =
     (if is_unreserved b then [char_of b]
      else if b = 32 then ''+''
      else [CHR ''%'', upper_hex (b div 16), upper_hex (b mod 16)])"

text \<open>\<open>+\<close> is a space, \<open>%XY\<close> a byte; a percent sign without two digits stands for itself.\<close>

fun decode_bytes :: "string \<Rightarrow> nat list" where
  "decode_bytes [] = []"
| "decode_bytes (c # cs) =
     (if c = CHR ''+'' then 32 # decode_bytes cs
      else if c = CHR ''%''
      then (case cs of
              h # l # rest \<Rightarrow>
                (case (hex_digit h, hex_digit l) of
                   (Some x, Some y) \<Rightarrow> (16 * x + y) # decode_bytes rest
                 | _ \<Rightarrow> 37 # decode_bytes cs)
            | _ \<Rightarrow> 37 # decode_bytes cs)
      else utf8 c @ decode_bytes cs)"

definition form_encode :: "string \<Rightarrow> string" where
  "form_encode s = concat (map encode_byte (concat (map utf8 s)))"

definition form_decode :: "string \<Rightarrow> string option" where
  "form_decode s = utf8_decode (decode_bytes s)"

section \<open>Search parameters\<close>

type_synonym params = "(string \<times> string) list"

definition params_delete :: "params \<Rightarrow> string \<Rightarrow> params" where
  "params_delete ps k = filter (\<lambda>p. fst p \<noteq> k) ps"

definition encode_pair :: "string \<times> string \<Rightarrow> string" where
  "encode_pair p = form_encode (fst p) @ ''='' @ form_encode (snd p)"

definition params_toString :: "params \<Rightarrow> string" where
  "params_toString ps = join ''&'' (map encode_pair ps)"

definition decode_pair :: "string \<Rightarrow> (string \<times> string) option" where
  "decode_pair w =
     (case (form_decode (takeWhile (\<lambda>c. c \<noteq> CHR ''='') w), form_decode (drop 1 (dropWhile (\<lambda>c. c \<noteq> CHR ''='') w))) of
        (Some k, Some v) \<Rightarrow> Some (k, v)
      | _ \<Rightarrow> None)"

definition URLSearchParams :: "string \<Rightarrow> params option" where
  "URLSearchParams s =
     those (map decode_pair
       (filter (\<lambda>w. w \<noteq> []) (split_char (CHR ''&'') (if startsWith s ''?'' then drop 1 s else s))))"

section \<open>The parser inverts the printer\<close>

lemma hex_digit_upper_hex [simp]: "d < 16 \<Longrightarrow> hex_digit (upper_hex d) = Some d"
  by (auto simp: hex_digit_def upper_hex_def Let_def)

lemma decode_encode_byte:
  assumes "b < 256"
  shows "decode_bytes (encode_byte b @ s) = b # decode_bytes s"
proof (cases "is_unreserved b")
  case True
  then have "char_of b \<noteq> CHR ''+''" "char_of b \<noteq> CHR ''%''" "utf8 (char_of b) = [b]"
    by (auto simp: is_unreserved_def char_simps utf8_def code_def)
  with True show ?thesis by (simp add: encode_byte_def)
next
  case False
  have "b div 16 < 16" using assms by (simp add: div_less_iff_less_mult)
  with False show ?thesis by (simp add: encode_byte_def)
qed

lemma decode_encode_bytes: "\<forall>b \<in> set bs. b < 256 \<Longrightarrow> decode_bytes (concat (map encode_byte bs)) = bs"
  by (induction bs) (simp_all add: decode_encode_byte)

lemma code_less [simp]: "code c < 256"
  by (simp add: code_def)

lemma char_of_code [simp]: "char_of (code c) = c"
  by (simp add: code_def)

lemma code_div_64: "\<not> code c < 128 \<Longrightarrow> code c div 64 = 2 \<or> code c div 64 = 3"
  using code_less [of c] by linarith

lemma utf8_bytes: "b \<in> set (utf8 c) \<Longrightarrow> b < 256"
  using code_div_64 [of c] by (auto simp: utf8_def Let_def split: if_splits)

lemma utf8_decode_utf8: "utf8_decode (utf8 c @ bs) = map_option ((#) c) (utf8_decode bs)"
proof (cases "code c < 128")
  case True
  then show ?thesis by (simp add: utf8_def)
next
  case False
  then have u: "utf8 c = [192 + code c div 64, 128 + code c mod 64]" by (simp add: utf8_def Let_def)
  have n: "(192 + code c div 64 - 192) * 64 + (128 + code c mod 64 - 128) = code c" by simp
  have b: "192 + code c div 64 = 194 \<or> 192 + code c div 64 = 195" using code_div_64 [OF False] by auto
  show ?thesis unfolding u by (simp only: append.simps utf8_decode.simps list.case n) (use b in auto)
qed

lemma form_decode_encode [simp]: "form_decode (form_encode s) = Some s"
proof -
  have "decode_bytes (form_encode s) = concat (map utf8 s)"
    unfolding form_encode_def by (rule decode_encode_bytes) (auto dest: utf8_bytes)
  moreover have "utf8_decode (concat (map utf8 s)) = Some s"
    by (induction s) (simp_all add: utf8_decode_utf8)
  ultimately show ?thesis by (simp add: form_decode_def)
qed

lemma form_encode_chars:
  assumes "c \<in> set (form_encode s)"
  shows "c \<noteq> CHR ''='' \<and> c \<noteq> CHR ''&'' \<and> c \<noteq> CHR ''?''"
proof -
  from assms obtain b where b: "b < 256" "c \<in> set (encode_byte b)"
    by (auto simp: form_encode_def dest: utf8_bytes)
  moreover have "upper_hex d \<noteq> CHR ''='' \<and> upper_hex d \<noteq> CHR ''&'' \<and> upper_hex d \<noteq> CHR ''?''" if "d < 16" for d
    using that by (auto simp: upper_hex_def char_simps code_def)
  moreover have "b div 16 < 16" using b(1) by (simp add: div_less_iff_less_mult)
  ultimately show ?thesis
    by (auto simp: encode_byte_def is_unreserved_def char_simps code_def split: if_splits)
qed

lemma decode_encode_pair [simp]: "decode_pair (encode_pair p) = Some p"
proof -
  have ne: "\<forall>c \<in> set (form_encode s). c \<noteq> CHR ''=''" for s using form_encode_chars by blast
  then have "takeWhile (\<lambda>c. c \<noteq> CHR ''='') (encode_pair p) = form_encode (fst p)"
    "dropWhile (\<lambda>c. c \<noteq> CHR ''='') (encode_pair p) = ''='' @ form_encode (snd p)"
    by (simp_all add: encode_pair_def takeWhile_append2 dropWhile_append2)
  then show ?thesis by (simp add: decode_pair_def)
qed

lemma encode_pair_chars: "c \<in> set (encode_pair p) \<Longrightarrow> c \<noteq> CHR ''&'' \<and> c \<noteq> CHR ''?''"
  using form_encode_chars by (fastforce simp: encode_pair_def)

lemma encode_pair_not_Nil [simp]: "encode_pair p \<noteq> []"
  by (simp add: encode_pair_def)

lemma not_startsWith_join:
  assumes "\<forall>w \<in> set ws. w \<noteq> [] \<and> x \<notin> set w"
  shows "\<not> startsWith (join sep ws) [x]"
proof (cases ws)
  case Nil
  then show ?thesis by (simp add: startsWith_def)
next
  case (Cons w ws')
  with assms obtain c cs where "w = c # cs" "c \<noteq> x" by (cases w) auto
  with Cons show ?thesis by (cases ws') (auto simp: startsWith_def)
qed

lemma those_map_Some [simp]: "those (map (\<lambda>x. Some (f x)) xs) = Some (map f xs)"
  by (induction xs) auto

lemma params_toString_no_question: "\<not> startsWith (params_toString ps) ''?''"
proof -
  have "\<forall>w \<in> set (map encode_pair ps). w \<noteq> [] \<and> CHR ''?'' \<notin> set w"
    by (auto dest: encode_pair_chars)
  then show ?thesis unfolding params_toString_def by (rule not_startsWith_join)
qed

theorem URLSearchParams_toString: "URLSearchParams (params_toString ps) = Some ps"
proof (cases ps)
  case Nil
  then show ?thesis by (simp add: URLSearchParams_def params_toString_def startsWith_def)
next
  case (Cons p ps')
  let ?ws = "map encode_pair ps"
  have ok: "\<forall>w \<in> set ?ws. CHR ''&'' \<notin> set w" using encode_pair_chars by fastforce
  have "\<not> startsWith (params_toString ps) ''?''" by (rule params_toString_no_question)
  moreover have "split_char (CHR ''&'') (params_toString ps) = ?ws"
    unfolding params_toString_def by (rule split_join) (use ok Cons in auto)
  moreover have "filter (\<lambda>w. w \<noteq> []) ?ws = ?ws" by (simp add: filter_id_conv)
  ultimately show ?thesis by (simp add: URLSearchParams_def comp_def)
qed

lemma URLSearchParams_question: "URLSearchParams (CHR ''?'' # params_toString ps) = Some ps"
proof -
  have "URLSearchParams (CHR ''?'' # s) = URLSearchParams s" if "\<not> startsWith s ''?''" for s
    using that by (simp add: URLSearchParams_def startsWith_def)
  moreover have "\<not> startsWith (params_toString ps) ''?''" by (rule params_toString_no_question)
  ultimately show ?thesis by (simp add: URLSearchParams_toString)
qed

end
