(* ===== verification/Tenants.thy ===== *)
theory Tenants
  imports Tenants_Data Js_Url Paging Stores
begin

text \<open>
  Server-side tenant access (\<^verbatim>\<open>features/tenants/server.ts\<close>) and the list filters kept in the URL
  (\<^verbatim>\<open>filters.ts\<close>). The store of console-created tenants is a map from slug to record; the state
  of the component is that map, and every operation takes it and returns the new one.
\<close>

section \<open>The store\<close>

record CreatedTenant =
  ct_summary :: TenantSummary
  ct_input :: CreateTenantInput

type_synonym tenants = "(string, CreatedTenant) jsmap"

definition allTenants :: "tenants \<Rightarrow> TenantSummary list" where
  "allTenants T = rev (map ct_summary (map_values T)) @ TENANTS"

definition findAny :: "tenants \<Rightarrow> string \<Rightarrow> TenantSummary option" where
  "findAny T slug = List.find (\<lambda>t. ts_slug t = slug) (allTenants T)"

definition matches_q :: "string \<Rightarrow> TenantSummary \<Rightarrow> bool" where
  "matches_q q t \<longleftrightarrow>
     includes_str (ts_slug t) q
     \<or> includes_str (toLowerCase (ts_displayName t)) q
     \<or> includes_str (case ts_orgId t of None \<Rightarrow> [] | Some o' \<Rightarrow> o') q"

definition tenant_rows :: "tenants \<Rightarrow> TenantListFilter \<Rightarrow> TenantSummary list" where
  "tenant_rows T fl =
     (let items = allTenants T;
          items = (case tf_phase fl of None \<Rightarrow> items | Some p \<Rightarrow> filter (\<lambda>t. ts_phase t = p) items);
          items = (if tf_hasDrift fl = Some True then filter (\<lambda>t. 0 < ts_openDrift t) items else items)
      in if truthy (tf_q fl) then filter (matches_q (toLowerCase (the (tf_q fl)))) items else items)"

text \<open>Cursor = slug of the last row on the previous page; an unknown cursor is the first page.\<close>

definition page_start :: "TenantSummary list \<Rightarrow> string option \<Rightarrow> nat" where
  "page_start items cursor =
     (if truthy cursor
      then (case find_index (\<lambda>t. ts_slug t = the cursor) items of None \<Rightarrow> 0 | Some i \<Rightarrow> Suc i)
      else 0)"

definition listTenants :: "tenants \<Rightarrow> TenantListFilter \<Rightarrow> TenantPage throws" where
  "listTenants T fl =
     (let items = tenant_rows T fl;
          start = page_start items (tf_cursor fl);
          page = slice start (start + tf_limit fl) items;
          nextCursor = (if start + tf_limit fl < length items
                        then (if page = [] then None else Some (ts_slug (last page))) else None);
          createdCount = length T;
          filtered = (tf_phase fl \<noteq> None \<or> tf_hasDrift fl = Some True \<or> truthy (tf_q fl));
          byPhase = fold (\<lambda>c m. m(ts_phase (ct_summary c) := m (ts_phase (ct_summary c)) + 1)) (map_values T) FLEET_BY_PHASE
      in parse_with TenantPageSchema_ok
           \<lparr>tp_items = page, tp_nextCursor = nextCursor,
            tp_total = (if filtered then length items else FLEET_TOTAL + createdCount),
            tp_all = FLEET_TOTAL + createdCount, tp_byPhase = byPhase, tp_withDrift = FLEET_WITH_DRIFT\<rparr>)"

definition pendingDetail :: "CreatedTenant \<Rightarrow> TenantDetail" where
  "pendingDetail c =
     TenantSummary.extend (ct_summary c) (TenantDetail.fields None 0 0 0
       \<lparr>de_identityProviders = [],
        de_modelSummary = ''v1 staged'' @ middot @ toLowerCase (STARTER_MODEL_title (ci_starterModel (ct_input c))),
        de_roles = starterRoles (ci_starterModel (ct_input c)), de_userCount = 0,
        de_policy = ''auto-heal '' @ (if ci_autoHeal (ct_input c) then ''on'' else ''off'') @ middot
          @ ''resync '' @ show_nat (ci_resyncIntervalSeconds (ct_input c)) @ ''s''\<rparr>)"

definition getTenant :: "tenants \<Rightarrow> string \<Rightarrow> TenantDetail option throws" where
  "getTenant T slug =
     (case map_get T slug of
        Some created \<Rightarrow> map_sum id Some (parse_with TenantDetailSchema_ok (pendingDetail created))
      | None \<Rightarrow>
          (case List.find (\<lambda>t. ts_slug t = slug) TENANTS of
             Some summary \<Rightarrow> map_sum id Some (parse_with TenantDetailSchema_ok (tenantDetailFor summary))
           | None \<Rightarrow> Inr None))"

definition isSlugAvailable :: "tenants \<Rightarrow> string \<Rightarrow> SlugCheck" where
  "isSlugAvailable T slug =
     (case validateSlug slug of
        Some invalid \<Rightarrow> \<lparr>sc_available = False, sc_reason = Some invalid\<rparr>
      | None \<Rightarrow>
          (case findAny T slug of
             Some _ \<Rightarrow> \<lparr>sc_available = False, sc_reason = Some ''taken''\<rparr>
           | None \<Rightarrow> \<lparr>sc_available = True, sc_reason = None\<rparr>))"

definition fnv1a :: "string \<Rightarrow> string" where
  "fnv1a text' = hex8 (fnv_hash text')"

definition created_summary :: "CreateTenantInput \<Rightarrow> instant \<Rightarrow> TenantSummary" where
  "created_summary input now =
     \<lparr>ts_id = take 6 (fnv1a (''tenant:'' @ ci_slug input)), ts_slug = ci_slug input,
      ts_displayName = ci_displayName input, ts_phase = Pending, ts_generation = 1,
      ts_observedGeneration = 0, ts_openDrift = 0, ts_lastReconciledAt = None, ts_idp = None,
      ts_autoHeal = ci_autoHeal input, ts_resyncIntervalSeconds = ci_resyncIntervalSeconds input,
      ts_createdAt = toISOString now, ts_orgId = None, ts_specHash = fnv1a (specYaml input)\<rparr>"

definition createTenant :: "tenants \<Rightarrow> CreateTenantInput \<Rightarrow> instant \<Rightarrow> tenants \<times> TenantSummary throws" where
  "createTenant T raw now =
     (case CreateTenantInputSchema_parse raw of
        Inl e \<Rightarrow> (T, Inl e)
      | Inr input \<Rightarrow>
          if findAny T (ci_slug input) \<noteq> None then (T, Inl (SlugTakenError (ci_slug input)))
          else (case parse_with TenantSummarySchema_ok (created_summary input now) of
                  Inl e \<Rightarrow> (T, Inl e)
                | Inr summary \<Rightarrow>
                    (map_set T (ci_slug input) \<lparr>ct_summary = summary, ct_input = input\<rparr>, Inr summary)))"

definition resetCreatedTenantsForTests :: "tenants \<Rightarrow> tenants" where
  "resetCreatedTenantsForTests T = []"

text \<open>What the other features see of a tenant: \<^verbatim>\<open>await getTenant(slug)\<close> once the parse has passed.\<close>

definition tenant_of :: "tenants \<Rightarrow> string \<Rightarrow> TenantDetail option" where
  "tenant_of T slug =
     (case map_get T slug of Some c \<Rightarrow> Some (pendingDetail c) | None \<Rightarrow> tenantDetailFixture slug)"

section \<open>Filters in the URL\<close>

definition PAGE_SIZE :: nat where
  "PAGE_SIZE = 25"

definition searchParamsFrom :: "(string \<times> string list option) list \<Rightarrow> params" where
  "searchParamsFrom raw =
     fold (\<lambda>(key, v) ps. case v of Some (first # _) \<Rightarrow> map_set ps key first | _ \<Rightarrow> ps) raw []"

definition truthy_flag :: "string option \<Rightarrow> bool" where
  "truthy_flag v \<longleftrightarrow> v = Some ''1'' \<or> v = Some ''true''"

text \<open>The object \<^verbatim>\<open>shape\<close> builds: an absent key is \<open>None\<close>, the phase is still an arbitrary string.\<close>

record shaped =
  sh_phase :: "string option"
  sh_hasDrift :: "bool option"
  sh_q :: "string option"
  sh_cursor :: "string option"
  sh_limit :: nat

definition nonempty :: "string option \<Rightarrow> string option" where
  "nonempty s = (if truthy s then s else None)"

definition shape :: "params \<Rightarrow> shaped" where
  "shape ps =
     \<lparr>sh_phase = nonempty (map_get ps ''phase''),
      sh_hasDrift = (if truthy_flag (map_get ps ''drift'') then Some True else None),
      sh_q = nonempty (map_option trim (map_get ps ''q'')),
      sh_cursor = nonempty (map_get ps ''cursor''),
      sh_limit = PAGE_SIZE\<rparr>"

definition PhaseSchema_parse :: "string \<Rightarrow> Phase option" where
  "PhaseSchema_parse s = List.find (\<lambda>p. phase_name p = s) PHASES"

text \<open>\<^verbatim>\<open>TenantListFilterSchema.safeParse\<close> of such an object; \<open>None\<close> is a failed parse.\<close>

definition TenantListFilterSchema_parse :: "shaped \<Rightarrow> TenantListFilter option" where
  "TenantListFilterSchema_parse s =
     (let ok = (\<lambda>ph. let f = \<lparr>tf_phase = ph, tf_hasDrift = sh_hasDrift s, tf_q = sh_q s,
                                tf_cursor = sh_cursor s, tf_limit = sh_limit s\<rparr>
                     in if TenantListFilterSchema_ok f then Some f else None)
      in case sh_phase s of
           None \<Rightarrow> ok None
         | Some p \<Rightarrow> (case PhaseSchema_parse p of None \<Rightarrow> None | Some q \<Rightarrow> ok (Some q)))"

definition parseTenantListFilter :: "params \<Rightarrow> string + TenantListFilter" where
  "parseTenantListFilter ps =
     (case TenantListFilterSchema_parse (shape ps) of
        Some f \<Rightarrow> Inr f
      | None \<Rightarrow>
          (let phase = map_get ps ''phase''
           in if truthy phase \<and> PhaseSchema_parse (the phase) = None
              then Inl (''Unknown phase '' @ quoted (the phase) @ ''. Expected one of ''
                        @ join '', '' (map phase_name PHASES) @ ''.'')
              else Inl ''invalid filter''))"

definition tenantListFilterFromParams :: "params \<Rightarrow> TenantListFilter" where
  "tenantListFilterFromParams ps =
     (case parseTenantListFilter ps of
        Inr f \<Rightarrow> f
      | Inl _ \<Rightarrow>
          (case parseTenantListFilter (params_delete ps ''phase'') of
             Inr f \<Rightarrow> f
           | Inl _ \<Rightarrow> \<lparr>tf_phase = None, tf_hasDrift = None, tf_q = None, tf_cursor = None, tf_limit = PAGE_SIZE\<rparr>))"

text \<open>The parameters \<^verbatim>\<open>tenantListSearch\<close> sets before it prints them.\<close>

definition tenantListParams :: "TenantListFilter \<Rightarrow> params" where
  "tenantListParams f =
     (case tf_phase f of Some p \<Rightarrow> [(''phase'', phase_name p)] | None \<Rightarrow> [])
     @ (if tf_hasDrift f = Some True then [(''drift'', ''1'')] else [])
     @ (if truthy (tf_q f) then [(''q'', the (tf_q f))] else [])
     @ (if truthy (tf_cursor f) then [(''cursor'', the (tf_cursor f))] else [])"

definition tenantListSearch :: "TenantListFilter \<Rightarrow> string" where
  "tenantListSearch f =
     (let qs = params_toString (tenantListParams f) in if qs = [] then [] else CHR ''?'' # qs)"

definition tenantListApiPath :: "TenantListFilter \<Rightarrow> string" where
  "tenantListApiPath f = ''/api/tenants'' @ tenantListSearch f"

text \<open>A patch: a key that is absent, present with \<^verbatim>\<open>undefined\<close>, or present with a value.\<close>

record Patch =
  pa_phase :: "Phase option option"
  pa_hasDrift :: "bool option option"
  pa_q :: "string option option"
  pa_cursor :: "string option option"

definition patched :: "'a option \<Rightarrow> 'a option option \<Rightarrow> 'a option" where
  "patched old p = (case p of None \<Rightarrow> old | Some v \<Rightarrow> v)"

text \<open>The filter whose URL \<^verbatim>\<open>tenantListHref\<close> prints.\<close>

definition tenantListPatched :: "TenantListFilter \<Rightarrow> Patch \<Rightarrow> TenantListFilter" where
  "tenantListPatched f p =
     f\<lparr>tf_phase := patched (tf_phase f) (pa_phase p),
       tf_hasDrift := patched (tf_hasDrift f) (pa_hasDrift p),
       tf_q := patched (tf_q f) (pa_q p),
       tf_cursor := patched None (pa_cursor p)\<rparr>"

definition tenantListHref :: "TenantListFilter \<Rightarrow> Patch \<Rightarrow> string" where
  "tenantListHref f p = ''/tenants'' @ tenantListSearch (tenantListPatched f p)"

definition hasActiveFilters :: "TenantListFilter \<Rightarrow> bool" where
  "hasActiveFilters f \<longleftrightarrow> tf_phase f \<noteq> None \<or> tf_hasDrift f = Some True \<or> truthy (tf_q f)"

definition relativeAge :: "string option \<Rightarrow> instant option \<Rightarrow> string" where
  "relativeAge stamp now =
     (if \<not> truthy stamp then ''never''
      else (case (Date_parse (the stamp), now) of
              (Some then', Some at) \<Rightarrow>
                (let seconds = (int at - int then') div 1000;
                     minutes = seconds div 60;
                     hours = minutes div 60
                 in if seconds < 30 then ''now''
                    else if seconds < 60 then show_int seconds @ ''s ago''
                    else if minutes < 60 then show_int minutes @ ''m ago''
                    else if hours < 24 then show_int hours @ ''h ago''
                    else show_int (hours div 24) @ ''d ago'')
            | _ \<Rightarrow> em_dash))"

section \<open>The invariant of the store\<close>

definition created_ok :: "string \<Rightarrow> CreatedTenant \<Rightarrow> bool" where
  "created_ok k c \<longleftrightarrow>
     ts_slug (ct_summary c) = k \<and> SlugSchema_ok k \<and> findTenant k = None
     \<and> TenantSummarySchema_ok (ct_summary c) \<and> ts_phase (ct_summary c) = Pending"

definition tenants_wf :: "tenants \<Rightarrow> bool" where
  "tenants_wf T \<longleftrightarrow> map_wf T \<and> (\<forall>(k, c) \<in> set T. created_ok k c)"

text \<open>A run of the component: create requests, each with its clock.\<close>

definition tenants_step :: "tenants \<Rightarrow> CreateTenantInput \<times> instant \<Rightarrow> tenants" where
  "tenants_step T r = fst (createTenant T (fst r) (snd r))"

definition tenants_after :: "(CreateTenantInput \<times> instant) list \<Rightarrow> tenants" where
  "tenants_after rs = run tenants_step [] rs"

lemma tenants_wf_Nil [simp, wf_intros]: "tenants_wf []"
  by (simp add: tenants_wf_def)

lemma findTenant_None: "findTenant k = None \<longleftrightarrow> k \<notin> set (map ts_slug TENANTS)"
  unfolding findTenant_def find_eq_None by auto

lemma created_okD: "tenants_wf T \<Longrightarrow> map_get T k = Some c \<Longrightarrow> created_ok k c"
  unfolding tenants_wf_def using map_get_in_set by fastforce

lemma created_slugs: "tenants_wf T \<Longrightarrow> map ts_slug (map ct_summary (map_values T)) = map fst T"
  by (auto simp: tenants_wf_def created_ok_def)

lemma findAny_None_iff:
  assumes "tenants_wf T"
  shows "findAny T k = None \<longleftrightarrow> map_get T k = None \<and> findTenant k = None"
proof -
  have "findAny T k = None \<longleftrightarrow> k \<notin> set (map ts_slug (allTenants T))"
    unfolding findAny_def find_eq_None by auto
  also have "set (map ts_slug (allTenants T)) = set (map fst T) \<union> set (map ts_slug TENANTS)"
    using created_slugs [OF assms] unfolding allTenants_def by (metis map_append set_append set_rev rev_map)
  finally show ?thesis by (simp add: findTenant_None map_of_eq_None_iff)
qed

lemma createTenant_cases:
  "createTenant T raw now =
     (case CreateTenantInputSchema_parse raw of
        Inl e \<Rightarrow> (T, Inl e)
      | Inr input \<Rightarrow>
          if findAny T (ci_slug input) \<noteq> None then (T, Inl (SlugTakenError (ci_slug input)))
          else (map_set T (ci_slug input) \<lparr>ct_summary = created_summary input now, ct_input = input\<rparr>,
                Inr (created_summary input now)))"
proof (cases "CreateTenantInputSchema_parse raw")
  case (Inl e)
  then show ?thesis by (simp add: createTenant_def)
next
  case (Inr input)
  then have "TenantSummarySchema_ok (created_summary input now)"
    by (auto simp: CreateTenantInputSchema_parse_def created_summary_def TenantSummarySchema_ok_def Let_def
        split: if_splits)
  then show ?thesis using Inr by (simp add: createTenant_def)
qed

lemma parse_slug_ok: "CreateTenantInputSchema_parse raw = Inr input \<Longrightarrow> SlugSchema_ok (ci_slug input)"
  by (auto simp: CreateTenantInputSchema_parse_def Let_def split: if_splits)

lemma parse_slug: "CreateTenantInputSchema_parse raw = Inr input \<Longrightarrow> ci_slug input = ci_slug raw"
  by (auto simp: CreateTenantInputSchema_parse_def Let_def split: if_splits)

lemma parse_exn: "CreateTenantInputSchema_parse raw = Inl e \<Longrightarrow> e = ZodError"
  by (auto simp: CreateTenantInputSchema_parse_def Let_def split: if_splits)

lemma parse_resync_pos: "CreateTenantInputSchema_parse raw = Inr input \<Longrightarrow> 0 < ci_resyncIntervalSeconds input"
  by (auto simp: CreateTenantInputSchema_parse_def Let_def split: if_splits)

lemma createTenant_Inr:
  assumes "createTenant T raw now = (T', Inr s)"
  obtains input where "CreateTenantInputSchema_parse raw = Inr input" "findAny T (ci_slug input) = None"
    "s = created_summary input now" "T' = map_set T (ci_slug input) \<lparr>ct_summary = s, ct_input = input\<rparr>"
  using assms that unfolding createTenant_cases by (auto split: sum.splits if_splits)

lemma createTenant_wf [wf_intros]:
  assumes "tenants_wf T"
  shows "tenants_wf (fst (createTenant T raw now))"
proof (cases "createTenant T raw now")
  case (Pair T' r)
  show ?thesis
  proof (cases r)
    case (Inl e)
    with Pair have "T' = T" unfolding createTenant_cases by (auto split: sum.splits if_splits)
    with Pair assms show ?thesis by simp
  next
    case (Inr s)
    with Pair obtain input where i: "CreateTenantInputSchema_parse raw = Inr input" "findAny T (ci_slug input) = None"
        "s = created_summary input now" "T' = map_set T (ci_slug input) \<lparr>ct_summary = s, ct_input = input\<rparr>"
      by (auto elim: createTenant_Inr)
    have "created_ok (ci_slug input) \<lparr>ct_summary = s, ct_input = input\<rparr>"
      using i parse_slug_ok [OF i(1)] parse_resync_pos [OF i(1)] findAny_None_iff [OF assms]
      by (simp add: created_ok_def created_summary_def TenantSummarySchema_ok_def)
    then have "\<forall>(k, c) \<in> set T'. created_ok k c"
      using assms set_map_set unfolding tenants_wf_def i(4) by fastforce
    moreover have "map_wf T'" using assms i(4) by (simp add: tenants_wf_def)
    ultimately show ?thesis using Pair by (simp add: tenants_wf_def)
  qed
qed

interpretation tenants_runs: transition_system tenants_step tenants_wf
  by unfold_locales (simp add: tenants_step_def createTenant_wf)

lemma tenants_after_wf [simp]: "tenants_wf (tenants_after rs)"
  unfolding tenants_after_def by (rule tenants_runs.run_inv) simp

lemma distinct_allTenants:
  assumes "tenants_wf T"
  shows "distinct (map ts_slug (allTenants T))"
proof -
  have "map ts_slug (allTenants T) = rev (map fst T) @ map ts_slug TENANTS"
    using created_slugs [OF assms] by (simp add: allTenants_def rev_map)
  moreover have "set (map fst T) \<inter> set (map ts_slug TENANTS) = {}"
    using assms unfolding tenants_wf_def created_ok_def findTenant_None by fastforce
  ultimately show ?thesis using assms TENANTS_distinct by (simp only: distinct_append) (auto simp: tenants_wf_def)
qed

lemma TENANTS_slug_ne: "t \<in> set TENANTS \<Longrightarrow> ts_slug t \<noteq> []"
proof -
  assume "t \<in> set TENANTS"
  then have "ts_slug t \<in> set (map ts_slug TENANTS)" by simp
  then show ?thesis unfolding TENANTS_slugs by auto
qed

lemma allTenants_ok:
  assumes "tenants_wf T" "t \<in> set (allTenants T)"
  shows "TenantSummarySchema_ok t \<and> ts_slug t \<noteq> []"
proof -
  have "TenantSummarySchema_ok t \<and> ts_slug t \<noteq> []" if "t \<in> set TENANTS"
    using that TENANTS_ok TENANTS_slug_ne by blast
  moreover have "TenantSummarySchema_ok t \<and> ts_slug t \<noteq> []" if "t \<in> set (map ct_summary (map_values T))"
    using that assms(1) by (fastforce simp: tenants_wf_def created_ok_def SlugSchema_ok_def SLUG_MIN_def)
  ultimately show ?thesis using assms(2) by (auto simp: allTenants_def)
qed

section \<open>Reads\<close>

lemma pendingDetail_summary [simp]:
  "ts_slug (pendingDetail c) = ts_slug (ct_summary c)"
  "ts_phase (pendingDetail c) = ts_phase (ct_summary c)"
  "ts_generation (pendingDetail c) = ts_generation (ct_summary c)"
  "ts_observedGeneration (pendingDetail c) = ts_observedGeneration (ct_summary c)"
  "ts_orgId (pendingDetail c) = ts_orgId (ct_summary c)"
  "ts_resyncIntervalSeconds (pendingDetail c) = ts_resyncIntervalSeconds (ct_summary c)"
  "td_lastError (pendingDetail c) = None"
  "td_tupleCount (pendingDetail c) = 0"
  "td_modelVersion (pendingDetail c) = 0"
  by (simp_all add: pendingDetail_def TenantSummary.defs TenantDetail.defs)

lemma tenant_of_ok:
  assumes "tenants_wf T" "tenant_of T slug = Some t"
  shows "TenantDetailSchema_ok t"
proof (cases "map_get T slug")
  case (Some c)
  then show ?thesis using assms created_okD [OF assms(1)]
    by (auto simp: tenant_of_def created_ok_def TenantDetailSchema_ok_def TenantSummarySchema_ok_def)
next
  case None
  then obtain s where "findTenant slug = Some s" "t = tenantDetailFor s"
    using assms(2) by (auto simp: tenant_of_def tenantDetailFixture_def)
  then show ?thesis by (auto simp: findTenant_def dest!: find_SomeD intro: tenantDetailFor_ok TENANTS_ok)
qed

lemma getTenant_eq:
  assumes "tenants_wf T"
  shows "getTenant T slug = Inr (tenant_of T slug)"
proof -
  have "TenantDetailSchema_ok t" if "tenant_of T slug = Some t" for t using assms that by (rule tenant_of_ok)
  then show ?thesis
    by (auto simp: getTenant_def tenant_of_def tenantDetailFixture_def findTenant_def split: option.splits)
qed

lemma tenant_of_fixture:
  assumes "tenants_wf T" "findTenant slug \<noteq> None"
  shows "tenant_of T slug = tenantDetailFixture slug"
  using assms created_okD [OF assms(1)] by (auto simp: tenant_of_def created_ok_def split: option.splits)

lemma tenant_of_slug:
  assumes "tenants_wf T" "tenant_of T slug = Some t"
  shows "ts_slug t = slug"
proof (cases "map_get T slug")
  case (Some c)
  with assms created_okD show ?thesis by (auto simp: tenant_of_def created_ok_def)
next
  case None
  with assms(2) obtain s where "findTenant slug = Some s" "t = tenantDetailFor s"
    by (auto simp: tenant_of_def tenantDetailFixture_def)
  then show ?thesis using find_SomeD [of "\<lambda>t. ts_slug t = slug" TENANTS s] by (simp add: findTenant_def)
qed

text \<open>Creating a tenant never changes what a known slug reads as.\<close>

lemma tenant_of_createTenant:
  assumes "tenants_wf T" "tenant_of T slug = Some t"
  shows "tenant_of (fst (createTenant T raw now)) slug = Some t"
proof -
  have "findAny T slug \<noteq> None"
    using assms by (auto simp: findAny_None_iff tenant_of_def tenantDetailFixture_def split: option.splits)
  then show ?thesis using assms(2) unfolding createTenant_cases
    by (auto simp: tenant_of_def split: sum.splits)
qed

lemma tenant_of_created:
  assumes "tenants_wf T" "map_get T slug = Some c"
  shows "tenant_of T slug = Some (pendingDetail c)" "de_userCount (td_desired (pendingDetail c)) = 0"
  using assms by (simp_all add: tenant_of_def) (simp add: pendingDetail_def TenantSummary.defs TenantDetail.defs)

section \<open>Listing\<close>

lemma set_tenant_rows: "set (tenant_rows T fl) \<subseteq> set (allTenants T)"
  by (auto simp: tenant_rows_def Let_def split: option.splits)

lemma distinct_tenant_rows: "tenants_wf T \<Longrightarrow> distinct (map ts_slug (tenant_rows T fl))"
  using distinct_allTenants [of T]
  by (auto simp: tenant_rows_def Let_def distinct_map_filter split: option.splits)

lemma tenant_rows_cursor [simp]: "tenant_rows T (fl\<lparr>tf_cursor := c, tf_limit := n\<rparr>) = tenant_rows T fl"
  by (simp add: tenant_rows_def Let_def)

text \<open>One page as the client loop sees it: rows and the cursor of the next page.\<close>

definition tenant_page :: "tenants \<Rightarrow> TenantListFilter \<Rightarrow> nat \<Rightarrow> string option \<Rightarrow> TenantSummary list \<times> string option" where
  "tenant_page T fl limit cur =
     (case listTenants T (fl\<lparr>tf_cursor := cur, tf_limit := limit\<rparr>) of
        Inr p \<Rightarrow> (tp_items p, tp_nextCursor p) | Inl _ \<Rightarrow> ([], None))"

lemma tenant_page_eq:
  assumes "tenants_wf T" "0 < limit"
  shows "tenant_page T fl limit cur =
     (take limit (drop (page_start (tenant_rows T fl) cur) (tenant_rows T fl)),
      if page_start (tenant_rows T fl) cur + limit < length (tenant_rows T fl)
      then Some (ts_slug (last (take limit (drop (page_start (tenant_rows T fl) cur) (tenant_rows T fl))))) else None)"
proof -
  let ?page = "take limit (drop (page_start (tenant_rows T fl) cur) (tenant_rows T fl))"
  have "TenantSummarySchema_ok t" if "t \<in> set ?page" for t
    using that set_tenant_rows allTenants_ok [OF assms(1)] by (meson in_set_dropD in_set_takeD subsetD)
  then have ok: "list_all TenantSummarySchema_ok ?page" by (simp add: list_all_iff)
  show ?thesis using assms(2) ok
    by (simp add: tenant_page_def listTenants_def TenantPageSchema_ok_def Let_def slice_def del: fun_upd_apply)
qed

lemma tenant_pager:
  assumes "tenants_wf T" "0 < limit"
  shows "key_pager (tenant_page T fl limit) (tenant_rows T fl) limit ts_slug"
proof
  show "0 < limit" by (rule assms)
  show "distinct (map ts_slug (tenant_rows T fl))" using assms(1) by (rule distinct_tenant_rows)
  show "tenant_page T fl limit None = (take limit (tenant_rows T fl),
      if limit < length (tenant_rows T fl) then Some (ts_slug (last (take limit (tenant_rows T fl)))) else None)"
    by (simp add: tenant_page_eq [OF assms] page_start_def truthy_def)
  fix i
  assume i: "i < length (tenant_rows T fl)"
  let ?s = "ts_slug (tenant_rows T fl ! i)"
  have "truthy (Some ?s)"
    using i set_tenant_rows allTenants_ok [OF assms(1)] nth_mem unfolding truthy_def by fastforce
  then show "tenant_page T fl limit (Some ?s) = (take limit (drop (Suc i) (tenant_rows T fl)),
      if Suc i + limit < length (tenant_rows T fl)
      then Some (ts_slug (last (take limit (drop (Suc i) (tenant_rows T fl))))) else None)"
    using find_index_unique [OF distinct_tenant_rows [OF assms(1)] i]
    by (simp add: tenant_page_eq [OF assms] page_start_def)
qed

interpretation tenant_pages: key_pager "tenant_page (tenants_after rs) fl (Suc n)" "tenant_rows (tenants_after rs) fl" "Suc n" ts_slug
  for rs fl n
  by (rule tenant_pager) simp_all

section \<open>Properties\<close>

lemma tenant_of_run:
  "tenants_wf T \<Longrightarrow> tenant_of T slug = Some t \<Longrightarrow> tenant_of (run tenants_step T rs) slug = Some t"
  by (induction rs arbitrary: T) (simp_all add: tenants_step_def createTenant_wf tenant_of_createTenant)

lemma createTenant_taken:
  assumes "tenants_wf T" and "tenant_of T (ci_slug raw) \<noteq> None"
  shows "createTenant T raw now =
    (T, Inl (case CreateTenantInputSchema_parse raw of Inl e \<Rightarrow> e | Inr _ \<Rightarrow> SlugTakenError (ci_slug raw)))"
proof -
  have "findAny T (ci_slug raw) \<noteq> None"
    using assms by (auto simp: findAny_None_iff tenant_of_def tenantDetailFixture_def split: option.splits)
  then show ?thesis by (auto simp: createTenant_cases parse_slug split: sum.split)
qed

text \<open>
  C12: creating a tenant. If a create request is accepted, the new tenant reads back at
  generation 1, phase Pending, with nothing reconciled and no organisation, and still does after any
  further create requests, accepted or not; every other slug reads as before; and after any further
  create requests, one for the same slug is refused and leaves the store as it is: with ZodError
  when it is malformed, with SlugTakenError otherwise.
\<close>

theorem createTenant_spec:
  assumes "tenants_wf T" and "createTenant T raw now = (T', Inr s)"
  shows "(\<exists>d. getTenant T' (ci_slug raw) = Inr (Some d) \<and> ts_slug d = ci_slug raw \<and> ts_phase d = Pending
      \<and> ts_generation d = 1 \<and> ts_observedGeneration d = 0 \<and> ts_orgId d = None
      \<and> (\<forall>rs. getTenant (run tenants_step T' rs) (ci_slug raw) = Inr (Some d)))
    \<and> (\<forall>k. k \<noteq> ci_slug raw \<longrightarrow> getTenant T' k = getTenant T k)
    \<and> (\<forall>rs raw' now'. ci_slug raw' = ci_slug raw \<longrightarrow>
        createTenant (run tenants_step T' rs) raw' now' =
          (run tenants_step T' rs,
           Inl (case CreateTenantInputSchema_parse raw' of Inl _ \<Rightarrow> ZodError | Inr _ \<Rightarrow> SlugTakenError (ci_slug raw))))"
proof -
  from assms(2) obtain input where i: "CreateTenantInputSchema_parse raw = Inr input"
      "s = created_summary input now" "T' = map_set T (ci_slug input) \<lparr>ct_summary = s, ct_input = input\<rparr>"
    by (auto elim: createTenant_Inr)
  note slug = parse_slug [OF i(1)]
  define d where "d = pendingDetail \<lparr>ct_summary = s, ct_input = input\<rparr>"
  have wf: "tenants_wf T'" using createTenant_wf [OF assms(1), of raw now] assms(2) by simp
  then have later: "tenants_wf (run tenants_step T' rs)" for rs by (rule tenants_runs.run_inv)
  have "tenant_of T' (ci_slug raw) = Some d" using i(3) slug by (simp add: tenant_of_def d_def)
  then have get: "tenant_of (run tenants_step T' rs) (ci_slug raw) = Some d" for rs by (rule tenant_of_run [OF wf])
  then have read: "getTenant (run tenants_step T' rs) (ci_slug raw) = Inr (Some d)" for rs by (simp add: getTenant_eq [OF later])
  have one: "ts_slug d = ci_slug raw" "ts_phase d = Pending" "ts_generation d = 1" "ts_observedGeneration d = 0" "ts_orgId d = None"
    using i(2) slug by (simp_all add: d_def) (simp_all add: created_summary_def)
  have two: "getTenant T' k = getTenant T k" if "k \<noteq> ci_slug raw" for k
    unfolding getTenant_eq [OF wf] getTenant_eq [OF assms(1)] using that i(3) slug by (simp add: tenant_of_def)
  have "createTenant (run tenants_step T' rs) raw' now' = (run tenants_step T' rs,
      Inl (case CreateTenantInputSchema_parse raw' of Inl _ \<Rightarrow> ZodError | Inr _ \<Rightarrow> SlugTakenError (ci_slug raw)))"
    if "ci_slug raw' = ci_slug raw" for rs raw' now'
    using createTenant_taken [OF later [of rs], of raw' now'] get [of rs] that by (auto dest: parse_exn split: sum.splits)
  with one two read [of "[]"] read show ?thesis by auto
qed

definition example_input :: CreateTenantInput where
  "example_input =
     \<lparr>ci_displayName = '' Hooli XYZ '', ci_slug = ''hooli-xyz'', ci_startFrom = Blank, ci_copyFromSlug = None,
      ci_yaml = None, ci_starterModel = Documents, ci_autoHeal = True, ci_resyncIntervalSeconds = 600\<rparr>"

lemma example_input_parse:
  "CreateTenantInputSchema_parse example_input = Inr (example_input\<lparr>ci_displayName := ''Hooli XYZ''\<rparr>)"
proof -
  have "trim '' Hooli XYZ '' = ''Hooli XYZ''" "SlugSchema_ok ''hooli-xyz''" by code_simp+
  then show ?thesis by (simp add: CreateTenantInputSchema_parse_def example_input_def)
qed

lemma example_input_create: "\<exists>T' s. createTenant [] example_input 0 = (T', Inr s)"
proof -
  have "findAny [] ''hooli-xyz'' = None"
    unfolding findAny_None_iff [OF tenants_wf_Nil] findTenant_None TENANTS_slugs by simp
  then show ?thesis by (simp add: createTenant_cases example_input_parse) (simp add: example_input_def)
qed

theorem createTenant_spec_witness:
  "\<exists>T' s. createTenant [] example_input 0 = (T', Inr s)
     \<and> (\<exists>d. getTenant T' ''hooli-xyz'' = Inr (Some d) \<and> ts_generation d = 1)"
proof -
  have slug: "ci_slug example_input = ''hooli-xyz''" by (simp add: example_input_def)
  obtain T' s where c: "createTenant [] example_input 0 = (T', Inr s)" using example_input_create by blast
  from createTenant_spec [OF tenants_wf_Nil c] c slug show ?thesis by auto
qed

text \<open>
  Whatever create requests the console has served, every stored tenant parses: getTenant never
  throws, for any slug, and two listed tenants never share a slug.
\<close>

theorem tenants_reachable:
  "getTenant (tenants_after rs) slug = Inr (tenant_of (tenants_after rs) slug)
   \<and> distinct (map ts_slug (allTenants (tenants_after rs)))"
  by (simp add: getTenant_eq distinct_allTenants)

text \<open>
  C38: following the cursors of listTenants from the first page ends, and the pages together are
  exactly the rows the filter selects, in order, each once; every page honours the limit.
\<close>

theorem listTenants_complete:
  "walk (Suc (length (tenant_rows (tenants_after rs) fl))) (tenant_page (tenants_after rs) fl (Suc n)) None
     = Some (tenant_rows (tenants_after rs) fl)
   \<and> length (fst (tenant_page (tenants_after rs) fl (Suc n) cur)) \<le> Suc n"
  using tenant_pages.walk_complete [of rs fl _ n] by (auto simp: tenant_page_eq simp del: walk.simps)

text \<open>
  The availability check agrees with the create route. For a request whose other fields are
  well formed, createTenant succeeds exactly when isSlugAvailable said the slug is free.
\<close>

theorem isSlugAvailable_iff_createTenant:
  assumes "tenants_wf T"
    and "1 \<le> length (trim (ci_displayName raw))" "length (trim (ci_displayName raw)) \<le> 80" "ci_yaml raw = None"
    and "30 \<le> ci_resyncIntervalSeconds raw" "ci_resyncIntervalSeconds raw \<le> 86400"
  shows "sc_available (isSlugAvailable T (ci_slug raw)) \<longleftrightarrow> (\<exists>T' s. createTenant T raw now = (T', Inr s))"
proof (cases "SlugSchema_ok (ci_slug raw)")
  case True
  with assms(2-6) have "CreateTenantInputSchema_parse raw = Inr (raw\<lparr>ci_displayName := trim (ci_displayName raw)\<rparr>)"
    by (simp add: CreateTenantInputSchema_parse_def)
  then show ?thesis using True validateSlug_None_iff [of "ci_slug raw"]
    by (simp add: isSlugAvailable_def createTenant_cases split: option.splits)
next
  case False
  then have "CreateTenantInputSchema_parse raw = Inl ZodError"
    by (simp add: CreateTenantInputSchema_parse_def Let_def)
  then show ?thesis using False validateSlug_None_iff [of "ci_slug raw"]
    by (simp add: isSlugAvailable_def createTenant_cases split: option.splits)
qed

theorem isSlugAvailable_iff_createTenant_witness:
  "sc_available (isSlugAvailable [] (ci_slug example_input))
     \<longleftrightarrow> (\<exists>T' s. createTenant [] example_input 0 = (T', Inr s))"
proof (rule isSlugAvailable_iff_createTenant)
  show "1 \<le> length (trim (ci_displayName example_input))" by code_simp
  show "length (trim (ci_displayName example_input)) \<le> 80" by code_simp
qed (simp_all add: example_input_def)

text \<open>
  Slug suggestion. Whatever the display name, the derived slug is accepted by validateSlug
  unless it is shorter than three characters or a reserved route segment.
\<close>

theorem deriveSlug_valid:
  assumes "3 \<le> length (deriveSlug fold_diacritics name)" and "deriveSlug fold_diacritics name \<notin> set RESERVED_SLUGS"
  shows "validateSlug (deriveSlug fold_diacritics name) = None"
proof -
  from assms(1) have "deriveSlug fold_diacritics name \<noteq> []" by auto
  from deriveSlug_shape [OF this] assms length_deriveSlug [of fold_diacritics name]
  show ?thesis unfolding validateSlug_None_iff SlugSchema_ok_def SLUG_MIN_def by simp
qed

theorem deriveSlug_valid_witness:
  "deriveSlug id '' Hooli,  XYZ!'' = ''hooli-xyz'' \<and> validateSlug (deriveSlug id '' Hooli,  XYZ!'') = None"
proof -
  have d: "deriveSlug id '' Hooli,  XYZ!'' = ''hooli-xyz''" by code_simp
  have "validateSlug (deriveSlug id '' Hooli,  XYZ!'') = None"
    by (rule deriveSlug_valid) (simp_all add: d RESERVED_SLUGS_def)
  with d show ?thesis by simp
qed

text \<open>A filter as the list screen holds it: no value that the URL drops or rewrites.\<close>

definition canonical_filter :: "TenantListFilter \<Rightarrow> bool" where
  "canonical_filter f \<longleftrightarrow>
     tf_limit f = PAGE_SIZE \<and> tf_hasDrift f \<noteq> Some False
     \<and> (case tf_q f of None \<Rightarrow> True | Some q \<Rightarrow> q \<noteq> [] \<and> trim q = q) \<and> tf_cursor f \<noteq> Some []"

lemma phase_roundtrip [simp]: "PhaseSchema_parse (phase_name p) = Some p" "phase_name p \<noteq> []"
  by (cases p; simp add: PhaseSchema_parse_def PHASES_def)+

lemma URLSearchParams_search: "URLSearchParams (tenantListSearch f) = Some (tenantListParams f)"
proof (cases "params_toString (tenantListParams f) = []")
  case True
  then have "tenantListSearch f = params_toString (tenantListParams f)" by (simp add: tenantListSearch_def)
  then show ?thesis by (simp only: URLSearchParams_toString)
next
  case False
  then have "tenantListSearch f = CHR ''?'' # params_toString (tenantListParams f)"
    by (simp add: tenantListSearch_def Let_def)
  then show ?thesis by (simp only: URLSearchParams_question)
qed

lemma shape_params:
  assumes "canonical_filter f"
  shows "shape (tenantListParams f) =
    \<lparr>sh_phase = map_option phase_name (tf_phase f), sh_hasDrift = tf_hasDrift f, sh_q = tf_q f,
     sh_cursor = tf_cursor f, sh_limit = PAGE_SIZE\<rparr>"
proof -
  have get: "map_get (tenantListParams f) ''phase'' = map_option phase_name (tf_phase f)"
    "map_get (tenantListParams f) ''drift'' = (if tf_hasDrift f = Some True then Some ''1'' else None)"
    "map_get (tenantListParams f) ''q'' = nonempty (tf_q f)"
    "map_get (tenantListParams f) ''cursor'' = nonempty (tf_cursor f)"
    by (auto simp: tenantListParams_def nonempty_def truthy_def split: option.splits)
  have "nonempty (map_option phase_name (tf_phase f)) = map_option phase_name (tf_phase f)"
    by (simp add: nonempty_def truthy_def split: option.splits)
  moreover have "nonempty (map_option trim (nonempty (tf_q f))) = tf_q f" "nonempty (nonempty (tf_cursor f)) = tf_cursor f"
    using assms by (auto simp: canonical_filter_def nonempty_def truthy_def split: option.splits)
  ultimately show ?thesis
    using assms by (cases "tf_hasDrift f") (auto simp: shape_def get canonical_filter_def truthy_flag_def)
qed

text \<open>
  A list view survives its own URL. Printing a filter with tenantListSearch and parsing the
  query string, strictly or leniently, gives the filter back.
\<close>

theorem tenantListSearch_roundtrip:
  assumes "canonical_filter f"
  shows "\<exists>ps. URLSearchParams (tenantListSearch f) = Some ps \<and> parseTenantListFilter ps = Inr f
    \<and> tenantListFilterFromParams ps = f"
proof -
  have "TenantListFilterSchema_parse (shape (tenantListParams f)) = Some f"
    using assms unfolding shape_params [OF assms]
    by (cases "tf_phase f")
      (auto simp: TenantListFilterSchema_parse_def TenantListFilterSchema_ok_def canonical_filter_def PAGE_SIZE_def)
  then have "parseTenantListFilter (tenantListParams f) = Inr f" by (simp add: parseTenantListFilter_def)
  then show ?thesis by (simp add: URLSearchParams_search tenantListFilterFromParams_def)
qed

theorem tenantListSearch_roundtrip_witness:
  "\<exists>ps. URLSearchParams (tenantListSearch
      \<lparr>tf_phase = Some Ready, tf_hasDrift = Some True, tf_q = Some ''a & b'', tf_cursor = Some ''acme-air'', tf_limit = 25\<rparr>) = Some ps
     \<and> parseTenantListFilter ps = Inr
      \<lparr>tf_phase = Some Ready, tf_hasDrift = Some True, tf_q = Some ''a & b'', tf_cursor = Some ''acme-air'', tf_limit = 25\<rparr>"
proof -
  have "trim ''a & b'' = ''a & b''" by code_simp
  then have "canonical_filter
      \<lparr>tf_phase = Some Ready, tf_hasDrift = Some True, tf_q = Some ''a & b'', tf_cursor = Some ''acme-air'', tf_limit = 25\<rparr>"
    by (simp add: canonical_filter_def PAGE_SIZE_def)
  from tenantListSearch_roundtrip [OF this] show ?thesis by blast
qed

end
