(* ===== verification/Authz_Dsl.thy ===== *)
theory Authz_Dsl
  imports Js_String
begin

text \<open>
  The authorization-model language (\<^verbatim>\<open>features/authz-model/dsl.ts\<close>): the tokenizer behind syntax
  colouring, the line parser with its reference checks, the summary (longest chain of userset
  rewrites) and the line diff. The tokenizer loses no character; a model without issues has
  distinct names and no dangling reference; the summary always ends.
\<close>

section \<open>Tokenizer\<close>

datatype TokenKind =
  Keyword_tok | Type_tok | Relation_tok | Operator_tok | Number_tok | Punct_tok | Ident_tok | Comment_tok | Space_tok

record Token =
  tk_kind :: TokenKind
  tk_text :: string

record TokenLine =
  tl_n :: nat
  tl_indent :: string
  tl_tokens :: "Token list"

definition KEYWORDS :: "string list" where
  "KEYWORDS = [''model'', ''schema'', ''type'', ''relations'', ''define'']"

definition OPERATORS :: "string list" where
  "OPERATORS = [''or'', ''and'', ''from'']"

text \<open>\<^verbatim>\<open>\d+(?:\.\d+)?\<close>\<close>

definition lex_number :: "string \<Rightarrow> string" where
  "lex_number s =
     (case dropWhile is_digit s of
        d # e # es \<Rightarrow>
          if d = CHR ''.'' \<and> is_digit e then takeWhile is_digit s @ CHR ''.'' # takeWhile is_digit (e # es)
          else takeWhile is_digit s
      | _ \<Rightarrow> takeWhile is_digit s)"

text \<open>
  One match of the sticky \<^verbatim>\<open>LEXEME\<close> at the start of the rest of the line. Its alternatives start
  with disjoint characters, and repetition is greedy, so the first character decides.
\<close>

definition LEXEME :: "string \<Rightarrow> string" where
  "LEXEME s =
     (case s of
        [] \<Rightarrow> []
      | c # cs \<Rightarrow>
          if is_space c then takeWhile is_space s
          else if is_digit c then lex_number s
          else if is_ident_start c then c # takeWhile is_word_dash cs
          else if c = CHR ''#'' then takeWhile not_newline s
          else [c])"

text \<open>\<^verbatim>\<open>/^\s+not\b/\<close> on what follows a \<open>but\<close>: the matched text, when there is one.\<close>

definition but_not :: "string \<Rightarrow> string option" where
  "but_not s =
     (let sp = takeWhile is_space s; more = dropWhile is_space s
      in if sp \<noteq> [] \<and> startsWith more ''not'' \<and> (case drop 3 more of [] \<Rightarrow> True | c # _ \<Rightarrow> \<not> is_word c)
         then Some (sp @ ''not'') else None)"

definition word_kind :: "bool \<Rightarrow> string option \<Rightarrow> string \<Rightarrow> TokenKind" where
  "word_kind afterColon prevWord text' =
     (if \<not> afterColon \<and> text' \<in> set KEYWORDS then Keyword_tok
      else if afterColon \<and> text' \<in> set OPERATORS then Operator_tok
      else if prevWord = Some ''type'' then Type_tok
      else if prevWord = Some ''define'' then Relation_tok
      else Ident_tok)"

lemma lex_number_nonempty: "is_digit c \<Longrightarrow> lex_number (c # cs) \<noteq> []"
  by (auto simp: lex_number_def split: list.split)

lemma LEXEME_nonempty: "s \<noteq> [] \<Longrightarrow> LEXEME s \<noteq> []"
  by (auto simp: LEXEME_def lex_number_nonempty not_newline_def split: list.split)

lemma LEXEME_shrinks [termination_simp]: "s \<noteq> [] \<Longrightarrow> length s - length (LEXEME s) < length s"
  using LEXEME_nonempty by simp

text \<open>The loop of \<^verbatim>\<open>tokenizeLine\<close> over the rest of the line.\<close>

function tokens_of :: "string option \<Rightarrow> bool \<Rightarrow> string \<Rightarrow> Token list" where
  "tokens_of prevWord afterColon rest =
     (if rest = [] then []
      else
        (let text' = LEXEME rest; more = drop (length text') rest
         in if list_all is_space text'
            then \<lparr>tk_kind = Space_tok, tk_text = text'\<rparr> # tokens_of prevWord afterColon more
            else if startsWith text' ''#'' then [\<lparr>tk_kind = Comment_tok, tk_text = text'\<rparr>]
            else if is_digit (hd text')
            then \<lparr>tk_kind = Number_tok, tk_text = text'\<rparr> # tokens_of prevWord afterColon more
            else if is_ident_start (hd text')
            then (case (if text' = ''but'' then but_not more else None) of
                    Some tail \<Rightarrow>
                      \<lparr>tk_kind = Operator_tok, tk_text = text' @ tail\<rparr>
                      # tokens_of (Some ''but not'') afterColon (drop (length tail) more)
                  | None \<Rightarrow>
                      \<lparr>tk_kind = word_kind afterColon prevWord text', tk_text = text'\<rparr>
                      # tokens_of (Some text') afterColon more)
            else \<lparr>tk_kind = Punct_tok, tk_text = text'\<rparr> # tokens_of prevWord (afterColon \<or> text' = '':'') more))"
  by pat_completeness auto

termination
  by (relation "measure (\<lambda>(p, a, s). length s)") (use LEXEME_nonempty in \<open>auto simp: diff_less\<close>)

declare tokens_of.simps [simp del]

definition tokenizeLine :: "string \<Rightarrow> nat \<Rightarrow> TokenLine" where
  "tokenizeLine raw n =
     (let indent = takeWhile is_space raw
      in \<lparr>tl_n = n, tl_indent = indent, tl_tokens = tokens_of None False (drop (length indent) raw)\<rparr>)"

definition tokenize :: "string \<Rightarrow> TokenLine list" where
  "tokenize dsl = map (\<lambda>(i, line). tokenizeLine line (i + 1)) (enumerate 0 (lines_of (normalize_newlines dsl)))"

section \<open>Parser\<close>

record TupleToUserset =
  ttu_relation :: string
  ttu_via :: string

record RelationDef =
  rd_name :: string
  rd_direct :: "string list"
  rd_computed :: "string list"
  rd_ttu :: "TupleToUserset list"
  rd_line :: nat

record TypeDef =
  ty_name :: string
  ty_relations :: "RelationDef list"
  ty_line :: nat

record ParseIssue =
  pi_line :: nat
  pi_message :: string

record ParsedModel =
  pm_schema :: "string option"
  pm_types :: "TypeDef list"
  pm_issues :: "ParseIssue list"

abbreviation issue :: "nat \<Rightarrow> string \<Rightarrow> ParseIssue" where
  "issue n msg \<equiv> \<lparr>pi_line = n, pi_message = msg\<rparr>"

definition re_direct :: re where
  "re_direct = re_seq [re_lit ''['', Cap (Rep not_newline), re_lit '']'', Eos]"

definition re_ttu :: re where
  "re_ttu = re_seq [Cap re_ident, re_plus is_space, re_lit ''from'', re_plus is_space, Cap re_ident, Eos]"

definition re_computed :: re where
  "re_computed = Seq re_ident Eos"

definition re_schema :: re where
  "re_schema = re_seq [re_lit ''schema'', re_plus is_space, Cap (re_plus (\<lambda>c. \<not> is_space c)), Eos]"

definition re_type :: re where
  "re_type = re_seq [re_lit ''type'', re_plus is_space, Cap re_ident, Eos]"

definition re_define :: re where
  "re_define =
     re_seq [re_lit ''define'', re_plus is_space, Cap re_ident, Rep is_space, re_lit '':'', Rep is_space,
             Cap (re_plus not_newline), Eos]"

definition re_operator :: re where
  "re_operator =
     re_seq [re_plus is_space, Alt (re_lit ''or'') (Alt (re_lit ''and'') (re_lit ''but not'')), re_plus is_space]"

definition parseTerm :: "nat \<Rightarrow> string \<Rightarrow> RelationDef \<times> ParseIssue list \<Rightarrow> RelationDef \<times> ParseIssue list" where
  "parseTerm line term' st =
     (let (rel, issues) = st
      in case re_exec re_direct term' of
           Some (inner # _) \<Rightarrow>
             (rel\<lparr>rd_direct := rd_direct rel @ filter (\<lambda>n. n \<noteq> []) (map trim (split_char (CHR '','') inner))\<rparr>, issues)
         | _ \<Rightarrow>
             (case re_exec re_ttu term' of
                Some [r, v] \<Rightarrow> (rel\<lparr>rd_ttu := rd_ttu rel @ [\<lparr>ttu_relation = r, ttu_via = v\<rparr>]\<rparr>, issues)
              | _ \<Rightarrow>
                  if re_test re_computed term' then (rel\<lparr>rd_computed := rd_computed rel @ [term']\<rparr>, issues)
                  else (rel, issues @ [issue line (''cannot parse '' @ quoted term' @ '' in define '' @ rd_name rel)])))"

text \<open>The local variables of \<^verbatim>\<open>parseModel\<close>. \<open>current\<close> is always the type pushed last.\<close>

record parse_state =
  ps_schema :: "string option"
  ps_types :: "TypeDef list"
  ps_issues :: "ParseIssue list"
  ps_sawModel :: bool

definition add_issue :: "nat \<Rightarrow> string \<Rightarrow> parse_state \<Rightarrow> parse_state" where
  "add_issue n msg st = st\<lparr>ps_issues := ps_issues st @ [issue n msg]\<rparr>"

definition parse_define :: "nat \<Rightarrow> string \<Rightarrow> string \<Rightarrow> parse_state \<Rightarrow> parse_state" where
  "parse_define n name body st =
     (if ps_types st = [] then add_issue n (''define '' @ name @ '' outside a type'') st
      else
        (let current = last (ps_types st);
             rel0 = \<lparr>rd_name = name, rd_direct = [], rd_computed = [], rd_ttu = [], rd_line = n\<rparr>;
             st1 = (if list_ex (\<lambda>r. rd_name r = name) (ty_relations current)
                    then add_issue n (''duplicate relation '' @ quoted name @ '' on type '' @ ty_name current) st else st);
             (rel, issues) = fold (\<lambda>t. parseTerm n (trim t)) (split_re re_operator [] body) (rel0, ps_issues st1)
         in st1\<lparr>ps_issues := issues,
                ps_types := butlast (ps_types st) @ [current\<lparr>ty_relations := ty_relations current @ [rel]\<rparr>]\<rparr>))"

definition parse_type :: "nat \<Rightarrow> string \<Rightarrow> parse_state \<Rightarrow> parse_state" where
  "parse_type n name st =
     (let st1 = (if list_ex (\<lambda>t. ty_name t = name) (ps_types st)
                 then add_issue n (''duplicate type '' @ quoted name) st else st)
      in st1\<lparr>ps_types := ps_types st1 @ [\<lparr>ty_name = name, ty_relations = [], ty_line = n\<rparr>]\<rparr>)"

definition parse_line :: "nat \<times> string \<Rightarrow> parse_state \<Rightarrow> parse_state" where
  "parse_line ln st =
     (let n = fst ln + 1; text' = trim (takeWhile (\<lambda>c. c \<noteq> CHR ''#'') (snd ln))
      in if text' = [] then st
         else if text' = ''model'' then st\<lparr>ps_sawModel := True\<rparr>
         else case re_exec re_schema text' of
           Some (v # _) \<Rightarrow> st\<lparr>ps_schema := Some v\<rparr>
         | _ \<Rightarrow>
        (case re_exec re_type text' of
           Some (name # _) \<Rightarrow> parse_type n name st
         | _ \<Rightarrow>
             if text' = ''relations''
             then (if ps_types st = [] then add_issue n ''relations block outside a type'' st else st)
             else (case re_exec re_define text' of
                     Some [name, body] \<Rightarrow> parse_define n name body st
                   | _ \<Rightarrow> add_issue n (''unexpected line '' @ quoted text') st)))"

text \<open>\<^verbatim>\<open>new Map(types.map(...))\<close>: the last type of a name wins.\<close>

definition typeByName :: "TypeDef list \<Rightarrow> string \<Rightarrow> TypeDef option" where
  "typeByName types name = List.find (\<lambda>t. ty_name t = name) (rev types)"

definition relOf :: "TypeDef \<Rightarrow> string \<Rightarrow> RelationDef option" where
  "relOf ty name = List.find (\<lambda>r. rd_name r = name) (ty_relations ty)"

text \<open>\<^verbatim>\<open>d.split(/[#:]/)[0]\<close>.\<close>

definition base_type :: "string \<Rightarrow> string" where
  "base_type d = takeWhile (\<lambda>c. c \<noteq> CHR ''#'' \<and> c \<noteq> CHR '':'') d"

definition check_direct :: "TypeDef list \<Rightarrow> TypeDef \<Rightarrow> RelationDef \<Rightarrow> string \<Rightarrow> ParseIssue list" where
  "check_direct types ty rel d =
     (if typeByName types (base_type d) = None
      then [issue (rd_line rel) (''unknown type '' @ quoted (base_type d) @ '' in '' @ ty_name ty @ ''.'' @ rd_name rel)]
      else [])"

definition check_computed :: "TypeDef \<Rightarrow> RelationDef \<Rightarrow> string \<Rightarrow> ParseIssue list" where
  "check_computed ty rel c =
     (if relOf ty c = None
      then [issue (rd_line rel) (''unknown relation '' @ quoted c @ '' referenced by '' @ ty_name ty @ ''.'' @ rd_name rel)]
      else [])"

definition check_ttu :: "TypeDef list \<Rightarrow> TypeDef \<Rightarrow> RelationDef \<Rightarrow> TupleToUserset \<Rightarrow> ParseIssue list" where
  "check_ttu types ty rel t =
     (case relOf ty (ttu_via t) of
        None \<Rightarrow>
          [issue (rd_line rel) (''unknown relation '' @ quoted (ttu_via t) @ '' in ''
             @ quoted (ttu_relation t @ '' from '' @ ttu_via t) @ '' on '' @ ty_name ty)]
      | Some via \<Rightarrow>
          concat (map (\<lambda>target.
            case typeByName types (base_type target) of
              None \<Rightarrow> []
            | Some targetType \<Rightarrow>
                if relOf targetType (ttu_relation t) = None
                then [issue (rd_line rel) (''relation '' @ quoted (ttu_relation t) @ '' is not defined on ''
                        @ ty_name targetType @ '' (via '' @ ttu_via t @ '')'')]
                else []) (rd_direct via)))"

definition check_references :: "TypeDef list \<Rightarrow> ParseIssue list" where
  "check_references types =
     concat (map (\<lambda>ty. concat (map (\<lambda>rel.
         concat (map (check_direct types ty rel) (rd_direct rel))
         @ concat (map (check_computed ty rel) (rd_computed rel))
         @ concat (map (check_ttu types ty rel) (rd_ttu rel))) (ty_relations ty))) types)"

definition parse_lines :: "string \<Rightarrow> parse_state" where
  "parse_lines dsl =
     fold parse_line (enumerate 0 (lines_of (normalize_newlines dsl)))
       \<lparr>ps_schema = None, ps_types = [], ps_issues = [], ps_sawModel = False\<rparr>"

definition parseModel :: "string \<Rightarrow> ParsedModel" where
  "parseModel dsl =
     (let st = parse_lines dsl
      in \<lparr>pm_schema = ps_schema st, pm_types = ps_types st,
          pm_issues = ps_issues st
            @ (if ps_sawModel st then [] else [issue 1 ''missing model header''])
            @ (if ps_schema st = None then [issue 1 ''missing schema version''] else [])
            @ check_references (ps_types st)\<rparr>)"

section \<open>Summary\<close>

record ModelSummary =
  ms_types :: nat
  ms_relations :: nat
  ms_depth :: nat

definition rel_key :: "TypeDef \<times> RelationDef \<Rightarrow> string" where
  "rel_key x = ty_name (fst x) @ ''#'' @ rd_name (snd x)"

text \<open>The relations \<^verbatim>\<open>depthOf\<close> visits from one, in the order of its two loops.\<close>

definition rewrite_targets :: "TypeDef list \<Rightarrow> TypeDef \<times> RelationDef \<Rightarrow> (TypeDef \<times> RelationDef) list" where
  "rewrite_targets types x =
     (let (ty, rel) = x
      in concat (map (\<lambda>c. case relOf ty c of None \<Rightarrow> [] | Some target \<Rightarrow> [(ty, target)]) (rd_computed rel))
         @ concat (map (\<lambda>t.
             concat (map (\<lambda>targetName.
               case typeByName types (base_type targetName) of
                 None \<Rightarrow> []
               | Some targetType \<Rightarrow>
                   (case relOf targetType (ttu_relation t) of None \<Rightarrow> [] | Some target \<Rightarrow> [(targetType, target)]))
               (case relOf ty (ttu_via t) of None \<Rightarrow> [] | Some via \<Rightarrow> rd_direct via))) (rd_ttu rel)))"

type_synonym depth_state = "(string, nat) jsmap \<times> string list"

fun depth_loop :: "('n \<Rightarrow> depth_state \<Rightarrow> (nat \<times> depth_state) option) \<Rightarrow> 'n list \<Rightarrow> nat \<Rightarrow> depth_state
    \<Rightarrow> (nat \<times> depth_state) option" where
  "depth_loop f [] depth st = Some (depth, st)"
| "depth_loop f (x # xs) depth st =
     (case f x st of
        None \<Rightarrow> None
      | Some (d, st') \<Rightarrow> depth_loop f xs (max depth (1 + d)) st')"

text \<open>
  \<^verbatim>\<open>depthOf\<close>, with the memo table and the set of keys being visited threaded through. The first
  argument bounds the recursion depth; \<open>None\<close> would be running out of it.
\<close>

primrec depthOf :: "nat \<Rightarrow> TypeDef list \<Rightarrow> TypeDef \<times> RelationDef \<Rightarrow> depth_state \<Rightarrow> (nat \<times> depth_state) option" where
  "depthOf 0 types x st = None"
| "depthOf (Suc fuel) types x st =
     (let (memo, visiting) = st; key = rel_key x
      in case map_get memo key of
           Some cached \<Rightarrow> Some (cached, st)
         | None \<Rightarrow>
             if key \<in> set visiting then Some (0, st)
             else (case depth_loop (depthOf fuel types) (rewrite_targets types x) 0 (memo, key # visiting) of
                     None \<Rightarrow> None
                   | Some (depth, memo', visiting') \<Rightarrow>
                       Some (depth, map_set memo' key depth, removeAll key visiting')))"

definition nodes :: "TypeDef list \<Rightarrow> (TypeDef \<times> RelationDef) list" where
  "nodes types = concat (map (\<lambda>ty. map (Pair ty) (ty_relations ty)) types)"

fun summary_loop :: "nat \<Rightarrow> TypeDef list \<Rightarrow> (TypeDef \<times> RelationDef) list \<Rightarrow> nat \<Rightarrow> depth_state \<Rightarrow> nat option" where
  "summary_loop fuel types [] depth st = Some depth"
| "summary_loop fuel types (x # xs) depth st =
     (case depthOf fuel types x st of
        None \<Rightarrow> None
      | Some (d, st') \<Rightarrow> summary_loop fuel types xs (max depth d) st')"

definition summarize :: "ParsedModel \<Rightarrow> ModelSummary option" where
  "summarize model =
     (let types = pm_types model
      in map_option (\<lambda>depth. \<lparr>ms_types = length types, ms_relations = length (nodes types), ms_depth = depth\<rparr>)
           (summary_loop (Suc (length (nodes types))) types (nodes types) 0 ([], [])))"

section \<open>Diff\<close>

definition norm_lines :: "string \<Rightarrow> string list" where
  "norm_lines s = map trim (lines_of (normalize_newlines s))"

definition diffDsl :: "string \<Rightarrow> string \<Rightarrow> nat list \<times> string list" where
  "diffDsl live draft =
     (let liveLines = norm_lines live; draftLines = norm_lines draft;
          liveSet = filter (\<lambda>l. l \<noteq> []) liveLines; draftSet = filter (\<lambda>l. l \<noteq> []) draftLines
      in (map (\<lambda>(i, l). i + 1) (filter (\<lambda>(i, l). l \<noteq> [] \<and> l \<notin> set liveSet) (enumerate 0 draftLines)),
          filter (\<lambda>l. l \<noteq> [] \<and> l \<notin> set draftSet) liveLines))"

definition newRelations :: "ParsedModel \<Rightarrow> ParsedModel \<Rightarrow> string list" where
  "newRelations live draft =
     js_set (concat (map (\<lambda>ty.
       let before = List.find (\<lambda>t. ty_name t = ty_name ty) (pm_types live)
       in map (\<lambda>rel. rel_key (ty, rel))
            (filter (\<lambda>rel. case before of None \<Rightarrow> True | Some b \<Rightarrow> \<not> list_ex (\<lambda>r. rd_name r = rd_name rel) (ty_relations b))
              (ty_relations ty))) (pm_types draft)))"

section \<open>The tokenizer loses nothing\<close>

lemma lex_number_prefix: "prefix (lex_number s) s"
proof (cases "dropWhile is_digit s")
  case Nil
  then show ?thesis unfolding lex_number_def Nil by (simp only: list.case takeWhile_is_prefix)
next
  case (Cons d ds)
  then have s: "s = takeWhile is_digit s @ d # ds" by (metis takeWhile_dropWhile_id)
  have "prefix (takeWhile is_digit s @ CHR ''.'' # takeWhile is_digit ds) s" if "d = CHR ''.''"
    using that takeWhile_is_prefix [of is_digit ds] by (subst (2) s) simp
  then show ?thesis unfolding lex_number_def Cons using takeWhile_is_prefix [of is_digit s]
    by (auto split: list.split simp del: takeWhile.simps)
qed

lemma LEXEME_prefix: "LEXEME s @ drop (length (LEXEME s)) s = s"
proof -
  have "prefix (LEXEME s) s"
    using takeWhile_is_prefix lex_number_prefix
    by (auto simp: LEXEME_def split: list.split simp del: takeWhile.simps)
  then show ?thesis by (metis append_eq_conv_conj prefixE)
qed

lemma but_not_prefix: "but_not s = Some t \<Longrightarrow> t @ drop (length t) s = s"
proof -
  assume "but_not s = Some t"
  then have t: "t = takeWhile is_space s @ ''not''" and n: "startsWith (dropWhile is_space s) ''not''"
    by (auto simp: but_not_def Let_def split: if_splits)
  from n obtain u where u: "dropWhile is_space s = ''not'' @ u" by (auto simp: startsWith_iff)
  have "s = takeWhile is_space s @ dropWhile is_space s" by (simp only: takeWhile_dropWhile_id)
  also have "\<dots> = t @ u" using t u by simp
  finally show ?thesis by (metis append_eq_conv_conj)
qed

lemma LEXEME_hash: "s = c # cs \<Longrightarrow> startsWith (LEXEME s) ''#'' \<Longrightarrow> \<forall>c \<in> set s. not_newline c \<Longrightarrow> LEXEME s = s"
proof -
  assume s: "s = c # cs" and h: "startsWith (LEXEME s) ''#''" and nl: "\<forall>c \<in> set s. not_newline c"
  have "hd (LEXEME s) = c" using LEXEME_prefix [of s] LEXEME_nonempty [of s] s
    by (metis hd_append2 list.distinct(1) list.sel(1))
  moreover have "hd (LEXEME s) = CHR ''#''" using h by (auto simp: startsWith_iff)
  ultimately have "c = CHR ''#''" by simp
  then show ?thesis using s nl by (simp add: LEXEME_def char_class_defs takeWhile_eq_all_conv)
qed

lemma tokens_lossless:
  "\<forall>c \<in> set rest. not_newline c \<Longrightarrow> concat (map tk_text (tokens_of prev ac rest)) = rest"
proof (induction prev ac rest rule: tokens_of.induct)
  case (1 prev ac rest)
  show ?case
  proof (cases rest)
    case Nil
    then show ?thesis by (simp add: tokens_of.simps)
  next
    case (Cons c cs)
    let ?t = "LEXEME rest" and ?more = "drop (length (LEXEME rest)) rest"
    have pre: "?t @ ?more = rest" by (rule LEXEME_prefix)
    have nl: "\<forall>c \<in> set ?more. not_newline c" "\<And>k. \<forall>c \<in> set (drop k ?more). not_newline c"
      using "1.prems" by (auto dest: in_set_dropD)
    have ne: "rest \<noteq> []" using Cons by simp
    note IH = "1.IH" [OF ne refl refl]
    show ?thesis
    proof (cases "list_all is_space ?t \<or> startsWith ?t ''#'' \<or> is_digit (hd ?t) \<or> \<not> is_ident_start (hd ?t)")
      case True
      then show ?thesis
        using IH(1,2,5) nl pre ne LEXEME_hash [OF Cons] "1.prems"
        by (subst tokens_of.simps) (auto simp: Let_def)
    next
      case False
      then have cond: "\<not> list_all is_space ?t" "\<not> startsWith ?t ''#''" "\<not> is_digit (hd ?t)" "is_ident_start (hd ?t)"
        by auto
      show ?thesis
      proof (cases "if ?t = ''but'' then but_not ?more else None")
        case None
        with IH(3) [OF cond None nl(1)] cond ne pre show ?thesis
          by (subst tokens_of.simps) (simp add: Let_def)
      next
        case (Some tail)
        then have "tail @ drop (length tail) ?more = ?more" by (auto split: if_splits dest: but_not_prefix)
        with Some IH(4) [OF cond Some nl(2)] cond ne pre show ?thesis
          by (subst tokens_of.simps) (simp add: Let_def)
      qed
    qed
  qed
qed

lemma normalize_no_cr: "CHR 0x0D \<notin> set (normalize_newlines s)"
  by (induction s rule: normalize_newlines.induct) (auto split: list.splits)

lemma line_no_newline:
  assumes "l \<in> set (lines_of (normalize_newlines s))" "c \<in> set l"
  shows "not_newline c"
  using set_split_char [of l "CHR 0x0A" "normalize_newlines s"] assms normalize_no_cr [of s]
  by (auto simp: lines_of_def not_newline_def)

lemma tokenizeLine_lossless:
  assumes "\<forall>c \<in> set raw. not_newline c"
  shows "tl_indent (tokenizeLine raw n) @ concat (map tk_text (tl_tokens (tokenizeLine raw n))) = raw"
proof -
  have "\<forall>c \<in> set (drop (length (takeWhile is_space raw)) raw). not_newline c"
    using assms by (auto dest: in_set_dropD)
  then show ?thesis
    by (simp add: tokenizeLine_def Let_def tokens_lossless) (metis append_eq_conv_conj takeWhile_dropWhile_id)
qed

text \<open>
  Syntax colouring loses nothing. Whatever the text, well formed or not, the tokens of every
  line with its indentation spell that line, the lines are numbered from 1, and joined by line
  feeds they are the text with its line endings normalised.
\<close>

theorem tokenize_lossless:
  "join [CHR 0x0A] (map (\<lambda>l. tl_indent l @ concat (map tk_text (tl_tokens l))) (tokenize dsl)) = normalize_newlines dsl
   \<and> map tl_n (tokenize dsl) = [1..<Suc (length (lines_of (normalize_newlines dsl)))]"
proof -
  let ?ls = "lines_of (normalize_newlines dsl)"
  have "map (\<lambda>l. tl_indent l @ concat (map tk_text (tl_tokens l))) (tokenize dsl) = map snd (enumerate 0 ?ls)"
    unfolding tokenize_def map_map
    by (rule map_cong [OF refl]) (auto simp: in_set_enumerate_eq intro!: tokenizeLine_lossless line_no_newline [of _ dsl] nth_mem)
  moreover have "map tl_n (tokenize dsl) = map Suc (map fst (enumerate 0 ?ls))"
    by (simp add: tokenize_def tokenizeLine_def Let_def comp_def case_prod_unfold del: map_fst_enumerate)
  ultimately show ?thesis by (simp add: join_split_char lines_of_def map_Suc_upt)
qed

section \<open>What the parser guarantees\<close>

lemma parseTerm_keeps:
  "parseTerm n t (rel, iss) = (rel', iss') \<Longrightarrow>
     rd_name rel' = rd_name rel \<and> rd_line rel' = rd_line rel \<and> (\<exists>new. iss' = iss @ new \<and> (\<forall>i \<in> set new. pi_line i = n))"
  by (auto simp: parseTerm_def split: option.splits list.splits if_splits)

lemma parseTerm_fold:
  "fold (\<lambda>t. parseTerm n (trim t)) ts (rel, iss) = (rel', iss') \<Longrightarrow>
     rd_name rel' = rd_name rel \<and> rd_line rel' = rd_line rel \<and> (\<exists>new. iss' = iss @ new \<and> (\<forall>i \<in> set new. pi_line i = n))"
proof (induction ts arbitrary: rel iss)
  case Nil
  then show ?case by simp
next
  case (Cons t ts)
  obtain rel1 iss1 where step: "parseTerm n (trim t) (rel, iss) = (rel1, iss1)" by fastforce
  note one = parseTerm_keeps [OF step]
  have "fold (\<lambda>t. parseTerm n (trim t)) ts (rel1, iss1) = (rel', iss')" using Cons.prems step by simp
  from Cons.IH [OF this] one show ?case by (metis Un_iff append_assoc set_append)
qed

text \<open>Invariant of the line loop after \<open>k\<close> lines.\<close>

definition names_ok :: "TypeDef list \<Rightarrow> bool" where
  "names_ok types \<longleftrightarrow> distinct (map ty_name types) \<and> (\<forall>ty \<in> set types. distinct (map rd_name (ty_relations ty)))"

definition parse_inv :: "nat \<Rightarrow> parse_state \<Rightarrow> bool" where
  "parse_inv k st \<longleftrightarrow>
     (\<forall>i \<in> set (ps_issues st). 1 \<le> pi_line i \<and> pi_line i \<le> k)
     \<and> (\<forall>ty \<in> set (ps_types st). \<forall>r \<in> set (ty_relations ty). 1 \<le> rd_line r \<and> rd_line r \<le> k)
     \<and> (ps_issues st = [] \<longrightarrow> names_ok (ps_types st))"

lemma parse_inv_add_issue: "parse_inv k st \<Longrightarrow> parse_inv (Suc k) (add_issue (Suc k) m st)"
  by (fastforce simp: parse_inv_def add_issue_def)

lemma parse_inv_mono: "parse_inv k st \<Longrightarrow> parse_inv (Suc k) st"
  by (fastforce simp: parse_inv_def)

lemma parse_inv_define:
  assumes inv: "parse_inv k st"
  shows "parse_inv (Suc k) (parse_define (Suc k) name body st)"
proof (cases "ps_types st = []")
  case True
  then show ?thesis using inv by (simp add: parse_define_def parse_inv_add_issue)
next
  case False
  let ?cur = "last (ps_types st)"
  let ?dup = "list_ex (\<lambda>r. rd_name r = name) (ty_relations ?cur)"
  let ?st1 = "if ?dup then add_issue (Suc k) (''duplicate relation '' @ quoted name @ '' on type '' @ ty_name ?cur) st else st"
  obtain rel iss where f: "fold (\<lambda>t. parseTerm (Suc k) (trim t)) (split_re re_operator [] body)
      (\<lparr>rd_name = name, rd_direct = [], rd_computed = [], rd_ttu = [], rd_line = Suc k\<rparr>, ps_issues ?st1) = (rel, iss)"
    by fastforce
  from parseTerm_fold [OF f] obtain new where rel: "rd_name rel = name" "rd_line rel = Suc k"
    and iss: "iss = ps_issues ?st1 @ new" "\<forall>i \<in> set new. pi_line i = Suc k" by auto
  have types: "ps_types st = butlast (ps_types st) @ [?cur]" using False by simp
  have eq: "parse_define (Suc k) name body st =
      ?st1\<lparr>ps_issues := iss, ps_types := butlast (ps_types st) @ [?cur\<lparr>ty_relations := ty_relations ?cur @ [rel]\<rparr>]\<rparr>"
    using False f by (simp add: parse_define_def Let_def)
  have lines: "\<forall>i \<in> set iss. 1 \<le> pi_line i \<and> pi_line i \<le> Suc k"
    using inv iss by (fastforce simp: parse_inv_def add_issue_def split: if_splits)
  have rels: "\<forall>ty \<in> set (butlast (ps_types st) @ [?cur\<lparr>ty_relations := ty_relations ?cur @ [rel]\<rparr>]).
      \<forall>r \<in> set (ty_relations ty). 1 \<le> rd_line r \<and> rd_line r \<le> Suc k"
    using inv rel False by (fastforce simp: parse_inv_def dest: in_set_butlastD)
  have "names_ok (butlast (ps_types st) @ [?cur\<lparr>ty_relations := ty_relations ?cur @ [rel]\<rparr>])" if "iss = []"
  proof -
    from that iss have nodup: "\<not> ?dup" and st: "ps_issues st = []" by (auto simp: add_issue_def split: if_splits)
    from st inv have nm: "names_ok (butlast (ps_types st) @ [?cur])" using types by (simp add: parse_inv_def)
    from nodup rel(1) have "name \<notin> rd_name ` set (ty_relations ?cur)" by (auto simp: list_ex_iff)
    then show ?thesis using nm rel(1) by (auto simp: names_ok_def)
  qed
  with lines rels show ?thesis unfolding eq by (simp add: parse_inv_def)
qed

lemma parse_inv_type: "parse_inv k st \<Longrightarrow> parse_inv (Suc k) (parse_type (Suc k) name st)"
  by (auto simp: parse_type_def Let_def parse_inv_def add_issue_def names_ok_def list_ex_iff le_Suc_eq)

lemma parse_line_cases:
  assumes "Q st" "Q (st\<lparr>ps_sawModel := True\<rparr>)" "\<And>v. Q (st\<lparr>ps_schema := v\<rparr>)"
    and "\<And>m. Q (add_issue (Suc k) m st)" "\<And>name. CHR ''#'' \<notin> set name \<Longrightarrow> Q (parse_type (Suc k) name st)"
    and "\<And>name body. Q (parse_define (Suc k) name body st)"
  shows "Q (parse_line (k, l) st)"
proof -
  let ?t = "trim (takeWhile (\<lambda>c. c \<noteq> CHR ''#'') l)"
  have rest: "Q (case re_exec re_define ?t of Some [name, body] \<Rightarrow> parse_define (Suc k) name body st
      | _ \<Rightarrow> add_issue (Suc k) (''unexpected line '' @ quoted ?t) st)"
    using assms(4,6) by (simp split: option.split list.split)
  have typed: "Q (case re_exec re_type ?t of Some (name # _) \<Rightarrow> parse_type (Suc k) name st | _ \<Rightarrow> X)" if "Q X" for X
  proof (cases "re_exec re_type ?t")
    case (Some c)
    have "set ?t \<subseteq> set (takeWhile (\<lambda>c. c \<noteq> CHR ''#'') l)"
      unfolding trim_def by (auto dest!: set_dropWhileD)
    then have "CHR ''#'' \<notin> set ?t" by (auto dest: set_takeWhileD)
    with re_exec_captures [OF Some] that assms(5) Some show ?thesis by (cases c) auto
  qed (use that in simp)
  have schema: "Q (case re_exec re_schema ?t of Some (v # _) \<Rightarrow> st\<lparr>ps_schema := Some v\<rparr> | _ \<Rightarrow> X)" if "Q X" for X
    using assms(3) that by (simp split: option.split list.split)
  have choose: "Q (if b then X else Y)" if "Q X" "Q Y" for b X Y using that by simp
  show ?thesis
    unfolding parse_line_def Let_def fst_conv snd_conv Suc_eq_plus1 [symmetric]
    by (intro choose schema typed rest assms)
qed

lemma parse_inv_line:
  assumes "parse_inv k st"
  shows "parse_inv (Suc k) (parse_line (k, l) st)"
proof (rule parse_line_cases)
  show "parse_inv (Suc k) (st\<lparr>ps_sawModel := True\<rparr>)" using parse_inv_mono [OF assms] by (simp add: parse_inv_def)
  show "parse_inv (Suc k) (st\<lparr>ps_schema := v\<rparr>)" for v using parse_inv_mono [OF assms] by (simp add: parse_inv_def)
qed (intro parse_inv_mono parse_inv_add_issue parse_inv_type parse_inv_define assms)+

lemma type_names_no_hash: "ty \<in> set (ps_types (parse_lines dsl)) \<Longrightarrow> CHR ''#'' \<notin> set (ty_name ty)"
proof -
  let ?ok = "\<lambda>st. \<forall>ty \<in> set (ps_types st). CHR ''#'' \<notin> set (ty_name ty)"
  have step: "?ok (parse_line (k, l) st)" if "?ok st" for k l st
  proof (rule parse_line_cases)
    show "?ok (parse_define (Suc k) name body st)" for name body
      using that last_in_set [of "ps_types st"]
      by (auto simp: parse_define_def add_issue_def Let_def case_prod_unfold dest: in_set_butlastD)
  qed (use that in \<open>auto simp: parse_type_def add_issue_def Let_def\<close>)
  have all: "?ok (fold parse_line xs st)" if "?ok st" for xs st
    using that
  proof (induction xs arbitrary: st)
    case (Cons x xs)
    obtain k l where "x = (k, l)" by fastforce
    with Cons.IH [OF step [OF Cons.prems]] show ?case by simp
  qed simp
  have "?ok (parse_lines dsl)" unfolding parse_lines_def by (rule all) simp
  then show "ty \<in> set (ps_types (parse_lines dsl)) \<Longrightarrow> CHR ''#'' \<notin> set (ty_name ty)" by blast
qed

lemma parse_inv_fold:
  "parse_inv k st \<Longrightarrow> parse_inv (k + length ls) (fold parse_line (enumerate k ls) st)"
proof (induction ls arbitrary: k st)
  case Nil
  then show ?case by simp
next
  case (Cons l ls)
  from Cons.IH [OF parse_inv_line [OF Cons.prems, of l]] show ?case by simp
qed

lemma parse_inv_parse_lines: "parse_inv (length (lines_of (normalize_newlines dsl))) (parse_lines dsl)"
proof -
  have "parse_inv 0 \<lparr>ps_schema = None, ps_types = [], ps_issues = [], ps_sawModel = False\<rparr>"
    by (simp add: parse_inv_def names_ok_def)
  from parse_inv_fold [OF this] show ?thesis by (simp add: parse_lines_def)
qed

lemma typeByName_mem: "typeByName types n = Some ty \<Longrightarrow> ty \<in> set types \<and> ty_name ty = n"
  unfolding typeByName_def by (auto dest: find_SomeD)

lemma relOf_mem: "relOf ty n = Some r \<Longrightarrow> r \<in> set (ty_relations ty) \<and> rd_name r = n"
  unfolding relOf_def by (auto dest: find_SomeD)

text \<open>A model without dangling names.\<close>

definition references_ok :: "TypeDef list \<Rightarrow> bool" where
  "references_ok types \<longleftrightarrow>
     (\<forall>ty \<in> set types. \<forall>rel \<in> set (ty_relations ty).
        (\<forall>d \<in> set (rd_direct rel). \<exists>t \<in> set types. ty_name t = base_type d)
        \<and> (\<forall>c \<in> set (rd_computed rel). \<exists>r \<in> set (ty_relations ty). rd_name r = c)
        \<and> (\<forall>t \<in> set (rd_ttu rel). \<exists>via \<in> set (ty_relations ty). rd_name via = ttu_via t
              \<and> (\<forall>d \<in> set (rd_direct via). \<exists>target \<in> set types. ty_name target = base_type d
                    \<and> (\<exists>r \<in> set (ty_relations target). rd_name r = ttu_relation t))))"

lemma check_references_ok:
  assumes "check_references types = []"
  shows "references_ok types"
proof -
  have dir: "\<exists>t \<in> set types. ty_name t = base_type d"
    if "ty \<in> set types" "rel \<in> set (ty_relations ty)" "d \<in> set (rd_direct rel)" for ty rel d
  proof -
    from assms that have "check_direct types ty rel d = []"
      unfolding check_references_def concat_eq_Nil_conv by auto
    then show ?thesis using typeByName_mem by (force simp: check_direct_def split: if_splits)
  qed
  have comp: "\<exists>r \<in> set (ty_relations ty). rd_name r = c"
    if "ty \<in> set types" "rel \<in> set (ty_relations ty)" "c \<in> set (rd_computed rel)" for ty rel c
  proof -
    from assms that have "check_computed ty rel c = []"
      unfolding check_references_def concat_eq_Nil_conv by auto
    then show ?thesis using relOf_mem by (force simp: check_computed_def split: if_splits)
  qed
  have ttu: "\<exists>via \<in> set (ty_relations ty). rd_name via = ttu_via t
        \<and> (\<forall>d \<in> set (rd_direct via). \<exists>target \<in> set types. ty_name target = base_type d
              \<and> (\<exists>r \<in> set (ty_relations target). rd_name r = ttu_relation t))"
    if ty: "ty \<in> set types" "rel \<in> set (ty_relations ty)" "t \<in> set (rd_ttu rel)" for ty rel t
  proof -
    from assms that have nil: "check_ttu types ty rel t = []"
      unfolding check_references_def concat_eq_Nil_conv by auto
    then obtain via where via: "relOf ty (ttu_via t) = Some via" by (auto simp: check_ttu_def split: option.splits)
    have "\<exists>target \<in> set types. ty_name target = base_type d \<and> (\<exists>r \<in> set (ty_relations target). rd_name r = ttu_relation t)"
      if d: "d \<in> set (rd_direct via)" for d
    proof -
      obtain t0 where "t0 \<in> set types" "ty_name t0 = base_type d" using dir ty(1) relOf_mem [OF via] d by blast
      then have "typeByName types (base_type d) \<noteq> None" unfolding typeByName_def find_eq_None by auto
      then obtain target where target: "typeByName types (base_type d) = Some target" by blast
      with nil via d have "relOf target (ttu_relation t) \<noteq> None"
        by (auto simp: check_ttu_def split: option.splits if_splits)
      with typeByName_mem [OF target] relOf_mem show ?thesis by blast
    qed
    with relOf_mem [OF via] show ?thesis by blast
  qed
  show ?thesis unfolding references_ok_def using dir comp ttu by blast
qed

lemma check_references_lines:
  "i \<in> set (check_references types) \<Longrightarrow> \<exists>ty \<in> set types. \<exists>rel \<in> set (ty_relations ty). pi_line i = rd_line rel"
  unfolding check_references_def check_direct_def check_computed_def check_ttu_def
  by (fastforce split: if_splits option.splits)

text \<open>
  C13: a model the parser accepts without issues has a schema version, type names that are pairwise
  distinct, relation names that are pairwise distinct within each type, and no dangling reference:
  every assignable type exists, every computed relation exists on the same type, and for every
  "r from p" the relation p exists and r is defined on every type p can point at.
\<close>

theorem parseModel_sound:
  assumes "pm_issues (parseModel dsl) = []"
  shows "pm_schema (parseModel dsl) \<noteq> None \<and> names_ok (pm_types (parseModel dsl))
    \<and> references_ok (pm_types (parseModel dsl))"
  using assms parse_inv_parse_lines [of dsl] check_references_ok
  by (auto simp: parseModel_def Let_def parse_inv_def split: if_splits)

lemma parseModel_lines_bound:
  assumes "i \<in> set (pm_issues (parseModel dsl))"
  shows "1 \<le> pi_line i \<and> pi_line i \<le> length (lines_of (normalize_newlines dsl))"
proof -
  have ne: "1 \<le> length (lines_of (normalize_newlines dsl))" by (simp add: lines_of_def Suc_leI)
  note inv = parse_inv_parse_lines [of dsl, unfolded parse_inv_def]
  then show ?thesis using ne assms
    by (auto simp: parseModel_def Let_def split: if_splits dest!: check_references_lines)
qed

text \<open>
  Every issue the parser reports points at a line of the text: its line number is at least 1
  and at most the number of lines.
\<close>

theorem parseModel_issue_lines:
  "list_all (\<lambda>i. 1 \<le> pi_line i \<and> pi_line i \<le> length (lines_of (normalize_newlines dsl))) (pm_issues (parseModel dsl))"
  using parseModel_lines_bound by (simp add: list_all_iff)

section \<open>The summary ends, and measures the longest chain of rewrites\<close>

lemma nodes_iff: "x \<in> set (nodes types) \<longleftrightarrow> fst x \<in> set types \<and> snd x \<in> set (ty_relations (fst x))"
  by (cases x) (auto simp: nodes_def)

lemma rewrite_targets_nodes: "x \<in> set (nodes types) \<Longrightarrow> y \<in> set (rewrite_targets types x) \<Longrightarrow> y \<in> set (nodes types)"
  by (cases x) (auto simp: rewrite_targets_def nodes_iff split: option.splits dest!: relOf_mem [OF sym] typeByName_mem [OF sym])

lemma depth_loop_rule:
  assumes "\<And>x m. x \<in> set xs \<Longrightarrow> I m \<Longrightarrow> \<exists>d m'. f x (m, v) = Some (d, m', v) \<and> I m' \<and> P x d" and "I m"
  shows "\<exists>d m'. depth_loop f xs d0 (m, v) = Some (d, m', v) \<and> I m' \<and> d0 \<le> d
    \<and> (\<forall>x \<in> set xs. \<exists>e. P x e \<and> Suc e \<le> d) \<and> (d = d0 \<or> (\<exists>x \<in> set xs. \<exists>e. P x e \<and> d = Suc e))"
  using assms
proof (induction xs arbitrary: d0 m)
  case Nil
  then show ?case by simp
next
  case (Cons x xs)
  from Cons.prems(1) [OF list.set_intros(1) Cons.prems(2)]
  obtain e m1 where e: "f x (m, v) = Some (e, m1, v)" "I m1" "P x e" by blast
  have "\<exists>d m'. f y (m0, v) = Some (d, m', v) \<and> I m' \<and> P y d" if "y \<in> set xs" "I m0" for y m0
    using Cons.prems(1) [OF _ that(2), of y] that(1) by simp
  from Cons.IH [OF this e(2), of "max d0 (Suc e)"]
  obtain d m' where d: "depth_loop f xs (max d0 (Suc e)) (m1, v) = Some (d, m', v)" "I m'" "max d0 (Suc e) \<le> d"
      "\<forall>x \<in> set xs. \<exists>e. P x e \<and> Suc e \<le> d" "d = max d0 (Suc e) \<or> (\<exists>x \<in> set xs. \<exists>e. P x e \<and> d = Suc e)"
    by blast
  have "depth_loop f (x # xs) d0 (m, v) = Some (d, m', v)" using e d by simp
  moreover have "\<forall>x \<in> set (x # xs). \<exists>e. P x e \<and> Suc e \<le> d" using e(3) d(3,4) by auto
  moreover have "d = d0 \<or> (\<exists>x \<in> set (x # xs). \<exists>e. P x e \<and> d = Suc e)" using d(5) e(3) by (auto simp: max_def split: if_splits)
  ultimately show ?case using d(2,3) by auto
qed

text \<open>The fuel \<^verbatim>\<open>summarize\<close> gives is enough: every nested call has one more key in progress.\<close>

definition node_keys :: "TypeDef list \<Rightarrow> string set" where
  "node_keys types = rel_key ` set (nodes types)"

lemma depth_fuel_step:
  assumes "x \<in> set (nodes types)" "rel_key x \<notin> set v" "card (node_keys types - set v) \<le> fuel"
  shows "card (node_keys types - set (rel_key x # v)) < fuel"
proof -
  have "node_keys types - set (rel_key x # v) \<subset> node_keys types - set v" using assms by (auto simp: node_keys_def)
  then have "card (node_keys types - set (rel_key x # v)) < card (node_keys types - set v)"
    by (rule psubset_card_mono [rotated]) (simp add: node_keys_def)
  with assms(3) show ?thesis by simp
qed

lemma depthOf_total:
  "x \<in> set (nodes types) \<Longrightarrow> card (node_keys types - set v) < fuel \<Longrightarrow> \<exists>d m'. depthOf fuel types x (m, v) = Some (d, m', v)"
proof (induction fuel arbitrary: x m v)
  case 0
  then show ?case by simp
next
  case (Suc fuel)
  show ?case
  proof (cases "map_get m (rel_key x) = None \<and> rel_key x \<notin> set v")
    case True
    have "\<exists>d m'. depthOf fuel types y (m1, rel_key x # v) = Some (d, m', rel_key x # v) \<and> True \<and> True"
      if "y \<in> set (rewrite_targets types x)" for y m1
      using Suc.IH [OF rewrite_targets_nodes [OF Suc.prems(1) that]] depth_fuel_step [OF Suc.prems(1)] True Suc.prems(2)
      by (simp add: less_Suc_eq_le)
    then obtain d m' where "depth_loop (depthOf fuel types) (rewrite_targets types x) 0 (m, rel_key x # v) = Some (d, m', rel_key x # v)"
      using depth_loop_rule [of "rewrite_targets types x" "\<lambda>_. True" "depthOf fuel types" "rel_key x # v" "\<lambda>_ _. True" m 0]
      by blast
    then show ?thesis using True by simp
  qed (auto simp: Let_def split: option.splits)
qed

text \<open>A chain of userset rewrites of length \<open>n\<close> starting at a relation.\<close>

inductive chain :: "TypeDef list \<Rightarrow> TypeDef \<times> RelationDef \<Rightarrow> nat \<Rightarrow> bool" for types where
  stop: "chain types x 0"
| step: "y \<in> set (rewrite_targets types x) \<Longrightarrow> chain types y n \<Longrightarrow> chain types x (Suc n)"

inductive_cases chain_SucE: "chain types x (Suc n)"

definition longest :: "TypeDef list \<Rightarrow> TypeDef \<times> RelationDef \<Rightarrow> nat \<Rightarrow> bool" where
  "longest types x d \<longleftrightarrow> chain types x d \<and> (\<forall>n. chain types x n \<longrightarrow> n \<le> d)"

lemma longest_step:
  assumes "\<forall>y \<in> set (rewrite_targets types x). \<exists>e. longest types y e \<and> Suc e \<le> d"
    and "d = 0 \<or> (\<exists>y \<in> set (rewrite_targets types x). \<exists>e. longest types y e \<and> d = Suc e)"
  shows "longest types x d"
proof -
  have "chain types x d" using assms(2) by (auto simp: longest_def intro: chain.intros)
  moreover have "n \<le> d" if "chain types x n" for n
  proof (cases n)
    case (Suc k)
    with that obtain y where y: "y \<in> set (rewrite_targets types x)" "chain types y k" by (auto elim: chain_SucE)
    with assms(1) obtain e where "longest types y e" "Suc e \<le> d" by blast
    with y(2) Suc show ?thesis by (auto simp: longest_def)
  qed simp
  ultimately show ?thesis by (simp add: longest_def)
qed

definition memo_ok :: "TypeDef list \<Rightarrow> (string, nat) jsmap \<Rightarrow> bool" where
  "memo_ok types m \<longleftrightarrow> (\<forall>x \<in> set (nodes types). \<forall>d. map_get m (rel_key x) = Some d \<longrightarrow> longest types x d)"

lemma depthOf_longest:
  assumes inj: "inj_on rel_key (set (nodes types))"
    and rank: "\<And>x y. x \<in> set (nodes types) \<Longrightarrow> y \<in> set (rewrite_targets types x) \<Longrightarrow> (rank y :: nat) < rank x"
  shows "x \<in> set (nodes types) \<Longrightarrow> card (node_keys types - set v) < fuel \<Longrightarrow> memo_ok types m
    \<Longrightarrow> \<forall>z \<in> set (nodes types). rel_key z \<in> set v \<longrightarrow> rank x < rank z
    \<Longrightarrow> \<exists>d m'. depthOf fuel types x (m, v) = Some (d, m', v) \<and> memo_ok types m' \<and> longest types x d"
proof (induction fuel arbitrary: x m v)
  case 0
  then show ?case by simp
next
  case (Suc fuel)
  have fresh: "rel_key x \<notin> set v" using Suc.prems(1,4) by blast
  show ?case
  proof (cases "map_get m (rel_key x)")
    case (Some d)
    with Suc.prems(1,3) have "longest types x d" by (auto simp: memo_ok_def)
    with Some Suc.prems(3) show ?thesis by simp
  next
    case None
    have sub: "\<exists>d m'. depthOf fuel types y (m1, rel_key x # v) = Some (d, m', rel_key x # v) \<and> memo_ok types m' \<and> longest types y d"
      if y: "y \<in> set (rewrite_targets types x)" and m1: "memo_ok types m1" for y m1
    proof (rule Suc.IH)
      show "y \<in> set (nodes types)" using Suc.prems(1) y by (rule rewrite_targets_nodes)
      show "card (node_keys types - set (rel_key x # v)) < fuel"
        using depth_fuel_step [OF Suc.prems(1) fresh] Suc.prems(2) by simp
      show "memo_ok types m1" by (rule m1)
      show "\<forall>z \<in> set (nodes types). rel_key z \<in> set (rel_key x # v) \<longrightarrow> rank y < rank z"
        using rank [OF Suc.prems(1) y] Suc.prems(4) inj_onD [OF inj _ _ Suc.prems(1)] by (auto intro: less_trans)
    qed
    from depth_loop_rule [of "rewrite_targets types x" "memo_ok types" "depthOf fuel types" "rel_key x # v" "longest types", OF sub Suc.prems(3), of 0]
    obtain d m' where loop: "depth_loop (depthOf fuel types) (rewrite_targets types x) 0 (m, rel_key x # v) = Some (d, m', rel_key x # v)"
      and m': "memo_ok types m'" and "longest types x d" using longest_step by blast
    have "memo_ok types (map_set m' (rel_key x) d)"
      using m' \<open>longest types x d\<close> inj_onD [OF inj _ _ Suc.prems(1)] by (auto simp: memo_ok_def)
    with loop None fresh \<open>longest types x d\<close> show ?thesis by simp
  qed
qed

text \<open>The outer loop, once with nothing assumed and once for models without cyclic rewrites.\<close>

lemma summary_loop_rule:
  assumes "\<And>x m. x \<in> set xs \<Longrightarrow> I m \<Longrightarrow> \<exists>d m'. depthOf fuel types x (m, []) = Some (d, m', []) \<and> I m' \<and> P x d" and "I m"
  shows "\<exists>d. summary_loop fuel types xs d0 (m, []) = Some d \<and> d0 \<le> d
    \<and> (\<forall>x \<in> set xs. \<exists>e. P x e \<and> e \<le> d) \<and> (d = d0 \<or> (\<exists>x \<in> set xs. P x d))"
  using assms
proof (induction xs arbitrary: d0 m)
  case Nil
  then show ?case by simp
next
  case (Cons x xs)
  from Cons.prems(1) [OF list.set_intros(1) Cons.prems(2)]
  obtain e m1 where e: "depthOf fuel types x (m, []) = Some (e, m1, [])" "I m1" "P x e" by blast
  have "\<exists>d m'. depthOf fuel types y (m0, []) = Some (d, m', []) \<and> I m' \<and> P y d" if "y \<in> set xs" "I m0" for y m0
    using Cons.prems(1) [OF _ that(2), of y] that(1) by simp
  from Cons.IH [OF this e(2), of "max d0 e"]
  obtain d where "summary_loop fuel types xs (max d0 e) (m1, []) = Some d" "max d0 e \<le> d"
      "\<forall>x \<in> set xs. \<exists>e. P x e \<and> e \<le> d" "d = max d0 e \<or> (\<exists>x \<in> set xs. P x d)"
    by blast
  with e show ?case by (auto simp: max_def split: if_splits)
qed

lemma node_keys_fuel: "card (node_keys types - set []) < Suc (length (nodes types))"
proof -
  have "card (node_keys types) \<le> card (set (nodes types))" unfolding node_keys_def by (rule card_image_le) simp
  also have "\<dots> \<le> length (nodes types)" by (rule card_length)
  finally show ?thesis by simp
qed

lemma names_ok_inj:
  assumes "names_ok types" and "\<forall>ty \<in> set types. CHR ''#'' \<notin> set (ty_name ty)"
  shows "inj_on rel_key (set (nodes types))"
proof (rule inj_onI)
  fix x y
  assume x: "x \<in> set (nodes types)" and y: "y \<in> set (nodes types)" and eq: "rel_key x = rel_key y"
  have tw: "takeWhile (\<lambda>c. c \<noteq> CHR ''#'') (rel_key z) = ty_name (fst z)" if "z \<in> set (nodes types)" for z
    using assms(2) that unfolding rel_key_def nodes_iff by (subst takeWhile_append2) auto
  from tw [OF x] tw [OF y] eq have n: "ty_name (fst x) = ty_name (fst y)" by simp
  with x y assms(1) have ty: "fst x = fst y" unfolding names_ok_def nodes_iff by (meson distinct_map inj_onD)
  from eq n have "rd_name (snd x) = rd_name (snd y)" by (simp add: rel_key_def)
  with x y ty assms(1) have "snd x = snd y" unfolding names_ok_def nodes_iff by (metis distinct_map inj_onD)
  with ty show "x = y" by (simp add: prod_eq_iff)
qed

text \<open>Acyclic rewrites give a rank that every rewrite decreases.\<close>

definition rewrite_rel :: "TypeDef list \<Rightarrow> ((TypeDef \<times> RelationDef) \<times> (TypeDef \<times> RelationDef)) set" where
  "rewrite_rel types = {(x, y). x \<in> set (nodes types) \<and> y \<in> set (rewrite_targets types x)}"

lemma rewrite_rel_rank:
  assumes "acyclic (rewrite_rel types)" "x \<in> set (nodes types)" "y \<in> set (rewrite_targets types x)"
  shows "card {z. (y, z) \<in> (rewrite_rel types)\<^sup>+} < card {z. (x, z) \<in> (rewrite_rel types)\<^sup>+}"
proof (rule psubset_card_mono)
  have "{z. (x, z) \<in> (rewrite_rel types)\<^sup>+} \<subseteq> set (nodes types)"
    by (auto dest!: tranclD2 simp: rewrite_rel_def intro: rewrite_targets_nodes)
  then show "finite {z. (x, z) \<in> (rewrite_rel types)\<^sup>+}" by (rule finite_subset) simp
  have e: "(x, y) \<in> rewrite_rel types" using assms by (simp add: rewrite_rel_def)
  then have "y \<in> {z. (x, z) \<in> (rewrite_rel types)\<^sup>+}" "y \<notin> {z. (y, z) \<in> (rewrite_rel types)\<^sup>+}"
    using assms(1) unfolding acyclic_def by blast+
  moreover have "{z. (y, z) \<in> (rewrite_rel types)\<^sup>+} \<subseteq> {z. (x, z) \<in> (rewrite_rel types)\<^sup>+}"
    using e by (auto intro: trancl_into_trancl2)
  ultimately show "{z. (y, z) \<in> (rewrite_rel types)\<^sup>+} \<subset> {z. (x, z) \<in> (rewrite_rel types)\<^sup>+}" by blast
qed

lemma summarize_Some:
  "\<exists>s. summarize model = Some s \<and> ms_types s = length (pm_types model)
     \<and> ms_relations s = sum_list (map (\<lambda>ty. length (ty_relations ty)) (pm_types model))"
proof -
  let ?types = "pm_types model"
  have "\<exists>d m'. depthOf (Suc (length (nodes ?types))) ?types x (m, []) = Some (d, m', []) \<and> True \<and> True"
    if "x \<in> set (nodes ?types)" for x m
    using depthOf_total [OF that node_keys_fuel] by blast
  from summary_loop_rule [of "nodes ?types" "\<lambda>_. True" _ _ "\<lambda>_ _. True" "[]" 0, OF this]
  have "\<exists>d. summary_loop (Suc (length (nodes ?types))) ?types (nodes ?types) 0 ([], []) = Some d" by blast
  then show ?thesis by (auto simp: summarize_def Let_def nodes_def length_concat comp_def)
qed

text \<open>
  C40: summarize ends on every model, cyclic rewrites and duplicate names included, and counts its
  types and relations.
\<close>

theorem summarize_total:
  "\<exists>s. summarize model = Some s \<and> ms_types s = length (pm_types model)
     \<and> ms_relations s = sum_list (map (\<lambda>ty. length (ty_relations ty)) (pm_types model))"
  by (rule summarize_Some)

text \<open>
  C17: for a model accepted without issues whose rewrites are acyclic, the reported depth is the
  length of the longest chain of userset rewrites: no chain is longer, and some relation has one
  of exactly that length.
\<close>

theorem summarize_longest_chain:
  assumes "pm_issues (parseModel dsl) = []" and "acyclic (rewrite_rel (pm_types (parseModel dsl)))"
    and "nodes (pm_types (parseModel dsl)) \<noteq> []"
  shows "\<exists>s. summarize (parseModel dsl) = Some s
    \<and> (\<forall>x \<in> set (nodes (pm_types (parseModel dsl))). \<forall>n. chain (pm_types (parseModel dsl)) x n \<longrightarrow> n \<le> ms_depth s)
    \<and> (\<exists>x \<in> set (nodes (pm_types (parseModel dsl))). chain (pm_types (parseModel dsl)) x (ms_depth s))"
proof -
  let ?types = "pm_types (parseModel dsl)"
  have "names_ok ?types"
    using assms(1) parse_inv_parse_lines [of dsl] by (simp add: parseModel_def Let_def parse_inv_def)
  then have inj: "inj_on rel_key (set (nodes ?types))"
    using type_names_no_hash by (intro names_ok_inj) (auto simp: parseModel_def Let_def)
  have "\<exists>d m'. depthOf (Suc (length (nodes ?types))) ?types x (m, []) = Some (d, m', []) \<and> memo_ok ?types m' \<and> longest ?types x d"
    if "x \<in> set (nodes ?types)" "memo_ok ?types m" for x m
    by (rule depthOf_longest [OF inj rewrite_rel_rank [OF assms(2)] that(1) node_keys_fuel that(2)]) simp_all
  from summary_loop_rule [of "nodes ?types" "memo_ok ?types" _ _ "longest ?types" "[]" 0, OF this]
  obtain d where d: "summary_loop (Suc (length (nodes ?types))) ?types (nodes ?types) 0 ([], []) = Some d"
      "\<forall>x \<in> set (nodes ?types). \<exists>e. longest ?types x e \<and> e \<le> d" "d = 0 \<or> (\<exists>x \<in> set (nodes ?types). longest ?types x d)"
    by (auto simp: memo_ok_def)
  have "\<exists>x \<in> set (nodes ?types). chain ?types x d"
    using d(3) assms(3) by (auto simp: longest_def neq_Nil_conv intro: chain.stop)
  moreover have "\<forall>x \<in> set (nodes ?types). \<forall>n. chain ?types x n \<longrightarrow> n \<le> d"
    using d(2) unfolding longest_def by (meson order_trans)
  ultimately show ?thesis using d(1) by (simp add: summarize_def Let_def)
qed

section \<open>A model on which the hypotheses hold\<close>

definition example_dsl :: string where
  "example_dsl = join [CHR 0x0A]
     [''model'', ''  schema 1.1'', ''type user'', ''type folder'', ''  relations'', ''    define viewer: [user]'',
      ''type doc'', ''  relations'', ''    define parent: [folder]'', ''    define owner: [user]'',
      ''    define editor: [user] or owner'', ''    define viewer: editor or viewer from parent'']"

lemma example_issues: "pm_issues (parseModel example_dsl) = []"
  by code_simp

fun example_rank :: "TypeDef \<times> RelationDef \<Rightarrow> nat" where
  "example_rank (ty, rel) = (if ty_name ty = ''folder'' then 0 else if rd_name rel = ''viewer'' then 2
     else if rd_name rel = ''editor'' then 1 else 0)"

lemma example_nodes:
  "nodes (pm_types (parseModel example_dsl)) \<noteq> []"
  "list_all (\<lambda>x. list_all (\<lambda>y. example_rank y < example_rank x) (rewrite_targets (pm_types (parseModel example_dsl)) x))
     (nodes (pm_types (parseModel example_dsl)))"
  by code_simp+

lemma example_acyclic: "acyclic (rewrite_rel (pm_types (parseModel example_dsl)))"
proof -
  have "rewrite_rel (pm_types (parseModel example_dsl)) \<subseteq> (measure example_rank)\<inverse>"
    using example_nodes(2) by (auto simp: rewrite_rel_def list_all_iff simp del: example_rank.simps)
  moreover have "acyclic ((measure example_rank)\<inverse>)" by (simp add: acyclic_converse wf_acyclic)
  ultimately show ?thesis by (rule acyclic_subset [rotated])
qed

theorem parseModel_sound_witness:
  "pm_issues (parseModel example_dsl) = [] \<and> references_ok (pm_types (parseModel example_dsl))"
  using parseModel_sound [OF example_issues] example_issues by simp

theorem summarize_longest_chain_witness:
  "\<exists>s. summarize (parseModel example_dsl) = Some s \<and> ms_depth s = 2
     \<and> (\<exists>x \<in> set (nodes (pm_types (parseModel example_dsl))). chain (pm_types (parseModel example_dsl)) x 2)"
proof -
  have "map_option ms_depth (summarize (parseModel example_dsl)) = Some 2" by code_simp
  with summarize_longest_chain [OF example_issues example_acyclic example_nodes(1)] show ?thesis by auto
qed

text \<open>
  A restriction to a userset, \<^verbatim>\<open>[group#member]\<close>, is cut at the hash sign as if a comment started
  there, so a model that uses one always has an issue.
\<close>

theorem userset_restriction_rejected:
  "map pi_line (pm_issues (parseModel (join [CHR 0x0A]
     [''model'', ''schema 1.1'', ''type user'', ''type group'', ''define member: [user]'', ''type doc'',
      ''define viewer: [group#member]'']))) = [7]"
  by code_simp

end
