(* ===== verification/Authz_Model.thy ===== *)
theory Authz_Model
  imports Authz_Dsl Tenants
begin

text \<open>
  A tenant's authorization model (\<^verbatim>\<open>features/authz-model/server.ts\<close>, \<^verbatim>\<open>schemas.ts\<close>, \<^verbatim>\<open>fixtures.ts\<close>):
  the lazily seeded store of live and draft models, validation and staging. The tenants store is
  an argument: these operations read it through \<^verbatim>\<open>getTenant\<close> and never write it.
\<close>

section \<open>Schemas and fixtures\<close>

datatype VersionState = Live_v | Draft_v | Superseded_v

record ModelVersion =
  mv_version :: nat
  mv_author :: string
  mv_createdAt :: string
  mv_summary :: string
  mv_state :: VersionState

definition ModelVersionSchema_ok :: "ModelVersion \<Rightarrow> bool" where
  "ModelVersionSchema_ok v \<longleftrightarrow> 0 < mv_version v"

record AuthorizationModel =
  am_slug :: string
  am_liveVersion :: nat
  am_draftVersion :: "nat option"
  am_live :: string
  am_draft :: string
  am_versions :: "ModelVersion list"
  am_tupleCount :: nat
  am_cachedDecisions :: nat

definition AuthorizationModelSchema_ok :: "AuthorizationModel \<Rightarrow> bool" where
  "AuthorizationModelSchema_ok m \<longleftrightarrow>
     0 < am_liveVersion m \<and> am_draftVersion m \<noteq> Some 0 \<and> list_all ModelVersionSchema_ok (am_versions m)"

record ValidationResult =
  vr_ok :: bool
  vr_types :: nat
  vr_relations :: nat
  vr_depth :: nat
  vr_issues :: "ParseIssue list"
  vr_tuplesValidated :: nat
  vr_elapsedMs :: nat

definition ValidationResultSchema_ok :: "ValidationResult \<Rightarrow> bool" where
  "ValidationResultSchema_ok r \<longleftrightarrow> list_all (\<lambda>i. 0 < pi_line i) (vr_issues r)"

record StageResult =
  sr_generation :: nat
  sr_version :: nat
  sr_stagedAt :: string

definition StageResultSchema_ok :: "StageResult \<Rightarrow> bool" where
  "StageResultSchema_ok r \<longleftrightarrow> 0 < sr_generation r \<and> 0 < sr_version r"

definition ValidateRequestSchema_ok :: "string \<Rightarrow> bool" where
  "ValidateRequestSchema_ok dsl \<longleftrightarrow> 1 \<le> length dsl \<and> length dsl \<le> 64000"

abbreviation newline :: string where
  "newline \<equiv> [CHR 0x0A]"

definition ACME_LIVE_LINES :: "string list" where
  "ACME_LIVE_LINES =
     [''model'', ''  schema 1.1'', '''', ''type user'', '''', ''type folder'', ''  relations'',
      ''    define owner: [user]'', ''    define editor: [user] or owner'', ''    define viewer: [user] or editor'', '''',
      ''type document'', ''  relations'', ''    define parent: [folder]'', ''    define owner: [user]'',
      ''    define editor: [user] or owner or editor from parent'',
      ''    define viewer: [user] or editor or viewer from parent'']"

definition ACME_LIVE_DSL_V6 :: string where
  "ACME_LIVE_DSL_V6 = join newline (ACME_LIVE_LINES @ [''''])"

definition ACME_DRAFT_DSL_V7 :: string where
  "ACME_DRAFT_DSL_V7 = join newline (ACME_LIVE_LINES @ [''    define auditor: [user]'', ''''])"

definition GENERIC_DSL :: string where
  "GENERIC_DSL = join newline
     [''model'', ''  schema 1.1'', '''', ''type user'', '''', ''type project'', ''  relations'',
      ''    define admin: [user]'', ''    define editor: [user] or admin'', ''    define commenter: [user] or editor'',
      ''    define viewer: [user] or commenter'', ''    define billing: [user]'', '''']"

abbreviation version_row :: "nat \<Rightarrow> string \<Rightarrow> string \<Rightarrow> string \<Rightarrow> VersionState \<Rightarrow> ModelVersion" where
  "version_row n a c s st \<equiv> \<lparr>mv_version = n, mv_author = a, mv_createdAt = c, mv_summary = s, mv_state = st\<rparr>"

definition ACME_VERSIONS :: "ModelVersion list" where
  "ACME_VERSIONS =
     [version_row 1 ''raj.kolekar'' ''2026-06-14T09:12:00Z'' (''initial model'' @ middot @ ''user, folder'') Superseded_v,
      version_row 2 ''ci-bot (m2m)'' ''2026-06-20T14:03:00Z'' ''add document type'' Superseded_v,
      version_row 3 ''raj.kolekar'' ''2026-07-02T08:41:00Z''
        (''document.parent '' @ [CHR 0xE2, CHR 0x86, CHR 0x92] @ '' folder'') Superseded_v,
      version_row 4 ''mira.o'' ''2026-07-18T16:20:00Z'' ''editor inherits from parent'' Superseded_v,
      version_row 5 ''ci-bot (m2m)'' ''2026-08-05T11:55:00Z'' ''viewer inherits from parent'' Superseded_v,
      version_row 6 ''raj.kolekar'' ''2026-08-21T09:30:00Z'' ''add owner on folder + document'' Live_v,
      version_row 7 ''raj.kolekar'' ''2026-09-04T09:58:00Z'' ''add auditor on document (staging into gen 10)'' Draft_v]"

definition genericVersions :: "nat \<Rightarrow> ModelVersion list" where
  "genericVersions liveVersion =
     map (\<lambda>i. let version = i + 1
              in version_row version (if version mod 2 = 0 then ''ci-bot (m2m)'' else ''raj.kolekar'')
                   (''2026-0'' @ show_nat (min (6 + i) 8) @ ''-1'' @ show_nat version @ ''T10:00:00Z'')
                   (if version = 1 then ''initial model'' else ''revision '' @ show_nat version)
                   (if version = liveVersion then Live_v else Superseded_v)) [0..<liveVersion]"

definition ACME_CACHED_DECISIONS :: nat where
  "ACME_CACHED_DECISIONS = 41"

section \<open>The store and its operations\<close>

record ModelState =
  st_live :: string
  st_draft :: string
  st_liveVersion :: nat
  st_draftVersion :: "nat option"
  st_versions :: "ModelVersion list"
  st_cachedDecisions :: nat

type_synonym model_store = "(string, ModelState) jsmap"

definition model_seed :: "tenants \<Rightarrow> string \<Rightarrow> ModelState option" where
  "model_seed T slug =
     (case tenant_of T slug of
        None \<Rightarrow> None
      | Some tenant \<Rightarrow> Some
          (if slug = ''acme-air''
           then \<lparr>st_live = ACME_LIVE_DSL_V6, st_draft = ACME_DRAFT_DSL_V7, st_liveVersion = 6, st_draftVersion = Some 7,
                 st_versions = ACME_VERSIONS, st_cachedDecisions = ACME_CACHED_DECISIONS\<rparr>
           else \<lparr>st_live = GENERIC_DSL, st_draft = GENERIC_DSL, st_liveVersion = max 1 (td_modelVersion tenant),
                 st_draftVersion = None, st_versions = genericVersions (max 1 (td_modelVersion tenant)),
                 st_cachedDecisions = 12\<rparr>))"

definition stateFor_model :: "tenants \<Rightarrow> model_store \<Rightarrow> string \<Rightarrow> model_store \<times> ModelState option" where
  "stateFor_model T store slug =
     (case map_get store slug of
        Some cached \<Rightarrow> (store, Some cached)
      | None \<Rightarrow>
          (case model_seed T slug of
             None \<Rightarrow> (store, None)
           | Some state \<Rightarrow> (map_set store slug state, Some state)))"

definition getAuthorizationModel :: "tenants \<Rightarrow> model_store \<Rightarrow> string \<Rightarrow> model_store \<times> AuthorizationModel option throws" where
  "getAuthorizationModel T store slug =
     (case (stateFor_model T store slug, tenant_of T slug) of
        ((store', Some state), Some tenant) \<Rightarrow>
          (store', map_sum id Some (parse_with AuthorizationModelSchema_ok
             \<lparr>am_slug = slug, am_liveVersion = st_liveVersion state, am_draftVersion = st_draftVersion state,
              am_live = st_live state, am_draft = st_draft state, am_versions = st_versions state,
              am_tupleCount = td_tupleCount tenant, am_cachedDecisions = st_cachedDecisions state\<rparr>))
      | ((store', _), _) \<Rightarrow> (store', Inr None))"

abbreviation not_found :: failure where
  "not_found \<equiv> \<lparr>f_status = 404, f_title = ''Tenant not found'', f_detail = None\<rparr>"

definition validateModel :: "tenants \<Rightarrow> string \<Rightarrow> string \<Rightarrow> ValidationResult result throws" where
  "validateModel T slug dsl =
     (case tenant_of T slug of
        None \<Rightarrow> Inr (Inl not_found)
      | Some tenant \<Rightarrow>
          (let parsed = parseModel dsl;
               summary = the (summarize parsed);
               elapsedMs = 20 + min 40 (length dsl div 40)
           in map_sum id Inr (parse_with ValidationResultSchema_ok
                \<lparr>vr_ok = (pm_issues parsed = []), vr_types = ms_types summary, vr_relations = ms_relations summary,
                 vr_depth = ms_depth summary, vr_issues = pm_issues parsed,
                 vr_tuplesValidated = (if pm_issues parsed = [] then td_tupleCount tenant else 0),
                 vr_elapsedMs = elapsedMs\<rparr>)))"

definition stage_entry :: "nat \<Rightarrow> nat \<Rightarrow> instant \<Rightarrow> ModelVersion" where
  "stage_entry generation version now =
     version_row version ''raj.kolekar'' (toISOString now) (''staged into generation '' @ show_nat (generation + 1)) Draft_v"

definition stage_state :: "string \<Rightarrow> nat \<Rightarrow> ModelVersion \<Rightarrow> ModelState \<Rightarrow> ModelState" where
  "stage_state dsl version entry state =
     state\<lparr>st_draft := dsl, st_draftVersion := Some version,
       st_versions :=
         (if List.find (\<lambda>v. mv_version v = version) (st_versions state) \<noteq> None
          then map (\<lambda>v. if mv_version v = version then entry else v) (st_versions state)
          else st_versions state @ [entry])\<rparr>"

definition stageModel :: "tenants \<Rightarrow> model_store \<Rightarrow> string \<Rightarrow> string \<Rightarrow> instant \<Rightarrow> model_store \<times> StageResult result throws" where
  "stageModel T store slug dsl now =
     (case (stateFor_model T store slug, tenant_of T slug) of
        ((store', Some state), Some tenant) \<Rightarrow>
          (let parsed = parseModel dsl
           in case pm_issues parsed of
                first # others \<Rightarrow>
                  (store', Inr (Inl \<lparr>f_status = 400, f_title = ''Model does not parse'',
                     f_detail = Some (''line '' @ show_nat (pi_line first) @ '': '' @ pi_message first
                       @ (if others \<noteq> [] then '' (+'' @ show_nat (length others) @ '' more)'' else []))\<rparr>))
              | [] \<Rightarrow>
                  (let version = (case st_draftVersion state of Some v \<Rightarrow> v | None \<Rightarrow> st_liveVersion state + 1);
                       state' = stage_state dsl version (stage_entry (ts_generation tenant) version now) state
                   in (map_set store' slug state',
                       map_sum id Inr (parse_with StageResultSchema_ok
                         \<lparr>sr_generation = ts_generation tenant + 1, sr_version = version, sr_stagedAt = toISOString now\<rparr>))))
      | ((store', _), _) \<Rightarrow> (store', Inr (Inl not_found)))"

definition resetAuthzModelStore :: "model_store \<Rightarrow> model_store" where
  "resetAuthzModelStore store = []"

section \<open>The store is lazily seeded\<close>

interpretation models: lazy_store "stateFor_model T" map_get "model_seed T" for T
  by unfold_locales (auto simp: stateFor_model_def split: option.splits)

definition model_state_ok :: "ModelState \<Rightarrow> bool" where
  "model_state_ok s \<longleftrightarrow>
     0 < st_liveVersion s \<and> st_draftVersion s \<noteq> Some 0 \<and> list_all ModelVersionSchema_ok (st_versions s)
     \<and> distinct (map mv_version (st_versions s))"

definition models_wf :: "model_store \<Rightarrow> bool" where
  "models_wf store \<longleftrightarrow> (\<forall>slug s. map_get store slug = Some s \<longrightarrow> model_state_ok s)"

lemma model_seed_ok: "model_seed T slug = Some s \<Longrightarrow> model_state_ok s"
proof -
  have acme: "list_all ModelVersionSchema_ok ACME_VERSIONS" "distinct (map mv_version ACME_VERSIONS)"
    by (simp_all add: ACME_VERSIONS_def ModelVersionSchema_ok_def)
  have nums: "map mv_version (genericVersions n) = map Suc [0..<n]" for n by (simp add: genericVersions_def Let_def)
  have gen: "list_all ModelVersionSchema_ok (genericVersions n)" "distinct (map mv_version (genericVersions n))" for n
    unfolding nums by (simp_all add: genericVersions_def ModelVersionSchema_ok_def list_all_iff Let_def distinct_map)
  assume "model_seed T slug = Some s"
  then show ?thesis
    by (auto simp: model_seed_def model_state_ok_def acme gen split: option.splits if_splits)
qed

lemma stateFor_model_ok: "models_wf store \<Longrightarrow> stateFor_model T store slug = (store', Some s) \<Longrightarrow> model_state_ok s \<and> models_wf store'"
  by (auto simp: stateFor_model_def models_wf_def split: option.splits if_splits dest: model_seed_ok)

lemma stage_state_versions:
  assumes "0 < version" "model_state_ok s" "mv_version e = version"
  shows "model_state_ok (stage_state dsl version e s)"
    and "filter (\<lambda>v. mv_version v = version) (st_versions (stage_state dsl version e s)) = [e]"
    and "filter (\<lambda>v. mv_version v \<noteq> version) (st_versions (stage_state dsl version e s))
      = filter (\<lambda>v. mv_version v \<noteq> version) (st_versions s)"
proof -
  let ?vs = "st_versions s" and ?f = "\<lambda>v. if mv_version v = version then e else v"
  have same: "map mv_version (map ?f vs) = map mv_version vs" for vs using assms(3) by auto
  have pos: "0 < mv_version v" if "v \<in> set ?vs" for v
    using that assms(2) by (auto simp: model_state_ok_def list_all_iff ModelVersionSchema_ok_def)
  show "model_state_ok (stage_state dsl version e s)"
  proof (cases "List.find (\<lambda>v. mv_version v = version) ?vs")
    case None
    then show ?thesis using assms pos
      by (auto simp: stage_state_def model_state_ok_def ModelVersionSchema_ok_def list_all_iff find_eq_None)
  next
    case (Some w)
    have "list_all ModelVersionSchema_ok (map ?f ?vs)"
      using pos assms(1,3) by (auto simp: list_all_iff ModelVersionSchema_ok_def)
    moreover have "distinct (map mv_version (map ?f ?vs))" using assms(2) unfolding same by (simp add: model_state_ok_def)
    ultimately show ?thesis using Some assms by (simp add: stage_state_def model_state_ok_def del: map_map)
  qed
  have dist: "distinct (map mv_version ?vs)" using assms(2) by (simp add: model_state_ok_def)
  have one: "distinct (map mv_version vs) \<Longrightarrow> w \<in> set vs \<Longrightarrow> mv_version w = version
      \<Longrightarrow> filter (\<lambda>v. mv_version v = version) (map ?f vs) = [e]" for vs w
    by (induction vs) (use assms(3) in \<open>auto simp: filter_empty_conv image_iff\<close>)
  have rest: "filter (\<lambda>v. mv_version v \<noteq> version) (map ?f vs) = filter (\<lambda>v. mv_version v \<noteq> version) vs" for vs
    by (induction vs) (use assms(3) in auto)
  show "filter (\<lambda>v. mv_version v = version) (st_versions (stage_state dsl version e s)) = [e]"
  proof (cases "List.find (\<lambda>v. mv_version v = version) ?vs")
    case None
    then show ?thesis using assms(3) by (auto simp: stage_state_def find_eq_None filter_empty_conv)
  next
    case (Some w)
    from find_SomeD [OF Some] have "w \<in> set ?vs" "mv_version w = version" by simp_all
    from one [OF dist this] Some show ?thesis by (simp add: stage_state_def)
  qed
  show "filter (\<lambda>v. mv_version v \<noteq> version) (st_versions (stage_state dsl version e s))
      = filter (\<lambda>v. mv_version v \<noteq> version) ?vs"
    using rest assms(3) by (simp add: stage_state_def)
qed

lemma stageModel_version_pos:
  "model_state_ok s \<Longrightarrow> 0 < (case st_draftVersion s of Some v \<Rightarrow> v | None \<Rightarrow> st_liveVersion s + 1)"
  by (auto simp: model_state_ok_def split: option.splits)

section \<open>Properties\<close>

text \<open>
  Validating a model never throws, for any tenant and any text: an unknown tenant gets a 404,
  any other request a result whose verdict is ok exactly when the parser found no issue, with the
  stored tuples counted as validated only then.
\<close>

theorem validateModel_total:
  "validateModel T slug dsl =
     Inr (case tenant_of T slug of
            None \<Rightarrow> Inl \<lparr>f_status = 404, f_title = ''Tenant not found'', f_detail = None\<rparr>
          | Some t \<Rightarrow> Inr
              \<lparr>vr_ok = (pm_issues (parseModel dsl) = []),
               vr_types = length (pm_types (parseModel dsl)),
               vr_relations = sum_list (map (\<lambda>ty. length (ty_relations ty)) (pm_types (parseModel dsl))),
               vr_depth = ms_depth (the (summarize (parseModel dsl))),
               vr_issues = pm_issues (parseModel dsl),
               vr_tuplesValidated = (if pm_issues (parseModel dsl) = [] then td_tupleCount t else 0),
               vr_elapsedMs = 20 + min 40 (length dsl div 40)\<rparr>)"
proof -
  obtain s where s: "summarize (parseModel dsl) = Some s" "ms_types s = length (pm_types (parseModel dsl))"
      "ms_relations s = sum_list (map (\<lambda>ty. length (ty_relations ty)) (pm_types (parseModel dsl)))"
    using summarize_Some by blast
  have "list_all (\<lambda>i. 0 < pi_line i) (pm_issues (parseModel dsl))"
    using parseModel_lines_bound by (fastforce simp: list_all_iff)
  then show ?thesis using s
    by (simp add: validateModel_def Let_def ValidationResultSchema_ok_def split: option.split)
qed

text \<open>
  Staging a model. A text with issues is refused with status 400 and no tenant's state is
  changed. A text without issues becomes the draft; the live model and its version stay; the
  version history has exactly one entry for the draft version, in state draft, and every other
  entry is as it was. Nothing throws.
\<close>

theorem stageModel_spec:
  assumes "models_wf store" and "tenant_of T slug = Some t" and "stateFor_model T store slug = (store1, Some s)"
  shows "(pm_issues (parseModel dsl) \<noteq> [] \<longrightarrow>
      (\<exists>d. stageModel T store slug dsl now
             = (store1, Inr (Inl \<lparr>f_status = 400, f_title = ''Model does not parse'', f_detail = Some d\<rparr>))))
    \<and> (pm_issues (parseModel dsl) = [] \<longrightarrow>
      (\<exists>store' s' v. stageModel T store slug dsl now
             = (store', Inr (Inr \<lparr>sr_generation = ts_generation t + 1, sr_version = v, sr_stagedAt = toISOString now\<rparr>))
         \<and> models_wf store' \<and> (\<forall>k. k \<noteq> slug \<longrightarrow> map_get store' k = map_get store1 k)
         \<and> map_get store' slug = Some s' \<and> st_draft s' = dsl \<and> st_draftVersion s' = Some v
         \<and> st_live s' = st_live s \<and> st_liveVersion s' = st_liveVersion s
         \<and> filter (\<lambda>e. mv_version e = v) (st_versions s') = [stage_entry (ts_generation t) v now]
         \<and> filter (\<lambda>e. mv_version e \<noteq> v) (st_versions s') = filter (\<lambda>e. mv_version e \<noteq> v) (st_versions s)))"
proof (cases "pm_issues (parseModel dsl)")
  case (Cons i js)
  then show ?thesis using assms(2,3) by (simp add: stageModel_def Let_def)
next
  case Nil
  let ?v = "case st_draftVersion s of Some v \<Rightarrow> v | None \<Rightarrow> st_liveVersion s + 1"
  let ?e = "stage_entry (ts_generation t) ?v now"
  let ?s' = "stage_state dsl ?v ?e s"
  have ok: "model_state_ok s" "models_wf store1" using stateFor_model_ok [OF assms(1,3)] by auto
  have pos: "0 < ?v" by (rule stageModel_version_pos [OF ok(1)])
  have e: "mv_version ?e = ?v" by (simp add: stage_entry_def)
  note vs = stage_state_versions [OF pos ok(1) e, of dsl]
  have run: "stageModel T store slug dsl now = (map_set store1 slug ?s',
      Inr (Inr \<lparr>sr_generation = ts_generation t + 1, sr_version = ?v, sr_stagedAt = toISOString now\<rparr>))"
    using Nil assms(2,3) pos by (simp add: stageModel_def Let_def StageResultSchema_ok_def)
  have "models_wf (map_set store1 slug ?s')" using vs(1) ok(2) by (auto simp: models_wf_def)
  then show ?thesis using Nil run vs(2,3) by (auto simp: stage_state_def)
qed

lemma tenant_of_acme: "\<exists>t. tenant_of [] ''acme-air'' = Some t \<and> ts_generation t = 9"
  by (simp add: tenant_of_def tenantDetailFixture_def findTenant_def TENANTS_def fixture_tenant_def)

theorem stageModel_spec_witness:
  "\<exists>store' v. stageModel [] [] ''acme-air'' example_dsl 0
     = (store', Inr (Inr \<lparr>sr_generation = 10, sr_version = v, sr_stagedAt = toISOString 0\<rparr>))"
proof -
  obtain t where t: "tenant_of [] ''acme-air'' = Some t" "ts_generation t = 9" using tenant_of_acme by blast
  then obtain store1 s where st: "stateFor_model [] [] ''acme-air'' = (store1, Some s)"
    by (auto simp: stateFor_model_def model_seed_def)
  have "models_wf []" by (simp add: models_wf_def)
  from stageModel_spec [OF this t(1) st, of example_dsl 0] example_issues t(2) show ?thesis by auto
qed

end
