(* ===== verification/Resolver.thy ===== *)
theory Resolver
  imports Tenants
begin

text \<open>
  The permission playground (\<^verbatim>\<open>features/playground\<close>): the relationship resolver with its explanation
  tree (\<^verbatim>\<open>resolver.ts\<close>), the batch parser (\<^verbatim>\<open>batch.ts\<close>), the fixture models and tuples
  (\<^verbatim>\<open>fixtures.ts\<close>) and the tenant-bound entry points (\<^verbatim>\<open>server.ts\<close>). Objects used as dictionaries
  have their own keys and the ones every object inherits. The resolver's mutable context is threaded through the
  recursion; the recursion ends because each call goes at least one level deeper and the depth is
  capped.
\<close>

section \<open>Schemas\<close>

datatype Consistency = Strong | Eventual

datatype ExplainResult = Allowed | Denied

datatype ExplainVia = Union | Direct | Computed | TupleToUserset_via

record StoredTuple =
  tu_object :: string
  tu_relation :: string
  tu_user :: string
  tu_tupleId :: string
  tu_writtenAt :: string
  tu_writtenBy :: string
  tu_auditEventId :: string

record DecisiveTuple =
  dt_node :: string
  dt_tupleId :: string
  dt_writtenAt :: string
  dt_writtenBy :: string
  dt_auditEventId :: string

text \<open>A tree node: label, result, via, the stored tuple whose provenance it carries, truncated, children.\<close>

datatype ExplainNode =
  Node (en_node: string) (en_result: ExplainResult) (en_via: ExplainVia) (en_provenance: "StoredTuple option")
    (en_truncated: bool) (en_children: "ExplainNode list option")

record CheckTuple =
  ck_user :: string
  ck_relation :: string
  ck_object :: string

record ExplainStats =
  es_nodesEvaluated :: nat
  es_maxDepth :: nat
  es_depthCap :: nat
  es_depthCapHit :: bool
  es_fgaCalls :: nat

record ExplainResponse =
  er_allowed :: bool
  er_checkedAt :: string
  er_durationMs :: nat
  er_cached :: bool
  er_consistency :: Consistency
  er_modelVersion :: nat
  er_tree :: ExplainNode
  er_decisive :: "DecisiveTuple option"
  er_reason :: string
  er_stats :: ExplainStats

record BatchCheckResult = CheckTuple +
  br_allowed :: bool
  br_durationMs :: nat

record BatchCheckResponse =
  bc_checkedAt :: string
  bc_consistency :: Consistency
  bc_modelVersion :: nat
  bc_results :: "BatchCheckResult list"

section \<open>Resolver\<close>

record RewriteDef =
  rw_direct :: bool
  rw_computed :: "string list"
  rw_tupleToUserset :: "(string \<times> string) list"

type_synonym rewrite_model = "(string, (string, RewriteDef) jsmap) jsmap"

record ResolverOptions =
  ro_now :: string
  ro_modelVersion :: nat
  ro_consistency :: Consistency
  ro_includeProvenance :: bool

definition DEPTH_CAP :: nat where
  "DEPTH_CAP = 8"

definition typeOf :: "string \<Rightarrow> string" where
  "typeOf ref = takeWhile (\<lambda>c. c \<noteq> CHR '':'') ref"

definition idOf :: "string \<Rightarrow> string" where
  "idOf ref = (case dropWhile (\<lambda>c. c \<noteq> CHR '':'') ref of [] \<Rightarrow> ref | _ # rest \<Rightarrow> rest)"

definition relationsOf :: "rewrite_model \<Rightarrow> string list" where
  "relationsOf model = js_set (concat (map (map fst) (map_values model)))"

record Ctx =
  cx_nodes :: nat
  cx_maxDepth :: nat
  cx_depthCapHit :: bool
  cx_decisive :: "DecisiveTuple option"
  cx_decisiveObject :: string
  cx_decisiveRelation :: string

definition find_tuple :: "StoredTuple list \<Rightarrow> string \<Rightarrow> string \<Rightarrow> string \<Rightarrow> StoredTuple option" where
  "find_tuple tuples object relation user =
     List.find (\<lambda>t. tu_object t = object \<and> tu_relation t = relation \<and> tu_user t = user) tuples"

definition visit :: "nat \<Rightarrow> Ctx \<Rightarrow> Ctx" where
  "visit depth ctx =
     ctx\<lparr>cx_nodes := cx_nodes ctx + 1,
         cx_maxDepth := (if cx_maxDepth ctx < depth then depth else cx_maxDepth ctx)\<rparr>"

definition userset :: "string \<Rightarrow> string \<Rightarrow> string" where
  "userset object relation = object @ ''#'' @ relation"

definition decisive_of :: "string \<Rightarrow> string \<Rightarrow> string \<Rightarrow> StoredTuple \<Rightarrow> DecisiveTuple" where
  "decisive_of object relation user hit =
     \<lparr>dt_node = userset object relation @ ''@'' @ user, dt_tupleId = tu_tupleId hit, dt_writtenAt = tu_writtenAt hit,
      dt_writtenBy = tu_writtenBy hit, dt_auditEventId = tu_auditEventId hit\<rparr>"

definition directLeaf ::
  "StoredTuple list \<Rightarrow> bool \<Rightarrow> string \<Rightarrow> string \<Rightarrow> string \<Rightarrow> nat \<Rightarrow> ExplainVia \<Rightarrow> Ctx \<Rightarrow> ExplainNode \<times> Ctx" where
  "directLeaf tuples includeProvenance object relation user depth via ctx0 =
     (let ctx = visit depth ctx0;
          label = (if via = Direct then userset object relation @ ''@'' @ user else userset object relation)
      in case find_tuple tuples object relation user of
           None \<Rightarrow> (Node label Denied via None False None, ctx)
         | Some hit \<Rightarrow>
             (Node label Allowed via (if includeProvenance then Some hit else None) False None,
              if cx_decisive ctx = None
              then ctx\<lparr>cx_decisive := Some (decisive_of object relation user hit),
                       cx_decisiveObject := object, cx_decisiveRelation := relation\<rparr>
              else ctx))"

text \<open>A JavaScript loop that pushes one result per element, with the context threaded through.\<close>

fun mapM :: "('a \<Rightarrow> 's \<Rightarrow> 'b \<times> 's) \<Rightarrow> 'a list \<Rightarrow> 's \<Rightarrow> 'b list \<times> 's" where
  "mapM f [] s = ([], s)"
| "mapM f (x # xs) s = (let (y, s1) = f x s; (ys, s2) = mapM f xs s1 in (y # ys, s2))"

lemma mapM_cong [fundef_cong]:
  "xs = ys \<Longrightarrow> s = t \<Longrightarrow> (\<And>x u. x \<in> set ys \<Longrightarrow> f x u = g x u) \<Longrightarrow> mapM f xs s = mapM g ys t"
proof (induction xs arbitrary: ys s t)
  case Nil
  then show ?case by auto
next
  case (Cons x xs)
  have "mapM f xs u = mapM g xs u" for u
    by (rule Cons.IH [OF refl refl]) (use Cons.prems in auto)
  with Cons.prems show ?case by auto
qed

text \<open>
  \<^verbatim>\<open>model[typeOf(object)]?.[relation]\<close>. Both are object literals, so a type or relation that is not their own may name what
  objects inherit: a value with none of the three fields. Of an inherited function two names cannot be read.
\<close>

definition no_branches :: RewriteDef where
  "no_branches = \<lparr>rw_direct = False, rw_computed = [], rw_tupleToUserset = []\<rparr>"

definition rewrite_of :: "rewrite_model \<Rightarrow> string \<Rightarrow> string \<Rightarrow> RewriteDef option" where
  "rewrite_of model object relation =
     (case map_get model (typeOf object) of
        Some rels \<Rightarrow>
          (case map_get rels relation of
             Some def \<Rightarrow> Some def
           | None \<Rightarrow> if relation \<in> set inherited_keys then Some no_branches else None)
      | None \<Rightarrow> if relation \<in> set (keys_of_inherited (typeOf object)) then Some no_branches else None)"

definition lookup_throws :: "rewrite_model \<Rightarrow> string \<Rightarrow> string \<Rightarrow> bool" where
  "lookup_throws model object relation \<longleftrightarrow> map_get model (typeOf object) = None \<and> read_throws (typeOf object) relation"

definition any_allowed :: "ExplainNode list \<Rightarrow> ExplainResult" where
  "any_allowed cs = (if list_ex (\<lambda>c. en_result c = Allowed) cs then Allowed else Denied)"

definition tupleset_targets :: "StoredTuple list \<Rightarrow> string \<Rightarrow> string \<Rightarrow> string list" where
  "tupleset_targets tuples object tupleset =
     map tu_user (filter (\<lambda>t. tu_object t = object \<and> tu_relation t = tupleset) tuples)"

function evaluate ::
  "rewrite_model \<Rightarrow> StoredTuple list \<Rightarrow> bool \<Rightarrow> string \<Rightarrow> string \<Rightarrow> string \<Rightarrow> nat \<Rightarrow> ExplainVia \<Rightarrow> Ctx \<Rightarrow> ExplainNode \<times> Ctx" where
  "evaluate model tuples prov user object relation depth reachedVia ctx =
     (if DEPTH_CAP < depth
      then (Node (userset object relation) Denied reachedVia None True None, ctx\<lparr>cx_depthCapHit := True\<rparr>)
      else
        (case rewrite_of model object relation of
           None \<Rightarrow> (Node (userset object relation) Denied reachedVia None False None, visit depth ctx)
         | Some def \<Rightarrow>
             (let branchCount = (if rw_direct def then 1 else 0) + length (rw_computed def) + length (rw_tupleToUserset def)
              in if branchCount = 1 \<and> rw_direct def
                 then directLeaf tuples prov object relation user depth reachedVia ctx
                 else
                   (let (leaves, ctx1) =
                          (if rw_direct def
                           then (let (leaf, c) = directLeaf tuples prov object relation user (depth + 1) Direct (visit depth ctx)
                                 in ([leaf], c))
                           else ([], visit depth ctx));
                        (computed, ctx2) =
                          mapM (\<lambda>other c. evaluate model tuples prov user object other (depth + 1) Computed c)
                            (rw_computed def) ctx1;
                        (inherited, ctx3) =
                          mapM (\<lambda>ttu c.
                              let (viaChildren, c') =
                                    mapM (\<lambda>target c''. evaluate model tuples prov user target (snd ttu) (depth + 2) Direct c'')
                                      (tupleset_targets tuples object (fst ttu)) (visit (depth + 1) c)
                              in (Node (userset object (fst ttu)) (any_allowed viaChildren) TupleToUserset_via None False
                                    (if viaChildren = [] then None else Some viaChildren), c'))
                            (rw_tupleToUserset def) ctx2;
                        children = leaves @ computed @ inherited
                    in (Node (userset object relation) (any_allowed children)
                          (if reachedVia = Computed then Computed else Union) None False (Some children), ctx3)))))"
  by pat_completeness auto

termination
  by (relation "measure (\<lambda>(model, tuples, prov, user, object, relation, depth, via, ctx). Suc DEPTH_CAP - depth)") auto

declare evaluate.simps [simp del]

text \<open>Whether one of the lookups of an evaluation throws: the evaluation then has no result.\<close>

function evaluate_throws :: "rewrite_model \<Rightarrow> StoredTuple list \<Rightarrow> string \<Rightarrow> string \<Rightarrow> nat \<Rightarrow> bool" where
  "evaluate_throws model tuples object relation depth =
     (if DEPTH_CAP < depth then False
      else if lookup_throws model object relation then True
      else
        (case rewrite_of model object relation of
           None \<Rightarrow> False
         | Some def \<Rightarrow>
             list_ex (\<lambda>other. evaluate_throws model tuples object other (depth + 1)) (rw_computed def)
             \<or> list_ex (\<lambda>ttu. list_ex (\<lambda>target. evaluate_throws model tuples target (snd ttu) (depth + 2))
                  (tupleset_targets tuples object (fst ttu))) (rw_tupleToUserset def)))"
  by pat_completeness auto

termination
  by (relation "measure (\<lambda>(model, tuples, object, relation, depth). Suc DEPTH_CAP - depth)") auto

declare evaluate_throws.simps [simp del]

text \<open>With types and tuples of the model's own, only the object of the check itself can make a lookup throw.\<close>

lemma evaluate_throws_own:
  assumes "\<forall>t \<in> set tuples. typeOf (tu_user t) \<notin> set inherited_keys"
  shows "typeOf object \<notin> set inherited_keys \<Longrightarrow> \<not> evaluate_throws model tuples object relation depth"
  using assms
proof (induction model tuples object relation depth rule: evaluate_throws.induct)
  case (1 model tuples object relation depth)
  have t: "typeOf target \<notin> set inherited_keys" if "target \<in> set (tupleset_targets tuples object name)" for target name
    using that 1(4) by (auto simp: tupleset_targets_def)
  have l: "\<not> lookup_throws model object relation" using 1(3) by (simp add: lookup_throws_def read_throws_def)
  show ?case
    by (subst evaluate_throws.simps) (use 1 t l in \<open>auto simp: list_ex_iff split: option.split\<close>)
qed

section \<open>Answers\<close>

definition VERBS :: "(string \<times> string) list" where
  "VERBS =
     [(''viewer'', ''view''), (''editor'', ''edit''), (''owner'', ''own''), (''auditor'', ''audit''),
      (''admin'', ''administer''), (''member'', ''be a member of''), (''parent'', ''be a parent of'')]"

definition verbFor :: "string \<Rightarrow> string" where
  "verbFor relation =
     (case map_get VERBS relation of
        Some v \<Rightarrow> v
      | None \<Rightarrow> if relation \<in> set inherited_keys then inherited_text relation else ''hold '' @ relation @ '' on'')"

definition articleFor :: "string \<Rightarrow> string" where
  "articleFor word = (case word of [] \<Rightarrow> ''a'' | c # _ \<Rightarrow> if char_lower c \<in> set ''aeiou'' then ''an'' else ''a'')"

definition plural :: "string \<Rightarrow> string" where
  "plural word = (if endsWith word ''s'' then word else word @ ''s'')"

definition reasonFor :: "CheckTuple \<Rightarrow> Ctx \<Rightarrow> bool \<Rightarrow> string" where
  "reasonFor check ctx allowed =
     (let who = idOf (ck_user check); what = idOf (ck_object check); verb = verbFor (ck_relation check);
          rel = cx_decisiveRelation ctx; obj = cx_decisiveObject ctx;
          because = who @ '' can '' @ verb @ '' '' @ what @ '' because '' @ who @ '' is '' @ articleFor rel @ '' '' @ rel @ '' of '' @ obj
      in if \<not> allowed \<or> cx_decisive ctx = None
         then (let base = who @ '' cannot '' @ verb @ '' '' @ what @ '': no tuple grants '' @ ck_relation check @ '' on ''
                     @ ck_object check @ '' to '' @ ck_user check @ '', directly or through a parent.''
               in if cx_depthCapHit ctx
                  then base @ '' Resolution stopped at the depth cap of '' @ show_nat DEPTH_CAP @ ''.'' else base)
         else if obj = ck_object check \<and> rel = ck_relation check then because @ '' directly.''
         else if obj = ck_object check
         then because @ '', and '' @ typeOf obj @ '' '' @ plural rel @ '' are also '' @ plural (ck_relation check) @ ''.''
         else because @ '', and '' @ typeOf (ck_object check) @ '' '' @ plural (ck_relation check)
                @ '' inherit from parent '' @ typeOf obj @ '' '' @ plural rel @ ''.'')"

definition initial_ctx :: Ctx where
  "initial_ctx =
     \<lparr>cx_nodes = 0, cx_maxDepth = 0, cx_depthCapHit = False, cx_decisive = None,
      cx_decisiveObject = [], cx_decisiveRelation = []\<rparr>"

definition explain :: "rewrite_model \<Rightarrow> StoredTuple list \<Rightarrow> CheckTuple \<Rightarrow> ResolverOptions \<Rightarrow> ExplainResponse" where
  "explain model tuples check opts =
     (let (tree, ctx) =
            evaluate model tuples (ro_includeProvenance opts) (ck_user check) (ck_object check) (ck_relation check)
              1 Direct initial_ctx;
          allowed = (en_result tree = Allowed);
          strong = (ro_consistency opts = Strong)
      in \<lparr>er_allowed = allowed, er_checkedAt = ro_now opts, er_durationMs = (if strong then 7 else 2),
          er_cached = (\<not> strong), er_consistency = ro_consistency opts, er_modelVersion = ro_modelVersion opts,
          er_tree = tree, er_decisive = (if allowed then cx_decisive ctx else None),
          er_reason = reasonFor check ctx allowed,
          er_stats = \<lparr>es_nodesEvaluated = cx_nodes ctx, es_maxDepth = min (cx_maxDepth ctx) DEPTH_CAP,
                      es_depthCap = DEPTH_CAP, es_depthCapHit = cx_depthCapHit ctx, es_fgaCalls = 1\<rparr>\<rparr>)"

definition batchCheck :: "rewrite_model \<Rightarrow> StoredTuple list \<Rightarrow> CheckTuple list \<Rightarrow> ResolverOptions \<Rightarrow> BatchCheckResponse" where
  "batchCheck model tuples checks opts =
     \<lparr>bc_checkedAt = ro_now opts, bc_consistency = ro_consistency opts, bc_modelVersion = ro_modelVersion opts,
      bc_results = map (\<lambda>c.
        let r = explain model tuples c (opts\<lparr>ro_includeProvenance := False\<rparr>)
        in CheckTuple.extend c (BatchCheckResult.fields (er_allowed r) (er_durationMs r))) checks\<rparr>"

section \<open>What a check means\<close>

text \<open>
  The relationships a model and a tuple set give: a stored tuple on a directly assignable relation,
  a computed userset on the same object, or a relation on an object a tupleset tuple points at.
\<close>

inductive holds :: "rewrite_model \<Rightarrow> StoredTuple list \<Rightarrow> string \<Rightarrow> string \<Rightarrow> string \<Rightarrow> bool"
  for model tuples user where
  direct: "rewrite_of model object relation = Some def \<Longrightarrow> rw_direct def \<Longrightarrow> t \<in> set tuples
    \<Longrightarrow> tu_object t = object \<Longrightarrow> tu_relation t = relation \<Longrightarrow> tu_user t = user
    \<Longrightarrow> holds model tuples user object relation"
| computed: "rewrite_of model object relation = Some def \<Longrightarrow> other \<in> set (rw_computed def)
    \<Longrightarrow> holds model tuples user object other \<Longrightarrow> holds model tuples user object relation"
| inherited: "rewrite_of model object relation = Some def \<Longrightarrow> (tupleset, rel) \<in> set (rw_tupleToUserset def)
    \<Longrightarrow> t \<in> set tuples \<Longrightarrow> tu_object t = object \<Longrightarrow> tu_relation t = tupleset
    \<Longrightarrow> holds model tuples user (tu_user t) rel \<Longrightarrow> holds model tuples user object relation"

inductive_cases holdsE: "holds model tuples user object relation"

definition stored :: "StoredTuple list \<Rightarrow> string \<Rightarrow> string \<Rightarrow> string \<Rightarrow> bool" where
  "stored tuples object relation user \<longleftrightarrow> find_tuple tuples object relation user \<noteq> None"

lemma stored_iff:
  "stored tuples object relation user \<longleftrightarrow> (\<exists>t \<in> set tuples. tu_object t = object \<and> tu_relation t = relation \<and> tu_user t = user)"
  unfolding stored_def find_tuple_def find_eq_None by auto

lemma holds_iff:
  "holds model tuples user object relation \<longleftrightarrow>
     (case rewrite_of model object relation of
        None \<Rightarrow> False
      | Some def \<Rightarrow>
          (rw_direct def \<and> stored tuples object relation user)
          \<or> (\<exists>other \<in> set (rw_computed def). holds model tuples user object other)
          \<or> (\<exists>ttu \<in> set (rw_tupleToUserset def). \<exists>target \<in> set (tupleset_targets tuples object (fst ttu)).
               holds model tuples user target (snd ttu)))"
proof (cases "rewrite_of model object relation")
  case None
  then show ?thesis by (auto elim: holdsE)
next
  case (Some def)
  show ?thesis unfolding Some option.case
  proof
    assume "holds model tuples user object relation"
    then show "(rw_direct def \<and> stored tuples object relation user)
          \<or> (\<exists>other \<in> set (rw_computed def). holds model tuples user object other)
          \<or> (\<exists>ttu \<in> set (rw_tupleToUserset def). \<exists>target \<in> set (tupleset_targets tuples object (fst ttu)).
               holds model tuples user target (snd ttu))"
      by (cases rule: holdsE) (use Some in \<open>force simp: stored_iff tupleset_targets_def\<close>)+
  next
    assume "(rw_direct def \<and> stored tuples object relation user)
          \<or> (\<exists>other \<in> set (rw_computed def). holds model tuples user object other)
          \<or> (\<exists>ttu \<in> set (rw_tupleToUserset def). \<exists>target \<in> set (tupleset_targets tuples object (fst ttu)).
               holds model tuples user target (snd ttu))"
    then consider "rw_direct def" "stored tuples object relation user"
      | other where "other \<in> set (rw_computed def)" "holds model tuples user object other"
      | ttu target where "ttu \<in> set (rw_tupleToUserset def)" "target \<in> set (tupleset_targets tuples object (fst ttu))"
          "holds model tuples user target (snd ttu)"
      by blast
    then show "holds model tuples user object relation"
    proof cases
      case 1
      then show ?thesis using Some unfolding stored_iff by (blast intro: holds.direct)
    next
      case 2
      then show ?thesis using Some by (blast intro: holds.computed)
    next
      case (3 ttu target)
      then obtain t where "t \<in> set tuples" "tu_object t = object" "tu_relation t = fst ttu" "target = tu_user t"
        by (auto simp: tupleset_targets_def)
      with 3 show ?thesis using Some by (metis holds.inherited prod.collapse)
    qed
  qed
qed

section \<open>The tree, the counters and the decision\<close>

primrec visited :: "ExplainNode \<Rightarrow> nat" where
  "visited (Node l r v p tr cs) =
     (if tr then 0 else 1) + (case map_option (map visited) cs of None \<Rightarrow> 0 | Some ns \<Rightarrow> sum_list ns)"

primrec cut :: "ExplainNode \<Rightarrow> bool" where
  "cut (Node l r v p tr cs) \<longleftrightarrow> tr \<or> (case map_option (map cut) cs of None \<Rightarrow> False | Some bs \<Rightarrow> True \<in> set bs)"

text \<open>Every inner node of a tree is allowed exactly when one of its children is.\<close>

primrec consistent :: "ExplainNode \<Rightarrow> bool" where
  "consistent (Node l r v p tr cs) \<longleftrightarrow>
     (case map_option (map (\<lambda>c. (en_result c, consistent c))) cs of
        None \<Rightarrow> True
      | Some rs \<Rightarrow> (r = Allowed \<longleftrightarrow> list_ex (\<lambda>x. fst x = Allowed) rs) \<and> list_all snd rs)"

lemma tree_simps:
  "visited (Node l r v p tr cs) = (if tr then 0 else 1) + (case cs of None \<Rightarrow> 0 | Some ns \<Rightarrow> sum_list (map visited ns))"
  "cut (Node l r v p tr cs) \<longleftrightarrow> tr \<or> (case cs of None \<Rightarrow> False | Some ns \<Rightarrow> \<exists>n \<in> set ns. cut n)"
  "consistent (Node l r v p tr cs) \<longleftrightarrow>
     (case cs of None \<Rightarrow> True
      | Some ns \<Rightarrow> (r = Allowed \<longleftrightarrow> (\<exists>n \<in> set ns. en_result n = Allowed)) \<and> (\<forall>n \<in> set ns. consistent n))"
  by (auto simp: list_ex_iff list_all_iff split: option.splits)

declare visited.simps [simp del] cut.simps [simp del] consistent.simps [simp del] tree_simps [simp]

definition attributed :: "StoredTuple list \<Rightarrow> string \<Rightarrow> Ctx \<Rightarrow> bool" where
  "attributed tuples user ctx \<longleftrightarrow>
     (case cx_decisive ctx of
        None \<Rightarrow> True
      | Some d \<Rightarrow> \<exists>t \<in> set tuples. tu_user t = user \<and> cx_decisiveObject ctx = tu_object t
          \<and> cx_decisiveRelation ctx = tu_relation t \<and> d = decisive_of (tu_object t) (tu_relation t) user t)"

text \<open>
  The effect of evaluating a list of nodes whose meanings are \<open>hs\<close>: the counters agree with the
  trees, a tuple is decisive as soon as a node is allowed, an allowed node is true, and a true
  one is allowed unless its tree was cut at the depth cap.
\<close>

definition steps :: "StoredTuple list \<Rightarrow> string \<Rightarrow> bool list \<Rightarrow> ExplainNode list \<Rightarrow> Ctx \<Rightarrow> Ctx \<Rightarrow> bool" where
  "steps tuples user hs ns ctx ctx' \<longleftrightarrow>
     cx_nodes ctx' = cx_nodes ctx + sum_list (map visited ns)
     \<and> (cx_depthCapHit ctx' \<longleftrightarrow> cx_depthCapHit ctx \<or> (\<exists>n \<in> set ns. cut n))
     \<and> (cx_decisive ctx' \<noteq> None \<longleftrightarrow> cx_decisive ctx \<noteq> None \<or> (\<exists>n \<in> set ns. en_result n = Allowed))
     \<and> (attributed tuples user ctx \<longrightarrow> attributed tuples user ctx')
     \<and> (\<forall>n \<in> set ns. consistent n)
     \<and> list_all2 (\<lambda>h n. (en_result n = Allowed \<longrightarrow> h) \<and> (h \<longrightarrow> en_result n = Allowed \<or> cut n)) hs ns"

lemma steps_Nil [simp]: "steps tuples user [] [] ctx ctx"
  by (simp add: steps_def)

lemma stepsD:
  assumes "steps tuples user hs ns ctx ctx'"
  shows "cx_nodes ctx' = cx_nodes ctx + sum_list (map visited ns)"
    and "cx_depthCapHit ctx' \<longleftrightarrow> cx_depthCapHit ctx \<or> (\<exists>n \<in> set ns. cut n)"
    and "cx_decisive ctx' \<noteq> None \<longleftrightarrow> cx_decisive ctx \<noteq> None \<or> (\<exists>n \<in> set ns. en_result n = Allowed)"
    and "attributed tuples user ctx \<Longrightarrow> attributed tuples user ctx'"
    and "\<forall>n \<in> set ns. consistent n"
    and "list_all2 (\<lambda>h n. (en_result n = Allowed \<longrightarrow> h) \<and> (h \<longrightarrow> en_result n = Allowed \<or> cut n)) hs ns"
  using assms unfolding steps_def by blast+

lemma stepsI:
  assumes "cx_nodes ctx' = cx_nodes ctx + sum_list (map visited ns)"
    and "cx_depthCapHit ctx' \<longleftrightarrow> cx_depthCapHit ctx \<or> (\<exists>n \<in> set ns. cut n)"
    and "cx_decisive ctx' \<noteq> None \<longleftrightarrow> cx_decisive ctx \<noteq> None \<or> (\<exists>n \<in> set ns. en_result n = Allowed)"
    and "attributed tuples user ctx \<Longrightarrow> attributed tuples user ctx'"
    and "\<forall>n \<in> set ns. consistent n"
    and "list_all2 (\<lambda>h n. (en_result n = Allowed \<longrightarrow> h) \<and> (h \<longrightarrow> en_result n = Allowed \<or> cut n)) hs ns"
  shows "steps tuples user hs ns ctx ctx'"
  using assms unfolding steps_def by blast

lemma steps_append:
  assumes 1: "steps tuples user hs ns c0 c1" and 2: "steps tuples user hs' ns' c1 c2"
  shows "steps tuples user (hs @ hs') (ns @ ns') c0 c2"
proof (rule stepsI)
  show "cx_nodes c2 = cx_nodes c0 + sum_list (map visited (ns @ ns'))" using stepsD(1) [OF 1] stepsD(1) [OF 2] by simp
  show "cx_depthCapHit c2 \<longleftrightarrow> cx_depthCapHit c0 \<or> (\<exists>n \<in> set (ns @ ns'). cut n)"
    unfolding stepsD(2) [OF 2] stepsD(2) [OF 1] by auto
  show "cx_decisive c2 \<noteq> None \<longleftrightarrow> cx_decisive c0 \<noteq> None \<or> (\<exists>n \<in> set (ns @ ns'). en_result n = Allowed)"
    unfolding stepsD(3) [OF 2] stepsD(3) [OF 1] by auto
  show "attributed tuples user c2" if "attributed tuples user c0" using stepsD(4) [OF 2 stepsD(4) [OF 1 that]] .
  show "\<forall>n \<in> set (ns @ ns'). consistent n" using stepsD(5) [OF 1] stepsD(5) [OF 2] by auto
qed (intro list_all2_appendI stepsD(6) [OF 1] stepsD(6) [OF 2])

lemma list_all2_exists:
  "list_all2 P xs ys \<Longrightarrow> x \<in> set xs \<Longrightarrow> \<exists>y \<in> set ys. P x y"
  "list_all2 P xs ys \<Longrightarrow> y \<in> set ys \<Longrightarrow> \<exists>x \<in> set xs. P x y"
  by (induction rule: list_all2_induct) auto

lemma steps_mapM:
  "(\<And>x c. x \<in> set xs \<Longrightarrow> steps tuples user [H x] [fst (f x c)] c (snd (f x c)))
     \<Longrightarrow> steps tuples user (map H xs) (fst (mapM f xs c)) c (snd (mapM f xs c))"
proof (induction xs arbitrary: c)
  case Nil
  then show ?case by simp
next
  case (Cons x xs)
  have "steps tuples user [H x] [fst (f x c)] c (snd (f x c))" using Cons.prems by simp
  moreover have "steps tuples user (map H xs) (fst (mapM f xs (snd (f x c)))) (snd (f x c)) (snd (mapM f xs (snd (f x c))))"
    by (rule Cons.IH) (use Cons.prems in auto)
  ultimately show ?case using steps_append [of tuples user "[H x]" "[fst (f x c)]"]
    by (simp add: case_prod_unfold Let_def)
qed

lemma visit_simps [simp]:
  "cx_nodes (visit d c) = Suc (cx_nodes c)" "cx_depthCapHit (visit d c) = cx_depthCapHit c"
  "cx_decisive (visit d c) = cx_decisive c" "cx_decisiveObject (visit d c) = cx_decisiveObject c"
  "cx_decisiveRelation (visit d c) = cx_decisiveRelation c"
  by (simp_all add: visit_def)

lemma attributed_visit [simp]: "attributed tuples user (visit d c) = attributed tuples user c"
  unfolding attributed_def visit_simps ..

lemma steps_leaf:
  "steps tuples user [stored tuples object relation user]
     [fst (directLeaf tuples prov object relation user depth via ctx)] ctx
     (snd (directLeaf tuples prov object relation user depth via ctx))"
proof (cases "find_tuple tuples object relation user")
  case None
  then show ?thesis by (simp add: steps_def directLeaf_def stored_def Let_def)
next
  case (Some hit)
  then have "hit \<in> set tuples \<and> tu_object hit = object \<and> tu_relation hit = relation \<and> tu_user hit = user"
    unfolding find_tuple_def by (auto dest: find_SomeD)
  with Some show ?thesis
    by (cases "cx_decisive ctx") (auto simp: steps_def directLeaf_def stored_def Let_def attributed_def)
qed

lemma steps_inner:
  assumes s: "steps tuples user hs ns (visit d ctx) ctx'"
  shows "steps tuples user [\<exists>h \<in> set hs. h]
    [Node l (any_allowed ns) v None False (if b \<and> ns = [] then None else Some ns)] ctx ctx'"
    (is "steps _ _ _ [?n] _ _")
proof (rule stepsI)
  have res: "en_result ?n = Allowed \<longleftrightarrow> (\<exists>n \<in> set ns. en_result n = Allowed)" by (simp add: any_allowed_def list_ex_iff)
  have ct: "cut ?n \<longleftrightarrow> (\<exists>n \<in> set ns. cut n)" by simp
  show "cx_nodes ctx' = cx_nodes ctx + sum_list (map visited [?n])" using stepsD(1) [OF s] by simp
  show "cx_depthCapHit ctx' \<longleftrightarrow> cx_depthCapHit ctx \<or> (\<exists>n \<in> set [?n]. cut n)"
    unfolding stepsD(2) [OF s] using ct by simp
  show "cx_decisive ctx' \<noteq> None \<longleftrightarrow> cx_decisive ctx \<noteq> None \<or> (\<exists>n \<in> set [?n]. en_result n = Allowed)"
    unfolding stepsD(3) [OF s] using res by simp
  show "attributed tuples user ctx'" if "attributed tuples user ctx" using stepsD(4) [OF s] that by simp
  show "\<forall>n \<in> set [?n]. consistent n" using stepsD(5) [OF s] by (simp add: any_allowed_def list_ex_iff)
  have "(\<exists>n \<in> set ns. en_result n = Allowed) \<longrightarrow> (\<exists>h \<in> set hs. h)"
    using list_all2_exists(2) [OF stepsD(6) [OF s]] by blast
  moreover have "(\<exists>h \<in> set hs. h) \<longrightarrow> (\<exists>n \<in> set ns. en_result n = Allowed) \<or> (\<exists>n \<in> set ns. cut n)"
    using list_all2_exists(1) [OF stepsD(6) [OF s]] by blast
  ultimately have "(en_result ?n = Allowed \<longrightarrow> (\<exists>h \<in> set hs. h)) \<and> ((\<exists>h \<in> set hs. h) \<longrightarrow> en_result ?n = Allowed \<or> cut ?n)"
    unfolding res ct by blast
  then show "list_all2 (\<lambda>h n. (en_result n = Allowed \<longrightarrow> h) \<and> (h \<longrightarrow> en_result n = Allowed \<or> cut n)) [\<exists>h \<in> set hs. h] [?n]"
    by (simp only: list_all2_Cons list_all2_Nil simp_thms)
qed

lemma attributed_cap [simp]: "attributed tuples user (c\<lparr>cx_depthCapHit := b\<rparr>) = attributed tuples user c"
  by (cases "cx_decisive c") (simp_all add: attributed_def)

text \<open>A relation with several branches: the meanings of its children are the branches of \<open>holds_iff\<close>.\<close>

lemma steps_union:
  assumes nocap: "\<not> DEPTH_CAP < depth" and rw: "rewrite_of model object relation = Some def"
    and nleaf: "\<not> ((if rw_direct def then 1 else 0) + length (rw_computed def) + length (rw_tupleToUserset def) = 1 \<and> rw_direct def)"
    and IH: "\<And>obj rel k v c. steps tuples user [holds model tuples user obj rel]
      [fst (evaluate model tuples prov user obj rel (depth + Suc k) v c)] c
      (snd (evaluate model tuples prov user obj rel (depth + Suc k) v c))"
  shows "steps tuples user [holds model tuples user object relation]
     [fst (evaluate model tuples prov user object relation depth via ctx)] ctx
     (snd (evaluate model tuples prov user object relation depth via ctx))"
proof -
  let ?ev = "evaluate model tuples prov user" and ?targets = "\<lambda>ttu. tupleset_targets tuples object (fst ttu)"
  let ?leaf = "directLeaf tuples prov object relation user (depth + 1) Direct (visit depth ctx)"
  let ?ns1 = "if rw_direct def then [fst ?leaf] else []" and ?c1 = "if rw_direct def then snd ?leaf else visit depth ctx"
  let ?hs1 = "if rw_direct def then [stored tuples object relation user] else []"
  let ?comp = "mapM (\<lambda>other c. ?ev object other (depth + 1) Computed c) (rw_computed def) ?c1"
  let ?sub = "\<lambda>ttu c. mapM (\<lambda>target c''. ?ev target (snd ttu) (depth + 2) Direct c'') (?targets ttu) (visit (depth + 1) c)"
  let ?tn = "\<lambda>ttu c. (Node (userset object (fst ttu)) (any_allowed (fst (?sub ttu c))) TupleToUserset_via None False
      (if fst (?sub ttu c) = [] then None else Some (fst (?sub ttu c))), snd (?sub ttu c))"
  let ?inh = "mapM ?tn (rw_tupleToUserset def) (snd ?comp)"
  let ?H3 = "\<lambda>ttu. \<exists>h \<in> set (map (\<lambda>target. holds model tuples user target (snd ttu)) (?targets ttu)). h"
  have s1: "steps tuples user ?hs1 ?ns1 (visit depth ctx) ?c1" using steps_leaf by simp
  have s2: "steps tuples user (map (holds model tuples user object) (rw_computed def)) (fst ?comp) ?c1 (snd ?comp)"
    using IH [of object _ 0] by (intro steps_mapM) simp
  have s3: "steps tuples user (map ?H3 (rw_tupleToUserset def)) (fst ?inh) (snd ?comp) (snd ?inh)"
  proof (rule steps_mapM)
    fix ttu c
    have "steps tuples user (map (\<lambda>target. holds model tuples user target (snd ttu)) (?targets ttu))
        (fst (?sub ttu c)) (visit (depth + 1) c) (snd (?sub ttu c))"
      using IH [of _ "snd ttu" 1] by (intro steps_mapM) simp
    from steps_inner [OF this, of "userset object (fst ttu)" TupleToUserset_via True]
    show "steps tuples user [?H3 ttu] [fst (?tn ttu c)] c (snd (?tn ttu c))" by simp
  qed
  note all = steps_inner [OF steps_append [OF s1 steps_append [OF s2 s3]],
      of "userset object relation" "if via = Computed then Computed else Union" False]
  have "?ev object relation depth via ctx =
      (Node (userset object relation) (any_allowed (?ns1 @ fst ?comp @ fst ?inh))
         (if via = Computed then Computed else Union) None False (Some (?ns1 @ fst ?comp @ fst ?inh)), snd ?inh)"
    by (subst evaluate.simps, simp only: rw option.case Let_def if_not_P [OF nocap] if_not_P [OF nleaf])
      (cases "rw_direct def"; simp add: case_prod_unfold split del: if_split cong: if_cong)
  moreover have "holds model tuples user object relation =
      (\<exists>h \<in> set (?hs1 @ map (holds model tuples user object) (rw_computed def) @ map ?H3 (rw_tupleToUserset def)). h)"
    by (subst holds_iff) (auto simp: rw)
  ultimately show ?thesis using all by simp
qed

lemma steps_evaluate:
  "steps tuples user [holds model tuples user object relation]
     [fst (evaluate model tuples prov user object relation depth via ctx)] ctx
     (snd (evaluate model tuples prov user object relation depth via ctx))"
proof (induction "Suc DEPTH_CAP - depth" arbitrary: object relation depth via ctx rule: less_induct)
  case less
  show ?case
  proof (cases "DEPTH_CAP < depth")
    case True
    then show ?thesis by (subst (1 2) evaluate.simps) (simp add: steps_def)
  next
    case False
    show ?thesis
    proof (cases "rewrite_of model object relation")
      case None
      then have "\<not> holds model tuples user object relation" by (simp add: holds_iff)
      with None False show ?thesis by (subst (1 2) evaluate.simps) (simp add: steps_def)
    next
      case (Some def)
      show ?thesis
      proof (cases "(if rw_direct def then 1 else 0) + length (rw_computed def) + length (rw_tupleToUserset def) = 1 \<and> rw_direct def")
        case True
        then have empty: "rw_direct def" "rw_computed def = []" "rw_tupleToUserset def = []" by auto
        then have "holds model tuples user object relation = stored tuples object relation user"
          using Some by (subst holds_iff) auto
        moreover have "evaluate model tuples prov user object relation depth via ctx
            = directLeaf tuples prov object relation user depth via ctx"
          using empty Some False by (subst evaluate.simps) simp
        ultimately show ?thesis by (simp only: steps_leaf)
      next
        case nleaf: False
        show ?thesis by (rule steps_union [OF False Some nleaf], rule less.hyps) (use False in auto)
      qed
    qed
  qed
qed

section \<open>Properties\<close>

lemma steps_explain:
  fixes check :: CheckTuple
  defines "r \<equiv> \<lambda>model tuples opts. evaluate model tuples (ro_includeProvenance opts) (ck_user check) (ck_object check)
    (ck_relation check) 1 Direct initial_ctx"
  shows "er_tree (explain model tuples check opts) = fst (r model tuples opts)"
    and "er_allowed (explain model tuples check opts) \<longleftrightarrow> en_result (fst (r model tuples opts)) = Allowed"
    and "er_decisive (explain model tuples check opts) =
      (if en_result (fst (r model tuples opts)) = Allowed then cx_decisive (snd (r model tuples opts)) else None)"
    and "es_nodesEvaluated (er_stats (explain model tuples check opts)) = cx_nodes (snd (r model tuples opts))"
    and "es_depthCapHit (er_stats (explain model tuples check opts)) = cx_depthCapHit (snd (r model tuples opts))"
  by (simp_all add: explain_def r_def Let_def case_prod_unfold)

text \<open>
  C1: the resolver is sound, and complete below the depth cap. A check that is allowed follows from
  the model and the stored tuples; a check that follows is allowed unless resolution was stopped
  at the depth cap, which the response then reports.
\<close>

theorem explain_correct:
  "(er_allowed (explain model tuples check opts) \<longrightarrow>
      holds model tuples (ck_user check) (ck_object check) (ck_relation check))
   \<and> (holds model tuples (ck_user check) (ck_object check) (ck_relation check) \<longrightarrow>
      er_allowed (explain model tuples check opts) \<or> es_depthCapHit (er_stats (explain model tuples check opts)))"
proof -
  note s = steps_evaluate [of tuples "ck_user check" model "ck_object check" "ck_relation check" "ro_includeProvenance opts" 1 Direct initial_ctx]
  show ?thesis unfolding steps_explain using stepsD(2,6) [OF s] by (auto simp: initial_ctx_def)
qed

text \<open>
  Every allowed answer names its evidence. The response carries a decisive tuple exactly when
  the check is allowed, and that tuple is one of the stored tuples, for the user of the check.
\<close>

theorem explain_decisive:
  "(er_allowed (explain model tuples check opts) \<longleftrightarrow> er_decisive (explain model tuples check opts) \<noteq> None)
   \<and> (\<forall>d. er_decisive (explain model tuples check opts) = Some d \<longrightarrow>
        (\<exists>t \<in> set tuples. tu_user t = ck_user check \<and> d = decisive_of (tu_object t) (tu_relation t) (ck_user check) t))"
proof -
  note s = steps_evaluate [of tuples "ck_user check" model "ck_object check" "ck_relation check" "ro_includeProvenance opts" 1 Direct initial_ctx]
  have "attributed tuples (ck_user check) initial_ctx" by (simp add: attributed_def initial_ctx_def)
  from stepsD(4) [OF s this] stepsD(3) [OF s] show ?thesis
    unfolding steps_explain by (auto simp: initial_ctx_def attributed_def split: if_splits)
qed

text \<open>
  The explanation tree and the statistics agree with the decision. Every inner node of the tree
  is allowed exactly when one of its children is, the root carries the verdict, nodesEvaluated is
  the number of nodes that were not cut, and depthCapHit says that some node was.
\<close>

theorem explain_tree:
  "consistent (er_tree (explain model tuples check opts))
   \<and> (en_result (er_tree (explain model tuples check opts)) = Allowed \<longleftrightarrow> er_allowed (explain model tuples check opts))
   \<and> es_nodesEvaluated (er_stats (explain model tuples check opts)) = visited (er_tree (explain model tuples check opts))
   \<and> (es_depthCapHit (er_stats (explain model tuples check opts)) \<longleftrightarrow> cut (er_tree (explain model tuples check opts)))"
proof -
  note s = steps_evaluate [of tuples "ck_user check" model "ck_object check" "ck_relation check" "ro_includeProvenance opts" 1 Direct initial_ctx]
  show ?thesis unfolding steps_explain using stepsD(1,2,5) [OF s] by (auto simp: initial_ctx_def)
qed

end
