(* ===== verification/Playground.thy ===== *)
theory Playground
  imports Resolver
begin

text \<open>
  The playground's tenant-bound entry points and fixtures: the models and tuples of
  \<^verbatim>\<open>features/playground/fixtures.ts\<close>, request schemas, the batch textarea parser and the functions
  of \<^verbatim>\<open>server.ts\<close>, with the batch endpoint's agreement with single checks.
\<close>

section \<open>Request schemas\<close>

definition is_alpha :: "char \<Rightarrow> bool" where
  "is_alpha c \<longleftrightarrow> is_lower c \<or> is_upper c"

definition re_ref :: re where
  "re_ref =
     re_seq [Ch is_alpha, Rep (\<lambda>c. is_alpha c \<or> is_digit c \<or> c = CHR ''_'' \<or> c = CHR ''-''), re_lit '':'',
             re_plus (\<lambda>c. \<not> is_space c \<and> c \<noteq> CHR ''#'' \<and> c \<noteq> CHR ''@''),
             re_opt (Cap (Seq (re_lit ''#'') (re_plus (\<lambda>c. is_alpha c \<or> c = CHR ''_'')))), Eos]"

definition RefSchema_parse :: "string \<Rightarrow> string option" where
  "RefSchema_parse s = (let t = trim s in if 3 \<le> length t \<and> re_test re_ref t then Some t else None)"

definition re_relation_name :: re where
  "re_relation_name = re_seq [Ch is_alpha, Rep (\<lambda>c. is_alpha c \<or> is_digit c \<or> c = CHR ''_''), Eos]"

definition RelationNameSchema_parse :: "string \<Rightarrow> string option" where
  "RelationNameSchema_parse s = (let t = trim s in if 1 \<le> length t \<and> re_test re_relation_name t then Some t else None)"

definition CheckTupleSchema_parse :: "string \<Rightarrow> string \<Rightarrow> string \<Rightarrow> CheckTuple option" where
  "CheckTupleSchema_parse user relation object =
     (case (RefSchema_parse user, RelationNameSchema_parse relation, RefSchema_parse object) of
        (Some u, Some r, Some ob) \<Rightarrow> Some \<lparr>ck_user = u, ck_relation = r, ck_object = ob\<rparr>
      | _ \<Rightarrow> None)"

definition BatchCheckRequestSchema_ok :: "CheckTuple list \<Rightarrow> bool" where
  "BatchCheckRequestSchema_ok checks \<longleftrightarrow> 1 \<le> length checks \<and> length checks \<le> 100"

section \<open>Batch textarea\<close>

datatype ParsedBatch = Checks "CheckTuple list" | Bad_line nat string

definition re_newline :: re where
  "re_newline = Seq (re_opt (Ch (\<lambda>c. c = CHR 0x0D))) (Ch (\<lambda>c. c = CHR 0x0A))"

text \<open>
  The loop over the lines. \<open>zod_message\<close> is the text the schema library gives for the first
  failing field of a line.
\<close>

fun parse_batch_lines ::
  "(string \<Rightarrow> string \<Rightarrow> string \<Rightarrow> string) \<Rightarrow> nat \<Rightarrow> string list \<Rightarrow> CheckTuple list \<Rightarrow> ParsedBatch" where
  "parse_batch_lines zod_message i [] checks =
     (if checks = [] then Bad_line 0 ''add at least one tuple'' else Checks checks)"
| "parse_batch_lines zod_message i (l # ls) checks =
     (let raw = trim l
      in if raw = [] then parse_batch_lines zod_message (i + 1) ls checks
         else case split_re (re_plus is_space) [] raw of
           [u, r, ob] \<Rightarrow>
             (case CheckTupleSchema_parse u r ob of
                None \<Rightarrow> Bad_line (i + 1) (zod_message u r ob)
              | Some c \<Rightarrow> parse_batch_lines zod_message (i + 1) ls (checks @ [c]))
         | parts \<Rightarrow>
             Bad_line (i + 1) (''expected '' @ quoted ''user relation object'' @ '', got '' @ show_nat (length parts)
               @ '' field'' @ (if length parts = 1 then [] else ''s'')))"

definition parseBatch :: "(string \<Rightarrow> string \<Rightarrow> string \<Rightarrow> string) \<Rightarrow> string \<Rightarrow> ParsedBatch" where
  "parseBatch zod_message text' = parse_batch_lines zod_message 0 (split_re re_newline [] text') []"

section \<open>Fixtures\<close>

abbreviation direct_only :: RewriteDef where
  "direct_only \<equiv> \<lparr>rw_direct = True, rw_computed = [], rw_tupleToUserset = []\<rparr>"

abbreviation direct_or :: "string list \<Rightarrow> (string \<times> string) list \<Rightarrow> RewriteDef" where
  "direct_or cs us \<equiv> \<lparr>rw_direct = True, rw_computed = cs, rw_tupleToUserset = us\<rparr>"

definition ACME_AIR_MODEL_V6 :: rewrite_model where
  "ACME_AIR_MODEL_V6 =
     [(''user'', []),
      (''folder'', [(''owner'', direct_only), (''editor'', direct_only),
                    (''viewer'', direct_or [''editor''] []), (''auditor'', direct_only)]),
      (''document'', [(''parent'', direct_only), (''owner'', direct_only), (''editor'', direct_only),
                      (''viewer'', direct_or [''editor''] [(''parent'', ''editor'')]),
                      (''auditor'', direct_or [] [(''parent'', ''auditor'')])])]"

definition DEFAULT_MODEL :: rewrite_model where
  "DEFAULT_MODEL =
     [(''user'', []),
      (''folder'', [(''owner'', direct_only), (''editor'', direct_or [''owner''] []),
                    (''viewer'', direct_or [''editor''] [])]),
      (''document'', [(''parent'', direct_only), (''owner'', direct_only), (''editor'', direct_or [''owner''] []),
                      (''viewer'', direct_or [''editor''] [(''parent'', ''viewer'')])])]"

abbreviation stored_tuple :: "string \<Rightarrow> string \<Rightarrow> string \<Rightarrow> string \<Rightarrow> string \<Rightarrow> string \<Rightarrow> string \<Rightarrow> StoredTuple" where
  "stored_tuple ob r u i w b e \<equiv>
     \<lparr>tu_object = ob, tu_relation = r, tu_user = u, tu_tupleId = i, tu_writtenAt = w, tu_writtenBy = b, tu_auditEventId = e\<rparr>"

definition ACME_AIR_TUPLES :: "StoredTuple list" where
  "ACME_AIR_TUPLES =
     [stored_tuple ''folder:finance'' ''editor'' ''user:raj'' ''a3f1d2e4b6c9'' ''2026-08-30T09:00:00Z''
        ''admin@acme.test'' ''evt_tuple_a3f1'',
      stored_tuple ''document:budget-2026'' ''parent'' ''folder:finance'' ''b81e7c0a5d43'' ''2026-08-30T09:00:00Z''
        ''system:reconciler'' ''evt_tuple_b81e'',
      stored_tuple ''document:budget-2026'' ''viewer'' ''user:ana'' ''c27d9f1e3b85'' ''2026-09-01T14:22:00Z''
        ''admin@acme.test'' ''evt_tuple_c27d'',
      stored_tuple ''folder:finance'' ''owner'' ''user:lee'' ''d4a06b2c8e17'' ''2026-08-12T08:05:00Z''
        ''system:reconciler'' ''evt_tuple_d4a0'']"

definition modelFor :: "string \<Rightarrow> rewrite_model" where
  "modelFor slug = (if slug = ''acme-air'' then ACME_AIR_MODEL_V6 else DEFAULT_MODEL)"

definition tuplesFor :: "string \<Rightarrow> StoredTuple list" where
  "tuplesFor slug = (if slug = ''acme-air'' then ACME_AIR_TUPLES else [])"

record PlaygroundTenant =
  pt_slug :: string
  pt_displayName :: string
  pt_modelVersion :: nat
  pt_relations :: "string list"

definition fixture_modelVersion :: "string \<Rightarrow> nat" where
  "fixture_modelVersion slug = (case tenantDetailFixture slug of None \<Rightarrow> 0 | Some t \<Rightarrow> td_modelVersion t)"

definition playgroundTenants :: "PlaygroundTenant list" where
  "playgroundTenants =
     map (\<lambda>t. \<lparr>pt_slug = ts_slug t, pt_displayName = ts_displayName t,
               pt_modelVersion = fixture_modelVersion (ts_slug t), pt_relations = relationsOf (modelFor (ts_slug t))\<rparr>) TENANTS"

section \<open>Entry points\<close>

definition PLAYGROUND_NOW :: string where
  "PLAYGROUND_NOW = ''2026-09-04T10:15:00Z''"

definition tenantContext :: "string \<Rightarrow> (rewrite_model \<times> StoredTuple list \<times> nat) option" where
  "tenantContext slug =
     (case findTenant slug of
        None \<Rightarrow> None
      | Some _ \<Rightarrow> Some (modelFor slug, tuplesFor slug, fixture_modelVersion slug))"

definition PlaygroundTenantSchema_ok :: "PlaygroundTenant \<Rightarrow> bool" where
  "PlaygroundTenantSchema_ok t \<longleftrightarrow> pt_relations t \<noteq> []"

definition listPlaygroundTenants :: "PlaygroundTenant list throws" where
  "listPlaygroundTenants =
     (if list_all PlaygroundTenantSchema_ok playgroundTenants then Inr playgroundTenants else Inl ZodError)"

text \<open>A check whose evaluation throws has no answer, and a batch with such a check has none.\<close>

definition check_throws :: "rewrite_model \<Rightarrow> StoredTuple list \<Rightarrow> CheckTuple \<Rightarrow> bool" where
  "check_throws model tuples check = evaluate_throws model tuples (ck_object check) (ck_relation check) 1"

definition explainForTenant :: "string \<Rightarrow> CheckTuple \<Rightarrow> bool \<Rightarrow> Consistency \<Rightarrow> ExplainResponse option throws" where
  "explainForTenant slug request includeProvenance consistency =
     (case tenantContext slug of
        None \<Rightarrow> Inr None
      | Some (model, tuples, version) \<Rightarrow>
          if check_throws model tuples request then Inl TypeError
          else Inr (Some (explain model tuples request
            \<lparr>ro_now = PLAYGROUND_NOW, ro_modelVersion = version, ro_consistency = consistency,
             ro_includeProvenance = includeProvenance\<rparr>)))"

definition batchCheckForTenant :: "string \<Rightarrow> CheckTuple list \<Rightarrow> Consistency \<Rightarrow> BatchCheckResponse option throws" where
  "batchCheckForTenant slug checks consistency =
     (case tenantContext slug of
        None \<Rightarrow> Inr None
      | Some (model, tuples, version) \<Rightarrow>
          if list_ex (check_throws model tuples) checks then Inl TypeError
          else Inr (Some (batchCheck model tuples checks
            \<lparr>ro_now = PLAYGROUND_NOW, ro_modelVersion = version, ro_consistency = consistency,
             ro_includeProvenance = True\<rparr>)))"

text \<open>
  With the fixtures, exactly a check that asks for the relation \<^verbatim>\<open>caller\<close> or \<^verbatim>\<open>arguments\<close> of an object whose type is named
  like an inherited function throws.
\<close>

lemma fixture_lookups:
  assumes "tenantContext slug = Some (model, tuples, version)"
  shows "\<forall>t \<in> set tuples. typeOf (tu_user t) \<notin> set inherited_keys"
    and "ty \<in> set inherited_keys \<Longrightarrow> map_get model ty = None"
proof -
  have "model = modelFor slug" "tuples = tuplesFor slug" using assms by (auto simp: tenantContext_def split: option.splits)
  then show "\<forall>t \<in> set tuples. typeOf (tu_user t) \<notin> set inherited_keys"
      and "ty \<in> set inherited_keys \<Longrightarrow> map_get model ty = None"
    by (auto simp: tuplesFor_def modelFor_def ACME_AIR_TUPLES_def ACME_AIR_MODEL_V6_def DEFAULT_MODEL_def inherited_keys_def typeOf_def)
qed

lemma check_throws_iff:
  assumes "tenantContext slug = Some (model, tuples, version)"
  shows "check_throws model tuples c \<longleftrightarrow> read_throws (typeOf (ck_object c)) (ck_relation c)"
proof (cases "typeOf (ck_object c) \<in> set inherited_keys")
  case True
  then have "map_get model (typeOf (ck_object c)) = None" by (rule fixture_lookups(2) [OF assms])
  then show ?thesis
    by (subst check_throws_def, subst evaluate_throws.simps) (simp add: lookup_throws_def rewrite_of_def no_branches_def DEPTH_CAP_def)
next
  case False
  then show ?thesis using evaluate_throws_own [OF fixture_lookups(1) [OF assms] False]
    by (simp add: check_throws_def read_throws_def)
qed

definition DEFAULT_QUERY :: CheckTuple where
  "DEFAULT_QUERY = \<lparr>ck_user = ''user:raj'', ck_relation = ''viewer'', ck_object = ''document:budget-2026''\<rparr>"

section \<open>Provenance does not change the decision\<close>

primrec erase :: "ExplainNode \<Rightarrow> ExplainNode" where
  "erase (Node l r v p tr cs) = Node l r v None tr (map_option (map erase) cs)"

lemma en_result_erase [simp]: "en_result (erase n) = en_result n"
  by (cases n) simp

lemma list_ex_erase [simp]: "list_ex (\<lambda>c. en_result c = Allowed) (map erase ns) = list_ex (\<lambda>c. en_result c = Allowed) ns"
  by (simp add: list_ex_iff)

lemma any_allowed_erase [simp]: "any_allowed (map erase ns) = any_allowed ns"
  by (simp add: any_allowed_def list_ex_iff)

lemma mapM_erase: "mapM (\<lambda>x c. map_prod erase id (g x c)) xs c = map_prod (map erase) id (mapM g xs c)"
  by (induction xs arbitrary: c) (simp_all add: case_prod_unfold Let_def)

lemma directLeaf_erase:
  "directLeaf tuples False object relation user depth via ctx
     = map_prod erase id (directLeaf tuples prov object relation user depth via ctx)"
  by (simp add: directLeaf_def Let_def split: option.split)

text \<open>The union branch of \<open>evaluate\<close>, with its three kinds of calls as arguments.\<close>

definition ttu_node :: "(string \<Rightarrow> string \<Rightarrow> Ctx \<Rightarrow> ExplainNode \<times> Ctx) \<Rightarrow> StoredTuple list \<Rightarrow> string \<Rightarrow> nat
    \<Rightarrow> string \<times> string \<Rightarrow> Ctx \<Rightarrow> ExplainNode \<times> Ctx" where
  "ttu_node ev tuples object depth ttu c =
     (let (viaChildren, c') =
            mapM (\<lambda>target. ev target (snd ttu)) (tupleset_targets tuples object (fst ttu)) (visit (depth + 1) c)
      in (Node (userset object (fst ttu)) (any_allowed viaChildren) TupleToUserset_via None False
            (if viaChildren = [] then None else Some viaChildren), c'))"

definition union_node :: "(Ctx \<Rightarrow> ExplainNode \<times> Ctx) \<Rightarrow> (string \<Rightarrow> Ctx \<Rightarrow> ExplainNode \<times> Ctx)
    \<Rightarrow> (string \<times> string \<Rightarrow> Ctx \<Rightarrow> ExplainNode \<times> Ctx) \<Rightarrow> RewriteDef \<Rightarrow> string \<Rightarrow> ExplainVia \<Rightarrow> Ctx \<Rightarrow> ExplainNode \<times> Ctx" where
  "union_node leaf cev iev def label via ctx =
     (let (leaves, ctx1) = (if rw_direct def then (let (l, c) = leaf ctx in ([l], c)) else ([], ctx));
          (computed, ctx2) = mapM cev (rw_computed def) ctx1;
          (inherited, ctx3) = mapM iev (rw_tupleToUserset def) ctx2;
          children = leaves @ computed @ inherited
      in (Node label (any_allowed children) (if via = Computed then Computed else Union) None False (Some children), ctx3))"

lemma evaluate_eq:
  "evaluate model tuples prov user object relation depth via ctx =
     (if DEPTH_CAP < depth
      then (Node (userset object relation) Denied via None True None, ctx\<lparr>cx_depthCapHit := True\<rparr>)
      else
        (case rewrite_of model object relation of
           None \<Rightarrow> (Node (userset object relation) Denied via None False None, visit depth ctx)
         | Some def \<Rightarrow>
             if (if rw_direct def then 1 else 0) + length (rw_computed def) + length (rw_tupleToUserset def) = 1 \<and> rw_direct def
             then directLeaf tuples prov object relation user depth via ctx
             else union_node (directLeaf tuples prov object relation user (depth + 1) Direct)
                    (\<lambda>other. evaluate model tuples prov user object other (depth + 1) Computed)
                    (ttu_node (\<lambda>target rel. evaluate model tuples prov user target rel (depth + 2) Direct) tuples object depth)
                    def (userset object relation) via (visit depth ctx)))"
  unfolding union_node_def ttu_node_def Let_def by (subst evaluate.simps) (simp only: Let_def)

lemma ttu_node_erase:
  "ttu_node (\<lambda>t r c. map_prod erase id (g t r c)) tuples object depth ttu c
     = map_prod erase id (ttu_node g tuples object depth ttu c)"
  by (simp add: ttu_node_def mapM_erase case_prod_unfold Let_def)

lemma union_node_erase:
  "union_node (\<lambda>c. map_prod erase id (leaf c)) (\<lambda>x c. map_prod erase id (cev x c)) (\<lambda>x c. map_prod erase id (iev x c)) def label via ctx
     = map_prod erase id (union_node leaf cev iev def label via ctx)"
  by (simp add: union_node_def mapM_erase case_prod_unfold Let_def) (simp add: any_allowed_def)

lemma evaluate_erase:
  "evaluate model tuples False user object relation depth via ctx
     = map_prod erase id (evaluate model tuples prov user object relation depth via ctx)"
proof (induction "Suc DEPTH_CAP - depth" arbitrary: object relation depth via ctx rule: less_induct)
  case less
  show ?case
  proof (cases "DEPTH_CAP < depth")
    case True
    then show ?thesis by (subst (1 2) evaluate_eq) simp
  next
    case False
    have leaf: "directLeaf tuples False object relation user (depth + 1) Direct
        = (\<lambda>c. map_prod erase id (directLeaf tuples prov object relation user (depth + 1) Direct c))"
      by (rule ext) (rule directLeaf_erase)
    have cev: "(\<lambda>other. evaluate model tuples False user object other (depth + 1) Computed)
        = (\<lambda>other c. map_prod erase id (evaluate model tuples prov user object other (depth + 1) Computed c))"
      by (intro ext, rule less.hyps) (use False in auto)
    have ev2: "(\<lambda>target rel. evaluate model tuples False user target rel (depth + 2) Direct)
        = (\<lambda>target rel c. map_prod erase id (evaluate model tuples prov user target rel (depth + 2) Direct c))"
      by (intro ext, rule less.hyps) (use False in auto)
    have iev: "ttu_node (\<lambda>target rel. evaluate model tuples False user target rel (depth + 2) Direct) tuples object depth
        = (\<lambda>ttu c. map_prod erase id (ttu_node (\<lambda>target rel. evaluate model tuples prov user target rel (depth + 2) Direct) tuples object depth ttu c))"
      unfolding ev2 by (intro ext) (rule ttu_node_erase)
    from False show ?thesis
      by (subst (1 2) evaluate_eq)
        (simp only: leaf cev iev union_node_erase directLeaf_erase [where prov = prov], auto split: option.split)
  qed
qed

section \<open>Properties\<close>

text \<open>
  C34: the batch endpoint agrees with the explain endpoint. For every list of checks it answers one
  result per check, in order, whose verdict is the one explain gives for that check alone,
  whatever the provenance option.
\<close>

theorem batchCheck_agrees:
  "map br_allowed (bc_results (batchCheck model tuples checks opts))
     = map (\<lambda>c. er_allowed (explain model tuples c opts)) checks
   \<and> map CheckTuple.truncate (bc_results (batchCheck model tuples checks opts)) = checks"
proof -
  have "er_allowed (explain model tuples c (opts\<lparr>ro_includeProvenance := False\<rparr>)) = er_allowed (explain model tuples c opts)" for c
    by (simp add: explain_def Let_def case_prod_unfold
        evaluate_erase [of _ _ _ _ _ _ _ _ "ro_includeProvenance opts"])
  moreover have "CheckTuple.truncate (CheckTuple.extend c (BatchCheckResult.fields a d)) = c" for c a d
    by (simp add: CheckTuple.defs)
  moreover have "br_allowed (CheckTuple.extend c (BatchCheckResult.fields a d)) = a" for c a d
    by (simp add: CheckTuple.defs BatchCheckResult.defs)
  ultimately show ?thesis by (simp add: batchCheck_def Let_def comp_def)
qed

definition example_opts :: ResolverOptions where
  "example_opts = \<lparr>ro_now = PLAYGROUND_NOW, ro_modelVersion = 6, ro_consistency = Strong, ro_includeProvenance = True\<rparr>"

lemma default_query_allowed: "er_allowed (explain ACME_AIR_MODEL_V6 ACME_AIR_TUPLES DEFAULT_QUERY example_opts)"
  by code_simp

lemma default_query_stats:
  "es_nodesEvaluated (er_stats (explain ACME_AIR_MODEL_V6 ACME_AIR_TUPLES DEFAULT_QUERY example_opts)) = 5"
  "es_maxDepth (er_stats (explain ACME_AIR_MODEL_V6 ACME_AIR_TUPLES DEFAULT_QUERY example_opts)) = 3"
  by code_simp+

theorem explain_correct_witness:
  "er_allowed (explain ACME_AIR_MODEL_V6 ACME_AIR_TUPLES DEFAULT_QUERY example_opts)
   \<and> holds ACME_AIR_MODEL_V6 ACME_AIR_TUPLES ''user:raj'' ''document:budget-2026'' ''viewer''"
  using explain_correct [of ACME_AIR_MODEL_V6 ACME_AIR_TUPLES DEFAULT_QUERY example_opts] default_query_allowed
  by (simp add: DEFAULT_QUERY_def)

theorem explain_decisive_witness:
  "\<exists>d. er_decisive (explain ACME_AIR_MODEL_V6 ACME_AIR_TUPLES DEFAULT_QUERY example_opts) = Some d
     \<and> (\<exists>t \<in> set ACME_AIR_TUPLES. d = decisive_of (tu_object t) (tu_relation t) ''user:raj'' t)"
proof -
  have u: "ck_user DEFAULT_QUERY = ''user:raj''" by (simp add: DEFAULT_QUERY_def)
  from explain_decisive [of ACME_AIR_MODEL_V6 ACME_AIR_TUPLES DEFAULT_QUERY example_opts] default_query_allowed
  show ?thesis unfolding u by auto
qed

end
