(* ===== verification/Relations.thy ===== *)
theory Relations
  imports Authz_Model
begin

text \<open>
  Relationship tuples of a tenant (\<^verbatim>\<open>features/relations\<close>): the lazily seeded stores, filtered listing
  with offset cursors, and the atomic write batch checked against the tenant's live model. The
  reported total is an integer, as in the source, because the code subtracts from it.
\<close>

section \<open>Schemas\<close>

datatype TupleSource = Spec_source nat | Api_source | Drift_source

record Tuple =
  tr_id :: string
  tr_user :: string
  tr_relation :: string
  tr_object :: string
  tr_source :: TupleSource
  tr_writtenAt :: string

record TupleInput =
  ti_user :: string
  ti_relation :: string
  ti_object :: string

definition TupleSchema_ok :: "Tuple \<Rightarrow> bool" where
  "TupleSchema_ok t \<longleftrightarrow> (case tr_source t of Spec_source g \<Rightarrow> 0 < g | _ \<Rightarrow> True)"

definition re_object_ref :: re where
  "re_object_ref = re_seq [Ch is_lower, Rep is_word_dash, re_lit '':'', re_plus (\<lambda>c. \<not> is_space c), Eos]"

definition re_relation :: re where
  "re_relation = re_seq [Ch is_lower, Rep is_word, Eos]"

definition TupleInputSchema_ok :: "TupleInput \<Rightarrow> bool" where
  "TupleInputSchema_ok t \<longleftrightarrow>
     3 \<le> length (ti_user t) \<and> re_test re_object_ref (ti_user t)
     \<and> 1 \<le> length (ti_relation t) \<and> re_test re_relation (ti_relation t)
     \<and> 3 \<le> length (ti_object t) \<and> re_test re_object_ref (ti_object t)"

record RelationsFilter =
  rf_user :: "string option"
  rf_relation :: "string option"
  rf_object :: "string option"

definition parseRelationsFilter :: "(string \<Rightarrow> string option) \<Rightarrow> RelationsFilter" where
  "parseRelationsFilter params =
     (let pick = (\<lambda>k. nonempty (map_option trim (params k)))
      in \<lparr>rf_user = pick ''user'', rf_relation = pick ''relation'', rf_object = pick ''object''\<rparr>)"

definition RELATIONS_PAGE_SIZE :: nat where
  "RELATIONS_PAGE_SIZE = 6"

record RelationsPage =
  rp_items :: "Tuple list"
  rp_nextCursor :: "string option"
  rp_total :: int
  rp_modelVersion :: nat
  rp_cachedDecisions :: "nat option"

text \<open>A count that is not a number is \<open>None\<close>; the schema rejects it.\<close>

definition RelationsPageSchema_ok :: "RelationsPage \<Rightarrow> bool" where
  "RelationsPageSchema_ok p \<longleftrightarrow>
     list_all TupleSchema_ok (rp_items p) \<and> 0 \<le> rp_total p \<and> 0 < rp_modelVersion p \<and> rp_cachedDecisions p \<noteq> None"

record WriteRequest =
  wr_writes :: "TupleInput list"
  wr_deletes :: "TupleInput list"

definition WriteRequestSchema_ok :: "WriteRequest \<Rightarrow> bool" where
  "WriteRequestSchema_ok r \<longleftrightarrow>
     length (wr_writes r) \<le> 100 \<and> length (wr_deletes r) \<le> 100 \<and> 0 < length (wr_writes r) + length (wr_deletes r)
     \<and> list_all TupleInputSchema_ok (wr_writes r) \<and> list_all TupleInputSchema_ok (wr_deletes r)"

record WriteResult =
  ws_written :: nat
  ws_deleted :: nat
  ws_invalidatedDecisions :: "nat option"
  ws_modelVersion :: nat

definition WriteResultSchema_ok :: "WriteResult \<Rightarrow> bool" where
  "WriteResultSchema_ok r \<longleftrightarrow> ws_invalidatedDecisions r \<noteq> None \<and> 0 < ws_modelVersion r"

section \<open>Fixtures\<close>

abbreviation tuple_row :: "string \<Rightarrow> string \<Rightarrow> string \<Rightarrow> string \<Rightarrow> TupleSource \<Rightarrow> string \<Rightarrow> Tuple" where
  "tuple_row i u r ob s w \<equiv>
     \<lparr>tr_id = i, tr_user = u, tr_relation = r, tr_object = ob, tr_source = s, tr_writtenAt = w\<rparr>"

definition ACME_TUPLE_TOTAL :: nat where
  "ACME_TUPLE_TOTAL = 1284"

definition acmeTuples :: "Tuple list" where
  "acmeTuples =
     [tuple_row ''t-0001'' ''user:raj'' ''editor'' ''folder:finance'' (Spec_source 6) ''2026-08-30T09:12:00Z'',
      tuple_row ''t-0002'' ''user:raj'' ''viewer'' ''folder:ops'' Api_source ''2026-09-01T14:40:00Z'',
      tuple_row ''t-0003'' ''user:mira'' ''viewer'' ''folder:finance'' Api_source ''2026-09-02T08:05:00Z'',
      tuple_row ''t-0004'' ''folder:finance'' ''parent'' ''document:budget-2026'' (Spec_source 5) ''2026-08-21T10:00:00Z'',
      tuple_row ''t-0005'' ''user:ext-audit'' ''admin'' ''tenant:acme-air'' Drift_source ''2026-09-03T22:17:00Z'',
      tuple_row ''t-0006'' ''user:dana'' ''editor'' ''folder:finance'' (Spec_source 8) ''2026-09-02T16:30:00Z'',
      tuple_row ''t-0007'' ''user:raj'' ''owner'' ''folder:finance'' (Spec_source 6) ''2026-08-30T09:12:00Z'',
      tuple_row ''t-0008'' ''user:mira'' ''editor'' ''folder:ops'' (Spec_source 6) ''2026-08-30T09:12:00Z'',
      tuple_row ''t-0009'' ''folder:ops'' ''parent'' ''document:runbook-q3'' (Spec_source 5) ''2026-08-21T10:00:00Z'',
      tuple_row ''t-0010'' ''user:dana'' ''viewer'' ''document:budget-2026'' Api_source ''2026-09-03T11:25:00Z'',
      tuple_row ''t-0011'' ''user:lee'' ''viewer'' ''folder:finance'' Api_source ''2026-09-04T07:48:00Z'',
      tuple_row ''t-0012'' ''user:sam'' ''owner'' ''folder:ops'' (Spec_source 6) ''2026-08-30T09:12:00Z'']"

definition genericTuples :: "string \<Rightarrow> nat \<Rightarrow> Tuple list" where
  "genericTuples slug generation =
     [tuple_row ''g-0001'' ''user:raj'' ''admin'' (''project:'' @ slug @ ''-core'') (Spec_source generation) ''2026-08-12T09:00:00Z'',
      tuple_row ''g-0002'' ''user:mira'' ''editor'' (''project:'' @ slug @ ''-core'') (Spec_source generation) ''2026-08-12T09:00:00Z'',
      tuple_row ''g-0003'' ''user:dana'' ''viewer'' (''project:'' @ slug @ ''-core'') Api_source ''2026-09-01T12:30:00Z'',
      tuple_row ''g-0004'' ''user:lee'' ''commenter'' (''project:'' @ slug @ ''-docs'') Api_source ''2026-09-02T15:10:00Z'']"

text \<open>
  \<^verbatim>\<open>CACHED_DECISIONS[slug] ?? DEFAULT_CACHED_DECISIONS\<close>. The object has one own key; the only
  inherited key that is a possible slug is \<open>constructor\<close>, whose value is a function.
\<close>

definition CACHED_DECISIONS :: "string \<Rightarrow> nat option" where
  "CACHED_DECISIONS slug =
     (if slug = ''acme-air'' then Some 41 else if slug = ''constructor'' then None else Some 12)"

section \<open>The store\<close>

record RelStore =
  so_items :: "Tuple list"
  so_total :: int
  so_seq :: nat
  so_modelDsl :: string
  so_modelVersion :: nat
  so_cachedDecisions :: "nat option"

type_synonym rel_stores = "(string, RelStore) jsmap"

definition rel_seed :: "tenants \<Rightarrow> string \<Rightarrow> RelStore option" where
  "rel_seed T slug =
     (case tenant_of T slug of
        None \<Rightarrow> None
      | Some tenant \<Rightarrow> Some
          (if slug = ''acme-air''
           then \<lparr>so_items = acmeTuples, so_total = int ACME_TUPLE_TOTAL, so_seq = 13, so_modelDsl = ACME_LIVE_DSL_V6,
                 so_modelVersion = td_modelVersion tenant, so_cachedDecisions = CACHED_DECISIONS slug\<rparr>
           else \<lparr>so_items = genericTuples slug
                   (if ts_observedGeneration tenant = 0 then ts_generation tenant else ts_observedGeneration tenant),
                 so_total = int (td_tupleCount tenant), so_seq = 5, so_modelDsl = GENERIC_DSL,
                 so_modelVersion = max 1 (td_modelVersion tenant), so_cachedDecisions = CACHED_DECISIONS slug\<rparr>))"

definition storeFor :: "tenants \<Rightarrow> rel_stores \<Rightarrow> string \<Rightarrow> rel_stores \<times> RelStore option" where
  "storeFor T stores slug =
     (case map_get stores slug of
        Some cached \<Rightarrow> (stores, Some cached)
      | None \<Rightarrow>
          (case rel_seed T slug of
             None \<Rightarrow> (stores, None)
           | Some store \<Rightarrow> (map_set stores slug store, Some store)))"

text \<open>\<^verbatim>\<open>matches\<close>: exact, or a prefix when the pattern ends in a star; no pattern matches everything.\<close>

definition matches :: "string \<Rightarrow> string option \<Rightarrow> bool" where
  "matches v pattern \<longleftrightarrow>
     (if \<not> truthy pattern then True
      else if endsWith (the pattern) ''*'' then startsWith v (butlast (the pattern))
      else v = the pattern)"

definition tuple_matches :: "RelationsFilter \<Rightarrow> Tuple \<Rightarrow> bool" where
  "tuple_matches f t \<longleftrightarrow>
     matches (tr_user t) (rf_user f) \<and> matches (tr_relation t) (rf_relation f) \<and> matches (tr_object t) (rf_object f)"

definition listRelations ::
  "tenants \<Rightarrow> rel_stores \<Rightarrow> string \<Rightarrow> RelationsFilter \<Rightarrow> string option \<Rightarrow> nat \<Rightarrow> rel_stores \<times> RelationsPage option throws" where
  "listRelations T stores slug f cursor limit =
     (case storeFor T stores slug of
        (stores', None) \<Rightarrow> (stores', Inr None)
      | (stores', Some store) \<Rightarrow>
          (let filtered = filter (tuple_matches f) (so_items store);
               (items, next) = offset_page filtered limit cursor;
               hasFilter = (truthy (rf_user f) \<or> truthy (rf_relation f) \<or> truthy (rf_object f))
           in (stores', map_sum id Some (parse_with RelationsPageSchema_ok
                \<lparr>rp_items = items, rp_nextCursor = next,
                 rp_total = (if hasFilter then int (length filtered) else so_total store),
                 rp_modelVersion = so_modelVersion store, rp_cachedDecisions = so_cachedDecisions store\<rparr>))))"

definition tupleKey :: "TupleInput \<Rightarrow> string" where
  "tupleKey t = ti_user t @ '' '' @ ti_relation t @ '' '' @ ti_object t"

definition input_of :: "Tuple \<Rightarrow> TupleInput" where
  "input_of t = \<lparr>ti_user = tr_user t, ti_relation = tr_relation t, ti_object = tr_object t\<rparr>"

definition sameTuple :: "TupleInput \<Rightarrow> TupleInput \<Rightarrow> bool" where
  "sameTuple a b \<longleftrightarrow> ti_user a = ti_user b \<and> ti_relation a = ti_relation b \<and> ti_object a = ti_object b"

definition reserved :: "TupleInput \<Rightarrow> bool" where
  "reserved t \<longleftrightarrow> startsWith (ti_object t) ''platform:'' \<or> startsWith (ti_user t) ''platform:''"

text \<open>\<^verbatim>\<open>w.object.split(":")[0]\<close>, the type a written tuple is checked against.\<close>

definition object_type :: "TupleInput \<Rightarrow> string" where
  "object_type w = takeWhile (\<lambda>c. c \<noteq> CHR '':'') (ti_object w)"

definition in_model :: "ParsedModel \<Rightarrow> TupleInput \<Rightarrow> bool" where
  "in_model model w \<longleftrightarrow>
     (case List.find (\<lambda>t. ty_name t = object_type w) (pm_types model) of
        None \<Rightarrow> False
      | Some ty \<Rightarrow> list_ex (\<lambda>r. rd_name r = ti_relation w) (ty_relations ty))"

definition write_failure :: "RelStore \<Rightarrow> WriteRequest \<Rightarrow> failure option" where
  "write_failure store req =
     (case List.find reserved (wr_writes req @ wr_deletes req) of
        Some t \<Rightarrow> Some \<lparr>f_status = 400, f_title = ''Reserved namespace'',
                     f_detail = Some (''platform:* is reserved for the control plane'' @ middot @ tupleKey t @ '' rejected'')\<rparr>
      | None \<Rightarrow>
          (case List.find (\<lambda>w. \<not> in_model (parseModel (so_modelDsl store)) w) (wr_writes req) of
             Some w \<Rightarrow> Some \<lparr>f_status = 400, f_title = ''Relation not in model'',
                          f_detail = Some (ti_relation w @ '' is not defined on '' @ object_type w @ '' in model v''
                            @ show_nat (so_modelVersion store) @ middot @ tupleKey w @ '' rejected'')\<rparr>
           | None \<Rightarrow> None))"

text \<open>One pass of the write loop: a tuple that is already stored is skipped.\<close>

definition write_one :: "instant \<Rightarrow> TupleInput \<Rightarrow> RelStore \<times> nat \<Rightarrow> RelStore \<times> nat" where
  "write_one now w st =
     (let (store, written) = st
      in if list_ex (\<lambda>e. sameTuple (input_of e) w) (so_items store) then st
         else (store\<lparr>so_seq := so_seq store + 1,
                 so_items := so_items store @
                   [tuple_row (''t-'' @ pad 4 (so_seq store)) (ti_user w) (ti_relation w) (ti_object w) Api_source (toISOString now)]\<rparr>,
               written + 1))"

definition is_deleted :: "WriteRequest \<Rightarrow> Tuple \<Rightarrow> bool" where
  "is_deleted req e \<longleftrightarrow> list_ex (\<lambda>d. sameTuple d (input_of e)) (wr_deletes req)"

definition apply_batch :: "WriteRequest \<Rightarrow> instant \<Rightarrow> RelStore \<Rightarrow> RelStore \<times> nat \<times> nat" where
  "apply_batch req now store =
     (let deleted = length (filter (is_deleted req) (so_items store));
          store1 = store\<lparr>so_items := filter (\<lambda>e. \<not> is_deleted req e) (so_items store)\<rparr>;
          (store2, written) = fold (write_one now) (wr_writes req) (store1, 0)
      in (store2\<lparr>so_total := so_total store2 + int written - int deleted\<rparr>, written, deleted))"

definition writeRelations :: "tenants \<Rightarrow> rel_stores \<Rightarrow> string \<Rightarrow> WriteRequest \<Rightarrow> instant \<Rightarrow> rel_stores \<times> WriteResult result throws" where
  "writeRelations T stores slug req now =
     (case storeFor T stores slug of
        (stores', None) \<Rightarrow> (stores', Inr (Inl not_found))
      | (stores', Some store) \<Rightarrow>
          (case write_failure store req of
             Some e \<Rightarrow> (stores', Inr (Inl e))
           | None \<Rightarrow>
               (let (store', written, deleted) = apply_batch req now store
                in (map_set stores' slug store',
                    map_sum id Inr (parse_with WriteResultSchema_ok
                      \<lparr>ws_written = written, ws_deleted = deleted, ws_invalidatedDecisions = so_cachedDecisions store',
                       ws_modelVersion = so_modelVersion store'\<rparr>)))))"

definition resetRelationsStore :: "rel_stores \<Rightarrow> rel_stores" where
  "resetRelationsStore stores = []"

section \<open>Effect of a batch\<close>

interpretation rels: lazy_store "storeFor T" map_get "rel_seed T" for T
  by unfold_locales (auto simp: storeFor_def split: option.splits)

lemma sameTuple_eq [simp]: "sameTuple a b \<longleftrightarrow> a = b"
  by (auto simp: sameTuple_def)

definition keys_of :: "RelStore \<Rightarrow> TupleInput set" where
  "keys_of s = input_of ` set (so_items s)"

lemma is_deleted_iff: "is_deleted req e \<longleftrightarrow> input_of e \<in> set (wr_deletes req)"
  by (auto simp: is_deleted_def list_ex_iff)

lemma present_iff: "list_ex (\<lambda>e. sameTuple (input_of e) w) (so_items s) \<longleftrightarrow> w \<in> keys_of s"
  by (auto simp: list_ex_iff keys_of_def)

definition rel_frame :: "RelStore \<Rightarrow> RelStore \<Rightarrow> bool" where
  "rel_frame s s' \<longleftrightarrow>
     so_modelDsl s' = so_modelDsl s \<and> so_modelVersion s' = so_modelVersion s \<and> so_cachedDecisions s' = so_cachedDecisions s"

lemma write_one_present: "w \<in> keys_of s \<Longrightarrow> write_one now w (s, n) = (s, n)"
  by (simp add: write_one_def present_iff del: sameTuple_eq)

lemma write_one_absent:
  assumes "w \<notin> keys_of s"
  shows "\<exists>e. write_one now w (s, n) = (s\<lparr>so_seq := so_seq s + 1, so_items := so_items s @ [e]\<rparr>, n + 1)
    \<and> input_of e = w \<and> tr_id e = ''t-'' @ pad 4 (so_seq s) \<and> tr_source e = Api_source"
proof -
  let ?e = "tuple_row (''t-'' @ pad 4 (so_seq s)) (ti_user w) (ti_relation w) (ti_object w) Api_source (toISOString now)"
  have "write_one now w (s, n) = (s\<lparr>so_seq := so_seq s + 1, so_items := so_items s @ [?e]\<rparr>, n + 1)"
    using assms by (simp add: write_one_def present_iff del: sameTuple_eq)
  moreover have "input_of ?e = w" by (simp add: input_of_def)
  ultimately show ?thesis by (intro exI [of _ ?e]) simp
qed

lemma write_fold:
  "fold (write_one now) ws (s, n) = (s', n') \<Longrightarrow>
     keys_of s' = keys_of s \<union> set ws \<and> so_total s' = so_total s \<and> rel_frame s s'
     \<and> length (so_items s') = length (so_items s) + (n' - n) \<and> n \<le> n'"
proof (induction ws arbitrary: s n)
  case Nil
  then show ?case by (simp add: rel_frame_def)
next
  case (Cons w ws)
  show ?case
  proof (cases "w \<in> keys_of s")
    case True
    with Cons.prems have "fold (write_one now) ws (s, n) = (s', n')" by (simp add: write_one_present)
    from Cons.IH [OF this] True show ?thesis by auto
  next
    case False
    then obtain e where e: "write_one now w (s, n) = (s\<lparr>so_seq := so_seq s + 1, so_items := so_items s @ [e]\<rparr>, n + 1)"
        "input_of e = w" using write_one_absent by blast
    let ?s1 = "s\<lparr>so_seq := so_seq s + 1, so_items := so_items s @ [e]\<rparr>"
    have "fold (write_one now) ws (?s1, n + 1) = (s', n')" using Cons.prems e(1) by simp
    from Cons.IH [OF this] e(2) show ?thesis by (auto simp: rel_frame_def keys_of_def)
  qed
qed

lemma apply_batch_effect:
  assumes "apply_batch req now s = (s', written, deleted)"
  shows "keys_of s' = (keys_of s - set (wr_deletes req)) \<union> set (wr_writes req)"
    and "so_total s' - so_total s = int (length (so_items s')) - int (length (so_items s))"
    and "so_total s' = so_total s + int written - int deleted"
    and "rel_frame s s'"
proof -
  let ?s1 = "s\<lparr>so_items := filter (\<lambda>e. \<not> is_deleted req e) (so_items s)\<rparr>"
  obtain s2 n where f: "fold (write_one now) (wr_writes req) (?s1, 0) = (s2, n)" by fastforce
  with assms have out: "s' = s2\<lparr>so_total := so_total s2 + int written - int deleted\<rparr>" "written = n"
      "deleted = length (filter (is_deleted req) (so_items s))"
    by (auto simp: apply_batch_def Let_def)
  note w = write_fold [OF f]
  have k1: "keys_of ?s1 = keys_of s - set (wr_deletes req)" by (auto simp: keys_of_def is_deleted_iff)
  have "length (so_items s) = length (filter (is_deleted req) (so_items s)) + length (filter (\<lambda>e. \<not> is_deleted req e) (so_items s))"
    by (rule sum_length_filter_compl [symmetric])
  then show "so_total s' - so_total s = int (length (so_items s')) - int (length (so_items s))" using w out by simp
  show "keys_of s' = (keys_of s - set (wr_deletes req)) \<union> set (wr_writes req)" using w out(1) k1 by (simp add: keys_of_def)
  show "so_total s' = so_total s + int written - int deleted" using w out by simp
  show "rel_frame s s'" using w out(1) by (simp add: rel_frame_def)
qed

section \<open>The invariant\<close>

definition id_ok :: "nat \<Rightarrow> string \<Rightarrow> bool" where
  "id_ok seq i \<longleftrightarrow> (\<exists>k < seq. i = ''t-'' @ pad 4 k \<or> i = ''g-'' @ pad 4 k)"

definition items_ok :: "RelStore \<Rightarrow> bool" where
  "items_ok s \<longleftrightarrow>
     distinct (map input_of (so_items s)) \<and> distinct (map tr_id (so_items s))
     \<and> (\<forall>e \<in> set (so_items s). id_ok (so_seq s) (tr_id e) \<and> \<not> reserved (input_of e) \<and> TupleSchema_ok e)"

definition rel_ok :: "string \<Rightarrow> RelStore \<Rightarrow> bool" where
  "rel_ok slug s \<longleftrightarrow>
     items_ok s \<and> 0 < so_modelVersion s
     \<and> (findTenant slug \<noteq> None \<longrightarrow> int (length (so_items s)) \<le> so_total s \<and> so_cachedDecisions s \<noteq> None)"

definition rels_wf :: "rel_stores \<Rightarrow> bool" where
  "rels_wf stores \<longleftrightarrow> (\<forall>slug s. map_get stores slug = Some s \<longrightarrow> rel_ok slug s)"

lemma pad_inject [simp]: "pad w m = pad w n \<longleftrightarrow> m = n"
  by (metis read_nat_pad)

lemma id_ok_fresh: "id_ok seq i \<Longrightarrow> i \<noteq> ''t-'' @ pad 4 seq"
  by (auto simp: id_ok_def)

lemma items_ok_write:
  assumes "items_ok s" "\<not> reserved w"
  shows "items_ok (fst (write_one now w (s, n)))"
proof (cases "w \<in> keys_of s")
  case True
  then show ?thesis using assms by (simp add: write_one_present)
next
  case False
  then obtain e where e: "write_one now w (s, n) = (s\<lparr>so_seq := so_seq s + 1, so_items := so_items s @ [e]\<rparr>, n + 1)"
      "input_of e = w" "tr_id e = ''t-'' @ pad 4 (so_seq s)" "tr_source e = Api_source" using write_one_absent by blast
  have "tr_id e \<notin> tr_id ` set (so_items s)" using assms(1) id_ok_fresh e(3) by (fastforce simp: items_ok_def)
  moreover have "id_ok (Suc (so_seq s)) i" if "id_ok (so_seq s) i" for i using that by (auto simp: id_ok_def less_Suc_eq)
  moreover have "id_ok (Suc (so_seq s)) (tr_id e)" using e(3) by (auto simp: id_ok_def)
  ultimately show ?thesis using assms e False by (auto simp: items_ok_def keys_of_def TupleSchema_ok_def)
qed

lemma items_ok_fold:
  "items_ok s \<Longrightarrow> \<forall>w \<in> set ws. \<not> reserved w \<Longrightarrow> items_ok (fst (fold (write_one now) ws (s, n)))"
proof (induction ws arbitrary: s n)
  case (Cons w ws)
  obtain s1 n1 where "write_one now w (s, n) = (s1, n1)" by fastforce
  moreover from this have "items_ok s1" using items_ok_write [of s w now n] Cons.prems by simp
  ultimately show ?case using Cons by simp
qed simp

lemma items_ok_batch:
  assumes "items_ok s" "\<forall>w \<in> set (wr_writes req). \<not> reserved w" "apply_batch req now s = (s', written, deleted)"
  shows "items_ok s'"
proof -
  let ?s1 = "s\<lparr>so_items := filter (\<lambda>e. \<not> is_deleted req e) (so_items s)\<rparr>"
  have "items_ok ?s1" using assms(1) by (auto simp: items_ok_def distinct_map_filter)
  from items_ok_fold [OF this assms(2), of now 0] assms(3) show ?thesis
    by (auto simp: apply_batch_def Let_def case_prod_unfold items_ok_def)
qed

lemma acmeTuples_ok: "items_ok \<lparr>so_items = acmeTuples, so_total = a, so_seq = 13, so_modelDsl = b, so_modelVersion = c, so_cachedDecisions = d\<rparr>"
proof -
  have ids: "map tr_id acmeTuples = map (\<lambda>k. ''t-'' @ pad 4 k) [1..<13]" by code_simp
  have 1: "distinct (map tr_id acmeTuples)" unfolding ids by (simp add: distinct_map inj_on_def)
  have 2: "distinct (map input_of acmeTuples)" by (simp add: acmeTuples_def input_of_def)
  have "list_all (\<lambda>e. \<not> reserved (input_of e) \<and> TupleSchema_ok e) acmeTuples" by code_simp
  then have 3: "\<forall>e \<in> set acmeTuples. \<not> reserved (input_of e) \<and> TupleSchema_ok e" by (simp add: list_all_iff)
  have "tr_id e \<in> set (map (\<lambda>k. ''t-'' @ pad 4 k) [1..<13])" if "e \<in> set acmeTuples" for e
    unfolding ids [symmetric] using that by simp
  then have "\<forall>e \<in> set acmeTuples. id_ok 13 (tr_id e)" unfolding id_ok_def by fastforce
  with 1 2 3 show ?thesis by (simp add: items_ok_def)
qed

lemma genericTuples_ok:
  assumes "0 < g"
  shows "items_ok \<lparr>so_items = genericTuples slug g, so_total = a, so_seq = 5, so_modelDsl = b, so_modelVersion = c, so_cachedDecisions = d\<rparr>"
proof -
  have ids: "map tr_id (genericTuples slug g) = map (\<lambda>k. ''g-'' @ pad 4 k) [1..<5]"
  proof -
    have "map (\<lambda>k. ''g-'' @ pad 4 k) [1..<5] = [''g-0001'', ''g-0002'', ''g-0003'', ''g-0004'']" by code_simp
    then show ?thesis by (simp add: genericTuples_def)
  qed
  have 1: "distinct (map tr_id (genericTuples slug g))" unfolding ids by (simp add: distinct_map inj_on_def)
  have 2: "distinct (map input_of (genericTuples slug g))" by (simp add: genericTuples_def input_of_def)
  have 3: "\<forall>e \<in> set (genericTuples slug g). \<not> reserved (input_of e) \<and> TupleSchema_ok e"
    using assms by (simp add: genericTuples_def input_of_def reserved_def startsWith_def TupleSchema_ok_def)
  have "tr_id e \<in> set (map (\<lambda>k. ''g-'' @ pad 4 k) [1..<5])" if "e \<in> set (genericTuples slug g)" for e
    unfolding ids [symmetric] using that by simp
  then have "\<forall>e \<in> set (genericTuples slug g). id_ok 5 (tr_id e)" unfolding id_ok_def by fastforce
  with 1 2 3 show ?thesis by (simp add: items_ok_def)
qed

lemma tenantDetailFor_counts:
  "4 \<le> td_tupleCount (tenantDetailFor s)" "ts_slug s = ''acme-air'' \<Longrightarrow> td_modelVersion (tenantDetailFor s) = 6"
  by (simp_all add: tenantDetailFor_def TenantSummary.defs TenantDetail.defs)

lemma rel_seed_ok:
  assumes "tenants_wf T" "rel_seed T slug = Some s"
  shows "rel_ok slug s"
proof -
  from assms(2) obtain t where t: "tenant_of T slug = Some t" by (auto simp: rel_seed_def split: option.splits)
  have gen: "0 < (if ts_observedGeneration t = 0 then ts_generation t else ts_observedGeneration t)"
    using tenant_of_ok [OF assms(1) t] by (simp add: TenantDetailSchema_ok_def TenantSummarySchema_ok_def)
  have fx: "\<exists>u. findTenant slug = Some u \<and> t = tenantDetailFor u \<and> ts_slug u = slug" if "findTenant slug \<noteq> None"
    using that t tenant_of_fixture [OF assms(1) that]
    by (auto simp: tenantDetailFixture_def findTenant_def dest: find_SomeD)
  have con: "findTenant ''constructor'' = None" unfolding findTenant_None TENANTS_slugs by simp
  show ?thesis
  proof (cases "slug = ''acme-air''")
    case True
    have "findTenant slug \<noteq> None" unfolding True findTenant_None TENANTS_slugs by simp
    with fx True have "td_modelVersion t = 6" using tenantDetailFor_counts(2) by blast
    then show ?thesis using assms(2) t True acmeTuples_ok
      by (auto simp: rel_seed_def rel_ok_def CACHED_DECISIONS_def ACME_TUPLE_TOTAL_def acmeTuples_def)
  next
    case False
    have "findTenant slug \<noteq> None \<Longrightarrow> 4 \<le> td_tupleCount t" using fx tenantDetailFor_counts(1) by blast
    then show ?thesis using assms(2) t False genericTuples_ok [OF gen] con
      by (auto simp: rel_seed_def rel_ok_def CACHED_DECISIONS_def genericTuples_def)
  qed
qed

lemma storeFor_ok:
  assumes "tenants_wf T" "rels_wf stores" "storeFor T stores slug = (stores', r)"
  shows "rels_wf stores'" and "\<And>s. r = Some s \<Longrightarrow> rel_ok slug s"
  using assms rel_seed_ok [OF assms(1)] by (auto simp: storeFor_def rels_wf_def split: option.splits if_splits)

lemma write_failure_None:
  "write_failure s req = None \<Longrightarrow> (\<forall>w \<in> set (wr_writes req) \<union> set (wr_deletes req). \<not> reserved w)
    \<and> (\<forall>w \<in> set (wr_writes req). in_model (parseModel (so_modelDsl s)) w)"
  by (auto simp: write_failure_def find_eq_None split: option.splits)

lemma rel_ok_batch:
  assumes "rel_ok slug s" "write_failure s req = None" "apply_batch req now s = (s', written, deleted)"
  shows "rel_ok slug s'"
proof -
  have "items_ok s'" by (rule items_ok_batch [OF _ _ assms(3)]) (use assms(1) write_failure_None [OF assms(2)] in \<open>auto simp: rel_ok_def\<close>)
  with assms(1) apply_batch_effect(2,4) [OF assms(3)] show ?thesis by (auto simp: rel_ok_def rel_frame_def)
qed

lemma writeRelations_wf:
  assumes "tenants_wf T" "rels_wf stores"
  shows "rels_wf (fst (writeRelations T stores slug req now))"
proof -
  obtain stores1 r where st: "storeFor T stores slug = (stores1, r)" by fastforce
  note ok = storeFor_ok [OF assms st]
  show ?thesis
  proof (cases r)
    case None
    then show ?thesis using st ok(1) by (simp add: writeRelations_def)
  next
    case (Some s)
    obtain s' w d where b: "apply_batch req now s = (s', w, d)" using prod_cases3 by blast
    show ?thesis
    proof (cases "write_failure s req")
      case None
      have "rel_ok slug s'" by (rule rel_ok_batch [OF ok(2) [OF Some] None b])
      then show ?thesis using st Some None b ok(1) by (auto simp: writeRelations_def Let_def rels_wf_def)
    qed (use st Some ok(1) in \<open>simp add: writeRelations_def\<close>)
  qed
qed

text \<open>Runs of the component, for a fixed set of tenants.\<close>

datatype rel_op = List_op string | Write_op string WriteRequest instant

fun rel_step :: "tenants \<Rightarrow> rel_stores \<Rightarrow> rel_op \<Rightarrow> rel_stores" where
  "rel_step T stores (List_op slug) = fst (storeFor T stores slug)"
| "rel_step T stores (Write_op slug req now) = fst (writeRelations T stores slug req now)"

definition relations_after :: "(CreateTenantInput \<times> instant) list \<Rightarrow> rel_op list \<Rightarrow> rel_stores" where
  "relations_after rs ops = run (rel_step (tenants_after rs)) [] ops"

interpretation relations_runs: transition_system "rel_step (tenants_after rs)" rels_wf for rs
proof
  fix stores x
  assume "rels_wf stores"
  then show "rels_wf (rel_step (tenants_after rs) stores x)"
    by (cases x) (auto intro: writeRelations_wf storeFor_ok(1) [OF tenants_after_wf _ surjective_pairing])
qed

lemma relations_after_wf: "rels_wf (relations_after rs ops)"
  unfolding relations_after_def by (rule relations_runs.run_inv) (simp add: rels_wf_def)

section \<open>Listing\<close>

text \<open>One page as the client loop sees it.\<close>

definition relation_page :: "tenants \<Rightarrow> rel_stores \<Rightarrow> string \<Rightarrow> RelationsFilter \<Rightarrow> nat \<Rightarrow> string option \<Rightarrow> Tuple list \<times> string option" where
  "relation_page T stores slug f limit cur =
     (case snd (listRelations T stores slug f cur limit) of
        Inr (Some p) \<Rightarrow> (rp_items p, rp_nextCursor p) | _ \<Rightarrow> ([], None))"

definition relation_rows :: "tenants \<Rightarrow> rel_stores \<Rightarrow> string \<Rightarrow> RelationsFilter \<Rightarrow> Tuple list" where
  "relation_rows T stores slug f =
     (case snd (storeFor T stores slug) of None \<Rightarrow> [] | Some s \<Rightarrow> filter (tuple_matches f) (so_items s))"

lemma set_offset_page: "set (fst (offset_page xs limit cur)) \<subseteq> set xs"
  unfolding offset_page_def Let_def fst_conv by (rule set_slice)

lemma canonical_seeded:
  assumes "tenants_wf T" "findTenant slug \<noteq> None"
  shows "\<exists>s. snd (storeFor T stores slug) = Some s"
  using assms tenant_of_fixture [OF assms] by (auto simp: storeFor_def rel_seed_def tenantDetailFixture_def split: option.splits)

lemma listRelations_canonical:
  assumes "tenants_wf T" "rels_wf stores" "findTenant slug \<noteq> None"
  shows "\<exists>p. snd (listRelations T stores slug f cur limit) = Inr (Some p)
    \<and> (rp_items p, rp_nextCursor p) = offset_page (relation_rows T stores slug f) limit cur"
proof -
  obtain stores1 s where st: "storeFor T stores slug = (stores1, Some s)"
    using canonical_seeded [OF assms(1,3)] by (metis prod.collapse)
  have ok: "rel_ok slug s" using storeFor_ok(2) [OF assms(1,2) st] by simp
  let ?rows = "filter (tuple_matches f) (so_items s)"
  obtain items nx where pg: "offset_page ?rows limit cur = (items, nx)" by fastforce
  then have "set items \<subseteq> set (so_items s)" using set_offset_page [of ?rows limit cur] by auto
  then have "list_all TupleSchema_ok items" using ok by (auto simp: rel_ok_def items_ok_def list_all_iff)
  then show ?thesis using st pg ok assms(3)
    by (auto simp: listRelations_def relation_rows_def rel_ok_def RelationsPageSchema_ok_def)
qed

lemma relation_page_canonical:
  assumes "tenants_wf T" "rels_wf stores" "findTenant slug \<noteq> None"
  shows "relation_page T stores slug f limit cur = offset_page (relation_rows T stores slug f) limit cur"
  using listRelations_canonical [OF assms, of f cur limit] by (auto simp: relation_page_def)

lemma relation_pager:
  assumes "tenants_wf T" "rels_wf stores" "findTenant slug \<noteq> None" "0 < limit"
  shows "offset_pager (relation_page T stores slug f limit) (relation_rows T stores slug f) limit"
  using assms(4) by unfold_locales (simp_all add: relation_page_canonical [OF assms(1-3)])

lemma findTenant_acme: "findTenant ''acme-air'' \<noteq> None"
  unfolding findTenant_None TENANTS_slugs by simp

interpretation relation_pages: offset_pager
  "relation_page (tenants_after rs) (relations_after rs ops) ''acme-air'' f (Suc n)"
  "relation_rows (tenants_after rs) (relations_after rs ops) ''acme-air'' f" "Suc n" for rs ops f n
  by (rule relation_pager) (simp_all add: relations_after_wf findTenant_acme)

section \<open>Properties\<close>

text \<open>
  A refused batch is atomic. If writeRelations answers with a failure, no tenant's tuples,
  totals or counters change.
\<close>

theorem writeRelations_atomic:
  assumes "writeRelations T stores slug req now = (stores', Inr (Inl e))"
  shows "snd (storeFor T stores' k) = snd (storeFor T stores k)"
proof -
  have "stores' = fst (storeFor T stores slug)"
    using assms by (auto simp: writeRelations_def Let_def parse_with_def split: option.splits prod.splits if_splits)
  then show ?thesis by (simp add: rels.snd_acquire rels.view_acquire)
qed

text \<open>
  C11: an accepted batch does exactly what it says. Afterwards the stored tuples of the tenant are
  the old ones without the deletes, plus the writes; the reported total moves by the change in
  the number of rows; written relations are in the tenant's live model and outside the reserved
  namespace; other tenants are untouched.
\<close>

theorem writeRelations_post:
  assumes "storeFor T stores slug = (stores1, Some s)"
    and "writeRelations T stores slug req now = (stores', Inr (Inr r))"
  shows "\<exists>s'. storeFor T stores' slug = (stores', Some s')
    \<and> keys_of s' = (keys_of s - set (wr_deletes req)) \<union> set (wr_writes req)
    \<and> so_total s' = so_total s + int (ws_written r) - int (ws_deleted r)
    \<and> so_total s' - so_total s = int (length (so_items s')) - int (length (so_items s))
    \<and> list_all (\<lambda>w. in_model (parseModel (so_modelDsl s)) w \<and> \<not> reserved w) (wr_writes req)
    \<and> (\<forall>k. k \<noteq> slug \<longrightarrow> snd (storeFor T stores' k) = snd (storeFor T stores k))"
proof -
  obtain s' w d where b: "apply_batch req now s = (s', w, d)" using prod_cases3 by blast
  have nf: "write_failure s req = None"
    using assms by (auto simp: writeRelations_def split: option.splits)
  then have out: "stores' = map_set stores1 slug s'" "ws_written r = w" "ws_deleted r = d"
    using assms b by (auto simp: writeRelations_def Let_def parse_with_def split: if_splits)
  have "snd (storeFor T stores' k) = snd (storeFor T stores k)" if "k \<noteq> slug" for k
  proof -
    have "map_get stores' k = map_get stores1 k" using out(1) that by simp
    then have "snd (storeFor T stores' k) = snd (storeFor T stores1 k)" by (auto simp: storeFor_def split: option.splits)
    moreover have "stores1 = fst (storeFor T stores slug)" using assms(1) by simp
    ultimately show ?thesis by (simp add: rels.snd_acquire rels.view_acquire)
  qed
  moreover have "storeFor T stores' slug = (stores', Some s')" using out(1) by (simp add: storeFor_def)
  ultimately show ?thesis using apply_batch_effect(1-3) [OF b] out write_failure_None [OF nf]
    by (auto simp: list_all_iff)
qed

text \<open>
  Whatever tenants were created and whatever was listed and written, in every tenant's store
  no two rows have the same id, no two the same (user, relation, object), and no row is in the
  reserved platform namespace.
\<close>

theorem relations_reachable:
  assumes "snd (storeFor (tenants_after rs) (relations_after rs ops) slug) = Some s"
  shows "distinct (map tr_id (so_items s)) \<and> distinct (map input_of (so_items s))
    \<and> list_all (\<lambda>e. \<not> reserved (input_of e)) (so_items s)"
  using storeFor_ok(2) [OF tenants_after_wf [of rs] relations_after_wf [of rs ops] surjective_pairing assms]
  by (auto simp: rel_ok_def items_ok_def list_all_iff)

text \<open>
  Listing the tuples of a canonical tenant never throws, whatever was written before, and
  following the cursors ends and yields exactly the matching rows, in order, each once.
\<close>

theorem listRelations_complete:
  assumes "findTenant slug \<noteq> None" and "0 < limit"
  shows "(\<exists>p. snd (listRelations (tenants_after rs) (relations_after rs ops) slug f cur limit) = Inr (Some p))
    \<and> walk (Suc (length (relation_rows (tenants_after rs) (relations_after rs ops) slug f)))
        (relation_page (tenants_after rs) (relations_after rs ops) slug f limit) None
      = Some (relation_rows (tenants_after rs) (relations_after rs ops) slug f)"
proof -
  note wf = tenants_after_wf [of rs] relations_after_wf [of rs ops] assms(1)
  show ?thesis
    using listRelations_canonical [OF wf] offset_pager.pages_complete [OF relation_pager [OF wf assms(2)]] by blast
qed

lemma apply_batch_again:
  assumes "keys_of s \<inter> set (wr_deletes req) = {}" "set (wr_writes req) \<subseteq> keys_of s"
  shows "apply_batch req now s = (s, 0, 0)"
proof -
  have none: "\<not> is_deleted req e" if "e \<in> set (so_items s)" for e
    using assms(1) that by (auto simp: is_deleted_iff keys_of_def)
  then have del: "filter (is_deleted req) (so_items s) = []" "filter (\<lambda>e. \<not> is_deleted req e) (so_items s) = so_items s"
    by (simp_all add: filter_empty_conv filter_id_conv)
  have "fold (write_one now) ws (s, n) = (s, n)" if "set ws \<subseteq> keys_of s" for ws n
    using that by (induction ws) (simp_all add: write_one_present)
  then show ?thesis using del assms(2) by (simp add: apply_batch_def Let_def)
qed

lemma write_failure_frame: "rel_frame s s' \<Longrightarrow> write_failure s' req = write_failure s req"
  unfolding rel_frame_def by (elim conjE) (simp only: write_failure_def)

text \<open>
  Writes are idempotent. Sending an accepted batch again, when no tuple is both written and
  deleted in it, writes nothing, deletes nothing and leaves every store as it is.
\<close>

theorem writeRelations_idempotent:
  assumes "storeFor T stores slug = (stores1, Some s)"
    and "writeRelations T stores slug req now = (stores', Inr (Inr r))"
    and "set (wr_writes req) \<inter> set (wr_deletes req) = {}"
  shows "\<exists>r'. writeRelations T stores' slug req now' = (stores', Inr (Inr r')) \<and> ws_written r' = 0 \<and> ws_deleted r' = 0"
proof -
  obtain s' w d where b: "apply_batch req now s = (s', w, d)" using prod_cases3 by blast
  have nf: "write_failure s req = None" using assms by (auto simp: writeRelations_def split: option.splits)
  then have out: "stores' = map_set stores1 slug s'"
      "0 < so_modelVersion s'" "so_cachedDecisions s' \<noteq> None"
    using assms b by (auto simp: writeRelations_def Let_def parse_with_def WriteResultSchema_ok_def split: if_splits)
  note eff = apply_batch_effect [OF b]
  have "apply_batch req now' s' = (s', 0, 0)" by (rule apply_batch_again) (use eff(1) assms(3) in auto)
  moreover have "write_failure s' req = None" using nf unfolding write_failure_frame [OF eff(4)] .
  moreover have "storeFor T stores' slug = (stores', Some s')" using out(1) by (simp add: storeFor_def)
  ultimately show ?thesis using out by (simp add: writeRelations_def Let_def update_triv WriteResultSchema_ok_def)
qed

text \<open>
  The total of a console-created tenant goes negative. Such a tenant starts with four sample
  tuples but a total of 0; deleting one of them is accepted, and from then on the unfiltered
  listing of the tenant throws instead of answering.
\<close>

theorem created_tenant_total_negative:
  assumes "tenants_wf T" and "map_get T slug = Some c" and "slug \<noteq> ''constructor''"
    and "req = \<lparr>wr_writes = [], wr_deletes = [\<lparr>ti_user = ''user:raj'', ti_relation = ''admin'', ti_object = ''project:'' @ slug @ ''-core''\<rparr>]\<rparr>"
  shows "\<exists>stores r. writeRelations T [] slug req now = (stores, Inr (Inr r)) \<and> ws_deleted r = 1
    \<and> snd (listRelations T stores slug \<lparr>rf_user = None, rf_relation = None, rf_object = None\<rparr> None RELATIONS_PAGE_SIZE) = Inl ZodError"
proof -
  have na: "slug \<noteq> ''acme-air''" using created_okD [OF assms(1,2)] findTenant_acme by (auto simp: created_ok_def)
  let ?t = "pendingDetail c"
  let ?st = "\<lparr>so_items = genericTuples slug (if ts_observedGeneration ?t = 0 then ts_generation ?t else ts_observedGeneration ?t),
      so_total = 0, so_seq = 5, so_modelDsl = GENERIC_DSL, so_modelVersion = 1, so_cachedDecisions = Some 12\<rparr>"
  have st: "storeFor T [] slug = ([(slug, ?st)], Some ?st)"
    using assms(2,3) na by (simp add: storeFor_def rel_seed_def tenant_of_def CACHED_DECISIONS_def)
  have nf: "write_failure ?st req = None"
    by (simp add: write_failure_def assms(4) reserved_def startsWith_def)
  obtain s' w d where b: "apply_batch req now ?st = (s', w, d)" using prod_cases3 by blast
  have s': "d = 1" "w = 0" "so_total s' = -1" "so_modelVersion s' = 1" "so_cachedDecisions s' = Some 12"
    using b by (auto simp: apply_batch_def assms(4) genericTuples_def is_deleted_def input_of_def)
  then have "writeRelations T [] slug req now = ([(slug, s')], Inr (Inr \<lparr>ws_written = 0, ws_deleted = 1,
      ws_invalidatedDecisions = Some 12, ws_modelVersion = 1\<rparr>))"
    using st nf b by (simp add: writeRelations_def WriteResultSchema_ok_def)
  then show ?thesis using s'
    by (auto simp: listRelations_def storeFor_def truthy_def RelationsPageSchema_ok_def parse_with_def Let_def case_prod_unfold)
qed

section \<open>Requests on which the hypotheses hold\<close>

definition example_write :: TupleInput where
  "example_write = \<lparr>ti_user = ''user:zoe'', ti_relation = ''viewer'', ti_object = ''folder:ops''\<rparr>"

definition example_delete :: TupleInput where
  "example_delete = \<lparr>ti_user = ''user:raj'', ti_relation = ''viewer'', ti_object = ''folder:ops''\<rparr>"

definition example_batch :: WriteRequest where
  "example_batch = \<lparr>wr_writes = [example_write], wr_deletes = [example_delete]\<rparr>"

definition reserved_batch :: WriteRequest where
  "reserved_batch = \<lparr>wr_writes = [\<lparr>ti_user = ''user:raj'', ti_relation = ''admin'', ti_object = ''platform:root''\<rparr>], wr_deletes = []\<rparr>"

lemma acme_seed: "\<exists>s. storeFor [] [] ''acme-air'' = ([(''acme-air'', s)], Some s) \<and> so_modelDsl s = ACME_LIVE_DSL_V6
    \<and> so_modelVersion s = 6 \<and> so_cachedDecisions s = Some 41"
proof -
  obtain u where u: "findTenant ''acme-air'' = Some u" "ts_slug u = ''acme-air''"
    using findTenant_acme by (auto simp: findTenant_def dest: find_SomeD)
  then show ?thesis using tenantDetailFor_counts(2) [OF u(2)]
    by (simp add: storeFor_def rel_seed_def tenant_of_def tenantDetailFixture_def CACHED_DECISIONS_def)
qed

lemma example_in_model: "in_model (parseModel ACME_LIVE_DSL_V6) example_write"
  by code_simp

lemma example_batch_runs: "\<exists>stores r. writeRelations [] [] ''acme-air'' example_batch 0 = (stores, Inr (Inr r))"
proof -
  obtain s where s: "storeFor [] [] ''acme-air'' = ([(''acme-air'', s)], Some s)" "so_modelDsl s = ACME_LIVE_DSL_V6"
      "so_modelVersion s = 6" "so_cachedDecisions s = Some 41" using acme_seed by blast
  have "\<not> reserved example_write" "\<not> reserved example_delete" by (simp_all add: example_write_def example_delete_def reserved_def startsWith_def)
  then have nf: "write_failure s example_batch = None" using example_in_model s(2) by (simp add: write_failure_def example_batch_def)
  obtain s' w d where b: "apply_batch example_batch 0 s = (s', w, d)" using prod_cases3 by blast
  from apply_batch_effect(4) [OF b] s(1,3,4) nf b show ?thesis
    by (simp add: writeRelations_def rel_frame_def WriteResultSchema_ok_def)
qed

theorem writeRelations_atomic_witness:
  "\<exists>stores' e. writeRelations [] [] ''acme-air'' reserved_batch 0 = (stores', Inr (Inl e))
     \<and> snd (storeFor [] stores' ''acme-air'') = snd (storeFor [] [] ''acme-air'')"
proof -
  obtain s where s: "storeFor [] [] ''acme-air'' = ([(''acme-air'', s)], Some s)" using acme_seed by blast
  then have "\<exists>stores' e. writeRelations [] [] ''acme-air'' reserved_batch 0 = (stores', Inr (Inl e))"
    by (simp add: writeRelations_def write_failure_def reserved_batch_def reserved_def startsWith_def)
  then show ?thesis using writeRelations_atomic by blast
qed

theorem writeRelations_post_witness:
  "\<exists>stores' r s'. writeRelations [] [] ''acme-air'' example_batch 0 = (stores', Inr (Inr r))
     \<and> storeFor [] stores' ''acme-air'' = (stores', Some s') \<and> example_write \<in> keys_of s' \<and> example_delete \<notin> keys_of s'"
proof -
  obtain s where s: "storeFor [] [] ''acme-air'' = ([(''acme-air'', s)], Some s)" using acme_seed by blast
  obtain stores' r where r: "writeRelations [] [] ''acme-air'' example_batch 0 = (stores', Inr (Inr r))"
    using example_batch_runs by blast
  have "example_write \<noteq> example_delete" by (simp add: example_write_def example_delete_def)
  with writeRelations_post [OF s r] r show ?thesis by (auto simp: example_batch_def)
qed

theorem writeRelations_idempotent_witness:
  "\<exists>stores' r'. writeRelations [] stores' ''acme-air'' example_batch 1 = (stores', Inr (Inr r')) \<and> ws_written r' = 0"
proof -
  obtain s where s: "storeFor [] [] ''acme-air'' = ([(''acme-air'', s)], Some s)" using acme_seed by blast
  obtain stores' r where r: "writeRelations [] [] ''acme-air'' example_batch 0 = (stores', Inr (Inr r))"
    using example_batch_runs by blast
  have "set (wr_writes example_batch) \<inter> set (wr_deletes example_batch) = {}"
    by (simp add: example_batch_def example_write_def example_delete_def)
  from writeRelations_idempotent [OF s r this, of 1] show ?thesis by blast
qed

theorem relations_reachable_witness:
  "\<exists>s. snd (storeFor (tenants_after []) (relations_after [] []) ''acme-air'') = Some s
     \<and> distinct (map tr_id (so_items s))"
proof -
  have e: "tenants_after [] = []" "relations_after [] [] = []" by (simp_all add: tenants_after_def relations_after_def)
  obtain s where s: "snd (storeFor [] [] ''acme-air'') = Some s" using acme_seed by auto
  then have "snd (storeFor (tenants_after []) (relations_after [] []) ''acme-air'') = Some s" unfolding e .
  with relations_reachable [OF this] show ?thesis by blast
qed

theorem listRelations_complete_witness:
  "findTenant ''acme-air'' \<noteq> None
   \<and> walk (Suc (length (relation_rows (tenants_after []) (relations_after [] []) ''acme-air'' \<lparr>rf_user = None, rf_relation = None, rf_object = None\<rparr>)))
        (relation_page (tenants_after []) (relations_after [] []) ''acme-air'' \<lparr>rf_user = None, rf_relation = None, rf_object = None\<rparr> 6) None
      = Some (relation_rows (tenants_after []) (relations_after [] []) ''acme-air'' \<lparr>rf_user = None, rf_relation = None, rf_object = None\<rparr>)"
  using listRelations_complete [OF findTenant_acme, of 6] findTenant_acme by simp

theorem created_tenant_total_negative_witness:
  "\<exists>T stores. snd (listRelations T stores ''hooli-xyz'' \<lparr>rf_user = None, rf_relation = None, rf_object = None\<rparr> None RELATIONS_PAGE_SIZE) = Inl ZodError"
proof -
  obtain T' s where c: "createTenant [] example_input 0 = (T', Inr s)" using example_input_create by blast
  have wf: "tenants_wf T'" using createTenant_wf [OF tenants_wf_Nil, of example_input 0] c by simp
  have slug: "ci_slug example_input = ''hooli-xyz''" by (simp add: example_input_def)
  from c obtain ct where "map_get T' ''hooli-xyz'' = Some ct"
    by (rule createTenant_Inr) (use slug parse_slug in fastforce)
  from created_tenant_total_negative [OF wf this _ refl, of 0] show ?thesis by auto
qed

end
