(* ===== verification/Reconcile_Data.thy ===== *)
theory Reconcile_Data
  imports Tenants_Data Js_Date
begin

text \<open>
  Reconcile runs (\<^verbatim>\<open>features/reconcile\<close>): the wire shapes of \<^verbatim>\<open>schemas.ts\<close> with their checks, the pure
  helpers of \<^verbatim>\<open>lib.ts\<close>, the filter parser of \<^verbatim>\<open>filter.ts\<close> and the seeded runs of \<^verbatim>\<open>fixtures.ts\<close>.
  A ratio is kept as numerator and denominator. The URL check of a trace link is the part of
  the URL parser that an https link without port, query or fragment exercises.
\<close>

section \<open>Schemas\<close>

datatype Trigger = Outbox | Resync | Manual | Backoff | Delete

definition TRIGGERS :: "(string \<times> Trigger) list" where
  "TRIGGERS = [(''outbox'', Outbox), (''resync'', Resync), (''manual'', Manual), (''backoff'', Backoff), (''delete'', Delete)]"

fun trigger_str :: "Trigger \<Rightarrow> string" where
  "trigger_str Outbox = ''outbox''"
| "trigger_str Resync = ''resync''"
| "trigger_str Manual = ''manual''"
| "trigger_str Backoff = ''backoff''"
| "trigger_str Delete = ''delete''"

datatype Outcome = Partial | Drift | Applying_run | NoChanges | Failed_run | Applied | Deleting_run

definition OUTCOMES :: "(string \<times> Outcome) list" where
  "OUTCOMES = [(''Partial'', Partial), (''Drift'', Drift), (''Applying'', Applying_run), (''NoChanges'', NoChanges),
     (''Failed'', Failed_run), (''Applied'', Applied), (''Deleting'', Deleting_run)]"

fun outcome_str :: "Outcome \<Rightarrow> string" where
  "outcome_str Partial = ''Partial''"
| "outcome_str Drift = ''Drift''"
| "outcome_str Applying_run = ''Applying''"
| "outcome_str NoChanges = ''NoChanges''"
| "outcome_str Failed_run = ''Failed''"
| "outcome_str Applied = ''Applied''"
| "outcome_str Deleting_run = ''Deleting''"

fun OUTCOME_LABELS :: "Outcome \<Rightarrow> string" where
  "OUTCOME_LABELS Partial = ''PartiallyApplied''"
| "OUTCOME_LABELS Drift = ''Drift''"
| "OUTCOME_LABELS Applying_run = ''Applying''"
| "OUTCOME_LABELS NoChanges = ''NoChanges''"
| "OUTCOME_LABELS Failed_run = ''Failed''"
| "OUTCOME_LABELS Applied = ''Applied''"
| "OUTCOME_LABELS Deleting_run = ''Deleting''"

datatype ChangeOutcome = Ch_applied | Ch_failed | Ch_retrying | Ch_applying | Ch_pending | Ch_skipped

record RunAttempt =
  at_n :: nat
  at_max :: nat

definition RunAttemptSchema_ok :: "RunAttempt \<Rightarrow> bool" where
  "RunAttemptSchema_ok a \<longleftrightarrow> 0 < at_n a \<and> 0 < at_max a"

record RunSummary =
  rn_id :: string
  rn_tenantSlug :: string
  rn_trigger :: Trigger
  rn_generation :: nat
  rn_outcome :: Outcome
  rn_startedAt :: string
  rn_finishedAt :: "string option"
  rn_durationMs :: nat
  rn_traceId :: string
  rn_changeOutcomes :: "ChangeOutcome list"
  rn_driftCount :: nat
  rn_attempt :: "RunAttempt option"
  rn_retryOf :: "string option"

definition RunSummarySchema_ok :: "'a RunSummary_scheme \<Rightarrow> bool" where
  "RunSummarySchema_ok r \<longleftrightarrow>
     hex_n 12 (rn_id r) \<and> rn_tenantSlug r \<noteq> [] \<and> 0 < rn_generation r \<and> 8 \<le> length (rn_traceId r)
     \<and> pred_option RunAttemptSchema_ok (rn_attempt r)"

type_synonym PhaseTone = Tone

record RunPhase =
  ph_name :: string
  ph_durationMs :: nat
  ph_tone :: PhaseTone
  ph_weight :: nat

definition RunPhaseSchema_ok :: "RunPhase \<Rightarrow> bool" where
  "RunPhaseSchema_ok p \<longleftrightarrow> ph_name p \<noteq> [] \<and> 0 < ph_weight p"

record ChangeError =
  ce_type :: string
  ce_title :: string
  ce_changeKey :: string
  ce_attempt :: nat
  ce_maxAttempts :: nat
  ce_nextRetrySeconds :: "nat option"
  ce_detail :: string

definition ChangeErrorSchema_ok :: "ChangeError \<Rightarrow> bool" where
  "ChangeErrorSchema_ok e \<longleftrightarrow>
     ce_type e \<noteq> [] \<and> ce_title e \<noteq> [] \<and> ce_changeKey e \<noteq> [] \<and> 0 < ce_attempt e \<and> 0 < ce_maxAttempts e \<and> ce_detail e \<noteq> []"

record RunChange =
  ch_index :: nat
  ch_kind :: string
  ch_description :: string
  ch_note :: "string option"
  ch_durationMs :: "nat option"
  ch_outcome :: ChangeOutcome
  ch_error :: "ChangeError option"

definition RunChangeSchema_ok :: "RunChange \<Rightarrow> bool" where
  "RunChangeSchema_ok c \<longleftrightarrow>
     0 < ch_index c \<and> ch_kind c \<noteq> [] \<and> ch_description c \<noteq> [] \<and> pred_option ChangeErrorSchema_ok (ch_error c)"

record RunFacts =
  fa_advisoryLockHeldMs :: "nat option"
  fa_outboxMessageId :: "string option"
  fa_worker :: string
  fa_snapshotKey :: "string option"
  fa_specHash :: string
  fa_actualHash :: string

definition RunFactsSchema_ok :: "RunFacts \<Rightarrow> bool" where
  "RunFactsSchema_ok f \<longleftrightarrow> fa_worker f \<noteq> [] \<and> fa_specHash f \<noteq> [] \<and> fa_actualHash f \<noteq> []"

datatype LogLevel = L_info | L_ready | L_link | L_degraded | L_failed

record LogLine =
  ll_ts :: string
  ll_level :: LogLevel
  ll_text :: string

definition LogLineSchema_ok :: "LogLine \<Rightarrow> bool" where
  "LogLineSchema_ok l \<longleftrightarrow> ll_text l \<noteq> []"

text \<open>The snapshot body is an open record in the schema; these are the keys the code writes.\<close>

record Snapshot =
  sn_runId :: string
  sn_tenant :: string
  sn_generation :: nat
  sn_takenAt :: string
  sn_specHash :: string
  sn_actualHash :: string
  sn_key :: "string option"
  sn_changes :: "(nat \<times> string \<times> string) list"
  sn_retryOf :: "string option"

record RunDetail = RunSummary +
  rd_phases :: "RunPhase list"
  rd_changes :: "RunChange list"
  rd_facts :: RunFacts
  rd_log :: "LogLine list"
  rd_traceUrl :: string
  rd_snapshot :: Snapshot

definition https_url :: "string \<Rightarrow> bool" where
  "https_url s \<longleftrightarrow> startsWith s ''https://'' \<and>
     (let rest = drop 8 s; host = takeWhile (\<lambda>c. c \<noteq> CHR ''/'') rest; path = dropWhile (\<lambda>c. c \<noteq> CHR ''/'') rest
      in host \<noteq> [] \<and> is_lower (hd host) \<and> is_lower (last host)
         \<and> list_all (\<lambda>c. is_lower c \<or> is_digit c \<or> c = CHR ''-'' \<or> c = CHR ''.'') host
         \<and> list_all (\<lambda>c. is_word_dash c \<or> c = CHR ''/'') path)"

definition RunDetailSchema_ok :: "RunDetail \<Rightarrow> bool" where
  "RunDetailSchema_ok r \<longleftrightarrow>
     RunSummarySchema_ok r \<and> list_all RunPhaseSchema_ok (rd_phases r) \<and> list_all RunChangeSchema_ok (rd_changes r)
     \<and> RunFactsSchema_ok (rd_facts r) \<and> list_all LogLineSchema_ok (rd_log r) \<and> https_url (rd_traceUrl r)"

record RunListFilter =
  lf_trigger :: "Trigger option"
  lf_outcome :: "Outcome option"
  lf_tenant :: "string option"
  lf_cursor :: "string option"
  lf_limit :: nat

record RunStats =
  st_runs :: nat
  st_medianDurationMs :: nat
  st_noChangeRatio :: "nat \<times> nat"
  st_retriesInBackoff :: nat

definition RunStatsSchema_ok :: "RunStats \<Rightarrow> bool" where
  "RunStatsSchema_ok s \<longleftrightarrow> fst (st_noChangeRatio s) \<le> snd (st_noChangeRatio s)"

record RunPage =
  pg_items :: "RunSummary list"
  pg_nextCursor :: "string option"
  pg_total :: nat
  pg_stats :: RunStats
  pg_window :: string
  pg_generatedAt :: string

definition RunPageSchema_ok :: "RunPage \<Rightarrow> bool" where
  "RunPageSchema_ok p \<longleftrightarrow> list_all RunSummarySchema_ok (pg_items p) \<and> RunStatsSchema_ok (pg_stats p) \<and> pg_window p \<noteq> []"

section \<open>Pure helpers (lib.ts)\<close>

definition shortId :: "string \<Rightarrow> string" where
  "shortId i = (if length i \<le> 6 then i else take 4 i @ ellipsis @ last_chars 2 i)"

definition formatMillis :: "nat option \<Rightarrow> string" where
  "formatMillis ms = (case ms of None \<Rightarrow> em_dash | Some n \<Rightarrow> show_nat n @ ''ms'')"

text \<open>On an unparseable timestamp the three getters are NaN and print as such.\<close>

definition utcSeconds :: "string \<Rightarrow> bool \<Rightarrow> string" where
  "utcSeconds text' with_z =
     (case Date_parse text' of
        None \<Rightarrow> ''NaN:NaN:NaN''
      | Some d \<Rightarrow> pad 2 (getUTCHours d) @ '':'' @ pad 2 (getUTCMinutes d) @ '':'' @ pad 2 (getUTCSeconds d))
     @ (if with_z then ''Z'' else '''')"

fun OUTCOME_TONE :: "Outcome \<Rightarrow> Tone" where
  "OUTCOME_TONE Partial = Degraded_tone"
| "OUTCOME_TONE Drift = Drift_tone"
| "OUTCOME_TONE Applying_run = Link"
| "OUTCOME_TONE NoChanges = Ready_tone"
| "OUTCOME_TONE Failed_run = Failed_tone"
| "OUTCOME_TONE Applied = Ready_tone"
| "OUTCOME_TONE Deleting_run = Link"

definition IN_FLIGHT_OUTCOMES :: "Outcome list" where
  "IN_FLIGHT_OUTCOMES = [Applying_run, Deleting_run]"

definition isInFlight :: "'a RunSummary_scheme \<Rightarrow> bool" where
  "isInFlight r \<longleftrightarrow> rn_finishedAt r = None \<or> rn_outcome r \<in> set IN_FLIGHT_OUTCOMES"

definition FAST_POLL_MS :: nat where "FAST_POLL_MS = 2000"

definition SLOW_POLL_MS :: nat where "SLOW_POLL_MS = 10000"

definition LIVE_POLL_MS :: nat where "LIVE_POLL_MS = 1000"

definition pollIntervalForRuns :: "RunSummary list option \<Rightarrow> nat" where
  "pollIntervalForRuns runs =
     (case runs of None \<Rightarrow> SLOW_POLL_MS | Some rs \<Rightarrow> if list_ex isInFlight rs then FAST_POLL_MS else SLOW_POLL_MS)"

text \<open>\<open>None\<close> is the \<^verbatim>\<open>false\<close> that stops the poll.\<close>

definition detailPollInterval :: "'a RunSummary_scheme option \<Rightarrow> nat option" where
  "detailPollInterval run =
     (case run of None \<Rightarrow> None | Some r \<Rightarrow> if rn_finishedAt r = None then Some LIVE_POLL_MS else None)"

fun CHANGE_TONE :: "ChangeOutcome \<Rightarrow> Tone" where
  "CHANGE_TONE Ch_applied = Ready_tone"
| "CHANGE_TONE Ch_failed = Failed_tone"
| "CHANGE_TONE Ch_retrying = Degraded_tone"
| "CHANGE_TONE Ch_applying = Link"
| "CHANGE_TONE Ch_pending = Neutral"
| "CHANGE_TONE Ch_skipped = Neutral"

text \<open>A segment's outcome is a change outcome, or \<open>None\<close> for \<^verbatim>\<open>"drift"\<close>.\<close>

record ChangeSegment =
  sg_tone :: Tone
  sg_outcome :: "ChangeOutcome option"

datatype ChangesCell =
    Text_cell string Tone
  | Segments_cell (segs: "ChangeSegment list") (caption: string) (captionTone: Tone) (label: string)

definition changesCell :: "RunSummary \<Rightarrow> ChangesCell" where
  "changesCell run =
     (if rn_outcome run = Drift then
        (let n = rn_driftCount run
         in Segments_cell (replicate n \<lparr>sg_tone = Drift_tone, sg_outcome = None\<rparr>) (show_nat n @ '' drift'') Drift_tone
              (show_nat n @ '' drift finding'' @ (if n = 1 then '''' else ''s'')))
      else if length (rn_changeOutcomes run) = 0 then Text_cell ''no changes'' Neutral
      else
        (let segments = map (\<lambda>oc. \<lparr>sg_tone = CHANGE_TONE oc, sg_outcome = Some oc\<rparr>) (rn_changeOutcomes run);
             applied = length (filter (\<lambda>oc. oc = Ch_applied) (rn_changeOutcomes run));
             failed = length (filter (\<lambda>oc. oc = Ch_failed) (rn_changeOutcomes run));
             total = length (rn_changeOutcomes run);
             summary = show_nat applied @ '' of '' @ show_nat total @ '' changes applied''
               @ (if failed \<noteq> 0 then '', '' @ show_nat failed @ '' failed'' else '''')
         in case (rn_outcome run, rn_attempt run) of
              (Failed_run, Some a) \<Rightarrow>
                Segments_cell segments (''attempt '' @ show_nat (at_n a) @ ''/'' @ show_nat (at_max a)) Failed_tone
                  (summary @ '' '' @ mid_dot @ '' attempt '' @ show_nat (at_n a) @ '' of '' @ show_nat (at_max a))
            | (Deleting_run, _) \<Rightarrow>
                Segments_cell segments ''finalizers'' Neutral (summary @ '' '' @ mid_dot @ '' finalizers running'')
            | _ \<Rightarrow> Segments_cell segments (show_nat applied @ ''/'' @ show_nat total) Neutral summary))"

definition re_snapshotKey :: re where
  "re_snapshotKey = re_seq
     [Cap (re_seq [re_plus (\<lambda>c. is_lower c \<or> is_digit c), re_lit ''://'']), Rep not_newline, re_lit ''/'',
      Cap (re_exactly 12 is_hex), re_lit ''.json'', Eos]"

definition shortSnapshotKey :: "string \<Rightarrow> string" where
  "shortSnapshotKey key =
     (case re_exec re_snapshotKey key of
        Some [scheme, run_id] \<Rightarrow> scheme @ ellipsis @ ''/'' @ take 4 run_id @ ''.json''
      | _ \<Rightarrow> key)"

definition snapshotFilename :: "string \<Rightarrow> string" where
  "snapshotFilename runId = ''pre-apply-'' @ runId @ ''.json''"

section \<open>List filters (filter.ts)\<close>

text \<open>
  \<^verbatim>\<open>Number(text)\<close> is the argument \<open>to_number\<close>, \<open>None\<close> when the result is not an integer; the wording of
  a schema issue is the argument \<open>issue\<close>. Issues come in the order of the schema's keys and the
  first one is reported.
\<close>

definition enum_field :: "(string \<times> 'a) list \<Rightarrow> string option \<Rightarrow> 'a option option" where
  "enum_field table v = (case v of None \<Rightarrow> Some None | Some s \<Rightarrow> map_option Some (map_of table s))"

definition min1_field :: "string option \<Rightarrow> string option option" where
  "min1_field v = (if v = Some [] then None else Some v)"

definition runFilterFromParams ::
  "(string \<Rightarrow> int option) \<Rightarrow> (string \<Rightarrow> string) \<Rightarrow> (string \<Rightarrow> string option) \<Rightarrow> string option \<Rightarrow> string + RunListFilter" where
  "runFilterFromParams to_number issue get fixed_tenant =
     (let bad = (\<lambda>path. Inl (path @ '': '' @ issue path));
          tenant = (case fixed_tenant of Some t \<Rightarrow> Some t | None \<Rightarrow> get ''tenant'');
          limit = (case get ''limit'' of
                     None \<Rightarrow> Some 25
                   | Some raw \<Rightarrow> (case to_number raw of
                       Some n \<Rightarrow> if 1 \<le> n \<and> n \<le> 100 then Some (nat n) else None
                     | None \<Rightarrow> None))
      in case enum_field TRIGGERS (get ''trigger'') of None \<Rightarrow> bad ''trigger'' | Some tr \<Rightarrow>
         (case enum_field OUTCOMES (get ''outcome'') of None \<Rightarrow> bad ''outcome'' | Some oc \<Rightarrow>
         (case min1_field tenant of None \<Rightarrow> bad ''tenant'' | Some te \<Rightarrow>
         (case min1_field (get ''cursor'') of None \<Rightarrow> bad ''cursor'' | Some cu \<Rightarrow>
         (case limit of None \<Rightarrow> bad ''limit'' | Some li \<Rightarrow>
           Inr \<lparr>lf_trigger = tr, lf_outcome = oc, lf_tenant = te, lf_cursor = cu, lf_limit = li\<rparr>)))))"

text \<open>The two adapters: a repeated parameter is an array in Next's record and reads as absent there.\<close>

definition fromSearchParamsRecord :: "(string \<Rightarrow> (string + string list) option) \<Rightarrow> string \<Rightarrow> string option" where
  "fromSearchParamsRecord params name =
     (case params name of Some (Inl v) \<Rightarrow> if v \<noteq> [] then Some v else None | _ \<Rightarrow> None)"

definition fromUrlSearchParams :: "(string \<times> string) list \<Rightarrow> string \<Rightarrow> string option" where
  "fromUrlSearchParams params name =
     (case map_of params name of None \<Rightarrow> None | Some v \<Rightarrow> if v = [] then None else Some v)"

section \<open>Seeded runs (fixtures.ts)\<close>

definition FIXTURE_NOW :: string where "FIXTURE_NOW = ''2026-09-04T10:15:00Z''"

definition run_acmePartial :: string where "run_acmePartial = ''8f1c9e4b27d2''"
definition run_acmeUsersResync :: string where "run_acmeUsersResync = ''71a0c3d9e5f2''"
definition run_northwindExhausted :: string where "run_northwindExhausted = ''2c77e0b9a413''"
definition run_initechLive :: string where "run_initechLive = ''c0127be4d9a6''"
definition run_globexDrift :: string where "run_globexDrift = ''a7d30f5c81e9''"
definition run_wayneDeleting :: string where "run_wayneDeleting = ''9c74a2e6f1b8''"

lemmas RUN_IDS = run_acmePartial_def run_acmeUsersResync_def run_northwindExhausted_def run_initechLive_def
  run_globexDrift_def run_wayneDeleting_def

definition TRACE_BASE :: string where "TRACE_BASE = ''https://traces.authz-plane.example/trace/''"

record RunSeed =
  se_id :: string
  se_tenantSlug :: string
  se_trigger :: Trigger
  se_generation :: nat
  se_outcome :: Outcome
  se_startedAgoSeconds :: nat
  se_durationMs :: nat
  se_traceId :: string
  se_changeOutcomes :: "ChangeOutcome list"
  se_driftCount :: "nat option"
  se_attempt :: "RunAttempt option"
  se_worker :: "string option"
  se_specHash :: string
  se_actualHash :: string

definition SPEC_HASH :: "string \<Rightarrow> string" where
  "SPEC_HASH slug =
     (if slug = ''acme-air'' then ''b7e21f04''
      else if slug = ''northwind-rail'' then ''91d0aa3c''
      else if slug = ''globex-logistics'' then ''5c8f1e22''
      else if slug = ''initech-labs'' then ''0fa7d9b1''
      else if slug = ''umbrella-health'' then ''ee41b2c8''
      else if slug = ''stark-freight'' then ''17c3e5f9''
      else if slug = ''wayne-transit'' then ''c9a2f043''
      else '''')"

definition SEEDS :: "RunSeed list" where
  "SEEDS =
     [\<lparr>se_id = run_initechLive, se_tenantSlug = ''initech-labs'', se_trigger = Manual, se_generation = 7,
       se_outcome = Applying_run, se_startedAgoSeconds = 18, se_durationMs = 1100, se_traceId = ''9d2e7c41b0a6f38e5c12'',
       se_changeOutcomes = [Ch_applied, Ch_applied, Ch_applied, Ch_applying, Ch_pending], se_driftCount = None,
       se_attempt = None, se_worker = Some ''reconciler-1'',
       se_specHash = SPEC_HASH ''initech-labs'', se_actualHash = ''6b1d9f03a2c4''\<rparr>,
      \<lparr>se_id = run_acmePartial, se_tenantSlug = ''acme-air'', se_trigger = Outbox, se_generation = 9,
       se_outcome = Partial, se_startedAgoSeconds = 38, se_durationMs = 3400, se_traceId = ''4bf9e2c7d81a03b6f5a1'',
       se_changeOutcomes = [Ch_applied, Ch_applied, Ch_applied, Ch_failed, Ch_skipped], se_driftCount = None,
       se_attempt = Some \<lparr>at_n = 3, at_max = 8\<rparr>, se_worker = None,
       se_specHash = SPEC_HASH ''acme-air'', se_actualHash = ''2f08c6a1b49c''\<rparr>,
      \<lparr>se_id = run_wayneDeleting, se_tenantSlug = ''wayne-transit'', se_trigger = Delete, se_generation = 5,
       se_outcome = Deleting_run, se_startedAgoSeconds = 48, se_durationMs = 6000, se_traceId = ''c3a8e51f7d2b906e4a77'',
       se_changeOutcomes = [Ch_applied, Ch_applied, Ch_applying], se_driftCount = None,
       se_attempt = None, se_worker = Some ''reconciler-2'',
       se_specHash = SPEC_HASH ''wayne-transit'', se_actualHash = ''0a3f7e19c5d2''\<rparr>,
      \<lparr>se_id = run_acmeUsersResync, se_tenantSlug = ''acme-air'', se_trigger = Resync, se_generation = 8,
       se_outcome = NoChanges, se_startedAgoSeconds = 180, se_durationMs = 600, se_traceId = ''71e0a9c4d2f5b83610ce'',
       se_changeOutcomes = [], se_driftCount = None,
       se_attempt = None, se_worker = Some ''reconciler-1'',
       se_specHash = ''a91c3e58'', se_actualHash = ''a91c3e58''\<rparr>,
      \<lparr>se_id = ''2bb84c17e0d5'', se_tenantSlug = ''umbrella-health'', se_trigger = Outbox, se_generation = 12,
       se_outcome = Applied, se_startedAgoSeconds = 190, se_durationMs = 1400, se_traceId = ''e5b21c9a7f04d36b8e19'',
       se_changeOutcomes = [Ch_applied, Ch_applied], se_driftCount = None,
       se_attempt = None, se_worker = None,
       se_specHash = SPEC_HASH ''umbrella-health'', se_actualHash = SPEC_HASH ''umbrella-health''\<rparr>,
      \<lparr>se_id = run_globexDrift, se_tenantSlug = ''globex-logistics'', se_trigger = Resync, se_generation = 6,
       se_outcome = Drift, se_startedAgoSeconds = 360, se_durationMs = 900, se_traceId = ''a7d3f5c10e8b2946d3c0'',
       se_changeOutcomes = [], se_driftCount = Some 4,
       se_attempt = None, se_worker = Some ''reconciler-2'',
       se_specHash = SPEC_HASH ''globex-logistics'', se_actualHash = ''d47a20e9b1f6''\<rparr>,
      \<lparr>se_id = ''d4a19c3e72b0'', se_tenantSlug = ''stark-freight'', se_trigger = Outbox, se_generation = 2,
       se_outcome = Applied, se_startedAgoSeconds = 540, se_durationMs = 1200, se_traceId = ''3f9c0b7e2a1d58c4e6b2'',
       se_changeOutcomes = [Ch_applied], se_driftCount = None,
       se_attempt = None, se_worker = None,
       se_specHash = SPEC_HASH ''stark-freight'', se_actualHash = SPEC_HASH ''stark-freight''\<rparr>,
      \<lparr>se_id = ''08ad5e7f1c93'', se_tenantSlug = ''initech-labs'', se_trigger = Resync, se_generation = 6,
       se_outcome = NoChanges, se_startedAgoSeconds = 660, se_durationMs = 400, se_traceId = ''08ad1e6f5c93b2d7a041'',
       se_changeOutcomes = [], se_driftCount = None,
       se_attempt = None, se_worker = Some ''reconciler-1'',
       se_specHash = ''4e7b2c90'', se_actualHash = ''4e7b2c90''\<rparr>,
      \<lparr>se_id = ''e37f2a90b4d1'', se_tenantSlug = ''umbrella-health'', se_trigger = Resync, se_generation = 12,
       se_outcome = NoChanges, se_startedAgoSeconds = 780, se_durationMs = 700, se_traceId = ''e37fb6d2094ac15e83f7'',
       se_changeOutcomes = [], se_driftCount = None,
       se_attempt = None, se_worker = Some ''reconciler-2'',
       se_specHash = SPEC_HASH ''umbrella-health'', se_actualHash = SPEC_HASH ''umbrella-health''\<rparr>,
      \<lparr>se_id = ''5b6e0d8a2f47'', se_tenantSlug = ''globex-logistics'', se_trigger = Resync, se_generation = 6,
       se_outcome = NoChanges, se_startedAgoSeconds = 960, se_durationMs = 500, se_traceId = ''5b6e93a1d0f7c24e8b05'',
       se_changeOutcomes = [], se_driftCount = None,
       se_attempt = None, se_worker = None,
       se_specHash = SPEC_HASH ''globex-logistics'', se_actualHash = SPEC_HASH ''globex-logistics''\<rparr>,
      \<lparr>se_id = run_northwindExhausted, se_tenantSlug = ''northwind-rail'', se_trigger = Backoff, se_generation = 4,
       se_outcome = Failed_run, se_startedAgoSeconds = 1440, se_durationMs = 2200, se_traceId = ''2c77d9e1a4b30f68c5e2'',
       se_changeOutcomes = [Ch_failed], se_driftCount = None,
       se_attempt = Some \<lparr>at_n = 8, at_max = 8\<rparr>, se_worker = Some ''reconciler-2'',
       se_specHash = SPEC_HASH ''northwind-rail'', se_actualHash = ''f1c5a8d20b73''\<rparr>,
      \<lparr>se_id = ''f61c3b8d90e2'', se_tenantSlug = ''stark-freight'', se_trigger = Resync, se_generation = 2,
       se_outcome = NoChanges, se_startedAgoSeconds = 1740, se_durationMs = 500, se_traceId = ''f61c7a2e94d0b5c83a16'',
       se_changeOutcomes = [], se_driftCount = None,
       se_attempt = None, se_worker = Some ''reconciler-1'',
       se_specHash = SPEC_HASH ''stark-freight'', se_actualHash = SPEC_HASH ''stark-freight''\<rparr>,
      \<lparr>se_id = ''4e59d8b1c37a'', se_tenantSlug = ''northwind-rail'', se_trigger = Backoff, se_generation = 4,
       se_outcome = Failed_run, se_startedAgoSeconds = 2400, se_durationMs = 2000, se_traceId = ''4e59c2a7f81d0b36e9a4'',
       se_changeOutcomes = [Ch_failed], se_driftCount = None,
       se_attempt = Some \<lparr>at_n = 7, at_max = 8\<rparr>, se_worker = Some ''reconciler-0'',
       se_specHash = SPEC_HASH ''northwind-rail'', se_actualHash = ''f1c5a8d20b73''\<rparr>,
      \<lparr>se_id = ''b9e24f7a0c15'', se_tenantSlug = ''acme-air'', se_trigger = Outbox, se_generation = 8,
       se_outcome = Applied, se_startedAgoSeconds = 5700, se_durationMs = 2100, se_traceId = ''b9e2a04d7c1f5e38b6a9'',
       se_changeOutcomes = [Ch_applied, Ch_applied, Ch_applied, Ch_applied], se_driftCount = None,
       se_attempt = None, se_worker = None,
       se_specHash = ''a91c3e58'', se_actualHash = ''a91c3e58''\<rparr>]"

definition summaryOf :: "RunSeed \<Rightarrow> instant \<Rightarrow> RunSummary" where
  "summaryOf seed now =
     (let startedMs = now - se_startedAgoSeconds seed * 1000;
          inFlight = (se_outcome seed = Applying_run \<or> se_outcome seed = Deleting_run)
      in \<lparr>rn_id = se_id seed, rn_tenantSlug = se_tenantSlug seed, rn_trigger = se_trigger seed,
          rn_generation = se_generation seed, rn_outcome = se_outcome seed, rn_startedAt = toISOString startedMs,
          rn_finishedAt = (if inFlight then None else Some (toISOString (startedMs + se_durationMs seed))),
          rn_durationMs = se_durationMs seed, rn_traceId = se_traceId seed, rn_changeOutcomes = se_changeOutcomes seed,
          rn_driftCount = (case se_driftCount seed of Some n \<Rightarrow> n | None \<Rightarrow> 0), rn_attempt = se_attempt seed,
          rn_retryOf = None\<rparr>)"

text \<open>
  A log line some milliseconds after the run started. The fixtures call it only with a start time
  that \<open>toISOString\<close> wrote, so the case of an unparseable text never arises.
\<close>

definition line :: "string \<Rightarrow> nat \<Rightarrow> LogLevel \<Rightarrow> string \<Rightarrow> LogLine" where
  "line startedAt offsetMs level text' =
     \<lparr>ll_ts = toISOString ((case Date_parse startedAt of Some t \<Rightarrow> t | None \<Rightarrow> 0) + offsetMs), ll_level = level, ll_text = text'\<rparr>"

definition GENERIC_KINDS :: "string list" where
  "GENERIC_KINDS = [''zitadel.org'', ''zitadel.idp'', ''fga.model'', ''plane.role'', ''fga.tuple'', ''fga.tuple'']"

definition GENERIC_DESCRIPTIONS :: "string list" where
  "GENERIC_DESCRIPTIONS =
     [''ensure org exists'', ''update primary idp claim mappings'', ''write authorization model'',
      ''create role tenant_viewer'', ''write user:ops tenant_admin tenant'', ''delete stale tuple folder:archive'']"

definition genericChange :: "nat list \<Rightarrow> nat \<Rightarrow> ChangeOutcome \<Rightarrow> RunChange" where
  "genericChange durations i oc =
     \<lparr>ch_index = i + 1, ch_kind = GENERIC_KINDS ! (i mod 6), ch_description = GENERIC_DESCRIPTIONS ! (i mod 6),
      ch_note = (if oc = Ch_applied then if i = 0 then Some ''idempotent hit'' else None
                 else if oc = Ch_pending then Some ''queued'' else None),
      ch_durationMs = (if oc = Ch_applied \<or> oc = Ch_failed
                       then Some (if i < length durations then durations ! i else 200) else None),
      ch_outcome = oc, ch_error = None\<rparr>"

definition genericChanges :: "ChangeOutcome list \<Rightarrow> nat list \<Rightarrow> RunChange list" where
  "genericChanges outcomes durations = map (\<lambda>(i, oc). genericChange durations i oc) (enumerate 0 outcomes)"

record DetailBody =
  db_phases :: "RunPhase list"
  db_changes :: "RunChange list"
  db_log :: "LogLine list"

abbreviation phase_row :: "string \<Rightarrow> nat \<Rightarrow> PhaseTone \<Rightarrow> nat \<Rightarrow> RunPhase" where
  "phase_row n d t w \<equiv> \<lparr>ph_name = n, ph_durationMs = d, ph_tone = t, ph_weight = w\<rparr>"

abbreviation change_row ::
  "nat \<Rightarrow> string \<Rightarrow> string \<Rightarrow> string option \<Rightarrow> nat option \<Rightarrow> ChangeOutcome \<Rightarrow> ChangeError option \<Rightarrow> RunChange" where
  "change_row i k d n ms oc e \<equiv>
     \<lparr>ch_index = i, ch_kind = k, ch_description = d, ch_note = n, ch_durationMs = ms, ch_outcome = oc, ch_error = e\<rparr>"

definition genericDetail :: "RunSummary \<Rightarrow> DetailBody" where
  "genericDetail s =
     (let sa = rn_startedAt s; d = rn_durationMs s; plan = 120; read = max 300 (round_div (d * 35) 100);
          rest = d - plan - read
      in if rn_outcome s = NoChanges then
           \<lparr>db_phases = [phase_row ''plan'' plan Ready_tone 1, phase_row ''read actual'' read Link 3, phase_row ''compare'' rest Ready_tone 1],
            db_changes = [],
            db_log = [line sa 0 L_info (''claimed '' @ trigger_str (rn_trigger s) @ '' tick''), line sa 40 L_info ''acquired advisory lock'',
              line sa (plan + read) L_info ''read actual: hashes match desired'', line sa (d - 20) L_ready ''phase Ready, no changes'',
              line sa d L_info ''lock released'']\<rparr>
         else
           (let n = length (rn_changeOutcomes s);
                per = (if n \<noteq> 0 then max 60 (round_div rest n) else 0);
                durations = map (\<lambda>_. per) (rn_changeOutcomes s);
                applying = (rn_outcome s = Applying_run \<or> rn_outcome s = Deleting_run);
                applyName = (if rn_outcome s = Deleting_run then ''finalizers 1'' else ''apply 1'') @ en_dash @ show_nat n;
                oks = concat (map (\<lambda>(i, oc). if oc = Ch_applied
                    then [line sa (plan + read + per * (i + 1)) L_ready (''change '' @ show_nat (i + 1) @ '' ok'')] else [])
                  (enumerate 0 (rn_changeOutcomes s)))
            in \<lparr>db_phases = [phase_row ''plan'' plan Ready_tone 1, phase_row ''read actual'' read Link 2,
                 phase_row applyName rest (if applying then Link else Ready_tone) 3],
                db_changes = genericChanges (rn_changeOutcomes s) durations,
                db_log = [line sa 0 L_info (''claimed '' @ trigger_str (rn_trigger s) @ '' message''),
                    line sa 30 L_info ''acquired advisory lock'',
                    line sa (plan + read) L_info (''plan: '' @ show_nat n @ '' change'' @ (if n = 1 then '''' else ''s''))]
                  @ oks
                  @ (if applying then [] else
                      [line sa (d - 10) L_ready (''phase Ready, observedGeneration '' @ show_nat (rn_generation s)),
                       line sa d L_info ''lock released, msg acked''])\<rparr>))"

definition not_equal :: string where "not_equal = [CHR 0xE2, CHR 0x89, CHR 0xA0]"
definition arrow :: string where "arrow = [CHR 0xE2, CHR 0x86, CHR 0x92]"

definition acmePartialDetail :: "RunSummary \<Rightarrow> DetailBody" where
  "acmePartialDetail s =
     (let sa = rn_startedAt s
      in \<lparr>db_phases =
        [phase_row ''plan'' 180 Ready_tone 1,
         phase_row ''read actual'' 640 Link 2,
         phase_row (''apply 1'' @ en_dash @ ''3'') 1100 Ready_tone 3,
         phase_row ''change 4 timeout'' 3000 Failed_tone 2],
       db_changes =
        [change_row 1 ''zitadel.idp'' ''update acme-entra secret'' (Some ''idempotent hit'') (Some 210) Ch_applied None,
         change_row 2 ''fga.model'' ''write authorization model v7'' (Some ''new external id'') (Some 430) Ch_applied None,
         change_row 3 ''plane.role'' ''create role tenant_auditor'' None (Some 92) Ch_applied None,
         change_row 4 ''fga.tuple'' ''write user:mira auditor tenant:acme-air'' (Some ''Timeout'') (Some 3000) Ch_failed (Some \<lparr>ce_type = ''/errors/downstream-timeout'', ce_title = ''Timeout'', ce_changeKey = ''2ab7f13c9e6d'', ce_attempt = 3,
        ce_maxAttempts = 8, ce_nextRetrySeconds = Some 45,
        ce_detail = ''OpenFGA WriteTuples exceeded 3000ms budget; circuit half-open''\<rparr>),
         change_row 5 ''fga.tuple'' ''delete user:dana editor folder:finance'' (Some (''skipped '' @ em_dash @ '' run aborted after failure'')) None Ch_skipped None],
       db_log =
        [line sa 0 L_info ''claimed outbox message'',
         line sa 120 L_info ''acquired advisory lock'',
         line sa 820 L_info ''read actual: org, 1 idp, 1284 tuples'',
         line sa 900 L_info ''plan: 3 create, 1 update, 1 delete'',
         line sa 980 L_info ''snapshot written 42KB'',
         line sa 1560 L_ready ''change 1 ok'',
         line sa 1990 L_ready ''change 2 ok'',
         line sa 2080 L_ready ''change 3 ok'',
         line sa 5080 L_failed ''change 4 timeout, aborting'',
         line sa 5090 L_degraded ''phase Degraded, retry at 10:15:12'',
         line sa 5100 L_info ''lock released, msg requeued'']\<rparr>)"

definition acmeUsersResyncDetail :: "RunSummary \<Rightarrow> DetailBody" where
  "acmeUsersResyncDetail s =
     (let sa = rn_startedAt s
      in \<lparr>db_phases =
        [phase_row ''plan'' 90 Ready_tone 1,
         phase_row ''read actual'' 480 Link 4,
         phase_row ''compare'' 30 Ready_tone 1],
       db_changes =
        [],
       db_log =
        [line sa 0 L_info ''claimed resync tick'',
         line sa 20 L_info ''acquired advisory lock'',
         line sa 570 L_info ''read actual: org, 1 idp, 312 users, 1284 tuples'',
         line sa 580 L_info ''users mirror refreshed (312 rows)'',
         line sa 590 L_ready ''phase Ready, no changes'',
         line sa 600 L_info ''lock released'']\<rparr>)"

definition globexDriftDetail :: "RunSummary \<Rightarrow> DetailBody" where
  "globexDriftDetail s =
     (let sa = rn_startedAt s
      in \<lparr>db_phases =
        [phase_row ''plan'' 120 Ready_tone 1,
         phase_row ''read actual'' 610 Link 3,
         phase_row (''compare '' @ mid_dot @ '' 4 drift'') 170 Drift_tone 1],
       db_changes =
        [],
       db_log =
        [line sa 0 L_info ''claimed resync tick'',
         line sa 30 L_info ''acquired advisory lock'',
         line sa 730 L_info ''read actual: org, 1 idp, 240 tuples'',
         line sa 880 L_degraded (''actualHash '' @ not_equal @ '' specHash '' @ mid_dot @ '' 4 field paths differ''),
         line sa 890 L_info (''no matching audit event in authz-plane '' @ arrow @ '' out-of-band change''),
         line sa 895 L_info (''autoHeal off '' @ mid_dot @ '' 4 findings opened, nothing written''),
         line sa 900 L_info ''lock released'']\<rparr>)"

definition northwindExhaustedDetail :: "RunSummary \<Rightarrow> DetailBody" where
  "northwindExhaustedDetail s =
     (let sa = rn_startedAt s
      in \<lparr>db_phases =
        [phase_row ''plan'' 160 Ready_tone 1,
         phase_row ''read actual'' 540 Link 2,
         phase_row ''change 1 rejected'' 1500 Failed_tone 3],
       db_changes =
        [change_row 1 ''zitadel.idp'' ''create idp northwind-okta'' (Some ''BadRequest'') (Some 1500) Ch_failed (Some \<lparr>ce_type = ''/errors/invalid-idp-config'', ce_title = ''BadRequest'', ce_changeKey = ''c81e4a9f2d07'', ce_attempt = 8,
        ce_maxAttempts = 8, ce_nextRetrySeconds = None,
        ce_detail = ''Zitadel CreateIdentityProvider returned 400 invalid_idp_config: discovery document has no jwks_uri''\<rparr>)],
       db_log =
        [line sa 0 L_info ''claimed backoff message (attempt 8/8)'',
         line sa 40 L_info ''acquired advisory lock'',
         line sa 700 L_info ''read actual: org absent'',
         line sa 720 L_info ''plan: 1 create'',
         line sa 2200 L_failed ''change 1 rejected: 400 invalid_idp_config'',
         line sa 2200 L_failed ''phase Failed, attempts exhausted (8/8)'',
         line sa 2200 L_info ''lock released, msg dead-lettered'']\<rparr>)"

definition initechLiveDetail :: "RunSummary \<Rightarrow> DetailBody" where
  "initechLiveDetail s =
     (let sa = rn_startedAt s
      in \<lparr>db_phases =
        [phase_row ''plan'' 140 Ready_tone 1,
         phase_row ''read actual'' 520 Link 2,
         phase_row (''apply 1'' @ en_dash @ ''5'') 440 Link 3],
       db_changes =
        [change_row 1 ''zitadel.idp'' ''update initech-okta claim mappings'' (Some ''idempotent hit'') (Some 160) Ch_applied None,
         change_row 2 ''fga.model'' ''write authorization model v4'' (Some ''new external id'') (Some 210) Ch_applied None,
         change_row 3 ''plane.role'' ''create role tenant_editor'' None (Some 70) Ch_applied None,
         change_row 4 ''fga.tuple'' ''write user:sam editor tenant:initech-labs'' (Some ''in flight'') None Ch_applying None,
         change_row 5 ''fga.tuple'' ''write user:lee viewer tenant:initech-labs'' (Some ''queued'') None Ch_pending None],
       db_log =
        [line sa 0 L_info ''claimed manual reconcile'',
         line sa 30 L_info ''acquired advisory lock'',
         line sa 660 L_info ''read actual: org, 1 idp, 240 tuples'',
         line sa 680 L_info ''plan: 3 create, 2 update'',
         line sa 700 L_info ''snapshot written 18KB'',
         line sa 860 L_ready ''change 1 ok'',
         line sa 1070 L_ready ''change 2 ok'',
         line sa 1100 L_ready ''change 3 ok'']\<rparr>)"

definition SPECIAL :: "(string \<times> (RunSummary \<Rightarrow> DetailBody)) list" where
  "SPECIAL = [(run_acmePartial, acmePartialDetail), (run_acmeUsersResync, acmeUsersResyncDetail),
     (run_globexDrift, globexDriftDetail), (run_northwindExhausted, northwindExhaustedDetail), (run_initechLive, initechLiveDetail)]"

definition outboxMessageId :: "string \<Rightarrow> string" where
  "outboxMessageId runId = (if runId = run_acmePartial then ''e91b7a2c064f'' else rev runId)"

definition detail_body :: "RunSeed \<Rightarrow> RunSummary \<Rightarrow> DetailBody" where
  "detail_body seed s = (case map_of SPECIAL (se_id seed) of Some f \<Rightarrow> f s | None \<Rightarrow> genericDetail s)"

definition detailOf :: "RunSeed \<Rightarrow> instant \<Rightarrow> RunDetail" where
  "detailOf seed now =
     (let s = summaryOf seed now;
          body = detail_body seed s;
          snapshotKey = (if 0 < length (rn_changeOutcomes s)
            then Some (''r2://snapshots/'' @ rn_tenantSlug s @ ''/'' @ rn_id s @ ''.json'') else None)
      in RunSummary.extend s
        \<lparr>rd_phases = db_phases body, rd_changes = db_changes body,
         rd_facts = \<lparr>fa_advisoryLockHeldMs = (if rn_finishedAt s \<noteq> None then Some (rn_durationMs s) else None),
           fa_outboxMessageId = (if se_trigger seed = Outbox \<or> se_trigger seed = Backoff then Some (outboxMessageId (se_id seed)) else None),
           fa_worker = (case se_worker seed of Some w \<Rightarrow> w | None \<Rightarrow> ''reconciler-0''), fa_snapshotKey = snapshotKey,
           fa_specHash = se_specHash seed, fa_actualHash = se_actualHash seed\<rparr>,
         rd_log = db_log body, rd_traceUrl = TRACE_BASE @ se_traceId seed,
         rd_snapshot = \<lparr>sn_runId = rn_id s, sn_tenant = rn_tenantSlug s, sn_generation = rn_generation s, sn_takenAt = rn_startedAt s,
           sn_specHash = se_specHash seed, sn_actualHash = se_actualHash seed, sn_key = snapshotKey,
           sn_changes = map (\<lambda>c. (ch_index c, ch_kind c, ch_description c)) (db_changes body), sn_retryOf = None\<rparr>\<rparr>)"

definition reconcileRunFixtures :: "instant \<Rightarrow> RunDetail list" where
  "reconcileRunFixtures now = map (\<lambda>seed. detailOf seed now) SEEDS"

definition PLATFORM_STATS :: RunStats where
  "PLATFORM_STATS = \<lparr>st_runs = 318, st_medianDurationMs = 1900, st_noChangeRatio = (71, 100), st_retriesInBackoff = 3\<rparr>"

definition TENANT_STATS :: "(string \<times> RunStats) list" where
  "TENANT_STATS = [(''acme-air'', \<lparr>st_runs = 31, st_medianDurationMs = 2100, st_noChangeRatio = (68, 100), st_retriesInBackoff = 1\<rparr>)]"

definition WINDOW_LABEL :: string where "WINDOW_LABEL = ''last 6h''"

section \<open>Live scripts\<close>

text \<open>One scripted step of an in-flight run; \<open>ls_changes\<close> maps a change index to its new outcome.\<close>

record LiveStep =
  ls_offsetMs :: nat
  ls_level :: LogLevel
  ls_text :: string
  ls_changes :: "(nat, ChangeOutcome) jsmap"
  ls_durationMs :: nat
  ls_finish :: "(Outcome \<times> RunPhase list) option"

definition LIVE_SCRIPTS :: "(string, LiveStep list) jsmap" where
  "LIVE_SCRIPTS =
     [(run_initechLive,
       [\<lparr>ls_offsetMs = 1600, ls_level = L_ready, ls_text = ''change 4 ok'', ls_changes = [(4, Ch_applied), (5, Ch_applying)],
         ls_durationMs = 1600, ls_finish = None\<rparr>,
        \<lparr>ls_offsetMs = 1900, ls_level = L_ready, ls_text = ''change 5 ok'', ls_changes = [(5, Ch_applied)],
         ls_durationMs = 1900, ls_finish = None\<rparr>,
        \<lparr>ls_offsetMs = 2000, ls_level = L_link, ls_text = ''observedGeneration 6 '' @ arrow @ '' 7'', ls_changes = [],
         ls_durationMs = 2000, ls_finish = None\<rparr>,
        \<lparr>ls_offsetMs = 2100, ls_level = L_ready, ls_text = ''phase Ready, lock released, msg acked'', ls_changes = [],
         ls_durationMs = 2100,
         ls_finish = Some (Applied, [phase_row ''plan'' 140 Ready_tone 1, phase_row ''read actual'' 520 Link 2,
           phase_row (''apply 1'' @ en_dash @ ''5'') 1440 Ready_tone 3])\<rparr>]),
      (run_wayneDeleting,
       [\<lparr>ls_offsetMs = 6400, ls_level = L_link, ls_text = ''finalizer fga.store: 96 tuples purged'', ls_changes = [],
         ls_durationMs = 6400, ls_finish = None\<rparr>,
        \<lparr>ls_offsetMs = 7100, ls_level = L_link, ls_text = ''finalizer zitadel.org: deactivate requested, awaiting callback'',
         ls_changes = [], ls_durationMs = 7100, ls_finish = None\<rparr>])]"

definition RETRY_CHANGE_DURATION_MS :: nat where "RETRY_CHANGE_DURATION_MS = 180"

end
