(* ===== verification/Reconcile.thy ===== *)
theory Reconcile
  imports Reconcile_Data Paging Stores
begin

text \<open>
  Server-side access to reconcile runs (\<^verbatim>\<open>features/reconcile/server.ts\<close>): the process-wide store, the
  newest-first listing with id cursors and statistics, the detail read that advances an
  in-flight run by one scripted step, and the manual retry under an Idempotency-Key. The
  clock is the argument \<open>now\<close>; the random 128 bits behind a new run id are a list of draws, one
  per turn of the loop that avoids ids in use (\<open>None\<close>: the draws ran out before the loop ended).
\<close>

section \<open>The store\<close>

record Store =
  s_runs :: "(string, RunDetail) jsmap"
  s_liveStep :: "(string, nat) jsmap"
  s_scripts :: "(string, LiveStep list) jsmap"
  s_retriesByKey :: "(string, string) jsmap"

definition fixture_now :: instant where
  "fixture_now = 1788516900000"

definition seed :: Store where
  "seed = \<lparr>s_runs = fold (\<lambda>r m. map_set m (rn_id r) r) (reconcileRunFixtures fixture_now) [],
     s_liveStep = [], s_scripts = LIVE_SCRIPTS, s_retriesByKey = []\<rparr>"

definition db :: "Store option \<Rightarrow> Store" where
  "db store = (case store of None \<Rightarrow> seed | Some s \<Rightarrow> s)"

section \<open>Listing\<close>

definition toSummary :: "RunDetail \<Rightarrow> RunSummary" where
  "toSummary r = RunSummary.truncate r"

definition median :: "nat list \<Rightarrow> nat" where
  "median values =
     (if length values = 0 then 0
      else (let sorted' = js_sort (\<lambda>a b. int a - int b) values; mid = length sorted' div 2
            in if length sorted' mod 2 \<noteq> 0 then sorted' ! mid else round_div (sorted' ! (mid - 1) + sorted' ! mid) 2))"

definition deriveStats :: "RunSummary list \<Rightarrow> RunStats" where
  "deriveStats items =
     (let settled = filter (\<lambda>r. rn_finishedAt r \<noteq> None) items
      in \<lparr>st_runs = length items, st_medianDurationMs = median (map rn_durationMs settled),
          st_noChangeRatio = (if length items \<noteq> 0 then (length (filter (\<lambda>r. rn_outcome r = NoChanges) items), length items) else (0, 1)),
          st_retriesInBackoff = length (filter (\<lambda>r. case rn_attempt r of Some a \<Rightarrow> at_n a < at_max a | None \<Rightarrow> False) items)\<rparr>)"

text \<open>A comparator that yields NaN counts as 0.\<close>

definition newest_first :: "RunSummary \<Rightarrow> RunSummary \<Rightarrow> int" where
  "newest_first a b =
     (case (Date_parse (rn_startedAt b), Date_parse (rn_startedAt a)) of
        (Some tb, Some ta) \<Rightarrow> int tb - int ta
      | _ \<Rightarrow> 0)"

definition listed_runs :: "Store \<Rightarrow> RunListFilter \<Rightarrow> RunSummary list" where
  "listed_runs s fl =
     (let items = js_sort newest_first (map toSummary (map_values (s_runs s)));
          items = (if truthy (lf_tenant fl) then filter (\<lambda>r. Some (rn_tenantSlug r) = lf_tenant fl) items else items);
          items = (case lf_trigger fl of Some t \<Rightarrow> filter (\<lambda>r. rn_trigger r = t) items | None \<Rightarrow> items)
      in case lf_outcome fl of Some oc \<Rightarrow> filter (\<lambda>r. rn_outcome r = oc) items | None \<Rightarrow> items)"

definition runs_page :: "RunSummary list \<Rightarrow> nat \<Rightarrow> string option \<Rightarrow> RunSummary list \<times> string option" where
  "runs_page items limit cursor =
     (let items = (if truthy cursor
                   then (case find_index (\<lambda>r. Some (rn_id r) = cursor) items of Some at \<Rightarrow> drop (at + 1) items | None \<Rightarrow> [])
                   else items);
          page = slice 0 limit items
      in (page, if limit < length items then (if page = [] then None else Some (rn_id (last page))) else None))"

text \<open>
  \<^verbatim>\<open>TENANT_STATS[tenant] ?? deriveStats(items)\<close>. The table is an object literal, so a name that objects
  inherit finds a value that is no statistics record (\<open>None\<close>): the page then fails its schema.
\<close>

definition tenant_stats :: "string \<Rightarrow> RunSummary list \<Rightarrow> RunStats option" where
  "tenant_stats tenant items =
     (case map_of TENANT_STATS tenant of
        Some st \<Rightarrow> Some st
      | None \<Rightarrow> if tenant \<in> set inherited_keys then None else Some (deriveStats items))"

definition run_stats :: "RunListFilter \<Rightarrow> RunSummary list \<Rightarrow> RunStats option" where
  "run_stats fl items =
     (if lf_trigger fl \<noteq> None \<or> lf_outcome fl \<noteq> None then Some (deriveStats items)
      else if truthy (lf_tenant fl) then tenant_stats (the (lf_tenant fl)) items
      else Some PLATFORM_STATS)"

definition listRuns :: "Store \<Rightarrow> RunListFilter \<Rightarrow> instant \<Rightarrow> RunPage throws" where
  "listRuns s fl now =
     (let items = listed_runs s fl;
          (page, nextCursor) = runs_page items (lf_limit fl) (lf_cursor fl)
      in case run_stats fl items of
           None \<Rightarrow> Inl ZodError
         | Some st \<Rightarrow> parse_with RunPageSchema_ok
             \<lparr>pg_items = page, pg_nextCursor = nextCursor, pg_total = st_runs st, pg_stats = st,
              pg_window = WINDOW_LABEL, pg_generatedAt = toISOString now\<rparr>)"

section \<open>Detail reads\<close>

definition advance_change :: "LiveStep \<Rightarrow> RunChange \<Rightarrow> RunChange" where
  "advance_change step c =
     (case map_get (ls_changes step) (ch_index c) of
        None \<Rightarrow> c
      | Some oc \<Rightarrow>
          c\<lparr>ch_outcome := oc,
            ch_note := (if oc = Ch_applied then (if ch_note c = Some ''in flight'' \<or> ch_note c = Some ''queued'' then None else ch_note c)
                        else if oc = Ch_applying then Some ''in flight'' else ch_note c),
            ch_durationMs := (if oc = Ch_applied
                              then Some (case ch_durationMs c of Some d \<Rightarrow> d | None \<Rightarrow> RETRY_CHANGE_DURATION_MS)
                              else ch_durationMs c)\<rparr>)"

definition advance_run :: "LiveStep \<Rightarrow> instant \<Rightarrow> RunDetail \<Rightarrow> RunDetail" where
  "advance_run step startedMs rn =
     (let changes = map (advance_change step) (rd_changes rn);
          next = rn\<lparr>rd_changes := changes, rn_changeOutcomes := map ch_outcome changes, rn_durationMs := ls_durationMs step,
            rd_log := rd_log rn @ [\<lparr>ll_ts = toISOString (startedMs + ls_offsetMs step), ll_level = ls_level step, ll_text = ls_text step\<rparr>]\<rparr>
      in case ls_finish step of
           None \<Rightarrow> next
         | Some (outcome, phases) \<Rightarrow>
             next\<lparr>rn_outcome := outcome, rd_phases := phases, rn_finishedAt := Some (toISOString (startedMs + ls_durationMs step)),
               rd_facts := (rd_facts rn)\<lparr>fa_advisoryLockHeldMs := Some (ls_durationMs step)\<rparr>\<rparr>)"

text \<open>
  \<^verbatim>\<open>new Date(NaN).toISOString()\<close> throws a RangeError; the step counter is already stored by then.
\<close>

definition advanceLive :: "Store \<Rightarrow> RunDetail \<Rightarrow> Store \<times> RunDetail throws" where
  "advanceLive s rn =
     (case map_get (s_scripts s) (rn_id rn) of
        None \<Rightarrow> (s, Inr rn)
      | Some script \<Rightarrow>
          (let i = (case map_get (s_liveStep s) (rn_id rn) of Some n \<Rightarrow> n | None \<Rightarrow> 0)
           in if i < length script then
                (let s' = s\<lparr>s_liveStep := map_set (s_liveStep s) (rn_id rn) (i + 1)\<rparr>
                 in case Date_parse (rn_startedAt rn) of
                      None \<Rightarrow> (s', Inl RangeError)
                    | Some startedMs \<Rightarrow>
                        (let next = advance_run (script ! i) startedMs rn
                         in (s'\<lparr>s_runs := map_set (s_runs s') (rn_id rn) next\<rparr>, Inr next)))
              else (s, Inr rn)))"

definition getRun :: "Store \<Rightarrow> string \<Rightarrow> Store \<times> RunDetail option throws" where
  "getRun s runId =
     (case map_get (s_runs s) runId of
        None \<Rightarrow> (s, Inr None)
      | Some rn \<Rightarrow>
          (let (s', next) = (if rn_finishedAt rn = None then advanceLive s rn else (s, Inr rn))
           in (s', case next of Inl e \<Rightarrow> Inl e | Inr r \<Rightarrow> map_sum id Some (parse_with RunDetailSchema_ok r))))"

section \<open>Retries\<close>

fun newRunId :: "(string, RunDetail) jsmap \<Rightarrow> 128 word list \<Rightarrow> string option" where
  "newRunId runs [] = None"
| "newRunId runs (u # us) = (let i = hex_id 12 u in if map_get runs i \<noteq> None then newRunId runs us else Some i)"

text \<open>The script of a retry: read the actual state, then one change per poll, then settle.\<close>

definition retry_read_step :: "RunDetail \<Rightarrow> LiveStep" where
  "retry_read_step rn =
     (let n = length (rd_changes rn)
      in \<lparr>ls_offsetMs = 500, ls_level = L_info,
          ls_text = ''read actual '' @ mid_dot @ '' plan: '' @ show_nat n @ '' change'' @ (if n = 1 then '''' else ''s''),
          ls_changes = [], ls_durationMs = 500, ls_finish = None\<rparr>)"

definition retry_change_step :: "RunDetail \<Rightarrow> nat \<Rightarrow> LiveStep" where
  "retry_change_step rn i =
     (let c = rd_changes rn ! i; at = 500 + RETRY_CHANGE_DURATION_MS * (i + 1)
      in \<lparr>ls_offsetMs = at, ls_level = L_ready, ls_text = ''change '' @ show_nat (ch_index c) @ '' ok'',
          ls_changes = (if i + 1 < length (rd_changes rn)
                        then map_set [(ch_index c, Ch_applied)] (ch_index (rd_changes rn ! (i + 1))) Ch_applying
                        else [(ch_index c, Ch_applied)]),
          ls_durationMs = at, ls_finish = None\<rparr>)"

definition retry_settle_step :: "RunDetail \<Rightarrow> LiveStep" where
  "retry_settle_step rn =
     (let total = 500 + RETRY_CHANGE_DURATION_MS * length (rd_changes rn) + 60
      in \<lparr>ls_offsetMs = total, ls_level = L_ready,
          ls_text = ''phase Ready, observedGeneration '' @ show_nat (rn_generation rn) @ '' '' @ mid_dot @ '' lock released'',
          ls_changes = [], ls_durationMs = total,
          ls_finish = Some (Applied,
            [phase_row ''plan'' 120 Ready_tone 1, phase_row ''read actual'' (500 - 120) Link 2,
             phase_row (''apply 1'' @ en_dash @ show_nat (length (rd_changes rn))) (total - 500) Ready_tone 3])\<rparr>)"

definition retryScript :: "RunDetail \<Rightarrow> LiveStep list" where
  "retryScript rn =
     [retry_read_step rn] @ map (retry_change_step rn) [0..<length (rd_changes rn)] @ [retry_settle_step rn]"

definition retry_changes :: "RunChange list \<Rightarrow> RunChange list" where
  "retry_changes cs =
     map (\<lambda>(i, c). \<lparr>ch_index = ch_index c, ch_kind = ch_kind c, ch_description = ch_description c,
                    ch_note = Some (if i = 0 then ''in flight'' else ''queued''), ch_durationMs = None,
                    ch_outcome = (if i = 0 then Ch_applying else Ch_pending), ch_error = None\<rparr>)
       (enumerate (0 :: nat) cs)"

definition retry_run :: "RunDetail \<Rightarrow> string \<Rightarrow> instant \<Rightarrow> RunDetail" where
  "retry_run original i now =
     (let startedAt = toISOString now; changes = retry_changes (rd_changes original)
      in original\<lparr>rn_id := i, rn_trigger := Manual, rn_outcome := Applying_run, rn_startedAt := startedAt, rn_finishedAt := None,
          rn_durationMs := 120, rn_traceId := i @ take 8 i, rn_changeOutcomes := map ch_outcome changes, rn_driftCount := 0,
          rn_attempt := None, rn_retryOf := Some (rn_id original),
          rd_phases := [phase_row ''plan'' 120 Ready_tone 1, phase_row ''read actual'' 0 Link 2,
            phase_row (''apply 1'' @ en_dash @ show_nat (length changes)) 0 Link 3],
          rd_changes := changes,
          rd_facts := (rd_facts original)\<lparr>fa_advisoryLockHeldMs := None, fa_outboxMessageId := None,
            fa_snapshotKey := (if length changes \<noteq> 0
              then Some (''r2://snapshots/'' @ rn_tenantSlug original @ ''/'' @ i @ ''.json'') else None)\<rparr>,
          rd_log := [\<lparr>ll_ts = startedAt, ll_level = L_info, ll_text = ''claimed manual retry of '' @ shortId (rn_id original)\<rparr>,
            \<lparr>ll_ts = startedAt, ll_level = L_info, ll_text = ''acquired advisory lock''\<rparr>],
          rd_traceUrl := ''https://traces.authz-plane.example/trace/'' @ i @ take 8 i,
          rd_snapshot := (rd_snapshot original)\<lparr>sn_runId := i, sn_retryOf := Some (rn_id original), sn_takenAt := startedAt\<rparr>\<rparr>)"

definition retryRun :: "Store \<Rightarrow> string \<Rightarrow> string \<Rightarrow> instant \<Rightarrow> 128 word list \<Rightarrow> Store \<times> string result option" where
  "retryRun s runId idempotencyKey now draws =
     (if truthy (map_get (s_retriesByKey s) idempotencyKey)
      then (s, map_option Inr (map_get (s_retriesByKey s) idempotencyKey))
      else case map_get (s_runs s) runId of
        None \<Rightarrow> (s, Some (Inl \<lparr>f_status = 404, f_title = ''Run not found'', f_detail = Some (''No reconcile run '' @ runId @ ''.'')\<rparr>))
      | Some original \<Rightarrow>
          if rn_finishedAt original = None
          then (s, Some (Inl \<lparr>f_status = 409, f_title = ''Run still in flight'',
                  f_detail = Some (''Run '' @ shortId runId @ '' has not finished; wait for it to settle before retrying.'')\<rparr>))
          else case newRunId (s_runs s) draws of
            None \<Rightarrow> (s, None)
          | Some i \<Rightarrow>
              (let rn = retry_run original i now
               in (s\<lparr>s_runs := map_set (s_runs s) i rn, s_scripts := map_set (s_scripts s) i (retryScript rn),
                     s_retriesByKey := map_set (s_retriesByKey s) idempotencyKey i\<rparr>,
                   Some (Inr i))))"

section \<open>Operation sequences\<close>

datatype RunOp = Get_run string | Retry_run string string instant "128 word list"

definition run_step :: "Store \<Rightarrow> RunOp \<Rightarrow> Store" where
  "run_step s x =
     (case x of Get_run i \<Rightarrow> fst (getRun s i) | Retry_run i k now draws \<Rightarrow> fst (retryRun s i k now draws))"

definition op_ok :: "RunOp \<Rightarrow> bool" where
  "op_ok x \<longleftrightarrow> (case x of Get_run _ \<Rightarrow> True | Retry_run _ _ now _ \<Rightarrow> clock_ok now)"

definition runs_after :: "RunOp list \<Rightarrow> Store" where
  "runs_after ops = run run_step seed ops"

section \<open>Invariants\<close>

text \<open>
  What every stored run satisfies. For a retry the outcome of each change is a function of the
  number of steps its script has made (\<open>stage\<close>), and the run is settled exactly when the script
  is at its end.
\<close>

definition live_step :: "Store \<Rightarrow> string \<Rightarrow> nat" where
  "live_step s i = (case map_get (s_liveStep s) i of Some n \<Rightarrow> n | None \<Rightarrow> 0)"

definition stage :: "nat \<Rightarrow> nat \<Rightarrow> ChangeOutcome" where
  "stage k j = (if j < k - 1 then Ch_applied else if j = k - 1 then Ch_applying else Ch_pending)"

definition indices_ok :: "RunChange list \<Rightarrow> bool" where
  "indices_ok cs \<longleftrightarrow> map ch_index cs = [1..<Suc (length cs)]"

definition retry_progress :: "RunDetail \<Rightarrow> nat \<Rightarrow> bool" where
  "retry_progress r k \<longleftrightarrow>
     k \<le> length (rd_changes r) + 2
     \<and> map ch_outcome (rd_changes r) = map (stage k) [0..<length (rd_changes r)]
     \<and> (if k = length (rd_changes r) + 2 then rn_finishedAt r \<noteq> None \<and> rn_outcome r = Applied
        else rn_finishedAt r = None \<and> rn_outcome r = Applying_run)"

definition run_ok :: "Store \<Rightarrow> string \<Rightarrow> RunDetail \<Rightarrow> bool" where
  "run_ok s i r \<longleftrightarrow>
     rn_id r = i \<and> RunDetailSchema_ok r \<and> Date_parse (rn_startedAt r) \<noteq> None \<and> indices_ok (rd_changes r)
     \<and> rn_changeOutcomes r = map ch_outcome (rd_changes r)
     \<and> (rn_retryOf r \<noteq> None \<longrightarrow> map_get (s_scripts s) i = Some (retryScript r) \<and> retry_progress r (live_step s i))"

definition script_ok :: "LiveStep list \<Rightarrow> bool" where
  "script_ok sc \<longleftrightarrow>
     list_all (\<lambda>l. ls_text l \<noteq> [] \<and> pred_option (\<lambda>(_, phases). list_all RunPhaseSchema_ok phases) (ls_finish l)) sc"

definition store_wf :: "Store \<Rightarrow> bool" where
  "store_wf s \<longleftrightarrow>
     map_wf (s_runs s)
     \<and> (\<forall>i r. map_get (s_runs s) i = Some r \<longrightarrow> run_ok s i r)
     \<and> (\<forall>i sc. map_get (s_scripts s) i = Some sc \<longrightarrow> script_ok sc)
     \<and> (\<forall>i. map_get (s_liveStep s) i \<noteq> None \<longrightarrow> map_get (s_runs s) i \<noteq> None)"

lemma indices_ok_nth: "indices_ok cs \<Longrightarrow> j < length cs \<Longrightarrow> ch_index (cs ! j) = Suc j"
proof -
  assume "indices_ok cs" "j < length cs"
  then have "map ch_index cs ! j = [1..<Suc (length cs)] ! j" "j < length cs" unfolding indices_ok_def by metis+
  then show ?thesis by (simp del: upt_Suc)
qed

section \<open>The scripts\<close>

lemma ch_index_advance [simp]: "ch_index (advance_change st c) = ch_index c"
  by (simp add: advance_change_def split: option.split)

lemma advance_run_same [simp]:
  "rn_id (advance_run st t r) = rn_id r" "rn_tenantSlug (advance_run st t r) = rn_tenantSlug r"
  "rn_generation (advance_run st t r) = rn_generation r" "rn_startedAt (advance_run st t r) = rn_startedAt r"
  "rn_traceId (advance_run st t r) = rn_traceId r" "rn_attempt (advance_run st t r) = rn_attempt r"
  "rn_retryOf (advance_run st t r) = rn_retryOf r" "rd_traceUrl (advance_run st t r) = rd_traceUrl r"
  "rd_changes (advance_run st t r) = map (advance_change st) (rd_changes r)"
  "rn_changeOutcomes (advance_run st t r) = map ch_outcome (rd_changes (advance_run st t r))"
  by (simp_all add: advance_run_def Let_def split: option.split prod.split)

lemma indices_ok_advance [simp]: "indices_ok (map (advance_change st) cs) = indices_ok cs"
  by (simp add: indices_ok_def o_def)

lemma advance_change_ok: "RunChangeSchema_ok c \<Longrightarrow> RunChangeSchema_ok (advance_change st c)"
  by (simp add: RunChangeSchema_ok_def advance_change_def split: option.split)

lemma advance_run_ok:
  assumes "RunDetailSchema_ok r" and "script_ok sc" and "k < length sc"
  shows "RunDetailSchema_ok (advance_run (sc ! k) t r)"
proof -
  let ?st = "sc ! k"
  have st: "ls_text ?st \<noteq> []" "pred_option (\<lambda>(_, phases). list_all RunPhaseSchema_ok phases) (ls_finish ?st)"
    using assms(2,3) by (auto simp: script_ok_def list_all_length)
  have sum: "RunSummarySchema_ok (advance_run ?st t r)" using assms(1)
    by (simp add: RunDetailSchema_ok_def RunSummarySchema_ok_def)
  have ch: "list_all RunChangeSchema_ok (rd_changes (advance_run ?st t r))" using assms(1)
    by (auto simp: RunDetailSchema_ok_def list_all_iff intro: advance_change_ok)
  have rest: "list_all RunPhaseSchema_ok (rd_phases (advance_run ?st t r))" "RunFactsSchema_ok (rd_facts (advance_run ?st t r))"
      "list_all LogLineSchema_ok (rd_log (advance_run ?st t r))"
    using assms(1) st
    by (auto simp: RunDetailSchema_ok_def RunFactsSchema_ok_def LogLineSchema_ok_def advance_run_def Let_def split: option.split)
  show ?thesis using sum ch rest assms(1) by (simp add: RunDetailSchema_ok_def)
qed

lemma retryScript_cong:
  assumes "map ch_index (rd_changes r) = map ch_index (rd_changes r')" and "rn_generation r = rn_generation r'"
  shows "retryScript r = retryScript r'"
proof -
  have len: "length (rd_changes r) = length (rd_changes r')" using assms(1) map_eq_imp_length_eq by blast
  then have "ch_index (rd_changes r ! j) = ch_index (rd_changes r' ! j)" if "j < length (rd_changes r)" for j
    using assms(1) that by (metis nth_map)
  then have "retry_change_step r j = retry_change_step r' j" if "j < length (rd_changes r)" for j
    using that len by (simp add: retry_change_step_def Let_def)
  then show ?thesis using len assms(2)
    by (simp add: retryScript_def retry_read_step_def retry_settle_step_def)
qed

lemma retryScript_advance [simp]: "retryScript (advance_run st t r) = retryScript r"
  by (rule retryScript_cong) (simp_all add: o_def)

lemma length_retryScript [simp]: "length (retryScript r) = length (rd_changes r) + 2"
  by (simp add: retryScript_def)

lemma retryScript_nth:
  "retryScript r ! 0 = retry_read_step r"
  "j < length (rd_changes r) \<Longrightarrow> retryScript r ! Suc j = retry_change_step r j"
  "retryScript r ! Suc (length (rd_changes r)) = retry_settle_step r"
  by (simp_all add: retryScript_def nth_append)

lemma script_ok_retry: "script_ok (retryScript r)"
  by (simp add: script_ok_def retryScript_def retry_read_step_def retry_change_step_def retry_settle_step_def
      RunPhaseSchema_ok_def list_all_iff Let_def)

lemma advance_no_changes: "ls_changes st = [] \<Longrightarrow> map (advance_change st) cs = cs"
  by (simp add: advance_change_def map_idI)

lemma stage_step:
  assumes "indices_ok cs" and "map ch_outcome cs = map (stage (Suc k)) [0..<length cs]" and "k < length cs"
    and "rd_changes r = cs"
  shows "map ch_outcome (map (advance_change (retry_change_step r k)) cs) = map (stage (Suc (Suc k))) [0..<length cs]"
proof (rule nth_equalityI)
  show "length (map ch_outcome (map (advance_change (retry_change_step r k)) cs)) = length (map (stage (Suc (Suc k))) [0..<length cs])"
    by simp
  fix j
  assume "j < length (map ch_outcome (map (advance_change (retry_change_step r k)) cs))"
  then have j: "j < length cs" by simp
  from assms(2) j have old: "ch_outcome (cs ! j) = stage (Suc k) j" by (metis add_0 length_map map_nth nth_map nth_upt)
  have "ch_outcome (advance_change (retry_change_step r k) (cs ! j)) = stage (Suc (Suc k)) j"
    using j assms(1,3,4) old
    by (auto simp: advance_change_def retry_change_step_def Let_def indices_ok_nth stage_def)
  with j show "map ch_outcome (map (advance_change (retry_change_step r k)) cs) ! j = map (stage (Suc (Suc k))) [0..<length cs] ! j"
    by simp
qed

lemma retry_steps [simp]:
  "ls_changes (retry_read_step r) = []" "ls_finish (retry_read_step r) = None"
  "ls_finish (retry_change_step r j) = None"
  "ls_changes (retry_settle_step r) = []" "\<exists>ph. ls_finish (retry_settle_step r) = Some (Applied, ph)"
  by (simp_all add: retry_read_step_def retry_change_step_def retry_settle_step_def Let_def)

lemma retry_progress_advance:
  assumes "map ch_outcome (map (advance_change st) (rd_changes r)) = map (stage (Suc k)) [0..<length (rd_changes r)]"
    and "k < length (rd_changes r) + 2"
    and "if Suc k = length (rd_changes r) + 2 then \<exists>ph. ls_finish st = Some (Applied, ph)
         else ls_finish st = None \<and> rn_finishedAt r = None \<and> rn_outcome r = Applying_run"
  shows "retry_progress (advance_run st t r) (Suc k)"
proof -
  have "rn_outcome (advance_run st t r) = (case ls_finish st of None \<Rightarrow> rn_outcome r | Some (oc, _) \<Rightarrow> oc)"
      "rn_finishedAt (advance_run st t r) = None \<longleftrightarrow> ls_finish st = None \<and> rn_finishedAt r = None"
    by (auto simp: advance_run_def Let_def split: option.split)
  with assms show ?thesis unfolding retry_progress_def by (auto simp del: map_map split: if_splits)
qed

lemma retry_progress_step:
  assumes ix: "indices_ok (rd_changes r)" and p: "retry_progress r k" and k: "k < length (rd_changes r) + 2"
  shows "retry_progress (advance_run (retryScript r ! k) t r) (Suc k)"
proof -
  let ?n = "length (rd_changes r)"
  have old: "map ch_outcome (rd_changes r) = map (stage k) [0..<?n]" "rn_finishedAt r = None" "rn_outcome r = Applying_run"
    using p k by (auto simp: retry_progress_def)
  consider "k = 0" | j where "k = Suc j" "j < ?n" | "k = Suc ?n" using k by (cases k) force+
  then show ?thesis
  proof cases
    case 1
    then have "map (stage k) [0..<?n] = map (stage (Suc k)) [0..<?n]" by (auto simp: stage_def)
    then show ?thesis using 1 old k
      by (intro retry_progress_advance) (simp_all only: retryScript_nth advance_no_changes retry_steps, simp_all)
  next
    case (2 j)
    have "map ch_outcome (map (advance_change (retry_change_step r j)) (rd_changes r)) = map (stage (Suc k)) [0..<?n]"
      using stage_step [OF ix _ 2(2) refl] old(1) 2(1) by simp
    then show ?thesis using 2 old k
      by (intro retry_progress_advance) (simp_all only: retryScript_nth retry_steps, simp_all)
  next
    case 3
    then have "map (stage k) [0..<?n] = map (stage (Suc k)) [0..<?n]" by (auto simp: stage_def)
    then show ?thesis using 3 old k
      by (intro retry_progress_advance) (simp_all only: retryScript_nth advance_no_changes retry_steps, simp_all)
  qed
qed

section \<open>Every operation keeps the invariant\<close>

lemma store_wfD:
  assumes "store_wf s"
  shows "map_get (s_runs s) i = Some r \<Longrightarrow> run_ok s i r"
    and "map_get (s_scripts s) i = Some sc \<Longrightarrow> script_ok sc"
    and "map_get (s_runs s) i = None \<Longrightarrow> live_step s i = 0"
  using assms by (auto simp: store_wf_def live_step_def split: option.split)

lemma run_okD:
  assumes "run_ok s i r"
  shows "rn_id r = i" "RunDetailSchema_ok r" "\<exists>t. Date_parse (rn_startedAt r) = Some t" "indices_ok (rd_changes r)"
    "rn_changeOutcomes r = map ch_outcome (rd_changes r)"
  using assms by (auto simp: run_ok_def)

text \<open>The store after one scripted step of run \<open>i\<close>.\<close>

definition stepped :: "Store \<Rightarrow> string \<Rightarrow> RunDetail \<Rightarrow> Store" where
  "stepped s i next' = s\<lparr>s_liveStep := map_set (s_liveStep s) i (live_step s i + 1), s_runs := map_set (s_runs s) i next'\<rparr>"

lemma getRun_cases [consumes 1, case_names missing still stepped]:
  assumes wf: "store_wf s"
  obtains "map_get (s_runs s) i = None" "getRun s i = (s, Inr None)"
  | r where "map_get (s_runs s) i = Some r" "getRun s i = (s, Inr (Some r))"
      "rn_finishedAt r \<noteq> None \<or> map_get (s_scripts s) i = None
        \<or> (\<exists>sc. map_get (s_scripts s) i = Some sc \<and> length sc \<le> live_step s i)"
  | r sc t where "map_get (s_runs s) i = Some r" "rn_finishedAt r = None" "map_get (s_scripts s) i = Some sc"
      "live_step s i < length sc"
      "getRun s i = (stepped s i (advance_run (sc ! live_step s i) t r), Inr (Some (advance_run (sc ! live_step s i) t r)))"
proof (cases "map_get (s_runs s) i")
  case None
  then show ?thesis using that(1) by (simp add: getRun_def)
next
  case (Some r)
  note ok = run_okD [OF store_wfD(1) [OF wf Some]]
  show ?thesis
  proof (cases "rn_finishedAt r = None \<and> (\<exists>sc. map_get (s_scripts s) i = Some sc \<and> live_step s i < length sc)")
    case True
    then obtain sc where sc: "rn_finishedAt r = None" "map_get (s_scripts s) i = Some sc" "live_step s i < length sc" by blast
    obtain t where t: "Date_parse (rn_startedAt r) = Some t" using ok(3) by blast
    have "RunDetailSchema_ok (advance_run (sc ! live_step s i) t r)"
      using advance_run_ok [OF ok(2) store_wfD(2) [OF wf sc(2)] sc(3)] .
    then have "getRun s i = (stepped s i (advance_run (sc ! live_step s i) t r), Inr (Some (advance_run (sc ! live_step s i) t r)))"
      using Some sc t ok(1) by (simp add: getRun_def advanceLive_def stepped_def Let_def flip: live_step_def)
    with Some sc show ?thesis by (rule that(3))
  next
    case False
    then have "rn_finishedAt r \<noteq> None \<or> map_get (s_scripts s) i = None
        \<or> (\<exists>sc. map_get (s_scripts s) i = Some sc \<and> length sc \<le> live_step s i)"
      by (cases "map_get (s_scripts s) i") (auto simp: not_less)
    moreover from this have "getRun s i = (s, Inr (Some r))"
      using Some ok(1,2) by (auto simp: getRun_def advanceLive_def Let_def simp flip: live_step_def)
    ultimately show ?thesis using that(2) Some by blast
  qed
qed

lemma live_step_stepped [simp]: "live_step (stepped s i n) j = (if j = i then Suc (live_step s i) else live_step s j)"
  by (simp add: live_step_def stepped_def)

lemma stepped_fields [simp]:
  "s_scripts (stepped s i n) = s_scripts s" "s_retriesByKey (stepped s i n) = s_retriesByKey s"
  "map_get (s_runs (stepped s i n)) j = (if j = i then Some n else map_get (s_runs s) j)"
  "map_get (s_liveStep (stepped s i n)) j = (if j = i then Some (Suc (live_step s i)) else map_get (s_liveStep s) j)"
  by (simp_all add: stepped_def)

lemma run_ok_other: "run_ok s j r \<Longrightarrow> j \<noteq> i \<Longrightarrow> run_ok (stepped s i n) j r"
  by (simp add: run_ok_def)

lemma stepped_wf:
  assumes wf: "store_wf s" and r: "map_get (s_runs s) i = Some r" and sc: "map_get (s_scripts s) i = Some sc"
    and k: "live_step s i < length sc"
  shows "store_wf (stepped s i (advance_run (sc ! live_step s i) t r))"
proof -
  let ?n = "advance_run (sc ! live_step s i) t r"
  have ok: "run_ok s i r" using store_wfD(1) [OF wf r] .
  have "RunDetailSchema_ok ?n" using advance_run_ok [OF run_okD(2) [OF ok] store_wfD(2) [OF wf sc] k] .
  moreover have "map_get (s_scripts s) i = Some (retryScript ?n) \<and> retry_progress ?n (Suc (live_step s i))" if "rn_retryOf r \<noteq> None"
  proof -
    have p: "sc = retryScript r" "retry_progress r (live_step s i)" using ok sc that by (auto simp: run_ok_def)
    with k have "live_step s i < length (rd_changes r) + 2" by simp
    from retry_progress_step [OF run_okD(4) [OF ok] p(2) this] p(1) sc show ?thesis by simp
  qed
  ultimately have "run_ok (stepped s i ?n) i ?n" using ok by (simp add: run_ok_def)
  moreover have "map_wf (s_runs (stepped s i ?n))" using wf by (simp add: store_wf_def stepped_def)
  moreover have "map_get (s_liveStep (stepped s i ?n)) j \<noteq> None \<longrightarrow> map_get (s_runs (stepped s i ?n)) j \<noteq> None" for j
  proof -
    have "map_get (s_liveStep s) j \<noteq> None \<longrightarrow> map_get (s_runs s) j \<noteq> None" using wf unfolding store_wf_def by blast
    then show ?thesis unfolding stepped_fields by auto
  qed
  ultimately show ?thesis using wf store_wfD(1) [OF wf]
    unfolding store_wf_def by (auto intro: run_ok_other)
qed

lemma getRun_wf: "store_wf s \<Longrightarrow> store_wf (fst (getRun s i))"
proof -
  assume wf: "store_wf s"
  then show ?thesis by (rule getRun_cases [where i = i]) (use wf in \<open>auto intro: stepped_wf\<close>)
qed

text \<open>The successful retry, and what the store is afterwards.\<close>

definition enqueued :: "Store \<Rightarrow> string \<Rightarrow> string \<Rightarrow> RunDetail \<Rightarrow> Store" where
  "enqueued s key i r =
     s\<lparr>s_runs := map_set (s_runs s) i r, s_scripts := map_set (s_scripts s) i (retryScript r),
       s_retriesByKey := map_set (s_retriesByKey s) key i\<rparr>"

lemma newRunId_Some: "newRunId runs us = Some i \<Longrightarrow> map_get runs i = None \<and> hex_n 12 i"
  by (induction runs us rule: newRunId.induct) (auto simp: Let_def split: if_splits)

lemma newRunId_returns: "list_ex (\<lambda>u. map_get runs (hex_id 12 u) = None) us \<Longrightarrow> newRunId runs us \<noteq> None"
  by (induction runs us rule: newRunId.induct) (auto simp: Let_def)

lemma retryRun_cases [case_names replay same fresh]:
  obtains i where "truthy (Some i)" "map_get (s_retriesByKey s) key = Some i" "retryRun s runId key now us = (s, Some (Inr i))"
  | res where "\<not> truthy (map_get (s_retriesByKey s) key)" "retryRun s runId key now us = (s, res)" "\<forall>i. res \<noteq> Some (Inr i)"
  | original i where "\<not> truthy (map_get (s_retriesByKey s) key)" "map_get (s_runs s) runId = Some original"
      "rn_finishedAt original \<noteq> None" "map_get (s_runs s) i = None" "hex_n 12 i"
      "retryRun s runId key now us = (enqueued s key i (retry_run original i now), Some (Inr i))"
proof (cases "truthy (map_get (s_retriesByKey s) key)")
  case True
  then show ?thesis using that(1) by (auto simp: retryRun_def truthy_def split: option.splits)
next
  case no: False
  show ?thesis
  proof (cases "map_get (s_runs s) runId")
    case None
    then show ?thesis using that(2) no by (simp add: retryRun_def)
  next
    case (Some original)
    show ?thesis
    proof (cases "rn_finishedAt original = None \<or> newRunId (s_runs s) us = None")
      case True
      then have "\<exists>res. retryRun s runId key now us = (s, res) \<and> (\<forall>i. res \<noteq> Some (Inr i))"
        using no Some by (cases "rn_finishedAt original") (simp_all add: retryRun_def)
      then show ?thesis using that(2) no by blast
    next
      case False
      then obtain i f where i: "rn_finishedAt original = Some f" "newRunId (s_runs s) us = Some i" by auto
      then have "retryRun s runId key now us = (enqueued s key i (retry_run original i now), Some (Inr i))"
        using no Some by (simp add: retryRun_def enqueued_def Let_def)
      with newRunId_Some [OF i(2)] no Some i(1) show ?thesis by (intro that(3)) simp_all
    qed
  qed
qed

lemma enqueued_fields [simp]:
  "map_get (s_runs (enqueued s key i r)) j = (if j = i then Some r else map_get (s_runs s) j)"
  "map_get (s_scripts (enqueued s key i r)) j = (if j = i then Some (retryScript r) else map_get (s_scripts s) j)"
  "map_get (s_retriesByKey (enqueued s key i r)) k = (if k = key then Some i else map_get (s_retriesByKey s) k)"
  "s_liveStep (enqueued s key i r) = s_liveStep s" "live_step (enqueued s key i r) = live_step s"
  by (simp_all add: enqueued_def live_step_def fun_eq_iff)

lemma https_url_trace: "list_all is_hex h \<Longrightarrow> https_url (TRACE_BASE @ h)"
proof -
  assume "list_all is_hex h"
  moreover have "is_hex c \<Longrightarrow> is_word_dash c" for c
    by (auto simp: is_hex_def is_word_dash_def is_word_def is_lower_def is_digit_def Let_def)
  ultimately have h: "list_all (\<lambda>c. is_word_dash c \<or> c = CHR ''/'') h" by (simp add: list_all_iff)
  have host: "list_all (\<lambda>c. is_lower c \<or> is_digit c \<or> c = CHR ''-'' \<or> c = CHR ''.'') ''traces.authz-plane.example''"
      "is_lower (CHR ''t'')" "is_lower (CHR ''e'')" "list_all (\<lambda>c. is_word_dash c \<or> c = CHR ''/'') ''/trace/''"
    by code_simp+
  have split: "takeWhile (\<lambda>c. c \<noteq> CHR ''/'') (drop 8 (TRACE_BASE @ h)) = ''traces.authz-plane.example''"
      "dropWhile (\<lambda>c. c \<noteq> CHR ''/'') (drop 8 (TRACE_BASE @ h)) = ''/trace/'' @ h" "startsWith (TRACE_BASE @ h) ''https://''"
    by (simp_all add: TRACE_BASE_def startsWith_def)
  show ?thesis unfolding https_url_def Let_def split(1,2) using h host split(3) by simp
qed

lemma retry_changes_fields:
  "map ch_index (retry_changes cs) = map ch_index cs" "length (retry_changes cs) = length cs"
  "map ch_outcome (retry_changes cs) = map (stage 0) [0..<length cs]"
  by (auto simp: retry_changes_def stage_def enumerate_eq_zip comp_def case_prod_unfold intro!: nth_equalityI)

lemma retry_changes_ok: "list_all RunChangeSchema_ok cs \<Longrightarrow> list_all RunChangeSchema_ok (retry_changes cs)"
  by (auto simp: retry_changes_def list_all_iff RunChangeSchema_ok_def in_set_enumerate_eq)

lemma retry_run_detail_ok:
  assumes "RunDetailSchema_ok original" and "hex_n 12 i"
  shows "RunDetailSchema_ok (retry_run original i now)"
proof -
  have "hex_n 20 (i @ take 8 i)" using hex_n_append [OF assms(2) hex_n_take [OF assms(2), of 8]] by simp
  then have "https_url (TRACE_BASE @ i @ take 8 i)" by (intro https_url_trace) (simp add: hex_n_iff list_all_iff)
  then show ?thesis using assms retry_changes_ok [of "rd_changes original"]
    by (simp add: RunDetailSchema_ok_def RunSummarySchema_ok_def retry_run_def Let_def RunPhaseSchema_ok_def
        RunFactsSchema_ok_def LogLineSchema_ok_def TRACE_BASE_def hex_n_iff)
qed

lemma retry_run_ok:
  assumes "run_ok s j original" and "hex_n 12 i" and "clock_ok now" and "live_step s i = 0"
  shows "run_ok (enqueued s key i (retry_run original i now)) i (retry_run original i now)"
proof -
  let ?r = "retry_run original i now"
  have ch: "rd_changes ?r = retry_changes (rd_changes original)" "rn_startedAt ?r = toISOString now" "rn_id ?r = i"
      "rn_changeOutcomes ?r = map ch_outcome (rd_changes ?r)" "rn_finishedAt ?r = None" "rn_outcome ?r = Applying_run"
    by (simp_all add: retry_run_def Let_def)
  have "retry_progress ?r 0" unfolding retry_progress_def ch retry_changes_fields by simp
  moreover have "indices_ok (rd_changes ?r)"
    using run_okD(4) [OF assms(1)] unfolding indices_ok_def ch retry_changes_fields .
  ultimately show ?thesis
    using retry_run_detail_ok [OF run_okD(2) [OF assms(1)] assms(2), of now] assms(4) ch clock_ok_parse [OF assms(3)]
    by (simp add: run_ok_def)
qed

lemma retryRun_wf:
  assumes wf: "store_wf s" and now: "clock_ok now"
  shows "store_wf (fst (retryRun s runId key now us))"
proof (cases rule: retryRun_cases [where s = s and key = key and runId = runId and now = now and us = us])
  case (fresh original i)
  let ?r = "retry_run original i now"
  have "run_ok (enqueued s key i ?r) i ?r"
    using retry_run_ok [OF store_wfD(1) [OF wf fresh(2)] fresh(5) now store_wfD(3) [OF wf fresh(4)]] .
  moreover have "run_ok (enqueued s key i ?r) j r" if "map_get (s_runs s) j = Some r" "j \<noteq> i" for j r
    using store_wfD(1) [OF wf that(1)] that(2) by (simp add: run_ok_def)
  moreover have "map_wf (s_runs (enqueued s key i ?r))" using wf by (simp add: store_wf_def enqueued_def)
  ultimately show ?thesis using wf script_ok_retry fresh(6)
    unfolding store_wf_def by (auto simp del: not_None_eq)
qed (use wf in auto)

lemma run_step_wf: "store_wf s \<Longrightarrow> op_ok x \<Longrightarrow> store_wf (run_step s x)"
  by (cases x) (simp_all add: run_step_def op_ok_def getRun_wf retryRun_wf)

section \<open>The seeded store\<close>

definition body_ok :: "DetailBody \<Rightarrow> bool" where
  "body_ok b \<longleftrightarrow>
     list_all RunPhaseSchema_ok (db_phases b) \<and> list_all RunChangeSchema_ok (db_changes b)
     \<and> list_all LogLineSchema_ok (db_log b) \<and> indices_ok (db_changes b)"

definition seed_ok :: "RunSeed \<Rightarrow> bool" where
  "seed_ok sd \<longleftrightarrow>
     hex_n 12 (se_id sd) \<and> se_tenantSlug sd \<noteq> [] \<and> 0 < se_generation sd \<and> 8 \<le> length (se_traceId sd)
     \<and> pred_option RunAttemptSchema_ok (se_attempt sd) \<and> list_all is_hex (se_traceId sd) \<and> se_specHash sd \<noteq> []
     \<and> se_actualHash sd \<noteq> [] \<and> se_worker sd \<noteq> Some []"

lemma line_ok [simp]: "LogLineSchema_ok (line a b c d) \<longleftrightarrow> d \<noteq> []"
  by (simp add: LogLineSchema_ok_def line_def)

lemma genericChanges_fields:
  "map ch_index (genericChanges ocs ds) = [1..<Suc (length ocs)]" "length (genericChanges ocs ds) = length ocs"
  "map ch_outcome (genericChanges ocs ds) = ocs"
  by (auto simp: genericChanges_def genericChange_def enumerate_eq_zip comp_def case_prod_unfold intro!: nth_equalityI simp del: upt_Suc)

lemma generic_texts: "GENERIC_KINDS ! (i mod 6) \<noteq> []" "GENERIC_DESCRIPTIONS ! (i mod 6) \<noteq> []"
proof -
  have "list_all (\<lambda>k. k \<noteq> []) GENERIC_KINDS" "list_all (\<lambda>k. k \<noteq> []) GENERIC_DESCRIPTIONS"
      "length GENERIC_KINDS = 6" "length GENERIC_DESCRIPTIONS = 6"
    by (simp_all add: GENERIC_KINDS_def GENERIC_DESCRIPTIONS_def)
  then show "GENERIC_KINDS ! (i mod 6) \<noteq> []" "GENERIC_DESCRIPTIONS ! (i mod 6) \<noteq> []" by (simp_all add: list_all_length)
qed

lemma genericChanges_ok: "list_all RunChangeSchema_ok (genericChanges ocs ds)"
  by (auto simp: genericChanges_def list_all_iff RunChangeSchema_ok_def genericChange_def generic_texts)

lemma genericDetail_ok: "body_ok (genericDetail s)"
proof -
  have "indices_ok (db_changes (genericDetail s))"
    by (simp add: genericDetail_def Let_def indices_ok_def genericChanges_fields del: upt_Suc)
  then show ?thesis
    by (auto simp: body_ok_def genericDetail_def Let_def RunPhaseSchema_ok_def list_all_iff
        dest: genericChanges_ok [unfolded list_all_iff, rule_format])
qed

lemmas special_defs = acmePartialDetail_def acmeUsersResyncDetail_def globexDriftDetail_def northwindExhaustedDetail_def
  initechLiveDetail_def

lemma special_ok:
  "body_ok (acmePartialDetail s)" "body_ok (acmeUsersResyncDetail s)" "body_ok (globexDriftDetail s)"
  "body_ok (northwindExhaustedDetail s)" "body_ok (initechLiveDetail s)"
  by (simp_all add: body_ok_def special_defs Let_def RunPhaseSchema_ok_def RunChangeSchema_ok_def ChangeErrorSchema_ok_def indices_ok_def)

lemma detail_body_ok: "body_ok (detail_body sd s)"
  by (simp add: detail_body_def SPECIAL_def special_ok genericDetail_ok)

lemma summaryOf_fields:
  "rn_id (summaryOf sd t) = se_id sd" "rn_changeOutcomes (summaryOf sd t) = se_changeOutcomes sd"
  "rn_outcome (summaryOf sd t) = se_outcome sd" "rn_startedAt (summaryOf sd t) = toISOString (t - se_startedAgoSeconds sd * 1000)"
  "rn_retryOf (summaryOf sd t) = None"
  by (simp_all add: summaryOf_def Let_def)

lemma detailOf_fields:
  "rn_id (detailOf sd t) = se_id sd" "rn_changeOutcomes (detailOf sd t) = se_changeOutcomes sd"
  "rn_startedAt (detailOf sd t) = toISOString (t - se_startedAgoSeconds sd * 1000)" "rn_retryOf (detailOf sd t) = None"
  "rd_changes (detailOf sd t) = db_changes (detail_body sd (summaryOf sd t))"
  by (simp_all add: detailOf_def Let_def RunSummary.extend_def summaryOf_fields)

lemma detailOf_ok: "seed_ok sd \<Longrightarrow> RunDetailSchema_ok (detailOf sd t)"
  using detail_body_ok [of sd "summaryOf sd t"] https_url_trace [of "se_traceId sd"]
  by (auto simp: RunDetailSchema_ok_def RunSummarySchema_ok_def RunFactsSchema_ok_def detailOf_def Let_def RunSummary.extend_def
      seed_ok_def body_ok_def summaryOf_def split: option.split)

lemma special_outcomes:
  "map ch_outcome (db_changes (acmePartialDetail s)) = [Ch_applied, Ch_applied, Ch_applied, Ch_failed, Ch_skipped]"
  "map ch_outcome (db_changes (acmeUsersResyncDetail s)) = []" "map ch_outcome (db_changes (globexDriftDetail s)) = []"
  "map ch_outcome (db_changes (northwindExhaustedDetail s)) = [Ch_failed]"
  "map ch_outcome (db_changes (initechLiveDetail s)) = [Ch_applied, Ch_applied, Ch_applied, Ch_applying, Ch_pending]"
  "map ch_outcome (db_changes (genericDetail s)) = (if rn_outcome s = NoChanges then [] else rn_changeOutcomes s)"
  by (simp_all add: special_defs genericDetail_def Let_def genericChanges_fields)

lemma SEEDS_ok: "list_all seed_ok SEEDS"
  by (simp add: SEEDS_def seed_ok_def RUN_IDS hex_n_iff is_hex_def code_def SPEC_HASH_def RunAttemptSchema_ok_def)

lemma SEEDS_ids: "distinct (map se_id SEEDS)"
  by (simp add: SEEDS_def RUN_IDS)

lemma SEEDS_outcomes:
  "list_all (\<lambda>sd. map ch_outcome (db_changes (detail_body sd (summaryOf sd t))) = se_changeOutcomes sd) SEEDS"
  by (simp add: SEEDS_def detail_body_def SPECIAL_def RUN_IDS special_outcomes summaryOf_fields)

text \<open>\<^verbatim>\<open>new Date(FIXTURE_NOW)\<close> is the instant the fixtures are computed from.\<close>

lemma FIXTURE_NOW_exec: "re_exec iso_re FIXTURE_NOW = Some [''2026'', ''09'', ''04'', ''10'', ''15'', ''00'']"
  by code_simp

lemma fixture_now_parse: "Date_parse FIXTURE_NOW = Some fixture_now"
proof -
  have "read_nat ''2026'' = 2026" "read_nat ''09'' = 9" "read_nat ''04'' = 4" "read_nat ''10'' = 10"
      "read_nat ''15'' = 15" "read_nat ''00'' = 0"
    by (simp_all add: read_nat_def code_def)
  moreover have "days_before_year 2026 = 20454"
    by (simp add: days_before_year_def days_in_year_def leap_def upt_rec)
  ultimately show ?thesis
    by (simp add: Date_parse_def FIXTURE_NOW_exec instant_of_def month_lengths_def leap_def fixture_now_def)
qed

lemma seed_runs: "s_runs seed = map (\<lambda>sd. (se_id sd, detailOf sd fixture_now)) SEEDS"
proof -
  have "distinct (map rn_id (reconcileRunFixtures fixture_now))"
    using SEEDS_ids by (simp add: reconcileRunFixtures_def detailOf_fields o_def)
  from fold_map_set [OF this, of "[]"] show ?thesis
    by (simp add: seed_def reconcileRunFixtures_def detailOf_fields o_def)
qed

lemma seed_wf: "store_wf seed"
proof -
  have clock: "clock_ok (fixture_now - n)" for n
    using div_le_mono [of "fixture_now - n" fixture_now 86400000] by (simp add: clock_ok_def fixture_now_def)
  have "run_ok seed (se_id sd) (detailOf sd fixture_now)" if "sd \<in> set SEEDS" for sd
    using SEEDS_ok SEEDS_outcomes [of fixture_now] that detail_body_ok [of sd "summaryOf sd fixture_now"] clock
    by (auto simp: run_ok_def detailOf_fields detailOf_ok list_all_iff clock_ok_parse body_ok_def)
  moreover have "map_wf (s_runs seed)" using SEEDS_ids by (simp add: seed_runs o_def)
  moreover have "list_all script_ok (map_values LIVE_SCRIPTS)"
    by (simp add: LIVE_SCRIPTS_def script_ok_def RunPhaseSchema_ok_def)
  then have "script_ok sc" if "map_get LIVE_SCRIPTS i = Some sc" for i sc
    using map_get_values [OF that] by (auto simp: list_all_iff)
  moreover have "s_scripts seed = LIVE_SCRIPTS" "s_liveStep seed = []" by (simp_all add: seed_def)
  ultimately show ?thesis unfolding store_wf_def
    by (auto simp: seed_runs dest!: map_of_SomeD [of "map _ SEEDS"])
qed

end
