(* ===== verification/Reconcile_Behaviour.thy ===== *)
theory Reconcile_Behaviour
  imports Reconcile
begin

text \<open>
  What the reconcile store does over sequences of operations: settled runs never change, a retry
  settles after enough polls whatever happens in between, an Idempotency-Key keeps its answer,
  the listing is newest first and its cursors enumerate it.
\<close>

section \<open>Sequences of operations\<close>

lemma run_wf: "store_wf s \<Longrightarrow> list_all op_ok xs \<Longrightarrow> store_wf (run run_step s xs)"
  by (induction xs arbitrary: s) (auto intro: run_step_wf)

lemma runs_after_wf: "list_all op_ok ops \<Longrightarrow> store_wf (runs_after ops)"
  unfolding runs_after_def by (rule run_wf [OF seed_wf])

lemma run_step_settled:
  assumes "store_wf s" and "map_get (s_runs s) i = Some r" and "rn_finishedAt r \<noteq> None"
  shows "map_get (s_runs (run_step s x)) i = Some r"
proof (cases x)
  case (Get_run j)
  have "map_get (s_runs (fst (getRun s j))) i = Some r"
    by (rule getRun_cases [OF assms(1), where i = j]) (use assms(2,3) in auto)
  then show ?thesis by (simp add: run_step_def Get_run)
next
  case (Retry_run j k now us)
  have "map_get (s_runs (fst (retryRun s j k now us))) i = Some r"
    by (rule retryRun_cases [where s = s and key = k and runId = j and now = now and us = us]) (use assms(2) in auto)
  then show ?thesis by (simp add: run_step_def Retry_run)
qed

lemma run_settled:
  "store_wf s \<Longrightarrow> list_all op_ok xs \<Longrightarrow> map_get (s_runs s) i = Some r \<Longrightarrow> rn_finishedAt r \<noteq> None
     \<Longrightarrow> map_get (s_runs (run run_step s xs)) i = Some r"
proof (induction xs arbitrary: s)
  case Nil
  then show ?case by simp
next
  case (Cons x xs)
  then have "map_get (s_runs (run_step s x)) i = Some r" by (intro run_step_settled)
  with Cons run_step_wf [of s x] show ?case by simp
qed

text \<open>How far a retry has got: every detail read of it makes one step until the script ends, nothing else does.\<close>

definition polls :: "string \<Rightarrow> RunOp list \<Rightarrow> nat" where
  "polls i xs = count_list xs (Get_run i)"

definition is_retry :: "Store \<Rightarrow> string \<Rightarrow> string \<Rightarrow> nat \<Rightarrow> bool" where
  "is_retry s i orig n \<longleftrightarrow> (\<exists>r. map_get (s_runs s) i = Some r \<and> rn_retryOf r = Some orig \<and> length (rd_changes r) = n)"

lemma run_step_retry:
  assumes wf: "store_wf s" and r: "is_retry s i orig n"
  shows "is_retry (run_step s x) i orig n
    \<and> live_step (run_step s x) i = (if x = Get_run i then min (n + 2) (live_step s i + 1) else live_step s i)"
proof -
  obtain r where r: "map_get (s_runs s) i = Some r" "rn_retryOf r = Some orig" "length (rd_changes r) = n"
    using assms(2) by (auto simp: is_retry_def)
  then have p: "map_get (s_scripts s) i = Some (retryScript r)" "retry_progress r (live_step s i)"
    using store_wfD(1) [OF wf r(1)] by (auto simp: run_ok_def)
  show ?thesis
  proof (cases x)
    case (Get_run j)
    show ?thesis
      by (rule getRun_cases [OF wf, where i = j]; cases "j = i")
         (use r p in \<open>auto simp: Get_run run_step_def is_retry_def retry_progress_def split: if_splits\<close>)
  next
    case (Retry_run j k now us)
    show ?thesis
      by (rule retryRun_cases [where s = s and key = k and runId = j and now = now and us = us])
         (use r in \<open>auto simp: Retry_run run_step_def is_retry_def\<close>)
  qed
qed

lemma run_retry:
  "store_wf s \<Longrightarrow> list_all op_ok xs \<Longrightarrow> is_retry s i orig n \<Longrightarrow> live_step s i \<le> n + 2
     \<Longrightarrow> is_retry (run run_step s xs) i orig n \<and> live_step (run run_step s xs) i = min (n + 2) (live_step s i + polls i xs)"
proof (induction xs arbitrary: s)
  case Nil
  then show ?case by (simp add: polls_def)
next
  case (Cons x xs)
  note st = run_step_retry [OF Cons.prems(1,3), of x]
  have "live_step (run_step s x) i \<le> n + 2" using st Cons.prems(4) by simp
  with Cons.IH [of "run_step s x"] Cons.prems st run_step_wf [of s x] show ?case by (auto simp: polls_def)
qed

lemma is_retry_settles:
  assumes "store_wf s" and "is_retry s i orig n" and "live_step s i = n + 2"
  shows "\<exists>r. map_get (s_runs s) i = Some r \<and> rn_retryOf r = Some orig \<and> rn_outcome r = Applied \<and> rn_finishedAt r \<noteq> None
    \<and> rn_changeOutcomes r = replicate n Ch_applied"
proof -
  obtain r where r: "map_get (s_runs s) i = Some r" "rn_retryOf r = Some orig" "length (rd_changes r) = n"
    using assms(2) by (auto simp: is_retry_def)
  have ok: "run_ok s i r" using store_wfD(1) [OF assms(1) r(1)] .
  then have p: "retry_progress r (n + 2)" using r(2) assms(3) by (auto simp: run_ok_def)
  have "map (stage (n + 2)) [0..<n] = replicate n Ch_applied"
    by (rule nth_equalityI) (simp_all add: stage_def)
  then show ?thesis using r p run_okD(5) [OF ok] by (auto simp: retry_progress_def)
qed

section \<open>Idempotency keys\<close>

definition retry_answer :: "Store \<Rightarrow> string \<Rightarrow> string result option option" where
  "retry_answer s key =
     (if truthy (map_get (s_retriesByKey s) key) then Some (map_option Inr (map_get (s_retriesByKey s) key)) else None)"

lemma hex_n_truthy: "hex_n 12 i \<Longrightarrow> truthy (Some i)"
  by (auto simp: truthy_def hex_n_iff)

lemma run_step_answer: "retry_answer s key = Some r \<Longrightarrow> retry_answer (run_step s x) key = Some r"
proof (cases x)
  case (Get_run j)
  assume "retry_answer s key = Some r"
  moreover have "s_retriesByKey (fst (getRun s j)) = s_retriesByKey s"
    by (auto simp: getRun_def advanceLive_def Let_def split: option.splits)
  ultimately show ?thesis unfolding Get_run run_step_def RunOp.case retry_answer_def by (simp split: if_splits)
next
  case (Retry_run j k now us)
  assume a: "retry_answer s key = Some r"
  show ?thesis
    by (rule retryRun_cases [where s = s and key = k and runId = j and now = now and us = us])
       (use a in \<open>auto simp: Retry_run run_step_def retry_answer_def split: if_splits\<close>)
qed

definition retry_accepted :: "string result option \<Rightarrow> bool" where
  "retry_accepted r \<longleftrightarrow> (\<exists>i. r = Some (Inr i))"

interpretation retries: keyed_log "\<lambda>key (runId, now, us) s. retryRun s runId key now us" retry_answer retry_accepted run_step
proof unfold_locales
  fix s key r and a :: "string \<times> instant \<times> 128 word list"
  assume "retry_answer s key = Some r"
  then show "(case a of (runId, now, us) \<Rightarrow> \<lambda>s. retryRun s runId key now us) s = (s, r)"
    by (auto simp: retry_answer_def retryRun_def split: if_splits prod.split)
next
  fix s key s' r and a :: "string \<times> instant \<times> 128 word list"
  assume no: "retry_answer s key = None" and p: "(case a of (runId, now, us) \<Rightarrow> \<lambda>s. retryRun s runId key now us) s = (s', r)"
    and acc: "retry_accepted r"
  obtain runId now us where a: "a = (runId, now, us)" using prod_cases3 by blast
  show "retry_answer s' key = Some r"
    by (rule retryRun_cases [where s = s and key = key and runId = runId and now = now and us = us])
       (use no p acc a in \<open>auto simp: retry_answer_def retry_accepted_def hex_n_truthy split: if_splits\<close>)
next
  show "retry_answer s key = Some r \<Longrightarrow> retry_answer (run_step s x) key = Some r" for s key r x
    by (rule run_step_answer)
qed

section \<open>Order and paging\<close>

definition dated :: "RunSummary \<Rightarrow> bool" where
  "dated r \<longleftrightarrow> Date_parse (rn_startedAt r) \<noteq> None"

interpretation newest: js_comparator newest_first dated
  by unfold_locales (auto simp: newest_first_def dated_def)

interpretation by_duration: js_comparator "\<lambda>a b. int a - int b" "\<lambda>_. True"
  by unfold_locales auto

text \<open>The run started no later.\<close>

definition not_after :: "RunSummary \<Rightarrow> RunSummary \<Rightarrow> bool" where
  "not_after b a \<longleftrightarrow> (\<exists>tb ta. Date_parse (rn_startedAt b) = Some tb \<and> Date_parse (rn_startedAt a) = Some ta \<and> tb \<le> ta)"

definition run_matches :: "RunListFilter \<Rightarrow> RunSummary \<Rightarrow> bool" where
  "run_matches fl r \<longleftrightarrow>
     (truthy (lf_tenant fl) \<longrightarrow> lf_tenant fl = Some (rn_tenantSlug r))
     \<and> (lf_trigger fl \<noteq> None \<longrightarrow> lf_trigger fl = Some (rn_trigger r))
     \<and> (lf_outcome fl \<noteq> None \<longrightarrow> lf_outcome fl = Some (rn_outcome r))"

lemma listed_runs_eq:
  "listed_runs s fl = filter (run_matches fl) (js_sort newest_first (map toSummary (map_values (s_runs s))))"
  by (auto simp: listed_runs_def run_matches_def Let_def intro!: filter_cong split: option.split)

lemma toSummary_fields [simp]: "rn_id (toSummary r) = rn_id r" "rn_startedAt (toSummary r) = rn_startedAt r"
  by (simp_all add: toSummary_def RunSummary.truncate_def)

lemma toSummary_ok: "RunSummarySchema_ok r \<Longrightarrow> RunSummarySchema_ok (toSummary r)"
  by (simp add: RunSummarySchema_ok_def toSummary_def RunSummary.truncate_def)

lemma stored_run_ok: "store_wf s \<Longrightarrow> r \<in> set (map_values (s_runs s)) \<Longrightarrow> \<exists>i. run_ok s i r"
  by (fastforce simp: store_wf_def)

lemma listed_runs_ok:
  assumes "store_wf s" and "r \<in> set (listed_runs s fl)"
  shows "RunSummarySchema_ok r" "dated r" "rn_id r \<noteq> []"
proof -
  obtain d where d: "d \<in> set (map_values (s_runs s))" "r = toSummary d" using assms(2) by (auto simp: listed_runs_eq)
  from stored_run_ok [OF assms(1) d(1)] show ok: "RunSummarySchema_ok r" and "dated r"
    by (auto simp: d(2) run_ok_def RunDetailSchema_ok_def dated_def intro: toSummary_ok)
  from ok show "rn_id r \<noteq> []" by (auto simp: RunSummarySchema_ok_def hex_n_iff)
qed

lemma distinct_map_filter_js: "distinct (map f xs) \<Longrightarrow> distinct (map f (filter P xs))"
  by (induction xs) auto

lemma listed_runs_distinct:
  assumes "store_wf s"
  shows "distinct (map rn_id (listed_runs s fl))"
proof -
  have "rn_id (snd p) = fst p" if "p \<in> set (s_runs s)" for p
    using assms that by (cases p) (auto simp: store_wf_def run_ok_def)
  then have "map (\<lambda>p. rn_id (snd p)) (s_runs s) = map fst (s_runs s)" by simp
  moreover have "map rn_id (map toSummary (map_values (s_runs s))) = map (\<lambda>p. rn_id (snd p)) (s_runs s)" by simp
  moreover have "map_wf (s_runs s)" using assms by (simp add: store_wf_def)
  ultimately have "distinct (map rn_id (map toSummary (map_values (s_runs s))))" by metis
  then show ?thesis unfolding listed_runs_eq by (intro distinct_map_filter_js) simp
qed

lemma listed_runs_sorted:
  assumes "store_wf s"
  shows "sorted_wrt (\<lambda>a b. not_after b a) (listed_runs s fl)"
proof -
  let ?all = "map toSummary (map_values (s_runs s))"
  have d: "list_all dated ?all" using stored_run_ok [OF assms] by (auto simp: list_all_iff run_ok_def dated_def)
  have "sorted_wrt (\<lambda>a b. newest_first a b \<le> 0) (js_sort newest_first ?all)" using d by (rule newest.sorted_js_sort)
  then have "sorted_wrt (\<lambda>a b. newest_first a b \<le> 0) (listed_runs s fl)" unfolding listed_runs_eq by (rule sorted_wrt_filter)
  then show ?thesis
  proof (rule sorted_wrt_mono_rel [rotated])
    fix a b
    assume "a \<in> set (listed_runs s fl)" "b \<in> set (listed_runs s fl)"
    then have "dated a" "dated b" using listed_runs_ok(2) [OF assms] by blast+
    then show "newest_first a b \<le> 0 \<Longrightarrow> not_after b a" by (auto simp: newest_first_def not_after_def dated_def)
  qed
qed

lemma runs_pager:
  assumes "distinct (map rn_id items)" and "\<forall>r \<in> set items. rn_id r \<noteq> []" and "0 < limit"
  shows "key_pager (runs_page items limit) items limit rn_id"
proof
  show "0 < limit" "distinct (map rn_id items)" by fact+
  have last: "(if limit < length xs then if take limit xs = [] then None else Some (rn_id (last (take limit xs))) else None)
      = (if limit < length xs then Some (rn_id (last (take limit xs))) else None)" for xs
    using assms(3) by auto
  show "runs_page items limit None =
      (take limit items, if limit < length items then Some (rn_id (last (take limit items))) else None)"
    by (simp add: runs_page_def truthy_def slice_def last Let_def)
  fix i
  assume i: "i < length items"
  then have "find_index (\<lambda>r. Some (rn_id r) = Some (rn_id (items ! i))) items = Some i"
    using find_index_unique [OF assms(1), of i] by simp
  moreover have "truthy (Some (rn_id (items ! i)))" using assms(2) i by (simp add: truthy_def)
  ultimately show "runs_page items limit (Some (rn_id (items ! i))) =
      (take limit (drop (Suc i) items),
       if Suc i + limit < length items then Some (rn_id (last (take limit (drop (Suc i) items)))) else None)"
    using last [of "drop (Suc i) items"] by (auto simp: runs_page_def slice_def Let_def)
qed

lemma deriveStats_ok: "RunStatsSchema_ok (deriveStats items)"
  by (simp add: RunStatsSchema_ok_def deriveStats_def Let_def)

lemma tenant_stats_ok: "te \<notin> set inherited_keys \<Longrightarrow> \<exists>st. tenant_stats te items = Some st \<and> RunStatsSchema_ok st"
  by (auto simp: tenant_stats_def TENANT_STATS_def deriveStats_ok) (simp add: RunStatsSchema_ok_def)

lemma run_stats_ok:
  assumes "lf_tenant fl = None \<or> lf_tenant fl \<notin> Some ` set inherited_keys"
  shows "\<exists>st. run_stats fl items = Some st \<and> RunStatsSchema_ok st"
proof -
  have "RunStatsSchema_ok PLATFORM_STATS" by (simp add: PLATFORM_STATS_def RunStatsSchema_ok_def)
  moreover have "the (lf_tenant fl) \<notin> set inherited_keys" if "truthy (lf_tenant fl)"
    using assms that by (cases "lf_tenant fl") (auto simp: truthy_def)
  ultimately show ?thesis unfolding run_stats_def using tenant_stats_ok deriveStats_ok by simp
qed

lemma listRuns_page:
  assumes wf: "store_wf s" and t: "lf_tenant fl = None \<or> lf_tenant fl \<notin> Some ` set inherited_keys"
  shows "\<exists>p. listRuns s fl now = Inr p \<and> (pg_items p, pg_nextCursor p) = runs_page (listed_runs s fl) (lf_limit fl) (lf_cursor fl)"
proof -
  let ?pg = "runs_page (listed_runs s fl) (lf_limit fl) (lf_cursor fl)"
  have sub: "set (fst ?pg) \<subseteq> set (listed_runs s fl)"
    by (auto simp: runs_page_def Let_def slice_def dest: in_set_takeD in_set_dropD split: if_splits option.splits)
  then have items: "list_all RunSummarySchema_ok (fst ?pg)" using listed_runs_ok(1) [OF wf] by (auto simp: list_all_iff)
  obtain st where "run_stats fl (listed_runs s fl) = Some st" "RunStatsSchema_ok st" using run_stats_ok [OF t] by blast
  then show ?thesis using items
    by (simp add: listRuns_def Let_def case_prod_unfold RunPageSchema_ok_def WINDOW_LABEL_def)
qed

section \<open>The median\<close>

lemma filter_take_le: "k \<le> length ys \<Longrightarrow> (\<forall>i < k. P (ys ! i)) \<Longrightarrow> k \<le> length (filter P ys)"
proof -
  assume k: "k \<le> length ys" "\<forall>i < k. P (ys ! i)"
  then have "filter P (take k ys) = take k ys" by (auto simp: filter_id_conv in_set_conv_nth)
  moreover have "filter P ys = filter P (take k ys) @ filter P (drop k ys)" by (metis append_take_drop_id filter_append)
  ultimately show ?thesis using k(1) by simp
qed

lemma filter_drop_le: "k \<le> length ys \<Longrightarrow> (\<forall>i < length ys. k \<le> i \<longrightarrow> P (ys ! i)) \<Longrightarrow> length ys - k \<le> length (filter P ys)"
proof -
  assume k: "k \<le> length ys" "\<forall>i < length ys. k \<le> i \<longrightarrow> P (ys ! i)"
  then have "filter P (drop k ys) = drop k ys" by (auto simp: filter_id_conv in_set_conv_nth)
  moreover have "filter P ys = filter P (take k ys) @ filter P (drop k ys)" by (metis append_take_drop_id filter_append)
  ultimately show ?thesis by simp
qed

lemma sorted_durations: "i \<le> j \<Longrightarrow> j < length xs \<Longrightarrow>
    js_sort (\<lambda>a b. int a - int b) xs ! i \<le> js_sort (\<lambda>a b. int a - int b) xs ! j"
  using by_duration.sorted_js_sort [of xs]
  by (cases "i = j") (auto simp: sorted_wrt_iff_nth_less list_all_iff)

lemma length_filter_js_sort: "length (filter P (js_sort cmp xs)) = length (filter P xs)"
  by (metis mset_filter mset_js_sort size_mset)

lemma median_bounds:
  assumes "xs \<noteq> []"
  shows "\<exists>k. k \<le> length xs \<and> length xs \<le> 2 * k
      \<and> (\<forall>i < k. js_sort (\<lambda>a b. int a - int b) xs ! i \<le> median xs)
      \<and> (\<forall>i < length xs. length xs - k \<le> i \<longrightarrow> median xs \<le> js_sort (\<lambda>a b. int a - int b) xs ! i)"
proof (cases "odd (length xs)")
  case True
  then obtain m where m: "length xs = Suc (2 * m)" by (elim oddE) simp
  then have "median xs = js_sort (\<lambda>a b. int a - int b) xs ! m" by (simp add: median_def)
  then show ?thesis using m sorted_durations [of _ m xs] sorted_durations [of m _ xs]
    by (intro exI [of _ "Suc m"]) auto
next
  case False
  with assms obtain m where m: "length xs = 2 * Suc m" by (metis evenE length_0_conv mult_0_right not0_implies_Suc)
  let ?ys = "js_sort (\<lambda>a b. int a - int b) xs"
  have le: "?ys ! m \<le> ?ys ! Suc m" using m by (intro sorted_durations) auto
  have "median xs = round_div (?ys ! m + ?ys ! Suc m) 2" using m by (simp add: median_def Let_def)
  then have b: "?ys ! m \<le> median xs" "median xs \<le> ?ys ! Suc m" using le by (simp_all add: round_div_def)
  have "?ys ! i \<le> median xs" if "i < Suc m" for i
    using sorted_durations [of i m xs] b(1) m that by (simp add: order_trans)
  moreover have "median xs \<le> ?ys ! i" if "i < length xs" "Suc m \<le> i" for i
    using sorted_durations [of "Suc m" i xs] b(2) that by (simp add: order_trans)
  ultimately show ?thesis using m by (intro exI [of _ "Suc m"]) auto
qed

section \<open>Properties\<close>

text \<open>
  C10: a retry of a settled run is accepted and settles. From any reachable store, with an unused
  key and a draw that is not a run id in use, the retry answers a fresh 12-digit run id, and in
  every later sequence of operations that reads the new run at least two times more than it has
  changes, in whatever order and mixed with whatever else, the new run ends as Applied with
  every change applied.
\<close>

theorem retry_settles:
  assumes "list_all op_ok ops" and "clock_ok now" and "map_get (s_retriesByKey (runs_after ops)) key = None"
    and "map_get (s_runs (runs_after ops)) runId = Some original" and "rn_finishedAt original \<noteq> None"
    and "list_ex (\<lambda>u. map_get (s_runs (runs_after ops)) (hex_id 12 u) = None) draws"
  shows "\<exists>i s'. retryRun (runs_after ops) runId key now draws = (s', Some (Inr i)) \<and> hex_n 12 i
    \<and> map_get (s_runs (runs_after ops)) i = None
    \<and> (\<forall>later. list_all op_ok later \<longrightarrow> length (rd_changes original) + 2 \<le> polls i later \<longrightarrow>
        (\<exists>r. map_get (s_runs (run run_step s' later)) i = Some r \<and> rn_retryOf r = Some runId \<and> rn_outcome r = Applied
          \<and> rn_finishedAt r \<noteq> None \<and> rn_changeOutcomes r = replicate (length (rd_changes original)) Ch_applied))"
proof -
  let ?s = "runs_after ops"
  have wf: "store_wf ?s" using assms(1) by (rule runs_after_wf)
  obtain i where i: "newRunId (s_runs ?s) draws = Some i" using newRunId_returns [OF assms(6)] by auto
  let ?r = "retry_run original i now"
  let ?s' = "enqueued ?s key i ?r"
  have run: "retryRun ?s runId key now draws = (?s', Some (Inr i))"
    using assms(3,4,5) i by (auto simp: retryRun_def truthy_def enqueued_def Let_def)
  note fresh = newRunId_Some [OF i]
  have wf': "store_wf ?s'" using retryRun_wf [OF wf assms(2), of runId key draws] run by simp
  have r: "rn_retryOf ?r = Some runId" "length (rd_changes ?r) = length (rd_changes original)"
    using run_okD(1) [OF store_wfD(1) [OF wf assms(4)]] by (simp_all add: retry_run_def Let_def retry_changes_fields)
  then have retry: "is_retry ?s' i runId (length (rd_changes original))" by (simp add: is_retry_def)
  have zero: "live_step ?s' i = 0" using store_wfD(3) [OF wf] fresh by simp
  have "\<exists>r. map_get (s_runs (run run_step ?s' later)) i = Some r \<and> rn_retryOf r = Some runId \<and> rn_outcome r = Applied
      \<and> rn_finishedAt r \<noteq> None \<and> rn_changeOutcomes r = replicate (length (rd_changes original)) Ch_applied"
    if "list_all op_ok later" "length (rd_changes original) + 2 \<le> polls i later" for later
    using run_retry [OF wf' that(1) retry] zero that(2) by (intro is_retry_settles run_wf [OF wf' that(1)]) auto
  with run fresh show ?thesis by blast
qed

text \<open>
  C18: an Idempotency-Key is answered once and for all. After a retry has been accepted (or replayed)
  under a key, the same key answers the same run id and changes nothing, for whatever run it is
  sent and however the store has been used in between.
\<close>

theorem retry_replay:
  assumes "retryRun s runId key now draws = (s', Some (Inr i))"
  shows "retryRun (run run_step s' later) otherRun key now' draws' = (run run_step s' later, Some (Inr i))"
proof -
  have "retry_accepted (Some (Inr i))" by (simp add: retry_accepted_def)
  from retries.perform_later [of key "(runId, now, draws)" s s', OF _ this, of "(otherRun, now', draws')" later] assms
  show ?thesis by simp
qed

text \<open>
  C39: a detail read never throws, and answers exactly the run the store then holds; an unknown id
  answers null and changes nothing.
\<close>

theorem getRun_answers:
  assumes "list_all op_ok ops"
  shows "snd (getRun (runs_after ops) i) = Inr (map_get (s_runs (fst (getRun (runs_after ops) i))) i)
    \<and> (map_get (s_runs (runs_after ops)) i = None \<longrightarrow> getRun (runs_after ops) i = (runs_after ops, Inr None))"
  by (rule getRun_cases [OF runs_after_wf [OF assms], where i = i]) auto

text \<open>
  History is immutable. Once a run is settled, no sequence of reads and retries changes
  anything of it.
\<close>

theorem settled_run_immutable:
  assumes "list_all op_ok (ops @ later)" and "map_get (s_runs (runs_after ops)) i = Some r" and "rn_finishedAt r \<noteq> None"
  shows "map_get (s_runs (run run_step (runs_after ops) later)) i = Some r"
  using assms by (intro run_settled) (auto intro: runs_after_wf)

text \<open>
  The listing answers, newest first, exactly the runs that match the filter, and following the
  cursors from the first page ends and yields that list, each run once. The tenant filter must
  not be one of the names that objects inherit.
\<close>

theorem listRuns_complete:
  assumes "list_all op_ok ops" and "0 < lf_limit fl" and "lf_tenant fl = None \<or> lf_tenant fl \<notin> Some ` set inherited_keys"
  shows "sorted_wrt (\<lambda>a b. not_after b a) (listed_runs (runs_after ops) fl)
    \<and> mset (listed_runs (runs_after ops) fl) = filter_mset (run_matches fl) (mset (map toSummary (map_values (s_runs (runs_after ops)))))
    \<and> (\<exists>p. listRuns (runs_after ops) fl now = Inr p)
    \<and> walk (Suc (length (listed_runs (runs_after ops) fl)))
        (\<lambda>cur. case listRuns (runs_after ops) (fl\<lparr>lf_cursor := cur\<rparr>) now of
           Inr p \<Rightarrow> (pg_items p, pg_nextCursor p) | Inl _ \<Rightarrow> ([], None)) None
      = Some (listed_runs (runs_after ops) fl)"
proof -
  let ?s = "runs_after ops"
  have wf: "store_wf ?s" using assms(1) by (rule runs_after_wf)
  have cur: "listed_runs ?s (fl\<lparr>lf_cursor := cur\<rparr>) = listed_runs ?s fl" for cur
  proof -
    have "run_matches (fl\<lparr>lf_cursor := cur\<rparr>) = run_matches fl" by (simp add: run_matches_def fun_eq_iff)
    then show ?thesis by (simp add: listed_runs_eq)
  qed
  have "(case listRuns ?s (fl\<lparr>lf_cursor := cur\<rparr>) now of Inr p \<Rightarrow> (pg_items p, pg_nextCursor p) | Inl _ \<Rightarrow> ([], None))
      = runs_page (listed_runs ?s fl) (lf_limit fl) cur" for cur
    using listRuns_page [OF wf, of "fl\<lparr>lf_cursor := cur\<rparr>" now] assms(3) by (auto simp: cur)
  moreover have "key_pager (runs_page (listed_runs ?s fl) (lf_limit fl)) (listed_runs ?s fl) (lf_limit fl) rn_id"
    using runs_pager [OF listed_runs_distinct [OF wf]] listed_runs_ok(3) [OF wf] assms(2) by blast
  then have "walk (Suc (length (listed_runs ?s fl))) (runs_page (listed_runs ?s fl) (lf_limit fl)) None = Some (listed_runs ?s fl)"
    by (rule key_pager.pages_complete) simp
  moreover have "mset (listed_runs ?s fl) = filter_mset (run_matches fl) (mset (map toSummary (map_values (s_runs ?s))))"
    unfolding listed_runs_eq mset_filter mset_js_sort ..
  moreover have "\<exists>p. listRuns ?s fl now = Inr p" using listRuns_page [OF wf assms(3), of now] by blast
  ultimately show ?thesis using listed_runs_sorted [OF wf, of fl] by presburger
qed

text \<open>
  The reported median duration is a median: at least half of the durations are at or below it
  and at least half at or above it.
\<close>

theorem median_correct:
  "length xs \<le> 2 * length (filter (\<lambda>x. x \<le> median xs) xs) \<and> length xs \<le> 2 * length (filter (\<lambda>x. median xs \<le> x) xs)"
proof (cases "xs = []")
  case False
  let ?ys = "js_sort (\<lambda>a b. int a - int b) xs"
  obtain k where k: "k \<le> length xs" "length xs \<le> 2 * k" "\<forall>i < k. ?ys ! i \<le> median xs"
      "\<forall>i < length xs. length xs - k \<le> i \<longrightarrow> median xs \<le> ?ys ! i" using median_bounds [OF False] by blast
  then have "k \<le> length (filter (\<lambda>x. x \<le> median xs) ?ys)" by (intro filter_take_le) simp_all
  moreover have "length ?ys - (length xs - k) \<le> length (filter (\<lambda>x. median xs \<le> x) ?ys)"
    by (rule filter_drop_le) (use k in simp_all)
  ultimately show ?thesis using k(1,2) by (simp add: length_filter_js_sort)
qed simp

section \<open>Requests on which the hypotheses hold\<close>

definition example_run :: RunDetail where
  "example_run = detailOf (SEEDS ! 4) fixture_now"

lemma example_run:
  "map_get (s_runs (runs_after [])) ''2bb84c17e0d5'' = Some example_run" "rn_finishedAt example_run \<noteq> None"
  "length (rd_changes example_run) = 2"
proof -
  show "map_get (s_runs (runs_after [])) ''2bb84c17e0d5'' = Some example_run"
    by (simp add: runs_after_def seed_runs SEEDS_def RUN_IDS example_run_def)
  have sd: "se_outcome (SEEDS ! 4) = Applied" "se_changeOutcomes (SEEDS ! 4) = [Ch_applied, Ch_applied]" "SEEDS ! 4 \<in> set SEEDS"
    by (simp_all add: SEEDS_def)
  then show "rn_finishedAt example_run \<noteq> None"
    by (simp add: example_run_def detailOf_def summaryOf_def Let_def RunSummary.extend_def)
  have "map ch_outcome (rd_changes example_run) = [Ch_applied, Ch_applied]"
    using SEEDS_outcomes [of fixture_now] sd unfolding example_run_def detailOf_fields list_all_iff by metis
  then have "length (map ch_outcome (rd_changes example_run)) = 2" by simp
  then show "length (rd_changes example_run) = 2" unfolding length_map .
qed

lemma example_draw: "map_get (s_runs (runs_after [])) (hex_id 12 0) = None"
proof -
  have "hex_id 12 0 = ''000000000000''"
    by (simp add: hex_id_eq show_hex.simps [of 0] hex_char_def padStart_def numeral_eq_Suc)
  then show ?thesis by (simp add: runs_after_def seed_runs SEEDS_def RUN_IDS)
qed

lemma no_keys: "map_get (s_retriesByKey (runs_after [])) key = None"
  by (simp add: runs_after_def seed_def)

theorem retry_settles_witness:
  "\<exists>i s' r. retryRun (runs_after []) ''2bb84c17e0d5'' ''key-1'' 0 [0] = (s', Some (Inr i))
     \<and> map_get (s_runs (run run_step s' (replicate 4 (Get_run i)))) i = Some r
     \<and> rn_outcome r = Applied \<and> rn_changeOutcomes r = [Ch_applied, Ch_applied]"
proof -
  have later: "polls i (replicate 4 (Get_run i)) = 4" "list_all op_ok (replicate 4 (Get_run i))" for i
    by (simp_all add: polls_def op_ok_def numeral_eq_Suc)
  have "clock_ok 0" "list_all op_ok []" "list_ex (\<lambda>u. map_get (s_runs (runs_after [])) (hex_id 12 u) = None) [0]"
    using example_draw by (simp_all add: clock_ok_def)
  from retry_settles [OF this(2,1) no_keys example_run(1,2) this(3), of "''key-1''"]
  obtain i s' where i: "retryRun (runs_after []) ''2bb84c17e0d5'' ''key-1'' 0 [0] = (s', Some (Inr i))"
    and settles: "\<forall>later. list_all op_ok later \<longrightarrow> length (rd_changes example_run) + 2 \<le> polls i later \<longrightarrow>
        (\<exists>r. map_get (s_runs (run run_step s' later)) i = Some r \<and> rn_retryOf r = Some ''2bb84c17e0d5'' \<and> rn_outcome r = Applied
          \<and> rn_finishedAt r \<noteq> None \<and> rn_changeOutcomes r = replicate (length (rd_changes example_run)) Ch_applied)"
    by blast
  have two: "replicate 2 Ch_applied = [Ch_applied, Ch_applied]" by (simp add: numeral_eq_Suc)
  have "length (rd_changes example_run) + 2 \<le> polls i (replicate 4 (Get_run i))" unfolding later(1) example_run(3) by simp
  from settles [rule_format, OF later(2) this] i show ?thesis unfolding example_run(3) two by blast
qed

theorem retry_replay_witness:
  "\<exists>i s'. retryRun (runs_after []) ''2bb84c17e0d5'' ''key-1'' 0 [0] = (s', Some (Inr i))
     \<and> retryRun (run run_step s' [Get_run i, Get_run i]) ''8f1c9e4b27d2'' ''key-1'' 1 [1] = (run run_step s' [Get_run i, Get_run i], Some (Inr i))"
proof -
  obtain i where i: "newRunId (s_runs (runs_after [])) [0] = Some i" using example_draw by (simp add: Let_def)
  then have "\<exists>s'. retryRun (runs_after []) ''2bb84c17e0d5'' ''key-1'' 0 [0] = (s', Some (Inr i))"
    using example_run(1,2) by (auto simp: retryRun_def no_keys truthy_def Let_def)
  with retry_replay show ?thesis by blast
qed

theorem getRun_answers_witness:
  "snd (getRun (runs_after []) ''2bb84c17e0d5'') = Inr (map_get (s_runs (fst (getRun (runs_after []) ''2bb84c17e0d5''))) ''2bb84c17e0d5'')"
  using getRun_answers [of "[]"] by simp

theorem settled_run_immutable_witness:
  "map_get (s_runs (run run_step (runs_after []) [Get_run ''2bb84c17e0d5'', Get_run ''c0127be4d9a6''])) ''2bb84c17e0d5'' = Some example_run"
  by (rule settled_run_immutable [OF _ example_run(1,2)]) (simp add: op_ok_def)

definition all_runs :: RunListFilter where
  "all_runs = \<lparr>lf_trigger = None, lf_outcome = None, lf_tenant = None, lf_cursor = None, lf_limit = 5\<rparr>"

theorem listRuns_complete_witness:
  "sorted_wrt (\<lambda>a b. not_after b a) (listed_runs (runs_after []) all_runs)
   \<and> walk (Suc (length (listed_runs (runs_after []) all_runs)))
        (\<lambda>cur. case listRuns (runs_after []) (all_runs\<lparr>lf_cursor := cur\<rparr>) 0 of
           Inr p \<Rightarrow> (pg_items p, pg_nextCursor p) | Inl _ \<Rightarrow> ([], None)) None
      = Some (listed_runs (runs_after []) all_runs)"
  using listRuns_complete [of "[]" all_runs 0] by (simp add: all_runs_def)

end
