(* ===== verification/Spec_Diff.thy ===== *)
theory Spec_Diff
  imports Js_String
begin

text \<open>
  The line diff behind the spec editor and the version comparison (\<^verbatim>\<open>features/spec/diff.ts\<close>): an LCS
  table filled from the end, the walk that reads an alignment off it, the collapse of matching
  removed/added runs into changed pairs, and the views. The table is a list of rows; the
  source stores the same rows in one flat array.
\<close>

section \<open>Model\<close>

datatype DiffOpKind = Op_equal | Op_added | Op_removed | Op_changed

record DiffOp =
  do_kind :: DiffOpKind
  do_left :: "string option"
  do_right :: "string option"
  do_leftN :: "nat option"
  do_rightN :: "nat option"

record DiffSummary =
  ds_added :: nat
  ds_removed :: nat
  ds_changed :: nat
  ds_unchanged :: nat
  ds_hunks :: nat

definition MAX_CELLS :: nat where "MAX_CELLS = 4000000"

definition split_lines :: "string \<Rightarrow> string list" where
  "split_lines text' =
     (let lines = split_char (CHR 0x0A) (crlf_to_lf text')
      in if 1 < length lines \<and> last lines = [] then butlast lines else lines)"

abbreviation op_equal :: "string \<Rightarrow> string \<Rightarrow> nat \<Rightarrow> nat \<Rightarrow> DiffOp" where
  "op_equal l r i j \<equiv> \<lparr>do_kind = Op_equal, do_left = Some l, do_right = Some r, do_leftN = Some (Suc i), do_rightN = Some (Suc j)\<rparr>"

abbreviation op_removed :: "string \<Rightarrow> nat \<Rightarrow> DiffOp" where
  "op_removed l i \<equiv> \<lparr>do_kind = Op_removed, do_left = Some l, do_right = None, do_leftN = Some (Suc i), do_rightN = None\<rparr>"

abbreviation op_added :: "string \<Rightarrow> nat \<Rightarrow> DiffOp" where
  "op_added r j \<equiv> \<lparr>do_kind = Op_added, do_left = None, do_right = Some r, do_leftN = None, do_rightN = Some (Suc j)\<rparr>"

text \<open>One row of the table from the row below it, right to left; the last cell of a row is 0.\<close>

fun lcs_row :: "string \<Rightarrow> string list \<Rightarrow> nat list \<Rightarrow> nat list" where
  "lcs_row a [] below = [0]"
| "lcs_row a (b # bs) below =
     (let rest = lcs_row a bs (tl below)
      in (if a = b then hd (tl below) + 1 else max (hd below) (hd rest)) # rest)"

definition lcs_table :: "string list \<Rightarrow> string list \<Rightarrow> nat list list" where
  "lcs_table A B = foldr (\<lambda>a rows. lcs_row a B (hd rows) # rows) A [replicate (length B + 1) 0]"

text \<open>The three loops of the walk.\<close>

function align_loop :: "string list \<Rightarrow> string list \<Rightarrow> nat list list \<Rightarrow> nat \<Rightarrow> nat \<Rightarrow> DiffOp list" where
  "align_loop A B lcs i j =
     (if i < length A \<and> j < length B then
        if A ! i = B ! j then op_equal (A ! i) (B ! j) i j # align_loop A B lcs (i + 1) (j + 1)
        else if lcs ! i ! (j + 1) \<le> lcs ! (i + 1) ! j then op_removed (A ! i) i # align_loop A B lcs (i + 1) j
        else op_added (B ! j) j # align_loop A B lcs i (j + 1)
      else if i < length A then op_removed (A ! i) i # align_loop A B lcs (i + 1) j
      else if j < length B then op_added (B ! j) j # align_loop A B lcs i (j + 1)
      else [])"
  by pat_completeness auto
termination
  by (relation "measure (\<lambda>(A, B, lcs, i, j). (length A - i) + (length B - j))") auto

declare align_loop.simps [simp del]

definition alignLines :: "string \<Rightarrow> string \<Rightarrow> DiffOp list" where
  "alignLines a b =
     (let A = split_lines a; B = split_lines b
      in if MAX_CELLS < length A * length B
         then map (\<lambda>(i, l). op_removed l i) (enumerate 0 A) @ map (\<lambda>(j, r). op_added r j) (enumerate 0 B)
         else align_loop A B (lcs_table A B) 0 0)"

definition re_yamlKey :: re where
  "re_yamlKey = re_seq
     [Cap (Rep is_space), re_opt (Cap (re_seq [re_lit ''-'', re_plus is_space])),
      Cap (Seq (Ch is_ident_start) (Rep (\<lambda>c. is_word c \<or> c = CHR ''.'' \<or> c = CHR ''-''))), Rep is_space, re_lit '':'']"

definition yamlKey :: "string \<Rightarrow> string option" where
  "yamlKey line =
     (case re_exec re_yamlKey line of
        Some [indent, key] \<Rightarrow> Some (show_nat (length indent) @ '':'' @ key)
      | Some [indent, dash, key] \<Rightarrow> Some (show_nat (length indent) @ '':'' @ ''-'' @ key)
      | _ \<Rightarrow> None)"

definition line_or_empty :: "string option \<Rightarrow> string" where
  "line_or_empty s = (case s of Some t \<Rightarrow> t | None \<Rightarrow> '''')"

definition pairable :: "DiffOp list \<Rightarrow> DiffOp list \<Rightarrow> bool" where
  "pairable removed added \<longleftrightarrow>
     length removed = length added
     \<and> list_all (\<lambda>(r, a). case (yamlKey (line_or_empty (do_left r)), yamlKey (line_or_empty (do_right a))) of
          (Some lk, Some rk) \<Rightarrow> lk = rk \<and> \<not> includes_str lk '':-''
        | _ \<Rightarrow> False) (zip removed added)"

definition op_pair :: "DiffOp \<Rightarrow> DiffOp \<Rightarrow> DiffOp" where
  "op_pair r a = \<lparr>do_kind = Op_changed, do_left = do_left r, do_right = do_right a, do_leftN = do_leftN r, do_rightN = do_rightN a\<rparr>"

abbreviation is_removed :: "DiffOp \<Rightarrow> bool" where "is_removed x \<equiv> do_kind x = Op_removed"
abbreviation is_added :: "DiffOp \<Rightarrow> bool" where "is_added x \<equiv> do_kind x = Op_added"

function pairChanges :: "DiffOp list \<Rightarrow> DiffOp list" where
  "pairChanges [] = []"
| "pairChanges (x # xs) =
     (if \<not> is_removed x then x # pairChanges xs
      else (let removed = takeWhile is_removed (x # xs);
                after = dropWhile is_removed (x # xs);
                added = takeWhile is_added after;
                rest = dropWhile is_added after
            in (if pairable removed added then map (\<lambda>(r, a). op_pair r a) (zip removed added) else removed @ added)
               @ pairChanges rest))"
  by pat_completeness auto
termination
proof (relation "measure length")
  fix x xs removed after added rest
  assume "\<not> \<not> is_removed x" "after = dropWhile is_removed (x # xs)" "rest = dropWhile is_added after"
  then have "length rest \<le> length (dropWhile is_removed xs)" by (simp add: length_dropWhile_le)
  also have "\<dots> \<le> length xs" by (rule length_dropWhile_le)
  finally show "(rest, x # xs) \<in> measure length" by simp
qed simp_all

definition diffLines :: "string \<Rightarrow> string \<Rightarrow> DiffOp list" where
  "diffLines a b = pairChanges (alignLines a b)"

text \<open>The loop state of \<^verbatim>\<open>summarize\<close>: the counters and whether the previous line was inside a hunk.\<close>

definition summarize_step :: "DiffOp \<Rightarrow> DiffSummary \<times> bool \<Rightarrow> DiffSummary \<times> bool" where
  "summarize_step x st =
     (let (s, inHunk) = st
      in if do_kind x = Op_equal then (s\<lparr>ds_unchanged := ds_unchanged s + 1\<rparr>, False)
         else (let s = (if inHunk then s else s\<lparr>ds_hunks := ds_hunks s + 1\<rparr>)
               in (case do_kind x of
                     Op_added \<Rightarrow> s\<lparr>ds_added := ds_added s + 1\<rparr>
                   | Op_removed \<Rightarrow> s\<lparr>ds_removed := ds_removed s + 1\<rparr>
                   | _ \<Rightarrow> s\<lparr>ds_changed := ds_changed s + 1\<rparr>, True)))"

definition summarize_diff :: "DiffOp list \<Rightarrow> DiffSummary" where
  "summarize_diff ops =
     fst (fold summarize_step ops
       (\<lparr>ds_added = 0, ds_removed = 0, ds_changed = 0, ds_unchanged = 0, ds_hunks = 0\<rparr>, False))"

datatype DiffKind = Line_added | Line_removed | Line_changed | Line_context

record DiffLine =
  dl_kind :: DiffKind
  dl_text :: string
  dl_n :: "nat option"

definition right_line :: "DiffKind \<Rightarrow> DiffOp \<Rightarrow> DiffLine" where
  "right_line k x = \<lparr>dl_kind = k, dl_text = line_or_empty (do_right x), dl_n = do_rightN x\<rparr>"

definition left_line :: "DiffKind \<Rightarrow> DiffOp \<Rightarrow> DiffLine" where
  "left_line k x = \<lparr>dl_kind = k, dl_text = line_or_empty (do_left x), dl_n = do_leftN x\<rparr>"

abbreviation is_equal :: "DiffOp \<Rightarrow> bool" where "is_equal x \<equiv> do_kind x = Op_equal"

text \<open>One equal run of the unified view; \<open>first\<close> and \<open>final\<close>: the run opens or closes the document; no bound is \<open>None\<close>.\<close>

definition unified_run :: "nat option \<Rightarrow> bool \<Rightarrow> bool \<Rightarrow> DiffOp list \<Rightarrow> DiffLine list" where
  "unified_run bound first final equals =
     (case bound of
        None \<Rightarrow> map (right_line Line_context) equals
      | Some n \<Rightarrow>
          (let hd_part = (if first then [] else slice 0 n equals);
               tl_part = (if final then [] else drop (max n (length equals - n)) equals);
               hidden = length equals - length hd_part - length tl_part
           in map (right_line Line_context) hd_part
              @ (if 0 < hidden then [\<lparr>dl_kind = Line_context, dl_text = show_nat hidden @ '' unchanged line''
                    @ (if hidden = 1 then '''' else ''s''), dl_n = None\<rparr>] else [])
              @ map (right_line Line_context) tl_part))"

function unified_from :: "nat option \<Rightarrow> bool \<Rightarrow> DiffOp list \<Rightarrow> DiffLine list" where
  "unified_from bound first [] = []"
| "unified_from bound first (x # xs) =
     (if \<not> is_equal x
      then (case do_kind x of
              Op_changed \<Rightarrow> right_line Line_changed x
            | Op_added \<Rightarrow> right_line Line_added x
            | _ \<Rightarrow> left_line Line_removed x) # unified_from bound False xs
      else (let equals = takeWhile is_equal (x # xs); rest = dropWhile is_equal (x # xs)
            in unified_run bound first (rest = []) equals @ unified_from bound False rest))"
  by pat_completeness auto
termination
proof (relation "measure (\<lambda>(n, f, xs). length xs)")
  fix bound :: "nat option" and first x xs equals rest
  assume "\<not> \<not> is_equal x" "rest = dropWhile is_equal (x # xs)"
  then have "rest = dropWhile is_equal xs" by simp
  then have "length rest \<le> length xs" by (simp add: length_dropWhile_le)
  then show "((bound, False, rest), bound, first, x # xs) \<in> measure (\<lambda>(n, f, xs). length xs)" by simp
qed simp_all

definition unifiedLines :: "DiffOp list \<Rightarrow> nat option \<Rightarrow> DiffLine list" where
  "unifiedLines ops bound = unified_from bound True ops"

definition sideBySide :: "DiffOp list \<Rightarrow> DiffLine list \<times> DiffLine list" where
  "sideBySide ops =
     (concat (map (\<lambda>x. case do_kind x of
          Op_equal \<Rightarrow> [left_line Line_context x] | Op_removed \<Rightarrow> [left_line Line_removed x]
        | Op_added \<Rightarrow> [] | Op_changed \<Rightarrow> [left_line Line_changed x]) ops),
      concat (map (\<lambda>x. case do_kind x of
          Op_equal \<Rightarrow> [right_line Line_context x] | Op_removed \<Rightarrow> []
        | Op_added \<Rightarrow> [right_line Line_added x] | Op_changed \<Rightarrow> [right_line Line_changed x]) ops))"

definition changedFieldsLabel :: "DiffSummary \<Rightarrow> string" where
  "changedFieldsLabel s =
     (if ds_hunks s = 0 then ''no changes''
      else show_nat (ds_hunks s) @ '' changed field'' @ (if ds_hunks s = 1 then '''' else ''s''))"

section \<open>The table\<close>

text \<open>The length of a longest common subsequence, by the textbook recursion.\<close>

fun llcs :: "'a list \<Rightarrow> 'a list \<Rightarrow> nat" where
  "llcs [] ys = 0"
| "llcs (x # xs) [] = 0"
| "llcs (x # xs) (y # ys) = (if x = y then Suc (llcs xs ys) else max (llcs xs (y # ys)) (llcs (x # xs) ys))"

fun tails :: "'a list \<Rightarrow> 'a list list" where
  "tails [] = [[]]"
| "tails (x # xs) = (x # xs) # tails xs"

lemma hd_tails [simp]: "hd (map f (tails xs)) = f xs"
  by (cases xs) simp_all

lemma length_tails [simp]: "length (tails xs) = Suc (length xs)"
  by (induction xs) simp_all

lemma tails_nth: "i \<le> length xs \<Longrightarrow> tails xs ! i = drop i xs"
proof (induction xs arbitrary: i)
  case (Cons x xs)
  then show ?case by (cases i) simp_all
qed simp

lemma llcs_Nil [simp]: "llcs xs [] = 0"
  by (cases xs) simp_all

lemma lcs_row_correct: "lcs_row a bs (map (llcs as) (tails bs)) = map (llcs (a # as)) (tails bs)"
  by (induction bs) (simp_all add: Let_def)

lemma lcs_table_correct: "lcs_table A B = map (\<lambda>as. map (llcs as) (tails B)) (tails A)"
proof (induction A)
  case Nil
  have "map (llcs []) (tails B) = replicate (length B + 1) 0"
    by (induction B) simp_all
  then show ?case by (simp add: lcs_table_def)
next
  case (Cons a A)
  then have "lcs_table (a # A) B = lcs_row a B (hd (lcs_table A B)) # lcs_table A B" by (simp add: lcs_table_def)
  with Cons show ?case by (simp add: lcs_row_correct)
qed

lemma lcs_table_nth:
  "i \<le> length A \<Longrightarrow> j \<le> length B \<Longrightarrow> lcs_table A B ! i ! j = llcs (drop i A) (drop j B)"
  by (simp add: lcs_table_correct tails_nth)

lemma llcs_upper: "subseq zs xs \<Longrightarrow> subseq zs ys \<Longrightarrow> length zs \<le> llcs xs ys"
proof (induction xs ys arbitrary: zs rule: llcs.induct)
  case (3 x xs y ys)
  show ?case
  proof (cases zs)
    case (Cons z zs')
    show ?thesis
    proof (cases "x = y")
      case True
      have "subseq zs' xs \<and> subseq zs' ys" if "z = x" using 3 Cons True that by simp
      moreover have "subseq zs xs \<and> subseq zs ys" if "z \<noteq> x" using 3 Cons True that by simp
      ultimately show ?thesis using 3(1) [of zs'] 3(1) [of zs] True Cons by (cases "z = x") fastforce+
    next
      case False
      have "subseq zs xs \<or> subseq zs ys" using 3(4,5) Cons False by (cases "z = x") simp_all
      then show ?thesis using 3(2,3) [of zs] 3(4,5) False by fastforce
    qed
  qed simp
qed simp_all

section \<open>The alignment\<close>

definition lefts :: "DiffOp list \<Rightarrow> (nat option \<times> string) list" where
  "lefts ops = map (\<lambda>x. (do_leftN x, line_or_empty (do_left x))) (filter (\<lambda>x. \<not> is_added x) ops)"

definition rights :: "DiffOp list \<Rightarrow> (nat option \<times> string) list" where
  "rights ops = map (\<lambda>x. (do_rightN x, line_or_empty (do_right x))) (filter (\<lambda>x. \<not> is_removed x) ops)"

definition numbered :: "nat \<Rightarrow> string list \<Rightarrow> (nat option \<times> string) list" where
  "numbered k xs = map (\<lambda>(n, s). (Some n, s)) (enumerate k xs)"

lemma numbered_drop: "i < length xs \<Longrightarrow> numbered (Suc i) (drop i xs) = (Some (Suc i), xs ! i) # numbered (Suc (Suc i)) (drop (Suc i) xs)"
  by (simp add: numbered_def flip: Cons_nth_drop_Suc)

lemma sides_simps [simp]:
  "lefts [] = []" "rights [] = []" "lefts (xs @ ys) = lefts xs @ lefts ys" "rights (xs @ ys) = rights xs @ rights ys"
  "lefts (x # xs) = (if is_added x then lefts xs else (do_leftN x, line_or_empty (do_left x)) # lefts xs)"
  "rights (x # xs) = (if is_removed x then rights xs else (do_rightN x, line_or_empty (do_right x)) # rights xs)"
  by (simp_all add: lefts_def rights_def)

lemma align_loop_sides:
  "i \<le> length A \<Longrightarrow> j \<le> length B \<Longrightarrow>
     lefts (align_loop A B lcs i j) = numbered (Suc i) (drop i A) \<and> rights (align_loop A B lcs i j) = numbered (Suc j) (drop j B)"
proof (induction A B lcs i j rule: align_loop.induct)
  case (1 A B lcs i j)
  have done': "\<not> i < length A \<Longrightarrow> numbered (Suc i) (drop i A) = []" "\<not> j < length B \<Longrightarrow> numbered (Suc j) (drop j B) = []"
    by (simp_all add: numbered_def)
  show ?case using 1 done'
    by (subst (1 2) align_loop.simps) (auto simp: numbered_drop line_or_empty_def)
qed

lemma align_loop_equal:
  "i \<le> length A \<Longrightarrow> j \<le> length B \<Longrightarrow>
     length (filter is_equal (align_loop A B (lcs_table A B) i j)) = llcs (drop i A) (drop j B)"
proof (induction A B "lcs_table A B" i j rule: align_loop.induct)
  case (1 A B i j)
  show ?case
  proof (cases "i < length A \<and> j < length B")
    case True
    then have d: "drop i A = A ! i # drop (Suc i) A" "drop j B = B ! j # drop (Suc j) B" by (simp_all add: Cons_nth_drop_Suc)
    have t: "lcs_table A B ! i ! (j + 1) = llcs (drop i A) (drop (Suc j) B)" "lcs_table A B ! (i + 1) ! j = llcs (drop (Suc i) A) (drop j B)"
      using True by (simp_all add: lcs_table_nth)
    show ?thesis using 1(1-3) True t
      by (subst align_loop.simps) (auto simp: d max_def)
  next
    case False
    then have "llcs (drop i A) (drop j B) = 0" using 1 by (cases "i < length A") auto
    then show ?thesis using 1(4,5) False 1(6,7)
      by (subst align_loop.simps) auto
  qed
qed

section \<open>Pairing and counting\<close>

lemma takeWhile_kinds: "filter is_added (takeWhile is_removed xs) = []" "filter is_equal (takeWhile is_removed xs) = []"
  "filter is_removed (takeWhile is_added xs) = []" "filter is_equal (takeWhile is_added xs) = []"
  by (auto simp: filter_empty_conv dest: set_takeWhileD)

lemma lefts_added: "lefts (takeWhile is_added xs) = []" and rights_removed: "rights (takeWhile is_removed xs) = []"
  by (auto simp: lefts_def rights_def filter_empty_conv dest: set_takeWhileD)

lemma pair_sides:
  "length rs = length as \<Longrightarrow> list_all is_removed rs \<Longrightarrow> list_all is_added as \<Longrightarrow>
     lefts (map (\<lambda>(r, a). op_pair r a) (zip rs as)) = lefts rs \<and> rights (map (\<lambda>(r, a). op_pair r a) (zip rs as)) = rights as
     \<and> filter is_equal (map (\<lambda>(r, a). op_pair r a) (zip rs as)) = []"
  by (induction rs as rule: list_induct2) (simp_all add: op_pair_def)

lemma all_takeWhile: "list_all P (takeWhile P xs)"
  by (induction xs) simp_all

lemma pairChanges_sides:
  "lefts (pairChanges ops) = lefts ops \<and> rights (pairChanges ops) = rights ops
     \<and> filter is_equal (pairChanges ops) = filter is_equal ops"
proof (induction ops rule: pairChanges.induct)
  case (2 x xs)
  show ?case
  proof (cases "is_removed x")
    case True
    define removed after added rest where "removed = takeWhile is_removed (x # xs)" "after = dropWhile is_removed (x # xs)"
      "added = takeWhile is_added after" "rest = dropWhile is_added after"
    note d = this
    have ops: "x # xs = removed @ added @ rest" by (simp add: d)
    have pc: "pairChanges (x # xs) = (if pairable removed added then map (\<lambda>(r, a). op_pair r a) (zip removed added)
        else removed @ added) @ pairChanges rest"
      using True by (simp add: d Let_def del: takeWhile.simps dropWhile.simps)
    have none: "lefts added = []" "rights removed = []" "filter is_equal removed = []" "filter is_equal added = []"
      using d by (simp_all only: lefts_added rights_removed takeWhile_kinds)
    have IH: "lefts (pairChanges rest) = lefts rest" "rights (pairChanges rest) = rights rest"
        "filter is_equal (pairChanges rest) = filter is_equal rest" using 2(2) [OF _ d] True by auto
    have "list_all is_removed removed" "list_all is_added added" using d by (simp_all only: all_takeWhile)
    then have "pairable removed added \<Longrightarrow> lefts (map (\<lambda>(r, a). op_pair r a) (zip removed added)) = lefts removed
        \<and> rights (map (\<lambda>(r, a). op_pair r a) (zip removed added)) = rights added
        \<and> filter is_equal (map (\<lambda>(r, a). op_pair r a) (zip removed added)) = []"
      by (intro pair_sides) (simp_all add: pairable_def)
    with IH none show ?thesis unfolding pc unfolding ops by simp
  next
    case False
    with 2(1) show ?thesis by simp
  qed
qed simp

lemma enumerate_sides:
  "lefts (map (\<lambda>(i, l). op_removed l i) (enumerate k A)) = numbered (Suc k) A" "rights (map (\<lambda>(i, l). op_removed l i) (enumerate k A)) = []"
  "rights (map (\<lambda>(j, r). op_added r j) (enumerate k A)) = numbered (Suc k) A" "lefts (map (\<lambda>(j, r). op_added r j) (enumerate k A)) = []"
  by (induction A arbitrary: k) (simp_all add: numbered_def line_or_empty_def)

lemma diffLines_sides: "lefts (diffLines a b) = numbered 1 (split_lines a)" "rights (diffLines a b) = numbered 1 (split_lines b)"
  using align_loop_sides [of 0 "split_lines a" 0 "split_lines b"]
  by (simp_all add: diffLines_def pairChanges_sides alignLines_def Let_def enumerate_sides)

lemma summarize_counts:
  "ds_unchanged (fst (fold summarize_step ops st)) = ds_unchanged (fst st) + length (filter is_equal ops)"
  by (induction ops arbitrary: st)
     (auto simp: summarize_step_def Let_def case_prod_unfold split: DiffOpKind.split)

lemma sideBySide_sides:
  "map (\<lambda>l. (dl_n l, dl_text l)) (fst (sideBySide ops)) = lefts ops" "map (\<lambda>l. (dl_n l, dl_text l)) (snd (sideBySide ops)) = rights ops"
  by (induction ops; force simp: sideBySide_def left_line_def right_line_def split: DiffOpKind.split)+

text \<open>Equal lines carry the same text on both sides.\<close>

lemma align_loop_same: "x \<in> set (align_loop A B lcs i j) \<Longrightarrow> is_equal x \<Longrightarrow> do_left x = do_right x"
proof (induction A B lcs i j rule: align_loop.induct)
  case (1 A B lcs i j)
  from 1(6) show ?case
    by (subst (asm) align_loop.simps) (use 1(1-5,7) in \<open>auto split: if_splits\<close>)
qed

lemma equal_subseq:
  "subseq (map (\<lambda>x. line_or_empty (do_left x)) (filter is_equal ops)) (map snd (lefts ops))"
  "subseq (map (\<lambda>x. line_or_empty (do_right x)) (filter is_equal ops)) (map snd (rights ops))"
  by (induction ops) auto

lemma map_snd_numbered [simp]: "map snd (numbered k xs) = xs"
  by (simp add: numbered_def comp_def case_prod_unfold enumerate_eq_zip)

section \<open>Properties\<close>

text \<open>
  C37: a diff loses nothing. The left pane of the side-by-side view of any two documents shows exactly
  the lines of the older document, the right pane exactly those of the newer one, in order and
  with their line numbers, whatever was paired and however large the documents are.
\<close>

theorem diff_panes_complete:
  "map (\<lambda>l. (dl_n l, dl_text l)) (fst (sideBySide (diffLines a b))) = numbered 1 (split_lines a)
   \<and> map (\<lambda>l. (dl_n l, dl_text l)) (snd (sideBySide (diffLines a b))) = numbered 1 (split_lines b)"
  by (simp add: sideBySide_sides diffLines_sides)

text \<open>
  C36: a diff is minimal. Below the size limit the lines counted as unchanged are a common
  subsequence of the two documents and no common subsequence is longer.
\<close>

theorem diff_minimal:
  assumes "length (split_lines a) * length (split_lines b) \<le> MAX_CELLS"
  shows "(\<exists>zs. subseq zs (split_lines a) \<and> subseq zs (split_lines b)
      \<and> length zs = ds_unchanged (summarize_diff (diffLines a b)))
    \<and> (\<forall>zs. subseq zs (split_lines a) \<longrightarrow> subseq zs (split_lines b)
      \<longrightarrow> length zs \<le> ds_unchanged (summarize_diff (diffLines a b)))"
proof -
  let ?A = "split_lines a" and ?B = "split_lines b"
  let ?ops = "align_loop ?A ?B (lcs_table ?A ?B) 0 0"
  let ?zs = "map (\<lambda>x. line_or_empty (do_left x)) (filter is_equal ?ops)"
  have al: "alignLines a b = ?ops" using assms by (simp add: alignLines_def Let_def)
  have n: "ds_unchanged (summarize_diff (diffLines a b)) = length (filter is_equal ?ops)"
    by (simp add: summarize_diff_def summarize_counts diffLines_def pairChanges_sides al)
  have same: "?zs = map (\<lambda>x. line_or_empty (do_right x)) (filter is_equal ?ops)"
    by (rule map_cong) (auto dest: align_loop_same)
  have "subseq ?zs ?A" using equal_subseq(1) [of ?ops] align_loop_sides [of 0 ?A 0 ?B "lcs_table ?A ?B"] by simp
  moreover have "subseq ?zs ?B"
    unfolding same using equal_subseq(2) [of ?ops] align_loop_sides [of 0 ?A 0 ?B "lcs_table ?A ?B"] by simp
  ultimately show ?thesis
    using llcs_upper [of _ ?A ?B] align_loop_equal [of 0 ?A 0 ?B] n by (metis drop0 le0 length_map)
qed

definition example_before :: string where "example_before = ''a: 1'' @ [CHR 0x0A] @ ''b: 2'' @ [CHR 0x0A] @ ''c: 3''"
definition example_after :: string where "example_after = ''a: 1'' @ [CHR 0x0A] @ ''b: 5''"

lemma example_lines: "split_lines example_before = [''a: 1'', ''b: 2'', ''c: 3'']" "split_lines example_after = [''a: 1'', ''b: 5'']"
  by (code_simp, code_simp)

theorem diff_minimal_witness:
  "\<exists>zs. subseq zs [''a: 1'', ''b: 2'', ''c: 3''] \<and> subseq zs [''a: 1'', ''b: 5'']
     \<and> length zs = ds_unchanged (summarize_diff (diffLines example_before example_after))"
  using diff_minimal [of example_before example_after] by (simp add: example_lines MAX_CELLS_def)

end
