(* ===== verification/Spec_Validate.thy ===== *)
theory Spec_Validate
  imports Js_String
begin

text \<open>
  The spec validator (\<^verbatim>\<open>features/spec/validate.ts\<close>): indentation rules, required top-level keys, the
  count of types and relations in the model block, secret references, and the SSRF check of
  every issuer. The URL parser is the argument \<open>parse_url\<close>: protocol and host name of a text it
  accepts.
\<close>

section \<open>Model\<close>

datatype ValidationLevel = V_ok | V_warning | V_error

record ValidationIssue =
  vi_level :: ValidationLevel
  vi_title :: string
  vi_detail :: string
  vi_line :: "nat option"

record ValidationOutcome =
  vo_results :: "ValidationIssue list"
  vo_errors :: nat
  vo_warnings :: nat
  vo_lineCount :: nat
  vo_valid :: bool

record url_parts =
  url_protocol :: string
  url_hostname :: string

record Line =
  ln_n :: nat
  ln_text :: string
  ln_indent :: nat

definition splitLines :: "string \<Rightarrow> Line list" where
  "splitLines body =
     map (\<lambda>(i, t). \<lparr>ln_n = i + 1, ln_text = t, ln_indent = length t - length (trimStart t)\<rparr>)
       (enumerate 0 (split_char (CHR 0x0A) (crlf_to_lf body)))"

definition issue :: "ValidationLevel \<Rightarrow> string \<Rightarrow> string \<Rightarrow> nat option \<Rightarrow> ValidationIssue" where
  "issue level title detail line = \<lparr>vi_level = level, vi_title = title, vi_detail = detail, vi_line = line\<rparr>"

text \<open>\<^verbatim>\<open>r.test(s)\<close> of an expression without \<^verbatim>\<open>^\<close>: a match at some position.\<close>

fun re_search :: "re \<Rightarrow> string \<Rightarrow> bool" where
  "re_search r [] = re_test r []"
| "re_search r (c # cs) = (re_test r (c # cs) \<or> re_search r cs)"

definition key_char :: "char \<Rightarrow> bool" where
  "key_char c \<longleftrightarrow> is_word c \<or> c = CHR ''.'' \<or> c = CHR ''-''"

definition re_dash :: re where
  "re_dash = re_opt (re_seq [re_lit ''-'', re_plus is_space])"

definition KEY_LINE :: re where
  "KEY_LINE = re_seq
     [Cap (Rep is_space), re_dash, Cap (Seq (Ch is_ident_start) (Rep key_char)), Rep is_space, re_lit '':'',
      re_opt (re_seq [re_plus is_space, Cap (Rep not_newline)]), Eos]"

definition BLOCK_SCALAR :: re where
  "BLOCK_SCALAR = re_seq
     [re_lit '':'', Rep is_space, Ch (\<lambda>c. c = CHR ''|'' \<or> c = CHR ''>''), re_opt (Ch (\<lambda>c. c = CHR ''-'' \<or> c = CHR ''+'')),
      Rep is_space, Eos]"

definition re_tab_indent :: re where
  "re_tab_indent = re_seq [Rep is_space, Ch (\<lambda>c. c = CHR 0x09)]"

text \<open>The loop state of \<^verbatim>\<open>indentationIssues\<close>: previous indent, indent of the open block scalar, issues so far.\<close>

definition indent_step :: "Line \<Rightarrow> nat \<times> nat option \<times> ValidationIssue list \<Rightarrow> nat \<times> nat option \<times> ValidationIssue list" where
  "indent_step l st =
     (let (prevIndent, scalarIndent, out) = st
      in if trim (ln_text l) = [] \<or> startsWith (trimStart (ln_text l)) ''#'' then st
         else if (case scalarIndent of Some k \<Rightarrow> k < ln_indent l | None \<Rightarrow> False) then st
         else if re_test re_tab_indent (ln_text l) then
           (ln_indent l, None, out @ [issue V_error ''Broken indentation''
              (''line '' @ show_nat (ln_n l) @ '' '' @ mid_dot @ '' tab character in indentation; use two spaces per level'') (Some (ln_n l))])
         else
           (let out' =
              (if ln_indent l mod 2 \<noteq> 0 then
                 out @ [issue V_error ''Broken indentation''
                   (''line '' @ show_nat (ln_n l) @ '' '' @ mid_dot @ '' indent of '' @ show_nat (ln_indent l) @ '' spaces is not a multiple of 2'') (Some (ln_n l))]
               else if prevIndent + 2 < ln_indent l then
                 out @ [issue V_error ''Broken indentation''
                   (''line '' @ show_nat (ln_n l) @ '' '' @ mid_dot @ '' indented '' @ show_nat (ln_indent l - prevIndent) @ '' spaces past its parent'') (Some (ln_n l))]
               else out)
            in (ln_indent l, if re_search BLOCK_SCALAR (ln_text l) then Some (ln_indent l) else None, out')))"

definition indentationIssues :: "Line list \<Rightarrow> ValidationIssue list" where
  "indentationIssues lines = snd (snd (fold indent_step lines (0, None, [])))"

definition top_keys :: "Line list \<Rightarrow> string list" where
  "top_keys lines =
     concat (map (\<lambda>l. case re_exec KEY_LINE (ln_text l) of Some (ind # key # _) \<Rightarrow> if ind = [] then [key] else [] | _ \<Rightarrow> []) lines)"

definition schemaIssues :: "Line list \<Rightarrow> ValidationIssue list" where
  "schemaIssues lines =
     concat (map (\<lambda>key. if key \<in> set (top_keys lines) then []
                  else [issue V_error ''Schema violation'' (''top-level `'' @ key @ ''` is required'') None])
       [''apiVersion'', ''kind'', ''metadata'', ''spec''])
     @ (case List.find (\<lambda>l. startsWith (ln_text l) ''apiVersion:'') lines of
          None \<Rightarrow> []
        | Some api \<Rightarrow>
            if re_search (re_seq [re_lit ''authzplane.dev/v1'', Rep is_space, Eos]) (ln_text api) then []
            else [issue V_error ''Schema violation'' (''line '' @ show_nat (ln_n api) @ '' '' @ mid_dot @ '' apiVersion must be authzplane.dev/v1'') (Some (ln_n api))])
     @ (case List.find (\<lambda>l. startsWith (ln_text l) ''kind:'') lines of
          None \<Rightarrow> []
        | Some kind \<Rightarrow>
            if re_search (re_seq [re_lit '':'', Rep is_space, re_lit ''Tenant'', Rep is_space, Eos]) (ln_text kind) then []
            else [issue V_error ''Schema violation'' (''line '' @ show_nat (ln_n kind) @ '' '' @ mid_dot @ '' kind must be Tenant'') (Some (ln_n kind))])"

record modelInfo =
  mi_types :: nat
  mi_relations :: nat
  mi_present :: bool

definition re_model_start :: re where
  "re_model_start = re_seq [Rep is_space, re_lit ''authorizationModel:'', Rep is_space, Ch (\<lambda>c. c = CHR ''|'' \<or> c = CHR ''>'')]"

definition modelSummary :: "Line list \<Rightarrow> modelInfo" where
  "modelSummary lines =
     (case find_index (\<lambda>l. re_test re_model_start (ln_text l)) lines of
        None \<Rightarrow> \<lparr>mi_types = 0, mi_relations = 0, mi_present = False\<rparr>
      | Some start \<Rightarrow>
          (let indent = ln_indent (lines ! start);
               block = takeWhile (\<lambda>l. \<not> (trim (ln_text l) \<noteq> [] \<and> ln_indent l \<le> indent)) (drop (start + 1) lines)
           in \<lparr>mi_types = length (filter (\<lambda>l. re_test (re_seq [Rep is_space, re_lit ''type'', re_plus is_space, re_plus is_word]) (ln_text l)) block),
               mi_relations = length (filter (\<lambda>l. re_test (re_seq [Rep is_space, re_lit ''define'', re_plus is_space, re_plus is_word, Rep is_space, re_lit '':'']) (ln_text l)) block),
               mi_present = True\<rparr>))"

text \<open>\<^verbatim>\<open>/^\s*clientSecretRef:\s*(\S+)/\<close> and \<^verbatim>\<open>/^\s*issuer:\s*(\S+)/\<close>.\<close>

definition re_field :: "string \<Rightarrow> re" where
  "re_field name = re_seq [Rep is_space, re_lit name, re_lit '':'', Rep is_space, Cap (re_plus (\<lambda>c. \<not> is_space c))]"

definition field_of :: "string \<Rightarrow> string \<Rightarrow> string option" where
  "field_of name text' = (case re_exec (re_field name) text' of Some [v] \<Rightarrow> Some v | _ \<Rightarrow> None)"

definition secretIssues :: "Line list \<Rightarrow> string option \<Rightarrow> ValidationIssue list" where
  "secretIssues lines appliedBody =
     (let applied = (case appliedBody of Some b \<Rightarrow> b | None \<Rightarrow> []);
          appliedRefs = (if applied \<noteq> [] then List.map_filter (\<lambda>l. field_of ''clientSecretRef'' (ln_text l)) (splitLines applied) else [])
      in concat (map (\<lambda>l.
           (if re_test (re_seq [Rep is_space, re_dash, re_lit ''clientSecret'', Rep is_space, re_lit '':'', Rep is_space, Ch (\<lambda>c. \<not> is_space c)]) (ln_text l)
            then [issue V_warning ''Literal client secret in spec''
              (''line '' @ show_nat (ln_n l) @ '' '' @ mid_dot @ '' use clientSecretRef; secret values are write-only and are never stored in spec history'') (Some (ln_n l))]
            else [])
           @ (case field_of ''clientSecretRef'' (ln_text l) of
                Some ref \<Rightarrow>
                  if applied \<noteq> [] \<and> ref \<notin> set appliedRefs
                  then [issue V_warning ''Secret ref rotates the stored ciphertext''
                    (''line '' @ show_nat (ln_n l) @ '' '' @ mid_dot @ '' write-only field, never returned by the API'') (Some (ln_n l))]
                  else []
              | None \<Rightarrow> [])) lines))"

text \<open>The private-host pattern, on a host name in lower case.\<close>

definition re_octet :: re where
  "re_octet = Seq (re_lit ''.'') (re_plus is_digit)"

definition digit_in :: "nat \<Rightarrow> nat \<Rightarrow> re" where
  "digit_in a b = Ch (\<lambda>c. 48 + a \<le> code c \<and> code c \<le> 48 + b)"

definition PRIVATE_HOST :: re where
  "PRIVATE_HOST = Seq
     (foldr Alt
       [re_lit ''localhost'',
        re_seq [re_lit ''127'', re_octet, re_octet, re_octet],
        re_seq [re_lit ''10'', re_octet, re_octet, re_octet],
        re_seq [re_lit ''192.168'', re_octet, re_octet],
        re_seq [re_lit ''172.'', foldr Alt [Seq (re_lit ''1'') (digit_in 6 9), Seq (re_lit ''2'') (digit_in 0 9)] (Seq (re_lit ''3'') (digit_in 0 1)),
                re_octet, re_octet],
        re_seq [re_lit ''169.254'', re_octet, re_octet],
        re_seq [re_lit ''100.'', foldr Alt [Seq (re_lit ''6'') (digit_in 4 9), Seq (digit_in 7 9) (digit_in 0 9), re_seq [re_lit ''1'', digit_in 0 1, digit_in 0 9]]
                  (Seq (re_lit ''12'') (digit_in 0 7)), re_octet, re_octet],
        re_lit ''0.0.0.0'',
        re_seq [re_opt (re_lit ''[''), re_lit ''::1'', re_opt (re_lit '']'')]]
       (Seq (re_lit ''metadata'') (re_opt (re_lit ''.google.internal''))))
     Eos"

definition without_colon :: "string \<Rightarrow> string" where
  "without_colon s = takeWhile (\<lambda>c. c \<noteq> CHR '':'') s @ tl (dropWhile (\<lambda>c. c \<noteq> CHR '':'') s)"

definition issuer_issue :: "(string \<Rightarrow> url_parts option) \<Rightarrow> Line \<Rightarrow> ValidationIssue list" where
  "issuer_issue parse_url l =
     (case field_of ''issuer'' (ln_text l) of
        None \<Rightarrow> []
      | Some raw \<Rightarrow>
          (let reject = (\<lambda>why. [issue V_error ''issuer rejected by SSRF guard'' (''line '' @ show_nat (ln_n l) @ '' '' @ mid_dot @ '' '' @ why) (Some (ln_n l))])
           in case parse_url raw of
                None \<Rightarrow> reject ''not an absolute URL''
              | Some u \<Rightarrow>
                  if url_protocol u \<noteq> ''https:'' then reject (''scheme '' @ without_colon (url_protocol u) @ '' is not https'')
                  else if re_test PRIVATE_HOST (toLowerCase (url_hostname u))
                  then reject (url_hostname u @ '' resolves to a private, loopback, link-local or CGNAT range'')
                  else [issue V_ok ''issuer passed SSRF allowlist'' (''https '' @ mid_dot @ '' public host '' @ mid_dot @ '' no redirects'') (Some (ln_n l))]))"

definition issuerIssues :: "(string \<Rightarrow> url_parts option) \<Rightarrow> Line list \<Rightarrow> ValidationIssue list" where
  "issuerIssues parse_url lines = concat (map (issuer_issue parse_url) lines)"

definition model_detail :: "modelInfo \<Rightarrow> string" where
  "model_detail model =
     (if mi_present model
      then show_nat (mi_types model) @ '' types '' @ mid_dot @ '' '' @ show_nat (mi_relations model) @ '' relations '' @ mid_dot @ '' no cycles''
      else ''no authorization model block '' @ mid_dot @ '' roles only'')"

definition validation_results :: "(string \<Rightarrow> url_parts option) \<Rightarrow> Line list \<Rightarrow> string option \<Rightarrow> ValidationIssue list" where
  "validation_results parse_url lines appliedBody =
     (let errors = schemaIssues lines @ indentationIssues lines
      in (if errors = [] then [issue V_ok ''Schema and FGA DSL parse cleanly'' (model_detail (modelSummary lines)) None] else errors)
         @ secretIssues lines appliedBody @ issuerIssues parse_url lines)"

definition validateSpecBody :: "(string \<Rightarrow> url_parts option) \<Rightarrow> string \<Rightarrow> string option \<Rightarrow> ValidationOutcome" where
  "validateSpecBody parse_url body appliedBody =
     (let lines = splitLines body;
          results = validation_results parse_url lines appliedBody;
          errorCount = length (filter (\<lambda>r. vi_level r = V_error) results)
      in \<lparr>vo_results = results, vo_errors = errorCount, vo_warnings = length (filter (\<lambda>r. vi_level r = V_warning) results),
          vo_lineCount = length lines, vo_valid = (errorCount = 0)\<rparr>)"

definition validationCaption :: "(nat \<times> nat) option \<Rightarrow> string" where
  "validationCaption v =
     (case v of
        None \<Rightarrow> ''validating'' @ ellipsis
      | Some (errors, warnings) \<Rightarrow>
          if 0 < errors then show_nat errors @ '' error'' @ (if errors = 1 then '''' else ''s'')
          else if 0 < warnings then show_nat warnings @ '' warning'' @ (if warnings = 1 then '''' else ''s'')
          else ''schema ok'')"

section \<open>What a valid document guarantees\<close>

definition issuer_ok :: "(string \<Rightarrow> url_parts option) \<Rightarrow> Line \<Rightarrow> bool" where
  "issuer_ok parse_url l \<longleftrightarrow>
     (case field_of ''issuer'' (ln_text l) of
        None \<Rightarrow> True
      | Some raw \<Rightarrow> (case parse_url raw of
          None \<Rightarrow> False
        | Some u \<Rightarrow> url_protocol u = ''https:'' \<and> \<not> re_test PRIVATE_HOST (toLowerCase (url_hostname u))))"

lemma issuer_issue_error: "list_all (\<lambda>r. vi_level r \<noteq> V_error) (issuer_issue parse_url l) \<longleftrightarrow> issuer_ok parse_url l"
  by (simp add: issuer_issue_def issuer_ok_def issue_def Let_def split: option.split)

lemma indent_step_errors:
  "list_all (\<lambda>r. vi_level r = V_error) (snd (snd st)) \<Longrightarrow> list_all (\<lambda>r. vi_level r = V_error) (snd (snd (indent_step l st)))"
  by (auto simp: indent_step_def issue_def Let_def split: prod.split)

lemma indentationIssues_errors: "list_all (\<lambda>r. vi_level r = V_error) (indentationIssues lines)"
proof -
  have "list_all (\<lambda>r. vi_level r = V_error) (snd (snd st)) \<Longrightarrow>
      list_all (\<lambda>r. vi_level r = V_error) (snd (snd (fold indent_step lines st)))" for st
    by (induction lines arbitrary: st) (simp_all add: indent_step_errors)
  then show ?thesis by (simp add: indentationIssues_def)
qed

lemma schemaIssues_errors: "list_all (\<lambda>r. vi_level r = V_error) (schemaIssues lines)"
  by (simp add: schemaIssues_def issue_def split: option.split)

lemma errors_Nil: "list_all (\<lambda>r. vi_level r = V_error) xs \<Longrightarrow> list_all (\<lambda>r. vi_level r \<noteq> V_error) xs \<longleftrightarrow> xs = []"
  by (cases xs) auto

lemma secretIssues_warnings: "list_all (\<lambda>r. vi_level r \<noteq> V_error) (secretIssues lines applied)"
  by (auto simp: secretIssues_def Let_def list_all_iff issue_def split: option.splits if_splits)

text \<open>
  A document is valid exactly when it has the four top-level keys with the right version and kind,
  keeps the indentation rules, and every issuer is an https URL of a host that is not private.
\<close>

lemma validateSpecBody_valid:
  "vo_valid (validateSpecBody parse_url body applied) \<longleftrightarrow>
     schemaIssues (splitLines body) = [] \<and> indentationIssues (splitLines body) = []
     \<and> list_all (issuer_ok parse_url) (splitLines body)"
proof -
  let ?l = "splitLines body"
  let ?E = "schemaIssues ?l @ indentationIssues ?l"
  have e: "list_all (\<lambda>r. vi_level r \<noteq> V_error) ?E \<longleftrightarrow> ?E = []"
    by (rule errors_Nil) (simp add: schemaIssues_errors indentationIssues_errors)
  have i: "list_all (\<lambda>r. vi_level r \<noteq> V_error) (issuerIssues parse_url ?l) \<longleftrightarrow> list_all (issuer_ok parse_url) ?l"
    using issuer_issue_error by (simp add: issuerIssues_def list_all_iff)
  have "vo_valid (validateSpecBody parse_url body applied)
      \<longleftrightarrow> list_all (\<lambda>r. vi_level r \<noteq> V_error) (validation_results parse_url ?l applied)"
    by (simp add: validateSpecBody_def list_all_iff filter_empty_conv Let_def)
  also have "\<dots> \<longleftrightarrow> ?E = [] \<and> list_all (issuer_ok parse_url) ?l"
    using secretIssues_warnings [of ?l applied] e i
    by (cases "?E = []") (simp_all only: validation_results_def Let_def if_True if_False list_all_append, simp_all add: issue_def)
  finally show ?thesis by simp
qed

end
