(* ===== verification/Spec_Documents.thy ===== *)
theory Spec_Documents
  imports Spec_Diff Spec_Validate Tenants Reconcile
begin

text \<open>
  Tenant specs (\<^verbatim>\<open>features/spec\<close>): the immutable version history of each tenant, seeded from
  fixtures on first use, optimistic saves with If-Match and an Idempotency-Key, restores, plans,
  and the reconcile run a save enqueues through the reconcile feature. A save touches two
  stores, so operations pass the pair of them. A computation that throws has its result on the
  left; a run id still being drawn is \<open>None\<close>, as for a retry.
\<close>

section \<open>Schemas\<close>

record SpecDocument =
  sd_slug :: string
  sd_generation :: nat
  sd_body :: string
  sd_hash :: string
  sd_lineCount :: nat
  sd_updatedAt :: string

definition SpecDocumentSchema_ok :: "SpecDocument \<Rightarrow> bool" where
  "SpecDocumentSchema_ok d \<longleftrightarrow> sd_slug d \<noteq> [] \<and> 0 < sd_generation d \<and> hex_n 8 (sd_hash d)"

datatype VersionStatus = V_current | V_applied | V_superseded

record SpecVersion =
  sv_generation :: nat
  sv_author :: string
  sv_createdAt :: string
  sv_hash :: string
  sv_summary :: string
  sv_status :: VersionStatus
  sv_body :: string

definition SpecVersionSchema_ok :: "SpecVersion \<Rightarrow> bool" where
  "SpecVersionSchema_ok v \<longleftrightarrow> 0 < sv_generation v \<and> sv_author v \<noteq> [] \<and> hex_n 8 (sv_hash v)"

record SpecVersions =
  vl_slug :: string
  vl_items :: "SpecVersion list"
  vl_total :: nat
  vl_currentGeneration :: nat
  vl_observedGeneration :: nat

definition SpecVersionsSchema_ok :: "SpecVersions \<Rightarrow> bool" where
  "SpecVersionsSchema_ok v \<longleftrightarrow> vl_slug v \<noteq> [] \<and> list_all SpecVersionSchema_ok (vl_items v) \<and> 0 < vl_currentGeneration v"

record SaveSpecResponse =
  sr_generation :: nat
  sr_runId :: string

definition SaveSpecResponseSchema_ok :: "SaveSpecResponse \<Rightarrow> bool" where
  "SaveSpecResponseSchema_ok r \<longleftrightarrow> 0 < sr_generation r \<and> hex_n 12 (sr_runId r)"

datatype PlanOp = Plan_create | Plan_update | Plan_delete

record PlanChange =
  pc_op :: PlanOp
  pc_kind :: string
  pc_description :: string
  pc_changeKey :: string

definition PlanChangeSchema_ok :: "PlanChange \<Rightarrow> bool" where
  "PlanChangeSchema_ok c \<longleftrightarrow> pc_kind c \<noteq> [] \<and> pc_description c \<noteq> [] \<and> hex_n 12 (pc_changeKey c)"

record Plan =
  pl_slug :: string
  pl_generation :: nat
  pl_actualReadAt :: string
  pl_create :: nat
  pl_update :: nat
  pl_delete :: nat
  pl_unchanged :: nat
  pl_changes :: "PlanChange list"

definition PlanSchema_ok :: "Plan \<Rightarrow> bool" where
  "PlanSchema_ok p \<longleftrightarrow> pl_slug p \<noteq> [] \<and> 0 < pl_generation p \<and> list_all PlanChangeSchema_ok (pl_changes p)"

definition shortHash :: "string \<Rightarrow> string" where
  "shortHash h = (if length h \<le> 6 then h else take 4 h @ ellipsis @ last_chars 2 h)"

text \<open>\<^verbatim>\<open>hash.ts\<close>: FNV-1a, 32 bits, eight hexadecimal digits.\<close>

definition spec_fnv1a :: "string \<Rightarrow> string" where
  "spec_fnv1a input = hex8 (fnv_hash input)"

section \<open>Fixtures\<close>

definition right_arrow :: string where "right_arrow = [CHR 0xE2, CHR 0x86, CHR 0x92]"

record AcmeSpecOptions =
  ao_secretRef :: string
  ao_model :: nat
  ao_auditorRole :: bool
  ao_editorRole :: bool
  ao_legacyOpsRole :: bool
  ao_danaTuple :: bool
  ao_miraTuple :: bool
  ao_groupsClaim :: bool
  ao_legacySaml :: bool
  ao_resyncIntervalSeconds :: nat

definition ACME_MODEL :: "nat \<Rightarrow> string list" where
  "ACME_MODEL version =
     (if version = 5 then
       [''model'',
      ''  schema 1.1'',
      ''type user'',
      ''type folder'',
      ''  relations'',
      ''    define owner: [user]'',
      ''    define editor: [user] or owner'',
      ''    define viewer: [user] or editor'']
      else if version = 6 then
       [''model'',
      ''  schema 1.1'',
      ''type user'',
      ''type folder'',
      ''  relations'',
      ''    define owner: [user]'',
      ''    define editor: [user] or owner'',
      ''    define viewer: [user] or editor'',
      ''type document'',
      ''  relations'',
      ''    define parent: [folder]'',
      ''    define owner: [user]'',
      ''    define editor: [user] or owner or editor from parent'',
      ''    define viewer: [user] or editor or viewer from parent'']
      else
       [''model'',
      ''  schema 1.1'',
      ''type user'',
      ''type folder'',
      ''  relations'',
      ''    define owner: [user]'',
      ''    define editor: [user] or owner'',
      ''    define viewer: [user] or editor'',
      ''type document'',
      ''  relations'',
      ''    define parent: [folder]'',
      ''    define owner: [user]'',
      ''    define editor: [user] or owner or editor from parent'',
      ''    define viewer: [user] or editor or viewer from parent'',
      ''    define auditor: [user]''])"

definition acmeSpec :: "AcmeSpecOptions \<Rightarrow> string" where
  "acmeSpec opts =
     join [CHR 0x0A]
       ([''apiVersion: authzplane.dev/v1'', ''kind: Tenant'', ''metadata:'', ''  slug: acme-air'', ''  displayName: Acme Airways'',
         ''spec:'', ''  reconcilePolicy:'', ''    autoHeal: true'',
         ''    resyncIntervalSeconds: '' @ show_nat (ao_resyncIntervalSeconds opts),
         ''  identityProviders:'', ''    - name: acme-entra'', ''      kind: oidc'',
         ''      issuer: https://login.microsoftonline.com/acme-air.example/v2.0'', ''      clientId: acme-air-console'',
         ''      clientSecretRef: '' @ ao_secretRef opts, ''      scopes: [openid, profile, email]'', ''      pkce: true'',
         ''      claimMappings:'', ''        email: email'', ''        name: name'']
        @ (if ao_groupsClaim opts then [''        groups: groups''] else [])
        @ (if ao_legacySaml opts
           then [''    - name: acme-legacy-saml'', ''      kind: saml'', ''      enabled: false'', ''      metadataRef: acme-legacy-saml-metadata''] else [])
        @ [''  authorizationModel: |''] @ map (\<lambda>l. ''    '' @ l) (ACME_MODEL (ao_model opts))
        @ [''  roles:'', ''    - key: tenant_admin'', ''      permissions: [tenant.read, tenant.write, relations.write, audit.read, idp.manage]'']
        @ (if ao_editorRole opts then [''    - key: tenant_editor'', ''      permissions: [tenant.read, tenant.write, relations.write]''] else [])
        @ [''    - key: tenant_viewer'', ''      permissions: [tenant.read, audit.read]'']
        @ (if ao_auditorRole opts then [''    - key: tenant_auditor'', ''      permissions: [tenant.read, audit.read]''] else [])
        @ (if ao_legacyOpsRole opts then [''    - key: tenant_legacy_ops'', ''      permissions: [tenant.read]''] else [])
        @ [''  relations:'', ''    - user: user:raj'', ''      relation: owner'', ''      object: folder:finance'']
        @ (if ao_miraTuple opts then [''    - user: user:mira'', ''      relation: auditor'', ''      object: tenant:acme-air''] else [])
        @ (if ao_danaTuple opts then [''    - user: user:dana'', ''      relation: editor'', ''      object: folder:finance''] else [])
        @ [''    - user: user:lee'', ''      relation: viewer'', ''      object: document:q3-forecast''])"

definition GEN9 :: AcmeSpecOptions where
  "GEN9 = \<lparr>ao_secretRef = ''acme-entra-secret'', ao_model = 7, ao_auditorRole = True, ao_editorRole = True, ao_legacyOpsRole = True,
     ao_danaTuple = False, ao_miraTuple = True, ao_groupsClaim = True, ao_legacySaml = True, ao_resyncIntervalSeconds = 600\<rparr>"

definition GEN8 :: AcmeSpecOptions where
  "GEN8 = GEN9\<lparr>ao_secretRef := ''acme-entra-old'', ao_model := 6, ao_auditorRole := False, ao_danaTuple := True, ao_miraTuple := False\<rparr>"

definition GEN7 :: AcmeSpecOptions where "GEN7 = GEN8\<lparr>ao_legacySaml := False\<rparr>"
definition GEN6 :: AcmeSpecOptions where "GEN6 = GEN7\<lparr>ao_groupsClaim := False\<rparr>"
definition GEN5 :: AcmeSpecOptions where "GEN5 = GEN6\<lparr>ao_model := 5\<rparr>"
definition GEN4 :: AcmeSpecOptions where "GEN4 = GEN5\<lparr>ao_resyncIntervalSeconds := 900\<rparr>"
definition GEN3 :: AcmeSpecOptions where "GEN3 = GEN4\<lparr>ao_legacyOpsRole := False\<rparr>"
definition GEN2 :: AcmeSpecOptions where "GEN2 = GEN3\<lparr>ao_editorRole := False\<rparr>"
definition GEN1 :: AcmeSpecOptions where "GEN1 = GEN2\<lparr>ao_secretRef := ''acme-entra-bootstrap''\<rparr>"

definition ACME_HUMAN :: string where "ACME_HUMAN = ''ops@acme-air.test''"
definition CI_BOT :: string where "CI_BOT = ''ci-bot (m2m)''"

record VersionSeed =
  vs_generation :: nat
  vs_author :: string
  vs_createdAt :: string
  vs_summary :: string
  vs_body :: string

definition ACME_SEEDS :: "VersionSeed list" where
  "ACME_SEEDS =
     [\<lparr>vs_generation = 9, vs_author = ACME_HUMAN, vs_createdAt = ''2026-09-04T10:02:00Z'', vs_summary = (''+1 role, '' @ minus_sign @ ''1 relation, secret ref rotated''), vs_body = acmeSpec GEN9\<rparr>,
      \<lparr>vs_generation = 8, vs_author = ACME_HUMAN, vs_createdAt = ''2026-09-02T17:41:00Z'', vs_summary = (''model v6 '' @ mid_dot @ '' legacy SAML connection (disabled)''), vs_body = acmeSpec GEN8\<rparr>,
      \<lparr>vs_generation = 7, vs_author = CI_BOT, vs_createdAt = ''2026-08-30T09:00:00Z'', vs_summary = (''claim mappings '' @ mid_dot @ '' groups''), vs_body = acmeSpec GEN7\<rparr>,
      \<lparr>vs_generation = 6, vs_author = ACME_HUMAN, vs_createdAt = ''2026-08-28T12:15:00Z'', vs_summary = (''model v6 '' @ mid_dot @ '' document type''), vs_body = acmeSpec GEN6\<rparr>,
      \<lparr>vs_generation = 5, vs_author = ACME_HUMAN, vs_createdAt = ''2026-08-21T08:44:00Z'', vs_summary = (''resync 900s '' @ right_arrow @ '' 600s''), vs_body = acmeSpec GEN5\<rparr>,
      \<lparr>vs_generation = 4, vs_author = CI_BOT, vs_createdAt = ''2026-08-02T09:00:00Z'', vs_summary = ''role tenant_legacy_ops'', vs_body = acmeSpec GEN4\<rparr>,
      \<lparr>vs_generation = 3, vs_author = ACME_HUMAN, vs_createdAt = ''2026-07-15T14:20:00Z'', vs_summary = ''role tenant_editor'', vs_body = acmeSpec GEN3\<rparr>,
      \<lparr>vs_generation = 2, vs_author = ACME_HUMAN, vs_createdAt = ''2026-06-20T11:05:00Z'', vs_summary = ''first Entra connection'', vs_body = acmeSpec GEN2\<rparr>,
      \<lparr>vs_generation = 1, vs_author = ACME_HUMAN, vs_createdAt = ''2026-06-14T09:00:00Z'', vs_summary = ''initial spec'', vs_body = acmeSpec GEN1\<rparr>]"

definition versionStatus :: "nat \<Rightarrow> nat \<Rightarrow> nat \<Rightarrow> VersionStatus" where
  "versionStatus generation cur observed =
     (if generation = cur then V_current else if generation = observed then V_applied else V_superseded)"

definition toVersion :: "VersionSeed \<Rightarrow> nat \<Rightarrow> nat \<Rightarrow> SpecVersion" where
  "toVersion sd cur observed =
     \<lparr>sv_generation = vs_generation sd, sv_author = vs_author sd, sv_createdAt = vs_createdAt sd, sv_hash = spec_fnv1a (vs_body sd),
      sv_summary = vs_summary sd, sv_status = versionStatus (vs_generation sd) cur observed, sv_body = vs_body sd\<rparr>"

definition acmeVersions :: "SpecVersion list" where
  "acmeVersions = map (\<lambda>sd. toVersion sd 9 8) ACME_SEEDS"

definition genericSpec :: "TenantDetail \<Rightarrow> nat \<Rightarrow> string" where
  "genericSpec t generation =
     (let parts = map trim (split_char (CHR 0xB7) (case ts_idp t of Some s \<Rightarrow> s | None \<Rightarrow> ''oidc'' @ middot @ ''idp.example''));
          kind = hd parts;
          host = (if 1 < length parts then parts ! 1 else ''idp.example'');
          roles = slice 0 (max 1 (length (de_roles (td_desired t)) - (ts_generation t - generation)))
            (filter (\<lambda>r. \<not> endsWith r ''*'') (de_roles (td_desired t)))
      in join [CHR 0x0A]
        ([''apiVersion: authzplane.dev/v1'', ''kind: Tenant'', ''metadata:'', ''  slug: '' @ ts_slug t, ''  displayName: '' @ ts_displayName t,
          ''spec:'', ''  reconcilePolicy:'', ''    autoHeal: '' @ show_bool (ts_autoHeal t),
          ''    resyncIntervalSeconds: '' @ show_nat (ts_resyncIntervalSeconds t), ''  identityProviders:'',
          ''    - name: '' @ ts_slug t @ ''-'' @ kind, ''      kind: '' @ kind, ''      issuer: https://'' @ host @ ''/'',
          ''      clientId: '' @ ts_slug t @ ''-console'', ''      clientSecretRef: '' @ ts_slug t @ ''-'' @ kind @ ''-secret'',
          ''      claimMappings:'', ''        email: email'', ''        name: name'', ''  authorizationModel: |'', ''    model'',
          ''      schema 1.1'', ''    type user'', ''    type tenant'', ''      relations'', ''        define admin: [user]'',
          ''        define viewer: [user] or admin'', ''  roles:'']
         @ concat (map (\<lambda>r. [''    - key: '' @ r,
             ''      permissions: ['' @ (if endsWith r ''admin'' then ''tenant.read, tenant.write, relations.write, audit.read, idp.manage''
               else ''tenant.read, audit.read'') @ '']'']) roles)
         @ [''  relations: []'']))"

definition genericVersion :: "TenantDetail \<Rightarrow> instant \<Rightarrow> nat \<Rightarrow> SpecVersion" where
  "genericVersion t created g =
     (let body = genericSpec t g
      in \<lparr>sv_generation = g, sv_author = (if g mod 3 = 0 then CI_BOT else ''ops@'' @ ts_slug t @ ''.test''),
          sv_createdAt = toISOString (created + (g - 1) * 3 * 86400000), sv_hash = spec_fnv1a body,
          sv_summary = (if g = 1 then ''initial spec'' else if g = ts_generation t then ''current desired state'' else ''generation '' @ show_nat g),
          sv_status = versionStatus g (ts_generation t) (ts_observedGeneration t), sv_body = body\<rparr>)"

definition genericVersions :: "TenantDetail \<Rightarrow> SpecVersion list throws" where
  "genericVersions t =
     (case Date_parse (ts_createdAt t) of
        None \<Rightarrow> if ts_generation t = 0 then Inr [] else Inl RangeError
      | Some created \<Rightarrow> Inr (map (genericVersion t created) (rev [1..<Suc (ts_generation t)])))"

definition planChanges :: "string \<Rightarrow> PlanChange list" where
  "planChanges displayName =
     [\<lparr>pc_op = Plan_create, pc_kind = ''zitadel.org'', pc_description = (''create org '' @ quoted displayName), pc_changeKey = ''3a91e02b5dc7''\<rparr>,
      \<lparr>pc_op = Plan_update, pc_kind = ''zitadel.idp'', pc_description = (''update acme-entra '' @ mid_dot @ '' clientSecret (write-only), claimMappings.name''), pc_changeKey = ''7b02d4a8f114''\<rparr>,
      \<lparr>pc_op = Plan_update, pc_kind = ''fga.model'', pc_description = (''write authorization model v7 '' @ mid_dot @ '' +1 type, +2 relations''), pc_changeKey = ''91cd3e7b25a0''\<rparr>,
      \<lparr>pc_op = Plan_create, pc_kind = ''plane.role'', pc_description = (''create role tenant_auditor '' @ mid_dot @ '' permissions [audit.read]''), pc_changeKey = ''55fe0c9a7d31''\<rparr>,
      \<lparr>pc_op = Plan_create, pc_kind = ''fga.tuple'', pc_description = ''write user:mira auditor tenant:acme-air'', pc_changeKey = ''2ab7f13c9e6d''\<rparr>,
      \<lparr>pc_op = Plan_create, pc_kind = ''fga.tuple'', pc_description = ''write user:mira viewer folder:finance'', pc_changeKey = ''d4107e2f9c8e''\<rparr>,
      \<lparr>pc_op = Plan_delete, pc_kind = ''fga.tuple'', pc_description = ''delete user:dana editor folder:finance'', pc_changeKey = ''0e3f6a1d47b2''\<rparr>]"

definition PLAN_UNCHANGED :: nat where "PLAN_UNCHANGED = 18"

definition planFixture :: "string \<Rightarrow> string \<Rightarrow> nat \<Rightarrow> instant \<Rightarrow> Plan" where
  "planFixture slug displayName generation now =
     (let changes = planChanges displayName
      in \<lparr>pl_slug = slug, pl_generation = generation, pl_actualReadAt = toISOString (now - 38000),
          pl_create = length (filter (\<lambda>c. pc_op c = Plan_create) changes), pl_update = length (filter (\<lambda>c. pc_op c = Plan_update) changes),
          pl_delete = length (filter (\<lambda>c. pc_op c = Plan_delete) changes), pl_unchanged = PLAN_UNCHANGED, pl_changes = changes\<rparr>)"

section \<open>The store\<close>

record TenantSpecState =
  ss_versions :: "SpecVersion list"
  ss_currentGeneration :: nat
  ss_observedGeneration :: nat
  ss_byKey :: "(string, SaveSpecResponse) jsmap"

type_synonym spec_store = "(string, TenantSpecState) jsmap"

definition spec_seed :: "tenants \<Rightarrow> string \<Rightarrow> TenantSpecState option throws" where
  "spec_seed T slug =
     (case tenant_of T slug of
        None \<Rightarrow> Inr None
      | Some t \<Rightarrow>
          map_sum id (\<lambda>versions. Some
              \<lparr>ss_versions = versions,
               ss_currentGeneration = (case versions of v # _ \<Rightarrow> sv_generation v | [] \<Rightarrow> ts_generation t),
               ss_observedGeneration = ts_observedGeneration t, ss_byKey = []\<rparr>)
            (if slug = ''acme-air'' then Inr acmeVersions else genericVersions t))"

definition stateFor_spec :: "tenants \<Rightarrow> spec_store \<Rightarrow> string \<Rightarrow> spec_store \<times> TenantSpecState option throws" where
  "stateFor_spec T S slug =
     (case map_get S slug of
        Some existing \<Rightarrow> (S, Inr (Some existing))
      | None \<Rightarrow>
          (case spec_seed T slug of
             Inr (Some st) \<Rightarrow> (map_set S slug st, Inr (Some st))
           | res \<Rightarrow> (S, res)))"

text \<open>\<open>versions[0]!\<close> on an empty history is \<^verbatim>\<open>undefined\<close>; reading a field of it is a TypeError.\<close>

definition current_version :: "TenantSpecState \<Rightarrow> SpecVersion throws" where
  "current_version st =
     (case List.find (\<lambda>v. sv_generation v = ss_currentGeneration st) (ss_versions st) of
        Some v \<Rightarrow> Inr v
      | None \<Rightarrow> (case ss_versions st of v # _ \<Rightarrow> Inr v | [] \<Rightarrow> Inl TypeError))"

definition applied_version :: "TenantSpecState \<Rightarrow> SpecVersion option" where
  "applied_version st = List.find (\<lambda>v. sv_generation v = ss_observedGeneration st) (ss_versions st)"

section \<open>Operations\<close>

definition getSpec :: "tenants \<Rightarrow> spec_store \<Rightarrow> string \<Rightarrow> spec_store \<times> SpecDocument option throws" where
  "getSpec T S slug =
     (case stateFor_spec T S slug of
        (S', Inl e) \<Rightarrow> (S', Inl e)
      | (S', Inr None) \<Rightarrow> (S', Inr None)
      | (S', Inr (Some st)) \<Rightarrow>
          (S', case current_version st of
                 Inl e \<Rightarrow> Inl e
               | Inr v \<Rightarrow> map_sum id Some (parse_with SpecDocumentSchema_ok
                   \<lparr>sd_slug = slug, sd_generation = sv_generation v, sd_body = sv_body v, sd_hash = sv_hash v,
                    sd_lineCount = length (split_char (CHR 0x0A) (sv_body v)), sd_updatedAt = sv_createdAt v\<rparr>)))"

definition listVersions :: "tenants \<Rightarrow> spec_store \<Rightarrow> string \<Rightarrow> spec_store \<times> SpecVersions option throws" where
  "listVersions T S slug =
     (case stateFor_spec T S slug of
        (S', Inl e) \<Rightarrow> (S', Inl e)
      | (S', Inr None) \<Rightarrow> (S', Inr None)
      | (S', Inr (Some st)) \<Rightarrow>
          (S', map_sum id Some (parse_with SpecVersionsSchema_ok
             \<lparr>vl_slug = slug, vl_items = ss_versions st, vl_total = length (ss_versions st),
              vl_currentGeneration = ss_currentGeneration st, vl_observedGeneration = ss_observedGeneration st\<rparr>)))"

text \<open>\<open>elapsed\<close> is what the performance clock measures around the validation, rounded.\<close>

definition validateSpec ::
  "(string \<Rightarrow> url_parts option) \<Rightarrow> tenants \<Rightarrow> spec_store \<Rightarrow> string \<Rightarrow> string \<Rightarrow> nat \<Rightarrow> spec_store \<times> (ValidationOutcome \<times> nat) option throws" where
  "validateSpec parse_url T S slug body elapsed =
     (case stateFor_spec T S slug of
        (S', Inl e) \<Rightarrow> (S', Inl e)
      | (S', Inr None) \<Rightarrow> (S', Inr None)
      | (S', Inr (Some st)) \<Rightarrow>
          (S', Inr (Some (validateSpecBody parse_url body (map_option sv_body (applied_version st)), max 41 elapsed))))"

definition describeChange :: "string \<Rightarrow> string \<Rightarrow> string" where
  "describeChange before after =
     (let s = summarize_diff (diffLines before after);
          plural = (\<lambda>n. if n = 1 then '''' else ''s'')
      in if ds_hunks s = 0 then ''no field changes''
         else join '', ''
           ((if ds_added s \<noteq> 0 then [''+'' @ show_nat (ds_added s) @ '' line'' @ plural (ds_added s)] else [])
            @ (if ds_removed s \<noteq> 0 then [minus_sign @ show_nat (ds_removed s) @ '' line'' @ plural (ds_removed s)] else [])
            @ (if ds_changed s \<noteq> 0 then [show_nat (ds_changed s) @ '' changed''] else [])))"

text \<open>
  The reconcile run behind a save: the tenant's latest settled run is retried under the key, or a
  synthetic id is derived. The retry reads the clock itself; both reads are \<open>now\<close>.
\<close>

definition synthetic_run_id :: "string \<Rightarrow> string \<Rightarrow> instant \<Rightarrow> string" where
  "synthetic_run_id slug key now = spec_fnv1a (slug @ '':'' @ key) @ take 4 (spec_fnv1a (toISOString now))"

definition ReconcileAccepted :: "string \<Rightarrow> string throws" where
  "ReconcileAccepted runId = parse_with (hex_n 12) runId"

definition enqueueReconcile :: "Store \<Rightarrow> string \<Rightarrow> string \<Rightarrow> instant \<Rightarrow> 128 word list \<Rightarrow> Store \<times> string throws option" where
  "enqueueReconcile R slug key now draws =
     (if slug = [] then (R, Some (Inl ZodError))
      else case listRuns R \<lparr>lf_trigger = None, lf_outcome = None, lf_tenant = Some slug, lf_cursor = None, lf_limit = 10\<rparr> now of
        Inl e \<Rightarrow> (R, Some (Inl e))
      | Inr page \<Rightarrow>
          (case List.find (\<lambda>r. rn_finishedAt r \<noteq> None) (pg_items page) of
             None \<Rightarrow> (R, Some (ReconcileAccepted (synthetic_run_id slug key now)))
           | Some settled \<Rightarrow>
               (case retryRun R (rn_id settled) key now draws of
                  (R', None) \<Rightarrow> (R', None)
                | (R', Some (Inr i)) \<Rightarrow> (R', Some (ReconcileAccepted i))
                | (R', Some (Inl _)) \<Rightarrow> (R', Some (ReconcileAccepted (synthetic_run_id slug key now))))))"

definition new_version :: "string \<Rightarrow> string \<Rightarrow> instant \<Rightarrow> string option \<Rightarrow> SpecVersion \<Rightarrow> nat \<Rightarrow> SpecVersion" where
  "new_version body author now summaryOverride prev generation =
     \<lparr>sv_generation = generation, sv_author = author, sv_createdAt = toISOString now, sv_hash = spec_fnv1a body,
      sv_summary = (case summaryOverride of Some s \<Rightarrow> s | None \<Rightarrow> describeChange (sv_body prev) body),
      sv_status = V_current, sv_body = body\<rparr>"

definition append_version :: "SpecVersion \<Rightarrow> TenantSpecState \<Rightarrow> TenantSpecState" where
  "append_version v st =
     st\<lparr>ss_versions := v # map (\<lambda>w. w\<lparr>sv_status := versionStatus (sv_generation w) (sv_generation v) (ss_observedGeneration st)\<rparr>) (ss_versions st),
        ss_currentGeneration := sv_generation v\<rparr>"

text \<open>The checks of a save before anything is written; \<open>None\<close> lets it through. An If-Match that is no number is \<open>Some None\<close>.\<close>

definition save_failure :: "(string \<Rightarrow> url_parts option) \<Rightarrow> TenantSpecState \<Rightarrow> string \<Rightarrow> int option option \<Rightarrow> failure option" where
  "save_failure parse_url st body ifMatch =
     (case ifMatch of
        None \<Rightarrow> Some \<lparr>f_status = 428, f_title = ''If-Match required'',
          f_detail = Some ''Send If-Match with the generation you edited so a stale write cannot overwrite a newer one.''\<rparr>
      | Some m \<Rightarrow>
          if m \<noteq> Some (int (ss_currentGeneration st)) then
            Some \<lparr>f_status = 412, f_title = ''Spec changed underneath you'',
              f_detail = Some (''You edited generation '' @ (case m of Some g \<Rightarrow> show_int g | None \<Rightarrow> ''NaN'') @ '' but generation ''
                @ show_nat (ss_currentGeneration st) @ '' is now current '' @ mid_dot @ '' reload and re-diff before saving.'')\<rparr>
          else
            (let outcome = validateSpecBody parse_url body (map_option sv_body (applied_version st))
             in if vo_valid outcome then None
                else Some \<lparr>f_status = 400, f_title = ''Spec does not validate'',
                  f_detail = Some (case List.find (\<lambda>r. vi_level r = V_error) (vo_results outcome) of
                      Some first \<Rightarrow> vi_title first @ '' '' @ mid_dot @ '' '' @ vi_detail first
                    | None \<Rightarrow> show_nat (vo_errors outcome) @ '' errors'')\<rparr>))"

type_synonym spec_world = "spec_store \<times> Store"

definition saveSpec ::
  "(string \<Rightarrow> url_parts option) \<Rightarrow> tenants \<Rightarrow> spec_world \<Rightarrow> string \<Rightarrow> string \<Rightarrow> int option option \<Rightarrow> string \<Rightarrow> string \<Rightarrow> instant
     \<Rightarrow> 128 word list \<Rightarrow> string option \<Rightarrow> spec_world \<times> SaveSpecResponse result throws option" where
  "saveSpec parse_url T w slug body ifMatch key author now draws summaryOverride =
     (let (S, R) = w
      in case stateFor_spec T S slug of
        (S', Inl e) \<Rightarrow> ((S', R), Some (Inl e))
      | (S', Inr None) \<Rightarrow> ((S', R), Some (Inr (Inl \<lparr>f_status = 404, f_title = ''Tenant not found'',
            f_detail = Some (''No tenant with slug '' @ quoted slug @ ''.'')\<rparr>)))
      | (S', Inr (Some st)) \<Rightarrow>
          (case map_get (ss_byKey st) key of
             Some replay \<Rightarrow> ((S', R), Some (Inr (Inr replay)))
           | None \<Rightarrow>
               (case save_failure parse_url st body ifMatch of
                  Some f \<Rightarrow> ((S', R), Some (Inr (Inl f)))
                | None \<Rightarrow>
                    (case current_version st of
                       Inl e \<Rightarrow> ((S', R), Some (Inl e))
                     | Inr prev \<Rightarrow>
                         (let generation = ss_currentGeneration st + 1;
                              st' = append_version (new_version body author now summaryOverride prev generation) st;
                              S'' = map_set S' slug st'
                          in case enqueueReconcile R slug (key @ '':reconcile'') now draws of
                               (R', None) \<Rightarrow> ((S'', R'), None)
                             | (R', Some (Inl e)) \<Rightarrow> ((S'', R'), Some (Inl e))
                             | (R', Some (Inr runId)) \<Rightarrow>
                                 (case parse_with SaveSpecResponseSchema_ok \<lparr>sr_generation = generation, sr_runId = runId\<rparr> of
                                    Inl e \<Rightarrow> ((S'', R'), Some (Inl e))
                                  | Inr data \<Rightarrow>
                                      ((map_set S'' slug (st'\<lparr>ss_byKey := map_set (ss_byKey st') key data\<rparr>), R'), Some (Inr (Inr data)))))))))"

definition restore_result :: "SaveSpecResponse result throws option \<Rightarrow> SaveSpecResponse result throws option" where
  "restore_result = map_option (map_sum id (map_sum (\<lambda>f. f\<lparr>f_status := (if f_status f = 404 then 404 else 400)\<rparr>) id))"

definition restoreVersion ::
  "(string \<Rightarrow> url_parts option) \<Rightarrow> tenants \<Rightarrow> spec_world \<Rightarrow> string \<Rightarrow> nat \<Rightarrow> string \<Rightarrow> string \<Rightarrow> instant
     \<Rightarrow> 128 word list \<Rightarrow> spec_world \<times> SaveSpecResponse result throws option" where
  "restoreVersion parse_url T w slug generation key author now draws =
     (let (S, R) = w
      in case stateFor_spec T S slug of
        (S', Inl e) \<Rightarrow> ((S', R), Some (Inl e))
      | (S', Inr None) \<Rightarrow> ((S', R), Some (Inr (Inl \<lparr>f_status = 404, f_title = ''Tenant not found'',
            f_detail = Some (''No tenant with slug '' @ quoted slug @ ''.'')\<rparr>)))
      | (S', Inr (Some st)) \<Rightarrow>
          (case List.find (\<lambda>v. sv_generation v = generation) (ss_versions st) of
             None \<Rightarrow> ((S', R), Some (Inr (Inl \<lparr>f_status = 404, f_title = ''Version not found'',
               f_detail = Some (slug @ '' has no generation '' @ show_nat generation @ ''.'')\<rparr>)))
           | Some source \<Rightarrow>
               if generation = ss_currentGeneration st then
                 ((S', R), Some (Inr (Inl \<lparr>f_status = 409, f_title = ''Already current'',
                   f_detail = Some (''Generation '' @ show_nat generation @ '' is the current desired state; nothing to restore.'')\<rparr>)))
               else
                 map_prod id restore_result
                   (saveSpec parse_url T (S', R) slug (sv_body source) (Some (Some (int (ss_currentGeneration st)))) key author now draws
                      (Some (''restore of gen '' @ show_nat generation)))))"

definition planSpec :: "tenants \<Rightarrow> spec_store \<Rightarrow> string \<Rightarrow> string option \<Rightarrow> instant \<Rightarrow> spec_store \<times> Plan option throws" where
  "planSpec T S slug draftBody now =
     (case (stateFor_spec T S slug, tenant_of T slug) of
        ((S', Inl e), _) \<Rightarrow> (S', Inl e)
      | ((S', Inr (Some st)), Some t) \<Rightarrow>
          (let generation = (if draftBody = None then ss_currentGeneration st else ss_currentGeneration st + 1)
           in (S', map_sum id Some (parse_with PlanSchema_ok (planFixture slug (ts_displayName t) generation now))))
      | ((S', _), _) \<Rightarrow> (S', Inr None))"

definition reconcileNow :: "tenants \<Rightarrow> Store \<Rightarrow> string \<Rightarrow> string \<Rightarrow> instant \<Rightarrow> 128 word list \<Rightarrow> Store \<times> string option throws option" where
  "reconcileNow T R slug key now draws =
     (case tenant_of T slug of
        None \<Rightarrow> (R, Some (Inr None))
      | Some _ \<Rightarrow> (case enqueueReconcile R slug key now draws of (R', res) \<Rightarrow> (R', map_option (map_sum id Some) res)))"

end
