(* ===== verification/Spec_History.thy ===== *)
theory Spec_History
  imports Spec_Documents
begin

text \<open>
  What the spec store guarantees over sequences of operations: generations are numbered without
  gaps, history is append-only, a stale If-Match never overwrites a newer generation, and an
  Idempotency-Key is answered once.
\<close>

section \<open>Operation sequences\<close>

datatype SpecOp =
    Read_spec string
  | Save_spec string string "int option option" string string instant "128 word list" "string option"
  | Restore_spec string nat string string instant "128 word list"
  | Run_op RunOp

definition spec_step :: "(string \<Rightarrow> url_parts option) \<Rightarrow> tenants \<Rightarrow> spec_world \<Rightarrow> SpecOp \<Rightarrow> spec_world" where
  "spec_step parse_url T w x =
     (case x of
        Read_spec slug \<Rightarrow> (fst (stateFor_spec T (fst w) slug), snd w)
      | Save_spec slug body m key author now draws sm \<Rightarrow> fst (saveSpec parse_url T w slug body m key author now draws sm)
      | Restore_spec slug g key author now draws \<Rightarrow> fst (restoreVersion parse_url T w slug g key author now draws)
      | Run_op r \<Rightarrow> (fst w, run_step (snd w) r))"

section \<open>The store is lazily seeded\<close>

definition seeded_state :: "tenants \<Rightarrow> string \<Rightarrow> TenantSpecState option" where
  "seeded_state T slug = (case spec_seed T slug of Inr r \<Rightarrow> r | Inl _ \<Rightarrow> None)"

definition acquire_spec :: "tenants \<Rightarrow> spec_store \<Rightarrow> string \<Rightarrow> spec_store \<times> TenantSpecState option" where
  "acquire_spec T S slug =
     (fst (stateFor_spec T S slug), case snd (stateFor_spec T S slug) of Inr r \<Rightarrow> r | Inl _ \<Rightarrow> None)"

interpretation specs: lazy_store "acquire_spec T" map_get "seeded_state T" for T
  by unfold_locales
     (auto simp: acquire_spec_def stateFor_spec_def seeded_state_def split: option.splits sum.splits)

lemma stateFor_spec_Some:
  "stateFor_spec T S slug = (S', Inr (Some st)) \<Longrightarrow> map_get S' slug = Some st \<and> specs.view T S slug = Some st
     \<and> (\<forall>k. specs.view T S' k = specs.view T S k)"
proof -
  assume a: "stateFor_spec T S slug = (S', Inr (Some st))"
  then have "acquire_spec T S slug = (S', Some st)" by (simp add: acquire_spec_def)
  then show ?thesis using specs.peek_acquire [of T S slug st] specs.snd_acquire [of T S slug] specs.view_acquire [of T S slug]
    by simp
qed

lemma view_peek: "map_get S slug = Some st \<Longrightarrow> specs.view T S slug = Some st"
  by (simp add: specs.view_def)

lemma view_set: "specs.view T (map_set S slug st) k = (if k = slug then Some st else specs.view T S k)"
  by (simp add: specs.view_def)

lemma fst_stateFor_view: "specs.view T (fst (stateFor_spec T S slug)) k = specs.view T S k"
  using specs.view_acquire [of T S slug k] by (simp add: acquire_spec_def)

section \<open>Saves\<close>

text \<open>The branches of a save: nothing written but the seed, or a version appended (with or without a recorded answer).\<close>

lemma saveSpec_cases [case_names same appended]:
  obtains (same) res where "saveSpec parse_url T (S, R) slug body m key author now draws sm = ((fst (stateFor_spec T S slug), R), res)"
      "\<And>d. res = Some (Inr (Inr d)) \<Longrightarrow> \<exists>st. specs.view T S slug = Some st \<and> map_get (ss_byKey st) key = Some d"
  | (appended) st prev st' st'' S' R' res where "stateFor_spec T S slug = (S', Inr (Some st))" "map_get (ss_byKey st) key = None"
      "save_failure parse_url st body m = None" "current_version st = Inr prev"
      "st' = append_version (new_version body author now sm prev (ss_currentGeneration st + 1)) st"
      "saveSpec parse_url T (S, R) slug body m key author now draws sm = ((map_set S' slug st'', R'), res)"
      "(st'' = st' \<and> (\<forall>d. res \<noteq> Some (Inr (Inr d))))
        \<or> (\<exists>d. st'' = st'\<lparr>ss_byKey := map_set (ss_byKey st') key d\<rparr> \<and> res = Some (Inr (Inr d)) \<and> sr_generation d = ss_currentGeneration st + 1)"
proof -
  obtain S' r where sf: "stateFor_spec T S slug = (S', r)" by fastforce
  show ?thesis
  proof (cases "\<exists>st prev. r = Inr (Some st) \<and> map_get (ss_byKey st) key = None \<and> save_failure parse_url st body m = None
      \<and> current_version st = Inr prev")
    case False
    have "\<exists>res. saveSpec parse_url T (S, R) slug body m key author now draws sm = ((S', R), res)
        \<and> (\<forall>d. res = Some (Inr (Inr d)) \<longrightarrow> (\<exists>st. r = Inr (Some st) \<and> map_get (ss_byKey st) key = Some d))"
      using False by (auto simp: saveSpec_def sf split: sum.splits option.splits)
    then obtain res where eq: "saveSpec parse_url T (S, R) slug body m key author now draws sm = ((S', R), res)"
        and ans: "\<And>d. res = Some (Inr (Inr d)) \<Longrightarrow> \<exists>st. r = Inr (Some st) \<and> map_get (ss_byKey st) key = Some d" by blast
    show ?thesis
    proof (rule same)
      show "saveSpec parse_url T (S, R) slug body m key author now draws sm = ((fst (stateFor_spec T S slug), R), res)"
        unfolding sf fst_conv by (rule eq)
      show "\<exists>st. specs.view T S slug = Some st \<and> map_get (ss_byKey st) key = Some d" if d: "res = Some (Inr (Inr d))" for d
      proof -
        obtain st where st: "r = Inr (Some st)" "map_get (ss_byKey st) key = Some d" using ans [OF d] by blast
        show ?thesis using stateFor_spec_Some [OF sf [unfolded st(1)]] st(2) by blast
      qed
    qed
  next
    case True
    then obtain st prev where st: "r = Inr (Some st)" "map_get (ss_byKey st) key = None"
        "save_failure parse_url st body m = None" "current_version st = Inr prev" by blast
    define st' where "st' = append_version (new_version body author now sm prev (ss_currentGeneration st + 1)) st"
    obtain R' q where eq: "enqueueReconcile R slug (key @ '':reconcile'') now draws = (R', q)" by fastforce
    have "\<exists>st'' res. saveSpec parse_url T (S, R) slug body m key author now draws sm = ((map_set S' slug st'', R'), res)
        \<and> ((st'' = st' \<and> (\<forall>d. res \<noteq> Some (Inr (Inr d))))
          \<or> (\<exists>d. st'' = st'\<lparr>ss_byKey := map_set (ss_byKey st') key d\<rparr> \<and> res = Some (Inr (Inr d)) \<and> sr_generation d = ss_currentGeneration st + 1))"
      using st by (auto simp: saveSpec_def sf eq Let_def parse_with_def st'_def split: option.split sum.split)
    then show ?thesis using appended [OF _ st(2-4) st'_def] sf st(1) by blast
  qed
qed

section \<open>History\<close>

text \<open>A version without its display status, and a tenant's history, oldest first.\<close>

definition core :: "SpecVersion \<Rightarrow> SpecVersion" where
  "core v = v\<lparr>sv_status := V_current\<rparr>"

definition history :: "TenantSpecState \<Rightarrow> SpecVersion list" where
  "history st = rev (map core (ss_versions st))"

definition spec_state_ok :: "TenantSpecState \<Rightarrow> bool" where
  "spec_state_ok st \<longleftrightarrow>
     0 < ss_currentGeneration st
     \<and> map sv_generation (history st) = [1..<Suc (ss_currentGeneration st)]
     \<and> list_all (\<lambda>v. sv_hash v = spec_fnv1a (sv_body v) \<and> sv_author v \<noteq> []) (history st)
     \<and> list_all (\<lambda>v. sv_status v = V_current \<longleftrightarrow> sv_generation v = ss_currentGeneration st) (ss_versions st)"

definition grows :: "TenantSpecState \<Rightarrow> TenantSpecState \<Rightarrow> bool" where
  "grows st st' \<longleftrightarrow>
     prefix (history st) (history st') \<and> ss_currentGeneration st \<le> ss_currentGeneration st'
     \<and> (\<forall>k d. map_get (ss_byKey st) k = Some d \<longrightarrow> map_get (ss_byKey st') k = Some d)"

lemma grows_refl [simp]: "grows st st"
  by (simp add: grows_def)

lemma grows_trans: "grows a b \<Longrightarrow> grows b c \<Longrightarrow> grows a c"
  unfolding grows_def by (meson order_trans prefix_order.trans)

lemma history_append: "history (append_version v st) = history st @ [core v]"
  by (simp add: history_def append_version_def o_def core_def)

lemma append_fields [simp]:
  "ss_currentGeneration (append_version v st) = sv_generation v" "ss_byKey (append_version v st) = ss_byKey st"
  "history (st\<lparr>ss_byKey := m\<rparr>) = history st"
  by (simp_all add: append_version_def history_def)

lemma core_fields [simp]:
  "sv_generation (core v) = sv_generation v" "sv_hash (core v) = sv_hash v" "sv_body (core v) = sv_body v" "sv_author (core v) = sv_author v"
  by (simp_all add: core_def)

lemma new_version_fields [simp]:
  "sv_generation (new_version body author now sm prev g) = g" "sv_body (new_version body author now sm prev g) = body"
  "sv_hash (new_version body author now sm prev g) = spec_fnv1a body" "sv_status (new_version body author now sm prev g) = V_current"
  "sv_author (new_version body author now sm prev g) = author"
  by (simp_all add: new_version_def)

lemma append_ok:
  assumes "spec_state_ok st" and "author \<noteq> []"
  shows "spec_state_ok (append_version (new_version body author now sm prev (ss_currentGeneration st + 1)) st)"
proof -
  have "sv_generation v \<noteq> Suc (ss_currentGeneration st)" if "v \<in> set (ss_versions st)" for v
  proof -
    have "sv_generation (core v) \<in> set (map sv_generation (history st))"
      using that unfolding history_def set_map set_rev by blast
    also have "map sv_generation (history st) = [1..<Suc (ss_currentGeneration st)]" using assms by (simp only: spec_state_ok_def)
    finally show ?thesis by auto
  qed
  then have "list_all (\<lambda>v. sv_status v = V_current \<longleftrightarrow> sv_generation v = Suc (ss_currentGeneration st))
      (ss_versions (append_version (new_version body author now sm prev (ss_currentGeneration st + 1)) st))"
    by (auto simp: append_version_def list_all_iff versionStatus_def)
  then show ?thesis using assms unfolding spec_state_ok_def history_append by simp
qed

lemma byKey_ok [simp]: "spec_state_ok (st\<lparr>ss_byKey := m\<rparr>) = spec_state_ok st"
  by (simp add: spec_state_ok_def)

section \<open>Every operation only appends\<close>

text \<open>An operation leaves what callers see alone, or lets one tenant's history grow.\<close>

definition updates :: "tenants \<Rightarrow> bool \<Rightarrow> spec_world \<Rightarrow> spec_world \<Rightarrow> bool" where
  "updates T ok w w' \<longleftrightarrow>
     specs.view T (fst w') = specs.view T (fst w)
     \<or> (\<exists>slug st st'. specs.view T (fst w) slug = Some st \<and> specs.view T (fst w') = (specs.view T (fst w))(slug \<mapsto> st')
          \<and> grows st st' \<and> (ok \<longrightarrow> spec_state_ok st \<longrightarrow> spec_state_ok st'))"

lemma updates_save: "updates T (author \<noteq> []) (S, R) (fst (saveSpec parse_url T (S, R) slug body m key author now draws sm))"
proof (cases rule: saveSpec_cases [where parse_url = parse_url and T = T and S = S and R = R and slug = slug and body = body
      and m = m and key = key and author = author and now = now and draws = draws and sm = sm])
  case (same res)
  show ?thesis unfolding same(1) updates_def by (simp add: fst_stateFor_view fun_eq_iff)
next
  case (appended st prev st' st'' S' R' res)
  note sf = stateFor_spec_Some [OF appended(1)]
  have h: "history st'' = history st @ [core (new_version body author now sm prev (ss_currentGeneration st + 1))]"
      "ss_currentGeneration st'' = ss_currentGeneration st + 1"
      "author \<noteq> [] \<Longrightarrow> spec_state_ok st \<Longrightarrow> spec_state_ok st''"
      "\<forall>k d. map_get (ss_byKey st) k = Some d \<longrightarrow> map_get (ss_byKey st'') k = Some d"
    using appended(2,5,7) append_ok [of st] by (auto simp: history_append)
  then have "grows st st''" by (simp add: grows_def)
  moreover have "specs.view T (map_set S' slug st'') = (specs.view T S)(slug \<mapsto> st'')"
    using sf by (simp add: view_set fun_eq_iff)
  ultimately show ?thesis unfolding appended(6) updates_def fst_conv using sf h(3) by blast
qed

lemma updates_seeded: "specs.view T S' = specs.view T S \<Longrightarrow> updates T ok (S', R) w \<Longrightarrow> updates T ok (S, R) w"
  by (simp add: updates_def)

lemma updates_restore: "updates T (author \<noteq> []) (S, R) (fst (restoreVersion parse_url T (S, R) slug g key author now draws))"
proof -
  obtain S' r where sf: "stateFor_spec T S slug = (S', r)" by fastforce
  have seeded: "specs.view T S' = specs.view T S" using fst_stateFor_view [of T S slug] by (simp add: sf fun_eq_iff)
  have "fst (restoreVersion parse_url T (S, R) slug g key author now draws) = (S', R)
      \<or> (\<exists>body m sm. fst (restoreVersion parse_url T (S, R) slug g key author now draws)
            = fst (saveSpec parse_url T (S', R) slug body m key author now draws sm))"
    by (auto simp: restoreVersion_def sf split: sum.split option.split prod.split)
  then show ?thesis
  proof (elim disjE exE)
    assume "fst (restoreVersion parse_url T (S, R) slug g key author now draws) = (S', R)"
    then show ?thesis by (simp only: updates_def fst_conv seeded) simp
  next
    fix body m sm
    assume "fst (restoreVersion parse_url T (S, R) slug g key author now draws) = fst (saveSpec parse_url T (S', R) slug body m key author now draws sm)"
    then show ?thesis using updates_seeded [OF seeded updates_save] by simp
  qed
qed

definition spec_op_ok :: "SpecOp \<Rightarrow> bool" where
  "spec_op_ok x \<longleftrightarrow>
     (case x of Save_spec _ _ _ _ author _ _ _ \<Rightarrow> author \<noteq> [] | Restore_spec _ _ _ author _ _ \<Rightarrow> author \<noteq> [] | _ \<Rightarrow> True)"

lemma updates_step: "updates T (spec_op_ok x) w (spec_step parse_url T w x)"
proof (cases x)
  case (Read_spec slug)
  then show ?thesis by (simp add: updates_def spec_step_def fst_stateFor_view fun_eq_iff)
next
  case (Save_spec slug body m key author now draws sm)
  then show ?thesis using updates_save by (cases w) (simp add: spec_step_def spec_op_ok_def)
next
  case (Restore_spec slug g key author now draws)
  then show ?thesis using updates_restore by (cases w) (simp add: spec_step_def spec_op_ok_def)
next
  case (Run_op r)
  then show ?thesis by (simp add: updates_def spec_step_def)
qed

definition world_ok :: "tenants \<Rightarrow> spec_world \<Rightarrow> bool" where
  "world_ok T w \<longleftrightarrow> (\<forall>slug st. specs.view T (fst w) slug = Some st \<longrightarrow> spec_state_ok st)"

definition extends :: "tenants \<Rightarrow> spec_world \<Rightarrow> spec_world \<Rightarrow> bool" where
  "extends T w w' \<longleftrightarrow>
     (\<forall>slug st. specs.view T (fst w) slug = Some st \<longrightarrow> (\<exists>st'. specs.view T (fst w') slug = Some st' \<and> grows st st'))"

lemma updates_extends: "updates T ok w w' \<Longrightarrow> extends T w w'"
  by (auto simp: updates_def extends_def)

lemma updates_ok: "updates T ok w w' \<Longrightarrow> ok \<Longrightarrow> world_ok T w \<Longrightarrow> world_ok T w'"
  unfolding updates_def world_ok_def by (elim disjE exE conjE) (simp_all split: if_splits)

lemma extends_run: "extends T w (run (spec_step parse_url T) w xs)"
proof (induction xs arbitrary: w)
  case Nil
  show ?case by (simp add: extends_def)
next
  case (Cons x xs)
  show ?case using Cons [of "spec_step parse_url T w x"] updates_extends [OF updates_step, of T w parse_url x]
    unfolding extends_def run.simps by (meson grows_trans)
qed

lemma world_ok_run: "list_all spec_op_ok xs \<Longrightarrow> world_ok T w \<Longrightarrow> world_ok T (run (spec_step parse_url T) w xs)"
proof (induction xs arbitrary: w)
  case (Cons x xs)
  then have "world_ok T (spec_step parse_url T w x)" by (intro updates_ok [OF updates_step]) simp_all
  with Cons show ?case by simp
qed simp

lemma extendsD: "extends T w w' \<Longrightarrow> specs.view T (fst w) slug = Some st \<Longrightarrow> \<exists>st'. specs.view T (fst w') slug = Some st' \<and> grows st st'"
  by (simp add: extends_def)

section \<open>The seeds\<close>

lemma history_seed:
  assumes "versions = map f (rev [1..<Suc n])" and "0 < n" and "\<And>g. sv_generation (f g) = g"
    and "\<And>g. sv_hash (f g) = spec_fnv1a (sv_body (f g))" and "\<And>g. sv_author (f g) \<noteq> []"
    and "\<And>g. sv_status (f g) = versionStatus g n observed"
  shows "spec_state_ok \<lparr>ss_versions = versions, ss_currentGeneration = n, ss_observedGeneration = observed, ss_byKey = m\<rparr>"
proof -
  have "rev (map core versions) = map (core \<circ> f) [1..<Suc n]" unfolding assms(1) map_map rev_map [symmetric] by (simp only: rev_rev_ident)
  then show ?thesis using assms(2-)
    by (simp add: spec_state_ok_def history_def list_all_iff assms(1) versionStatus_def o_def del: upt_Suc)
qed

lemma acme_seed_ok: "spec_state_ok \<lparr>ss_versions = acmeVersions, ss_currentGeneration = 9, ss_observedGeneration = observed, ss_byKey = m\<rparr>"
proof -
  have "[1..<Suc 9] = [1, 2, 3, 4, 5, 6, 7, 8, 9 :: nat]" by (simp add: upt_rec)
  then show ?thesis
    by (simp add: spec_state_ok_def history_def acmeVersions_def ACME_SEEDS_def toVersion_def versionStatus_def ACME_HUMAN_def CI_BOT_def)
qed

lemma acme_seed_current: "(case acmeVersions of v # _ \<Rightarrow> sv_generation v | [] \<Rightarrow> n) = 9"
  by (simp add: acmeVersions_def ACME_SEEDS_def toVersion_def)

lemma genericVersion_fields [simp]:
  "sv_generation (genericVersion t c g) = g" "sv_hash (genericVersion t c g) = spec_fnv1a (sv_body (genericVersion t c g))"
  "sv_author (genericVersion t c g) \<noteq> []" "sv_status (genericVersion t c g) = versionStatus g (ts_generation t) (ts_observedGeneration t)"
  by (simp_all add: genericVersion_def Let_def CI_BOT_def)

text \<open>A tenant with a readable creation date has a history to start from.\<close>

definition has_created_date :: "TenantDetail \<Rightarrow> bool" where
  "has_created_date t \<longleftrightarrow> Date_parse (ts_createdAt t) \<noteq> None"

lemma seed_ok:
  assumes "tenants_wf T" and "seeded_state T slug = Some st"
  shows "spec_state_ok st"
proof -
  obtain t where t: "tenant_of T slug = Some t" using assms(2) by (auto simp: seeded_state_def spec_seed_def split: option.splits)
  have gen: "0 < ts_generation t" using tenant_of_ok [OF assms(1) t] by (simp add: TenantDetailSchema_ok_def TenantSummarySchema_ok_def)
  show ?thesis
  proof (cases "slug = ''acme-air''")
    case True
    then show ?thesis using assms(2) t acme_seed_ok by (auto simp: seeded_state_def spec_seed_def acme_seed_current)
  next
    case False
    then obtain c where c: "Date_parse (ts_createdAt t) = Some c"
      using assms(2) t gen by (auto simp: seeded_state_def spec_seed_def genericVersions_def split: option.splits)
    define versions where "versions = map (genericVersion t c) (rev [1..<Suc (ts_generation t)])"
    have "(case versions of v # _ \<Rightarrow> sv_generation v | [] \<Rightarrow> ts_generation t) = ts_generation t"
      using gen by (simp add: versions_def)
    then have "st = \<lparr>ss_versions = versions, ss_currentGeneration = ts_generation t, ss_observedGeneration = ts_observedGeneration t, ss_byKey = []\<rparr>"
      using assms(2) t c False by (simp add: seeded_state_def spec_seed_def genericVersions_def versions_def del: upt_Suc)
    then show ?thesis using history_seed [OF versions_def gen] by simp
  qed
qed

lemma seed_exists: "tenant_of T slug = Some t \<Longrightarrow> has_created_date t \<Longrightarrow> seeded_state T slug \<noteq> None"
  by (auto simp: seeded_state_def spec_seed_def genericVersions_def has_created_date_def split: option.splits)

lemma world_ok_seed: "tenants_wf T \<Longrightarrow> world_ok T ([], R)"
  using seed_ok by (auto simp: world_ok_def specs.view_def)

section \<open>Idempotency keys\<close>

definition save_answer :: "tenants \<Rightarrow> spec_world \<Rightarrow> string \<times> string \<Rightarrow> SaveSpecResponse result throws option option" where
  "save_answer T w k =
     (case specs.view T (fst w) (fst k) of
        None \<Rightarrow> None
      | Some st \<Rightarrow> map_option (\<lambda>d. Some (Inr (Inr d))) (map_get (ss_byKey st) (snd k)))"

definition save_accepted :: "SaveSpecResponse result throws option \<Rightarrow> bool" where
  "save_accepted r \<longleftrightarrow> (case r of Some (Inr (Inr _)) \<Rightarrow> True | _ \<Rightarrow> False)"

lemma save_acceptedE: "save_accepted r \<Longrightarrow> (\<And>d. r = Some (Inr (Inr d)) \<Longrightarrow> P) \<Longrightarrow> P"
  by (auto simp: save_accepted_def split: option.splits sum.splits)

lemma seed_no_keys: "seeded_state T slug = Some st \<Longrightarrow> ss_byKey st = []"
proof -
  assume a: "seeded_state T slug = Some st"
  then obtain t where t: "tenant_of T slug = Some t" by (auto simp: seeded_state_def spec_seed_def split: option.splits)
  then show ?thesis using a by (cases "genericVersions t") (auto simp: seeded_state_def spec_seed_def split: if_splits)
qed

lemma save_answer_Some:
  assumes "save_answer T w (slug, key) = Some r"
  obtains st d where "map_get (fst w) slug = Some st" "map_get (ss_byKey st) key = Some d" "r = Some (Inr (Inr d))"
  using assms seed_no_keys by (fastforce simp: save_answer_def specs.view_def split: option.splits)

lemma save_replays:
  "save_answer T (S, R) (slug, key) = Some r \<Longrightarrow> saveSpec parse_url T (S, R) slug body m key author now draws sm = ((S, R), r)"
  by (erule save_answer_Some) (simp add: saveSpec_def stateFor_spec_def)

lemma save_records:
  assumes new: "save_answer T (S, R) (slug, key) = None"
    and save: "saveSpec parse_url T (S, R) slug body m key author now draws sm = (w', r)" and acc: "save_accepted r"
  shows "save_answer T w' (slug, key) = Some r"
  using acc
proof (rule save_acceptedE)
  fix d
  assume d: "r = Some (Inr (Inr d))"
  show ?thesis
  proof (cases rule: saveSpec_cases [where parse_url = parse_url and T = T and S = S and R = R and slug = slug and body = body
      and m = m and key = key and author = author and now = now and draws = draws and sm = sm])
    case (same res)
    then show ?thesis using new save d by (auto simp: save_answer_def)
  next
    case (appended st prev st' st'' S' R' res)
    then show ?thesis using save d by (auto simp: save_answer_def view_set)
  qed
qed

lemma save_answer_kept: "save_answer T w k = Some r \<Longrightarrow> extends T w w' \<Longrightarrow> save_answer T w' k = Some r"
  by (fastforce simp: save_answer_def extends_def grows_def split: option.splits)

interpretation saves: keyed_log
  "\<lambda>(slug, key) (body, m, author, now, draws, sm) w. saveSpec parse_url T w slug body m key author now draws sm"
  "save_answer T" save_accepted "spec_step parse_url T" for parse_url T
proof (unfold_locales, goal_cases)
  case (1 s k r a)
  then show ?case using save_replays by (cases s; cases k; cases a) simp
next
  case (2 s k a s' r)
  then show ?case using save_records by (cases s; cases k; cases a) simp
next
  case (3 s k r x)
  then show ?case using save_answer_kept updates_extends [OF updates_step] by blast
qed

section \<open>Reads\<close>

lemma stateFor_view: "specs.view T S slug = Some st \<Longrightarrow> \<exists>S'. stateFor_spec T S slug = (S', Inr (Some st))"
  by (auto simp: stateFor_spec_def specs.view_def seeded_state_def split: option.splits sum.splits)

lemma spec_state_okD:
  assumes "spec_state_ok st"
  shows "0 < ss_currentGeneration st" and "map sv_generation (rev (ss_versions st)) = [1..<Suc (ss_currentGeneration st)]"
    and "list_all SpecVersionSchema_ok (ss_versions st)"
proof -
  show "0 < ss_currentGeneration st" using assms by (simp only: spec_state_ok_def)
  show gens: "map sv_generation (rev (ss_versions st)) = [1..<Suc (ss_currentGeneration st)]"
    using assms by (simp add: spec_state_ok_def history_def rev_map o_def del: upt_Suc)
  have "1 \<le> sv_generation v" if "v \<in> set (ss_versions st)" for v
  proof -
    have "sv_generation v \<in> set (map sv_generation (rev (ss_versions st)))" using that unfolding set_map set_rev by (rule imageI)
    then show ?thesis unfolding gens by auto
  qed
  then show "list_all SpecVersionSchema_ok (ss_versions st)"
    using assms by (fastforce simp: spec_state_ok_def history_def list_all_iff SpecVersionSchema_ok_def spec_fnv1a_def)
qed

lemma current_head:
  assumes "spec_state_ok st"
  obtains v vs where "ss_versions st = v # vs" "current_version st = Inr v" "sv_generation v = ss_currentGeneration st"
proof -
  note ok = spec_state_okD [OF assms]
  obtain v vs where v: "ss_versions st = v # vs" using ok(1,2) by (cases "ss_versions st") simp_all
  moreover have "sv_generation v = ss_currentGeneration st" using ok(1,2) unfolding v by simp
  ultimately show ?thesis using that by (simp add: current_version_def)
qed

lemma reads_of:
  assumes "specs.view T S slug = Some st" and "spec_state_ok st" and "slug \<noteq> []"
  shows "snd (listVersions T S slug) = Inr (Some \<lparr>vl_slug = slug, vl_items = ss_versions st, vl_total = length (ss_versions st),
           vl_currentGeneration = ss_currentGeneration st, vl_observedGeneration = ss_observedGeneration st\<rparr>)"
    and "\<exists>d. snd (getSpec T S slug) = Inr (Some d) \<and> sd_generation d = ss_currentGeneration st \<and> sd_body d = sv_body (hd (ss_versions st))"
proof -
  obtain S' where sf: "stateFor_spec T S slug = (S', Inr (Some st))" using stateFor_view [OF assms(1)] by blast
  note ok = spec_state_okD [OF assms(2)]
  show "snd (listVersions T S slug) = Inr (Some \<lparr>vl_slug = slug, vl_items = ss_versions st, vl_total = length (ss_versions st),
           vl_currentGeneration = ss_currentGeneration st, vl_observedGeneration = ss_observedGeneration st\<rparr>)"
    using ok(1,3) assms(3) by (simp add: listVersions_def sf SpecVersionsSchema_ok_def)
  obtain v vs where v: "ss_versions st = v # vs" "current_version st = Inr v" "sv_generation v = ss_currentGeneration st"
    using current_head [OF assms(2)] .
  then have "SpecVersionSchema_ok v" using ok(3) by simp
  then show "\<exists>d. snd (getSpec T S slug) = Inr (Some d) \<and> sd_generation d = ss_currentGeneration st \<and> sd_body d = sv_body (hd (ss_versions st))"
    using assms(3) v ok(1) by (simp add: getSpec_def sf SpecDocumentSchema_ok_def SpecVersionSchema_ok_def)
qed

section \<open>Accepted and stale saves\<close>

lemma accepted_save:
  assumes "save_answer T w (slug, key) = None"
    and "saveSpec parse_url T w slug body m key author now draws sm = (w', Some (Inr (Inr d)))"
  obtains st st' v where "specs.view T (fst w) slug = Some st" "specs.view T (fst w') = (specs.view T (fst w))(slug \<mapsto> st')"
    "m = Some (Some (int (ss_currentGeneration st)))"
    "vo_valid (validateSpecBody parse_url body (map_option sv_body (applied_version st)))"
    "history st' = history st @ [v]" "sv_body v = body" "sv_author v = author" "sv_generation v = ss_currentGeneration st + 1"
    "sr_generation d = ss_currentGeneration st + 1" "ss_currentGeneration st' = ss_currentGeneration st + 1"
proof -
  obtain S R where w: "w = (S, R)" by fastforce
  show ?thesis
  proof (cases rule: saveSpec_cases [where parse_url = parse_url and T = T and S = S and R = R and slug = slug and body = body
      and m = m and key = key and author = author and now = now and draws = draws and sm = sm])
    case (same res)
    then show ?thesis using assms unfolding w by (auto simp: save_answer_def)
  next
    case (appended st prev st' st'' S' R' res)
    note sf = stateFor_spec_Some [OF appended(1)]
    have guards: "m = Some (Some (int (ss_currentGeneration st)))"
        "vo_valid (validateSpecBody parse_url body (map_option sv_body (applied_version st)))"
      using appended(3) by (auto simp: save_failure_def Let_def split: option.splits if_splits)
    have r: "st'' = st'\<lparr>ss_byKey := map_set (ss_byKey st') key d\<rparr>" "sr_generation d = ss_currentGeneration st + 1" "w' = (map_set S' slug st'', R')"
      using appended(6,7) assms(2) unfolding w by auto
    have "specs.view T (fst w') = (specs.view T (fst w))(slug \<mapsto> st'')" using sf by (simp add: r(3) w view_set fun_eq_iff)
    moreover have "history st'' = history st @ [core (new_version body author now sm prev (ss_currentGeneration st + 1))]"
        "ss_currentGeneration st'' = ss_currentGeneration st + 1"
      unfolding r(1) appended(5) by (simp_all add: history_append)
    ultimately show ?thesis using that [of st st''] sf guards r(2) by (simp add: w)
  qed
qed

lemma save_other_key:
  assumes "saveSpec parse_url T (S, R) slug body m key author now draws sm = (w', res)" and "key' \<noteq> key"
  shows "save_answer T w' (slug, key') = save_answer T (S, R) (slug, key')"
proof (cases rule: saveSpec_cases [where parse_url = parse_url and T = T and S = S and R = R and slug = slug and body = body
      and m = m and key = key and author = author and now = now and draws = draws and sm = sm])
  case (same res)
  then show ?thesis using assms(1) by (auto simp: save_answer_def fst_stateFor_view)
next
  case (appended st prev st' st'' S' R' res)
  then show ?thesis using assms stateFor_spec_Some [OF appended(1)] by (auto simp: save_answer_def view_set)
qed

lemma stale_save:
  assumes "specs.view T (fst w) slug = Some st" and "save_answer T w (slug, key) = None" and "g \<noteq> int (ss_currentGeneration st)"
  shows "\<exists>w' f. saveSpec parse_url T w slug body (Some (Some g)) key author now draws sm = (w', Some (Inr (Inl f)))
     \<and> f_status f = 412 \<and> specs.view T (fst w') = specs.view T (fst w)"
proof -
  obtain S R where w: "w = (S, R)" by fastforce
  obtain S' where sf: "stateFor_spec T S slug = (S', Inr (Some st))" using stateFor_view [of T S slug st] assms(1) by (auto simp: w)
  have "map_get (ss_byKey st) key = None" using assms(1,2) by (simp add: save_answer_def)
  moreover have "specs.view T S' = specs.view T S" using stateFor_spec_Some [OF sf] by (simp add: fun_eq_iff)
  ultimately show ?thesis using assms(3) by (simp add: w saveSpec_def sf save_failure_def)
qed

section \<open>Properties\<close>

text \<open>
  The version history of a tenant is append-only. After any sequence of reads, saves, restores
  and reconcile operations, the versions that had been listed earlier are still listed, unchanged
  but for their display status, as the oldest ones; generations are numbered 1, 2, \<open>\<dots>\<close> without a
  gap up to the current one; and the current document is the newest version.
\<close>

theorem spec_history_append_only:
  assumes "tenants_wf T" and "tenant_of T slug = Some t" and "has_created_date t" and "slug \<noteq> []"
    and "list_all spec_op_ok before" and "list_all spec_op_ok later"
  shows "\<exists>v v' d. snd (listVersions T (fst (run (spec_step parse_url T) ([], R) before)) slug) = Inr (Some v)
     \<and> snd (listVersions T (fst (run (spec_step parse_url T) ([], R) (before @ later))) slug) = Inr (Some v')
     \<and> prefix (map core (rev (vl_items v))) (map core (rev (vl_items v')))
     \<and> map sv_generation (rev (vl_items v')) = [1..<Suc (vl_currentGeneration v')]
     \<and> snd (getSpec T (fst (run (spec_step parse_url T) ([], R) (before @ later))) slug) = Inr (Some d)
     \<and> sd_generation d = vl_currentGeneration v' \<and> sd_body d = sv_body (hd (vl_items v'))"
proof -
  define w where "w = run (spec_step parse_url T) ([], R) before"
  define w' where "w' = run (spec_step parse_url T) w later"
  have w'_eq: "run (spec_step parse_url T) ([], R) (before @ later) = w'" by (simp add: w_def w'_def run_append)
  have ok: "world_ok T w" "world_ok T w'"
    using world_ok_run [OF _ world_ok_seed [OF assms(1)]] world_ok_run assms(5,6) by (simp_all add: w_def w'_def)
  obtain st0 where "specs.view T (fst ([] :: spec_store, R)) slug = Some st0"
    using seed_exists [OF assms(2,3)] by (auto simp: specs.view_def)
  then obtain st where st: "specs.view T (fst w) slug = Some st" using extendsD [OF extends_run] unfolding w_def by blast
  then obtain st' where st': "specs.view T (fst w') slug = Some st'" "grows st st'" using extendsD [OF extends_run] unfolding w'_def by blast
  have oks: "spec_state_ok st" "spec_state_ok st'" using ok st st'(1) by (auto simp: world_ok_def)
  from reads_of(1) [OF st oks(1) assms(4)] reads_of [OF st'(1) oks(2) assms(4)] spec_state_okD(2) [OF oks(2)] st'(2)
  show ?thesis unfolding w'_eq w_def [symmetric] by (auto simp: grows_def history_def rev_map simp del: upt_Suc)
qed

text \<open>
  C2: no save is lost. A save accepted under a fresh Idempotency-Key was validated, named the
  generation that was current, and appended exactly its body as the next generation. From then
  on, whatever happens in between, a save by anyone who still holds the same generation (under a
  fresh key) is refused with 412 and changes no history.
\<close>

theorem saveSpec_no_lost_update:
  assumes fresh: "save_answer T w (slug, key) = None"
    and save: "saveSpec parse_url T w slug body m key author now draws sm = (w', Some (Inr (Inr d)))"
  shows "(\<exists>st st' v. specs.view T (fst w) slug = Some st \<and> specs.view T (fst w') = (specs.view T (fst w))(slug \<mapsto> st')
        \<and> m = Some (Some (int (ss_currentGeneration st)))
        \<and> vo_valid (validateSpecBody parse_url body (map_option sv_body (applied_version st)))
        \<and> history st' = history st @ [v] \<and> sv_body v = body \<and> sv_author v = author
        \<and> sv_generation v = ss_currentGeneration st + 1 \<and> sr_generation d = ss_currentGeneration st + 1)
    \<and> (\<forall>ops body' key' author' now' draws' sm' later. later = run (spec_step parse_url T) w' ops \<longrightarrow>
        save_answer T later (slug, key') = None \<longrightarrow>
        (\<exists>w'' f. saveSpec parse_url T later slug body' m key' author' now' draws' sm' = (w'', Some (Inr (Inl f)))
           \<and> f_status f = 412 \<and> specs.view T (fst w'') = specs.view T (fst later)))"
proof -
  obtain st st' v where *: "specs.view T (fst w) slug = Some st" "specs.view T (fst w') = (specs.view T (fst w))(slug \<mapsto> st')"
      "m = Some (Some (int (ss_currentGeneration st)))"
      "vo_valid (validateSpecBody parse_url body (map_option sv_body (applied_version st)))"
      "history st' = history st @ [v]" "sv_body v = body" "sv_author v = author"
      "sv_generation v = ss_currentGeneration st + 1" "sr_generation d = ss_currentGeneration st + 1"
      "ss_currentGeneration st' = ss_currentGeneration st + 1"
    using accepted_save [OF fresh save] by metis
  have "\<exists>w'' f. saveSpec parse_url T later slug body' m key' author' now' draws' sm' = (w'', Some (Inr (Inl f)))
           \<and> f_status f = 412 \<and> specs.view T (fst w'') = specs.view T (fst later)"
    if later: "later = run (spec_step parse_url T) w' ops" and "save_answer T later (slug, key') = None"
    for ops body' key' author' now' draws' sm' later
  proof -
    have "specs.view T (fst w') slug = Some st'" by (simp add: *(2))
    then obtain st'' where "specs.view T (fst later) slug = Some st''" "grows st' st''" unfolding later using extendsD [OF extends_run] by blast
    then show ?thesis using stale_save that(2) *(3,10) by (auto simp: grows_def)
  qed
  with *(1-9) show ?thesis by blast
qed

text \<open>
  C19: a save is answered once per Idempotency-Key. After an accepted save, whatever operations run
  in between, sending its key again for the same tenant, with any body and any If-Match, writes
  nothing and returns the recorded generation and run.
\<close>

theorem saveSpec_replay:
  assumes "saveSpec parse_url T w slug body m key author now draws sm = (w', Some (Inr (Inr d)))"
    and "later = run (spec_step parse_url T) w' ops"
  shows "saveSpec parse_url T later slug body' m' key author' now' draws' sm' = (later, Some (Inr (Inr d)))"
  using saves.perform_later [where T = T and parse_url = parse_url and k = "(slug, key)" and a = "(body, m, author, now, draws, sm)"
      and b = "(body', m', author', now', draws', sm')" and s = w and s' = w' and xs = ops] assms
  by (simp add: save_accepted_def)

section \<open>Witnesses\<close>

definition small_spec :: string where
  "small_spec = join [CHR 0x0A] [''apiVersion: authzplane.dev/v1'', ''kind: Tenant'', ''metadata:'', ''spec:'']"

definition no_runs :: Store where
  "no_runs = \<lparr>s_runs = [], s_liveStep = [], s_scripts = [], s_retriesByKey = []\<rparr>"

lemma small_spec_schema: "schemaIssues (splitLines small_spec) = []"
  by code_simp

lemma small_spec_indent: "indentationIssues (splitLines small_spec) = []"
  by code_simp

lemma small_spec_issuers: "list_all (\<lambda>l. field_of ''issuer'' (ln_text l) = None) (splitLines small_spec)"
  by code_simp

lemma small_spec_valid: "vo_valid (validateSpecBody parse_url small_spec applied)"
  unfolding validateSpecBody_valid using small_spec_schema small_spec_indent small_spec_issuers by (simp add: list_all_iff issuer_ok_def)

lemma hex_synthetic: "hex_n 12 (synthetic_run_id slug key now)"
  using hex_n_append [of 8 _ 4] hex_n_take [of 8 _ 4] by (simp add: synthetic_run_id_def spec_fnv1a_def)

lemma acme_created_exec: "re_exec iso_re ''2026-06-14T09:00:00Z'' = Some [''2026'', ''06'', ''14'', ''09'', ''00'', ''00'']"
  by code_simp

lemma acme_tenant: "\<exists>t. tenant_of [] ''acme-air'' = Some t \<and> has_created_date t"
proof -
  have "Date_parse ''2026-06-14T09:00:00Z'' \<noteq> None"
    by (simp add: Date_parse_def acme_created_exec instant_of_def month_lengths_def leap_def read_nat_def code_def)
  then show ?thesis
    by (simp add: has_created_date_def tenant_of_def tenantDetailFixture_def findTenant_def TENANTS_def fixture_tenant_def
        tenantDetailFor_def TenantSummary.defs TenantDetail.defs)
qed

lemma enqueue_no_runs: "enqueueReconcile no_runs ''acme-air'' key now draws = (no_runs, Some (Inr (synthetic_run_id ''acme-air'' key now)))"
proof -
  have "listed_runs no_runs fl = []" for fl by (simp add: no_runs_def listed_runs_def js_sort_def Let_def split: option.split)
  then show ?thesis using hex_synthetic
    by (simp add: enqueueReconcile_def listRuns_def runs_page_def run_stats_def truthy_def Let_def ReconcileAccepted_def RunPageSchema_ok_def slice_def
        tenant_stats_def TENANT_STATS_def RunStatsSchema_ok_def WINDOW_LABEL_def)
qed

definition acme_start :: TenantSpecState where
  "acme_start = \<lparr>ss_versions = acmeVersions, ss_currentGeneration = 9, ss_observedGeneration = 8, ss_byKey = []\<rparr>"

lemma acme_view: "specs.view [] [] ''acme-air'' = Some acme_start"
proof -
  have "ts_observedGeneration t = 8" if "tenant_of [] ''acme-air'' = Some t" for t
    using that by (auto simp: tenant_of_def tenantDetailFixture_def findTenant_def TENANTS_def fixture_tenant_def)
  then show ?thesis using acme_tenant by (auto simp: specs.view_def seeded_state_def spec_seed_def acme_start_def acme_seed_current)
qed

lemma acme_no_keys: "ss_byKey acme_start = []" "ss_currentGeneration acme_start = 9"
  by (simp_all add: acme_start_def)

text \<open>A first save on the seeded store: generation 10, with a synthetic run id.\<close>

lemma acme_save:
  "\<exists>w'. saveSpec parse_url [] ([], no_runs) ''acme-air'' small_spec (Some (Some 9)) ''key-1'' ''ops'' 0 [] sm
     = (w', Some (Inr (Inr \<lparr>sr_generation = 10, sr_runId = synthetic_run_id ''acme-air'' ''key-1:reconcile'' 0\<rparr>)))"
proof -
  obtain S' where sf: "stateFor_spec [] [] ''acme-air'' = (S', Inr (Some acme_start))" using stateFor_view [OF acme_view] by blast
  obtain v vs where "current_version acme_start = Inr v"
    using current_head [of acme_start] acme_seed_ok unfolding acme_start_def by metis
  moreover have "save_failure parse_url acme_start small_spec (Some (Some 9)) = None"
    by (simp add: save_failure_def acme_start_def small_spec_valid Let_def)
  ultimately show ?thesis using hex_synthetic
    by (simp add: saveSpec_def sf enqueue_no_runs SaveSpecResponseSchema_ok_def acme_no_keys)
qed

theorem spec_history_append_only_witness:
  "\<exists>v. snd (listVersions [] (fst (run (spec_step (\<lambda>_. None) []) ([], no_runs) ([Read_spec ''acme-air'']
       @ [Save_spec ''acme-air'' small_spec (Some (Some 9)) ''key-1'' ''ops'' 0 [] (Some ''small'')]))) ''acme-air'') = Inr (Some v)
     \<and> map sv_generation (rev (vl_items v)) = [1..<Suc (vl_currentGeneration v)]"
proof -
  obtain t where t: "tenant_of [] ''acme-air'' = Some t" "has_created_date t" using acme_tenant by blast
  show ?thesis
    using spec_history_append_only [OF tenants_wf_Nil t, of "[Read_spec ''acme-air'']"
        "[Save_spec ''acme-air'' small_spec (Some (Some 9)) ''key-1'' ''ops'' 0 [] (Some ''small'')]" "\<lambda>_. None" no_runs]
    unfolding spec_op_ok_def by auto
qed

theorem saveSpec_no_lost_update_witness:
  "\<exists>w' w'' f. fst (saveSpec (\<lambda>_. None) [] ([], no_runs) ''acme-air'' small_spec (Some (Some 9)) ''key-1'' ''ops'' 0 [] (Some ''small'')) = w'
     \<and> saveSpec (\<lambda>_. None) [] w' ''acme-air'' small_spec (Some (Some 9)) ''key-2'' ''mira'' 1 [] None = (w'', Some (Inr (Inl f)))
     \<and> f_status f = 412"
proof -
  obtain w' where w': "saveSpec (\<lambda>_. None) [] ([], no_runs) ''acme-air'' small_spec (Some (Some 9)) ''key-1'' ''ops'' 0 [] (Some ''small'')
     = (w', Some (Inr (Inr \<lparr>sr_generation = 10, sr_runId = synthetic_run_id ''acme-air'' ''key-1:reconcile'' 0\<rparr>)))" using acme_save by blast
  have fresh: "save_answer [] ([], no_runs) (''acme-air'', ''key-1'') = None" by (simp add: save_answer_def acme_view acme_start_def)
  have "save_answer [] w' (''acme-air'', ''key-2'') = None" using save_other_key [OF w'] acme_view acme_no_keys by (simp add: save_answer_def)
  with saveSpec_no_lost_update [OF fresh w', THEN conjunct2, rule_format, of w' "[]" "''key-2''" small_spec "''mira''" 1 "[]" None] w'
  show ?thesis by fastforce
qed

theorem saveSpec_replay_witness:
  "\<exists>w'. saveSpec (\<lambda>_. None) [] ([], no_runs) ''acme-air'' small_spec (Some (Some 9)) ''key-1'' ''ops'' 0 [] (Some ''small'')
      = (w', Some (Inr (Inr \<lparr>sr_generation = 10, sr_runId = synthetic_run_id ''acme-air'' ''key-1:reconcile'' 0\<rparr>)))
    \<and> saveSpec (\<lambda>_. None) [] (run (spec_step (\<lambda>_. None) []) w' [Read_spec ''acme-air'']) ''acme-air'' ''other'' None ''key-1'' ''mira'' 1 [] None
      = (run (spec_step (\<lambda>_. None) []) w' [Read_spec ''acme-air''],
         Some (Inr (Inr \<lparr>sr_generation = 10, sr_runId = synthetic_run_id ''acme-air'' ''key-1:reconcile'' 0\<rparr>)))"
proof -
  obtain w' where w': "saveSpec (\<lambda>_. None) [] ([], no_runs) ''acme-air'' small_spec (Some (Some 9)) ''key-1'' ''ops'' 0 [] (Some ''small'')
     = (w', Some (Inr (Inr \<lparr>sr_generation = 10, sr_runId = synthetic_run_id ''acme-air'' ''key-1:reconcile'' 0\<rparr>)))" using acme_save by blast
  show ?thesis using w' saveSpec_replay [OF w' refl] by (intro exI [of _ w'] conjI)
qed

end
