(* ===== verification/Js_Order.thy ===== *)
theory Js_Order
  imports Js_String
begin

text \<open>
  String order. \<^verbatim>\<open>localeCompare\<close> depends on the platform's collation data, so the functions that sort with it
  take the comparison as an argument; what it promises is the locale \<open>collation\<close>. The default
  sort of strings compares code units, which is one instance.
\<close>

text \<open>The default order of \<^verbatim>\<open>sort()\<close> on strings: by code units.\<close>

fun unit_cmp :: "string \<Rightarrow> string \<Rightarrow> int" where
  "unit_cmp [] [] = 0"
| "unit_cmp [] (d # t) = -1"
| "unit_cmp (c # s) [] = 1"
| "unit_cmp (c # s) (d # t) = (if c = d then unit_cmp s t else int (code c) - int (code d))"

lemma unit_cmp_le_total: "unit_cmp s t \<le> 0 \<or> unit_cmp t s \<le> 0"
  by (induction s t rule: unit_cmp.induct) auto

lemma unit_cmp_zero: "unit_cmp s t = 0 \<longleftrightarrow> s = t"
  by (induction s t rule: unit_cmp.induct) auto

lemma unit_cmp_trans: "unit_cmp s t \<le> 0 \<Longrightarrow> unit_cmp t u \<le> 0 \<Longrightarrow> unit_cmp s u \<le> 0"
proof (induction s t arbitrary: u rule: unit_cmp.induct)
  case (1 u)
  then show ?case by simp
next
  case (2 d t u)
  then show ?case by (cases u) simp_all
next
  case (3 c s u)
  then show ?case by simp
next
  case (4 c s d t u)
  then show ?case by (cases u) (auto split: if_splits)
qed

text \<open>A collation is what \<^verbatim>\<open>localeCompare\<close> promises: a total order on strings, up to ties.\<close>

locale collation = js_comparator lc "\<lambda>_. True" for lc :: "string \<Rightarrow> string \<Rightarrow> int"

interpretation plain: collation unit_cmp
  by unfold_locales (use unit_cmp_le_total unit_cmp_trans in blast)+

end
