(* ===== verification/Drift_Findings.thy ===== *)
theory Drift_Findings
  imports Js_Date Stores Tenants_Data Js_Order
begin

text \<open>
  Drift findings (\<^verbatim>\<open>features/drift\<close>): the platform-wide store of findings, seeded from fixtures on the
  first request and mutated by heals, acknowledgements and resyncs; the listing with its scope
  statistics; and the formatting helpers of the screens. \<^verbatim>\<open>localeCompare\<close> is the parameter
  \<open>lc\<close>; the random ids of a heal come from \<open>draw\<close>, the i-th fresh UUID of the request. Clocks
  are taken at least a day after the epoch, so the subtractions of the fixtures are exact.
\<close>

section \<open>Schemas\<close>

datatype Severity = High | Medium | Low

definition SEVERITIES :: "Severity list" where
  "SEVERITIES = [High, Medium, Low]"

fun severity_str :: "Severity \<Rightarrow> string" where
  "severity_str High = ''high''"
| "severity_str Medium = ''medium''"
| "severity_str Low = ''low''"

datatype DriftStatus = Open_finding | Acknowledged

record DriftResource =
  dr_kind :: string
  dr_path :: string
  dr_ref :: string

record DriftEvidence =
  ev_actualStateHash :: string
  ev_lastKnownHash :: string
  ev_siblingFindings :: nat
  ev_conclusion :: string

record HealPlan =
  hp_resource :: string
  hp_description :: string
  hp_changeKey :: string

record DriftFinding =
  df_id :: string
  df_tenant :: string
  df_autoHeal :: bool
  df_resource :: DriftResource
  df_desired :: "string option"
  df_actual :: "string option"
  df_severity :: Severity
  df_status :: DriftStatus
  df_detectedAt :: string
  df_detectedByRun :: string
  df_title :: string
  df_impact :: string
  df_evidence :: DriftEvidence
  df_healPlan :: HealPlan
  df_reconcileRunId :: "string option"

definition DriftFindingSchema_ok :: "DriftFinding \<Rightarrow> bool" where
  "DriftFindingSchema_ok f \<longleftrightarrow>
     df_id f \<noteq> [] \<and> df_tenant f \<noteq> []
     \<and> dr_kind (df_resource f) \<noteq> [] \<and> dr_path (df_resource f) \<noteq> [] \<and> dr_ref (df_resource f) \<noteq> []
     \<and> df_detectedByRun f \<noteq> [] \<and> df_title f \<noteq> [] \<and> df_impact f \<noteq> []
     \<and> ev_actualStateHash (df_evidence f) \<noteq> [] \<and> ev_lastKnownHash (df_evidence f) \<noteq> []
     \<and> 0 < ev_siblingFindings (df_evidence f) \<and> ev_conclusion (df_evidence f) \<noteq> []
     \<and> hp_resource (df_healPlan f) \<noteq> [] \<and> hp_description (df_healPlan f) \<noteq> [] \<and> hp_changeKey (df_healPlan f) \<noteq> []"

record DriftListFilter =
  fl_tenant :: "string option"
  fl_severity :: "Severity option"

record DriftStats =
  st_open :: nat
  st_tenantsAffected :: nat
  st_oldestUnresolvedSeconds :: "int option"
  st_healedToday :: nat

definition DriftStatsSchema_ok :: "DriftStats \<Rightarrow> bool" where
  "DriftStatsSchema_ok s \<longleftrightarrow> (case st_oldestUnresolvedSeconds s of Some a \<Rightarrow> 0 \<le> a | None \<Rightarrow> True)"

record DriftList =
  dl_generatedAt :: string
  dl_items :: "DriftFinding list"
  dl_stats :: DriftStats
  dl_lastResyncAt :: string
  dl_resyncIntervalSeconds :: nat
  dl_tenants :: "string list"

definition DriftListSchema_ok :: "DriftList \<Rightarrow> bool" where
  "DriftListSchema_ok l \<longleftrightarrow>
     list_all DriftFindingSchema_ok (dl_items l) \<and> DriftStatsSchema_ok (dl_stats l) \<and> 0 < dl_resyncIntervalSeconds l"

definition HealRequestSchema_ok :: "string list \<Rightarrow> bool" where
  "HealRequestSchema_ok findingIds \<longleftrightarrow> findingIds \<noteq> [] \<and> list_all (\<lambda>i. i \<noteq> []) findingIds"

text \<open>A response of a heal: the tenants with the run of each.\<close>

type_synonym HealResponse = "(string \<times> string) list"

text \<open>\<open>get\<close> answers the text of a search parameter, \<open>None\<close> when it is absent or repeated.\<close>

definition severity_of :: "string option \<Rightarrow> Severity option" where
  "severity_of v = List.find (\<lambda>s. Some (severity_str s) = v) SEVERITIES"

definition driftFilterFromSearch :: "(string \<Rightarrow> string option) \<Rightarrow> DriftListFilter" where
  "driftFilterFromSearch get =
     (let text_of = (\<lambda>k. case get k of Some v \<Rightarrow> if v = [] then None else Some v | None \<Rightarrow> None)
      in \<lparr>fl_tenant = text_of ''tenant'', fl_severity = severity_of (text_of ''severity'')\<rparr>)"

section \<open>Fixtures\<close>

record DriftSeed =
  se_id :: string
  se_tenant :: string
  se_kind :: string
  se_path :: string
  se_ref :: string
  se_desired :: "string option"
  se_actual :: "string option"
  se_severity :: Severity
  se_ageMs :: nat
  se_detectedByRun :: string
  se_title :: string
  se_impact :: string
  se_evidence :: DriftEvidence
  se_healPlan :: HealPlan
  se_reconcileRunId :: "string option"

definition GLOBEX_EVIDENCE :: DriftEvidence where
  "GLOBEX_EVIDENCE =
     \<lparr>ev_actualStateHash = ''2f08'' @ ellipsis @ ''9c'', ev_lastKnownHash = ''8b41'' @ ellipsis @ ''07'', ev_siblingFindings = 4,
      ev_conclusion = ''likely a direct edit in the Zitadel console''\<rparr>"

text \<open>Ages are \<^verbatim>\<open>Math.round(ageMinutes * 60_000)\<close>: six minutes and nineteen seconds here.\<close>

definition GLOBEX_AGE_MS :: nat where
  "GLOBEX_AGE_MS = 379000"

definition DRIFT_SEEDS :: "DriftSeed list" where
  "DRIFT_SEEDS =
     [\<lparr>se_id = ''9c1f7e2a'', se_tenant = ''globex-logistics'', se_kind = ''zitadel.idp'', se_path = ''claimMappings.email'', se_ref = ''zitadel.idp/globex-okta'',
        se_desired = Some (quoted ''email''), se_actual = Some (quoted ''upn''), se_severity = High, se_ageMs = GLOBEX_AGE_MS, se_detectedByRun = ''a7d3'',
        se_title = ''claimMappings.email changed out-of-band'', se_impact = ''logins map to a different subject key'',
        se_evidence = GLOBEX_EVIDENCE,
        se_healPlan = \<lparr>hp_resource = ''zitadel.idp'', hp_description = (''set claimMappings.email = '' @ quoted ''email''), hp_changeKey = (''7b02'' @ ellipsis @ ''14'')\<rparr>,
        se_reconcileRunId = None\<rparr>,
      \<lparr>se_id = ''e4b2a9d1'', se_tenant = ''globex-logistics'', se_kind = ''fga.tuple'', se_path = ''user:ext-audit admin tenant'', se_ref = ''fga.store/globex'',
        se_desired = None, se_actual = Some ''present'', se_severity = High, se_ageMs = GLOBEX_AGE_MS, se_detectedByRun = ''a7d3'',
        se_title = ''unexpected tuple user:ext-audit admin tenant'', se_impact = ''an external subject holds admin on the tenant object'',
        se_evidence = GLOBEX_EVIDENCE\<lparr>ev_conclusion := ''likely a direct write to the OpenFGA store''\<rparr>,
        se_healPlan = \<lparr>hp_resource = ''fga.tuple'', hp_description = ''delete user:ext-audit admin tenant:globex'', hp_changeKey = (''c41e'' @ ellipsis @ ''8a'')\<rparr>,
        se_reconcileRunId = None\<rparr>,
      \<lparr>se_id = ''b71c0f3e'', se_tenant = ''globex-logistics'', se_kind = ''zitadel.idp'', se_path = ''claimMappings.groups'', se_ref = ''zitadel.idp/globex-okta'',
        se_desired = Some (quoted ''groups''), se_actual = Some (quoted ''roles''), se_severity = Medium, se_ageMs = GLOBEX_AGE_MS, se_detectedByRun = ''a7d3'',
        se_title = ''claimMappings.groups changed out-of-band'', se_impact = ''group-derived roles stop resolving'',
        se_evidence = GLOBEX_EVIDENCE,
        se_healPlan = \<lparr>hp_resource = ''zitadel.idp'', hp_description = (''set claimMappings.groups = '' @ quoted ''groups''), hp_changeKey = (''9d3a'' @ ellipsis @ ''f2'')\<rparr>,
        se_reconcileRunId = None\<rparr>,
      \<lparr>se_id = ''5d0e8c47'', se_tenant = ''globex-logistics'', se_kind = ''zitadel.org'', se_path = ''passwordPolicy.minLength'', se_ref = ''zitadel.org/214790'',
        se_desired = Some ''12'', se_actual = Some ''8'', se_severity = Medium, se_ageMs = GLOBEX_AGE_MS, se_detectedByRun = ''a7d3'',
        se_title = ''passwordPolicy.minLength lowered out-of-band'', se_impact = ''weaker than the tenant policy requires'',
        se_evidence = GLOBEX_EVIDENCE,
        se_healPlan = \<lparr>hp_resource = ''zitadel.org'', hp_description = ''set passwordPolicy.minLength = 12'', hp_changeKey = (''0a77'' @ ellipsis @ ''3c'')\<rparr>,
        se_reconcileRunId = None\<rparr>,
      \<lparr>se_id = ''3a6f2d91'', se_tenant = ''acme-air'', se_kind = ''zitadel.org'', se_path = ''displayName'', se_ref = ''zitadel.org/214785'',
        se_desired = Some (quoted ''Acme Airways''), se_actual = Some (quoted ''Acme Air (test)''), se_severity = Medium, se_ageMs = 1320000, se_detectedByRun = ''71a0'',
        se_title = ''displayName changed out-of-band'', se_impact = ''branding on the hosted login page differs from the spec'',
        se_evidence = \<lparr>ev_actualStateHash = (''6c1d'' @ ellipsis @ ''e4''), ev_lastKnownHash = (''b7e2'' @ ellipsis @ ''04''), ev_siblingFindings = 2, ev_conclusion = ''likely a direct edit in the Zitadel console''\<rparr>,
        se_healPlan = \<lparr>hp_resource = ''zitadel.org'', hp_description = (''set displayName = '' @ quoted ''Acme Airways''), hp_changeKey = (''51fe'' @ ellipsis @ ''9d'')\<rparr>,
        se_reconcileRunId = Some ''8f1c9e4b27d2''\<rparr>,
      \<lparr>se_id = ''c8e15b70'', se_tenant = ''acme-air'', se_kind = ''fga.model'', se_path = ''document#viewer'', se_ref = (''fga.model/01J8'' @ ellipsis @ ''Q2''),
        se_desired = Some ''v7'', se_actual = Some ''v6'', se_severity = Medium, se_ageMs = 3600000, se_detectedByRun = ''71a0'',
        se_title = ''authorization model behind desired version'', se_impact = ''document#viewer checks evaluate against v6'',
        se_evidence = \<lparr>ev_actualStateHash = (''6c1d'' @ ellipsis @ ''e4''), ev_lastKnownHash = (''b7e2'' @ ellipsis @ ''04''), ev_siblingFindings = 2, ev_conclusion = ''model v7 is staged in generation 9, which has not applied''\<rparr>,
        se_healPlan = \<lparr>hp_resource = ''fga.model'', hp_description = ''write authorization model v7'', hp_changeKey = (''e90b'' @ ellipsis @ ''21'')\<rparr>,
        se_reconcileRunId = Some ''8f1c9e4b27d2''\<rparr>,
      \<lparr>se_id = ''f20d4a6b'', se_tenant = ''umbrella-health'', se_kind = ''zitadel.user'', se_path = ''count'', se_ref = ''zitadel.org/214733'',
        se_desired = Some ''184'', se_actual = Some ''181'', se_severity = Low, se_ageMs = 15120000, se_detectedByRun = ''5e9c'',
        se_title = ''user count differs from the IdP mirror'', se_impact = ''three users exist in the IdP that the spec does not know about'',
        se_evidence = \<lparr>ev_actualStateHash = (''a9f0'' @ ellipsis @ ''12''), ev_lastKnownHash = (''ee41'' @ ellipsis @ ''c8''), ev_siblingFindings = 1, ev_conclusion = ''users are owned by the IdP; this is informational''\<rparr>,
        se_healPlan = \<lparr>hp_resource = ''zitadel.user'', hp_description = ''refresh user mirror from IdP'', hp_changeKey = (''33d1'' @ ellipsis @ ''7e'')\<rparr>,
        se_reconcileRunId = None\<rparr>]"

definition HEALED_TODAY_BASELINE :: nat where
  "HEALED_TODAY_BASELINE = 19"

definition LAST_RESYNC_MINUTES_AGO :: nat where
  "LAST_RESYNC_MINUTES_AGO = 4"

definition drift_fixture :: "instant \<Rightarrow> DriftSeed \<Rightarrow> DriftFinding" where
  "drift_fixture now s =
     \<lparr>df_id = se_id s, df_tenant = se_tenant s,
      df_autoHeal = (case findTenant (se_tenant s) of Some t \<Rightarrow> ts_autoHeal t | None \<Rightarrow> False),
      df_resource = \<lparr>dr_kind = se_kind s, dr_path = se_path s, dr_ref = se_ref s\<rparr>,
      df_desired = se_desired s, df_actual = se_actual s, df_severity = se_severity s, df_status = Open_finding,
      df_detectedAt = toISOString (now - se_ageMs s), df_detectedByRun = se_detectedByRun s, df_title = se_title s,
      df_impact = se_impact s, df_evidence = se_evidence s, df_healPlan = se_healPlan s, df_reconcileRunId = se_reconcileRunId s\<rparr>"

definition driftFixtures :: "instant \<Rightarrow> DriftFinding list" where
  "driftFixtures now = map (drift_fixture now) DRIFT_SEEDS"

section \<open>The store\<close>

record DriftStore =
  ds_findings :: "(string, DriftFinding) jsmap"
  ds_healedToday :: nat
  ds_lastResyncAt :: string

definition seed_store :: "instant \<Rightarrow> DriftStore" where
  "seed_store now =
     \<lparr>ds_findings = fold (\<lambda>f m. map_set m (df_id f) f) (driftFixtures now) [],
      ds_healedToday = HEALED_TODAY_BASELINE,
      ds_lastResyncAt = toISOString (now - LAST_RESYNC_MINUTES_AGO * 60000)\<rparr>"

definition ensureStore :: "DriftStore option \<Rightarrow> instant \<Rightarrow> DriftStore" where
  "ensureStore store now = (case store of Some s \<Rightarrow> s | None \<Rightarrow> seed_store now)"

definition resetDriftStore :: "DriftStore option \<Rightarrow> instant option \<Rightarrow> DriftStore option" where
  "resetDriftStore store now = map_option (ensureStore None) now"

fun SEVERITY_RANK :: "Severity \<Rightarrow> int" where
  "SEVERITY_RANK High = 0"
| "SEVERITY_RANK Medium = 1"
| "SEVERITY_RANK Low = 2"

text \<open>A difference with an unparseable date is NaN, which \<^verbatim>\<open>||\<close> skips like a zero.\<close>

definition by_severity :: "(string \<Rightarrow> string \<Rightarrow> int) \<Rightarrow> DriftFinding \<Rightarrow> DriftFinding \<Rightarrow> int" where
  "by_severity lc a b =
     (let r = SEVERITY_RANK (df_severity a) - SEVERITY_RANK (df_severity b);
          d = (case (Date_parse (df_detectedAt b), Date_parse (df_detectedAt a)) of
                 (Some tb, Some ta) \<Rightarrow> int tb - int ta
               | _ \<Rightarrow> 0)
      in if r \<noteq> 0 then r else if d \<noteq> 0 then d else lc (df_id a) (df_id b))"

definition in_scope :: "string option \<Rightarrow> DriftFinding \<Rightarrow> bool" where
  "in_scope tenant f \<longleftrightarrow> df_status f = Open_finding \<and> (case tenant of Some t \<Rightarrow> t = [] \<or> df_tenant f = t | None \<Rightarrow> True)"

definition openFindings :: "(string \<Rightarrow> string \<Rightarrow> int) \<Rightarrow> DriftStore \<Rightarrow> string option \<Rightarrow> DriftFinding list" where
  "openFindings lc s tenant = js_sort (by_severity lc) (filter (in_scope tenant) (map_values (ds_findings s)))"

text \<open>The age in whole seconds; an unparseable date gives NaN, which never compares greater.\<close>

definition age_seconds :: "instant \<Rightarrow> DriftFinding \<Rightarrow> int option" where
  "age_seconds now f = map_option (\<lambda>t. (int now - int t) div 1000) (Date_parse (df_detectedAt f))"

definition oldest_step :: "instant \<Rightarrow> DriftFinding \<Rightarrow> int option option \<Rightarrow> int option option" where
  "oldest_step now f acc =
     (let age = age_seconds now f
      in case acc of
           None \<Rightarrow> Some age
         | Some cur \<Rightarrow> (case (age, cur) of (Some a, Some c) \<Rightarrow> if c < a then Some age else acc | _ \<Rightarrow> acc))"

definition listDrift ::
  "(string \<Rightarrow> string \<Rightarrow> int) \<Rightarrow> DriftStore option \<Rightarrow> DriftListFilter \<Rightarrow> instant \<Rightarrow> DriftStore \<times> DriftList throws" where
  "listDrift lc store fl now =
     (let s = ensureStore store now;
          scope = openFindings lc s (fl_tenant fl);
          items = (case fl_severity fl of Some v \<Rightarrow> filter (\<lambda>f. df_severity f = v) scope | None \<Rightarrow> scope)
      in (s, case fold (oldest_step now) scope None of
               Some None \<Rightarrow> Inl ZodError
             | oldest \<Rightarrow> parse_with DriftListSchema_ok
                 \<lparr>dl_generatedAt = toISOString now, dl_items = items,
                  dl_stats = \<lparr>st_open = length scope, st_tenantsAffected = length (js_set (map df_tenant scope)),
                    st_oldestUnresolvedSeconds = (case oldest of Some (Some a) \<Rightarrow> Some a | _ \<Rightarrow> None),
                    st_healedToday = ds_healedToday s\<rparr>,
                  dl_lastResyncAt = ds_lastResyncAt s, dl_resyncIntervalSeconds = 600,
                  dl_tenants = js_sort unit_cmp (js_set (map df_tenant (openFindings lc s None)))\<rparr>))"

definition getDriftFinding :: "DriftStore option \<Rightarrow> string \<Rightarrow> instant \<Rightarrow> DriftStore \<times> DriftFinding option throws" where
  "getDriftFinding store i now =
     (let s = ensureStore store now
      in (s, case map_get (ds_findings s) i of
               Some f \<Rightarrow> map_sum id Some (parse_with DriftFindingSchema_ok f)
             | None \<Rightarrow> Inr None))"

definition drift_newRunId :: "128 word \<Rightarrow> string" where
  "drift_newRunId u = hex_id 12 u"

text \<open>One iteration of the heal loop; a tenant draws an id when it is first met.\<close>

definition heal_step :: "(nat \<Rightarrow> 128 word) \<Rightarrow> string \<Rightarrow> DriftStore \<times> HealResponse \<Rightarrow> DriftStore \<times> HealResponse" where
  "heal_step draw i st =
     (let (s, tenants) = st
      in case map_get (ds_findings s) i of
           None \<Rightarrow> st
         | Some f \<Rightarrow>
             if df_status f \<noteq> Open_finding then st
             else (let runId = (case map_get tenants (df_tenant f) of Some r \<Rightarrow> r | None \<Rightarrow> drift_newRunId (draw (length tenants)))
                   in (s\<lparr>ds_findings := map_delete (ds_findings s) i, ds_healedToday := ds_healedToday s + 1\<rparr>,
                       map_set tenants (df_tenant f) runId)))"

definition healFindings :: "(nat \<Rightarrow> 128 word) \<Rightarrow> DriftStore option \<Rightarrow> string list \<Rightarrow> instant \<Rightarrow> DriftStore \<times> HealResponse" where
  "healFindings draw store findingIds now = fold (heal_step draw) findingIds (ensureStore store now, [])"

definition acknowledgeFinding :: "DriftStore option \<Rightarrow> string \<Rightarrow> instant \<Rightarrow> DriftStore \<times> DriftFinding option throws" where
  "acknowledgeFinding store i now =
     (let s = ensureStore store now
      in case map_get (ds_findings s) i of
           None \<Rightarrow> (s, Inr None)
         | Some f \<Rightarrow>
             (let f' = f\<lparr>df_status := Acknowledged\<rparr>
              in (s\<lparr>ds_findings := map_set (ds_findings s) i f'\<rparr>, map_sum id Some (parse_with DriftFindingSchema_ok f'))))"

text \<open>The answer is the accepted status with the time it was scheduled at.\<close>

definition resyncAll :: "DriftStore option \<Rightarrow> instant \<Rightarrow> DriftStore \<times> string" where
  "resyncAll store now = ((ensureStore store now)\<lparr>ds_lastResyncAt := toISOString now\<rparr>, toISOString now)"

section \<open>Formatting\<close>

fun SEVERITY_TONE :: "Severity \<Rightarrow> Tone" where
  "SEVERITY_TONE High = Failed_tone"
| "SEVERITY_TONE Medium = Degraded_tone"
| "SEVERITY_TONE Low = Neutral"

datatype RowAction = Act_heal | Act_ack | Act_view_reconcile

definition rowActionFor :: "DriftFinding \<Rightarrow> RowAction" where
  "rowActionFor f =
     (if df_severity f = Low then Act_ack
      else if df_autoHeal f \<and> (case df_reconcileRunId f of Some r \<Rightarrow> r \<noteq> [] | None \<Rightarrow> False) then Act_view_reconcile
      else Act_heal)"

definition durationShort :: "nat \<Rightarrow> string" where
  "durationShort seconds =
     (let minutes = seconds div 60; hours = minutes div 60; rem = minutes mod 60; days = hours div 24; remH = hours mod 24
      in if minutes < 60 then show_nat minutes @ ''m''
         else if hours < 24 then (if 0 < rem then show_nat hours @ ''h '' @ show_nat rem @ ''m'' else show_nat hours @ ''h'')
         else if 0 < remH then show_nat days @ ''d '' @ show_nat remH @ ''h'' else show_nat days @ ''d'')"

text \<open>With an unparseable date every comparison is against NaN, and the text is the last branch.\<close>

definition drift_relativeAge :: "string \<Rightarrow> string \<Rightarrow> string" where
  "drift_relativeAge fromIso toIso =
     (case (Date_parse toIso, Date_parse fromIso) of
        (Some t, Some f) \<Rightarrow>
          (let seconds = nat ((int t - int f) div 1000)
           in if seconds < 60 then ''just now'' else durationShort seconds @ '' ago'')
      | _ \<Rightarrow> ''NaNd ago'')"

definition utcTimeOfDay :: "string \<Rightarrow> string" where
  "utcTimeOfDay iso_text =
     (case Date_parse iso_text of
        None \<Rightarrow> ''NaN:NaN:NaNZ''
      | Some d \<Rightarrow> pad 2 (getUTCHours d) @ '':'' @ pad 2 (getUTCMinutes d) @ '':'' @ pad 2 (getUTCSeconds d) @ ''Z'')"

definition valueLabel :: "string option \<Rightarrow> string" where
  "valueLabel v = (case v of None \<Rightarrow> ''absent'' | Some s \<Rightarrow> s)"

end
