(* ===== verification/Drift_Behaviour.thy ===== *)
theory Drift_Behaviour
  imports Drift_Findings
begin

text \<open>
  What the drift store guarantees over sequences of operations: a heal closes exactly the open
  findings it names, with one run per tenant; every finding is open, acknowledged or counted as
  healed; the listing is complete and ordered.
\<close>

section \<open>Operation sequences\<close>

datatype DriftOp =
    List_drift DriftListFilter
  | Get_finding string
  | Heal "nat \<Rightarrow> 128 word" "string list"
  | Acknowledge string
  | Resync

definition drift_step :: "(string \<Rightarrow> string \<Rightarrow> int) \<Rightarrow> DriftStore \<Rightarrow> DriftOp \<times> instant \<Rightarrow> DriftStore" where
  "drift_step lc s op =
     (let (x, now) = op
      in case x of
           List_drift fl \<Rightarrow> fst (listDrift lc (Some s) fl now)
         | Get_finding i \<Rightarrow> fst (getDriftFinding (Some s) i now)
         | Heal draw ids \<Rightarrow> fst (healFindings draw (Some s) ids now)
         | Acknowledge i \<Rightarrow> fst (acknowledgeFinding (Some s) i now)
         | Resync \<Rightarrow> fst (resyncAll (Some s) now))"

text \<open>The store some operations after it was seeded at \<open>start\<close>.\<close>

definition drift_after :: "(string \<Rightarrow> string \<Rightarrow> int) \<Rightarrow> instant \<Rightarrow> (DriftOp \<times> instant) list \<Rightarrow> DriftStore" where
  "drift_after lc start ops = run (drift_step lc) (ensureStore None start) ops"

lemma ensureStore_Some [simp]: "ensureStore (Some s) now = s"
  by (simp add: ensureStore_def)

section \<open>Healing\<close>

definition healable :: "string list \<Rightarrow> DriftFinding \<Rightarrow> bool" where
  "healable ids f \<longleftrightarrow> df_status f = Open_finding \<and> df_id f \<in> set ids"

definition keyed :: "(string, DriftFinding) jsmap \<Rightarrow> bool" where
  "keyed m \<longleftrightarrow> map_wf m \<and> (\<forall>(k, f) \<in> set m. df_id f = k)"

lemma keyed_get: "keyed m \<Longrightarrow> map_get m i = Some f \<Longrightarrow> df_id f = i \<and> f \<in> set (map_values m)"
  unfolding keyed_def by (force dest: map_of_SomeD)

lemma values_delete: "keyed m \<Longrightarrow> map_values (map_delete m i) = filter (\<lambda>f. df_id f \<noteq> i) (map_values m)"
  unfolding keyed_def by (induction m) auto

lemma keyed_delete: "keyed m \<Longrightarrow> keyed (map_delete m i)"
  using set_map_delete [of i m] unfolding keyed_def by auto

lemma filter_unique:
  assumes "distinct (map g xs)" and "x \<in> set xs" and "P x"
  shows "length (filter (\<lambda>y. P y \<and> g y = g x) xs) = 1"
proof -
  have "filter (\<lambda>y. P y \<and> g y = g x) xs = filter (\<lambda>y. y = x) xs"
    using assms by (intro filter_cong) (auto simp: distinct_map inj_on_def)
  moreover have "distinct xs" using assms(1) by (simp add: distinct_map)
  ultimately show ?thesis using assms(2) by (simp add: distinct_length_filter)
qed

lemma keyed_ids: "keyed m \<Longrightarrow> map df_id (map_values m) = map fst m"
  unfolding keyed_def by (induction m) auto

text \<open>The effect of healing a list of ids on the store and on the runs per tenant.\<close>

definition heals :: "string list \<Rightarrow> DriftStore \<times> HealResponse \<Rightarrow> DriftStore \<times> HealResponse \<Rightarrow> bool" where
  "heals ids st st' \<longleftrightarrow>
     keyed (ds_findings (fst st'))
     \<and> map_values (ds_findings (fst st')) = filter (\<lambda>f. \<not> healable ids f) (map_values (ds_findings (fst st)))
     \<and> ds_healedToday (fst st') = ds_healedToday (fst st) + length (filter (healable ids) (map_values (ds_findings (fst st))))
     \<and> map_wf (snd st') \<and> (\<forall>r \<in> set (snd st'). r \<in> set (snd st) \<or> hex_n 12 (snd r))
     \<and> set (map fst (snd st')) = set (map fst (snd st)) \<union> df_tenant ` set (filter (healable ids) (map_values (ds_findings (fst st))))"

lemma heals_idle:
  assumes "keyed (ds_findings s)" and "map_wf ts" and "\<And>f. f \<in> set (map_values (ds_findings s)) \<Longrightarrow> \<not> healable ids f"
  shows "heals ids (s, ts) (s, ts)"
proof -
  have "filter (healable ids) (map_values (ds_findings s)) = []" "filter (\<lambda>f. \<not> healable ids f) (map_values (ds_findings s)) = map_values (ds_findings s)"
    using assms(3) by (simp_all add: filter_empty_conv filter_id_conv)
  then show ?thesis using assms(1,2) by (simp only: heals_def fst_conv snd_conv) simp
qed

lemma heals_step:
  assumes "keyed (ds_findings s)" and "map_wf ts"
  shows "heals [i] (s, ts) (heal_step draw i (s, ts))"
proof (cases "\<exists>f. map_get (ds_findings s) i = Some f \<and> df_status f = Open_finding")
  case False
  have "\<not> healable [i] f" if "f \<in> set (map_values (ds_findings s))" for f
  proof
    assume h: "healable [i] f"
    obtain k where k: "(k, f) \<in> set (ds_findings s)" using \<open>f \<in> _\<close> by auto
    then have "k = i" "map_get (ds_findings s) k = Some f" using assms(1) h by (auto simp: keyed_def healable_def)
    then show False using False h by (simp add: healable_def)
  qed
  then have "heals [i] (s, ts) (s, ts)" by (intro heals_idle assms) auto
  moreover have "heal_step draw i (s, ts) = (s, ts)" using False by (auto simp: heal_step_def split: option.split)
  ultimately show ?thesis by simp
next
  case True
  then obtain f where f: "map_get (ds_findings s) i = Some f" "df_status f = Open_finding" by blast
  let ?V = "map_values (ds_findings s)"
  note get = keyed_get [OF assms(1) f(1)]
  have "distinct (map df_id ?V)" using assms(1) unfolding keyed_ids [OF assms(1)] by (simp add: keyed_def)
  then have one: "filter (healable [i]) ?V = [f]"
  proof -
    have "healable [i] = (\<lambda>y. df_status y = Open_finding \<and> df_id y = df_id f)" using get by (auto simp: healable_def)
    then have "length (filter (healable [i]) ?V) = 1"
      using filter_unique [OF \<open>distinct (map df_id ?V)\<close>, of f "\<lambda>y. df_status y = Open_finding"] get f(2) by (simp only:)
    moreover have "f \<in> set (filter (healable [i]) ?V)" using get f(2) by (simp add: healable_def)
    ultimately show ?thesis by (cases "filter (healable [i]) ?V") auto
  qed
  have "filter (\<lambda>g. df_id g \<noteq> i) ?V = filter (\<lambda>g. \<not> healable [i] g) ?V"
  proof (intro filter_cong refl)
    fix g assume "g \<in> set ?V"
    then have "g = f" if "df_id g = i"
      using that get \<open>distinct (map df_id ?V)\<close> unfolding distinct_map inj_on_def by blast
    then show "(df_id g \<noteq> i) = (\<not> healable [i] g)" using f(2) by (auto simp: healable_def)
  qed
  then show ?thesis using one assms f set_map_set [of "df_tenant f" _ ts] keyed_delete [OF assms(1), of i]
    by (fastforce simp: heals_def heal_step_def values_delete [OF assms(1)] drift_newRunId_def dom_update split: option.splits)
qed

lemma heals_trans:
  assumes "heals [i] st1 st2" and "heals ids st2 st3"
  shows "heals (i # ids) st1 st3"
proof -
  let ?V = "map_values (ds_findings (fst st1))"
  have split: "healable (i # ids) f \<longleftrightarrow> healable [i] f \<or> healable ids f" for f by (auto simp: healable_def)
  have "filter (\<lambda>f. \<not> healable ids f) (filter (\<lambda>f. \<not> healable [i] f) ?V) = filter (\<lambda>f. \<not> healable (i # ids) f) ?V"
    by (simp add: split)
  moreover have "length (filter (healable [i]) ?V) + length (filter (healable ids) (filter (\<lambda>f. \<not> healable [i] f) ?V))
      = length (filter (healable (i # ids)) ?V)"
    using sum_length_filter_compl [of "healable [i]" "filter (healable (i # ids)) ?V"]
    by (simp add: split conj_disj_distribR conj_disj_distribL conj_commute cong: conj_cong)
  moreover have "set (filter (healable (i # ids)) ?V)
      = set (filter (healable [i]) ?V) \<union> set (filter (healable ids) (filter (\<lambda>f. \<not> healable [i] f) ?V))"
    by (auto simp: split)
  ultimately show ?thesis using assms unfolding heals_def image_Un [symmetric] Un_assoc by (elim conjE, intro conjI) (simp_all only: image_Un Un_assoc add.assoc, blast)
qed

lemma heals_fold:
  "keyed (ds_findings (fst st)) \<Longrightarrow> map_wf (snd st) \<Longrightarrow> heals ids st (fold (heal_step draw) ids st)"
proof (induction ids arbitrary: st)
  case Nil
  then show ?case using heals_idle [of "fst st" "snd st" "[]"] by (simp add: healable_def)
next
  case (Cons i ids)
  have step: "heals [i] st (heal_step draw i st)" using heals_step [of "fst st" "snd st" i draw] Cons.prems by simp
  then have "heals ids (heal_step draw i st) (fold (heal_step draw) ids (heal_step draw i st))"
    by (intro Cons.IH) (simp_all only: heals_def)
  with step show ?case by (simp add: heals_trans)
qed

section \<open>Invariants\<close>

lemma length_map_set: "map_get m k = Some v \<Longrightarrow> length (map_set m k w) = length m"
  by (induction m) (auto split: if_splits)

text \<open>Every seeded finding is still there or counted as healed.\<close>

definition accounted :: "DriftStore \<Rightarrow> bool" where
  "accounted s \<longleftrightarrow> keyed (ds_findings s) \<and> ds_healedToday s + length (ds_findings s) = HEALED_TODAY_BASELINE + length DRIFT_SEEDS"

text \<open>Findings are well-formed and were detected before the store was seeded.\<close>

definition finding_ok :: "instant \<Rightarrow> DriftFinding \<Rightarrow> bool" where
  "finding_ok start f \<longleftrightarrow> DriftFindingSchema_ok f \<and> (\<exists>t \<le> start. Date_parse (df_detectedAt f) = Some t)"

definition findings_ok :: "instant \<Rightarrow> DriftStore \<Rightarrow> bool" where
  "findings_ok start s \<longleftrightarrow> list_all (finding_ok start) (map_values (ds_findings s))"

lemma acknowledge_values:
  assumes "map_get m i = Some f" and "keyed m"
  shows "keyed (map_set m i (f\<lparr>df_status := st\<rparr>))"
    and "list_all (finding_ok start) (map_values m) \<Longrightarrow> list_all (finding_ok start) (map_values (map_set m i (f\<lparr>df_status := st\<rparr>)))"
proof -
  note get = keyed_get [OF assms(2,1)]
  show "keyed (map_set m i (f\<lparr>df_status := st\<rparr>))"
    using assms(2) get set_map_set [of i "f\<lparr>df_status := st\<rparr>" m] unfolding keyed_def by auto
  assume "list_all (finding_ok start) (map_values m)"
  moreover from this have "finding_ok start (f\<lparr>df_status := st\<rparr>)"
    using get by (auto simp: list_all_iff finding_ok_def DriftFindingSchema_ok_def)
  ultimately show "list_all (finding_ok start) (map_values (map_set m i (f\<lparr>df_status := st\<rparr>)))"
    using set_map_values_set [of i "f\<lparr>df_status := st\<rparr>" m] unfolding list_all_iff by blast
qed

lemma heal_effect: "keyed (ds_findings s) \<Longrightarrow> heals ids (s, []) (healFindings draw (Some s) ids now)"
  unfolding healFindings_def ensureStore_Some by (rule heals_fold) simp_all

lemma healed_length:
  assumes "heals ids (s, ts) st'"
  shows "length (ds_findings (fst st')) + length (filter (healable ids) (map_values (ds_findings s))) = length (ds_findings s)"
proof -
  have "length (ds_findings (fst st')) = length (map_values (ds_findings (fst st')))" by simp
  also have "\<dots> = length (filter (\<lambda>f. \<not> healable ids f) (map_values (ds_findings s)))"
    using assms unfolding heals_def by (simp only: fst_conv)
  finally show ?thesis using sum_length_filter_compl [of "healable ids" "map_values (ds_findings s)"] unfolding length_map by linarith
qed

lemma accounted_step: "accounted s \<Longrightarrow> accounted (drift_step lc s x)"
proof -
  assume s: "accounted s"
  obtain y now where x: "x = (y, now)" by fastforce
  show ?thesis
  proof (cases y)
    case (Heal draw ids)
    have h: "heals ids (s, []) (healFindings draw (Some s) ids now)" using s by (intro heal_effect) (simp add: accounted_def)
    then have "accounted (fst (healFindings draw (Some s) ids now))"
      using healed_length [OF h] s unfolding accounted_def heals_def fst_conv by linarith
    then show ?thesis by (simp add: x Heal drift_step_def)
  next
    case (Acknowledge i)
    then show ?thesis using s acknowledge_values(1) [of "ds_findings s" i]
      by (auto simp: x drift_step_def acknowledgeFinding_def accounted_def length_map_set Let_def split: option.split)
  qed (use s in \<open>simp_all add: x drift_step_def listDrift_def getDriftFinding_def resyncAll_def accounted_def Let_def\<close>)
qed

lemma findings_ok_step: "accounted s \<and> findings_ok start s \<Longrightarrow> findings_ok start (drift_step lc s x)"
proof -
  assume s: "accounted s \<and> findings_ok start s"
  obtain y now where x: "x = (y, now)" by fastforce
  show ?thesis
  proof (cases y)
    case (Heal draw ids)
    have "heals ids (s, []) (healFindings draw (Some s) ids now)" using s by (intro heal_effect) (simp add: accounted_def)
    then have "set (map_values (ds_findings (fst (healFindings draw (Some s) ids now)))) \<subseteq> set (map_values (ds_findings s))"
      unfolding heals_def by (simp only: fst_conv filter_is_subset)
    then have "findings_ok start (fst (healFindings draw (Some s) ids now))" using s unfolding findings_ok_def list_all_iff by blast
    then show ?thesis by (simp add: x Heal drift_step_def)
  next
    case (Acknowledge i)
    then show ?thesis using s acknowledge_values(2) [of "ds_findings s" i]
      by (auto simp: x drift_step_def acknowledgeFinding_def accounted_def findings_ok_def Let_def split: option.split)
  qed (use s in \<open>simp_all add: x drift_step_def listDrift_def getDriftFinding_def resyncAll_def findings_ok_def Let_def\<close>)
qed

interpretation accounting: transition_system "drift_step lc" accounted for lc
  by unfold_locales (rule accounted_step)

interpretation drift_runs: transition_system "drift_step lc" "\<lambda>s. accounted s \<and> findings_ok start s" for lc start
  by unfold_locales (simp add: accounted_step findings_ok_step)

lemma seed_ids: "map df_id (driftFixtures now) = map se_id DRIFT_SEEDS" "distinct (map se_id DRIFT_SEEDS)" "length DRIFT_SEEDS = 7"
  by (simp_all add: driftFixtures_def drift_fixture_def o_def) (simp_all add: DRIFT_SEEDS_def)

lemma seed_findings: "ds_findings (seed_store now) = map (\<lambda>f. (df_id f, f)) (driftFixtures now)"
  using fold_map_set [of df_id "driftFixtures now" "[]"] seed_ids by (simp add: seed_store_def)

lemma accounted_seed: "accounted (ensureStore None start)"
proof -
  have "map fst (ds_findings (seed_store start)) = map se_id DRIFT_SEEDS" "length (driftFixtures start) = length DRIFT_SEEDS"
    using seed_ids(1) [of start] by (simp_all add: seed_findings o_def driftFixtures_def)
  then show ?thesis using seed_ids(2)
    by (auto simp: accounted_def ensureStore_def keyed_def seed_findings) (simp add: seed_store_def)
qed

lemma accounted_after: "accounted (drift_after lc start ops)"
  unfolding drift_after_def by (rule accounting.run_inv) (rule accounted_seed)

lemma clock_ok_diff: "clock_ok t \<Longrightarrow> clock_ok (t - n)"
  using div_le_mono [of "t - n" t 86400000] by (simp add: clock_ok_def)

lemma seed_schemas: "list_all (\<lambda>s. DriftFindingSchema_ok (drift_fixture now s)) DRIFT_SEEDS"
  by (simp add: DRIFT_SEEDS_def drift_fixture_def DriftFindingSchema_ok_def GLOBEX_EVIDENCE_def ellipsis_def quoted_def)

lemma findings_ok_seed: "clock_ok start \<Longrightarrow> findings_ok start (ensureStore None start)"
proof -
  assume "clock_ok start"
  then have "\<exists>t \<le> start. Date_parse (df_detectedAt (drift_fixture start s)) = Some t" for s
    using clock_ok_parse [OF clock_ok_diff [of start "se_ageMs s"]] by (simp add: drift_fixture_def)
  then show ?thesis using seed_schemas [of start]
    by (simp add: findings_ok_def ensureStore_def seed_findings driftFixtures_def list_all_iff finding_ok_def)
qed

lemma findings_ok_after: "clock_ok start \<Longrightarrow> findings_ok start (drift_after lc start ops)"
  unfolding drift_after_def using drift_runs.run_inv [of "ensureStore None start" start lc ops] accounted_seed findings_ok_seed by blast

section \<open>Ordering\<close>

lemma by_severity_le:
  assumes "Date_parse (df_detectedAt a) = Some ta" and "Date_parse (df_detectedAt b) = Some tb"
  shows "by_severity lc a b \<le> 0 \<longleftrightarrow>
     SEVERITY_RANK (df_severity a) < SEVERITY_RANK (df_severity b)
     \<or> SEVERITY_RANK (df_severity a) = SEVERITY_RANK (df_severity b) \<and> (tb < ta \<or> tb = ta \<and> lc (df_id a) (df_id b) \<le> 0)"
  using assms by (auto simp: by_severity_def Let_def)

definition finding_dated :: "DriftFinding \<Rightarrow> bool" where
  "finding_dated f \<longleftrightarrow> Date_parse (df_detectedAt f) \<noteq> None"

context collation
begin

lemma by_severity_total: "finding_dated a \<Longrightarrow> finding_dated b \<Longrightarrow> by_severity lc a b \<le> 0 \<or> by_severity lc b a \<le> 0"
  using total [of "df_id a" "df_id b"] by (auto simp: finding_dated_def by_severity_le)

lemma by_severity_trans:
  assumes "finding_dated a" "finding_dated b" "finding_dated c" "by_severity lc a b \<le> 0" "by_severity lc b c \<le> 0"
  shows "by_severity lc a c \<le> 0"
proof -
  obtain ta tb tc where "Date_parse (df_detectedAt a) = Some ta" "Date_parse (df_detectedAt b) = Some tb" "Date_parse (df_detectedAt c) = Some tc"
    using assms(1-3) by (auto simp: finding_dated_def)
  then show ?thesis using assms(4,5) trans [of "df_id a" "df_id b" "df_id c"] by (auto simp: by_severity_le)
qed

end

sublocale collation \<subseteq> severity: js_comparator "by_severity lc" finding_dated
  by unfold_locales (use by_severity_total by_severity_trans in blast)+

section \<open>The listing\<close>

definition age_of :: "instant \<Rightarrow> DriftFinding \<Rightarrow> int" where
  "age_of now f = (case age_seconds now f of Some a \<Rightarrow> a | None \<Rightarrow> 0)"

lemma oldest_from:
  assumes "list_all finding_dated fs"
  shows "\<exists>a. fold (oldest_step now) fs (Some (Some c)) = Some (Some a) \<and> c \<le> a
     \<and> list_all (\<lambda>f. age_of now f \<le> a) fs \<and> (a = c \<or> a \<in> age_of now ` set fs)"
  using assms
proof (induction fs arbitrary: c)
  case Nil
  then show ?case by simp
next
  case (Cons f fs)
  obtain v where v: "age_seconds now f = Some v" using Cons.prems by (auto simp: finding_dated_def age_seconds_def)
  then have "age_of now f = v" by (simp add: age_of_def)
  moreover have "oldest_step now f (Some (Some c)) = Some (Some (max c v))" using v by (simp add: oldest_step_def Let_def max_def)
  moreover obtain a where "fold (oldest_step now) fs (Some (Some (max c v))) = Some (Some a)" "max c v \<le> a"
      "list_all (\<lambda>f. age_of now f \<le> a) fs" "a = max c v \<or> a \<in> age_of now ` set fs" using Cons by force
  ultimately show ?case by (auto simp: max_def split: if_splits)
qed

lemma oldest_of:
  assumes "list_all finding_dated fs" and "fs \<noteq> []"
  shows "\<exists>f \<in> set fs. fold (oldest_step now) fs None = Some (Some (age_of now f)) \<and> list_all (\<lambda>g. age_of now g \<le> age_of now f) fs"
proof -
  obtain f gs where fs: "fs = f # gs" using assms(2) by (cases fs) simp_all
  obtain v where v: "age_seconds now f = Some v" using assms(1) by (auto simp: fs finding_dated_def age_seconds_def)
  then have "oldest_step now f None = Some (Some v)" "age_of now f = v" by (simp_all add: oldest_step_def Let_def age_of_def)
  then show ?thesis using oldest_from [of gs now v] assms(1) by (auto simp: fs)
qed

lemma age_nonneg: "finding_ok start f \<Longrightarrow> start \<le> now \<Longrightarrow> 0 \<le> age_of now f"
  by (auto simp: finding_ok_def age_of_def age_seconds_def)

lemma open_scope: "set (openFindings lc s tenant) = {f \<in> set (map_values (ds_findings s)). in_scope tenant f}"
  by (auto simp: openFindings_def)

lemma open_ok: "findings_ok start s \<Longrightarrow> list_all (finding_ok start) (openFindings lc s tenant)"
  unfolding findings_ok_def list_all_iff open_scope by blast

lemma ok_dated: "finding_ok start f \<Longrightarrow> finding_dated f"
  by (auto simp: finding_ok_def finding_dated_def)

text \<open>More severe first, then the newer detection first.\<close>

definition listed_before :: "DriftFinding \<Rightarrow> DriftFinding \<Rightarrow> bool" where
  "listed_before a b \<longleftrightarrow>
     SEVERITY_RANK (df_severity a) < SEVERITY_RANK (df_severity b)
     \<or> df_severity a = df_severity b \<and> (\<exists>ta tb. Date_parse (df_detectedAt a) = Some ta \<and> Date_parse (df_detectedAt b) = Some tb \<and> tb \<le> ta)"

lemma SEVERITY_RANK_inject: "SEVERITY_RANK a = SEVERITY_RANK b \<longleftrightarrow> a = b"
  by (cases a; cases b) simp_all

lemma by_severity_listed: "finding_dated a \<Longrightarrow> finding_dated b \<Longrightarrow> by_severity lc a b \<le> 0 \<Longrightarrow> listed_before a b"
  by (auto simp: finding_dated_def by_severity_le listed_before_def SEVERITY_RANK_inject)

context collation
begin

lemma openFindings_sorted:
  assumes "findings_ok start s"
  shows "sorted_wrt listed_before (openFindings lc s tenant)"
proof -
  have dated: "list_all finding_dated (filter (in_scope tenant) (map_values (ds_findings s)))"
    using assms ok_dated unfolding findings_ok_def list_all_iff by fastforce
  then have "sorted_wrt (\<lambda>x y. by_severity lc x y \<le> 0) (openFindings lc s tenant)"
    unfolding openFindings_def by (rule severity.sorted_js_sort)
  then show ?thesis
    by (rule sorted_wrt_mono_rel [rotated]) (use dated by_severity_listed in \<open>auto simp: list_all_iff openFindings_def\<close>)
qed

end

text \<open>A listing of a well-formed store: the oldest age, and that the response passes its schema.\<close>

definition oldest_age :: "(string \<Rightarrow> string \<Rightarrow> int) \<Rightarrow> DriftStore \<Rightarrow> DriftListFilter \<Rightarrow> instant \<Rightarrow> int option" where
  "oldest_age lc s fl now =
     (let scope = openFindings lc s (fl_tenant fl) in if scope = [] then None else Some (Max (age_of now ` set scope)))"

lemma oldest_fold:
  assumes "findings_ok start s"
  shows "fold (oldest_step now) (openFindings lc s (fl_tenant fl)) None = map_option Some (oldest_age lc s fl now)"
proof (cases "openFindings lc s (fl_tenant fl) = []")
  case True
  then show ?thesis by (simp add: oldest_age_def)
next
  case False
  have "list_all finding_dated (openFindings lc s (fl_tenant fl))" using open_ok [OF assms] ok_dated by (fastforce simp: list_all_iff)
  from oldest_of [OF this False, of now] obtain f where f: "f \<in> set (openFindings lc s (fl_tenant fl))"
      "fold (oldest_step now) (openFindings lc s (fl_tenant fl)) None = Some (Some (age_of now f))"
      "list_all (\<lambda>g. age_of now g \<le> age_of now f) (openFindings lc s (fl_tenant fl))" by blast
  then have "Max (age_of now ` set (openFindings lc s (fl_tenant fl))) = age_of now f"
    by (intro Max_eqI) (auto simp: list_all_iff)
  then show ?thesis using f(2) False by (simp add: oldest_age_def)
qed

lemma oldest_nonneg:
  assumes "findings_ok start s" and "start \<le> now" and "oldest_age lc s fl now = Some a"
  shows "0 \<le> a"
proof -
  have "a \<in> age_of now ` set (openFindings lc s (fl_tenant fl))"
    using assms(3) Max_in [of "age_of now ` set (openFindings lc s (fl_tenant fl))"] by (auto simp: oldest_age_def Let_def split: if_splits)
  then show ?thesis using open_ok [OF assms(1)] age_nonneg [OF _ assms(2)] by (auto simp: list_all_iff)
qed

definition listed_items :: "(string \<Rightarrow> string \<Rightarrow> int) \<Rightarrow> DriftStore \<Rightarrow> DriftListFilter \<Rightarrow> DriftFinding list" where
  "listed_items lc s fl =
     filter (\<lambda>f. fl_severity fl = None \<or> fl_severity fl = Some (df_severity f)) (openFindings lc s (fl_tenant fl))"

lemma listDrift_answer:
  assumes "findings_ok start s" and "start \<le> now"
  shows "snd (listDrift lc (Some s) fl now) = Inr
    \<lparr>dl_generatedAt = toISOString now, dl_items = listed_items lc s fl,
     dl_stats = \<lparr>st_open = length (openFindings lc s (fl_tenant fl)),
       st_tenantsAffected = length (js_set (map df_tenant (openFindings lc s (fl_tenant fl)))),
       st_oldestUnresolvedSeconds = oldest_age lc s fl now, st_healedToday = ds_healedToday s\<rparr>,
     dl_lastResyncAt = ds_lastResyncAt s, dl_resyncIntervalSeconds = 600,
     dl_tenants = js_sort unit_cmp (js_set (map df_tenant (openFindings lc s None)))\<rparr>"
proof -
  have items: "(case fl_severity fl of Some v \<Rightarrow> filter (\<lambda>f. df_severity f = v) (openFindings lc s (fl_tenant fl))
      | None \<Rightarrow> openFindings lc s (fl_tenant fl)) = listed_items lc s fl"
    by (auto simp: listed_items_def intro!: filter_cong split: option.split)
  have "list_all DriftFindingSchema_ok (listed_items lc s fl)"
    using open_ok [OF assms(1)] by (fastforce simp: listed_items_def list_all_iff finding_ok_def)
  then show ?thesis using oldest_nonneg [OF assms, of lc fl]
    by (cases "oldest_age lc s fl now")
      (simp_all add: listDrift_def Let_def items oldest_fold [OF assms(1)] DriftListSchema_ok_def DriftStatsSchema_ok_def)
qed

section \<open>Properties\<close>

text \<open>
  C15: a heal closes exactly the open findings it names. In every store reachable from the seed,
  the findings left are the others, in their order (acknowledged ones and unknown ids are
  skipped); the counter grows by the number closed; the answer has exactly one run, with a
  12-digit id, for each tenant of a closed finding; and healing the same selection again closes
  nothing and starts nothing.
\<close>

theorem heal_exactly:
  "let s = drift_after lc start ops; closed = filter (healable ids) (map_values (ds_findings s)); (s', runs) = healFindings draw (Some s) ids now
   in map_values (ds_findings s') = filter (\<lambda>f. \<not> healable ids f) (map_values (ds_findings s))
      \<and> ds_healedToday s' = ds_healedToday s + length closed
      \<and> distinct (map fst runs) \<and> set (map fst runs) = df_tenant ` set closed \<and> list_all (hex_n 12) (map snd runs)
      \<and> healFindings draw' (Some s') ids now' = (s', [])"
proof -
  define s where "s = drift_after lc start ops"
  obtain s' runs where r: "healFindings draw (Some s) ids now = (s', runs)" by fastforce
  have "keyed (ds_findings s)" using accounted_after by (simp add: s_def accounted_def)
  from heal_effect [OF this, of ids draw now] have h: "heals ids (s, []) (s', runs)" by (simp only: r)
  have "healFindings draw' (Some s') ids now' = (s', [])"
  proof -
    have left: "map_values (ds_findings s') = filter (\<lambda>f. \<not> healable ids f) (map_values (ds_findings s))"
      using h by (simp only: heals_def fst_conv)
    have none: "heal_step draw' i (s', []) = (s', [])" if "i \<in> set ids" for i
    proof (cases "map_get (ds_findings s') i")
      case (Some f)
      have k: "keyed (ds_findings s')" using h by (simp only: heals_def fst_conv)
      have "f \<in> set (map_values (ds_findings s'))" "df_id f = i" using keyed_get [OF k Some] by simp_all
      then have "df_status f \<noteq> Open_finding" using that unfolding left by (auto simp: healable_def)
      then show ?thesis by (simp add: heal_step_def Some)
    qed (simp add: heal_step_def)
    then have "set is \<subseteq> set ids \<Longrightarrow> fold (heal_step draw') is (s', []) = (s', [])" for "is" by (induction "is") simp_all
    then show ?thesis by (simp add: healFindings_def)
  qed
  then show ?thesis using h unfolding s_def [symmetric] Let_def r
    by (simp only: heals_def fst_conv snd_conv prod.case) (auto simp: list_all_iff)
qed

text \<open>
  The listing is complete, ordered and accounted for. In every store reachable from a seed at
  \<open>start\<close>, for any collation and any clock not before it, the list passes its schema; its items are
  exactly the open findings of the filter, each once, the more severe first and the newer first
  within a severity; the statistics count the scope, the oldest age is attained and maximal; the
  tenants offered are those with open findings, sorted; and findings healed today plus findings
  still stored always add up to the seeded total.
\<close>

theorem listDrift_spec:
  assumes "collation lc" and "clock_ok start" and "start \<le> now"
  shows "\<exists>l. snd (listDrift lc (Some (drift_after lc start ops)) fl now) = Inr l
     \<and> mset (dl_items l) = mset (filter (\<lambda>f. in_scope (fl_tenant fl) f \<and> (fl_severity fl = None \<or> fl_severity fl = Some (df_severity f)))
         (map_values (ds_findings (drift_after lc start ops))))
     \<and> sorted_wrt listed_before (dl_items l)
     \<and> st_open (dl_stats l) = length (filter (in_scope (fl_tenant fl)) (map_values (ds_findings (drift_after lc start ops))))
     \<and> (case st_oldestUnresolvedSeconds (dl_stats l) of
          None \<Rightarrow> st_open (dl_stats l) = 0
        | Some a \<Rightarrow> 0 \<le> a \<and> a = Max (age_of now ` set (openFindings lc (drift_after lc start ops) (fl_tenant fl))))
     \<and> set (dl_tenants l) = df_tenant ` set (openFindings lc (drift_after lc start ops) None)
     \<and> distinct (dl_tenants l) \<and> sorted_wrt (\<lambda>a b. unit_cmp a b \<le> 0) (dl_tenants l)
     \<and> st_healedToday (dl_stats l) + length (ds_findings (drift_after lc start ops)) = 26"
proof -
  define s where "s = drift_after lc start ops"
  have ok: "findings_ok start s" using findings_ok_after [OF assms(2)] by (simp add: s_def)
  have total: "ds_healedToday s + length (ds_findings s) = 26"
    using accounted_after [of lc start ops] seed_ids(3) by (simp add: s_def accounted_def HEALED_TODAY_BASELINE_def)
  have items: "mset (listed_items lc s fl) = mset (filter (\<lambda>f. in_scope (fl_tenant fl) f
      \<and> (fl_severity fl = None \<or> fl_severity fl = Some (df_severity f))) (map_values (ds_findings s)))"
    unfolding listed_items_def openFindings_def mset_filter mset_js_sort filter_filter_mset by (simp only: conj_commute)
  have order: "sorted_wrt listed_before (listed_items lc s fl)"
    unfolding listed_items_def by (rule sorted_wrt_filter) (rule collation.openFindings_sorted [OF assms(1) ok])
  have oldest: "case oldest_age lc s fl now of None \<Rightarrow> length (openFindings lc s (fl_tenant fl)) = 0
      | Some a \<Rightarrow> 0 \<le> a \<and> a = Max (age_of now ` set (openFindings lc s (fl_tenant fl)))"
    using oldest_nonneg [OF ok assms(3), of lc fl] by (auto simp: oldest_age_def Let_def split: option.split)
  have size: "length (openFindings lc s (fl_tenant fl)) = length (filter (in_scope (fl_tenant fl)) (map_values (ds_findings s)))"
    by (simp only: openFindings_def length_js_sort)
  have "sorted_wrt (\<lambda>a b. unit_cmp a b \<le> 0) (js_sort unit_cmp (js_set (map df_tenant (openFindings lc s None))))"
    by (rule plain.sorted_js_sort) (simp add: list_all_iff)
  moreover have "distinct (js_sort unit_cmp (js_set (map df_tenant (openFindings lc s None))))"
    using distinct_map_js_sort [of id unit_cmp] by simp
  ultimately show ?thesis unfolding s_def [symmetric]
    using listDrift_answer [OF ok assms(3), of lc fl] items order oldest size total by (cases "oldest_age lc s fl now") simp_all
qed

section \<open>Witnesses\<close>

theorem listDrift_spec_witness:
  "\<exists>l. snd (listDrift unit_cmp (Some (drift_after unit_cmp 1788516900000 [(Acknowledge ''9c1f7e2a'', 1788516901000)]))
        \<lparr>fl_tenant = Some ''globex-logistics'', fl_severity = None\<rparr> 1788516902000) = Inr l
     \<and> sorted_wrt listed_before (dl_items l) \<and> distinct (dl_tenants l)"
  using listDrift_spec [OF plain.collation_axioms, of 1788516900000 1788516902000 "[(Acknowledge ''9c1f7e2a'', 1788516901000)]"
      "\<lparr>fl_tenant = Some ''globex-logistics'', fl_severity = None\<rparr>"]
  by (auto simp: clock_ok_def)

end
