(* ===== verification/Base64.thy ===== *)
theory Base64
  imports Js_Url
begin

text \<open>
  The two base64 functions of the platform (\<^verbatim>\<open>btoa\<close>, \<^verbatim>\<open>atob\<close>, as the WHATWG Infra Standard defines
  them) and the base64url pair of \<^verbatim>\<open>server/session.ts\<close>. A byte array is a string of code units.
\<close>

section \<open>Digits\<close>

definition b64_alphabet :: string where
  "b64_alphabet = ''ABCDEFGHIJKLMNOPQRSTUVWXYZabcdefghijklmnopqrstuvwxyz0123456789+/''"

definition b64_char :: "nat \<Rightarrow> char" where
  "b64_char n = b64_alphabet ! n"

definition b64_value :: "char \<Rightarrow> nat option" where
  "b64_value c = find_index (\<lambda>d. d = c) b64_alphabet"

text \<open>The six-bit digits of a byte string, and the bytes of a digit string; left-over bits are dropped.\<close>

fun b64_digits :: "string \<Rightarrow> nat list" where
  "b64_digits [] = []"
| "b64_digits [a] = [code a div 4, code a mod 4 * 16]"
| "b64_digits [a, b] = [code a div 4, code a mod 4 * 16 + code b div 16, code b mod 16 * 4]"
| "b64_digits (a # b # c # s) =
     [code a div 4, code a mod 4 * 16 + code b div 16, code b mod 16 * 4 + code c div 64, code c mod 64] @ b64_digits s"

fun b64_bytes :: "nat list \<Rightarrow> string option" where
  "b64_bytes [] = Some []"
| "b64_bytes [p] = None"
| "b64_bytes [p, q] = Some [char_of (p * 4 + q div 16)]"
| "b64_bytes [p, q, r] = Some [char_of (p * 4 + q div 16), char_of (q mod 16 * 16 + r div 4)]"
| "b64_bytes (p # q # r # t # ds) =
     map_option (\<lambda>s. [char_of (p * 4 + q div 16), char_of (q mod 16 * 16 + r div 4), char_of (r mod 4 * 64 + t)] @ s) (b64_bytes ds)"

section \<open>btoa and atob\<close>

definition b64_padding :: "nat \<Rightarrow> string" where
  "b64_padding n = replicate ((4 - n mod 4) mod 4) (CHR ''='')"

definition btoa :: "string \<Rightarrow> string" where
  "btoa s = (let ds = b64_digits s in map b64_char ds @ b64_padding (length ds))"

definition ascii_space :: "char \<Rightarrow> bool" where
  "ascii_space c \<longleftrightarrow> code c \<in> {9, 10, 12, 13, 32}"

definition strip_padding :: "string \<Rightarrow> string" where
  "strip_padding s =
     (if endsWith s ''=='' then take (length s - 2) s else if endsWith s ''='' then take (length s - 1) s else s)"

definition atob :: "string \<Rightarrow> string option" where
  "atob s =
     (let t = filter (\<lambda>c. \<not> ascii_space c) s;
          t = (if length t mod 4 = 0 then strip_padding t else t)
      in if length t mod 4 = 1 then None
         else (case those (map b64_value t) of None \<Rightarrow> None | Some ds \<Rightarrow> b64_bytes ds))"

section \<open>base64url\<close>

definition replace_char :: "char \<Rightarrow> char \<Rightarrow> string \<Rightarrow> string" where
  "replace_char a b s = map (\<lambda>c. if c = a then b else c) s"

definition toBase64Url :: "string \<Rightarrow> string" where
  "toBase64Url bytes =
     rev (dropWhile (\<lambda>c. c = CHR ''='') (rev (replace_char (CHR ''/'') (CHR ''_'') (replace_char (CHR ''+'') (CHR ''-'') (btoa bytes)))))"

definition fromBase64Url :: "string \<Rightarrow> string option" where
  "fromBase64Url s =
     atob (replace_char (CHR ''_'') (CHR ''/'') (replace_char (CHR ''-'') (CHR ''+'') s) @ replicate ((4 - length s mod 4) mod 4) (CHR ''=''))"

section \<open>Round trip\<close>

lemma byte_parts [simp]:
  "code c div 4 < 64" "code c div 16 < 16" "code c div 64 < 4"
  "code c div 16 div 16 = 0" "code c div 64 div 4 = 0" "code c div 16 mod 16 = code c div 16" "code c div 64 mod 4 = code c div 64"
  using code_less [of c] by (simp_all add: less_mult_imp_div_less)

lemma b64_digits_less: "d \<in> set (b64_digits s) \<Longrightarrow> d < 64"
proof (induction s rule: b64_digits.induct)
  case (3 a b)
  moreover have "code a mod 4 * 16 + code b div 16 < 64" using byte_parts(2) [of b] mod_less_divisor [of 4 "code a"] by linarith
  ultimately show ?case by auto
next
  case (4 a b c s)
  moreover have "code a mod 4 * 16 + code b div 16 < 64" using byte_parts(2) [of b] mod_less_divisor [of 4 "code a"] by linarith
  moreover have "code b mod 16 * 4 + code c div 64 < 64" using byte_parts(3) [of c] mod_less_divisor [of 16 "code b"] by linarith
  ultimately show ?case by auto
qed auto

lemma b64_digits_length: "length (b64_digits s) mod 4 \<noteq> 1"
  by (induction s rule: b64_digits.induct) simp_all

lemma byte_joins [simp]:
  "code c div 16 * 16 + code c mod 16 = code c" "code c div 64 * 64 + code c mod 64 = code c"
  "code c div 16 * 16 + (code c mod 16 + n) = code c + n"
  by (metis div_mod_decomp, metis div_mod_decomp, metis add.assoc div_mod_decomp)

lemma b64_bytes_digits: "b64_bytes (b64_digits s) = Some s"
  by (induction s rule: b64_digits.induct) (auto simp: char_of_eq_code)

text \<open>The alphabet, digit by digit.\<close>

lemma b64_alphabet_length: "length b64_alphabet = 64"
  by (simp add: b64_alphabet_def)

lemma b64_alphabet_distinct: "distinct b64_alphabet"
  by (simp add: b64_alphabet_def)

lemma b64_alphabet_chars: "list_all (\<lambda>c. c \<noteq> CHR ''='' \<and> c \<noteq> CHR ''-'' \<and> c \<noteq> CHR ''_'' \<and> c \<noteq> CHR ''.'' \<and> \<not> ascii_space c) b64_alphabet"
  by (simp add: b64_alphabet_def ascii_space_def code_def)

lemma b64_value_char: "d < 64 \<Longrightarrow> b64_value (b64_char d) = Some d"
  using find_index_unique [of id b64_alphabet d] b64_alphabet_distinct b64_alphabet_length by (simp add: b64_value_def b64_char_def)

lemma b64_char_ok:
  assumes "d < 64"
  shows "b64_char d \<noteq> CHR ''=''" "b64_char d \<noteq> CHR ''-''" "b64_char d \<noteq> CHR ''_''" "b64_char d \<noteq> CHR ''.''" "\<not> ascii_space (b64_char d)"
  using b64_alphabet_chars assms by (auto simp: list_all_length b64_alphabet_length b64_char_def)

lemma those_values: "list_all (\<lambda>d. d < 64) ds \<Longrightarrow> those (map b64_value (map b64_char ds)) = Some ds"
  by (induction ds) (simp_all add: b64_value_char)

lemma strip_two: "strip_padding (s @ ''=='') = s"
  by (simp add: strip_padding_def endsWith_append)

lemma strip_one: "\<not> endsWith s ''='' \<Longrightarrow> strip_padding (s @ ''='') = s"
proof -
  assume s: "\<not> endsWith s ''=''"
  have "\<not> endsWith (s @ ''='') ''==''"
  proof
    assume "endsWith (s @ ''='') ''==''"
    then obtain u where "s @ ''='' = (u @ ''='') @ ''=''" by (auto simp: endsWith_iff)
    then show False using s by (simp add: endsWith_append)
  qed
  then show ?thesis by (simp add: strip_padding_def endsWith_append)
qed

lemma strip_none: "\<not> endsWith s ''='' \<Longrightarrow> strip_padding s = s"
proof -
  assume s: "\<not> endsWith s ''=''"
  have "\<not> endsWith s ''==''"
  proof
    assume "endsWith s ''==''"
    then obtain u where u: "s = u @ ''==''" by (auto simp: endsWith_iff)
    have "endsWith ((u @ ''='') @ ''='') ''=''" by (rule endsWith_append)
    then show False using s by (simp add: u)
  qed
  then show ?thesis using s by (simp add: strip_padding_def)
qed

lemma strip_padding_digits:
  assumes "list_all (\<lambda>d. d < 64) ds" and "length ds mod 4 \<noteq> 1"
  shows "strip_padding (map b64_char ds @ b64_padding (length ds)) = map b64_char ds"
proof -
  have last: "\<not> endsWith (map b64_char ds) ''=''"
    using assms(1) by (cases ds rule: rev_cases) (auto simp: endsWith_iff b64_char_ok)
  have "length ds mod 4 = 0 \<or> length ds mod 4 = 2 \<or> length ds mod 4 = 3" using assms(2) mod_less_divisor [of 4 "length ds"] by linarith
  then have "b64_padding (length ds) = [] \<or> b64_padding (length ds) = ''=='' \<or> b64_padding (length ds) = ''=''"
    unfolding b64_padding_def by (elim disjE) (simp_all add: numeral_2_eq_2)
  then show ?thesis using strip_one [OF last] strip_none [OF last] strip_two by (elim disjE) simp_all
qed

lemma padded_length: "(n + (4 - n mod 4) mod 4) mod 4 = (0 :: nat)"
proof -
  have small: "(r + (4 - r) mod 4) mod 4 = (0 :: nat)" if "r < 4" for r
  proof -
    have "r = 0 \<or> r = 1 \<or> r = 2 \<or> r = 3" using that by linarith
    then show ?thesis by (elim disjE) simp_all
  qed
  have "(n + (4 - n mod 4) mod 4) mod 4 = (n mod 4 + (4 - n mod 4) mod 4) mod 4" by (rule mod_add_left_eq [symmetric])
  also have "\<dots> = 0" by (rule small) simp
  finally show ?thesis .
qed

lemma padding_solid: "c \<in> set (b64_padding n) \<Longrightarrow> \<not> ascii_space c"
  by (auto simp: b64_padding_def ascii_space_def code_def)

lemma atob_btoa: "atob (btoa s) = Some s"
proof -
  let ?ds = "b64_digits s"
  have ds: "list_all (\<lambda>d. d < 64) ?ds" using b64_digits_less by (simp add: list_all_iff)
  have "filter (\<lambda>c. \<not> ascii_space c) (btoa s) = btoa s"
    using ds b64_char_ok(5) padding_solid by (auto simp: btoa_def Let_def list_all_iff filter_id_conv)
  moreover have "length (btoa s) mod 4 = 0"
    using padded_length by (simp only: btoa_def Let_def b64_padding_def length_append length_map length_replicate)
  moreover have "strip_padding (btoa s) = map b64_char ?ds"
    using strip_padding_digits [OF ds b64_digits_length] by (simp add: btoa_def Let_def)
  ultimately show ?thesis using b64_digits_length those_values [OF ds] b64_bytes_digits by (simp add: atob_def Let_def)
qed

text \<open>base64url: the digits in the other alphabet, without padding.\<close>

definition url_char :: "nat \<Rightarrow> char" where
  "url_char d = (if b64_char d = CHR ''+'' then CHR ''-'' else if b64_char d = CHR ''/'' then CHR ''_'' else b64_char d)"

lemma toBase64Url_digits: "toBase64Url s = map url_char (b64_digits s)"
proof -
  let ?ds = "b64_digits s"
  have "replace_char (CHR ''/'') (CHR ''_'') (replace_char (CHR ''+'') (CHR ''-'') (btoa s)) = map url_char ?ds @ b64_padding (length ?ds)"
    by (auto simp: btoa_def Let_def replace_char_def url_char_def b64_padding_def)
  moreover have "dropWhile (\<lambda>c. c = CHR ''='') (rev (map url_char ?ds)) = rev (map url_char ?ds)"
    using b64_digits_less [of _ s] b64_char_ok(1) by (cases ?ds rule: rev_cases) (auto simp: url_char_def)
  moreover have "dropWhile (\<lambda>c. c = CHR ''='') (b64_padding n @ t) = dropWhile (\<lambda>c. c = CHR ''='') t" for n t
    by (rule dropWhile_append2) (simp add: b64_padding_def)
  moreover have "rev (b64_padding n) = b64_padding n" for n by (simp add: b64_padding_def)
  ultimately show ?thesis by (simp add: toBase64Url_def)
qed

lemma toBase64Url_no_dot: "CHR ''.'' \<notin> set (toBase64Url s)"
proof
  assume "CHR ''.'' \<in> set (toBase64Url s)"
  then obtain d where "d \<in> set (b64_digits s)" "url_char d = CHR ''.''" by (auto simp: toBase64Url_digits)
  then show False using b64_digits_less [of d s] b64_char_ok(4) [of d] by (auto simp: url_char_def split: if_splits)
qed

lemma toBase64Url_empty: "toBase64Url s = [] \<longleftrightarrow> s = []"
  by (cases s rule: b64_digits.cases) (simp_all add: toBase64Url_digits)

lemma fromBase64Url_toBase64Url: "fromBase64Url (toBase64Url s) = Some s"
proof -
  let ?ds = "b64_digits s"
  have "replace_char (CHR ''_'') (CHR ''/'') (replace_char (CHR ''-'') (CHR ''+'') (map url_char ?ds)) = map b64_char ?ds"
    using b64_digits_less [of _ s] b64_char_ok(2,3) by (auto simp: replace_char_def url_char_def)
  then have "fromBase64Url (toBase64Url s) = atob (btoa s)"
    by (simp add: fromBase64Url_def toBase64Url_digits btoa_def Let_def b64_padding_def)
  then show ?thesis by (simp add: atob_btoa)
qed

end
