(* ===== verification/Sessions.thy ===== *)
theory Sessions
  imports Base64 Stores
begin

text \<open>
  Who may call what: the sealed session cookie (\<^verbatim>\<open>server/session.ts\<close>), the operator lookup
  (\<^verbatim>\<open>server/auth/operator.ts\<close>), the route guard and problem responses (\<^verbatim>\<open>server/http\<close>), the page
  proxy, sign-in and sign-out, and the browser's fetcher that builds the requests
  (\<^verbatim>\<open>lib/api/client.ts\<close>). WebCrypto, JSON and the URL parser are not part of the repository: they
  are the fields of \<open>platform\<close>, and the theorems name what they rely on.
\<close>

section \<open>The platform\<close>

record Session =
  sn_sub :: string
  sn_name :: string
  sn_email :: string
  sn_role :: string
  sn_iat :: int
  sn_exp :: int

text \<open>
  \<open>sha256\<close> is the digest, \<open>encrypt\<close> and \<open>decrypt\<close> are AES-GCM under a raw key and an IV
  (\<open>None\<close> when the tag does not match), \<open>encode\<close> is \<^verbatim>\<open>JSON.stringify\<close> in UTF-8 and \<open>decode\<close> its inverse
  up to the types of the session's fields (\<open>None\<close> when the text is no such object), \<open>origin\<close> is
  \<^verbatim>\<open>new URL(url).origin\<close>.
\<close>

record platform =
  p_sha256 :: "string \<Rightarrow> string"
  p_encrypt :: "string \<Rightarrow> string \<Rightarrow> string \<Rightarrow> string"
  p_decrypt :: "string \<Rightarrow> string \<Rightarrow> string \<Rightarrow> string option"
  p_encode :: "Session \<Rightarrow> string"
  p_decode :: "string \<Rightarrow> Session option"
  p_origin :: "string \<Rightarrow> string"

record environment =
  e_SESSION_SECRET :: "string option"
  e_NODE_ENV :: "string option"
  e_AUTH_MODE :: "string option"

section \<open>Sessions\<close>

definition SESSION_COOKIE :: string where "SESSION_COOKIE = ''azp_session''"
definition SESSION_TTL_SECONDS :: int where "SESSION_TTL_SECONDS = 8 * 60 * 60"

definition SessionSchema_ok :: "Session \<Rightarrow> bool" where
  "SessionSchema_ok s \<longleftrightarrow> sn_sub s \<noteq> [] \<and> sn_name s \<noteq> [] \<and> sn_email s \<noteq> [] \<and> sn_role s \<noteq> []"

datatype key_error = Invalid_base64 | Bad_secret_length | Secret_required

definition keyMaterial :: "platform \<Rightarrow> environment \<Rightarrow> key_error + string" where
  "keyMaterial P env =
     (case map_option trim (e_SESSION_SECRET env) of
        Some (c # cs) \<Rightarrow>
          (case fromBase64Url (c # cs) of
             None \<Rightarrow> Inl Invalid_base64
           | Some raw \<Rightarrow> if length raw \<noteq> 32 then Inl Bad_secret_length else Inr raw)
      | _ \<Rightarrow>
          if e_NODE_ENV env = Some ''production'' then Inl Secret_required
          else Inr (p_sha256 P ''authz-plane development session key''))"

text \<open>\<^verbatim>\<open>cachedKey\<close> holds the promise, so a rejected one is kept as well.\<close>

type_synonym key_cache = "(key_error + string) option"

definition sessionKey :: "platform \<Rightarrow> environment \<Rightarrow> key_cache \<Rightarrow> key_cache \<times> (key_error + string)" where
  "sessionKey P env cache =
     (case cache of
        Some r \<Rightarrow> (cache, r)
      | None \<Rightarrow> (Some (keyMaterial P env), keyMaterial P env))"

definition resetSessionKeyForTests :: "key_cache \<Rightarrow> key_cache" where
  "resetSessionKeyForTests cache = None"

datatype seal_error = Key_error key_error | Invalid_session

text \<open>The twelve random bytes of the IV are an argument.\<close>

definition sealSession ::
  "platform \<Rightarrow> environment \<Rightarrow> key_cache \<Rightarrow> string \<Rightarrow> Session \<Rightarrow> key_cache \<times> (seal_error + string)" where
  "sealSession P env cache iv s =
     (case sessionKey P env cache of
        (cache', Inl e) \<Rightarrow> (cache', Inl (Key_error e))
      | (cache', Inr key) \<Rightarrow>
          (cache', if SessionSchema_ok s
                   then Inr (toBase64Url iv @ ''.'' @ toBase64Url (p_encrypt P key iv (p_encode P s)))
                   else Inl Invalid_session))"

definition unseal :: "platform \<Rightarrow> string \<Rightarrow> string \<Rightarrow> string \<Rightarrow> int \<Rightarrow> Session option" where
  "unseal P key ivText cipherText nowSeconds =
     (case (fromBase64Url ivText, fromBase64Url cipherText) of
        (Some iv, Some ciphertext) \<Rightarrow>
          (case p_decrypt P key iv ciphertext of
             None \<Rightarrow> None
           | Some plaintext \<Rightarrow>
               (case p_decode P plaintext of
                  None \<Rightarrow> None
                | Some s \<Rightarrow> if \<not> SessionSchema_ok s then None else if sn_exp s \<le> nowSeconds then None else Some s))
      | _ \<Rightarrow> None)"

definition openSession :: "platform \<Rightarrow> environment \<Rightarrow> key_cache \<Rightarrow> string option \<Rightarrow> int \<Rightarrow> key_cache \<times> Session option" where
  "openSession P env cache cookieValue nowSeconds =
     (case cookieValue of
        None \<Rightarrow> (cache, None)
      | Some v \<Rightarrow>
          (case find_index (\<lambda>c. c = CHR ''.'') v of
             None \<Rightarrow> (cache, None)
           | Some dot \<Rightarrow>
               if dot = 0 then (cache, None)
               else (case sessionKey P env cache of
                       (cache', Inl _) \<Rightarrow> (cache', None)
                     | (cache', Inr key) \<Rightarrow> (cache', unseal P key (take dot v) (drop (dot + 1) v) nowSeconds))))"

record CookieOptions =
  co_httpOnly :: bool
  co_sameSite :: string
  co_secure :: bool
  co_path :: string
  co_maxAge :: int

definition sessionCookieOptions :: "environment \<Rightarrow> int \<Rightarrow> CookieOptions" where
  "sessionCookieOptions env maxAgeSeconds =
     \<lparr>co_httpOnly = True, co_sameSite = ''lax'', co_secure = (e_NODE_ENV env = Some ''production''), co_path = ''/'', co_maxAge = maxAgeSeconds\<rparr>"

section \<open>Requests and problems\<close>

record Request =
  rq_method :: string
  rq_url :: string
  rq_header :: "string \<Rightarrow> string option"
  rq_cookie :: "string \<Rightarrow> string option"

text \<open>A problem+json response; the extension members are rendered JSON.\<close>

record Problem =
  pb_type :: string
  pb_title :: string
  pb_status :: nat
  pb_detail :: "string option"
  pb_extra :: "(string \<times> string) list"

definition problem :: "nat \<Rightarrow> string \<Rightarrow> string option \<Rightarrow> (string \<times> string) list \<Rightarrow> Problem" where
  "problem status title detail extra =
     \<lparr>pb_type = ''about:blank'', pb_title = title, pb_status = status,
      pb_detail = (case detail of Some (c # cs) \<Rightarrow> Some (c # cs) | _ \<Rightarrow> None), pb_extra = extra\<rparr>"

definition sameOrigin :: "platform \<Rightarrow> Request \<Rightarrow> bool" where
  "sameOrigin P rq =
     (case rq_header rq ''origin'' of
        Some (c # cs) \<Rightarrow> c # cs = p_origin P (rq_url rq)
      | _ \<Rightarrow> False)"

definition currentOperator :: "platform \<Rightarrow> environment \<Rightarrow> key_cache \<Rightarrow> Request \<Rightarrow> int \<Rightarrow> key_cache \<times> Session option" where
  "currentOperator P env cache rq now = openSession P env cache (rq_cookie rq SESSION_COOKIE) now"

definition requireOperator :: "platform \<Rightarrow> environment \<Rightarrow> key_cache \<Rightarrow> Request \<Rightarrow> int \<Rightarrow> key_cache \<times> (string + Session)" where
  "requireOperator P env cache rq now =
     (case currentOperator P env cache rq now of
        (cache', None) \<Rightarrow> (cache', Inl ''/login'')
      | (cache', Some s) \<Rightarrow> (cache', Inr s))"

definition guardRoute ::
  "platform \<Rightarrow> environment \<Rightarrow> key_cache \<Rightarrow> Request \<Rightarrow> int \<Rightarrow> key_cache \<times> (Problem + Session \<times> string option)" where
  "guardRoute P env cache rq now =
     (case currentOperator P env cache rq now of
        (cache', None) \<Rightarrow> (cache', Inl (problem 401 ''Not signed in'' None []))
      | (cache', Some operator) \<Rightarrow>
          (cache',
           if rq_method rq \<noteq> ''GET'' \<and> rq_method rq \<noteq> ''HEAD'' then
             (if \<not> sameOrigin P rq then Inl (problem 403 ''Cross-origin request rejected'' None [])
              else (case rq_header rq ''idempotency-key'' of
                      Some (c # cs) \<Rightarrow> Inr (operator, Some (c # cs))
                    | _ \<Rightarrow> Inl (problem 400 ''Idempotency-Key required'' (Some ''Every mutation must carry an Idempotency-Key header.'') [])))
           else Inr (operator, None)))"

text \<open>\<open>json\<close> is the parsed body, \<open>None\<close> when it does not parse; \<open>parse\<close> is the schema's \<^verbatim>\<open>safeParse\<close>.\<close>

definition parseBody :: "'j option \<Rightarrow> ('j \<Rightarrow> string + 'a) \<Rightarrow> Problem + 'a" where
  "parseBody json parse =
     (case json of
        None \<Rightarrow> Inl (problem 400 ''Invalid JSON body'' None [])
      | Some j \<Rightarrow>
          (case parse j of
             Inl message \<Rightarrow> Inl (problem 400 ''Validation failed'' (Some message) [])
           | Inr data \<Rightarrow> Inr data))"

section \<open>Pages, sign-in and sign-out\<close>

datatype proxy_outcome = Proxy_next | Proxy_dashboard | Proxy_login "string option"

definition PUBLIC_PATHS :: "string list" where
  "PUBLIC_PATHS = [''/login'']"

definition proxy :: "platform \<Rightarrow> environment \<Rightarrow> key_cache \<Rightarrow> Request \<Rightarrow> string \<Rightarrow> int \<Rightarrow> key_cache \<times> proxy_outcome" where
  "proxy P env cache rq pathname now =
     (case openSession P env cache (rq_cookie rq SESSION_COOKIE) now of
        (cache', session) \<Rightarrow>
          (cache',
           if pathname \<in> set PUBLIC_PATHS then (if session \<noteq> None then Proxy_dashboard else Proxy_next)
           else if session = None then Proxy_login (if pathname \<noteq> ''/'' then Some pathname else None)
           else Proxy_next))"

definition safeNextPath :: "string option \<Rightarrow> string" where
  "safeNextPath raw =
     (case raw of
        None \<Rightarrow> ''/dashboard''
      | Some r \<Rightarrow>
          if r = [] \<or> \<not> startsWith r ''/'' \<or> startsWith r ''//'' \<or> startsWith r ''/api'' then ''/dashboard'' else r)"

text \<open>A redirect after signing in or out: the location and the cookie it sets.\<close>

record Redirect =
  rd_location :: string
  rd_status :: nat
  rd_cookie :: string
  rd_options :: CookieOptions

definition mock_operator :: "int \<Rightarrow> Session" where
  "mock_operator now =
     \<lparr>sn_sub = ''user:operator'', sn_name = ''Platform Operator'', sn_email = ''operator@authz-plane.test'',
      sn_role = ''platform superadmin'', sn_iat = now, sn_exp = now + SESSION_TTL_SECONDS\<rparr>"

text \<open>A sign-in that cannot seal its session throws; \<open>nowMs\<close> is \<^verbatim>\<open>Date.now()\<close>.\<close>

definition login_GET ::
  "platform \<Rightarrow> environment \<Rightarrow> key_cache \<Rightarrow> string option \<Rightarrow> int \<Rightarrow> string \<Rightarrow> key_cache \<times> (seal_error + (Problem + Redirect))" where
  "login_GET P env cache next nowMs iv =
     (let mode = (case e_AUTH_MODE env of Some m \<Rightarrow> m | None \<Rightarrow> ''mock'')
      in if mode = ''oidc'' then
           (cache, Inr (Inl (problem 501 ''OIDC sign-in is not configured yet''
              (Some ''Set AUTH_MODE=mock for local UI work. Authorization Code + PKCE against Zitadel lands with the Zitadel compose service.'') [])))
         else if mode \<noteq> ''mock'' then
           (cache, Inr (Inl (problem 500 ''Unknown AUTH_MODE'' (Some (''Expected '' @ quoted ''mock'' @ '' or '' @ quoted ''oidc'' @ '', got '' @ quoted mode @ ''.'')) [])))
         else if e_NODE_ENV env = Some ''production'' then (cache, Inr (Inl (problem 403 ''Mock sign-in is disabled in production'' None [])))
         else (case sealSession P env cache iv (mock_operator (nowMs div 1000)) of
                 (cache', Inl e) \<Rightarrow> (cache', Inl e)
               | (cache', Inr cookie) \<Rightarrow>
                   (cache', Inr (Inr \<lparr>rd_location = safeNextPath next, rd_status = 303, rd_cookie = cookie,
                      rd_options = sessionCookieOptions env SESSION_TTL_SECONDS\<rparr>))))"

definition logout_POST :: "platform \<Rightarrow> environment \<Rightarrow> Request \<Rightarrow> Problem + Redirect" where
  "logout_POST P env rq =
     (if \<not> sameOrigin P rq then Inl (problem 403 ''Cross-origin request rejected'' None [])
      else Inr \<lparr>rd_location = ''/login'', rd_status = 303, rd_cookie = '''', rd_options = sessionCookieOptions env 0\<rparr>)"

section \<open>The browser's fetcher\<close>

record BffError =
  be_status :: nat
  be_title :: string
  be_detail :: "string option"

text \<open>\<open>body\<close> is the title and detail of the response's JSON, \<open>None\<close> when it is no JSON.\<close>

definition throwProblem :: "nat \<Rightarrow> string \<Rightarrow> (string option \<times> string option) option \<Rightarrow> BffError" where
  "throwProblem status statusText body =
     \<lparr>be_status = status,
      be_title = (case body of Some (Some t, _) \<Rightarrow> t | _ \<Rightarrow> statusText),
      be_detail = (case body of Some (_, d) \<Rightarrow> d | None \<Rightarrow> None)\<rparr>"

definition bff_message :: "BffError \<Rightarrow> string" where
  "bff_message e = (case be_detail e of Some d \<Rightarrow> d | None \<Rightarrow> be_title e)"

definition idempotencyKey :: "128 word \<Rightarrow> string" where
  "idempotencyKey u = uuid_text u"

text \<open>
  The headers of a mutation: the fetcher's own, overridden by the caller's. The browser adds the
  Origin of the page and the cookies.
\<close>

definition mutate_headers :: "128 word \<Rightarrow> (string \<times> string) list \<Rightarrow> string \<Rightarrow> string option" where
  "mutate_headers u headers name =
     map_of (fold (\<lambda>(k, v) m. map_set m k v) headers
       [(''accept'', ''application/json''), (''content-type'', ''application/json''), (''idempotency-key'', idempotencyKey u)]) name"

definition bffMutate ::
  "string \<Rightarrow> (string \<Rightarrow> string option) \<Rightarrow> string \<Rightarrow> string option \<Rightarrow> (string \<times> string) list \<Rightarrow> 128 word \<Rightarrow> Request" where
  "bffMutate pageOrigin cookies path verb headers u =
     \<lparr>rq_method = (case verb of Some m \<Rightarrow> m | None \<Rightarrow> ''POST''), rq_url = pageOrigin @ path,
      rq_header = (mutate_headers u headers)(''origin'' := Some pageOrigin), rq_cookie = cookies\<rparr>"

section \<open>Opening what was sealed\<close>

lemma find_dot: "CHR ''.'' \<notin> set s \<Longrightarrow> find_index (\<lambda>c. c = CHR ''.'') (s @ ''.'' @ t) = Some (length s)"
  by (induction s) auto

lemma sessionKey_cached: "sessionKey P env cache = (cache', r) \<Longrightarrow> sessionKey P env cache' = (cache', r)"
  by (auto simp: sessionKey_def split: option.splits)

lemma openSession_text:
  assumes "sessionKey P env cache = (cache', Inr key)" and "iv \<noteq> []"
  shows "openSession P env cache (Some (toBase64Url iv @ ''.'' @ toBase64Url c)) now = (cache', unseal P key (toBase64Url iv) (toBase64Url c) now)"
  using assms find_dot [OF toBase64Url_no_dot, of iv] by (simp add: openSession_def toBase64Url_empty)

text \<open>A cookie that opens: its two parts decode, the ciphertext decrypts under the key in use, and the session is valid and current.\<close>

lemma openSession_Some:
  assumes "openSession P env cache cookie now = (cache', Some s)"
  obtains v dot key iv c p where "cookie = Some v" "find_index (\<lambda>ch. ch = CHR ''.'') v = Some dot" "0 < dot"
    "sessionKey P env cache = (cache', Inr key)" "fromBase64Url (take dot v) = Some iv" "fromBase64Url (drop (Suc dot) v) = Some c"
    "p_decrypt P key iv c = Some p" "p_decode P p = Some s" "SessionSchema_ok s" "now < sn_exp s"
  using assms by (auto simp: openSession_def unseal_def split: option.splits if_splits prod.splits sum.splits)

lemma guardRoute_Inr:
  assumes "guardRoute P env cache rq now = (cache', Inr (operator, key))"
  shows "currentOperator P env cache rq now = (cache', Some operator)"
    and "rq_method rq \<in> {''GET'', ''HEAD''} \<Longrightarrow> key = None"
    and "rq_method rq \<notin> {''GET'', ''HEAD''} \<Longrightarrow> key \<noteq> None \<and> key \<noteq> Some '''' \<and> rq_header rq ''idempotency-key'' = key
           \<and> rq_header rq ''origin'' = Some (p_origin P (rq_url rq))"
  using assms by (auto simp: guardRoute_def sameOrigin_def split: prod.splits option.splits if_splits list.splits dest: sym)

text \<open>An operator is only ever read from a ciphertext that was made under the key in use.\<close>

lemma operator_sealed:
  assumes authentic: "\<And>k iv c p. p_decrypt P k iv c = Some p \<Longrightarrow> c = p_encrypt P k iv p"
    and "currentOperator P env cache rq now = (cache', Some operator)"
  shows "\<exists>v dot k iv p. rq_cookie rq SESSION_COOKIE = Some v \<and> sessionKey P env cache = (cache', Inr k)
     \<and> fromBase64Url (take dot v) = Some iv \<and> fromBase64Url (drop (Suc dot) v) = Some (p_encrypt P k iv p)
     \<and> p_decode P p = Some operator \<and> SessionSchema_ok operator \<and> now < sn_exp operator"
proof -
  from assms(2) obtain v dot k iv c p where o: "rq_cookie rq SESSION_COOKIE = Some v" "sessionKey P env cache = (cache', Inr k)"
      "fromBase64Url (take dot v) = Some iv" "fromBase64Url (drop (Suc dot) v) = Some c" "p_decrypt P k iv c = Some p"
      "p_decode P p = Some operator" "SessionSchema_ok operator" "now < sn_exp operator"
    unfolding currentOperator_def by (elim openSession_Some)
  moreover have "c = p_encrypt P k iv p" by (rule authentic) (rule o(5))
  ultimately show ?thesis by blast
qed

text \<open>The console's own mutations pass: from a page of the same origin, with a session, whatever extra headers it sends.\<close>

lemma mutate_key:
  "''idempotency-key'' \<notin> fst ` set headers \<Longrightarrow> mutate_headers u headers ''idempotency-key'' = Some (idempotencyKey u)"
proof -
  assume h: "''idempotency-key'' \<notin> fst ` set headers"
  have "map_of (fold (\<lambda>(k, v) m. map_set m k v) headers m) ''idempotency-key'' = map_of m ''idempotency-key''" for m
    using h by (induction headers arbitrary: m) (auto split: prod.splits)
  then show ?thesis by (simp add: mutate_headers_def)
qed

lemma uuid_text_not_Nil: "uuid_text u \<noteq> []"
  by (simp add: uuid_text_def Let_def)

lemma bffMutate_passes:
  assumes "p_origin P (pageOrigin @ path) = pageOrigin" and "pageOrigin \<noteq> []" and "''idempotency-key'' \<notin> fst ` set headers"
    and "verb \<notin> {Some ''GET'', Some ''HEAD''}"
    and "currentOperator P env cache (bffMutate pageOrigin cookies path verb headers u) now = (cache', Some operator)"
  shows "guardRoute P env cache (bffMutate pageOrigin cookies path verb headers u) now = (cache', Inr (operator, Some (idempotencyKey u)))"
proof -
  have "sameOrigin P (bffMutate pageOrigin cookies path verb headers u)"
    using assms(1,2) by (cases pageOrigin) (simp_all add: sameOrigin_def bffMutate_def)
  moreover have "rq_header (bffMutate pageOrigin cookies path verb headers u) ''idempotency-key'' = Some (idempotencyKey u)"
    using mutate_key [OF assms(3)] by (simp add: bffMutate_def)
  moreover obtain c cs where "idempotencyKey u = c # cs" using uuid_text_not_Nil [of u] by (cases "uuid_text u") (auto simp: idempotencyKey_def)
  moreover have "rq_method (bffMutate pageOrigin cookies path verb headers u) \<noteq> ''GET''"
      "rq_method (bffMutate pageOrigin cookies path verb headers u) \<noteq> ''HEAD''"
    using assms(4) by (auto simp: bffMutate_def split: option.splits)
  ultimately show ?thesis using assms(5) by (simp add: guardRoute_def)
qed

section \<open>Properties\<close>

text \<open>
  C33: a sealed session opens to itself until it expires. Given that the cipher decrypts what it
  encrypted and that JSON reads back this session, the cookie written by a successful seal (with
  any non-empty IV) opens, in the same process, to exactly the session that was sealed when the
  clock is before its expiry, and to nothing from the expiry on.
\<close>

theorem session_roundtrip:
  assumes cipher: "\<And>k p. p_decrypt P k iv (p_encrypt P k iv p) = Some p" and json: "p_decode P (p_encode P s) = Some s"
    and "iv \<noteq> []" and sealed: "sealSession P env cache iv s = (cache', Inr cookie)"
  shows "openSession P env cache' (Some cookie) now = (cache', if now < sn_exp s then Some s else None)"
proof -
  obtain key where key: "sessionKey P env cache = (cache', Inr key)" and ok: "SessionSchema_ok s"
      and cookie: "cookie = toBase64Url iv @ ''.'' @ toBase64Url (p_encrypt P key iv (p_encode P s))"
    using sealed by (auto simp: sealSession_def split: prod.splits sum.splits if_splits)
  show ?thesis unfolding cookie openSession_text [OF sessionKey_cached [OF key] assms(3)]
    using ok json by (simp add: unseal_def fromBase64Url_toBase64Url cipher)
qed

text \<open>
  C3: no request passes the guard unauthenticated or forged. Given that the cipher accepts only what
  it produced, whenever the guard lets a request through, the request's cookie carries a
  ciphertext made under the server's key whose plaintext is the operator's valid session, not yet
  expired; and a request that is not a GET or HEAD moreover has an Origin equal to the origin of
  the URL it was sent to and a non-empty Idempotency-Key, which is the one handed on.
\<close>

theorem guardRoute_sound:
  assumes authentic: "\<And>k iv c p. p_decrypt P k iv c = Some p \<Longrightarrow> c = p_encrypt P k iv p"
    and "guardRoute P env cache rq now = (cache', Inr (operator, key))"
  shows "\<exists>v dot k iv p. rq_cookie rq SESSION_COOKIE = Some v \<and> sessionKey P env cache = (cache', Inr k)
     \<and> fromBase64Url (take dot v) = Some iv \<and> fromBase64Url (drop (Suc dot) v) = Some (p_encrypt P k iv p)
     \<and> p_decode P p = Some operator \<and> SessionSchema_ok operator \<and> now < sn_exp operator
     \<and> (if rq_method rq \<in> {''GET'', ''HEAD''} then key = None
        else key \<noteq> None \<and> key \<noteq> Some '''' \<and> rq_header rq ''idempotency-key'' = key
          \<and> rq_header rq ''origin'' = Some (p_origin P (rq_url rq)))"
proof -
  note g = guardRoute_Inr [OF assms(2)]
  show ?thesis using operator_sealed [OF authentic g(1)] g(2,3) by (cases "rq_method rq \<in> {''GET'', ''HEAD''}") auto
qed

section \<open>Witnesses\<close>

text \<open>A cipher that prefixes the key as its tag, and a codec for one session.\<close>

definition demo_session :: Session where
  "demo_session = mock_operator 1000"

definition demo :: platform where
  "demo = \<lparr>p_sha256 = (\<lambda>_. ''0123456789abcdef0123456789abcdef''), p_encrypt = (\<lambda>k iv p. k @ p),
     p_decrypt = (\<lambda>k iv c. if startsWith c k then Some (drop (length k) c) else None),
     p_encode = (\<lambda>s. sn_sub s), p_decode = (\<lambda>p. if p = ''user:operator'' then Some demo_session else None),
     p_origin = (\<lambda>url. take 23 url)\<rparr>"

definition dev_env :: environment where
  "dev_env = \<lparr>e_SESSION_SECRET = None, e_NODE_ENV = None, e_AUTH_MODE = None\<rparr>"

definition demo_cookie :: string where
  "demo_cookie = (case snd (sealSession demo dev_env None ''iv-12-bytes!'' demo_session) of Inr c \<Rightarrow> c | Inl _ \<Rightarrow> [])"

definition demo_cache :: key_cache where
  "demo_cache = Some (Inr ''0123456789abcdef0123456789abcdef'')"

lemma demo_sealed: "sealSession demo dev_env None ''iv-12-bytes!'' demo_session = (demo_cache, Inr demo_cookie)"
  by (simp add: demo_cookie_def demo_cache_def sealSession_def sessionKey_def keyMaterial_def dev_env_def demo_def demo_session_def
      mock_operator_def SessionSchema_ok_def)

lemma demo_cipher: "p_decrypt demo k iv (p_encrypt demo k iv p) = Some p"
  by (simp add: demo_def)

lemma demo_authentic: "p_decrypt demo k iv c = Some p \<Longrightarrow> c = p_encrypt demo k iv p"
  by (auto simp: demo_def startsWith_iff split: if_splits)

lemma demo_json: "p_decode demo (p_encode demo demo_session) = Some demo_session"
  by (simp add: demo_def demo_session_def mock_operator_def)

theorem session_roundtrip_witness:
  "openSession demo dev_env demo_cache (Some demo_cookie) 2000 = (demo_cache, Some demo_session)
   \<and> openSession demo dev_env demo_cache (Some demo_cookie) 30000 = (demo_cache, None)"
proof -
  have "sn_exp demo_session = 29800" by (simp add: demo_session_def mock_operator_def SESSION_TTL_SECONDS_def)
  then show ?thesis
    using session_roundtrip [where P = demo, OF demo_cipher demo_json _ demo_sealed, of 2000]
      session_roundtrip [where P = demo, OF demo_cipher demo_json _ demo_sealed, of 30000] by simp
qed

definition demo_request :: Request where
  "demo_request = \<lparr>rq_method = ''POST'', rq_url = ''https://console.example/api/tenants'',
     rq_header = [''origin'' \<mapsto> ''https://console.example'', ''idempotency-key'' \<mapsto> ''key-1''],
     rq_cookie = [SESSION_COOKIE \<mapsto> demo_cookie]\<rparr>"

lemma demo_opens:
  assumes "cache \<in> {None, demo_cache}"
  shows "openSession demo dev_env cache (Some demo_cookie) 2000 = (demo_cache, Some demo_session)"
proof -
  let ?k = "''0123456789abcdef0123456789abcdef''"
  have key: "sessionKey demo dev_env cache = (demo_cache, Inr ?k)"
    using assms by (auto simp: sessionKey_def demo_cache_def keyMaterial_def dev_env_def demo_def)
  have cookie: "demo_cookie = toBase64Url ''iv-12-bytes!'' @ ''.'' @ toBase64Url (p_encrypt demo ?k ''iv-12-bytes!'' (p_encode demo demo_session))"
    using demo_sealed by (auto simp: sealSession_def sessionKey_def keyMaterial_def dev_env_def demo_cache_def demo_def split: if_splits)
  have iv: "''iv-12-bytes!'' \<noteq> []" by simp
  have "SessionSchema_ok demo_session" "2000 < sn_exp demo_session"
    by (simp_all add: demo_session_def mock_operator_def SessionSchema_ok_def SESSION_TTL_SECONDS_def)
  then show ?thesis unfolding cookie openSession_text [OF key iv]
    using demo_json by (simp add: unseal_def fromBase64Url_toBase64Url demo_cipher)
qed

lemma demo_passes:
  assumes "cache \<in> {None, demo_cache}"
  shows "guardRoute demo dev_env cache (demo_request\<lparr>rq_method := m\<rparr>) 2000
    = (demo_cache, Inr (demo_session, if m \<in> {''GET'', ''HEAD''} then None else Some ''key-1''))"
  using demo_opens [OF assms] by (simp add: guardRoute_def currentOperator_def demo_request_def sameOrigin_def) (simp add: demo_def)

theorem guardRoute_sound_witness:
  "guardRoute demo dev_env demo_cache demo_request 2000 = (demo_cache, Inr (demo_session, Some ''key-1''))
   \<and> rq_header demo_request ''origin'' = Some (p_origin demo (rq_url demo_request))"
proof -
  have pass: "guardRoute demo dev_env demo_cache demo_request 2000 = (demo_cache, Inr (demo_session, Some ''key-1''))"
    using demo_passes [of demo_cache "''POST''"] by (simp add: demo_request_def)
  show ?thesis using pass guardRoute_sound [OF demo_authentic pass] by (auto simp: demo_request_def)
qed

end
