(* ===== verification/Identity_Providers.thy ===== *)
theory Identity_Providers
  imports Spec_Validate Tenants
begin

text \<open>
  Identity providers (\<^verbatim>\<open>features/identity-providers\<close>): the SSRF-guarded issuer probe, the connections of a
  tenant seeded from its fixtures, probe results remembered on a connection, and edits staged into
  the next generation with a write-only client secret. The URL parser is the parameter \<open>parse_url\<close>.
\<close>

section \<open>Schemas\<close>

datatype IdpKind = Oidc | Saml

datatype IdpState = Pending_apply | Applied_idp | Disabled_idp

record ClaimMapping =
  cm_planeField :: string
  cm_idpClaim :: string

definition ClaimMappingSchema_ok :: "ClaimMapping \<Rightarrow> bool" where
  "ClaimMappingSchema_ok m \<longleftrightarrow> cm_planeField m \<noteq> [] \<and> cm_idpClaim m \<noteq> []"

record ProbeCheck =
  pk_label :: string
  pk_ok :: bool

text \<open>\<open>Probe_ok issuer durationMs resolvedIp checks\<close> and \<open>Probe_blocked issuer reason detail checks\<close>.\<close>

datatype ProbeResult =
    Probe_ok string nat string "ProbeCheck list"
  | Probe_blocked string string string "ProbeCheck list"

fun ProbeResultSchema_ok :: "ProbeResult \<Rightarrow> bool" where
  "ProbeResultSchema_ok (Probe_ok issuer durationMs resolvedIp checks) \<longleftrightarrow> checks \<noteq> []"
| "ProbeResultSchema_ok (Probe_blocked issuer reason detail checks) \<longleftrightarrow> True"

fun probe_ok :: "ProbeResult \<Rightarrow> bool" where
  "probe_ok (Probe_ok _ _ _ _) = True"
| "probe_ok (Probe_blocked _ _ _ _) = False"

record IdentityProvider =
  ip_id :: string
  ip_name :: string
  ip_kind :: IdpKind
  ip_issuer :: string
  ip_host :: string
  ip_clientId :: string
  ip_hasSecret :: bool
  ip_state :: IdpState
  ip_userCount :: nat
  ip_externalId :: "string option"
  ip_note :: "string option"
  ip_claimMappings :: "ClaimMapping list"
  ip_lastProbe :: "ProbeResult option"
  ip_stagedGeneration :: "nat option"

definition IdentityProviderSchema_ok :: "IdentityProvider \<Rightarrow> bool" where
  "IdentityProviderSchema_ok p \<longleftrightarrow>
     list_all ClaimMappingSchema_ok (ip_claimMappings p)
     \<and> (case ip_lastProbe p of Some r \<Rightarrow> ProbeResultSchema_ok r | None \<Rightarrow> True)
     \<and> (case ip_stagedGeneration p of Some g \<Rightarrow> 0 < g | None \<Rightarrow> True)"

record IdpList =
  il_slug :: string
  il_items :: "IdentityProvider list"
  il_specGeneration :: nat

definition IdpListSchema_ok :: "IdpList \<Rightarrow> bool" where
  "IdpListSchema_ok l \<longleftrightarrow> list_all IdentityProviderSchema_ok (il_items l) \<and> 0 < il_specGeneration l"

record IdpPatch =
  pt_name :: "string option"
  pt_kind :: "IdpKind option"
  pt_issuer :: "string option"
  pt_clientId :: "string option"
  pt_clientSecret :: "string option"
  pt_claimMappings :: "ClaimMapping list option"

text \<open>\<^verbatim>\<open>z.string().trim().min(1).max(n)\<close>: the trimmed text, when its length is in range.\<close>

definition trimmed_text :: "nat \<Rightarrow> string \<Rightarrow> string option" where
  "trimmed_text n s = (if 1 \<le> length (trim s) \<and> length (trim s) \<le> n then Some (trim s) else None)"

definition optional_field :: "('a \<Rightarrow> 'b option) \<Rightarrow> 'a option \<Rightarrow> 'b option option" where
  "optional_field parse v = (case v of None \<Rightarrow> Some None | Some x \<Rightarrow> map_option Some (parse x))"

definition IdpPatchSchema_parse :: "IdpPatch \<Rightarrow> IdpPatch option" where
  "IdpPatchSchema_parse p =
     (case (optional_field (trimmed_text 64) (pt_name p), optional_field (trimmed_text 2048) (pt_issuer p),
            optional_field (trimmed_text 256) (pt_clientId p)) of
        (Some name, Some issuer, Some clientId) \<Rightarrow>
          if (case pt_clientSecret p of Some s \<Rightarrow> 1 \<le> length s \<and> length s \<le> 1024 | None \<Rightarrow> True)
             \<and> (case pt_claimMappings p of Some ms \<Rightarrow> list_all ClaimMappingSchema_ok ms \<and> length ms \<le> 32 | None \<Rightarrow> True)
          then Some (p\<lparr>pt_name := name, pt_issuer := issuer, pt_clientId := clientId\<rparr>)
          else None
      | _ \<Rightarrow> None)"

record IdpStageResult =
  ir_id :: string
  ir_generation :: nat
  ir_stagedAt :: string
  ir_secretReplaced :: bool

definition IdpStageResultSchema_ok :: "IdpStageResult \<Rightarrow> bool" where
  "IdpStageResultSchema_ok r \<longleftrightarrow> 0 < ir_generation r"

fun IDP_STATE_LABEL :: "IdpState \<Rightarrow> string" where
  "IDP_STATE_LABEL Pending_apply = ''pending apply''"
| "IDP_STATE_LABEL Applied_idp = ''applied''"
| "IDP_STATE_LABEL Disabled_idp = ''disabled''"

section \<open>The probe\<close>

definition SSRF_POLICY :: string where
  "SSRF_POLICY = ''https only'' @ middot @ ''DNS resolved and checked against private, loopback, link-local and CGNAT ranges'' @ middot
     @ ''no redirects'' @ middot @ ''3s timeout''"

definition BLOCKED_REASON :: string where
  "BLOCKED_REASON = ''blocked by SSRF guard''"

definition BLOCKED_SUFFIXES :: "string list" where
  "BLOCKED_SUFFIXES = [''.internal'', ''.local'', ''.localhost'', ''.home.arpa'', ''.intranet'', ''.corp'', ''.lan'']"

definition hashOf :: "string \<Rightarrow> nat" where
  "hashOf s = unat (fnv_hash s)"

definition re_octet_group :: re where
  "re_octet_group = Cap (Seq (Ch is_digit) (re_opt (Seq (Ch is_digit) (re_opt (Ch is_digit)))))"

definition re_ipv4 :: re where
  "re_ipv4 = re_seq [re_octet_group, re_lit ''.'', re_octet_group, re_lit ''.'', re_octet_group, re_lit ''.'', re_octet_group, Eos]"

definition parseIpv4 :: "string \<Rightarrow> (nat \<times> nat \<times> nat \<times> nat) option" where
  "parseIpv4 host =
     (case map_option (map read_nat) (re_exec re_ipv4 host) of
        Some [a, b, c, d] \<Rightarrow> if list_all (\<lambda>p. p \<le> 255) [a, b, c, d] then Some (a, b, c, d) else None
      | _ \<Rightarrow> None)"

text \<open>\<^verbatim>\<open>replace(/^\[|\]$/g, "")\<close>.\<close>

definition strip_brackets :: "string \<Rightarrow> string" where
  "strip_brackets s =
     (let t = (if startsWith s ''['' then drop 1 s else s)
      in if endsWith t '']'' then take (length t - 1) t else t)"

definition re_unique_local :: re where
  "re_unique_local = re_seq [re_lit ''f'', Ch (\<lambda>c. c = CHR ''c'' \<or> c = CHR ''d''), re_exactly 2 is_hex, re_lit '':'']"

definition ipv4_range :: "nat \<Rightarrow> nat \<Rightarrow> string option" where
  "ipv4_range a b =
     (if a = 10 then Some ''private (10.0.0.0/8)''
      else if a = 127 then Some ''loopback (127.0.0.0/8)''
      else if a = 0 then Some ''this-network (0.0.0.0/8)''
      else if a = 169 \<and> b = 254 then Some ''link-local (169.254.0.0/16)''
      else if a = 100 \<and> 64 \<le> b \<and> b \<le> 127 then Some ''CGNAT (100.64.0.0/10)''
      else if a = 192 \<and> b = 168 then Some ''private (192.168.0.0/16)''
      else if a = 172 \<and> 16 \<le> b \<and> b \<le> 31 then Some ''private (172.16.0.0/12)''
      else if 224 \<le> a then Some ''multicast / reserved''
      else None)"

lemma length_strip_brackets: "length (strip_brackets s) \<le> length s"
  by (simp add: strip_brackets_def Let_def)

function privateRangeOf :: "string \<Rightarrow> string option" where
  "privateRangeOf hostname =
     (let host = strip_brackets (toLowerCase hostname)
      in if host \<in> {''localhost'', ''0.0.0.0'', ''::'', ''::1''} then Some ''loopback''
         else if list_ex (endsWith host) BLOCKED_SUFFIXES then Some ''private DNS suffix''
         else if includes_str host '':'' then
           (if startsWith host ''fe80:'' then Some ''link-local (fe80::/10)''
            else if re_test re_unique_local host then Some ''private (fc00::/7)''
            else if startsWith host ''::ffff:'' then privateRangeOf (drop 7 host)
            else None)
         else (case parseIpv4 host of None \<Rightarrow> None | Some (a, b, _, _) \<Rightarrow> ipv4_range a b))"
  by auto
termination
proof (relation "measure length", simp)
  fix hostname host
  assume h: "host = strip_brackets (toLowerCase hostname)" "startsWith host ''::ffff:''"
  then obtain r where "host = ''::ffff:'' @ r" unfolding startsWith_iff by blast
  then have "7 \<le> length host" by simp
  then show "(drop 7 host, hostname) \<in> measure length" using length_strip_brackets [of "toLowerCase hostname"] by (simp add: h(1))
qed

declare privateRangeOf.simps [simp del]

definition blocked :: "string \<Rightarrow> string \<Rightarrow> string \<Rightarrow> ProbeResult" where
  "blocked issuer reason detail = Probe_blocked issuer reason detail [\<lparr>pk_label = detail, pk_ok = False\<rparr>]"

definition publicIpFor :: "string \<Rightarrow> string" where
  "publicIpFor host =
     (if endsWith host ''microsoftonline.com'' then ''20.190.x.x''
      else if endsWith host ''accounts.google.com'' then ''142.250.x.x''
      else ''203.0.113.'' @ show_nat (hashOf host mod 254 + 1))"

record IdpUrl =
  iu_protocol :: string
  iu_username :: string
  iu_password :: string
  iu_hostname :: string

definition probe_checks :: "IdpKind \<Rightarrow> nat \<Rightarrow> string \<Rightarrow> ProbeCheck list" where
  "probe_checks kind durationMs resolvedIp =
     map (\<lambda>l. \<lparr>pk_label = l, pk_ok = True\<rparr>)
       (if kind = Saml then
          [''metadata reachable'' @ middot @ show_nat durationMs @ ''ms'',
           ''signing certificate present'' @ middot @ ''valid until 2027-03'',
           ''supports HTTP-POST binding'' @ middot @ ''signed assertions'',
           ''resolved IP is public'' @ middot @ resolvedIp]
        else
          [''openid-configuration reachable'' @ middot @ show_nat durationMs @ ''ms'',
           ''jwks_uri present'' @ middot @ ''3 signing keys'',
           ''supports authorization_code + PKCE (S256)'',
           ''resolved IP is public'' @ middot @ resolvedIp])"

definition probeIssuer :: "(string \<Rightarrow> IdpUrl option) \<Rightarrow> string \<Rightarrow> IdpKind \<Rightarrow> ProbeResult" where
  "probeIssuer parse_url issuer kind =
     (let trimmed = trim issuer
      in case parse_url trimmed of
           None \<Rightarrow> blocked trimmed ''invalid issuer'' ''issuer must be an absolute URL''
         | Some url \<Rightarrow>
             if iu_protocol url \<noteq> ''https:'' then
               blocked trimmed BLOCKED_REASON (without_colon (iu_protocol url) @ '' refused'' @ middot @ ''https only'')
             else if iu_username url \<noteq> [] \<or> iu_password url \<noteq> [] then
               blocked trimmed BLOCKED_REASON ''credentials in the issuer URL are refused''
             else
               (let host = toLowerCase (iu_hostname url)
                in case privateRangeOf host of
                     Some rng \<Rightarrow> blocked trimmed BLOCKED_REASON (''resolved address is '' @ rng @ middot @ ''refused'')
                   | None \<Rightarrow>
                       if includes_str host ''redirect'' then
                         blocked trimmed BLOCKED_REASON (''issuer answered 302'' @ middot @ ''redirects are not followed'')
                       else if includes_str host ''slow'' then
                         blocked trimmed ''timed out'' (''no response within 3s'' @ middot @ ''timed out'')
                       else
                         (let durationMs = (if endsWith host ''microsoftonline.com'' then 240 else 180 + hashOf host mod 200);
                              resolvedIp = publicIpFor host
                          in Probe_ok trimmed durationMs resolvedIp (probe_checks kind durationMs resolvedIp))))"

fun probeInlineLabel :: "ProbeResult \<Rightarrow> string" where
  "probeInlineLabel (Probe_ok issuer durationMs resolvedIp checks) = ''discovery ok'' @ middot @ show_nat durationMs @ ''ms''"
| "probeInlineLabel (Probe_blocked issuer reason detail checks) = reason"

section \<open>Fixtures\<close>

definition ENTRA_CLAIMS :: "ClaimMapping list" where
  "ENTRA_CLAIMS =
     [\<lparr>cm_planeField = ''email'', cm_idpClaim = ''preferred_username''\<rparr>, \<lparr>cm_planeField = ''name'', cm_idpClaim = ''name''\<rparr>,
      \<lparr>cm_planeField = ''groups'', cm_idpClaim = ''groups''\<rparr>, \<lparr>cm_planeField = ''externalId'', cm_idpClaim = ''oid''\<rparr>]"

definition DEFAULT_CLAIMS :: "ClaimMapping list" where
  "DEFAULT_CLAIMS =
     [\<lparr>cm_planeField = ''email'', cm_idpClaim = ''email''\<rparr>, \<lparr>cm_planeField = ''name'', cm_idpClaim = ''name''\<rparr>,
      \<lparr>cm_planeField = ''externalId'', cm_idpClaim = ''sub''\<rparr>]"

definition ACME_ENTRA_ISSUER :: string where
  "ACME_ENTRA_ISSUER = ''https://login.microsoftonline.com/8f2c1a9e-4b7d-4e1f-9c3a-2d5b6e7f8a90/v2.0''"

definition acmeIdentityProviders :: "(string \<Rightarrow> IdpUrl option) \<Rightarrow> TenantDetail \<Rightarrow> IdentityProvider list" where
  "acmeIdentityProviders parse_url t =
     [\<lparr>ip_id = ''acme-entra'', ip_name = ''acme-entra'', ip_kind = Oidc, ip_issuer = ACME_ENTRA_ISSUER,
       ip_host = ''login.microsoftonline.com'', ip_clientId = ''4f1c9a2e-77b1-4c3d-9e8f-0a1b2c3d4e5f'', ip_hasSecret = True,
       ip_state = Pending_apply, ip_userCount = de_userCount (td_desired t),
       ip_externalId = Some ((case ts_orgId t of Some i \<Rightarrow> i | None \<Rightarrow> ''214785'') @ ''_idp1''), ip_note = None,
       ip_claimMappings = ENTRA_CLAIMS, ip_lastProbe = Some (probeIssuer parse_url ACME_ENTRA_ISSUER Oidc),
       ip_stagedGeneration = Some (ts_generation t + 1)\<rparr>,
      \<lparr>ip_id = ''acme-legacy-saml'', ip_name = ''acme-legacy-saml'', ip_kind = Saml,
       ip_issuer = ''https://sso.acme-air.test/saml/metadata'', ip_host = ''sso.acme-air.test'', ip_clientId = ''urn:acme-air:sp'',
       ip_hasSecret = False, ip_state = Disabled_idp, ip_userCount = 0, ip_externalId = None,
       ip_note = Some (''saml'' @ middot @ ''phase 2''), ip_claimMappings = DEFAULT_CLAIMS, ip_lastProbe = None, ip_stagedGeneration = None\<rparr>]"

definition re_desired :: re where
  "re_desired = re_seq [Cap (re_plus (\<lambda>c. \<not> is_space c)), Rep is_space, re_lit ''('', Cap (re_plus is_word), re_lit '')'', Eos]"

definition parseDesired :: "string \<Rightarrow> string \<times> IdpKind \<times> bool" where
  "parseDesired entry =
     (let (name, raw) = (case re_exec re_desired (trim entry) of Some [n, r] \<Rightarrow> (n, toLowerCase r) | _ \<Rightarrow> (trim entry, ''oidc''))
      in (name, if raw = ''saml'' then Saml else Oidc, raw = ''disabled''))"

definition hostOf :: "string option \<Rightarrow> string \<Rightarrow> string" where
  "hostOf idp slug =
     (case idp of
        None \<Rightarrow> ''sso.'' @ slug @ ''.test''
      | Some text' \<Rightarrow>
          (case split_char (CHR 0xB7) text' of
             _ # h # _ \<Rightarrow> if trim h \<noteq> [] then trim h else ''sso.'' @ slug @ ''.test''
           | _ \<Rightarrow> ''sso.'' @ slug @ ''.test''))"

definition genericIdentityProvider :: "(string \<Rightarrow> IdpUrl option) \<Rightarrow> TenantDetail \<Rightarrow> nat \<Rightarrow> string \<Rightarrow> IdentityProvider" where
  "genericIdentityProvider parse_url t i entry =
     (let host = hostOf (ts_idp t) (ts_slug t);
          pending = (ts_generation t \<noteq> ts_observedGeneration t);
          (name, kind, disabled) = parseDesired entry;
          issuer = (if kind = Saml then ''https://'' @ host @ ''/saml/metadata'' else ''https://'' @ host @ ''/'')
      in \<lparr>ip_id = name, ip_name = name, ip_kind = kind, ip_issuer = issuer, ip_host = host,
          ip_clientId = ts_id t @ ''-'' @ name @ ''-client'', ip_hasSecret = (kind = Oidc),
          ip_state = (if disabled then Disabled_idp else if pending \<and> i = 0 then Pending_apply else Applied_idp),
          ip_userCount = (if i = 0 then de_userCount (td_desired t) else 0),
          ip_externalId = (case ts_orgId t of Some (c # cs) \<Rightarrow> Some ((c # cs) @ ''_idp'' @ show_nat (i + 1)) | _ \<Rightarrow> None),
          ip_note = None, ip_claimMappings = DEFAULT_CLAIMS,
          ip_lastProbe = (if i = 0 then Some (probeIssuer parse_url issuer kind) else None),
          ip_stagedGeneration = (if pending \<and> i = 0 then Some (ts_generation t + 1) else None)\<rparr>)"

definition genericIdentityProviders :: "(string \<Rightarrow> IdpUrl option) \<Rightarrow> TenantDetail \<Rightarrow> IdentityProvider list" where
  "genericIdentityProviders parse_url t =
     map (\<lambda>(i, entry). genericIdentityProvider parse_url t i entry) (enumerate 0 (de_identityProviders (td_desired t)))"

definition identityProvidersFor :: "(string \<Rightarrow> IdpUrl option) \<Rightarrow> TenantDetail \<Rightarrow> IdentityProvider list" where
  "identityProvidersFor parse_url t =
     (if ts_slug t = ''acme-air'' then acmeIdentityProviders parse_url t else genericIdentityProviders parse_url t)"

section \<open>The store\<close>

type_synonym idp_store = "(string, IdentityProvider list) jsmap"

definition idp_seed :: "(string \<Rightarrow> IdpUrl option) \<Rightarrow> tenants \<Rightarrow> string \<Rightarrow> IdentityProvider list option throws" where
  "idp_seed parse_url T slug =
     (case tenant_of T slug of
        None \<Rightarrow> Inr None
      | Some t \<Rightarrow> map_sum id Some (parse_with (list_all IdentityProviderSchema_ok) (identityProvidersFor parse_url t)))"

definition providersFor :: "(string \<Rightarrow> IdpUrl option) \<Rightarrow> tenants \<Rightarrow> idp_store \<Rightarrow> string \<Rightarrow> idp_store \<times> IdentityProvider list option throws" where
  "providersFor parse_url T S slug =
     (case map_get S slug of
        Some cached \<Rightarrow> (S, Inr (Some cached))
      | None \<Rightarrow>
          (case idp_seed parse_url T slug of
             Inr (Some items) \<Rightarrow> (map_set S slug items, Inr (Some items))
           | res \<Rightarrow> (S, res)))"

definition idp_tenant_missing :: failure where
  "idp_tenant_missing = \<lparr>f_status = 404, f_title = ''Tenant not found'', f_detail = None\<rparr>"

definition idpNotFound :: "string \<Rightarrow> string \<Rightarrow> failure" where
  "idpNotFound slug i =
     \<lparr>f_status = 404, f_title = ''Identity provider not found'', f_detail = Some (i @ '' is not a connection in the spec for '' @ slug @ ''.'')\<rparr>"

definition listIdentityProviders :: "(string \<Rightarrow> IdpUrl option) \<Rightarrow> tenants \<Rightarrow> idp_store \<Rightarrow> string \<Rightarrow> idp_store \<times> IdpList option throws" where
  "listIdentityProviders parse_url T S slug =
     (case (providersFor parse_url T S slug, tenant_of T slug) of
        ((S', Inl e), _) \<Rightarrow> (S', Inl e)
      | ((S', Inr (Some items)), Some t) \<Rightarrow>
          (S', map_sum id Some (parse_with IdpListSchema_ok \<lparr>il_slug = slug, il_items = items, il_specGeneration = ts_generation t\<rparr>))
      | ((S', _), _) \<Rightarrow> (S', Inr None))"

definition getIdentityProvider ::
  "(string \<Rightarrow> IdpUrl option) \<Rightarrow> tenants \<Rightarrow> idp_store \<Rightarrow> string \<Rightarrow> string \<Rightarrow> idp_store \<times> IdentityProvider result throws" where
  "getIdentityProvider parse_url T S slug i =
     (case providersFor parse_url T S slug of
        (S', Inl e) \<Rightarrow> (S', Inl e)
      | (S', Inr None) \<Rightarrow> (S', Inr (Inl idp_tenant_missing))
      | (S', Inr (Some items)) \<Rightarrow>
          (S', Inr (case List.find (\<lambda>p. ip_id p = i) items of Some idp \<Rightarrow> Inr idp | None \<Rightarrow> Inl (idpNotFound slug i))))"

definition testIdentityProvider ::
  "(string \<Rightarrow> IdpUrl option) \<Rightarrow> tenants \<Rightarrow> idp_store \<Rightarrow> string \<Rightarrow> string \<Rightarrow> string \<Rightarrow> IdpKind \<Rightarrow> idp_store \<times> ProbeResult result throws" where
  "testIdentityProvider parse_url T S slug i issuer kind =
     (case providersFor parse_url T S slug of
        (S', Inl e) \<Rightarrow> (S', Inl e)
      | (S', Inr None) \<Rightarrow> (S', Inr (Inl idp_tenant_missing))
      | (S', Inr (Some items)) \<Rightarrow>
          (case List.find (\<lambda>p. ip_id p = i) items of
             None \<Rightarrow> (S', Inr (Inl (idpNotFound slug i)))
           | Some idp \<Rightarrow>
               (case parse_with ProbeResultSchema_ok (probeIssuer parse_url issuer kind) of
                  Inl e \<Rightarrow> (S', Inl e)
                | Inr res \<Rightarrow>
                    (map_set S' slug (map (\<lambda>p. if ip_id p = i then p\<lparr>ip_lastProbe := Some res\<rparr> else p) items), Inr (Inr res)))))"

definition staged_provider :: "IdentityProvider \<Rightarrow> IdpPatch \<Rightarrow> string \<Rightarrow> nat \<Rightarrow> IdentityProvider" where
  "staged_provider idp patch host generation =
     idp\<lparr>ip_name := (case pt_name patch of Some v \<Rightarrow> v | None \<Rightarrow> ip_name idp),
         ip_kind := (case pt_kind patch of Some v \<Rightarrow> v | None \<Rightarrow> ip_kind idp),
         ip_issuer := (case pt_issuer patch of Some v \<Rightarrow> v | None \<Rightarrow> ip_issuer idp),
         ip_host := host,
         ip_clientId := (case pt_clientId patch of Some v \<Rightarrow> v | None \<Rightarrow> ip_clientId idp),
         ip_hasSecret := (ip_hasSecret idp \<or> pt_clientSecret patch \<noteq> None),
         ip_claimMappings := (case pt_claimMappings patch of Some v \<Rightarrow> v | None \<Rightarrow> ip_claimMappings idp),
         ip_state := (if ip_state idp = Disabled_idp then Disabled_idp else Pending_apply),
         ip_stagedGeneration := Some generation\<rparr>"

text \<open>The probe of a new issuer; \<open>None\<close> lets the edit through.\<close>

definition issuer_failure :: "(string \<Rightarrow> IdpUrl option) \<Rightarrow> IdentityProvider \<Rightarrow> IdpPatch \<Rightarrow> failure option" where
  "issuer_failure parse_url idp patch =
     (case pt_issuer patch of
        None \<Rightarrow> None
      | Some issuer \<Rightarrow>
          (case probeIssuer parse_url issuer (case pt_kind patch of Some k \<Rightarrow> k | None \<Rightarrow> ip_kind idp) of
             Probe_ok _ _ _ _ \<Rightarrow> None
           | Probe_blocked _ reason detail _ \<Rightarrow>
               Some \<lparr>f_status = 422, f_title = ''Issuer rejected'', f_detail = Some (reason @ '': '' @ detail)\<rparr>))"

definition stageIdentityProvider ::
  "(string \<Rightarrow> IdpUrl option) \<Rightarrow> tenants \<Rightarrow> idp_store \<Rightarrow> string \<Rightarrow> string \<Rightarrow> IdpPatch \<Rightarrow> instant \<Rightarrow> idp_store \<times> IdpStageResult result throws" where
  "stageIdentityProvider parse_url T S slug i patch now =
     (case (providersFor parse_url T S slug, tenant_of T slug) of
        ((S', Inl e), _) \<Rightarrow> (S', Inl e)
      | ((S', Inr (Some items)), Some t) \<Rightarrow>
          (case List.find (\<lambda>p. ip_id p = i) items of
             None \<Rightarrow> (S', Inr (Inl (idpNotFound slug i)))
           | Some idp \<Rightarrow>
               (case issuer_failure parse_url idp patch of
                  Some f \<Rightarrow> (S', Inr (Inl f))
                | None \<Rightarrow>
                    (let generation = ts_generation t + 1;
                         issuer = (case pt_issuer patch of Some v \<Rightarrow> v | None \<Rightarrow> ip_issuer idp)
                     in case parse_url issuer of
                          None \<Rightarrow> (S', Inl TypeError)
                        | Some u \<Rightarrow>
                            (case parse_with IdentityProviderSchema_ok (staged_provider idp patch (iu_hostname u) generation) of
                               Inl e \<Rightarrow> (S', Inl e)
                             | Inr new_idp \<Rightarrow>
                                 (map_set S' slug (map (\<lambda>p. if ip_id p = i then new_idp else p) items),
                                  map_sum id Inr (parse_with IdpStageResultSchema_ok
                                    \<lparr>ir_id = i, ir_generation = generation, ir_stagedAt = toISOString now,
                                     ir_secretReplaced = (pt_clientSecret patch \<noteq> None)\<rparr>))))))
      | ((S', _), _) \<Rightarrow> (S', Inr (Inl idp_tenant_missing)))"

definition resetIdentityProviderStore :: "idp_store \<Rightarrow> idp_store" where
  "resetIdentityProviderStore S = []"

section \<open>IPv4 addresses\<close>

definition octet_text :: "string \<Rightarrow> bool" where
  "octet_text s \<longleftrightarrow> s \<noteq> [] \<and> length s \<le> 3 \<and> (\<forall>c \<in> set s. is_digit c)"

lemma octet_cases:
  assumes "octet_text s"
  obtains x where "s = [x]" "is_digit x" | x y where "s = [x, y]" "is_digit x" "is_digit y"
    | x y z where "s = [x, y, z]" "is_digit x" "is_digit y" "is_digit z"
proof -
  obtain x r where r: "s = x # r" "length r \<le> 2" using assms by (cases s) (auto simp: octet_text_def)
  show ?thesis
  proof (cases r)
    case Nil
    then show ?thesis using that(1) r assms by (simp add: octet_text_def)
  next
    case (Cons y q)
    then show ?thesis using that(2,3) r assms by (cases q) (auto simp: octet_text_def)
  qed
qed

lemma octet_dot:
  assumes "octet_text s"
  shows "re_run (Seq re_octet_group (Seq (re_lit ''.'') r)) (s @ CHR ''.'' # t) = map (\<lambda>(s2, c). (s2, s # c)) (re_run r t)"
proof -
  have dot: "\<not> is_digit (CHR ''.'')" by (simp add: is_digit_def code_def)
  have nodot: "is_digit c \<Longrightarrow> c \<noteq> CHR ''.''" for c using dot by blast
  from assms show ?thesis
    by (cases rule: octet_cases) (simp_all add: re_octet_group_def re_opt_def re_lit_def dot nodot case_prod_unfold o_def)
qed

lemma octet_end:
  assumes "octet_text s"
  shows "re_run (Seq re_octet_group (Seq Eos Eps)) s = [([], [s])]"
  using assms by (cases rule: octet_cases) (simp_all add: re_octet_group_def re_opt_def)

definition ipv4_text :: "8 word \<Rightarrow> 8 word \<Rightarrow> 8 word \<Rightarrow> 8 word \<Rightarrow> string" where
  "ipv4_text a b c d = join ''.'' (map (\<lambda>x. show_nat (unat x)) [a, b, c, d])"

lemma byte_less: "unat x < 256" for x :: "8 word"
proof -
  have "unat x < 2 ^ LENGTH(8)" by (rule unsigned_less)
  then show ?thesis by simp
qed

lemma octet_text_byte: "octet_text (show_nat (unat x))" for x :: "8 word"
proof -
  have "unat x < 10 ^ Suc 2" using byte_less [of x] by simp
  then show ?thesis using length_show_nat [of "unat x" 2] show_nat_digits by (auto simp: octet_text_def show_nat_not_Nil)
qed

lemma parseIpv4_text: "parseIpv4 (ipv4_text a b c d) = Some (unat a, unat b, unat c, unat d)"
proof -
  have dotted: "ipv4_text a b c d = show_nat (unat a) @ CHR ''.'' # show_nat (unat b) @ CHR ''.'' # show_nat (unat c) @ CHR ''.'' # show_nat (unat d)"
    by (simp add: ipv4_text_def)
  have "re_run re_ipv4 (ipv4_text a b c d) = [([], [show_nat (unat a), show_nat (unat b), show_nat (unat c), show_nat (unat d)])]"
    unfolding re_ipv4_def re_seq.simps dotted octet_dot [OF octet_text_byte] octet_end [OF octet_text_byte] by simp
  moreover have "unat x \<le> 255" for x :: "8 word" using byte_less [of x] by simp
  ultimately show ?thesis by (simp add: parseIpv4_def re_exec_def re_match_def read_show_nat)
qed

text \<open>The special-purpose IPv4 blocks, as CIDR prefixes of a 32-bit address.\<close>

definition ipv4_number :: "nat \<Rightarrow> nat \<Rightarrow> nat \<Rightarrow> nat \<Rightarrow> nat" where
  "ipv4_number a b c d = ((a * 256 + b) * 256 + c) * 256 + d"

definition in_block :: "nat \<Rightarrow> nat \<times> nat \<Rightarrow> bool" where
  "in_block n block \<longleftrightarrow> n div 2 ^ (32 - snd block) = fst block div 2 ^ (32 - snd block)"

definition SPECIAL_BLOCKS :: "(nat \<times> nat) list" where
  "SPECIAL_BLOCKS =
     [(ipv4_number 0 0 0 0, 8), (ipv4_number 10 0 0 0, 8), (ipv4_number 100 64 0 0, 10), (ipv4_number 127 0 0 0, 8),
      (ipv4_number 169 254 0 0, 16), (ipv4_number 172 16 0 0, 12), (ipv4_number 192 168 0 0, 16), (ipv4_number 224 0 0 0, 3)]"

lemma ipv4_number_div:
  assumes "b < 256" "c < 256" "d < 256"
  shows "ipv4_number a b c d div 2 ^ 24 = a" "ipv4_number a b c d div 2 ^ 16 = a * 256 + b"
    "ipv4_number a b c d div 2 ^ 22 = a * 4 + b div 64" "ipv4_number a b c d div 2 ^ 20 = a * 16 + b div 16"
    "ipv4_number a b c d div 2 ^ 29 = a div 32"
proof -
  show 16: "ipv4_number a b c d div 2 ^ 16 = a * 256 + b"
  proof -
    have "ipv4_number a b c d = (a * 256 + b) * 65536 + (c * 256 + d)" by (simp add: ipv4_number_def algebra_simps)
    moreover have "c * 256 + d < 65536" using assms by linarith
    ultimately show ?thesis by simp
  qed
  have more: "ipv4_number a b c d div 2 ^ (16 + k) = (a * 256 + b) div 2 ^ k" for k
    by (simp only: power_add div_mult2_eq 16)
  show "ipv4_number a b c d div 2 ^ 24 = a" using more [of 8] assms by simp
  show "ipv4_number a b c d div 2 ^ 22 = a * 4 + b div 64"
  proof -
    have "(a * 256 + b) div 64 = a * 4 + b div 64" using div_mult_self1 [of 64 b "a * 4"] by (simp add: algebra_simps)
    then show ?thesis using more [of 6] by simp
  qed
  show "ipv4_number a b c d div 2 ^ 20 = a * 16 + b div 16"
  proof -
    have "(a * 256 + b) div 16 = a * 16 + b div 16" using div_mult_self1 [of 16 b "a * 16"] by (simp add: algebra_simps)
    then show ?thesis using more [of 4] by simp
  qed
  show "ipv4_number a b c d div 2 ^ 29 = a div 32"
  proof -
    have "(a * 256 + b) div 256 div 32 = a div 32" using assms by simp
    then show ?thesis using more [of 13] by (simp add: div_mult2_eq [symmetric])
  qed
qed

lemma mixed_radix: "q < m \<Longrightarrow> r < m \<Longrightarrow> a * m + q = k * m + r \<longleftrightarrow> a = k \<and> q = r" for m :: nat
  by (metis add.commute div_mult_self3 mod_mult_self3 div_less mod_less add_0 gr_implies_not0)

lemma ipv4_range_blocks:
  assumes "a < 256" "b < 256" "c < 256" "d < 256"
  shows "ipv4_range a b \<noteq> None \<longleftrightarrow> list_ex (in_block (ipv4_number a b c d)) SPECIAL_BLOCKS"
proof -
  note div = ipv4_number_div [OF assms(2-4)]
  note base = ipv4_number_div [where c = 0 and d = 0]
  have cgnat: "a * 4 + b div 64 = 401 \<longleftrightarrow> a = 100 \<and> 64 \<le> b \<and> b \<le> 127"
  proof -
    have "b div 64 < 4" using assms(2) by (simp add: less_mult_imp_div_less)
    then have "a * 4 + b div 64 = 401 \<longleftrightarrow> a = 100 \<and> b div 64 = 1" using mixed_radix [of "b div 64" 4 1 a 100] by simp
    also have "b div 64 = 1 \<longleftrightarrow> 64 \<le> b \<and> b \<le> 127" by linarith
    finally show ?thesis .
  qed
  have campus: "a * 16 + b div 16 = 2753 \<longleftrightarrow> a = 172 \<and> 16 \<le> b \<and> b \<le> 31"
  proof -
    have "b div 16 < 16" using assms(2) by (simp add: less_mult_imp_div_less)
    then have "a * 16 + b div 16 = 2753 \<longleftrightarrow> a = 172 \<and> b div 16 = 1" using mixed_radix [of "b div 16" 16 1 a 172] by simp
    also have "b div 16 = 1 \<longleftrightarrow> 16 \<le> b \<and> b \<le> 31" by linarith
    finally show ?thesis .
  qed
  have link: "a * 256 + b = 43518 \<longleftrightarrow> a = 169 \<and> b = 254" using mixed_radix [of b 256 254 a 169] assms(2) by simp
  have home: "a * 256 + b = 49320 \<longleftrightarrow> a = 192 \<and> b = 168" using mixed_radix [of b 256 168 a 192] assms(2) by simp
  have multicast: "a div 32 = 7 \<longleftrightarrow> 224 \<le> a" using assms(1) by linarith
  have "list_ex (in_block (ipv4_number a b c d)) SPECIAL_BLOCKS \<longleftrightarrow>
      a = 0 \<or> a = 10 \<or> a * 4 + b div 64 = 401 \<or> a = 127 \<or> a * 256 + b = 43518 \<or> a * 16 + b div 16 = 2753 \<or> a * 256 + b = 49320 \<or> a div 32 = 7"
    using base [of 0 0] base [of 0 10] base [of 64 100] base [of 0 127] base [of 254 169] base [of 16 172] base [of 168 192] base [of 0 224]
    by (simp add: SPECIAL_BLOCKS_def in_block_def div [simplified])
  then show ?thesis unfolding cgnat campus link home multicast by (auto simp: ipv4_range_def)
qed

lemma ipv4_text_chars: "\<forall>ch \<in> set (ipv4_text a b c d). is_digit ch \<or> ch = CHR ''.''"
  using show_nat_digits by (auto simp: ipv4_text_def)

lemma lower_digit: "is_digit ch \<or> ch = CHR ''.'' \<or> ch = CHR '':'' \<or> ch = CHR ''f'' \<Longrightarrow> char_lower ch = ch"
  by (auto simp: char_lower_def is_digit_def code_def Let_def)

lemma toLowerCase_ipv4 [simp]: "toLowerCase (ipv4_text a b c d) = ipv4_text a b c d"
  unfolding toLowerCase_def by (rule map_idI) (use ipv4_text_chars lower_digit in blast)

lemma ipv4_text_first: "\<exists>ch r. ipv4_text a b c d = ch # r \<and> is_digit ch"
  using octet_text_byte [of a] by (cases "show_nat (unat a)") (auto simp: ipv4_text_def octet_text_def)

lemma ipv4_text_last: "\<exists>r ch. ipv4_text a b c d = r @ [ch] \<and> is_digit ch"
proof -
  obtain r ch where "show_nat (unat d) = r @ [ch]" using octet_text_byte [of d] by (cases "show_nat (unat d)" rule: rev_cases) (auto simp: octet_text_def)
  moreover from this have "is_digit ch" using show_nat_digits [of "unat d"] by auto
  ultimately show ?thesis by (auto simp: ipv4_text_def)
qed

lemma endsWith_snoc: "endsWith (r @ [ch]) p \<Longrightarrow> p \<noteq> [] \<Longrightarrow> last p = ch"
  by (metis endsWith_iff last_appendR last_snoc)

lemma ipv4_not_suffixed: "p \<noteq> [] \<Longrightarrow> \<not> is_digit (last p) \<Longrightarrow> \<not> endsWith (ipv4_text a b c d) p"
  using ipv4_text_last [of a b c d] by (metis endsWith_snoc)

lemma ipv4_no_suffix: "\<not> list_ex (endsWith (ipv4_text a b c d)) BLOCKED_SUFFIXES"
  by (simp add: BLOCKED_SUFFIXES_def ipv4_not_suffixed is_digit_def code_def)

lemma not_startsWith_first: "ipv4_text a b c d = ch # r \<Longrightarrow> is_digit ch \<Longrightarrow> \<not> is_digit x \<Longrightarrow> \<not> startsWith (ipv4_text a b c d) [x]"
  by (auto simp: startsWith_iff)

lemma strip_brackets_ipv4 [simp]: "strip_brackets (ipv4_text a b c d) = ipv4_text a b c d"
proof -
  have "\<not> startsWith (ipv4_text a b c d) ''[''"
    using ipv4_text_first [of a b c d] not_startsWith_first [of a b c d _ _ "CHR ''[''"] by (auto simp: is_digit_def code_def)
  moreover have "\<not> endsWith (ipv4_text a b c d) '']''" by (rule ipv4_not_suffixed) (simp_all add: is_digit_def code_def)
  ultimately show ?thesis by (simp add: strip_brackets_def)
qed

lemma ipv4_no_colon: "\<not> includes_str (ipv4_text a b c d) '':''"
proof
  assume "includes_str (ipv4_text a b c d) '':''"
  then have "CHR '':'' \<in> set (ipv4_text a b c d)" by (auto simp: includes_str_iff)
  then have "is_digit (CHR '':'') \<or> CHR '':'' = CHR ''.''" using ipv4_text_chars by blast
  then show False by (simp add: is_digit_def code_def)
qed

lemma privateRangeOf_ipv4:
  "privateRangeOf (ipv4_text a b c d) =
     (if ipv4_text a b c d = ''0.0.0.0'' then Some ''loopback'' else ipv4_range (unat a) (unat b))"
proof -
  have "ipv4_text a b c d \<noteq> s" if "s \<in> {''localhost'', ''::'', ''::1''}" for s
    using that ipv4_text_first [of a b c d] by (auto simp: is_digit_def code_def)
  then show ?thesis
    using ipv4_no_suffix ipv4_no_colon by (subst privateRangeOf.simps) (auto simp: Let_def parseIpv4_text)
qed

lemma ipv4_zero: "ipv4_text a b c d = ''0.0.0.0'' \<Longrightarrow> unat a = 0 \<and> unat b = 0"
proof -
  assume z: "ipv4_text a b c d = ''0.0.0.0''"
  have "ipv4_text 0 0 0 0 = ''0.0.0.0''" by code_simp
  then show ?thesis using parseIpv4_text [of a b c d] parseIpv4_text [of 0 0 0 0] z by simp
qed

lemma mapped_ipv4: "privateRangeOf (''::ffff:'' @ ipv4_text a b c d) = privateRangeOf (ipv4_text a b c d)"
proof -
  let ?h = "''::ffff:'' @ ipv4_text a b c d"
  have lower: "toLowerCase ?h = ?h" using toLowerCase_ipv4 [of a b c d] lower_digit by (simp add: toLowerCase_def)
  have "\<not> endsWith ?h '']''" 
  proof
    assume "endsWith ?h '']''"
    moreover obtain r ch where "ipv4_text a b c d = r @ [ch]" "is_digit ch" using ipv4_text_last by blast
    ultimately show False using endsWith_snoc [of "''::ffff:'' @ r" ch "'']''"] by (auto simp: is_digit_def code_def)
  qed
  then have strip: "strip_brackets ?h = ?h" by (simp add: strip_brackets_def startsWith_def)
  have suffixes: "\<not> list_ex (endsWith ?h) BLOCKED_SUFFIXES"
  proof -
    obtain r ch where "ipv4_text a b c d = r @ [ch]" "is_digit ch" using ipv4_text_last by blast
    then have "\<not> endsWith ?h p" if "p \<noteq> []" "\<not> is_digit (last p)" for p using that endsWith_snoc [of "''::ffff:'' @ r" ch p] by auto
    then show ?thesis by (simp add: BLOCKED_SUFFIXES_def is_digit_def code_def)
  qed
  have "?h \<notin> {''localhost'', ''0.0.0.0'', ''::'', ''::1''}" by simp
  moreover have "includes_str ?h '':''" "\<not> startsWith ?h ''fe80:''" "startsWith ?h ''::ffff:''" by (simp_all add: startsWith_def)
  moreover have "\<not> re_test re_unique_local ?h" by (simp add: re_unique_local_def re_test_def re_lit_def)
  ultimately show ?thesis using suffixes
    by (subst privateRangeOf.simps) (simp only: lower strip Let_def if_True if_False, simp)
qed

section \<open>The connections of a tenant\<close>

definition seeded_idps :: "(string \<Rightarrow> IdpUrl option) \<Rightarrow> tenants \<Rightarrow> string \<Rightarrow> IdentityProvider list option" where
  "seeded_idps parse_url T slug = (case idp_seed parse_url T slug of Inr r \<Rightarrow> r | Inl _ \<Rightarrow> None)"

definition acquire_idps :: "(string \<Rightarrow> IdpUrl option) \<Rightarrow> tenants \<Rightarrow> idp_store \<Rightarrow> string \<Rightarrow> idp_store \<times> IdentityProvider list option" where
  "acquire_idps parse_url T S slug =
     (fst (providersFor parse_url T S slug), case snd (providersFor parse_url T S slug) of Inr r \<Rightarrow> r | Inl _ \<Rightarrow> None)"

interpretation idps: lazy_store "acquire_idps parse_url T" map_get "seeded_idps parse_url T" for parse_url T
  by unfold_locales (auto simp: acquire_idps_def providersFor_def seeded_idps_def split: option.splits sum.splits)

lemma providersFor_view:
  assumes "providersFor parse_url T S slug = (S', Inr (Some items))"
  shows "idps.view parse_url T S slug = Some items" and "idps.view parse_url T S' k = idps.view parse_url T S k"
proof -
  have a: "acquire_idps parse_url T S slug = (S', Some items)" using assms by (simp add: acquire_idps_def)
  show "idps.view parse_url T S slug = Some items" using idps.snd_acquire [of parse_url T S slug] by (simp add: a)
  show "idps.view parse_url T S' k = idps.view parse_url T S k" using idps.view_acquire [of parse_url T S slug k] by (simp add: a)
qed

lemma probe_passes:
  assumes "probe_ok (probeIssuer parse_url issuer kind)"
  shows "\<exists>u. parse_url (trim issuer) = Some u \<and> iu_protocol u = ''https:'' \<and> iu_username u = '''' \<and> iu_password u = ''''
     \<and> privateRangeOf (toLowerCase (iu_hostname u)) = None"
  using assms by (auto simp: probeIssuer_def blocked_def Let_def split: option.splits if_splits)

lemma issuer_failure_None: "issuer_failure parse_url idp patch = None \<Longrightarrow> pt_issuer patch = Some issuer \<Longrightarrow>
    \<exists>kind. probe_ok (probeIssuer parse_url issuer kind)"
  by (auto simp: issuer_failure_def split: ProbeResult.splits) (metis probe_ok.simps(1))

text \<open>The one accepting branch of a staged edit.\<close>

lemma stage_accepted:
  assumes "stageIdentityProvider parse_url T S slug i patch now = (S', Inr (Inr r))"
  obtains S1 items idp t u where "providersFor parse_url T S slug = (S1, Inr (Some items))" "tenant_of T slug = Some t"
    "List.find (\<lambda>p. ip_id p = i) items = Some idp" "issuer_failure parse_url idp patch = None"
    "parse_url (case pt_issuer patch of Some v \<Rightarrow> v | None \<Rightarrow> ip_issuer idp) = Some u"
    "S' = map_set S1 slug (map (\<lambda>p. if ip_id p = i then staged_provider idp patch (iu_hostname u) (Suc (ts_generation t)) else p) items)"
    "ir_generation r = Suc (ts_generation t)" "ir_secretReplaced r \<longleftrightarrow> pt_clientSecret patch \<noteq> None"
proof -
  obtain S1 res where pf: "providersFor parse_url T S slug = (S1, res)" by fastforce
  show ?thesis
  proof (cases res)
    case (Inl e)
    then show ?thesis using assms by (simp add: stageIdentityProvider_def pf)
  next
    case (Inr items_opt)
    then obtain items t where it: "items_opt = Some items" "tenant_of T slug = Some t"
      using assms by (auto simp: stageIdentityProvider_def pf split: option.splits)
    then obtain idp where idp: "List.find (\<lambda>p. ip_id p = i) items = Some idp" "issuer_failure parse_url idp patch = None"
      using assms Inr by (auto simp: stageIdentityProvider_def pf split: option.splits)
    then obtain u where u: "parse_url (case pt_issuer patch of Some v \<Rightarrow> v | None \<Rightarrow> ip_issuer idp) = Some u"
      using assms Inr it by (auto simp: stageIdentityProvider_def pf Let_def split: option.splits)
    show ?thesis using that [OF pf [unfolded Inr it(1)] it(2) idp u] assms Inr it idp u
      by (simp add: stageIdentityProvider_def pf Let_def parse_with_def split: sum.splits if_splits) auto
  qed
qed

lemma staged_secret: "pt_clientSecret patch \<noteq> None \<Longrightarrow> staged_provider idp (patch\<lparr>pt_clientSecret := Some s\<rparr>) h g = staged_provider idp patch h g"
  by (simp add: staged_provider_def)

lemma stage_ignores_secret:
  "pt_clientSecret patch \<noteq> None \<Longrightarrow>
     stageIdentityProvider parse_url T S slug i (patch\<lparr>pt_clientSecret := Some s\<rparr>) now = stageIdentityProvider parse_url T S slug i patch now"
  by (simp add: stageIdentityProvider_def staged_secret issuer_failure_def Let_def split: prod.split sum.split option.split)

section \<open>Properties\<close>

text \<open>
  C14: the guard refuses exactly the special-purpose IPv4 space. For every IPv4 address, written in
  dotted decimal, the probe finds a private range if and only if the 32-bit address lies in one of
  the CIDR blocks this-network, 10/8, CGNAT 100.64/10, loopback, link-local, 172.16/12,
  192.168/16, or multicast and reserved; and the IPv4-mapped IPv6 form of the same dotted address
  gets the same verdict.
\<close>

theorem privateRangeOf_exact:
  "(privateRangeOf (ipv4_text a b c d) \<noteq> None
      \<longleftrightarrow> list_ex (in_block (ipv4_number (unat a) (unat b) (unat c) (unat d))) SPECIAL_BLOCKS)
   \<and> privateRangeOf (''::ffff:'' @ ipv4_text a b c d) = privateRangeOf (ipv4_text a b c d)"
proof -
  have "ipv4_range (unat a) (unat b) \<noteq> None" if "ipv4_text a b c d = ''0.0.0.0''" using ipv4_zero [OF that] by (simp add: ipv4_range_def)
  then have "privateRangeOf (ipv4_text a b c d) \<noteq> None \<longleftrightarrow> ipv4_range (unat a) (unat b) \<noteq> None" by (auto simp: privateRangeOf_ipv4)
  then show ?thesis using ipv4_range_blocks [OF byte_less byte_less byte_less byte_less] mapped_ipv4 by simp
qed

text \<open>
  A staged edit changes one connection, keeps the issuer guard, and never keeps the secret. When
  an edit is accepted, only the connection with its id changes, to the staged one of the next
  generation (never \<open>applied\<close>); a new issuer is an https URL without credentials whose host is in
  no private range; and the store and the answer are the same for every value of the secret: that
  a secret was sent is recorded, the value is not.
\<close>

theorem stageIdentityProvider_spec:
  assumes "stageIdentityProvider parse_url T S slug i patch now = (S', Inr (Inr r))"
  shows "(\<exists>items idp t host. idps.view parse_url T S slug = Some items \<and> List.find (\<lambda>p. ip_id p = i) items = Some idp
       \<and> tenant_of T slug = Some t \<and> ir_generation r = Suc (ts_generation t)
       \<and> idps.view parse_url T S' = (idps.view parse_url T S)
           (slug \<mapsto> map (\<lambda>p. if ip_id p = i then staged_provider idp patch host (Suc (ts_generation t)) else p) items)
       \<and> ip_state (staged_provider idp patch host (Suc (ts_generation t))) \<noteq> Applied_idp)
     \<and> (\<forall>issuer. pt_issuer patch = Some issuer \<longrightarrow> (\<exists>u. parse_url (trim issuer) = Some u \<and> iu_protocol u = ''https:''
           \<and> iu_username u = '''' \<and> iu_password u = '''' \<and> privateRangeOf (toLowerCase (iu_hostname u)) = None))
     \<and> (\<forall>secret. pt_clientSecret patch \<noteq> None \<longrightarrow>
           stageIdentityProvider parse_url T S slug i (patch\<lparr>pt_clientSecret := Some secret\<rparr>) now = (S', Inr (Inr r)))"
proof (intro conjI allI impI)
  obtain S1 items idp t u where a: "providersFor parse_url T S slug = (S1, Inr (Some items))" "tenant_of T slug = Some t"
      "List.find (\<lambda>p. ip_id p = i) items = Some idp" "issuer_failure parse_url idp patch = None"
      "parse_url (case pt_issuer patch of Some v \<Rightarrow> v | None \<Rightarrow> ip_issuer idp) = Some u"
      "S' = map_set S1 slug (map (\<lambda>p. if ip_id p = i then staged_provider idp patch (iu_hostname u) (Suc (ts_generation t)) else p) items)"
      "ir_generation r = Suc (ts_generation t)"
    by (rule stage_accepted [OF assms])
  note v = providersFor_view [OF a(1)]
  have "idps.view parse_url T S' = (idps.view parse_url T S)
      (slug \<mapsto> map (\<lambda>p. if ip_id p = i then staged_provider idp patch (iu_hostname u) (Suc (ts_generation t)) else p) items)"
    using v(2) by (simp add: a(6) idps.view_def fun_eq_iff)
  moreover have "ip_state (staged_provider idp patch (iu_hostname u) (Suc (ts_generation t))) \<noteq> Applied_idp" by (simp add: staged_provider_def)
  ultimately show "\<exists>items idp t host. idps.view parse_url T S slug = Some items \<and> List.find (\<lambda>p. ip_id p = i) items = Some idp
       \<and> tenant_of T slug = Some t \<and> ir_generation r = Suc (ts_generation t)
       \<and> idps.view parse_url T S' = (idps.view parse_url T S)
           (slug \<mapsto> map (\<lambda>p. if ip_id p = i then staged_provider idp patch host (Suc (ts_generation t)) else p) items)
       \<and> ip_state (staged_provider idp patch host (Suc (ts_generation t))) \<noteq> Applied_idp"
    using v(1) a(2,3,7) by blast
  show "\<exists>u. parse_url (trim issuer) = Some u \<and> iu_protocol u = ''https:'' \<and> iu_username u = '''' \<and> iu_password u = ''''
      \<and> privateRangeOf (toLowerCase (iu_hostname u)) = None" if "pt_issuer patch = Some issuer" for issuer
    using issuer_failure_None [OF a(4) that] probe_passes by blast
  show "stageIdentityProvider parse_url T S slug i (patch\<lparr>pt_clientSecret := Some secret\<rparr>) now = (S', Inr (Inr r))"
    if "pt_clientSecret patch \<noteq> None" for secret
    using assms that by (simp add: stage_ignores_secret)
qed

text \<open>The addresses the guard lets through although the policy names their ranges.\<close>

lemma mapped_hex_passes: "privateRangeOf ''[::ffff:7f00:1]'' = None"
  by code_simp

lemma link_local_passes: "privateRangeOf ''[fe90::1]'' = None"
  by code_simp

lemma dotted_localhost_passes: "privateRangeOf ''localhost.'' = None"
  by code_simp

section \<open>Witness\<close>

definition example_url :: "string \<Rightarrow> IdpUrl option" where
  "example_url s = Some \<lparr>iu_protocol = ''https:'', iu_username = '''', iu_password = '''', iu_hostname = ''idp.example''\<rparr>"

definition example_patch :: IdpPatch where
  "example_patch = \<lparr>pt_name = None, pt_kind = None, pt_issuer = Some ''https://idp.example/'', pt_clientId = None,
     pt_clientSecret = Some ''s3cret'', pt_claimMappings = None\<rparr>"

lemma example_host: "privateRangeOf ''idp.example'' = None"
  by code_simp

lemma example_probe: "\<exists>ms ip cs. probeIssuer example_url issuer kind = Probe_ok (trim issuer) ms ip cs \<and> cs \<noteq> []"
proof -
  have "toLowerCase ''idp.example'' = ''idp.example''" by code_simp
  moreover have "\<not> includes_str ''idp.example'' ''redirect''" "\<not> includes_str ''idp.example'' ''slow''" by (simp_all add: startsWith_def)
  ultimately show ?thesis using example_host by (simp add: probeIssuer_def example_url_def Let_def probe_checks_def)
qed

lemma acme_idp_tenant: "\<exists>t. tenant_of [] ''acme-air'' = Some t \<and> ts_slug t = ''acme-air''"
  by (simp add: tenant_of_def tenantDetailFixture_def findTenant_def TENANTS_def fixture_tenant_def)

lemma example_stage: "\<exists>S' r. stageIdentityProvider example_url [] [] ''acme-air'' ''acme-entra'' example_patch 0 = (S', Inr (Inr r))"
proof -
  obtain t where t: "tenant_of [] ''acme-air'' = Some t" "ts_slug t = ''acme-air''" using acme_idp_tenant by blast
  obtain ms ip cs where probe: "probeIssuer example_url ACME_ENTRA_ISSUER Oidc = Probe_ok (trim ACME_ENTRA_ISSUER) ms ip cs" "cs \<noteq> []"
    using example_probe by blast
  define items where "items = acmeIdentityProviders example_url t"
  have "list_all IdentityProviderSchema_ok items"
    using probe by (simp add: items_def acmeIdentityProviders_def IdentityProviderSchema_ok_def ENTRA_CLAIMS_def DEFAULT_CLAIMS_def ClaimMappingSchema_ok_def)
  then have pf: "providersFor example_url [] [] ''acme-air'' = ([(''acme-air'', items)], Inr (Some items))"
    using t by (simp add: providersFor_def idp_seed_def identityProvidersFor_def items_def)
  obtain idp where idp: "List.find (\<lambda>p. ip_id p = ''acme-entra'') items = Some idp" "idp \<in> set items"
    by (simp add: items_def acmeIdentityProviders_def)
  have pass: "issuer_failure example_url idp example_patch = None"
    using example_probe [of "''https://idp.example/''" "ip_kind idp"] by (auto simp: issuer_failure_def example_patch_def)
  have "IdentityProviderSchema_ok (staged_provider idp example_patch h (Suc g))" for h g
    using \<open>list_all IdentityProviderSchema_ok items\<close> idp(2)
    by (simp add: list_all_iff IdentityProviderSchema_ok_def staged_provider_def example_patch_def)
  then show ?thesis using pf t idp(1) pass
    by (simp add: stageIdentityProvider_def Let_def example_url_def IdpStageResultSchema_ok_def)
qed

theorem stageIdentityProvider_spec_witness:
  "\<exists>S' r. stageIdentityProvider example_url [] [] ''acme-air'' ''acme-entra'' example_patch 0 = (S', Inr (Inr r))
     \<and> stageIdentityProvider example_url [] [] ''acme-air'' ''acme-entra'' (example_patch\<lparr>pt_clientSecret := Some ''other''\<rparr>) 0 = (S', Inr (Inr r))
     \<and> privateRangeOf (toLowerCase ''idp.example'') = None"
proof -
  obtain S' r where stage: "stageIdentityProvider example_url [] [] ''acme-air'' ''acme-entra'' example_patch 0 = (S', Inr (Inr r))"
    using example_stage by blast
  from stageIdentityProvider_spec [OF stage, THEN conjunct2, THEN conjunct1] have "privateRangeOf (toLowerCase ''idp.example'') = None"
    by (simp add: example_patch_def example_url_def)
  moreover from stageIdentityProvider_spec [OF stage, THEN conjunct2, THEN conjunct2]
  have "stageIdentityProvider example_url [] [] ''acme-air'' ''acme-entra'' (example_patch\<lparr>pt_clientSecret := Some ''other''\<rparr>) 0 = (S', Inr (Inr r))"
    by (simp add: example_patch_def)
  ultimately show ?thesis using stage by blast
qed

end
