(* ===== verification/Roles.thy ===== *)
theory Roles
  imports Tenants
begin

text \<open>
  The role matrix of a tenant (\<^verbatim>\<open>features/roles\<close>): the projection of the spec's roles, seeded on
  first use, and the staged removal of a role, which is refused while relation tuples bind to it.
  Counts are integers here, because the code subtracts them.
\<close>

section \<open>Schemas\<close>

datatype Permission = Tenant_read | Tenant_write | Relations_write | Audit_read | Idp_manage

definition PERMISSIONS :: "Permission list" where
  "PERMISSIONS = [Tenant_read, Tenant_write, Relations_write, Audit_read, Idp_manage]"

record Role =
  ro_key :: string
  ro_users :: int
  ro_permissions :: "Permission list"
  ro_boundTuples :: int
  ro_generation :: nat
  ro_staged :: bool
  ro_unusedDays :: "nat option"

definition ROLE_KEY :: re where
  "ROLE_KEY = re_seq [Ch is_lower, Rep (\<lambda>c. is_lower c \<or> is_digit c \<or> c = CHR ''_''), Eos]"

definition RoleSchema_ok :: "Role \<Rightarrow> bool" where
  "RoleSchema_ok r \<longleftrightarrow> re_test ROLE_KEY (ro_key r) \<and> 0 \<le> ro_users r \<and> 0 \<le> ro_boundTuples r \<and> 0 < ro_generation r"

record RolesResponse =
  rr_slug :: string
  rr_items :: "Role list"
  rr_specGeneration :: nat

definition RolesResponseSchema_ok :: "RolesResponse \<Rightarrow> bool" where
  "RolesResponseSchema_ok r \<longleftrightarrow> list_all RoleSchema_ok (rr_items r) \<and> 0 < rr_specGeneration r"

record RoleDeleteResult =
  rd_key :: string
  rd_generation :: nat
  rd_stagedAt :: string

definition RoleDeleteResultSchema_ok :: "RoleDeleteResult \<Rightarrow> bool" where
  "RoleDeleteResultSchema_ok r \<longleftrightarrow> 0 < rd_generation r"

section \<open>Fixtures\<close>

abbreviation role_row :: "string \<Rightarrow> int \<Rightarrow> Permission list \<Rightarrow> nat \<Rightarrow> bool \<Rightarrow> nat option \<Rightarrow> Role" where
  "role_row k n ps g st unused \<equiv>
     \<lparr>ro_key = k, ro_users = n, ro_permissions = ps, ro_boundTuples = n, ro_generation = g, ro_staged = st, ro_unusedDays = unused\<rparr>"

definition acmeRoles :: "Role list" where
  "acmeRoles =
     [role_row ''tenant_admin'' 14 [Tenant_read, Tenant_write, Relations_write, Audit_read, Idp_manage] 6 False None,
      role_row ''tenant_editor'' 38 [Tenant_read, Tenant_write, Relations_write] 6 False None,
      role_row ''tenant_viewer'' 286 [Tenant_read, Audit_read] 6 False None,
      role_row ''tenant_auditor'' 0 [Tenant_read, Audit_read] 10 True None,
      role_row ''tenant_legacy_ops'' 0 [Tenant_read] 3 False (Some 41)]"

text \<open>\<^verbatim>\<open>Math.max(1, Math.round(users * 0.1))\<close> administrators, and the rest viewers.\<close>

definition genericRoles :: "nat \<Rightarrow> nat \<Rightarrow> Role list" where
  "genericRoles generation users =
     (let admins = max 1 (round_div users 10)
      in [role_row ''tenant_admin'' (int admins) [Tenant_read, Tenant_write, Relations_write, Audit_read, Idp_manage]
            generation False None,
          role_row ''tenant_viewer'' (int users - int admins) [Tenant_read, Audit_read] generation False None])"

section \<open>Operations\<close>

type_synonym role_store = "(string, Role list) jsmap"

definition role_seed :: "tenants \<Rightarrow> string \<Rightarrow> Role list option" where
  "role_seed T slug =
     (case tenant_of T slug of
        None \<Rightarrow> None
      | Some tenant \<Rightarrow>
          Some (if slug = ''acme-air'' then acmeRoles
                else genericRoles
                  (if ts_observedGeneration tenant \<noteq> 0 then ts_observedGeneration tenant else ts_generation tenant)
                  (de_userCount (td_desired tenant))))"

definition rolesFor :: "tenants \<Rightarrow> role_store \<Rightarrow> string \<Rightarrow> role_store \<times> Role list option" where
  "rolesFor T S slug =
     (case map_get S slug of
        Some cached \<Rightarrow> (S, Some cached)
      | None \<Rightarrow>
          (case role_seed T slug of
             None \<Rightarrow> (S, None)
           | Some roles \<Rightarrow> (map_set S slug roles, Some roles)))"

definition listRoles :: "tenants \<Rightarrow> role_store \<Rightarrow> string \<Rightarrow> role_store \<times> RolesResponse option throws" where
  "listRoles T S slug =
     (case (rolesFor T S slug, tenant_of T slug) of
        ((S', Some roles), Some tenant) \<Rightarrow>
          (S', map_sum id Some (parse_with RolesResponseSchema_ok
                 \<lparr>rr_slug = slug, rr_items = roles, rr_specGeneration = ts_generation tenant\<rparr>))
      | ((S', _), _) \<Rightarrow> (S', Inr None))"

definition roles_tenant_missing :: failure where
  "roles_tenant_missing = \<lparr>f_status = 404, f_title = ''Tenant not found'', f_detail = None\<rparr>"

definition role_missing :: "string \<Rightarrow> string \<Rightarrow> failure" where
  "role_missing slug key =
     \<lparr>f_status = 404, f_title = ''Role not found'', f_detail = Some (key @ '' is not defined in the spec for '' @ slug @ ''.'')\<rparr>"

definition role_bound :: "string \<Rightarrow> int \<Rightarrow> failure" where
  "role_bound key n =
     \<lparr>f_status = 409, f_title = ''Role is bound to tuples'',
      f_detail = Some (key @ '' is bound to '' @ show_int n @ '' tuple'' @ (if n = 1 then [] else ''s'')
        @ ''. Remove those relations before deleting the role.'')\<rparr>"

definition deleteRole :: "tenants \<Rightarrow> role_store \<Rightarrow> string \<Rightarrow> string \<Rightarrow> instant \<Rightarrow> role_store \<times> RoleDeleteResult result throws" where
  "deleteRole T S slug key now =
     (case (rolesFor T S slug, tenant_of T slug) of
        ((S', Some roles), Some tenant) \<Rightarrow>
          (case List.find (\<lambda>r. ro_key r = key) roles of
             None \<Rightarrow> (S', Inr (Inl (role_missing slug key)))
           | Some role \<Rightarrow>
               if 0 < ro_boundTuples role then (S', Inr (Inl (role_bound key (ro_boundTuples role))))
               else (map_set S' slug (filter (\<lambda>r. ro_key r \<noteq> key) roles),
                     map_sum id Inr (parse_with RoleDeleteResultSchema_ok
                       \<lparr>rd_key = key, rd_generation = Suc (ts_generation tenant), rd_stagedAt = toISOString now\<rparr>)))
      | ((S', _), _) \<Rightarrow> (S', Inr (Inl roles_tenant_missing)))"

definition resetRolesStore :: "role_store \<Rightarrow> role_store" where
  "resetRolesStore S = []"

section \<open>The store contract\<close>

interpretation roles: lazy_store "rolesFor T" map_get "role_seed T" for T
  by unfold_locales (auto simp: rolesFor_def split: option.splits)

lemma view_map_set [store_simps]: "roles.view T (map_set S slug v) = (roles.view T S)(slug \<mapsto> v)"
  by (auto simp: roles.view_def)

lemma rolesFor_eq: "rolesFor T S slug = (fst (rolesFor T S slug), roles.view T S slug)"
  by (metis prod.collapse roles.snd_acquire)

lemma view_rolesFor [simp]: "roles.view T (fst (rolesFor T S slug)) = roles.view T S"
  by (simp add: fun_eq_iff roles.view_acquire)

text \<open>Each operation as a function of what the caller can see.\<close>

lemma listRoles_view:
  "snd (listRoles T S slug) =
     (case (roles.view T S slug, tenant_of T slug) of
        (Some items, Some t) \<Rightarrow> map_sum id Some (parse_with RolesResponseSchema_ok
           \<lparr>rr_slug = slug, rr_items = items, rr_specGeneration = ts_generation t\<rparr>)
      | _ \<Rightarrow> Inr None)"
  by (subst listRoles_def, subst rolesFor_eq) (simp split: option.split)

lemma view_listRoles [simp]: "roles.view T (fst (listRoles T S slug)) = roles.view T S"
  by (subst listRoles_def, subst rolesFor_eq) (simp split: option.split)

definition removable :: "Role list \<Rightarrow> string \<Rightarrow> bool" where
  "removable items key \<longleftrightarrow> (case List.find (\<lambda>r. ro_key r = key) items of None \<Rightarrow> False | Some r \<Rightarrow> ro_boundTuples r \<le> 0)"

lemma deleteRole_view:
  assumes "roles.view T S slug = Some items" "tenant_of T slug = Some t"
  shows "roles.view T (fst (deleteRole T S slug key now)) =
      (if removable items key then (roles.view T S)(slug \<mapsto> filter (\<lambda>r. ro_key r \<noteq> key) items) else roles.view T S)"
    and "snd (deleteRole T S slug key now) =
      Inr (case List.find (\<lambda>r. ro_key r = key) items of
             None \<Rightarrow> Inl (role_missing slug key)
           | Some r \<Rightarrow> if 0 < ro_boundTuples r then Inl (role_bound key (ro_boundTuples r))
               else Inr \<lparr>rd_key = key, rd_generation = Suc (ts_generation t), rd_stagedAt = toISOString now\<rparr>)"
  using assms rolesFor_eq [of T S slug]
  by (auto simp: deleteRole_def removable_def RoleDeleteResultSchema_ok_def view_map_set split: option.splits prod.splits)
    (metis fst_conv view_rolesFor)+

lemma deleteRole_unknown:
  assumes "roles.view T S slug = None \<or> tenant_of T slug = None"
  shows "roles.view T (fst (deleteRole T S slug key now)) = roles.view T S"
    and "snd (deleteRole T S slug key now) = Inr (Inl roles_tenant_missing)"
proof -
  have "deleteRole T S slug key now = (fst (rolesFor T S slug), Inr (Inl roles_tenant_missing))"
    using assms by (subst deleteRole_def, subst rolesFor_eq) (auto split: option.split)
  then show "roles.view T (fst (deleteRole T S slug key now)) = roles.view T S"
    and "snd (deleteRole T S slug key now) = Inr (Inl roles_tenant_missing)" by simp_all
qed

section \<open>Runs\<close>

text \<open>The roles beside the tenants they belong to: creations, reads and deletions in any order.\<close>

datatype role_op = R_create CreateTenantInput instant | R_list string | R_delete string string instant

fun role_step :: "tenants \<times> role_store \<Rightarrow> role_op \<Rightarrow> tenants \<times> role_store" where
  "role_step (T, S) (R_create raw now) = (fst (createTenant T raw now), S)"
| "role_step (T, S) (R_list slug) = (T, fst (listRoles T S slug))"
| "role_step (T, S) (R_delete slug key now) = (T, fst (deleteRole T S slug key now))"

text \<open>
  What a stored list may be: the seed without some roles, none of which has tuples; and \<open>gone\<close>,
  the keys that are known to be deleted.
\<close>

definition kept_of :: "Role list \<Rightarrow> Role list \<Rightarrow> bool" where
  "kept_of seed items \<longleftrightarrow> (\<exists>keys. items = filter (\<lambda>r. ro_key r \<notin> keys) seed \<and> (\<forall>r \<in> set seed. 0 < ro_boundTuples r \<longrightarrow> ro_key r \<notin> keys))"

definition roles_inv :: "string \<Rightarrow> string set \<Rightarrow> tenants \<times> role_store \<Rightarrow> bool" where
  "roles_inv slug0 gone = (\<lambda>(T, S). tenants_wf T
     \<and> (\<forall>slug items. map_get S slug = Some items \<longrightarrow> (\<exists>seed. role_seed T slug = Some seed \<and> kept_of seed items))
     \<and> (gone \<noteq> {} \<longrightarrow> (\<exists>items. map_get S slug0 = Some items \<and> (\<forall>r \<in> set items. ro_key r \<notin> gone))))"

lemma roles_invD:
  "roles_inv slug0 gone (T, S) \<Longrightarrow> map_get S slug = Some items \<Longrightarrow> \<exists>seed. role_seed T slug = Some seed \<and> kept_of seed items"
  unfolding roles_inv_def by simp

lemma kept_of_refl: "kept_of seed seed"
  unfolding kept_of_def by (rule exI [of _ "{}"]) simp

lemma seed_keys_distinct: "role_seed T slug = Some seed \<Longrightarrow> distinct (map ro_key seed)"
  by (auto simp: role_seed_def acmeRoles_def genericRoles_def Let_def split: option.splits if_splits)

lemma kept_of_remove:
  assumes "kept_of seed items" "distinct (map ro_key seed)" "removable items key"
  shows "kept_of seed (filter (\<lambda>r. ro_key r \<noteq> key) items)"
proof -
  obtain keys where k: "items = filter (\<lambda>r. ro_key r \<notin> keys) seed" "\<forall>r \<in> set seed. 0 < ro_boundTuples r \<longrightarrow> ro_key r \<notin> keys"
    using assms(1) by (auto simp: kept_of_def)
  obtain r where "r \<in> set items" "ro_key r = key" "ro_boundTuples r \<le> 0"
    using assms(3) find_SomeD by (fastforce simp: removable_def split: option.splits)
  then have "r' = r" if "r' \<in> set seed" "ro_key r' = key" for r'
    using that k(1) assms(2) by (auto simp: distinct_map dest: inj_onD)
  then have "\<forall>r' \<in> set seed. 0 < ro_boundTuples r' \<longrightarrow> ro_key r' \<notin> insert key keys"
    using k(2) \<open>ro_boundTuples r \<le> 0\<close> by fastforce
  moreover have "filter (\<lambda>r. ro_key r \<noteq> key) items = filter (\<lambda>r. ro_key r \<notin> insert key keys) seed"
    by (auto simp: k(1) intro: filter_cong)
  ultimately show ?thesis unfolding kept_of_def by blast
qed

lemma role_seed_create:
  "tenants_wf T \<Longrightarrow> role_seed T slug = Some seed \<Longrightarrow> role_seed (fst (createTenant T raw now)) slug = Some seed"
  by (auto simp: role_seed_def tenant_of_createTenant split: option.splits)

text \<open>Seeding an entry keeps the invariant.\<close>

lemma rolesFor_inv:
  assumes "roles_inv slug0 gone (T, S)"
  shows "roles_inv slug0 gone (T, fst (rolesFor T S slug))"
  using assms by (auto simp: roles_inv_def rolesFor_def kept_of_refl split: option.splits)

lemma listRoles_fst: "fst (listRoles T S slug) = fst (rolesFor T S slug)"
  by (simp add: listRoles_def split: prod.split option.split)

lemma deleteRole_fst:
  "fst (deleteRole T S slug key now) =
     (case (roles.view T S slug, tenant_of T slug) of
        (Some items, Some t) \<Rightarrow>
          if removable items key then map_set (fst (rolesFor T S slug)) slug (filter (\<lambda>r. ro_key r \<noteq> key) items)
          else fst (rolesFor T S slug)
      | _ \<Rightarrow> fst (rolesFor T S slug))"
  by (subst deleteRole_def, subst rolesFor_eq) (auto simp: removable_def split: option.split)

lemma rolesFor_get: "roles.view T S slug = Some items \<Longrightarrow> map_get (fst (rolesFor T S slug)) slug = Some items"
  by (rule roles.peek_acquire) (simp add: roles.snd_acquire)

lemma deleteRole_inv:
  assumes "roles_inv slug0 gone (T, S)"
  shows "roles_inv slug0 gone (T, fst (deleteRole T S slug key now))"
proof -
  note inv = rolesFor_inv [OF assms, of slug]
  have "roles_inv slug0 gone (T, map_set (fst (rolesFor T S slug)) slug (filter (\<lambda>r. ro_key r \<noteq> key) items))"
    if v: "roles.view T S slug = Some items" "removable items key" for items
  proof -
    obtain seed where "role_seed T slug = Some seed" "kept_of seed items"
      using roles_invD [OF inv rolesFor_get [OF v(1)]] by blast
    then have "kept_of seed (filter (\<lambda>r. ro_key r \<noteq> key) items)" using v(2) by (simp add: kept_of_remove seed_keys_distinct)
    with inv \<open>role_seed T slug = Some seed\<close> rolesFor_get [OF v(1)] show ?thesis by (auto simp: roles_inv_def)
  qed
  with inv show ?thesis by (simp add: deleteRole_fst split: option.split)
qed

interpretation role_runs: transition_system role_step "roles_inv slug0 gone" for slug0 gone
proof
  fix s op
  assume inv: "roles_inv slug0 gone s"
  obtain T S where s: "s = (T, S)" by fastforce
  show "roles_inv slug0 gone (role_step s op)"
  proof (cases op)
    case (R_create raw now)
    have "tenants_wf T" using inv s by (simp add: roles_inv_def)
    then have "\<exists>seed. role_seed (fst (createTenant T raw now)) slug = Some seed \<and> kept_of seed items"
      if "map_get S slug = Some items" for slug items
      using roles_invD [OF inv [unfolded s] that] role_seed_create by blast
    with inv s R_create show ?thesis by (simp add: roles_inv_def createTenant_wf)
  next
    case (R_list slug)
    with inv s show ?thesis by (simp add: listRoles_fst rolesFor_inv)
  next
    case (R_delete slug key now)
    with inv s show ?thesis by (simp add: deleteRole_inv)
  qed
qed

lemma reach_inv: "roles_inv slug0 {} (run role_step (tenants_after rs, []) ops)"
  by (rule role_runs.run_inv) (simp add: roles_inv_def)

lemma reach_view:
  assumes "roles_inv slug0 gone (T, S)" "role_seed T slug = Some seed"
  shows "\<exists>items. roles.view T S slug = Some items \<and> kept_of seed items"
proof (cases "map_get S slug")
  case None
  then show ?thesis using assms(2) by (simp add: roles.view_def kept_of_refl)
next
  case (Some items)
  then show ?thesis using assms(2) roles_invD [OF assms(1) Some] by (simp add: roles.view_def)
qed

lemma seed_Some_iff: "role_seed T slug = None \<longleftrightarrow> tenant_of T slug = None"
  by (simp add: role_seed_def split: option.split)

lemma roles_wfD: "roles_inv slug0 gone (T, S) \<Longrightarrow> tenants_wf T"
  by (simp add: roles_inv_def)

lemma view_tenant:
  assumes "roles_inv slug0 gone (T, S)" "roles.view T S slug = Some items"
  obtains t where "tenant_of T slug = Some t"
  using assms roles_invD [OF assms(1)] that seed_Some_iff [of T slug]
  by (cases "map_get S slug") (fastforce simp: roles.view_def)+

section \<open>Which roles pass the schema\<close>

lemma role_keys_ok:
  "re_test ROLE_KEY ''tenant_admin''" "re_test ROLE_KEY ''tenant_viewer''" "re_test ROLE_KEY ''tenant_editor''"
  "re_test ROLE_KEY ''tenant_auditor''" "re_test ROLE_KEY ''tenant_legacy_ops''"
  by code_simp+

lemma acmeRoles_ok: "list_all RoleSchema_ok acmeRoles"
  by (simp add: acmeRoles_def RoleSchema_ok_def role_keys_ok)

lemma genericRoles_ok: "0 < g \<Longrightarrow> list_all RoleSchema_ok (genericRoles g users) \<longleftrightarrow> users \<noteq> 0"
  by (auto simp: genericRoles_def RoleSchema_ok_def role_keys_ok Let_def round_div_def)

lemma fixture_users: "0 < de_userCount (td_desired (tenantDetailFor s))"
  by (simp add: tenantDetailFor_def TenantSummary.defs TenantDetail.defs)

lemma role_seed_ok:
  assumes "tenants_wf T" "role_seed T slug = Some seed"
  shows "list_all RoleSchema_ok seed \<longleftrightarrow> map_get T slug = None"
proof -
  obtain t where t: "tenant_of T slug = Some t" using assms(2) by (auto simp: role_seed_def split: option.splits)
  have "0 < ts_generation t" using tenant_of_ok [OF assms(1) t] by (simp add: TenantDetailSchema_ok_def TenantSummarySchema_ok_def)
  then have g: "0 < (if ts_observedGeneration t \<noteq> 0 then ts_observedGeneration t else ts_generation t)" by simp
  show ?thesis
  proof (cases "map_get T slug")
    case (Some c)
    then have "findTenant slug = None" using created_okD [OF assms(1)] by (simp add: created_ok_def)
    then have "slug \<noteq> ''acme-air''" by (auto simp: findTenant_None TENANTS_slugs)
    with Some t g tenant_of_created [OF assms(1) Some] assms(2) show ?thesis
      by (auto simp: role_seed_def genericRoles_ok)
  next
    case None
    then obtain s where "t = tenantDetailFor s" using t by (auto simp: tenant_of_def tenantDetailFixture_def)
    with None t g assms(2) fixture_users [of s] show ?thesis by (auto simp: role_seed_def genericRoles_ok acmeRoles_ok)
  qed
qed

section \<open>Properties\<close>

text \<open>
  C16: no operation removes a role that is in use, and a removal sticks. In every reachable state
  a known tenant's matrix is its seed without some roles, none of which has a bound tuple. A
  deletion is accepted exactly when the role is listed with no bound tuple; it names the next
  generation and removes exactly that key, and whatever happens afterwards the key is never
  listed again and a second deletion answers 404. A refused deletion changes no matrix.
\<close>

theorem deleteRole_spec:
  assumes "run role_step (tenants_after rs, []) ops = (T, S)" and "tenant_of T slug = Some t"
  shows "\<exists>seed items. role_seed T slug = Some seed \<and> roles.view T S slug = Some items \<and> kept_of seed items
    \<and> (\<forall>key now. case deleteRole T S slug key now of (S', answer) \<Rightarrow>
        (if removable items key
         then answer = Inr (Inr \<lparr>rd_key = key, rd_generation = Suc (ts_generation t), rd_stagedAt = toISOString now\<rparr>)
           \<and> roles.view T S' = (roles.view T S)(slug \<mapsto> filter (\<lambda>r. ro_key r \<noteq> key) items)
           \<and> (\<forall>later. case run role_step (T, S') later of (T2, S2) \<Rightarrow>
                (\<exists>rest. roles.view T2 S2 slug = Some rest \<and> key \<notin> ro_key ` set rest)
                \<and> (\<forall>now2. snd (deleteRole T2 S2 slug key now2) = Inr (Inl (role_missing slug key))))
         else (\<exists>f. answer = Inr (Inl f)) \<and> roles.view T S' = roles.view T S))"
proof -
  have inv: "roles_inv slug {} (T, S)" using reach_inv [of slug rs ops] assms(1) by simp
  obtain seed where seed: "role_seed T slug = Some seed" using assms(2) seed_Some_iff by fastforce
  obtain items where items: "roles.view T S slug = Some items" "kept_of seed items" using reach_view [OF inv seed] by blast
  note del = deleteRole_view [OF items(1) assms(2)]
  have gone: "(\<exists>rest. roles.view T2 S2 slug = Some rest \<and> key \<notin> ro_key ` set rest)
      \<and> (\<forall>now2. snd (deleteRole T2 S2 slug key now2) = Inr (Inl (role_missing slug key)))"
    if "removable items key" "run role_step (T, fst (deleteRole T S slug key now)) later = (T2, S2)" for key now later T2 S2
  proof -
    have "roles_inv slug {key} (T, fst (deleteRole T S slug key now))"
      using deleteRole_inv [OF inv, of slug key now] that(1) items(1) assms(2) by (simp add: roles_inv_def deleteRole_fst)
    then have inv2: "roles_inv slug {key} (T2, S2)" using role_runs.run_inv that(2) by metis
    then obtain rest where rest: "map_get S2 slug = Some rest" "\<forall>r \<in> set rest. ro_key r \<noteq> key" by (auto simp: roles_inv_def)
    then have view: "roles.view T2 S2 slug = Some rest" by (simp add: roles.view_def)
    obtain t2 where "tenant_of T2 slug = Some t2" using view_tenant [OF inv2 view] .
    moreover have "List.find (\<lambda>r. ro_key r = key) rest = None" using rest(2) by (simp add: find_eq_None)
    ultimately show ?thesis using rest(2) view deleteRole_view(2) [OF view] by auto
  qed
  have accepted: "snd (deleteRole T S slug key now) = Inr (Inr \<lparr>rd_key = key, rd_generation = Suc (ts_generation t), rd_stagedAt = toISOString now\<rparr>)"
    if "removable items key" for key now using that del(2) by (auto simp: removable_def split: option.splits)
  have refused: "\<exists>f. snd (deleteRole T S slug key now) = Inr (Inl f)" if "\<not> removable items key" for key now
    using that del(2) by (auto simp: removable_def split: option.splits)
  show ?thesis using seed items del(1) gone accepted refused
    by (intro exI [of _ seed] exI [of _ items]) (auto simp: case_prod_unfold)
qed

lemma acme_role_tenant: "tenant_of [] ''acme-air'' \<noteq> None"
  by (simp add: tenant_of_def tenantDetailFixture_def findTenant_def TENANTS_def fixture_tenant_def)

theorem deleteRole_spec_witness:
  "(\<exists>r. snd (deleteRole [] [] ''acme-air'' ''tenant_legacy_ops'' 0) = Inr (Inr r))
   \<and> (\<exists>f. snd (deleteRole [] [] ''acme-air'' ''tenant_admin'' 0) = Inr (Inl f))
   \<and> snd (deleteRole [] (fst (deleteRole [] [] ''acme-air'' ''tenant_legacy_ops'' 0)) ''acme-air'' ''tenant_legacy_ops'' 1)
       = Inr (Inl (role_missing ''acme-air'' ''tenant_legacy_ops''))"
proof -
  obtain t where t: "tenant_of [] ''acme-air'' = Some t" using acme_role_tenant by auto
  have start: "run role_step (tenants_after [], []) [] = ([], [])" by (simp add: tenants_after_def)
  from deleteRole_spec [OF start t] obtain seed items where "role_seed [] ''acme-air'' = Some seed"
      and view: "roles.view [] [] ''acme-air'' = Some items"
      and del: "\<forall>key now. case deleteRole [] [] ''acme-air'' key now of (S', answer) \<Rightarrow>
        (if removable items key
         then answer = Inr (Inr \<lparr>rd_key = key, rd_generation = Suc (ts_generation t), rd_stagedAt = toISOString now\<rparr>)
           \<and> roles.view [] S' = (roles.view [] [])(''acme-air'' \<mapsto> filter (\<lambda>r. ro_key r \<noteq> key) items)
           \<and> (\<forall>later. case run role_step ([], S') later of (T2, S2) \<Rightarrow>
                (\<exists>rest. roles.view T2 S2 ''acme-air'' = Some rest \<and> key \<notin> ro_key ` set rest)
                \<and> (\<forall>now2. snd (deleteRole T2 S2 ''acme-air'' key now2) = Inr (Inl (role_missing ''acme-air'' key))))
         else (\<exists>f. answer = Inr (Inl f)) \<and> roles.view [] S' = roles.view [] [])"
    by blast
  have "items = acmeRoles" using view t by (simp add: roles.view_def role_seed_def)
  then have "removable items ''tenant_legacy_ops''" "\<not> removable items ''tenant_admin''"
    by (simp_all add: removable_def acmeRoles_def)
  then show ?thesis
    using del [rule_format, of "''tenant_legacy_ops''" 0] del [rule_format, of "''tenant_admin''" 0]
    by (auto simp: case_prod_unfold dest: spec [of _ "[]"])
qed

text \<open>
  Which matrices can be read. In a fresh store, listing the roles of a slug answers null for an
  unknown slug, the seed for a canonical tenant, and throws for every tenant created in the
  console: it has no users, one of them counts as an administrator, and the viewers are -1.
\<close>

theorem listRoles_fresh:
  "snd (listRoles (tenants_after rs) [] slug) =
     (case tenant_of (tenants_after rs) slug of
        None \<Rightarrow> Inr None
      | Some t \<Rightarrow>
          if map_get (tenants_after rs) slug = None
          then Inr (Some \<lparr>rr_slug = slug, rr_items = the (role_seed (tenants_after rs) slug), rr_specGeneration = ts_generation t\<rparr>)
          else Inl ZodError)"
proof (cases "tenant_of (tenants_after rs) slug")
  case None
  then show ?thesis by (simp add: listRoles_view split: option.split)
next
  case (Some t)
  then obtain seed where seed: "role_seed (tenants_after rs) slug = Some seed" using seed_Some_iff by fastforce
  have "0 < ts_generation t"
    using tenant_of_ok [OF tenants_after_wf Some] by (simp add: TenantDetailSchema_ok_def TenantSummarySchema_ok_def)
  moreover have "roles.view (tenants_after rs) [] slug = Some seed" by (simp add: roles.view_def seed)
  ultimately show ?thesis using Some seed role_seed_ok [OF tenants_after_wf seed]
    by (simp add: listRoles_view parse_with_def RolesResponseSchema_ok_def)
qed

end
