(* ===== verification/Users.thy ===== *)
theory Users
  imports Tenants Paging
begin

text \<open>
  The user mirror of a tenant (\<^verbatim>\<open>features/users\<close>): a read-only listing with search and cursors, the
  refresh that stamps the mirror, and invitations, of which the process remembers the addresses.
\<close>

section \<open>Schemas\<close>

datatype UserRoleState = Applied_role | Staged_role | Drift_role

record UserRole =
  ur_name :: string
  ur_state :: UserRoleState

datatype UserState = Active_user | Unmanaged_user

record UserRecord =
  us_id :: string
  us_subject :: string
  us_name :: "string option"
  us_email :: string
  us_roles :: "UserRole list"
  us_tupleCount :: nat
  us_pendingDeletes :: nat
  us_state :: UserState
  us_lastSeenAt :: "string option"

record UsersFilter =
  uf_q :: "string option"

text \<open>\<^verbatim>\<open>parseUsersFilter\<close>; a repeated parameter (an array) counts as none.\<close>

definition parseUsersFilter :: "string option \<Rightarrow> UsersFilter" where
  "parseUsersFilter raw =
     (let q = (case raw of Some s \<Rightarrow> trim s | None \<Rightarrow> [])
      in \<lparr>uf_q = (if q \<noteq> [] then Some q else None)\<rparr>)"

definition USERS_PAGE_SIZE :: nat where
  "USERS_PAGE_SIZE = 8"

record UsersPage =
  up_items :: "UserRecord list"
  up_nextCursor :: "string option"
  up_total :: nat
  up_userCount :: nat
  up_lastRefreshedAt :: string
  up_lastRefreshRunId :: "string option"
  up_asOf :: string
  up_stagedGeneration :: nat
  up_inviteRoles :: "string list"

definition UsersPageSchema_ok :: "UsersPage \<Rightarrow> bool" where
  "UsersPageSchema_ok p \<longleftrightarrow> 0 < up_stagedGeneration p \<and> up_lastRefreshRunId p \<noteq> None"

record RefreshResult =
  rf_runId :: "string option"
  rf_enqueuedAt :: string

definition RefreshResultSchema_ok :: "RefreshResult \<Rightarrow> bool" where
  "RefreshResultSchema_ok r \<longleftrightarrow> rf_runId r \<noteq> None"

record InviteRequest =
  iv_email :: string
  iv_role :: string

text \<open>\<^verbatim>\<open>InviteRequestSchema.parse\<close>. The address syntax is the schema library's, an argument.\<close>

definition InviteRequestSchema_parse :: "(string \<Rightarrow> bool) \<Rightarrow> InviteRequest \<Rightarrow> InviteRequest throws" where
  "InviteRequestSchema_parse is_email raw =
     (let request = raw\<lparr>iv_role := trim (iv_role raw)\<rparr>
      in if is_email (iv_email request) \<and> length (iv_email request) \<le> 254
            \<and> 1 \<le> length (iv_role request) \<and> length (iv_role request) \<le> 64
         then Inr request else Inl ZodError)"

record InviteResult =
  iv_inviteId :: string
  iv_to :: string
  iv_granted :: string
  iv_expiresAt :: string

section \<open>Fixtures\<close>

record UserSeed =
  sd_first :: string
  sd_last :: string
  sd_roles :: "UserRole list"
  sd_tuples :: nat
  sd_pendingDeletes :: nat
  sd_lastSeenMinutesAgo :: "nat option"

definition applied :: "string \<Rightarrow> UserRole" where
  "applied name = \<lparr>ur_name = name, ur_state = Applied_role\<rparr>"

abbreviation user_seed :: "string \<Rightarrow> string \<Rightarrow> UserRole \<Rightarrow> nat \<Rightarrow> nat option \<Rightarrow> UserSeed" where
  "user_seed given family r n seen \<equiv>
     \<lparr>sd_first = given, sd_last = family, sd_roles = [r], sd_tuples = n, sd_pendingDeletes = 0, sd_lastSeenMinutesAgo = seen\<rparr>"

definition ACME_USER_SEEDS :: "UserSeed list" where
  "ACME_USER_SEEDS =
     [user_seed ''Ana'' ''Ruiz'' (applied ''tenant_admin'') 6 (Some 4),
      user_seed ''Mira'' ''Banerjee'' \<lparr>ur_name = ''tenant_auditor'', ur_state = Staged_role\<rparr> 2 (Some 41),
      (user_seed ''Dana'' ''Lopez'' (applied ''tenant_viewer'') 1 (Some 130))\<lparr>sd_pendingDeletes := 1\<rparr>,
      user_seed ''Lee'' ''Okafor'' (applied ''tenant_editor'') 4 (Some 9),
      user_seed ''Priya'' ''Natarajan'' (applied ''tenant_editor'') 3 (Some 22),
      user_seed ''Tomas'' ''Berg'' (applied ''tenant_viewer'') 1 (Some 600),
      user_seed ''Yuki'' ''Tanaka'' (applied ''tenant_viewer'') 2 (Some 75),
      user_seed ''Sofia'' ''Marino'' (applied ''tenant_admin'') 5 (Some 1),
      user_seed ''Omar'' ''Haddad'' (applied ''tenant_editor'') 3 (Some 300),
      user_seed ''Ingrid'' ''Solberg'' (applied ''tenant_viewer'') 1 (Some 1440),
      user_seed ''Kwame'' ''Mensah'' (applied ''tenant_viewer'') 2 (Some 55),
      user_seed ''Elena'' ''Petrova'' (applied ''tenant_editor'') 2 (Some 12),
      user_seed ''Ravi'' ''Iyer'' (applied ''tenant_viewer'') 1 (Some 2880),
      user_seed ''Chloe'' ''Dubois'' (applied ''tenant_viewer'') 0 None,
      user_seed ''Mateo'' ''Silva'' (applied ''tenant_editor'') 3 (Some 30)]"

text \<open>
  \<^verbatim>\<open>normalize("NFD")\<close> and the removal of the combining marks it leaves, on the code units 0 to 255: the accented
  letters become their base letter.
\<close>

definition nfd_base :: "char \<Rightarrow> char" where
  "nfd_base c =
     (let n = code c; m = (if 224 \<le> n then n - 32 else n); shift = (if 224 \<le> n then 32 else 0 :: nat)
      in if 192 \<le> m \<and> m \<le> 197 then char_of (65 + shift)
         else if m = 199 then char_of (67 + shift)
         else if 200 \<le> m \<and> m \<le> 203 then char_of (69 + shift)
         else if 204 \<le> m \<and> m \<le> 207 then char_of (73 + shift)
         else if m = 209 then char_of (78 + shift)
         else if 210 \<le> m \<and> m \<le> 214 then char_of (79 + shift)
         else if 217 \<le> m \<and> m \<le> 220 then char_of (85 + shift)
         else if m = 221 \<or> n = 255 then char_of (89 + shift)
         else c)"

definition slugify :: "string \<Rightarrow> string" where
  "slugify s =
     (let t = collapse_runs (map nfd_base (toLowerCase s));
          u = (if startsWith t ''-'' then drop 1 t else t)
      in if endsWith u ''-'' then butlast u else u)"

definition user_record :: "UserSeed \<Rightarrow> string \<Rightarrow> instant \<Rightarrow> UserRecord" where
  "user_record seed domain now =
     (let given = slugify (sd_first seed); family = slugify (sd_last seed)
      in \<lparr>us_id = ''usr_'' @ given @ ''_'' @ family, us_subject = ''user:'' @ given,
          us_name = Some (sd_first seed @ '' '' @ sd_last seed), us_email = given @ ''.'' @ family @ ''@'' @ domain,
          us_roles = sd_roles seed, us_tupleCount = sd_tuples seed, us_pendingDeletes = sd_pendingDeletes seed,
          us_state = Active_user,
          us_lastSeenAt = map_option (\<lambda>m. toISOString (now - m * 60000)) (sd_lastSeenMinutesAgo seed)\<rparr>)"

definition externalAuditor :: "instant \<Rightarrow> UserRecord" where
  "externalAuditor now =
     \<lparr>us_id = ''usr_ext_audit'', us_subject = ''user:ext-audit'', us_name = None, us_email = ''ext-audit@vendor.test'',
      us_roles = [\<lparr>ur_name = ''admin'', ur_state = Drift_role\<rparr>], us_tupleCount = 1, us_pendingDeletes = 0,
      us_state = Unmanaged_user, us_lastSeenAt = Some (toISOString (now - 6 * 60000))\<rparr>"

text \<open>The external subject is shown after the first three rows.\<close>

definition acmeUsers :: "instant \<Rightarrow> UserRecord list" where
  "acmeUsers t =
     (let rows = map (\<lambda>s. user_record s ''acme-air.test'' t) ACME_USER_SEEDS
      in take 3 rows @ [externalAuditor t] @ drop 3 rows)"

definition GENERIC_USER_SEEDS :: "UserSeed list" where
  "GENERIC_USER_SEEDS =
     [user_seed ''Noor'' ''Rahman'' (applied ''tenant_admin'') 4 (Some 8),
      user_seed ''Felix'' ''Brandt'' (applied ''tenant_viewer'') 1 (Some 90),
      user_seed ''Aisha'' ''Bello'' (applied ''tenant_viewer'') 2 (Some 15),
      user_seed ''Hugo'' ''Lindqvist'' (applied ''tenant_viewer'') 1 (Some 400),
      user_seed ''Leila'' ''Farahani'' (applied ''tenant_viewer'') 1 (Some 60)]"

text \<open>\<^verbatim>\<open>Math.ceil(userCount / 12)\<close> rows, at least one and at most five.\<close>

definition genericUsers :: "TenantDetail \<Rightarrow> instant \<Rightarrow> UserRecord list" where
  "genericUsers tenant t =
     (let count = min (length GENERIC_USER_SEEDS) (max 1 ((de_userCount (td_desired tenant) + 11) div 12))
      in map (\<lambda>s. user_record s (ts_slug tenant @ ''.test'') t) (take count GENERIC_USER_SEEDS))"

definition usersFor :: "TenantDetail \<Rightarrow> instant \<Rightarrow> UserRecord list" where
  "usersFor tenant now = (if ts_slug tenant = ''acme-air'' then acmeUsers now else genericUsers tenant now)"

section \<open>Operations\<close>

record MirrorState =
  ms_lastRefreshedAt :: string
  ms_lastRefreshRunId :: "string option"
  ms_invited :: "string list"

type_synonym mirror = "(string, MirrorState) jsmap"

text \<open>\<^verbatim>\<open>hex12\<close>: rounds of FNV-1a over the seed and the round number until there are twelve digits.\<close>

function hex12_rounds :: "string \<Rightarrow> 32 word \<Rightarrow> string \<Rightarrow> nat \<Rightarrow> string" where
  "hex12_rounds seed h out round =
     (if length out < 12
      then let h' = foldl fnv_step h (seed @ '':'' @ show_nat round) in hex12_rounds seed h' (out @ hex8 h') (Suc round)
      else take 12 out)"
  by pat_completeness auto
termination
  by (relation "measure (\<lambda>(seed, h, out, round). 12 - length out)") auto

declare hex12_rounds.simps [simp del]

definition hex12 :: "string \<Rightarrow> string" where
  "hex12 seed = hex12_rounds seed 0x811c9dc5 [] 0"

text \<open>
  \<^verbatim>\<open>RESYNC_RUNS[slug] ?? hex12(...)\<close>. The object has two own keys; the only name it inherits that is a
  valid slug is \<^verbatim>\<open>constructor\<close>, for which the lookup answers a function. \<open>None\<close> stands for that value.
\<close>

definition RESYNC_RUNS :: "string \<Rightarrow> string option" where
  "RESYNC_RUNS slug =
     (if slug = ''acme-air'' then Some ''71a0c3d9e5f2''
      else if slug = ''globex-logistics'' then Some ''a7d30f5c81e9''
      else if slug = ''constructor'' then None
      else Some (hex12 (slug @ '':resync'')))"

definition fresh_mirror :: "string \<Rightarrow> MirrorState" where
  "fresh_mirror slug =
     \<lparr>ms_lastRefreshedAt = toISOString (T0 - 3 * 60000),
      ms_lastRefreshRunId = RESYNC_RUNS slug,
      ms_invited = []\<rparr>"

definition stateFor_users :: "mirror \<Rightarrow> string \<Rightarrow> mirror \<times> MirrorState" where
  "stateFor_users S slug =
     (case map_get S slug of
        Some existing \<Rightarrow> (S, existing)
      | None \<Rightarrow> (map_set S slug (fresh_mirror slug), fresh_mirror slug))"

definition matches_user :: "UserRecord \<Rightarrow> string option \<Rightarrow> bool" where
  "matches_user u q =
     (case q of
        None \<Rightarrow> True
      | Some s \<Rightarrow>
          s = [] \<or>
          (let needle = toLowerCase s
           in includes_str (toLowerCase (us_email u)) needle \<or> includes_str (toLowerCase (us_subject u)) needle
              \<or> (case us_name u of None \<Rightarrow> False | Some n \<Rightarrow> includes_str (toLowerCase n) needle)))"

text \<open>\<^verbatim>\<open>r.replace(/\*$/, "")\<close>.\<close>

definition specRoles :: "string list \<Rightarrow> string list" where
  "specRoles roles = map (\<lambda>r. if endsWith r ''*'' then butlast r else r) roles"

definition user_rows :: "TenantDetail \<Rightarrow> UsersFilter \<Rightarrow> UserRecord list" where
  "user_rows tenant filter' = filter (\<lambda>u. matches_user u (uf_q filter')) (usersFor tenant T0)"

definition listUsers :: "tenants \<Rightarrow> mirror \<Rightarrow> string \<Rightarrow> UsersFilter \<Rightarrow> string option \<Rightarrow> nat \<Rightarrow> mirror \<times> UsersPage option throws" where
  "listUsers T S slug filter' cursor limit =
     (case tenant_of T slug of
        None \<Rightarrow> (S, Inr None)
      | Some tenant \<Rightarrow>
          (let filtered = user_rows tenant filter';
               offset = cursor_offset cursor;
               items = slice offset (offset + limit) filtered;
               stop = offset + length items;
               (S', state) = stateFor_users S slug
           in (S', map_sum id Some (parse_with UsersPageSchema_ok
                 \<lparr>up_items = items,
                  up_nextCursor = (if stop < length filtered then Some (offset_cursor stop) else None),
                  up_total = (if truthy (uf_q filter') then length filtered else de_userCount (td_desired tenant)),
                  up_userCount = de_userCount (td_desired tenant),
                  up_lastRefreshedAt = ms_lastRefreshedAt state, up_lastRefreshRunId = ms_lastRefreshRunId state,
                  up_asOf = FIXTURE_NOW, up_stagedGeneration = Suc (ts_generation tenant),
                  up_inviteRoles = specRoles (de_roles (td_desired tenant))\<rparr>))))"

definition users_tenant_missing :: failure where
  "users_tenant_missing = \<lparr>f_status = 404, f_title = ''Tenant not found'', f_detail = None\<rparr>"

definition refreshUsers :: "tenants \<Rightarrow> mirror \<Rightarrow> string \<Rightarrow> instant \<Rightarrow> mirror \<times> RefreshResult result throws" where
  "refreshUsers T S slug now =
     (case tenant_of T slug of
        None \<Rightarrow> (S, Inr (Inl users_tenant_missing))
      | Some tenant \<Rightarrow>
          (let (S', state) = stateFor_users S slug
           in (map_set S' slug (state\<lparr>ms_lastRefreshedAt := toISOString now\<rparr>),
               map_sum id Inr (parse_with RefreshResultSchema_ok
                 \<lparr>rf_runId = ms_lastRefreshRunId state, rf_enqueuedAt = toISOString now\<rparr>))))"

definition unknown_role :: "string \<Rightarrow> string list \<Rightarrow> string \<Rightarrow> failure" where
  "unknown_role slug roles role =
     \<lparr>f_status = 422, f_title = ''Unknown role'',
      f_detail = Some (role @ '' is not declared in the spec for '' @ slug @ ''. Roles: '' @ join '', '' roles @ ''.'')\<rparr>"

definition already_member :: "string \<Rightarrow> failure" where
  "already_member email =
     \<lparr>f_status = 409, f_title = ''Already a member'', f_detail = Some (email @ '' is already in the mirror or has a pending invite.'')\<rparr>"

definition inviteUser :: "tenants \<Rightarrow> mirror \<Rightarrow> string \<Rightarrow> InviteRequest \<Rightarrow> instant \<Rightarrow> mirror \<times> InviteResult result" where
  "inviteUser T S slug request now =
     (case tenant_of T slug of
        None \<Rightarrow> (S, Inl users_tenant_missing)
      | Some tenant \<Rightarrow>
          (let roles = specRoles (de_roles (td_desired tenant))
           in if iv_role request \<notin> set roles then (S, Inl (unknown_role slug roles (iv_role request)))
              else
                (let email = toLowerCase (iv_email request);
                     (S', state) = stateFor_users S slug
                 in if list_ex (\<lambda>u. toLowerCase (us_email u) = email) (usersFor tenant T0) \<or> email \<in> set (ms_invited state)
                    then (S', Inl (already_member email))
                    else (map_set S' slug (state\<lparr>ms_invited := ms_invited state @ [email]\<rparr>),
                          Inr \<lparr>iv_inviteId = ''inv_'' @ hex12 (slug @ '':'' @ email), iv_to = email,
                               iv_granted = iv_role request,
                               iv_expiresAt = toISOString (now + 7 * 24 * 60 * 60000)\<rparr>))))"

definition resetUsersStore :: "mirror \<Rightarrow> mirror" where
  "resetUsersStore S = []"

section \<open>The store contract\<close>

definition acquire_mirror :: "mirror \<Rightarrow> string \<Rightarrow> mirror \<times> MirrorState option" where
  "acquire_mirror S slug = (fst (stateFor_users S slug), Some (snd (stateFor_users S slug)))"

interpretation mirrors: lazy_store acquire_mirror map_get "\<lambda>slug. Some (fresh_mirror slug)"
  by unfold_locales (auto simp: acquire_mirror_def stateFor_users_def split: option.splits)

text \<open>What every caller sees of a tenant's mirror state; it always exists.\<close>

definition mirror_of :: "mirror \<Rightarrow> string \<Rightarrow> MirrorState" where
  "mirror_of S slug = the (mirrors.view S slug)"

lemma stateFor_users_view: "stateFor_users S slug = (fst (stateFor_users S slug), mirror_of S slug)"
  using mirrors.snd_acquire [of S slug] by (simp add: mirror_of_def acquire_mirror_def prod_eq_iff) (metis option.sel)

lemma mirror_of_stateFor [simp]: "mirror_of (fst (stateFor_users S slug)) k = mirror_of S k"
  using mirrors.view_acquire [of S slug k] by (simp add: mirror_of_def acquire_mirror_def)

lemma mirror_of_set [simp]: "mirror_of (map_set S slug v) k = (if k = slug then v else mirror_of S k)"
  by (simp add: mirror_of_def mirrors.view_def)

section \<open>Identifiers\<close>

lemma hex12_step:
  "length out < 12 \<Longrightarrow> hex12_rounds seed h out round =
     (let h' = foldl fnv_step h (seed @ '':'' @ show_nat round) in hex12_rounds seed h' (out @ hex8 h') (Suc round))"
  by (subst hex12_rounds.simps) simp

lemma hex12_stop: "12 \<le> length out \<Longrightarrow> hex12_rounds seed h out round = take 12 out"
  by (subst hex12_rounds.simps) simp

text \<open>Two rounds are always enough, so a run id has twelve hexadecimal digits.\<close>

lemma hex12_digits: "hex_n 12 (hex12 seed)"
proof -
  have "\<exists>a b. hex12 seed = take 12 (hex8 a @ hex8 b)"
    by (simp add: hex12_def hex12_step hex12_stop Let_def) blast
  moreover have "hex_n 12 (take 12 (hex8 a @ hex8 b))" for a b
    using hex_n_append [OF hex_n_hex8 hex_n_hex8, of a b] by (rule hex_n_take) simp
  ultimately show ?thesis by metis
qed

section \<open>Listing\<close>

lemma listUsers_view:
  assumes "tenant_of T slug = Some tenant" "ms_lastRefreshRunId (mirror_of S slug) \<noteq> None"
  shows "snd (listUsers T S slug f cursor limit) = Inr (Some
      \<lparr>up_items = fst (offset_page (user_rows tenant f) limit cursor),
       up_nextCursor = snd (offset_page (user_rows tenant f) limit cursor),
       up_total = (if truthy (uf_q f) then length (user_rows tenant f) else de_userCount (td_desired tenant)),
       up_userCount = de_userCount (td_desired tenant),
       up_lastRefreshedAt = ms_lastRefreshedAt (mirror_of S slug), up_lastRefreshRunId = ms_lastRefreshRunId (mirror_of S slug),
       up_asOf = FIXTURE_NOW, up_stagedGeneration = Suc (ts_generation tenant),
       up_inviteRoles = specRoles (de_roles (td_desired tenant))\<rparr>)"
  by (subst listUsers_def, subst stateFor_users_view) (use assms in \<open>simp add: offset_page_def Let_def UsersPageSchema_ok_def\<close>)

lemma mirror_of_listUsers [simp]: "mirror_of (fst (listUsers T S slug f cursor limit)) k = mirror_of S k"
  by (simp add: listUsers_def Let_def case_prod_unfold split: option.split)

text \<open>The rows and the cursor of a page, as the browser takes them.\<close>

definition user_page :: "tenants \<Rightarrow> mirror \<Rightarrow> string \<Rightarrow> UsersFilter \<Rightarrow> nat \<Rightarrow> string option \<Rightarrow> UserRecord list \<times> string option" where
  "user_page T S slug f limit cursor =
     (case snd (listUsers T S slug f cursor limit) of
        Inr (Some p) \<Rightarrow> (up_items p, up_nextCursor p)
      | _ \<Rightarrow> ([], None))"

lemma user_page_eq:
  assumes "tenant_of T slug = Some tenant" "ms_lastRefreshRunId (mirror_of S slug) \<noteq> None"
  shows "user_page T S slug f limit cur = offset_page (user_rows tenant f) limit cur"
  by (simp add: user_page_def listUsers_view [OF assms])

lemma user_pager:
  assumes "tenant_of T slug = Some tenant" "ms_lastRefreshRunId (mirror_of S slug) \<noteq> None" "0 < limit"
  shows "offset_pager (user_page T S slug f limit) (user_rows tenant f) limit"
  by unfold_locales (simp_all add: assms user_page_eq)

section \<open>Invitations\<close>

definition member :: "TenantDetail \<Rightarrow> string \<Rightarrow> bool" where
  "member tenant email \<longleftrightarrow> list_ex (\<lambda>u. toLowerCase (us_email u) = email) (usersFor tenant T0)"

definition invitable :: "TenantDetail \<Rightarrow> mirror \<Rightarrow> string \<Rightarrow> InviteRequest \<Rightarrow> bool" where
  "invitable tenant S slug request \<longleftrightarrow>
     iv_role request \<in> set (specRoles (de_roles (td_desired tenant)))
     \<and> \<not> member tenant (toLowerCase (iv_email request))
     \<and> toLowerCase (iv_email request) \<notin> set (ms_invited (mirror_of S slug))"

text \<open>The whole operation as a function of what the caller sees.\<close>

lemma inviteUser_view:
  assumes "tenant_of T slug = Some tenant"
  shows "mirror_of (fst (inviteUser T S slug request now)) =
      (if invitable tenant S slug request
       then (mirror_of S)(slug := (mirror_of S slug)\<lparr>ms_invited := ms_invited (mirror_of S slug) @ [toLowerCase (iv_email request)]\<rparr>)
       else mirror_of S)"
    and "snd (inviteUser T S slug request now) =
      (if iv_role request \<notin> set (specRoles (de_roles (td_desired tenant)))
       then Inl (unknown_role slug (specRoles (de_roles (td_desired tenant))) (iv_role request))
       else if invitable tenant S slug request
       then Inr \<lparr>iv_inviteId = ''inv_'' @ hex12 (slug @ '':'' @ toLowerCase (iv_email request)), iv_to = toLowerCase (iv_email request),
                 iv_granted = iv_role request, iv_expiresAt = toISOString (now + 7 * 24 * 60 * 60000)\<rparr>
       else Inl (already_member (toLowerCase (iv_email request))))"
  unfolding inviteUser_def by (subst stateFor_users_view, auto simp: assms invitable_def member_def Let_def)+

lemma inviteUser_unknown: "tenant_of T slug = None \<Longrightarrow> inviteUser T S slug request now = (S, Inl users_tenant_missing)"
  by (simp add: inviteUser_def)

lemma refreshUsers_view:
  assumes "tenant_of T slug = Some tenant"
  shows "mirror_of (fst (refreshUsers T S slug now)) =
      (mirror_of S)(slug := (mirror_of S slug)\<lparr>ms_lastRefreshedAt := toISOString now\<rparr>)"
    and "snd (refreshUsers T S slug now) = map_sum id Inr (parse_with RefreshResultSchema_ok
      \<lparr>rf_runId = ms_lastRefreshRunId (mirror_of S slug), rf_enqueuedAt = toISOString now\<rparr>)"
  unfolding refreshUsers_def by (subst stateFor_users_view, simp add: assms fun_eq_iff)+

datatype user_op = U_create CreateTenantInput instant | U_list string UsersFilter "string option" nat
  | U_refresh string instant | U_invite string InviteRequest instant

fun user_step :: "tenants \<times> mirror \<Rightarrow> user_op \<Rightarrow> tenants \<times> mirror" where
  "user_step (T, S) (U_create raw now) = (fst (createTenant T raw now), S)"
| "user_step (T, S) (U_list slug f cur n) = (T, fst (listUsers T S slug f cur n))"
| "user_step (T, S) (U_refresh slug now) = (T, fst (refreshUsers T S slug now))"
| "user_step (T, S) (U_invite slug request now) = (T, fst (inviteUser T S slug request now))"

definition pending :: "mirror \<Rightarrow> string \<Rightarrow> string set" where
  "pending S slug = set (ms_invited (mirror_of S slug))"

definition outsider :: "tenants \<Rightarrow> string \<Rightarrow> string \<Rightarrow> bool" where
  "outsider T slug email \<longleftrightarrow> (case tenant_of T slug of None \<Rightarrow> False | Some tenant \<Rightarrow> \<not> member tenant email)"

definition users_inv :: "string \<Rightarrow> string set \<Rightarrow> tenants \<times> mirror \<Rightarrow> bool" where
  "users_inv slug0 sent = (\<lambda>(T, S). tenants_wf T \<and> sent \<subseteq> pending S slug0
     \<and> (\<forall>slug. ms_lastRefreshRunId (mirror_of S slug) = RESYNC_RUNS slug)
     \<and> (\<forall>slug. distinct (ms_invited (mirror_of S slug)))
     \<and> (\<forall>slug email. email \<in> pending S slug \<longrightarrow>
          toLowerCase email = email \<and> outsider T slug email))"

lemma outsider_known [simp]: "tenant_of T slug = Some tenant \<Longrightarrow> outsider T slug email \<longleftrightarrow> \<not> member tenant email"
  by (simp add: outsider_def)

lemma outsiderD: "outsider T slug email \<Longrightarrow> \<exists>tenant. tenant_of T slug = Some tenant \<and> \<not> member tenant email"
  by (auto simp: outsider_def split: option.splits)

lemma users_invD: "users_inv slug0 sent (T, S) \<Longrightarrow> email \<in> pending S slug \<Longrightarrow> outsider T slug email"
  by (simp add: users_inv_def)

lemma users_inv_invite:
  assumes "users_inv slug0 sent (T, S)"
  shows "users_inv slug0 sent (T, fst (inviteUser T S slug request now))"
proof (cases "tenant_of T slug")
  case None
  then show ?thesis using assms by (simp add: inviteUser_unknown)
next
  case (Some tenant)
  have m: "mirror_of (fst (inviteUser T S slug request now)) =
      (if invitable tenant S slug request
       then (mirror_of S)(slug := (mirror_of S slug)\<lparr>ms_invited := ms_invited (mirror_of S slug) @ [toLowerCase (iv_email request)]\<rparr>)
       else mirror_of S)"
    by (rule inviteUser_view [OF Some])
  have "outsider T slug (toLowerCase (iv_email request))" if "invitable tenant S slug request"
    using that Some by (simp add: invitable_def)
  then show ?thesis using assms by (simp add: users_inv_def pending_def m) (auto simp: invitable_def)
qed

lemma users_inv_same:
  "users_inv slug0 sent (T, S) \<Longrightarrow> (\<And>k. ms_invited (mirror_of S' k) = ms_invited (mirror_of S k)) \<Longrightarrow>
     (\<And>k. ms_lastRefreshRunId (mirror_of S' k) = ms_lastRefreshRunId (mirror_of S k)) \<Longrightarrow> users_inv slug0 sent (T, S')"
  by (simp add: users_inv_def pending_def)

lemma users_inv_create:
  assumes "users_inv slug0 sent (T, S)"
  shows "users_inv slug0 sent (fst (createTenant T raw now), S)"
proof -
  have wf: "tenants_wf T" using assms by (simp add: users_inv_def)
  have "outsider (fst (createTenant T raw now)) slug email" if "email \<in> pending S slug" for slug email
    using outsiderD [OF users_invD [OF assms that]] tenant_of_createTenant [OF wf, of slug] by fastforce
  with assms show ?thesis by (simp add: users_inv_def createTenant_wf)
qed

interpretation user_runs: transition_system user_step "users_inv slug0 sent" for slug0 sent
proof
  fix s op
  assume inv: "users_inv slug0 sent s"
  obtain T S where s: "s = (T, S)" by fastforce
  show "users_inv slug0 sent (user_step s op)"
  proof (cases op)
    case (U_create raw now)
    with inv s show ?thesis by (simp add: users_inv_create)
  next
    case (U_list slug f cur n)
    with inv s show ?thesis by (auto intro: users_inv_same)
  next
    case (U_refresh slug now)
    have "ms_invited (mirror_of (fst (refreshUsers T S slug now)) k) = ms_invited (mirror_of S k)
        \<and> ms_lastRefreshRunId (mirror_of (fst (refreshUsers T S slug now)) k) = ms_lastRefreshRunId (mirror_of S k)" for k
    proof (cases "tenant_of T slug")
      case None
      then show ?thesis by (simp add: refreshUsers_def)
    next
      case (Some tenant)
      then show ?thesis by (simp add: refreshUsers_view(1) [OF Some])
    qed
    with inv s U_refresh show ?thesis by (auto intro: users_inv_same)
  next
    case (U_invite slug request now)
    with inv s show ?thesis by (simp add: users_inv_invite)
  qed
qed

lemma mirror_of_Nil: "mirror_of [] slug = fresh_mirror slug"
  unfolding mirror_of_def mirrors.view_def by simp

lemma users_start: "users_inv slug0 {} (tenants_after rs, [])"
  by (simp add: users_inv_def pending_def mirror_of_Nil fresh_mirror_def)

section \<open>Properties\<close>

text \<open>
  C35: an address is invited at most once. In every reachable state an invitation is accepted
  exactly when the role is declared in the spec and the address, whatever its letter case, is
  neither in the mirror nor pending; then exactly that address becomes pending for that tenant,
  and after any further operations no request for it, in any letter case and for any role, is
  accepted again. A refused invitation leaves every tenant's state as it is, and pending
  addresses are always pairwise distinct and none of a member.
\<close>

theorem inviteUser_once:
  assumes "run user_step (tenants_after rs, []) ops = (T, S)" and "tenant_of T slug = Some tenant"
  shows "distinct (ms_invited (mirror_of S slug)) \<and> (\<forall>email \<in> pending S slug. \<not> member tenant email)
    \<and> (\<forall>request now. case inviteUser T S slug request now of (S', answer) \<Rightarrow>
        ((\<exists>r. answer = Inr r) \<longleftrightarrow> invitable tenant S slug request)
        \<and> ((\<exists>f. answer = Inl f) \<longrightarrow> mirror_of S' = mirror_of S)
        \<and> (\<forall>r. answer = Inr r \<longrightarrow>
              iv_to r = toLowerCase (iv_email request) \<and> pending S' = (pending S)(slug := insert (iv_to r) (pending S slug))
            \<and> (\<forall>later again now2. toLowerCase (iv_email again) = iv_to r \<longrightarrow>
                (case run user_step (T, S') later of (T2, S2) \<Rightarrow> \<exists>f. snd (inviteUser T2 S2 slug again now2) = Inl f))))"
proof -
  have inv: "users_inv slug {} (T, S)" using user_runs.run_inv [OF users_start, of slug rs ops] assms(1) by simp
  have never: "\<exists>f. snd (inviteUser T2 S2 slug again now2) = Inl f"
    if acc: "invitable tenant S slug request" and again: "toLowerCase (iv_email again) = toLowerCase (iv_email request)"
      and later: "run user_step (T, fst (inviteUser T S slug request now)) later = (T2, S2)" for request again now now2 later T2 S2
  proof -
    have "users_inv slug {toLowerCase (iv_email request)} (T, fst (inviteUser T S slug request now))"
      using users_inv_invite [OF inv, of slug request now] acc by (simp add: users_inv_def pending_def inviteUser_view(1) [OF assms(2)])
    then have inv2: "users_inv slug {toLowerCase (iv_email request)} (T2, S2)" using user_runs.run_inv later by metis
    then have "toLowerCase (iv_email request) \<in> pending S2 slug" by (simp add: users_inv_def)
    then obtain t2 where t2: "tenant_of T2 slug = Some t2" using outsiderD [OF users_invD [OF inv2]] by blast
    have "\<not> invitable t2 S2 slug again" using inv2 again by (simp add: users_inv_def invitable_def pending_def)
    then show ?thesis by (simp add: inviteUser_view(2) [OF t2])
  qed
  have one: "distinct (ms_invited (mirror_of S slug)) \<and> (\<forall>email \<in> pending S slug. \<not> member tenant email)"
    using inv users_invD [OF inv, of _ slug] assms(2) by (simp add: users_inv_def)
  have two: "(\<exists>r. snd (inviteUser T S slug request now) = Inr r) \<longleftrightarrow> invitable tenant S slug request" for request now
    by (auto simp: inviteUser_view(2) [OF assms(2)] invitable_def)
  have three: "mirror_of (fst (inviteUser T S slug request now)) = mirror_of S"
    if "snd (inviteUser T S slug request now) = Inl f" for request now f
    using two [of request now] that by (simp add: inviteUser_view(1) [OF assms(2)])
  have four: "iv_to r = toLowerCase (iv_email request)
      \<and> pending (fst (inviteUser T S slug request now)) = (pending S)(slug := insert (iv_to r) (pending S slug))"
    if "snd (inviteUser T S slug request now) = Inr r" for request now r
  proof -
    have ok: "invitable tenant S slug request" using two [of request now] that by blast
    then have "iv_to r = toLowerCase (iv_email request)"
      using that by (auto simp: inviteUser_view(2) [OF assms(2)] invitable_def split: if_splits)
    then show ?thesis using ok by (auto simp: pending_def inviteUser_view(1) [OF assms(2)] fun_eq_iff)
  qed
  show ?thesis
    using one two three four never by (simp add: case_prod_unfold) (metis prod.collapse)
qed

text \<open>
  The mirror is listed completely and is read-only. In every reachable state and for every tenant
  but one called \<^verbatim>\<open>constructor\<close>, the cursors enumerate exactly the users that match the search, in order and
  once each, at most a page at a time; and no refresh or invitation changes what is listed.
\<close>

lemma reach_runId:
  assumes "run user_step (tenants_after rs, []) ops = (T, S)" "slug \<noteq> ''constructor''"
  shows "ms_lastRefreshRunId (mirror_of S slug) \<noteq> None"
  using user_runs.run_inv [OF users_start, of slug rs ops] assms by (simp add: users_inv_def RESYNC_RUNS_def)

theorem listUsers_complete:
  assumes "run user_step (tenants_after rs, []) ops = (T, S)" and "tenant_of T slug = Some tenant" and "slug \<noteq> ''constructor''"
    and "0 < limit" and "length (user_rows tenant f) < n"
  shows "walk n (user_page T S slug f limit) None = Some (filter (\<lambda>u. matches_user u (uf_q f)) (usersFor tenant T0))
    \<and> (\<forall>cur. length (fst (user_page T S slug f limit cur)) \<le> limit)
    \<and> (\<forall>request now cur. user_page T (fst (inviteUser T S slug request now)) slug f limit cur = user_page T S slug f limit cur)
    \<and> (\<forall>now cur. user_page T (fst (refreshUsers T S slug now)) slug f limit cur = user_page T S slug f limit cur)"
proof -
  note known = reach_runId [OF assms(1,3)]
  have page: "user_page T S' slug f limit cur = offset_page (user_rows tenant f) limit cur"
    if "ms_lastRefreshRunId (mirror_of S' slug) = ms_lastRefreshRunId (mirror_of S slug)" for S' cur
    using that known by (intro user_page_eq [OF assms(2)]) simp
  have "walk n (user_page T S slug f limit) None = Some (user_rows tenant f)"
    using offset_pager.pages_complete [OF user_pager [OF assms(2) known assms(4)] assms(5)] .
  then show ?thesis
    by (simp add: page inviteUser_view(1) [OF assms(2)] refreshUsers_view(1) [OF assms(2)] user_rows_def offset_page_def Let_def length_slice)
qed

text \<open>For a tenant with that name the run id is not a string, and every read of the page throws.\<close>

lemma constructor_throws:
  assumes "run user_step (tenants_after rs, []) ops = (T, S)" "tenant_of T ''constructor'' = Some tenant"
  shows "snd (listUsers T S ''constructor'' f cursor limit) = Inl ZodError"
proof -
  have "ms_lastRefreshRunId (mirror_of S ''constructor'') = None"
    using user_runs.run_inv [OF users_start, of "''constructor''" rs ops] assms(1) by (simp add: users_inv_def RESYNC_RUNS_def)
  then show ?thesis
    by (subst listUsers_def, subst stateFor_users_view) (simp add: assms(2) Let_def UsersPageSchema_ok_def parse_with_def)
qed

text \<open>A tenant that was just created has no users, and one is listed.\<close>

lemma created_tenant_lists_one:
  assumes "tenants_wf T" "map_get T slug = Some c" "slug \<noteq> ''constructor''"
  shows "\<exists>p. snd (listUsers T [] slug \<lparr>uf_q = None\<rparr> None USERS_PAGE_SIZE) = Inr (Some p) \<and> length (up_items p) = 1 \<and> up_total p = 0"
proof -
  note t = tenant_of_created [OF assms(1,2)]
  have run: "ms_lastRefreshRunId (mirror_of [] slug) \<noteq> None" using assms(3) by (simp add: mirror_of_Nil fresh_mirror_def RESYNC_RUNS_def)
  have "slug \<noteq> ''acme-air''" using created_okD [OF assms(1,2)] by (auto simp: created_ok_def findTenant_None TENANTS_slugs)
  then have "ts_slug (pendingDetail c) \<noteq> ''acme-air''" using created_okD [OF assms(1,2)] by (simp add: created_ok_def)
  then have "length (user_rows (pendingDetail c) \<lparr>uf_q = None\<rparr>) = 1"
    by (simp add: user_rows_def matches_user_def usersFor_def genericUsers_def t(2) GENERIC_USER_SEEDS_def)
  then show ?thesis by (simp add: listUsers_view [OF t(1) run] truthy_def t(2) offset_page_def Let_def length_slice USERS_PAGE_SIZE_def)
qed

section \<open>Witnesses\<close>

definition example_invite :: InviteRequest where
  "example_invite = \<lparr>iv_email = ''Guest@vendor.example'', iv_role = ''tenant_viewer''\<rparr>"

lemma acme_detail:
  "\<exists>t. tenant_of [] ''acme-air'' = Some t \<and> ts_slug t = ''acme-air''
     \<and> de_roles (td_desired t) = [''tenant_admin'', ''tenant_editor'', ''tenant_viewer'', ''tenant_auditor*'']"
  by (simp add: tenant_of_def tenantDetailFixture_def findTenant_def TENANTS_def fixture_tenant_def
      tenantDetailFor_def TenantSummary.defs TenantDetail.defs)

lemma acme_emails: "u \<in> set (acmeUsers t) \<Longrightarrow> last (us_email u) = CHR ''t''"
  by (auto simp: acmeUsers_def ACME_USER_SEEDS_def user_record_def externalAuditor_def Let_def)

lemma length_acmeUsers: "length (acmeUsers t) = 16"
  by (simp add: acmeUsers_def ACME_USER_SEEDS_def Let_def)

lemma example_guest: "toLowerCase ''Guest@vendor.example'' = ''guest@vendor.example''"
  by code_simp

lemma example_invitable:
  assumes "tenant_of [] ''acme-air'' = Some t"
  shows "invitable t [] ''acme-air'' example_invite"
proof -
  have t: "ts_slug t = ''acme-air''" "de_roles (td_desired t) = [''tenant_admin'', ''tenant_editor'', ''tenant_viewer'', ''tenant_auditor*'']"
    using acme_detail assms by auto
  have "\<not> member t ''guest@vendor.example''"
  proof
    assume "member t ''guest@vendor.example''"
    then obtain u where u: "u \<in> set (acmeUsers T0)" "toLowerCase (us_email u) = ''guest@vendor.example''"
      by (auto simp: member_def usersFor_def t(1) list_ex_iff)
    then have "us_email u \<noteq> []" by (auto simp: toLowerCase_def)
    then have "last (toLowerCase (us_email u)) = char_lower (last (us_email u))" by (simp add: toLowerCase_def last_map)
    then show False using acme_emails [OF u(1)] u(2) by (simp add: char_lower_def code_def Let_def)
  qed
  then show ?thesis
    by (simp add: invitable_def example_invite_def example_guest t(2) specRoles_def endsWith_def mirror_of_Nil fresh_mirror_def)
qed

theorem inviteUser_once_witness:
  "(\<exists>r. snd (inviteUser [] [] ''acme-air'' example_invite 0) = Inr r)
   \<and> (\<exists>f. snd (inviteUser [] (fst (inviteUser [] [] ''acme-air'' example_invite 0)) ''acme-air''
          (example_invite\<lparr>iv_email := ''guest@vendor.example''\<rparr>) 5) = Inl f)"
proof -
  obtain t where t: "tenant_of [] ''acme-air'' = Some t" using acme_detail by blast
  have start: "run user_step (tenants_after [], []) [] = ([], [])" by (simp add: tenants_after_def)
  let ?S = "fst (inviteUser [] [] ''acme-air'' example_invite 0)"
  let ?again = "example_invite\<lparr>iv_email := ''guest@vendor.example''\<rparr>"
  note spec = inviteUser_once [OF start t, THEN conjunct2, THEN conjunct2, rule_format, of example_invite 0, unfolded case_prod_unfold]
  obtain r where r: "snd (inviteUser [] [] ''acme-air'' example_invite 0) = Inr r"
    using spec example_invitable [OF t] by blast
  have lower: "toLowerCase (iv_email ?again) = toLowerCase (iv_email example_invite)"
    using toLowerCase_idem [of "''Guest@vendor.example''"] by (simp add: example_invite_def example_guest)
  have "iv_to r = toLowerCase (iv_email example_invite)" using spec r by blast
  then have "\<exists>f. snd (inviteUser (fst (run user_step ([], ?S) [])) (snd (run user_step ([], ?S) [])) ''acme-air'' ?again 5) = Inl f"
    using spec r lower by metis
  with r show ?thesis by simp
qed

theorem listUsers_complete_witness:
  "\<exists>t. tenant_of [] ''acme-air'' = Some t
     \<and> walk 17 (user_page [] [] ''acme-air'' \<lparr>uf_q = None\<rparr> USERS_PAGE_SIZE) None = Some (usersFor t T0)"
proof -
  obtain t where t: "tenant_of [] ''acme-air'' = Some t" "ts_slug t = ''acme-air''" using acme_detail by blast
  have start: "run user_step (tenants_after [], []) [] = ([], [])" by (simp add: tenants_after_def)
  have rows: "user_rows t \<lparr>uf_q = None\<rparr> = usersFor t T0" by (simp add: user_rows_def matches_user_def)
  have "''acme-air'' \<noteq> ''constructor''" "0 < USERS_PAGE_SIZE" "length (user_rows t \<lparr>uf_q = None\<rparr>) < 17"
    unfolding rows by (simp_all add: usersFor_def t(2) length_acmeUsers USERS_PAGE_SIZE_def)
  from listUsers_complete [OF start t(1) this] t(1) show ?thesis by (simp add: matches_user_def)
qed

end
