(* ===== verification/Audit_Stream.thy ===== *)
theory Audit_Stream
  imports Tenants Paging Js_Order Js_Url Stores
begin

text \<open>
  The audit stream (\<^verbatim>\<open>features/audit\<close>): append-only events with filters and cursors, the filter in the URL, and
  export requests answered once per Idempotency-Key. \<^verbatim>\<open>localeCompare\<close> and the random UUID of an export are arguments.
\<close>

section \<open>Schemas\<close>

datatype AuditAction = SpecUpdated | ReconcileSucceeded | ReconcileDegraded | ReconcileFailed | DriftDetected | DriftHealed
  | DriftAcknowledged | RelationsWritten | TupleWritten | IdpSecretRotated | CheckExplained | TenantCreated

definition AUDIT_ACTIONS :: "AuditAction list" where
  "AUDIT_ACTIONS = [SpecUpdated, ReconcileSucceeded, ReconcileDegraded, ReconcileFailed, DriftDetected, DriftHealed,
     DriftAcknowledged, RelationsWritten, TupleWritten, IdpSecretRotated, CheckExplained, TenantCreated]"

fun action_name :: "AuditAction \<Rightarrow> string" where
  "action_name SpecUpdated = ''SpecUpdated''"
| "action_name ReconcileSucceeded = ''ReconcileSucceeded''"
| "action_name ReconcileDegraded = ''ReconcileDegraded''"
| "action_name ReconcileFailed = ''ReconcileFailed''"
| "action_name DriftDetected = ''DriftDetected''"
| "action_name DriftHealed = ''DriftHealed''"
| "action_name DriftAcknowledged = ''DriftAcknowledged''"
| "action_name RelationsWritten = ''RelationsWritten''"
| "action_name TupleWritten = ''TupleWritten''"
| "action_name IdpSecretRotated = ''IdpSecretRotated''"
| "action_name CheckExplained = ''CheckExplained''"
| "action_name TenantCreated = ''TenantCreated''"

definition AuditActionSchema_parse :: "string option \<Rightarrow> AuditAction option" where
  "AuditActionSchema_parse s = (case s of None \<Rightarrow> None | Some n \<Rightarrow> List.find (\<lambda>a. action_name a = n) AUDIT_ACTIONS)"

datatype ActorKind = Human | System | M2m

record Actor =
  at_id :: string
  at_kind :: ActorKind
  at_label :: string

definition ActorSchema_ok :: "Actor \<Rightarrow> bool" where
  "ActorSchema_ok a \<longleftrightarrow> at_id a \<noteq> [] \<and> at_label a \<noteq> []"

datatype DiffLineKind = Removed_line | Added_line | Changed_line | Context_line

record AuditEvent =
  ae_id :: string
  ae_tenant :: string
  ae_occurredAt :: string
  ae_actor :: Actor
  ae_action :: AuditAction
  ae_resource :: string
  ae_title :: string
  ae_requestId :: string
  ae_traceId :: "string option"
  ae_ip :: "string option"
  ae_idempotencyKey :: "string option"
  ae_specHash :: "string option"
  ae_diff :: "(DiffLineKind \<times> string) list"
  ae_relatedRunId :: "string option"

definition AuditEventSchema_ok :: "AuditEvent \<Rightarrow> bool" where
  "AuditEventSchema_ok e \<longleftrightarrow>
     ae_id e \<noteq> [] \<and> ae_tenant e \<noteq> [] \<and> ActorSchema_ok (ae_actor e) \<and> ae_resource e \<noteq> [] \<and> ae_title e \<noteq> [] \<and> ae_requestId e \<noteq> []"

record AuditFilter =
  af_tenant :: "string option"
  af_actor :: "string option"
  af_action :: "AuditAction option"

record AuditPage =
  ap_generatedAt :: string
  ap_items :: "AuditEvent list"
  ap_nextCursor :: "string option"
  ap_total :: nat
  ap_actors :: "Actor list"

definition AuditPageSchema_ok :: "AuditPage \<Rightarrow> bool" where
  "AuditPageSchema_ok p \<longleftrightarrow> list_all AuditEventSchema_ok (ap_items p) \<and> list_all ActorSchema_ok (ap_actors p)"

text \<open>The status \<^verbatim>\<open>queued\<close> and the format \<^verbatim>\<open>ndjson.gz\<close> are literals of the schema.\<close>

record ExportResponse =
  ex_exportId :: string

definition ExportResponseSchema_ok :: "ExportResponse \<Rightarrow> bool" where
  "ExportResponseSchema_ok r \<longleftrightarrow> ex_exportId r \<noteq> []"

section \<open>Filters\<close>

text \<open>\<^verbatim>\<open>auditFilterFromSearch\<close> on \<^verbatim>\<open>URLSearchParams\<close>; the record form differs only in dropping repeated keys.\<close>

definition auditFilterFromSearch :: "params \<Rightarrow> AuditFilter" where
  "auditFilterFromSearch ps =
     (let get = (\<lambda>k. nonempty (map_get ps k))
      in \<lparr>af_tenant = get ''tenant'', af_actor = get ''actor'', af_action = AuditActionSchema_parse (get ''action'')\<rparr>)"

definition normalizeAuditFilter :: "AuditFilter \<Rightarrow> AuditFilter" where
  "normalizeAuditFilter filter' =
     \<lparr>af_tenant = nonempty (af_tenant filter'), af_actor = nonempty (af_actor filter'), af_action = af_action filter'\<rparr>"

text \<open>\<^verbatim>\<open>auditListPath\<close>; \<^verbatim>\<open>encodeURIComponent\<close> of a scoped tenant is an argument.\<close>

definition audit_params :: "AuditFilter \<Rightarrow> string option \<Rightarrow> string option \<Rightarrow> params" where
  "audit_params filter' scopedTenant cursor =
     (if \<not> truthy scopedTenant \<and> truthy (af_tenant filter') then [(''tenant'', the (af_tenant filter'))] else [])
     @ (if truthy (af_actor filter') then [(''actor'', the (af_actor filter'))] else [])
     @ (case af_action filter' of Some a \<Rightarrow> [(''action'', action_name a)] | None \<Rightarrow> [])
     @ (if truthy cursor then [(''cursor'', the cursor)] else [])"

definition auditListPath :: "(string \<Rightarrow> string) \<Rightarrow> AuditFilter \<Rightarrow> string option \<Rightarrow> string option \<Rightarrow> string" where
  "auditListPath encodeURIComponent filter' scopedTenant cursor =
     (let base = (if truthy scopedTenant then ''/api/tenants/'' @ encodeURIComponent (the scopedTenant) @ ''/audit-events'' else ''/api/audit-events'');
          qs = params_toString (audit_params filter' scopedTenant cursor)
      in if qs \<noteq> [] then base @ ''?'' @ qs else base)"

section \<open>Formatting\<close>

fun ACTION_TONE :: "AuditAction \<Rightarrow> Tone" where
  "ACTION_TONE SpecUpdated = Link"
| "ACTION_TONE ReconcileSucceeded = Ready_tone"
| "ACTION_TONE ReconcileDegraded = Degraded_tone"
| "ACTION_TONE ReconcileFailed = Failed_tone"
| "ACTION_TONE DriftDetected = Drift_tone"
| "ACTION_TONE DriftHealed = Drift_tone"
| "ACTION_TONE DriftAcknowledged = Neutral"
| "ACTION_TONE RelationsWritten = Ready_tone"
| "ACTION_TONE TupleWritten = Ready_tone"
| "ACTION_TONE IdpSecretRotated = Failed_tone"
| "ACTION_TONE CheckExplained = Link"
| "ACTION_TONE TenantCreated = Link"

definition audit_shortId :: "string \<Rightarrow> nat \<Rightarrow> nat \<Rightarrow> string" where
  "audit_shortId i head tail = (if length i \<le> head + tail + 1 then i else take head i @ ellipsis @ last_chars tail i)"

section \<open>Fixtures\<close>

abbreviation "arrow \<equiv> [CHR 0xE2, CHR 0x86, CHR 0x92]"

abbreviation "back_arrow \<equiv> [CHR 0xE2, CHR 0x86, CHR 0x90]"

abbreviation "D_day \<equiv> ''2026-09-04T''"

definition HUMAN_OPS :: Actor where
  "HUMAN_OPS = \<lparr>at_id = ''ops@acme-air.test'', at_kind = Human, at_label = ''ops@acme-air.test''\<rparr>"

definition HUMAN_ADMIN :: Actor where
  "HUMAN_ADMIN = \<lparr>at_id = ''admin@acme-air.test'', at_kind = Human, at_label = ''admin@acme-air.test''\<rparr>"

definition RECONCILER :: Actor where
  "RECONCILER = \<lparr>at_id = ''system:reconciler'', at_kind = System, at_label = ''system:reconciler''\<rparr>"

definition AUDIT_CI_BOT :: Actor where
  "AUDIT_CI_BOT = \<lparr>at_id = ''ci-bot'', at_kind = M2m, at_label = ''ci-bot (m2m)''\<rparr>"

definition INITECH_OPS :: Actor where
  "INITECH_OPS = \<lparr>at_id = ''ops@initech-labs.test'', at_kind = Human, at_label = ''ops@initech-labs.test''\<rparr>"

abbreviation "ACME_GEN9_REQUEST \<equiv> ''4bf9e2c7d81a03b6f5a1''"

abbreviation "ACME_RESYNC_REQUEST \<equiv> ''71a0c3d9e5f2b84d10c3''"

abbreviation "GLOBEX_RESYNC_REQUEST \<equiv> ''a7d30f5c81e9427bd60c''"

text \<open>\<^verbatim>\<open>event(seed)\<close>: the optional fields default to null.\<close>

definition audit_event :: "string \<Rightarrow> string \<Rightarrow> string \<Rightarrow> Actor \<Rightarrow> AuditAction \<Rightarrow> string \<Rightarrow> string \<Rightarrow> string
    \<Rightarrow> (DiffLineKind \<times> string) list \<Rightarrow> AuditEvent" where
  "audit_event i tenant at actor action resource title request diff =
     \<lparr>ae_id = i, ae_tenant = tenant, ae_occurredAt = at, ae_actor = actor, ae_action = action, ae_resource = resource,
      ae_title = title, ae_requestId = request, ae_traceId = None, ae_ip = None, ae_idempotencyKey = None,
      ae_specHash = None, ae_diff = diff, ae_relatedRunId = None\<rparr>"

definition AUDIT_EVENTS_acme_recent :: "AuditEvent list" where
  "AUDIT_EVENTS_acme_recent =
     [(audit_event ''evt_01k4a9x2m8'' ''acme-air'' (D_day @ ''10:14:27.902Z'') RECONCILER ReconcileDegraded (''run 8f1c'' @ middot @ ''change 4'')
         (''run 8f1c9e4b27d2 '' @ arrow @ '' Degraded at change 4'') ACME_GEN9_REQUEST
         [(Removed_line, (''outcome: Applying'' @ middot @ ''3/5 applied'')), (Added_line, (''outcome: Partial'' @ middot @ ''change 4 failed'')), (Removed_line, ''lastError: null''), (Added_line, ''lastError: OpenFGA WriteTuples timed out after 3000ms'')])
         \<lparr>ae_traceId := Some ACME_GEN9_REQUEST, ae_relatedRunId := Some ''8f1c9e4b27d2''\<rparr>,
      (audit_event ''evt_01k4a9wz7q'' ''acme-air'' (D_day @ ''10:14:22.481Z'') HUMAN_OPS SpecUpdated ''tenant:acme-air gen 9''
         (''tenant:acme-air '' @ arrow @ '' generation 9'') ACME_GEN9_REQUEST
         [(Removed_line, ''roles: [tenant_admin, tenant_viewer]''), (Added_line, ''roles: [tenant_admin, tenant_viewer, tenant_auditor]''), (Removed_line, ''relations: 5 entries''), (Added_line, ''relations: 4 entries'')])
         \<lparr>ae_traceId := Some ACME_GEN9_REQUEST, ae_ip := Some ''82.14.x.x'', ae_idempotencyKey := Some ''0e1f7a3c-5d2b-4e8f-9a01-c6d4b2e7f19b'', ae_specHash := Some ''b7e21f04'', ae_relatedRunId := Some ''8f1c9e4b27d2''\<rparr>,
      (audit_event ''evt_01k4a9d4rt'' ''acme-air'' (D_day @ ''09:53:00.117Z'') RECONCILER DriftDetected ''zitadel.org displayName''
         (''drift'' @ middot @ ''zitadel.org displayName changed out-of-band'') ACME_RESYNC_REQUEST
         [(Removed_line, (''displayName: '' @ quoted ''Acme Airways'')), (Added_line, (''displayName: '' @ quoted ''Acme Air (test)'')), (Context_line, (''finding 3a6f2d91'' @ middot @ ''medium'' @ middot @ ''no matching audit event''))])
         \<lparr>ae_traceId := Some ACME_RESYNC_REQUEST, ae_relatedRunId := Some ''71a0c3d9e5f2''\<rparr>,
      (audit_event ''evt_01k4a9cq0v'' ''acme-air'' (D_day @ ''09:52:10.664Z'') AUDIT_CI_BOT RelationsWritten (''3 writes'' @ middot @ ''1 delete'')
         (''relations:write '' @ arrow @ '' 3 writes'' @ middot @ ''1 delete'') ''e112f9c4a07b3d58e27b''
         [(Removed_line, ''folder:finance#viewer@user:omar''), (Added_line, ''folder:finance#editor@user:dana''), (Added_line, ''folder:ops#viewer@user:mira''), (Added_line, ''document:budget-2026#viewer@group:finance#member'')])
         \<lparr>ae_traceId := Some ''e112f9c4a07b3d58e27b'', ae_ip := Some ''10.40.x.x'', ae_idempotencyKey := Some ''9b3d21e0-7f4a-4c6b-8d15-2a0e5f7c4d7b''\<rparr>,
      (audit_event ''evt_01k4a97h2e'' ''acme-air'' (D_day @ ''09:41:03.208Z'') HUMAN_ADMIN CheckExplained ''document:budget-2026#viewer''
         (''explain user:dana viewer document:budget-2026 '' @ arrow @ '' allowed'') ''77aa4e1c9d02b5f3862e''
         [(Context_line, (''allowed'' @ middot @ ''2 hops'' @ middot @ ''consistency=strong'')), (Context_line, (''document:budget-2026#viewer '' @ back_arrow @ '' folder:finance#editor'')), (Context_line, (''folder:finance#editor '' @ back_arrow @ '' user:dana''))])
         \<lparr>ae_traceId := Some ''77aa4e1c9d02b5f3862e'', ae_ip := Some ''82.14.x.x''\<rparr>,
      (audit_event ''evt_01k4a8tz5k'' ''acme-air'' (D_day @ ''09:15:04.330Z'') RECONCILER DriftDetected ''fga.model document#viewer''
         (''drift'' @ middot @ ''authorization model behind desired version'') ACME_RESYNC_REQUEST
         [(Removed_line, ''authorizationModel: v7 (staged in generation 9)''), (Added_line, ''authorizationModel: v6''), (Context_line, (''finding c8e15b70'' @ middot @ ''medium''))])
         \<lparr>ae_traceId := Some ACME_RESYNC_REQUEST, ae_relatedRunId := Some ''71a0c3d9e5f2''\<rparr>,
      (audit_event ''evt_01k4a8f0a1'' ''acme-air'' (D_day @ ''09:00:00.012Z'') HUMAN_ADMIN TupleWritten ''folder:finance#editor@user:dana''
         (''tuple written'' @ middot @ ''folder:finance#editor@user:dana'') ''a3f1d8b27c40e95f61c9''
         [(Added_line, ''folder:finance#editor@user:dana'')])
         \<lparr>ae_traceId := Some ''a3f1d8b27c40e95f61c9'', ae_ip := Some ''82.14.x.x'', ae_idempotencyKey := Some ''4c7e90a2-1b3d-4f58-a6e1-0d2c8b5f3e91''\<rparr>]"

definition AUDIT_EVENTS_acme_earlier :: "AuditEvent list" where
  "AUDIT_EVENTS_acme_earlier =
     [(audit_event ''evt_01k4a7x9nd'' ''acme-air'' (D_day @ ''08:31:55.771Z'') HUMAN_OPS IdpSecretRotated ''idp:acme-entra''
         ''idp:acme-entra client secret rotated'' ''b904c7e2f31a5d086af3''
         [(Removed_line, (''clientSecret: [redacted]'' @ middot @ ''set 2026-06-14'')), (Added_line, (''clientSecret: [redacted]'' @ middot @ ''rotated''))])
         \<lparr>ae_traceId := Some ''b904c7e2f31a5d086af3'', ae_ip := Some ''82.14.x.x'', ae_idempotencyKey := Some ''7d2f4b19-e0c3-4a87-b5d6-91e3a0f7c2d4''\<rparr>,
      (audit_event ''evt_01k4a7d2q8'' ''acme-air'' (D_day @ ''08:10:12.540Z'') RECONCILER ReconcileSucceeded (''run 71a0'' @ middot @ ''resync'')
         (''run 71a0c3d9e5f2 '' @ arrow @ '' NoChanges'') ACME_RESYNC_REQUEST
         [(Context_line, (''resync'' @ middot @ ''0 changes'' @ middot @ ''312 users mirrored''))])
         \<lparr>ae_traceId := Some ACME_RESYNC_REQUEST, ae_relatedRunId := Some ''71a0c3d9e5f2''\<rparr>,
      (audit_event ''evt_01k4a6y7wb'' ''acme-air'' (D_day @ ''07:45:36.290Z'') RECONCILER ReconcileSucceeded (''run 3d7e'' @ middot @ ''gen 8'')
         (''run 3d7e0b91c4a2 '' @ arrow @ '' Succeeded'' @ middot @ ''generation 8 observed'') ''3d7e0b91c4a2f6d8e5b0''
         [(Removed_line, ''observedGeneration: 7''), (Added_line, ''observedGeneration: 8'')])
         \<lparr>ae_traceId := Some ''3d7e0b91c4a2f6d8e5b0'', ae_relatedRunId := Some ''3d7e0b91c4a2''\<rparr>,
      (audit_event ''evt_01k4a6y2hs'' ''acme-air'' (D_day @ ''07:45:31.006Z'') HUMAN_OPS SpecUpdated ''tenant:acme-air gen 8''
         (''tenant:acme-air '' @ arrow @ '' generation 8'') ''3d7e0b91c4a2f6d8e5b0''
         [(Removed_line, ''identityProviders: [acme-entra]''), (Added_line, ''identityProviders: [acme-entra, acme-legacy-saml (disabled)]'')])
         \<lparr>ae_traceId := Some ''3d7e0b91c4a2f6d8e5b0'', ae_ip := Some ''82.14.x.x'', ae_idempotencyKey := Some ''2a9c1e47-6b0d-4f3e-8c52-d7e1b4a0f963'', ae_specHash := Some ''9c40d2a7'', ae_relatedRunId := Some ''3d7e0b91c4a2''\<rparr>,
      (audit_event ''evt_01k4a5m1zx'' ''acme-air'' (D_day @ ''06:30:00.442Z'') AUDIT_CI_BOT RelationsWritten (''12 writes'' @ middot @ ''0 deletes'')
         (''relations:write '' @ arrow @ '' 12 writes'' @ middot @ ''0 deletes'') ''c58a2d7f90e14b3c6d02''
         [(Added_line, ''folder:ops#editor@group:sre#member''), (Added_line, ''folder:ops#viewer@group:eng#member''), (Context_line, ''+10 more writes'')])
         \<lparr>ae_traceId := Some ''c58a2d7f90e14b3c6d02'', ae_ip := Some ''10.40.x.x'', ae_idempotencyKey := Some ''e3b0c442-98fc-4c14-9afb-f4c8996fb924''\<rparr>,
      (audit_event ''evt_01k4a5b8pc'' ''acme-air'' (D_day @ ''06:02:19.873Z'') HUMAN_ADMIN CheckExplained ''folder:ops#viewer''
         (''explain user:omar viewer folder:ops '' @ arrow @ '' denied'') ''f0d3a91e7c25b48d6a11''
         [(Context_line, (''denied'' @ middot @ ''0 paths'' @ middot @ ''consistency=eventual'')), (Context_line, ''folder:ops#viewer has no path to user:omar'')])
         \<lparr>ae_traceId := Some ''f0d3a91e7c25b48d6a11'', ae_ip := Some ''82.14.x.x''\<rparr>,
      (audit_event ''evt_01k4a4z6tr'' ''acme-air'' (D_day @ ''05:40:08.115Z'') HUMAN_OPS DriftAcknowledged ''zitadel.user count''
         (''drift acknowledged'' @ middot @ ''zitadel.user count'') ''d61b8f4a2e07c93d5f0e''
         [(Removed_line, ''status: open''), (Added_line, (''status: acknowledged'' @ middot @ ''suppressed until desired changes''))])
         \<lparr>ae_traceId := Some ''d61b8f4a2e07c93d5f0e'', ae_ip := Some ''82.14.x.x'', ae_idempotencyKey := Some ''51ac3e7d-0f2b-4d96-a8c4-3b7e9d1f0a25''\<rparr>]"

definition AUDIT_EVENTS_other :: "AuditEvent list" where
  "AUDIT_EVENTS_other =
     [(audit_event ''evt_01k4a9mq3w'' ''initech-labs'' (D_day @ ''10:12:00.338Z'') INITECH_OPS SpecUpdated ''tenant:initech-labs gen 7''
         (''tenant:initech-labs '' @ arrow @ '' generation 7'') ''c0127be4d9a6f3e58b41''
         [(Removed_line, ''roles: [tenant_admin, tenant_viewer]''), (Added_line, ''roles: [tenant_admin, tenant_viewer, tenant_operator]'')])
         \<lparr>ae_traceId := Some ''c0127be4d9a6f3e58b41'', ae_ip := Some ''193.7.x.x'', ae_idempotencyKey := Some ''8f1e2d3c-4b5a-4697-8877-66554433aa11'', ae_specHash := Some ''0fa7d9b1'', ae_relatedRunId := Some ''c0127be4d9a6''\<rparr>,
      (audit_event ''evt_01k4a9k7e2'' ''globex-logistics'' (D_day @ ''10:08:41.223Z'') RECONCILER DriftDetected ''zitadel.idp claimMappings''
         (''drift'' @ middot @ ''zitadel.idp/globex-okta claimMappings changed out-of-band'') GLOBEX_RESYNC_REQUEST
         [(Removed_line, (''claimMappings.email: '' @ quoted ''email'')), (Added_line, (''claimMappings.email: '' @ quoted ''upn'')), (Removed_line, (''claimMappings.groups: '' @ quoted ''groups'')), (Added_line, (''claimMappings.groups: '' @ quoted ''roles''))])
         \<lparr>ae_traceId := Some GLOBEX_RESYNC_REQUEST, ae_relatedRunId := Some ''a7d30f5c81e9''\<rparr>,
      (audit_event ''evt_01k4a9c0hn'' ''northwind-rail'' (D_day @ ''09:51:00.090Z'') RECONCILER ReconcileFailed (''run 2c77'' @ middot @ ''attempt 8/8'')
         (''run 2c77e0b9a413 '' @ arrow @ '' Failed'' @ middot @ ''attempts exhausted'') ''2c77e0b9a413d5f8c1a6''
         [(Removed_line, (''phase: Degraded'' @ middot @ ''attempt 7/8'')), (Added_line, (''phase: Failed'' @ middot @ ''terminal, needs a human'')), (Context_line, ''Zitadel CreateIdentityProvider returned 400 invalid_idp_config'')])
         \<lparr>ae_traceId := Some ''2c77e0b9a413d5f8c1a6'', ae_relatedRunId := Some ''2c77e0b9a413''\<rparr>]"

definition AUDIT_EVENTS :: "AuditEvent list" where
  "AUDIT_EVENTS = AUDIT_EVENTS_acme_recent @ AUDIT_EVENTS_acme_earlier @ AUDIT_EVENTS_other"

definition AUDIT_TOTALS :: "(string, nat) jsmap" where
  "AUDIT_TOTALS = [(''acme-air'', 2418), (''globex-logistics'', 1207), (''northwind-rail'', 386), (''initech-labs'', 912)]"

definition AUDIT_TOTAL_DEFAULT :: nat where
  "AUDIT_TOTAL_DEFAULT = 640"

definition AUDIT_TOTAL_PLATFORM :: nat where
  "AUDIT_TOTAL_PLATFORM = 9731"

section \<open>Operations\<close>

definition AUDIT_PAGE_SIZE :: nat where
  "AUDIT_PAGE_SIZE = 8"

text \<open>\<^verbatim>\<open>Date.parse(b.occurredAt) - Date.parse(a.occurredAt) || a.id.localeCompare(b.id)\<close>; NaN is falsy.\<close>

definition by_newest :: "(string \<Rightarrow> string \<Rightarrow> int) \<Rightarrow> AuditEvent \<Rightarrow> AuditEvent \<Rightarrow> int" where
  "by_newest lc a b =
     (case (Date_parse (ae_occurredAt a), Date_parse (ae_occurredAt b)) of
        (Some ta, Some tb) \<Rightarrow> if int tb - int ta \<noteq> 0 then int tb - int ta else lc (ae_id a) (ae_id b)
      | _ \<Rightarrow> lc (ae_id a) (ae_id b))"

definition audit_scope :: "(string \<Rightarrow> string \<Rightarrow> int) \<Rightarrow> string option \<Rightarrow> AuditEvent list" where
  "audit_scope lc tenant =
     js_sort (by_newest lc) (if truthy tenant then filter (\<lambda>e. Some (ae_tenant e) = tenant) AUDIT_EVENTS else AUDIT_EVENTS)"

definition event_matches :: "AuditFilter \<Rightarrow> AuditEvent \<Rightarrow> bool" where
  "event_matches filter' e \<longleftrightarrow>
     (\<not> truthy (af_actor filter') \<or> Some (at_id (ae_actor e)) = af_actor filter')
     \<and> (af_action filter' = None \<or> Some (ae_action e) = af_action filter')"

definition audit_rows :: "(string \<Rightarrow> string \<Rightarrow> int) \<Rightarrow> AuditFilter \<Rightarrow> AuditEvent list" where
  "audit_rows lc filter' = filter (event_matches filter') (audit_scope lc (af_tenant filter'))"

definition scope_actors :: "(string \<Rightarrow> string \<Rightarrow> int) \<Rightarrow> AuditEvent list \<Rightarrow> Actor list" where
  "scope_actors lc scope =
     js_sort (\<lambda>a b. lc (at_label a) (at_label b))
       (map_values (fold (\<lambda>e m. map_set m (at_id (ae_actor e)) (ae_actor e)) scope []))"

definition listAuditEvents :: "(string \<Rightarrow> string \<Rightarrow> int) \<Rightarrow> AuditFilter \<Rightarrow> string option \<Rightarrow> instant \<Rightarrow> nat \<Rightarrow> AuditPage option throws" where
  "listAuditEvents lc filter' cursor now limit =
     (if truthy (af_tenant filter') \<and> findTenant (the (af_tenant filter')) = None then Inr None
      else
        (let scope = audit_scope lc (af_tenant filter');
             filtered = filter (event_matches filter') scope;
             offset = cursor_offset cursor;
             items = slice offset (offset + limit) filtered;
             stop = offset + length items;
             hasFilter = truthy (af_actor filter') \<or> af_action filter' \<noteq> None
         in map_sum id Some (parse_with AuditPageSchema_ok
              \<lparr>ap_generatedAt = toISOString now, ap_items = items,
               ap_nextCursor = (if stop < length filtered then Some (offset_cursor stop) else None),
               ap_total = (if hasFilter then length filtered
                           else if truthy (af_tenant filter')
                           then (case map_get AUDIT_TOTALS (the (af_tenant filter')) of Some n \<Rightarrow> n | None \<Rightarrow> AUDIT_TOTAL_DEFAULT)
                           else AUDIT_TOTAL_PLATFORM),
               ap_actors = scope_actors lc scope\<rparr>)))"

type_synonym exports = "(string, ExportResponse) jsmap"

definition export_key :: "string \<Rightarrow> string \<Rightarrow> string" where
  "export_key slug idempotencyKey = slug @ '':'' @ idempotencyKey"

definition requestAuditExport :: "string \<Rightarrow> string \<Rightarrow> 128 word \<Rightarrow> exports \<Rightarrow> exports \<times> ExportResponse option throws" where
  "requestAuditExport slug idempotencyKey uuid E =
     (if findTenant slug = None then (E, Inr None)
      else
        (let key = export_key slug idempotencyKey
         in case map_get E key of
              Some existing \<Rightarrow> (E, Inr (Some existing))
            | None \<Rightarrow>
                (case parse_with ExportResponseSchema_ok \<lparr>ex_exportId = ''exp_'' @ hex_id 10 uuid\<rparr> of
                   Inl e \<Rightarrow> (E, Inl e)
                 | Inr created \<Rightarrow> (map_set E key created, Inr (Some created)))))"

definition resetAuditExportsForTests :: "exports \<Rightarrow> exports" where
  "resetAuditExportsForTests E = []"

section \<open>The fixture events\<close>

lemmas audit_fixture_defs =
  AUDIT_EVENTS_acme_recent_def AUDIT_EVENTS_acme_earlier_def AUDIT_EVENTS_other_def audit_event_def

lemmas actor_defs = HUMAN_OPS_def HUMAN_ADMIN_def RECONCILER_def AUDIT_CI_BOT_def INITECH_OPS_def

lemma actors_ok: "ActorSchema_ok HUMAN_OPS" "ActorSchema_ok HUMAN_ADMIN" "ActorSchema_ok RECONCILER" "ActorSchema_ok AUDIT_CI_BOT" "ActorSchema_ok INITECH_OPS"
  by (simp_all add: ActorSchema_ok_def actor_defs)

lemma AUDIT_EVENTS_ok: "list_all AuditEventSchema_ok AUDIT_EVENTS"
  by (simp add: AUDIT_EVENTS_def audit_fixture_defs AuditEventSchema_ok_def actors_ok)

lemma AUDIT_EVENTS_ids: "distinct (map ae_id AUDIT_EVENTS)"
  by (simp add: AUDIT_EVENTS_def audit_fixture_defs)

definition event_dated :: "AuditEvent \<Rightarrow> bool" where
  "event_dated e \<longleftrightarrow> Date_parse (ae_occurredAt e) \<noteq> None"

lemma fixture_day: "instant_of 2026 9 4 ms = None \<longleftrightarrow> 86400000 \<le> ms"
  by (simp add: instant_of_def month_lengths_def leap_def)

lemma day_parses:
  assumes "list_all is_digit [h, h', m, m', s, s', f, f', f'']"
    and "read_nat [h, h'] < 24" "read_nat [m, m'] < 60" "read_nat [s, s'] < 60" "read_nat [f, f', f''] < 1000"
  shows "Date_parse (D_day @ [h, h', CHR '':'', m, m', CHR '':'', s, s', CHR ''.'', f, f', f'', CHR ''Z'']) \<noteq> None"
proof -
  have "re_exec iso_re (''2026'' @ ''-'' @ ''09'' @ ''-'' @ ''04'' @ ''T'' @ [h, h'] @ '':'' @ [m, m'] @ '':'' @ [s, s'] @ ''.'' @ [f, f', f''] @ ''Z'')
      = Some [''2026'', ''09'', ''04'', [h, h'], [m, m'], [s, s'], [f, f', f'']]"
    by (rule iso_re_exec) (use assms(1) in \<open>auto simp: is_digit_def code_def\<close>)
  moreover have "read_nat ''2026'' = 2026" "read_nat ''09'' = 9" "read_nat ''04'' = 4"
    by (simp_all add: read_nat_def code_def)
  ultimately show ?thesis using assms by (simp add: Date_parse_def fixture_day)
qed

lemmas day_parses_string = day_parses [simplified]

lemma AUDIT_EVENTS_dated: "list_all event_dated AUDIT_EVENTS"
proof -
  have "list_all event_dated AUDIT_EVENTS_acme_recent" "list_all event_dated AUDIT_EVENTS_acme_earlier" "list_all event_dated AUDIT_EVENTS_other"
    by (simp_all add: audit_fixture_defs event_dated_def day_parses_string is_digit_def code_def read_nat_def)
  then show ?thesis by (simp add: AUDIT_EVENTS_def)
qed

section \<open>Order\<close>

lemma by_newest_le:
  assumes "Date_parse (ae_occurredAt a) = Some ta" "Date_parse (ae_occurredAt b) = Some tb"
  shows "by_newest lc a b \<le> 0 \<longleftrightarrow> tb < ta \<or> tb = ta \<and> lc (ae_id a) (ae_id b) \<le> 0"
  using assms by (auto simp: by_newest_def)

context collation
begin

lemma by_newest_total: "event_dated a \<Longrightarrow> event_dated b \<Longrightarrow> by_newest lc a b \<le> 0 \<or> by_newest lc b a \<le> 0"
  using total [of "ae_id a" "ae_id b"] by (auto simp: event_dated_def by_newest_le)

lemma by_newest_trans:
  assumes "event_dated a" "event_dated b" "event_dated c" "by_newest lc a b \<le> 0" "by_newest lc b c \<le> 0"
  shows "by_newest lc a c \<le> 0"
proof -
  obtain ta tb tc where "Date_parse (ae_occurredAt a) = Some ta" "Date_parse (ae_occurredAt b) = Some tb" "Date_parse (ae_occurredAt c) = Some tc"
    using assms(1-3) by (auto simp: event_dated_def)
  then show ?thesis using assms(4,5) trans [of "ae_id a" "ae_id b" "ae_id c"] by (auto simp: by_newest_le)
qed

end

sublocale collation \<subseteq> newest: js_comparator "by_newest lc" event_dated
  by unfold_locales (use by_newest_total by_newest_trans in blast)+

sublocale collation \<subseteq> labels: js_comparator "\<lambda>a b. lc (at_label a) (at_label b)" "\<lambda>_. True"
  by unfold_locales (use total trans in blast)+

context collation
begin

lemma actors_by_label: "sorted_wrt (\<lambda>a b. lc (at_label a) (at_label b) \<le> 0) (scope_actors lc scope)"
  unfolding scope_actors_def by (rule labels.sorted_js_sort) (simp add: list_all_iff)

end

definition newer_first :: "AuditEvent \<Rightarrow> AuditEvent \<Rightarrow> bool" where
  "newer_first a b \<longleftrightarrow> the (Date_parse (ae_occurredAt b)) \<le> the (Date_parse (ae_occurredAt a))"

lemma by_newest_newer: "event_dated a \<Longrightarrow> event_dated b \<Longrightarrow> by_newest lc a b \<le> 0 \<Longrightarrow> newer_first a b"
  by (auto simp: event_dated_def newer_first_def by_newest_le)

definition in_audit_scope :: "string option \<Rightarrow> AuditEvent \<Rightarrow> bool" where
  "in_audit_scope tenant e \<longleftrightarrow> \<not> truthy tenant \<or> Some (ae_tenant e) = tenant"

lemma audit_scope_eq: "audit_scope lc tenant = js_sort (by_newest lc) (filter (in_audit_scope tenant) AUDIT_EVENTS)"
  by (cases "truthy tenant") (simp_all add: audit_scope_def in_audit_scope_def [abs_def])

lemma set_audit_scope: "set (audit_scope lc tenant) = {e \<in> set AUDIT_EVENTS. in_audit_scope tenant e}"
  by (simp add: audit_scope_eq)

lemma scope_dated: "e \<in> set (audit_scope lc tenant) \<Longrightarrow> event_dated e"
  using AUDIT_EVENTS_dated by (auto simp: set_audit_scope list_all_iff)

context collation
begin

lemma scope_sorted: "sorted_wrt newer_first (audit_scope lc tenant)"
proof -
  have "list_all event_dated (filter (in_audit_scope tenant) AUDIT_EVENTS)" using AUDIT_EVENTS_dated by (simp add: list_all_iff)
  then have "sorted_wrt (\<lambda>a b. by_newest lc a b \<le> 0) (audit_scope lc tenant)" unfolding audit_scope_eq by (rule newest.sorted_js_sort)
  then show ?thesis by (rule sorted_wrt_mono_rel [rotated]) (use scope_dated by_newest_newer in blast)
qed

end

section \<open>Actors\<close>

lemma set_map_set_known:
  assumes "\<forall>(k, v) \<in> set m. k = f v" "inj_on f (insert v (snd ` set m))"
  shows "set (map_set m (f v) v) = insert (f v, v) (set m)"
  using assms
proof (induction m)
  case Nil
  then show ?case by simp
next
  case (Cons p m)
  obtain w where p: "p = (f w, w)" using Cons.prems(1) by (cases p) simp
  show ?case
  proof (cases "f w = f v")
    case True
    have "w \<in> insert v (snd ` set (p # m))" by (simp add: p)
    then have "w = v" using True by (intro inj_onD [OF Cons.prems(2)]) simp_all
    with p show ?thesis by simp
  next
    case False
    have "inj_on f (insert v (snd ` set m))" using Cons.prems(2) by (rule inj_on_subset) auto
    then have "set (map_set m (f v) v) = insert (f v, v) (set m)" using Cons.prems(1) by (intro Cons.IH) simp_all
    with False p show ?thesis by (simp add: insert_commute)
  qed
qed

lemma set_fold_map_set:
  assumes "\<forall>(k, v) \<in> set m. k = f v" "inj_on f (set xs \<union> snd ` set m)"
  shows "set (fold (\<lambda>v m. map_set m (f v) v) xs m) = (\<lambda>v. (f v, v)) ` set xs \<union> set m"
  using assms
proof (induction xs arbitrary: m)
  case Nil
  then show ?case by simp
next
  case (Cons x xs)
  have "inj_on f (insert x (snd ` set m))" using Cons.prems(2) by (rule inj_on_subset) auto
  with Cons.prems(1) have eq: "set (map_set m (f x) x) = insert (f x, x) (set m)" by (rule set_map_set_known)
  have "inj_on f (set xs \<union> snd ` set (map_set m (f x) x))" unfolding eq using Cons.prems(2) by (rule inj_on_subset) auto
  with Cons.IH [of "map_set m (f x) x"] Cons.prems(1) show ?case by (auto simp: eq)
qed

lemma AUDIT_EVENTS_actors: "ae_actor ` set AUDIT_EVENTS \<subseteq> {HUMAN_OPS, HUMAN_ADMIN, RECONCILER, AUDIT_CI_BOT, INITECH_OPS}"
  by (simp add: AUDIT_EVENTS_def audit_fixture_defs)

lemma actors_inj: "inj_on at_id {HUMAN_OPS, HUMAN_ADMIN, RECONCILER, AUDIT_CI_BOT, INITECH_OPS}"
  by (simp add: actor_defs)

lemma fold_actors: "fold (\<lambda>e m. map_set m (at_id (ae_actor e)) (ae_actor e)) es m = fold (\<lambda>a m. map_set m (at_id a) a) (map ae_actor es) m"
  by (induction es arbitrary: m) simp_all

lemma map_wf_fold: "map_wf m \<Longrightarrow> map_wf (fold (\<lambda>a m. map_set m (f a) a) xs m)"
  by (induction xs arbitrary: m) simp_all

lemma scope_actors_spec:
  assumes "set scope \<subseteq> set AUDIT_EVENTS"
  shows "set (scope_actors lc scope) = ae_actor ` set scope" "distinct (map at_id (scope_actors lc scope))"
proof -
  let ?m = "fold (\<lambda>a m. map_set m (at_id a) a) (map ae_actor scope) []"
  have "inj_on at_id (set (map ae_actor scope) \<union> snd ` set [])"
    by (rule inj_on_subset [OF actors_inj]) (use assms AUDIT_EVENTS_actors in auto)
  then have m: "set ?m = (\<lambda>a. (at_id a, a)) ` ae_actor ` set scope" using set_fold_map_set [of "[]" at_id "map ae_actor scope"] by simp
  have "set (map_values ?m) = snd ` set ?m" by (rule set_map)
  then show "set (scope_actors lc scope) = ae_actor ` set scope" unfolding m by (simp add: scope_actors_def fold_actors image_image)
  have "\<forall>p \<in> set ?m. at_id (snd p) = fst p" unfolding m by auto
  then have "map at_id (map_values ?m) = map fst ?m" by simp
  then show "distinct (map at_id (scope_actors lc scope))" using map_wf_fold [of "[]" at_id "map ae_actor scope"]
    by (simp add: scope_actors_def fold_actors del: map_map)
qed

section \<open>Listing\<close>

definition known_scope :: "AuditFilter \<Rightarrow> bool" where
  "known_scope f \<longleftrightarrow> (\<forall>t. af_tenant f = Some t \<longrightarrow> t \<noteq> [] \<longrightarrow> findTenant t \<noteq> None)"

lemma listAuditEvents_eq:
  assumes "known_scope f"
  shows "\<exists>p. listAuditEvents lc f cursor now limit = Inr (Some p)
     \<and> (ap_items p, ap_nextCursor p) = offset_page (audit_rows lc f) limit cursor
     \<and> ap_actors p = scope_actors lc (audit_scope lc (af_tenant f))"
proof -
  have known: "\<not> (truthy (af_tenant f) \<and> findTenant (the (af_tenant f)) = None)"
    using assms by (auto simp: known_scope_def truthy_def split: option.splits)
  have scope: "set (audit_scope lc (af_tenant f)) \<subseteq> set AUDIT_EVENTS" by (auto simp: set_audit_scope)
  have "list_all AuditEventSchema_ok (slice a b (filter (event_matches f) (audit_scope lc (af_tenant f))))" for a b
    using set_slice scope AUDIT_EVENTS_ok unfolding list_all_iff by fastforce
  moreover have "list_all ActorSchema_ok (scope_actors lc (audit_scope lc (af_tenant f)))"
    using AUDIT_EVENTS_ok scope scope_actors_spec(1) [OF scope] unfolding list_all_iff AuditEventSchema_ok_def by auto
  ultimately show ?thesis using known
    by (auto simp: listAuditEvents_def audit_rows_def offset_page_def Let_def AuditPageSchema_ok_def)
qed

definition audit_page :: "(string \<Rightarrow> string \<Rightarrow> int) \<Rightarrow> AuditFilter \<Rightarrow> instant \<Rightarrow> nat \<Rightarrow> string option \<Rightarrow> AuditEvent list \<times> string option" where
  "audit_page lc f now limit cursor =
     (case listAuditEvents lc f cursor now limit of
        Inr (Some p) \<Rightarrow> (ap_items p, ap_nextCursor p)
      | _ \<Rightarrow> ([], None))"

lemma audit_page_eq: "known_scope f \<Longrightarrow> audit_page lc f now limit cursor = offset_page (audit_rows lc f) limit cursor"
  using listAuditEvents_eq [of f lc cursor now limit] by (auto simp: audit_page_def)

interpretation platform_pages: offset_pager
  "audit_page lc \<lparr>af_tenant = None, af_actor = actor, af_action = action\<rparr> now (Suc n)"
  "audit_rows lc \<lparr>af_tenant = None, af_actor = actor, af_action = action\<rparr>" "Suc n" for lc actor action now n
  by unfold_locales (simp_all add: audit_page_eq known_scope_def)

lemma audit_pager: "known_scope f \<Longrightarrow> 0 < limit \<Longrightarrow> offset_pager (audit_page lc f now limit) (audit_rows lc f) limit"
  by unfold_locales (simp_all add: audit_page_eq)

section \<open>Exports\<close>

lemma hex_id_ne: "hex_id 10 u \<noteq> []"
  using hex_n_hex_id [of 10 u] by (auto simp: hex_n_iff)

lemma requestAuditExport_eq:
  "requestAuditExport slug key u E =
     (if findTenant slug = None then (E, Inr None)
      else case map_get E (export_key slug key) of
             Some existing \<Rightarrow> (E, Inr (Some existing))
           | None \<Rightarrow> (map_set E (export_key slug key) \<lparr>ex_exportId = ''exp_'' @ hex_id 10 u\<rparr>,
                      Inr (Some \<lparr>ex_exportId = ''exp_'' @ hex_id 10 u\<rparr>)))"
  by (simp add: requestAuditExport_def ExportResponseSchema_ok_def split: option.split)

text \<open>Slugs have no colon, so the joined key determines both of its parts.\<close>

lemma fixture_slug_no_colon: "findTenant slug \<noteq> None \<Longrightarrow> CHR '':'' \<notin> set slug"
  by (auto simp: findTenant_None TENANTS_slugs)

lemma export_key_inject:
  assumes "findTenant slug \<noteq> None" "findTenant slug' \<noteq> None"
  shows "export_key slug key = export_key slug' key' \<longleftrightarrow> slug = slug' \<and> key = key'"
proof
  assume eq: "export_key slug key = export_key slug' key'"
  have "takeWhile (\<lambda>c. c \<noteq> CHR '':'') (export_key s k) = s" if "findTenant s \<noteq> None" for s k
    using fixture_slug_no_colon [OF that] by (auto simp: export_key_def intro!: takeWhile_append2 [THEN trans])
  then have "slug = slug'" using assms eq by metis
  with eq show "slug = slug' \<and> key = key'" by (simp add: export_key_def)
qed simp

definition export_answer :: "exports \<Rightarrow> string \<times> string \<Rightarrow> ExportResponse option throws option" where
  "export_answer E k =
     (if findTenant (fst k) = None then None else map_option (\<lambda>r. Inr (Some r)) (map_get E (export_key (fst k) (snd k))))"

definition export_accepted :: "ExportResponse option throws \<Rightarrow> bool" where
  "export_accepted r \<longleftrightarrow> (\<exists>x. r = Inr (Some x))"

type_synonym export_op = "string \<times> string \<times> 128 word"

definition export_step :: "exports \<Rightarrow> export_op \<Rightarrow> exports" where
  "export_step E op = (case op of (slug, key, u) \<Rightarrow> fst (requestAuditExport slug key u E))"

interpretation export_log: keyed_log "\<lambda>k u. requestAuditExport (fst k) (snd k) u" export_answer export_accepted export_step
  by unfold_locales
    (auto simp: export_answer_def export_accepted_def export_step_def requestAuditExport_eq split: option.splits if_splits)

section \<open>The filter in the URL\<close>

lemma action_roundtrip [simp]: "AuditActionSchema_parse (Some (action_name a)) = Some a" "action_name a \<noteq> []"
  by (cases a; simp add: AuditActionSchema_parse_def AUDIT_ACTIONS_def)+

lemma nonempty_idem [simp]: "nonempty (nonempty s) = nonempty s"
  by (auto simp: nonempty_def)

text \<open>What the browser prints for the platform stream, the route reads back as the normalised filter.\<close>

lemma audit_params_roundtrip:
  "\<exists>ps. URLSearchParams (params_toString (audit_params f None cursor)) = Some ps
     \<and> auditFilterFromSearch ps = normalizeAuditFilter f \<and> nonempty (map_get ps ''cursor'') = nonempty cursor"
proof -
  have get: "map_get (audit_params f None cursor) ''tenant'' = nonempty (af_tenant f)"
    "map_get (audit_params f None cursor) ''actor'' = nonempty (af_actor f)"
    "map_get (audit_params f None cursor) ''action'' = map_option action_name (af_action f)"
    "map_get (audit_params f None cursor) ''cursor'' = nonempty cursor"
    by (auto simp: audit_params_def nonempty_def truthy_def split: option.splits)
  have "AuditActionSchema_parse (nonempty (map_option action_name (af_action f))) = af_action f"
  proof (cases "af_action f")
    case None
    then show ?thesis by (simp add: nonempty_def truthy_def AuditActionSchema_parse_def)
  next
    case (Some a)
    then show ?thesis by (simp add: nonempty_def truthy_def)
  qed
  then show ?thesis by (simp add: URLSearchParams_toString auditFilterFromSearch_def normalizeAuditFilter_def get)
qed

section \<open>Properties\<close>

text \<open>
  The audit stream is complete, newest first, and its actor list is exact. For any collation, any
  filter on a known scope and any page size, every page passes its schema, following the cursors
  ends and yields exactly the matching events of the scope, each once, newest first; and every
  page offers exactly the actors that occur in the scope, each once, ordered by label.
\<close>

theorem listAuditEvents_complete:
  assumes "collation lc" and "known_scope f" and "0 < limit" and "length (audit_rows lc f) < n"
  shows "walk n (audit_page lc f now limit) None = Some (audit_rows lc f)
    \<and> mset (audit_rows lc f) = mset (filter (\<lambda>e. in_audit_scope (af_tenant f) e \<and> event_matches f e) AUDIT_EVENTS)
    \<and> sorted_wrt newer_first (audit_rows lc f) \<and> distinct (map ae_id (audit_rows lc f))
    \<and> (\<forall>cursor. \<exists>p. listAuditEvents lc f cursor now limit = Inr (Some p) \<and> length (ap_items p) \<le> limit
         \<and> set (ap_actors p) = ae_actor ` {e \<in> set AUDIT_EVENTS. in_audit_scope (af_tenant f) e}
         \<and> distinct (map at_id (ap_actors p)) \<and> sorted_wrt (\<lambda>a b. lc (at_label a) (at_label b) \<le> 0) (ap_actors p))"
proof -
  have scope: "set (audit_scope lc (af_tenant f)) \<subseteq> set AUDIT_EVENTS" by (auto simp: set_audit_scope)
  have walk: "walk n (audit_page lc f now limit) None = Some (audit_rows lc f)"
    using offset_pager.pages_complete [OF audit_pager [OF assms(2,3)] assms(4)] .
  have rows: "mset (audit_rows lc f) = mset (filter (\<lambda>e. in_audit_scope (af_tenant f) e \<and> event_matches f e) AUDIT_EVENTS)"
    by (simp add: audit_rows_def audit_scope_eq filter_filter_mset)
  have sorted: "sorted_wrt newer_first (audit_rows lc f)"
    unfolding audit_rows_def by (rule sorted_wrt_filter) (rule collation.scope_sorted [OF assms(1)])
  have dist: "distinct (map ae_id (audit_rows lc f))"
    unfolding audit_rows_def audit_scope_eq using AUDIT_EVENTS_ids by (simp add: distinct_map_filter)
  have actors: "set (scope_actors lc (audit_scope lc (af_tenant f))) = ae_actor ` {e \<in> set AUDIT_EVENTS. in_audit_scope (af_tenant f) e}"
    "distinct (map at_id (scope_actors lc (audit_scope lc (af_tenant f))))"
    using scope_actors_spec [OF scope, of lc] by (simp_all add: set_audit_scope)
  have labels: "sorted_wrt (\<lambda>a b. lc (at_label a) (at_label b) \<le> 0) (scope_actors lc (audit_scope lc (af_tenant f)))"
    by (rule collation.actors_by_label [OF assms(1)])
  have "length (fst (offset_page (audit_rows lc f) limit cursor)) \<le> limit" for cursor
    by (simp add: offset_page_def Let_def length_slice)
  then have "\<exists>p. listAuditEvents lc f cursor now limit = Inr (Some p) \<and> length (ap_items p) \<le> limit
       \<and> ap_actors p = scope_actors lc (audit_scope lc (af_tenant f))" for cursor
    using listAuditEvents_eq [OF assms(2), of lc cursor now limit] by (metis fst_conv)
  with actors labels have "\<exists>p. listAuditEvents lc f cursor now limit = Inr (Some p) \<and> length (ap_items p) \<le> limit
         \<and> set (ap_actors p) = ae_actor ` {e \<in> set AUDIT_EVENTS. in_audit_scope (af_tenant f) e}
         \<and> distinct (map at_id (ap_actors p)) \<and> sorted_wrt (\<lambda>a b. lc (at_label a) (at_label b) \<le> 0) (ap_actors p)" for cursor
    by fastforce
  with walk rows sorted dist show ?thesis by blast
qed

text \<open>
  C29: an export is queued once per tenant and Idempotency-Key. The request never throws; once it
  has been answered for a known tenant, every later request with the same tenant and key answers
  the same export and changes nothing, whatever requests happened in between; and it does not
  touch the answers of other tenants or keys, although both are joined into one string.
\<close>

theorem requestAuditExport_once:
  assumes "requestAuditExport slug key u E = (E', Inr (Some r))"
  shows "requestAuditExport slug key v (run export_step E' later) = (run export_step E' later, Inr (Some r))
    \<and> (\<forall>slug' key'. findTenant slug' \<noteq> None \<and> (slug', key') \<noteq> (slug, key) \<longrightarrow>
         export_answer E' (slug', key') = export_answer E (slug', key'))"
proof
  show "requestAuditExport slug key v (run export_step E' later) = (run export_step E' later, Inr (Some r))"
    using export_log.perform_later [of "(slug, key)" u E E' "Inr (Some r)" v later] assms by (simp add: export_accepted_def)
  have known: "findTenant slug \<noteq> None" using assms by (auto simp: requestAuditExport_eq split: if_splits)
  have "map_get E' k = map_get E k" if "k \<noteq> export_key slug key" for k
    using assms that known by (auto simp: requestAuditExport_eq split: option.splits)
  then show "\<forall>slug' key'. findTenant slug' \<noteq> None \<and> (slug', key') \<noteq> (slug, key) \<longrightarrow>
      export_answer E' (slug', key') = export_answer E (slug', key')"
    using export_key_inject [OF _ known] by (auto simp: export_answer_def)
qed

text \<open>The stream knows the canonical tenants only: a tenant created in the console reads as not found.\<close>

lemma created_tenant_no_audit:
  assumes "tenants_wf T" "map_get T slug = Some c"
  shows "tenant_of T slug \<noteq> None \<and> listAuditEvents lc \<lparr>af_tenant = Some slug, af_actor = a, af_action = b\<rparr> cursor now limit = Inr None
    \<and> requestAuditExport slug key u E = (E, Inr None)"
proof -
  have "findTenant slug = None" "slug \<noteq> []"
    using created_okD [OF assms] by (auto simp: created_ok_def SlugSchema_ok_def SLUG_MIN_def)
  then show ?thesis using tenant_of_created(1) [OF assms] by (simp add: listAuditEvents_def truthy_def requestAuditExport_def)
qed

section \<open>Witnesses\<close>

lemma AUDIT_EVENTS_length: "length AUDIT_EVENTS = 17"
  by (simp add: AUDIT_EVENTS_def audit_fixture_defs)

theorem listAuditEvents_complete_witness:
  "walk 18 (audit_page unit_cmp \<lparr>af_tenant = Some ''acme-air'', af_actor = None, af_action = Some SpecUpdated\<rparr> 0 AUDIT_PAGE_SIZE) None
     = Some (audit_rows unit_cmp \<lparr>af_tenant = Some ''acme-air'', af_actor = None, af_action = Some SpecUpdated\<rparr>)
   \<and> sorted_wrt newer_first (audit_rows unit_cmp \<lparr>af_tenant = Some ''acme-air'', af_actor = None, af_action = Some SpecUpdated\<rparr>)"
proof -
  let ?f = "\<lparr>af_tenant = Some ''acme-air'', af_actor = None, af_action = Some SpecUpdated\<rparr>"
  have "known_scope ?f" by (simp add: known_scope_def findTenant_None TENANTS_slugs)
  moreover have "length (audit_rows unit_cmp ?f) < 18"
    using length_filter_le [of "event_matches ?f" "audit_scope unit_cmp (Some ''acme-air'')"]
      length_filter_le [of "in_audit_scope (Some ''acme-air'')" AUDIT_EVENTS]
    by (simp add: audit_rows_def audit_scope_eq AUDIT_EVENTS_length)
  ultimately show ?thesis
    using listAuditEvents_complete [OF plain.collation_axioms, of ?f AUDIT_PAGE_SIZE 18 0] by (simp add: AUDIT_PAGE_SIZE_def)
qed

theorem requestAuditExport_once_witness:
  "\<exists>E r. requestAuditExport ''acme-air'' ''k1'' 5 [] = (E, Inr (Some r))
     \<and> requestAuditExport ''acme-air'' ''k1'' 9 (run export_step E [(''acme-air'', ''k2'', 7)])
         = (run export_step E [(''acme-air'', ''k2'', 7)], Inr (Some r))"
proof -
  have "findTenant ''acme-air'' \<noteq> None" by (simp add: findTenant_None TENANTS_slugs)
  then obtain E r where e: "requestAuditExport ''acme-air'' ''k1'' 5 [] = (E, Inr (Some r))" by (simp add: requestAuditExport_eq)
  from requestAuditExport_once [OF e, of 9 "[(''acme-air'', ''k2'', 7)]"] e show ?thesis by blast
qed

end
