(* ===== verification/Dashboard.thy ===== *)
theory Dashboard
  imports Tenants_Data
begin

text \<open>
  The platform overview and the shell summary (\<^verbatim>\<open>features/dashboard\<close>): figures for a time window, with twelve
  outcome buckets that tile it. A ratio is kept as numerator and denominator, a fraction of a
  second in tenths.
\<close>

section \<open>Schemas\<close>

datatype Window = W_1h | W_6h | W_24h | W_7d

definition DEFAULT_WINDOW :: Window where
  "DEFAULT_WINDOW = W_24h"

fun window_name :: "Window \<Rightarrow> string" where
  "window_name W_1h = ''1h''"
| "window_name W_6h = ''6h''"
| "window_name W_24h = ''24h''"
| "window_name W_7d = ''7d''"

definition WINDOWS :: "Window list" where
  "WINDOWS = [W_1h, W_6h, W_24h, W_7d]"

definition WindowSchema_parse :: "string \<Rightarrow> Window option" where
  "WindowSchema_parse s = List.find (\<lambda>w. window_name w = s) WINDOWS"

fun WINDOW_LABELS :: "Window \<Rightarrow> string" where
  "WINDOW_LABELS W_1h = ''Last hour''"
| "WINDOW_LABELS W_6h = ''Last 6h''"
| "WINDOW_LABELS W_24h = ''Last 24h''"
| "WINDOW_LABELS W_7d = ''Last 7 days''"

record OutcomeBucket =
  bk_startsAt :: string
  bk_ready :: nat
  bk_degraded :: nat
  bk_failed :: nat

datatype AttentionKind = Failed_attention | Degraded_attention | Drift_attention | Applying_attention

record AttentionItem =
  ai_slug :: string
  ai_kind :: AttentionKind
  ai_label :: string
  ai_reason :: string
  ai_href :: string

record DashboardOverview =
  do_generatedAt :: string
  do_window :: Window
  do_total :: nat
  do_converged :: nat
  do_byPhase :: "Phase \<Rightarrow> nat"
  do_p95Seconds :: nat
  do_sloSeconds :: nat
  do_driftOpen :: nat
  do_tenantsAffected :: nat
  do_outboxDepth :: nat
  do_outboxLagTenths :: nat
  do_runs :: nat
  do_successRate :: "nat \<times> nat"
  do_buckets :: "OutcomeBucket list"
  do_needsAttention :: "AttentionItem list"

definition DashboardOverviewSchema_ok :: "DashboardOverview \<Rightarrow> bool" where
  "DashboardOverviewSchema_ok d \<longleftrightarrow>
     0 < do_sloSeconds d \<and> 0 < snd (do_successRate d) \<and> fst (do_successRate d) \<le> snd (do_successRate d)
     \<and> length (do_buckets d) = 12"

datatype DependencyStatus = Dep_ok | Dep_degraded | Dep_down

record ShellSummary =
  sh_reconcileRuns :: nat
  sh_drift :: nat
  sh_dependencies :: "(string \<times> DependencyStatus) list"

section \<open>Fixtures\<close>

definition BUCKET_COUNTS :: "(nat \<times> nat \<times> nat) list" where
  "BUCKET_COUNTS =
     [(16, 0, 0), (20, 0, 0), (14, 2, 0), (25, 0, 0), (18, 0, 0), (11, 0, 4),
      (31, 0, 0), (23, 0, 0), (27, 0, 0), (17, 3, 0), (34, 0, 0), (29, 0, 0)]"

fun windowMs :: "Window \<Rightarrow> nat" where
  "windowMs W_1h = 60 * 60 * 1000"
| "windowMs W_6h = 6 * 60 * 60 * 1000"
| "windowMs W_24h = 24 * 60 * 60 * 1000"
| "windowMs W_7d = 7 * 24 * 60 * 60 * 1000"

text \<open>
  Every window is a multiple of twelve milliseconds, so the span is a whole number. Instants count from 1970:
  the series is read with a clock at least a week past it.
\<close>

definition buckets :: "Window \<Rightarrow> instant \<Rightarrow> OutcomeBucket list" where
  "buckets window now =
     (let spanMs = windowMs window div length BUCKET_COUNTS
      in map (\<lambda>(i, ready, degraded, failed).
           \<lparr>bk_startsAt = toISOString (now - (length BUCKET_COUNTS - i) * spanMs),
            bk_ready = ready, bk_degraded = degraded, bk_failed = failed\<rparr>)
         (enumerate 0 BUCKET_COUNTS))"

definition NEEDS_ATTENTION :: "AttentionItem list" where
  "NEEDS_ATTENTION =
     [\<lparr>ai_slug = ''northwind-rail'', ai_kind = Failed_attention, ai_label = ''Failed'',
       ai_reason = ''8/8 attempts exhausted'' @ middot @ ''IdP connection create returned 400'', ai_href = ''/tenants/northwind-rail''\<rparr>,
      \<lparr>ai_slug = ''acme-air'', ai_kind = Degraded_attention, ai_label = ''Degraded'',
       ai_reason = ''retry in 45s'' @ middot @ ''OpenFGA tuple write timed out'', ai_href = ''/tenants/acme-air''\<rparr>,
      \<lparr>ai_slug = ''globex-logistics'', ai_kind = Drift_attention, ai_label = ''Drift '' @ [CHR 0xD7] @ ''4'',
       ai_reason = ''claimMappings.email changed out-of-band 6m ago'', ai_href = ''/drift?tenant=globex-logistics''\<rparr>,
      \<lparr>ai_slug = ''initech-labs'', ai_kind = Applying_attention, ai_label = ''Applying'',
       ai_reason = ''gen 7'' @ middot @ ''3 of 5 changes applied'', ai_href = ''/tenants/initech-labs''\<rparr>]"

definition dashboardFixture :: "Window \<Rightarrow> instant \<Rightarrow> DashboardOverview" where
  "dashboardFixture window now =
     (let series = buckets window now;
          runs = sum_list (map (\<lambda>b. bk_ready b + bk_degraded b + bk_failed b) series);
          failed = sum_list (map bk_failed series);
          degraded = sum_list (map bk_degraded series)
      in \<lparr>do_generatedAt = toISOString now, do_window = window, do_total = 42, do_converged = 38,
          do_byPhase = (\<lambda>p. case p of Applying \<Rightarrow> 1 | Ready \<Rightarrow> 38 | Degraded \<Rightarrow> 2 | Failed \<Rightarrow> 1 | _ \<Rightarrow> 0),
          do_p95Seconds = 21, do_sloSeconds = 30, do_driftOpen = 7, do_tenantsAffected = 3,
          do_outboxDepth = 4, do_outboxLagTenths = 12,
          do_runs = runs, do_successRate = (runs - failed - degraded, runs), do_buckets = series,
          do_needsAttention = NEEDS_ATTENTION\<rparr>)"

definition shellFixture :: ShellSummary where
  "shellFixture =
     \<lparr>sh_reconcileRuns = 12, sh_drift = 7,
      sh_dependencies = [(''Zitadel'', Dep_ok), (''OpenFGA'', Dep_ok), (''Postgres'', Dep_ok), (''Redis'', Dep_degraded)]\<rparr>"

section \<open>Operations\<close>

definition getDashboardOverview :: "Window \<Rightarrow> instant \<Rightarrow> DashboardOverview throws" where
  "getDashboardOverview window now = parse_with DashboardOverviewSchema_ok (dashboardFixture window now)"

definition getShellSummary :: "ShellSummary throws" where
  "getShellSummary = parse_with (\<lambda>_. True) shellFixture"

section \<open>The figures agree\<close>

lemma window_roundtrip: "WindowSchema_parse (window_name w) = Some w"
  by (cases w) (simp_all add: WindowSchema_parse_def WINDOWS_def)

lemma length_BUCKET_COUNTS [simp]: "length BUCKET_COUNTS = 12"
  by (simp add: BUCKET_COUNTS_def)

lemma length_buckets: "length (buckets w now) = 12"
  by (simp add: buckets_def Let_def)

text \<open>Bucket \<open>i\<close> of the series, and so the series as a map over the counts.\<close>

lemma buckets_nth:
  assumes "i < 12"
  shows "buckets w now ! i =
    \<lparr>bk_startsAt = toISOString (now - (12 - i) * (windowMs w div 12)), bk_ready = fst (BUCKET_COUNTS ! i),
     bk_degraded = fst (snd (BUCKET_COUNTS ! i)), bk_failed = snd (snd (BUCKET_COUNTS ! i))\<rparr>"
  using assms by (simp add: buckets_def Let_def nth_enumerate_eq split_beta)

lemma bucket_counts:
  "map bk_ready (buckets w now) = map fst BUCKET_COUNTS"
  "map bk_degraded (buckets w now) = map (fst \<circ> snd) BUCKET_COUNTS"
  "map bk_failed (buckets w now) = map (snd \<circ> snd) BUCKET_COUNTS"
  by (simp_all add: list_eq_iff_nth_eq length_buckets buckets_nth)

lemma bucket_totals:
  "sum_list (map bk_failed (buckets w now)) = 4" "sum_list (map bk_degraded (buckets w now)) = 5"
  "sum_list (map (\<lambda>b. bk_ready b + bk_degraded b + bk_failed b) (buckets w now)) = 274"
  by (simp_all add: sum_list_addf bucket_counts) (simp_all add: BUCKET_COUNTS_def)

text \<open>The overview always passes its schema, counts every run once, and agrees with the fleet totals of the tenant list.\<close>

lemma getDashboardOverview_ok:
  "getDashboardOverview w now = Inr (dashboardFixture w now)"
  by (simp add: getDashboardOverview_def dashboardFixture_def DashboardOverviewSchema_ok_def Let_def bucket_totals length_buckets)

lemma dashboard_agrees_with_fleet:
  "do_total (dashboardFixture w now) = FLEET_TOTAL \<and> do_byPhase (dashboardFixture w now) = FLEET_BY_PHASE
     \<and> do_tenantsAffected (dashboardFixture w now) = FLEET_WITH_DRIFT"
  by (auto simp: dashboardFixture_def Let_def FLEET_TOTAL_def FLEET_WITH_DRIFT_def fun_eq_iff split: Phase.split)

text \<open>
  The buckets tile the window: the first starts a whole window before now, and each of the twelve
  starts where the one before it ends.
\<close>

lemma window_spans: "12 * (windowMs w div 12) = windowMs w"
  by (cases w) simp_all

lemma buckets_tile:
  assumes "windowMs w \<le> now"
  shows "bk_startsAt (buckets w now ! 0) = toISOString (now - windowMs w)"
    and "i < 12 \<Longrightarrow> bk_startsAt (buckets w now ! i) = toISOString ((now - windowMs w) + i * (windowMs w div 12))"
proof -
  show "bk_startsAt (buckets w now ! 0) = toISOString (now - windowMs w)"
    by (simp add: buckets_nth window_spans)
  assume i: "i < 12"
  have "(12 - i) * (windowMs w div 12) + i * (windowMs w div 12) = windowMs w"
    using i window_spans [of w] by (simp flip: distrib_right)
  with assms have "now - (12 - i) * (windowMs w div 12) = (now - windowMs w) + i * (windowMs w div 12)"
    by linarith
  with i show "bk_startsAt (buckets w now ! i) = toISOString ((now - windowMs w) + i * (windowMs w div 12))"
    by (simp add: buckets_nth)
qed

end
