(* ===== verification/New_Tenant.thy ===== *)
theory New_Tenant
  imports Tenants
begin

text \<open>
  The new-tenant wizard in the browser: the form reducer (\<^verbatim>\<open>components/new-tenant/form-state.ts\<close>), the slug
  check with its debounce (\<^verbatim>\<open>hooks.ts\<close>), and the three steps of \<^verbatim>\<open>new-tenant-wizard.tsx\<close> as a state machine
  whose only output is the body of POST /api/tenants. Shown: what the wizard submits, and exactly when the
  server accepts it.
\<close>

section \<open>The form\<close>

text \<open>The interval is a natural number: the schema refuses a negative or fractional one.\<close>

record NewTenantForm =
  nf_displayName :: string
  nf_slug :: string
  nf_slugEdited :: bool
  nf_startFrom :: StartFrom
  nf_copyFromSlug :: string
  nf_yaml :: string
  nf_starterModel :: StarterModel
  nf_autoHeal :: bool
  nf_resyncIntervalSeconds :: nat

definition INITIAL_FORM :: NewTenantForm where
  "INITIAL_FORM =
     \<lparr>nf_displayName = [], nf_slug = [], nf_slugEdited = False, nf_startFrom = Blank, nf_copyFromSlug = [], nf_yaml = [],
      nf_starterModel = Roles_only, nf_autoHeal = False, nf_resyncIntervalSeconds = 600\<rparr>"

datatype FormAction =
    Set_displayName string | Set_slug string | Set_startFrom StartFrom | Set_copyFromSlug string | Set_yaml string
  | Set_starterModel StarterModel | Set_autoHeal bool | Set_resyncIntervalSeconds nat

fun formReducer :: "(string \<Rightarrow> string) \<Rightarrow> NewTenantForm \<Rightarrow> FormAction \<Rightarrow> NewTenantForm" where
  "formReducer fd form (Set_displayName v) =
     form\<lparr>nf_displayName := v, nf_slug := (if nf_slugEdited form then nf_slug form else deriveSlug fd v)\<rparr>"
| "formReducer fd form (Set_slug v) = (let slug = toLowerCase v in form\<lparr>nf_slug := slug, nf_slugEdited := (slug \<noteq> [])\<rparr>)"
| "formReducer fd form (Set_startFrom v) = form\<lparr>nf_startFrom := v\<rparr>"
| "formReducer fd form (Set_copyFromSlug v) = form\<lparr>nf_copyFromSlug := v\<rparr>"
| "formReducer fd form (Set_yaml v) = form\<lparr>nf_yaml := v\<rparr>"
| "formReducer fd form (Set_starterModel v) = form\<lparr>nf_starterModel := v\<rparr>"
| "formReducer fd form (Set_autoHeal v) = form\<lparr>nf_autoHeal := v\<rparr>"
| "formReducer fd form (Set_resyncIntervalSeconds v) = form\<lparr>nf_resyncIntervalSeconds := v\<rparr>"

datatype SlugStatus = Slug_empty | Slug_invalid string | Slug_checking | Slug_available | Slug_taken string | Slug_error string

definition identityComplete :: "NewTenantForm \<Rightarrow> SlugStatus \<Rightarrow> bool" where
  "identityComplete form slug =
     (if length (trim (nf_displayName form)) = 0 then False
      else if slug \<noteq> Slug_available then False
      else if nf_startFrom form = Copy \<and> nf_copyFromSlug form = [] then False
      else if nf_startFrom form = Yaml \<and> length (trim (nf_yaml form)) = 0 then False
      else True)"

text \<open>Both spreads; the fields an object omits are \<open>None\<close>.\<close>

definition toSpecInput :: "NewTenantForm \<Rightarrow> CreateTenantInput" where
  "toSpecInput form =
     \<lparr>ci_displayName = nf_displayName form, ci_slug = nf_slug form, ci_startFrom = nf_startFrom form,
      ci_copyFromSlug = (if nf_startFrom form = Copy \<and> nf_copyFromSlug form \<noteq> [] then Some (nf_copyFromSlug form) else None),
      ci_yaml = (if nf_startFrom form = Yaml \<and> trim (nf_yaml form) \<noteq> [] then Some (nf_yaml form) else None),
      ci_starterModel = nf_starterModel form, ci_autoHeal = nf_autoHeal form,
      ci_resyncIntervalSeconds = nf_resyncIntervalSeconds form\<rparr>"

definition toCreateInput :: "NewTenantForm \<Rightarrow> CreateTenantInput" where
  "toCreateInput form =
     \<lparr>ci_displayName = trim (nf_displayName form), ci_slug = nf_slug form, ci_startFrom = nf_startFrom form,
      ci_copyFromSlug = (if nf_startFrom form = Copy \<and> nf_copyFromSlug form \<noteq> [] then Some (nf_copyFromSlug form) else None),
      ci_yaml = (if nf_startFrom form = Yaml \<and> trim (nf_yaml form) \<noteq> [] then Some (nf_yaml form) else None),
      ci_starterModel = nf_starterModel form, ci_autoHeal = nf_autoHeal form,
      ci_resyncIntervalSeconds = nf_resyncIntervalSeconds form\<rparr>"

section \<open>The slug check\<close>

text \<open>What the query client holds for one slug: nothing yet, an error, or an answer.\<close>

datatype slug_query = Query_pending | Query_error string | Query_data SlugCheck

definition useSlugCheck :: "string \<Rightarrow> string \<Rightarrow> (string \<Rightarrow> slug_query) \<Rightarrow> SlugStatus" where
  "useSlugCheck slug debounced query =
     (if length slug = 0 then Slug_empty
      else case validateSlug slug of
        Some immediate \<Rightarrow> Slug_invalid immediate
      | None \<Rightarrow>
          if slug \<noteq> debounced then Slug_checking
          else (case query debounced of
                  Query_pending \<Rightarrow> Slug_checking
                | Query_error message \<Rightarrow> Slug_error message
                | Query_data d \<Rightarrow>
                    if sc_available d then Slug_available
                    else Slug_taken (case sc_reason d of Some r \<Rightarrow> r | None \<Rightarrow> ''taken'')))"

section \<open>The wizard\<close>

datatype WizardStep = Identity_step | Authorization_step | Review_step

fun step_name :: "WizardStep \<Rightarrow> string" where
  "step_name Identity_step = ''identity''"
| "step_name Authorization_step = ''authorization''"
| "step_name Review_step = ''review''"

definition WIZARD_STEPS :: "WizardStep list" where
  "WIZARD_STEPS = [Identity_step, Authorization_step, Review_step]"

definition parseWizardStep :: "string option \<Rightarrow> WizardStep" where
  "parseWizardStep raw =
     (case raw of
        None \<Rightarrow> Identity_step
      | Some s \<Rightarrow> (case List.find (\<lambda>w. step_name w = s) WIZARD_STEPS of Some w \<Rightarrow> w | None \<Rightarrow> Identity_step))"

definition wizardHref :: "WizardStep \<Rightarrow> string" where
  "wizardHref w = (if w = Identity_step then ''/tenants/new'' else ''/tenants/new?step='' @ step_name w)"

text \<open>
  The component's state: the form, the step of the URL, the debounced slug, the answers of the query client, and
  whether a create is in flight.
\<close>

record wizard =
  wz_form :: NewTenantForm
  wz_url :: WizardStep
  wz_debounced :: string
  wz_query :: "string \<Rightarrow> slug_query"
  wz_creating :: bool

definition wizard_start :: "string option \<Rightarrow> wizard" where
  "wizard_start raw =
     \<lparr>wz_form = INITIAL_FORM, wz_url = parseWizardStep raw, wz_debounced = [], wz_query = (\<lambda>_. Query_pending), wz_creating = False\<rparr>"

definition slugStatus :: "wizard \<Rightarrow> SlugStatus" where
  "slugStatus w = useSlugCheck (nf_slug (wz_form w)) (wz_debounced w) (wz_query w)"

definition identityDone :: "wizard \<Rightarrow> bool" where
  "identityDone w \<longleftrightarrow> identityComplete (wz_form w) (slugStatus w)"

definition reachable_step :: "wizard \<Rightarrow> WizardStep \<Rightarrow> bool" where
  "reachable_step w target \<longleftrightarrow> target = Identity_step \<or> identityDone w"

definition wizard_at :: "wizard \<Rightarrow> WizardStep" where
  "wizard_at w = (if reachable_step w (wz_url w) then wz_url w else Identity_step)"

text \<open>The effect that keeps the URL honest, run after every render.\<close>

definition keep_url_honest :: "wizard \<Rightarrow> wizard" where
  "keep_url_honest w = (if wz_url w \<noteq> Identity_step \<and> \<not> identityDone w then w\<lparr>wz_url := Identity_step\<rparr> else w)"

definition goTo :: "wizard \<Rightarrow> WizardStep \<Rightarrow> wizard" where
  "goTo w next = (if \<not> reachable_step w next then w else w\<lparr>wz_url := next\<rparr>)"

definition previous_step :: "WizardStep \<Rightarrow> WizardStep option" where
  "previous_step w = (case w of Identity_step \<Rightarrow> None | Authorization_step \<Rightarrow> Some Identity_step | Review_step \<Rightarrow> Some Authorization_step)"

text \<open>
  What can happen to it: an edit, the debounce timer, an answer for some slug, the browser's back and
  forward buttons (any URL), the Back button, a submit of the form, and the end of a create.
\<close>

datatype wizard_event =
    Edit FormAction | Typing_stopped | Check_settled string slug_query | History_moved "string option" | Back_pressed | Submitted
  | Create_settled

definition on_submit :: "wizard \<Rightarrow> wizard \<times> CreateTenantInput option" where
  "on_submit w =
     (case wizard_at w of
        Identity_step \<Rightarrow> (goTo w Authorization_step, None)
      | Authorization_step \<Rightarrow> (goTo w Review_step, None)
      | Review_step \<Rightarrow> if wz_creating w then (w, None) else (w\<lparr>wz_creating := True\<rparr>, Some (toCreateInput (wz_form w))))"

fun wizard_react :: "(string \<Rightarrow> string) \<Rightarrow> wizard \<Rightarrow> wizard_event \<Rightarrow> wizard \<times> CreateTenantInput option" where
  "wizard_react fd w (Edit a) = (w\<lparr>wz_form := formReducer fd (wz_form w) a\<rparr>, None)"
| "wizard_react fd w Typing_stopped = (w\<lparr>wz_debounced := nf_slug (wz_form w)\<rparr>, None)"
| "wizard_react fd w (Check_settled slug r) = (w\<lparr>wz_query := (wz_query w)(slug := r)\<rparr>, None)"
| "wizard_react fd w (History_moved raw) = (w\<lparr>wz_url := parseWizardStep raw\<rparr>, None)"
| "wizard_react fd w Back_pressed =
     (case previous_step (wizard_at w) of Some p \<Rightarrow> (goTo w p, None) | None \<Rightarrow> (w, None))"
| "wizard_react fd w Submitted = on_submit w"
| "wizard_react fd w Create_settled = (w\<lparr>wz_creating := False\<rparr>, None)"

definition wizard_do :: "(string \<Rightarrow> string) \<Rightarrow> wizard \<Rightarrow> wizard_event \<Rightarrow> wizard" where
  "wizard_do fd w x = keep_url_honest (fst (wizard_react fd w x))"

definition wizard_after :: "(string \<Rightarrow> string) \<Rightarrow> string option \<Rightarrow> wizard_event list \<Rightarrow> wizard" where
  "wizard_after fd raw xs = run (wizard_do fd) (keep_url_honest (wizard_start raw)) xs"

section \<open>The form follows the name\<close>

text \<open>A slug the operator did not type is the one derived from the name, or was just cleared; a typed one is lower case.\<close>

definition form_ok :: "(string \<Rightarrow> string) \<Rightarrow> NewTenantForm \<Rightarrow> bool" where
  "form_ok fd f \<longleftrightarrow>
     (if nf_slugEdited f then nf_slug f \<noteq> [] \<and> toLowerCase (nf_slug f) = nf_slug f
      else nf_slug f \<in> {[], deriveSlug fd (nf_displayName f)})"

lemma formReducer_ok: "form_ok fd f \<Longrightarrow> form_ok fd (formReducer fd f a)"
  by (cases a) (auto simp: form_ok_def Let_def toLowerCase_idem)

section \<open>Where the wizard can be\<close>

definition wizard_ok :: "(string \<Rightarrow> string) \<Rightarrow> wizard \<Rightarrow> bool" where
  "wizard_ok fd w \<longleftrightarrow> form_ok fd (wz_form w) \<and> (wz_url w = Identity_step \<or> identityDone w)"

lemma honest_ok: "form_ok fd (wz_form w) \<Longrightarrow> wizard_ok fd (keep_url_honest w)"
  by (auto simp: wizard_ok_def keep_url_honest_def identityDone_def slugStatus_def)

lemma react_form: "wz_form (fst (wizard_react fd w x)) = (case x of Edit a \<Rightarrow> formReducer fd (wz_form w) a | _ \<Rightarrow> wz_form w)"
  by (cases x) (auto simp: on_submit_def goTo_def split: WizardStep.split option.split)

interpretation wizard_runs: transition_system "wizard_do fd" "wizard_ok fd" for fd
proof
  fix w x
  assume "wizard_ok fd w"
  then show "wizard_ok fd (wizard_do fd w x)"
    unfolding wizard_do_def by (intro honest_ok) (auto simp: react_form wizard_ok_def formReducer_ok split: wizard_event.split)
qed

lemma wizard_after_ok: "wizard_ok fd (wizard_after fd raw xs)"
  unfolding wizard_after_def by (rule wizard_runs.run_inv) (auto intro!: honest_ok simp: wizard_start_def INITIAL_FORM_def form_ok_def)

lemma available_answer:
  assumes "useSlugCheck slug debounced query = Slug_available"
  shows "validateSlug slug = None" and "\<exists>d. query slug = Query_data d \<and> sc_available d"
  using assms by (auto simp: useSlugCheck_def split: if_splits option.splits slug_query.splits)

lemma submit_output:
  assumes "snd (wizard_react fd w x) = Some input"
  shows "x = Submitted \<and> wizard_at w = Review_step \<and> \<not> wz_creating w \<and> input = toCreateInput (wz_form w)"
  using assms by (cases x) (auto simp: on_submit_def split: WizardStep.splits if_splits option.splits)

lemma at_review: "wizard_at w = Review_step \<Longrightarrow> identityDone w"
  by (auto simp: wizard_at_def reachable_step_def split: if_splits)

text \<open>One create at a time: only its end lets another be sent.\<close>

definition wizard_sends :: "(string \<Rightarrow> string) \<Rightarrow> wizard \<Rightarrow> wizard_event \<Rightarrow> bool" where
  "wizard_sends fd w x \<longleftrightarrow> snd (wizard_react fd w x) \<noteq> None"

interpretation wizard_flight: single_flight "wizard_do fd" "wizard_sends fd" wz_creating "\<lambda>x. x = Create_settled" for fd
proof
  fix w x
  assume s: "wizard_sends fd w x"
  then obtain input where out: "snd (wizard_react fd w x) = Some input" by (auto simp: wizard_sends_def)
  note o = submit_output [OF out]
  show "\<not> wz_creating w" using o by blast
  show "wz_creating (wizard_do fd w x)" using o by (simp add: wizard_do_def on_submit_def keep_url_honest_def)
next
  fix w :: wizard and x
  assume "wz_creating w" and "x \<noteq> Create_settled"
  then show "wz_creating (wizard_do fd w x)"
    by (cases x) (auto simp: wizard_do_def on_submit_def goTo_def keep_url_honest_def split: WizardStep.split option.split)
qed

text \<open>The preview the operator reviews is rendered from the same values.\<close>

lemma preview_trims: "specPreviewLines (i\<lparr>ci_displayName := trim (ci_displayName i)\<rparr>) = specPreviewLines i"
  by (simp add: specPreviewLines_def)

lemma preview_agrees: "specYaml (toSpecInput f) = specYaml (toCreateInput f)"
proof -
  have "toCreateInput f = (toSpecInput f)\<lparr>ci_displayName := trim (ci_displayName (toSpecInput f))\<rparr>"
    by (simp add: toCreateInput_def toSpecInput_def)
  then show ?thesis by (simp only: specYaml_def preview_trims)
qed

lemma identityCompleteD:
  assumes "identityComplete f s"
  shows "trim (nf_displayName f) \<noteq> []" "s = Slug_available" "nf_startFrom f = Copy \<Longrightarrow> nf_copyFromSlug f \<noteq> []"
    "nf_startFrom f = Yaml \<Longrightarrow> trim (nf_yaml f) \<noteq> []"
  using assms by (auto simp: identityComplete_def split: if_splits)

lemma create_parse:
  "CreateTenantInputSchema_parse (toCreateInput f) =
     (if trim (nf_displayName f) \<noteq> [] \<and> length (trim (nf_displayName f)) \<le> 80 \<and> SlugSchema_ok (nf_slug f)
         \<and> (nf_startFrom f = Yaml \<and> trim (nf_yaml f) \<noteq> [] \<longrightarrow> length (nf_yaml f) \<le> 64000)
         \<and> 30 \<le> nf_resyncIntervalSeconds f \<and> nf_resyncIntervalSeconds f \<le> 86400
      then Inr (toCreateInput f) else Inl ZodError)"
  by (auto simp: CreateTenantInputSchema_parse_def toCreateInput_def Let_def Suc_le_eq)

section \<open>Properties\<close>

text \<open>
  C27: what the wizard submits. However the operator types, clicks and moves through the browser's history, and
  whatever the slug check answers and when, a create request is sent only when the form is complete and no create is
  in flight: it has a name, a valid slug that the server reported available under that very spelling, a
  source tenant or some YAML where the start asks for it; the spec it stands for is, letter for
  letter, the one under review; and until that create ends nothing is sent again, whatever is typed, pressed
  and answered in between.
\<close>

theorem wizard_submission:
  assumes "snd (wizard_react fd (wizard_after fd raw xs) x) = Some input"
  shows "ci_displayName input \<noteq> [] \<and> validateSlug (ci_slug input) = None
    \<and> (\<exists>d. wz_query (wizard_after fd raw xs) (ci_slug input) = Query_data d \<and> sc_available d)
    \<and> (ci_startFrom input = Copy \<longrightarrow> truthy (ci_copyFromSlug input))
    \<and> (ci_startFrom input = Yaml \<longrightarrow> truthy (map_option trim (ci_yaml input)))
    \<and> specYaml input = specYaml (toSpecInput (wz_form (wizard_after fd raw xs)))
    \<and> (\<forall>ys y. Create_settled \<notin> set ys \<longrightarrow> snd (wizard_react fd (run (wizard_do fd) (wizard_do fd (wizard_after fd raw xs) x) ys) y) = None)"
proof -
  define w where "w = wizard_after fd raw xs"
  have out: "x = Submitted" "wizard_at w = Review_step" "\<not> wz_creating w" "input = toCreateInput (wz_form w)"
    using submit_output [OF assms] by (simp_all add: w_def)
  have complete: "identityComplete (wz_form w) (slugStatus w)" using at_review [OF out(2)] by (simp add: identityDone_def)
  note c = identityCompleteD [OF complete]
  have "useSlugCheck (nf_slug (wz_form w)) (wz_debounced w) (wz_query w) = Slug_available" using c(2) by (simp add: slugStatus_def)
  note a = available_answer [OF this]
  have "wizard_sends fd w x" using assms by (simp add: w_def wizard_sends_def)
  then have "snd (wizard_react fd (run (wizard_do fd) (wizard_do fd w x) ys) y) = None" if "Create_settled \<notin> set ys" for ys y
    using wizard_flight.none_until_settled [of fd w x ys y] that by (auto simp: wizard_sends_def list_all_iff)
  with a c out(4) show ?thesis unfolding w_def
    by (auto simp: preview_agrees toCreateInput_def truthy_def)
qed

text \<open>
  C28: when the create is accepted. If the identity step is complete and the answer it rests on is what the
  server would answer now, creating the tenant succeeds exactly when the trimmed name has at most 80
  characters, pasted YAML at most 64000, and the resync interval lies between 30 and 86400 seconds: the
  conditions the wizard leaves to the server.
\<close>

theorem wizard_create_accepted:
  assumes "identityDone w" and "wz_query w (nf_slug (wz_form w)) = Query_data (isSlugAvailable T (nf_slug (wz_form w)))"
  shows "(\<exists>T' s. createTenant T (toCreateInput (wz_form w)) now = (T', Inr s)) \<longleftrightarrow>
    length (trim (nf_displayName (wz_form w))) \<le> 80 \<and> (nf_startFrom (wz_form w) = Yaml \<longrightarrow> length (nf_yaml (wz_form w)) \<le> 64000)
    \<and> 30 \<le> nf_resyncIntervalSeconds (wz_form w) \<and> nf_resyncIntervalSeconds (wz_form w) \<le> 86400"
proof -
  have complete: "identityComplete (wz_form w) (slugStatus w)" using assms(1) by (simp add: identityDone_def)
  note c = identityCompleteD [OF complete]
  have "useSlugCheck (nf_slug (wz_form w)) (wz_debounced w) (wz_query w) = Slug_available" using c(2) by (simp add: slugStatus_def)
  note a = available_answer [OF this]
  have "findAny T (nf_slug (wz_form w)) = None"
    using a assms(2) by (simp add: isSlugAvailable_def split: option.splits)
  moreover have "SlugSchema_ok (nf_slug (wz_form w))" using a(1) validateSlug_None_iff by blast
  moreover have "ci_slug (toCreateInput (wz_form w)) = nf_slug (wz_form w)" by (simp add: toCreateInput_def)
  ultimately show ?thesis using c(1,4) by (auto simp: createTenant_cases create_parse)
qed

section \<open>Witnesses\<close>

definition demo_events :: "wizard_event list" where
  "demo_events = [Edit (Set_displayName ''Hooli XYZ''), Typing_stopped,
     Check_settled ''hooli-xyz'' (Query_data (isSlugAvailable [] ''hooli-xyz'')), Submitted, Submitted]"

lemma demo_slug: "deriveSlug id ''Hooli XYZ'' = ''hooli-xyz''" "validateSlug ''hooli-xyz'' = None" "trim ''Hooli XYZ'' = ''Hooli XYZ''"
  by code_simp+

lemma demo_available: "sc_available (isSlugAvailable [] ''hooli-xyz'')"
  using demo_slug(2) example_input_create example_input_parse
  by (auto simp: isSlugAvailable_def createTenant_cases example_input_def split: option.splits if_splits)

lemma demo_wizard:
  "wz_url (wizard_after id None demo_events) = Review_step \<and> wz_creating (wizard_after id None demo_events) = False
   \<and> nf_slug (wz_form (wizard_after id None demo_events)) = ''hooli-xyz'' \<and> nf_displayName (wz_form (wizard_after id None demo_events)) = ''Hooli XYZ''
   \<and> nf_startFrom (wz_form (wizard_after id None demo_events)) = Blank \<and> nf_resyncIntervalSeconds (wz_form (wizard_after id None demo_events)) = 600
   \<and> wz_query (wizard_after id None demo_events) ''hooli-xyz'' = Query_data (isSlugAvailable [] ''hooli-xyz'')
   \<and> identityDone (wizard_after id None demo_events)"
  by (simp add: wizard_after_def demo_events_def wizard_do_def wizard_start_def keep_url_honest_def identityDone_def slugStatus_def
      useSlugCheck_def identityComplete_def INITIAL_FORM_def parseWizardStep_def on_submit_def wizard_at_def reachable_step_def goTo_def
      demo_slug demo_available)

lemma demo_submit:
  "snd (wizard_react id (wizard_after id None demo_events) Submitted) = Some (toCreateInput (wz_form (wizard_after id None demo_events)))"
  using demo_wizard by (simp add: on_submit_def wizard_at_def reachable_step_def)

theorem wizard_submission_witness:
  "\<exists>input. snd (wizard_react id (wizard_after id None demo_events) Submitted) = Some input
     \<and> ci_slug input = ''hooli-xyz'' \<and> validateSlug (ci_slug input) = None"
  using wizard_submission [OF demo_submit] demo_submit demo_wizard by (simp add: toCreateInput_def)

theorem wizard_create_accepted_witness:
  "\<exists>T' s. createTenant [] (toCreateInput (wz_form (wizard_after id None demo_events))) 0 = (T', Inr s)"
proof -
  have "wz_query (wizard_after id None demo_events) (nf_slug (wz_form (wizard_after id None demo_events)))
      = Query_data (isSlugAvailable [] (nf_slug (wz_form (wizard_after id None demo_events))))"
    using demo_wizard by simp
  from wizard_create_accepted [OF _ this, of 0] demo_wizard demo_slug(3) show ?thesis by simp
qed

end
