(* ===== verification/Client_View.thy ===== *)
theory Client_View
  imports Tenants Js_Url Playground
begin

text \<open>
  Pure helpers behind the screens: the retry countdown and ages (\<^verbatim>\<open>components/detail/countdown.ts\<close>), the
  lifecycle chain (\<^verbatim>\<open>components/detail/lifecycle.ts\<close>), the theme cookie (\<^verbatim>\<open>lib/theme.ts\<close>), request paths and labels of the
  playground (\<^verbatim>\<open>features/playground/format.ts\<close>), and the editor's line tokenizer and caret
  (\<^verbatim>\<open>features/spec/highlight.ts\<close>).
\<close>

section \<open>Countdown and ages\<close>

definition two_digits :: "nat \<Rightarrow> string" where
  "two_digits n = pad 2 n"

definition retryCountdownText :: "string option \<Rightarrow> instant \<Rightarrow> string" where
  "retryCountdownText nextAttemptAt nowMs =
     (if \<not> truthy nextAttemptAt then ''no retry scheduled''
      else case Date_parse (the nextAttemptAt) of
        None \<Rightarrow> ''no retry scheduled''
      | Some at \<Rightarrow>
          (let seconds = - ((int nowMs - int at) div 1000)
           in if seconds \<le> 0 then ''retrying now''
              else if seconds < 60 then ''next retry in '' @ show_int seconds @ ''s''
              else ''next retry in '' @ show_int (seconds div 60) @ ''m '' @ two_digits (nat (seconds mod 60)) @ ''s''))"

text \<open>On a text that is no date every comparison with NaN fails, and the last branch prints it.\<close>

definition compactAge :: "string \<Rightarrow> instant \<Rightarrow> string" where
  "compactAge stamp nowMs =
     (case Date_parse stamp of
        None \<Rightarrow> ''NaNd''
      | Some at \<Rightarrow>
          (let seconds = (nowMs - at) div 1000; minutes = seconds div 60; hours = minutes div 60
           in if seconds < 60 then show_nat seconds @ ''s''
              else if minutes < 60 then show_nat minutes @ ''m''
              else if hours < 24 then show_nat hours @ ''h''
              else show_nat (hours div 24) @ ''d''))"

definition spanLabel :: "nat \<Rightarrow> string" where
  "spanLabel seconds =
     (let minutes = round_div seconds 60
      in if minutes < 60 then show_nat minutes @ ''m''
         else (let h = minutes div 60; m = minutes mod 60
               in if m \<noteq> 0 then show_nat h @ ''h '' @ show_nat m @ ''m'' else show_nat h @ ''h''))"

section \<open>Lifecycle\<close>

datatype arrow_kind = Solid_arrow | Dashed_arrow

record LifecycleStep =
  ly_phase :: Phase
  ly_current :: bool
  ly_arrow :: "arrow_kind option"

definition lifecycle_order :: "Phase \<Rightarrow> Phase list" where
  "lifecycle_order phase =
     (if phase = Degraded then [Pending, Planning, Applying, Degraded, Ready]
      else if phase = Failed then [Pending, Planning, Applying, Failed]
      else if phase = Deleting then [Ready, Deleting]
      else [Pending, Planning, Applying, Ready])"

definition lifecycleChain :: "Phase \<Rightarrow> LifecycleStep list" where
  "lifecycleChain phase =
     (let order = lifecycle_order phase; at = find_index (\<lambda>p. p = phase) order
      in map (\<lambda>(i, p). \<lparr>ly_phase = p, ly_current = (Some i = at),
            ly_arrow = (if i = length order - 1 then None
                        else if (case at of Some a \<Rightarrow> a \<le> i | None \<Rightarrow> True) then Some Dashed_arrow else Some Solid_arrow)\<rparr>)
         (enumerate 0 order))"

section \<open>Theme\<close>

datatype Theme = System_theme | Light_theme | Dark_theme

fun theme_name :: "Theme \<Rightarrow> string" where
  "theme_name System_theme = ''system''"
| "theme_name Light_theme = ''light''"
| "theme_name Dark_theme = ''dark''"

definition THEMES :: "Theme list" where
  "THEMES = [System_theme, Light_theme, Dark_theme]"

definition isTheme :: "string option \<Rightarrow> bool" where
  "isTheme v \<longleftrightarrow> (case v of None \<Rightarrow> False | Some s \<Rightarrow> s \<in> set (map theme_name THEMES))"

definition DEFAULT_THEME :: Theme where
  "DEFAULT_THEME = System_theme"

definition parseTheme :: "string option \<Rightarrow> Theme" where
  "parseTheme v =
     (case v of
        None \<Rightarrow> DEFAULT_THEME
      | Some s \<Rightarrow> (case List.find (\<lambda>t. theme_name t = s) THEMES of Some t \<Rightarrow> t | None \<Rightarrow> DEFAULT_THEME))"

text \<open>The attribute and the cookie text that \<^verbatim>\<open>applyTheme\<close> writes.\<close>

definition applyTheme :: "Theme \<Rightarrow> string \<Rightarrow> string \<times> string" where
  "applyTheme theme protocol =
     (theme_name theme,
      ''theme='' @ theme_name theme @ ''; Path=/; Max-Age=31536000; SameSite=Lax'' @ (if protocol = ''https:'' then ''; Secure'' else []))"

section \<open>Playground paths\<close>

text \<open>\<^verbatim>\<open>encodeURIComponent\<close>: letters, digits and \<open>- _ . ! ~ * ' ( )\<close> stand for themselves.\<close>

definition uri_plain :: "nat \<Rightarrow> bool" where
  "uri_plain b \<longleftrightarrow> is_unreserved b \<or> b = 33 \<or> b = 126 \<or> b = 39 \<or> b = 40 \<or> b = 41"

definition encodeURIComponent :: "string \<Rightarrow> string" where
  "encodeURIComponent s =
     concat (map (\<lambda>b. if uri_plain b then [char_of b] else [CHR ''%'', upper_hex (b div 16), upper_hex (b mod 16)]) (concat (map utf8 s)))"

definition checkedAtLabel :: "string \<Rightarrow> string" where
  "checkedAtLabel stamp =
     (case Date_parse stamp of
        None \<Rightarrow> stamp
      | Some d \<Rightarrow> two_digits (getUTCHours d) @ '':'' @ two_digits (getUTCMinutes d) @ '':'' @ two_digits (getUTCSeconds d) @ ''Z'')"

definition explainPath :: "string \<Rightarrow> Consistency \<Rightarrow> string" where
  "explainPath slug consistency =
     (let base = ''/api/tenants/'' @ encodeURIComponent slug @ ''/explain''
      in if consistency = Strong then base @ ''?consistency=strong'' else base)"

definition batchCheckPath :: "string \<Rightarrow> Consistency \<Rightarrow> string" where
  "batchCheckPath slug consistency =
     (let base = ''/api/tenants/'' @ encodeURIComponent slug @ ''/batch-check''
      in if consistency = Strong then base @ ''?consistency=strong'' else base)"

section \<open>The editor\<close>

datatype TokenTone = Key_tone | Punct_tone | Value_tone | Bool_value_tone | Number_value_tone | Comment_tone

record HighlightToken =
  tk_text :: string
  tk_tone :: TokenTone

text \<open>\<^verbatim>\<open>/^(\s*)(-\s+)?([A-Za-z_][\w.-]*)(\s*:)(\s+.*|\s*)$/\<close>. A group that takes no part is read as the empty text.\<close>

definition yaml_key_char :: "char \<Rightarrow> bool" where
  "yaml_key_char c \<longleftrightarrow> is_word c \<or> c = CHR ''.'' \<or> c = CHR ''-''"

definition not_line_end :: "char \<Rightarrow> bool" where
  "not_line_end c \<longleftrightarrow> c \<noteq> CHR 0x0A \<and> c \<noteq> CHR 0x0D"

definition KEY_VALUE :: re where
  "KEY_VALUE =
     Seq (Cap (Rep is_space))
       (Seq (Alt (Cap (Seq (Ch (\<lambda>c. c = CHR ''-'')) (Seq (Ch is_space) (Rep is_space)))) (Cap Eps))
         (Seq (Cap (Seq (Ch is_ident_start) (Rep yaml_key_char)))
           (Seq (Cap (Seq (Rep is_space) (Ch (\<lambda>c. c = CHR '':''))))
             (Seq (Cap (Alt (Seq (Ch is_space) (Seq (Rep is_space) (Rep not_line_end))) (Rep is_space))) Eos))))"

definition re_comment :: re where
  "re_comment = Seq (Rep is_space) (Ch (\<lambda>c. c = CHR ''#''))"

definition re_digits :: re where
  "re_digits = Seq (Ch is_digit) (Rep is_digit)"

definition re_number :: re where
  "re_number = Seq (Alt (Ch (\<lambda>c. c = CHR ''-'')) Eps)
     (Seq re_digits (Seq (Alt (Seq (Ch (\<lambda>c. c = CHR ''.'')) re_digits) Eps) Eos))"

definition valueTone :: "string \<Rightarrow> TokenTone" where
  "valueTone v =
     (let t = trim v
      in if t \<in> {''true'', ''false'', ''null'', ''~''} then Bool_value_tone
         else if re_test re_number t then Number_value_tone else Value_tone)"

definition highlight_token :: "string \<Rightarrow> TokenTone \<Rightarrow> HighlightToken list" where
  "highlight_token text' tone = (if text' = [] then [] else [\<lparr>tk_text = text', tk_tone = tone\<rparr>])"

definition tokenizeYamlLine :: "string \<Rightarrow> HighlightToken list" where
  "tokenizeYamlLine line =
     (if length line = 0 then []
      else if re_test re_comment line then [\<lparr>tk_text = line, tk_tone = Comment_tone\<rparr>]
      else (case re_exec KEY_VALUE line of
              Some [indent, dash, key, colon, rest] \<Rightarrow>
                highlight_token indent Value_tone @ highlight_token dash Punct_tone @ [\<lparr>tk_text = key @ colon, tk_tone = Key_tone\<rparr>]
                @ highlight_token rest (valueTone rest)
            | _ \<Rightarrow> [\<lparr>tk_text = line, tk_tone = Value_tone\<rparr>]))"

definition caretPosition :: "string \<Rightarrow> int \<Rightarrow> nat \<times> nat" where
  "caretPosition text' offset =
     (let before = take (nat (max 0 offset)) text'; ls = split_char (CHR 0x0A) before
      in (length ls, length (last ls) + 1))"

section \<open>What they guarantee\<close>

text \<open>The chain marks exactly the current phase, and its arrows are dashed from there on.\<close>

lemma lifecycleChain_current: "map ly_phase (filter ly_current (lifecycleChain p)) = [p]"
  by (cases p) (simp_all add: lifecycleChain_def lifecycle_order_def)

lemma parseTheme_roundtrip: "parseTheme (Some (theme_name t)) = t" "fst (applyTheme t protocol) = theme_name t"
  by (cases t) (simp_all add: parseTheme_def THEMES_def applyTheme_def)

text \<open>Regular expressions whose groups tile the match.\<close>

definition tiles :: "re \<Rightarrow> bool" where
  "tiles r \<longleftrightarrow> (\<forall>s s' c. (s', c) \<in> set (re_run r s) \<longrightarrow> s = concat c @ s')"

fun captures_none :: "re \<Rightarrow> bool" where
  "captures_none (Cap r) = False"
| "captures_none (Seq a b) = (captures_none a \<and> captures_none b)"
| "captures_none (Alt a b) = (captures_none a \<and> captures_none b)"
| "captures_none _ = True"

lemma captures_none_run: "captures_none r \<Longrightarrow> (s', c) \<in> set (re_run r s) \<Longrightarrow> c = []"
proof (induction r arbitrary: s s' c)
  case (Ch P)
  then show ?case by (auto split: list.splits if_splits)
next
  case (Seq a b)
  then show ?case by fastforce
next
  case (Alt a b)
  then show ?case by (auto simp del: re_run.simps simp: re_run.simps(5))
qed (auto split: if_splits)

lemma tiles_Cap: "captures_none r \<Longrightarrow> tiles (Cap r)"
  unfolding tiles_def
proof (intro allI impI)
  fix s s' c
  assume r: "captures_none r" "(s', c) \<in> set (re_run (Cap r) s)"
  then obtain d where d: "(s', d) \<in> set (re_run r s)" "c = take (length s - length s') s # d" by auto
  then obtain p where "s = p @ s'" using re_run_suffix suffix_def by blast
  then show "s = concat c @ s'" using d captures_none_run [OF r(1) d(1)] by simp
qed

lemma tiles_intros: "tiles a \<Longrightarrow> tiles b \<Longrightarrow> tiles (Seq a b)" "tiles a \<Longrightarrow> tiles b \<Longrightarrow> tiles (Alt a b)" "tiles Eos"
  by (fastforce simp: tiles_def)+

lemma KEY_VALUE_tiles: "tiles KEY_VALUE"
  unfolding KEY_VALUE_def by (intro tiles_intros tiles_Cap) simp_all

definition ends :: "re \<Rightarrow> bool" where
  "ends r \<longleftrightarrow> (\<forall>s s' c. (s', c) \<in> set (re_run r s) \<longrightarrow> s' = [])"

lemma ends_intros: "ends Eos" "ends b \<Longrightarrow> ends (Seq a b)"
  by (auto simp: ends_def split: if_splits)

lemma KEY_VALUE_ends: "ends KEY_VALUE"
  unfolding KEY_VALUE_def by (intro ends_intros)

text \<open>Tokens lose nothing: put together they are the line.\<close>

lemma token_text: "concat (map tk_text (highlight_token t tone)) = t"
  by (simp add: highlight_token_def)

theorem tokenizeYamlLine_lossless: "concat (map tk_text (tokenizeYamlLine line)) = line"
proof (cases "re_exec KEY_VALUE line")
  case (Some gs)
  then obtain s' where m: "(s', gs) \<in> set (re_run KEY_VALUE line)"
    by (auto simp: re_exec_def re_match_def split: list.splits)
  have "s' = []" using m KEY_VALUE_ends unfolding ends_def by blast
  then have "concat gs = line" using m KEY_VALUE_tiles unfolding tiles_def by fastforce
  then show ?thesis using Some by (auto simp: tokenizeYamlLine_def token_text split: list.split)
qed (simp add: tokenizeYamlLine_def)

text \<open>Line and column determine the caret: the lines before it and the column count up to the offset.\<close>

lemma join_snoc: "us \<noteq> [] \<Longrightarrow> join sep (us @ [w]) = join sep us @ sep @ w"
  by (induction sep us rule: join.induct) auto

lemma split_char_last:
  "\<exists>p. s = p @ last (split_char sep s) \<and> sep \<notin> set (last (split_char sep s)) \<and> (p = [] \<or> last p = sep)"
proof -
  define us w where "us = butlast (split_char sep s)" and "w = last (split_char sep s)"
  have ws: "split_char sep s = us @ [w]" by (simp add: us_def w_def split_on_not_Nil)
  then have "s = join [sep] (us @ [w])" using join_split_char [of sep s] by simp
  then have "s = (if us = [] then [] else join [sep] us @ [sep]) @ w" by (simp add: join_snoc)
  moreover have "sep \<notin> set w" using set_split_char [of w sep s] ws by simp
  ultimately show ?thesis unfolding w_def by (metis last_snoc)
qed

lemma length_split_char: "length (split_char sep s) = Suc (length (filter (\<lambda>c. c = sep) s))"
  by (induction s) (auto split: list.split)

text \<open>The line is one more than the newlines before the caret, the column one more than the characters since the last of them.\<close>

theorem caretPosition_spec:
  assumes "caretPosition text' offset = (line, col)"
  shows "line = Suc (length (filter (\<lambda>c. c = CHR 0x0A) (take (nat offset) text')))
    \<and> (\<exists>p q. take (nat offset) text' = p @ q \<and> CHR 0x0A \<notin> set q \<and> (p = [] \<or> last p = CHR 0x0A) \<and> col = Suc (length q))"
proof -
  have "nat (max 0 offset) = nat offset" by simp
  then show ?thesis using assms split_char_last [of "take (nat offset) text'" "CHR 0x0A"]
    by (auto simp: caretPosition_def Let_def length_split_char)
qed

end
