(* ===== verification/Client_Requests.thy ===== *)
theory Client_Requests
  imports Sessions
begin

text \<open>
  What the screens share: a request in flight as the query client keeps it, and how an error is shown. The query
  client is third-party code; of it the model uses only that a mutation is idle, pending, failed or done, as its
  last call left it.
\<close>

section \<open>Requests in flight\<close>

text \<open>A mutation of the query client: its last call, with the variables it was given.\<close>

datatype 'v mutation = M_idle | M_pending 'v | M_error "BffError + string" | M_success

definition isPending :: "'v mutation \<Rightarrow> bool" where
  "isPending m \<longleftrightarrow> (case m of M_pending _ \<Rightarrow> True | _ \<Rightarrow> False)"

definition problemOf :: "BffError + string \<Rightarrow> string \<times> string option" where
  "problemOf e =
     (case e of
        Inl b \<Rightarrow> (show_nat (be_status b) @ '' '' @ mid_dot @ '' '' @ be_title b, be_detail b)
      | Inr message \<Rightarrow> (''Request failed'', Some message))"

text \<open>What the fetcher throws for a failure the route handler answered.\<close>

definition bff_of :: "failure \<Rightarrow> BffError" where
  "bff_of f = throwProblem (f_status f) [] (Some (Some (f_title f), f_detail f))"

end
