(* ===== verification/Spec_Editor.thy ===== *)
theory Spec_Editor
  imports Spec_History Client_View Client_Requests
begin

text \<open>
  The spec screens in the browser (\<^verbatim>\<open>features/spec/components\<close>): the editor with its draft, debounced validation and
  save (\<^verbatim>\<open>spec-editor-view.tsx\<close>), the form view of the YAML, the plan dialog (\<^verbatim>\<open>plan-preview-modal.tsx\<close>) and the
  version comparison with its restore (\<^verbatim>\<open>spec-history-view.tsx\<close>). The editor is a state machine over the operator's
  actions, timers and answers; its requests are outputs. Shown: what a save sends, that it never overwrites a
  generation the browser had not fetched, and where the screens fall short.
\<close>

section \<open>The form view\<close>

text \<open>\<^verbatim>\<open>/^(\s*)(?:-\s+)?([A-Za-z_][\w.-]*)\s*:\s*(.*)$/\<close>.\<close>

definition re_form_line :: re where
  "re_form_line =
     Seq (Cap (Rep is_space))
       (Seq (re_opt (Seq (Ch (\<lambda>c. c = CHR ''-'')) (Seq (Ch is_space) (Rep is_space))))
         (Seq (Cap (Seq (Ch is_ident_start) (Rep yaml_key_char)))
           (Seq (Rep is_space) (Seq (Ch (\<lambda>c. c = CHR '':'')) (Seq (Rep is_space) (Seq (Cap (Rep not_line_end)) Eos))))))"

record form_key =
  fk_indent :: nat
  fk_key :: string

record form_row =
  fr_path :: string
  fr_value :: string

text \<open>The stack's top is its last element, as in the source.\<close>

definition form_pop :: "nat \<Rightarrow> form_key list \<Rightarrow> form_key list" where
  "form_pop indent stack = rev (dropWhile (\<lambda>k. indent \<le> fk_indent k) (rev stack))"

definition form_line :: "form_key list \<times> form_row list \<Rightarrow> string \<Rightarrow> form_key list \<times> form_row list" where
  "form_line acc text' =
     (let (stack, out) = acc
      in case re_exec re_form_line text' of
           Some [spaces, key, value] \<Rightarrow>
             (let popped = form_pop (length spaces) stack;
                  path = join ''.'' (map fk_key popped @ [key])
              in (popped @ [\<lparr>fk_indent = length spaces, fk_key = key\<rparr>],
                  if value \<noteq> [] \<and> value \<noteq> ''|'' then out @ [\<lparr>fr_path = path, fr_value = value\<rparr>] else out))
         | _ \<Rightarrow> acc)"

definition FormView :: "string \<Rightarrow> form_row list" where
  "FormView body = snd (foldl form_line ([], []) (split_char (CHR 0x0A) body))"

section \<open>The editor\<close>

definition VALIDATE_DEBOUNCE_MS :: nat where "VALIDATE_DEBOUNCE_MS = 400"

datatype EditorTab = Yaml_tab | Form_tab

type_synonym ValidationResponse = "ValidationOutcome \<times> nat"

text \<open>
  A scheduled validation carries its sequence number, its body and its delay. A validation in flight carries the
  number it was sent under, or none when the Validate button sent it; a save in flight its body and If-Match.
\<close>

record SpecEditorView =
  se_data :: "SpecDocument option"
  se_localDraft :: "string option"
  se_validation :: "ValidationResponse option"
  se_caret :: "nat \<times> nat"
  se_tab :: EditorTab
  se_saved :: "SaveSpecResponse option"
  se_seq :: nat
  se_timer :: "(nat \<times> string \<times> nat) option"
  se_validate :: "(nat option \<times> string) mutation"
  se_save :: "(string \<times> nat) mutation"

definition serverBody :: "SpecEditorView \<Rightarrow> string" where
  "serverBody e = (case se_data e of Some d \<Rightarrow> sd_body d | None \<Rightarrow> [])"

definition editor_draft :: "SpecEditorView \<Rightarrow> string" where
  "editor_draft e = (case se_localDraft e of Some s \<Rightarrow> s | None \<Rightarrow> serverBody e)"

definition dirty :: "SpecEditorView \<Rightarrow> bool" where
  "dirty e \<longleftrightarrow> se_localDraft e \<noteq> None \<and> se_localDraft e \<noteq> Some (serverBody e)"

definition editor_generation :: "SpecEditorView \<Rightarrow> nat" where
  "editor_generation e = (case se_data e of Some d \<Rightarrow> sd_generation d | None \<Rightarrow> 0)"

definition change_preview :: "SpecEditorView \<Rightarrow> DiffLine list" where
  "change_preview e = (if dirty e then unifiedLines (diffLines (serverBody e) (editor_draft e)) (Some 0) else [])"

definition invalid_draft :: "SpecEditorView \<Rightarrow> bool" where
  "invalid_draft e \<longleftrightarrow> (case se_validation e of Some (r, _) \<Rightarrow> \<not> vo_valid r | None \<Rightarrow> True)"

definition stale_error :: "SpecEditorView \<Rightarrow> bool" where
  "stale_error e \<longleftrightarrow> (case se_save e of M_error (Inl b) \<Rightarrow> be_status b = 412 | _ \<Rightarrow> False)"

text \<open>The title and detail of the notice shown after a failed save.\<close>

definition save_notice :: "SpecEditorView \<Rightarrow> (string \<times> string option) option" where
  "save_notice e =
     (case se_save e of
        M_error err \<Rightarrow>
          Some (if stale_error e
                then (''Spec changed underneath you'',
                      Some (''reload and re-diff '' @ mid_dot @ '' '' @ (case snd (problemOf err) of Some d \<Rightarrow> d | None \<Rightarrow> [])))
                else problemOf err)
      | _ \<Rightarrow> None)"

text \<open>
  The effect behind the debounce. It runs when the draft or the fetched document changed: the old timer is
  cleared, and a new one is set under the next number, at once when the draft follows the server.
\<close>

definition revalidate :: "SpecEditorView \<Rightarrow> SpecEditorView \<Rightarrow> SpecEditorView" where
  "revalidate old e =
     (if editor_draft old = editor_draft e \<and> se_localDraft old = se_localDraft e \<and> se_data old = se_data e then e
      else if se_data e = None then e\<lparr>se_timer := None\<rparr>
      else e\<lparr>se_seq := se_seq e + 1,
             se_timer := Some (se_seq e + 1, editor_draft e, if se_localDraft e = None then 0 else VALIDATE_DEBOUNCE_MS)\<rparr>)"

text \<open>
  What can happen: the query delivers a document (the seed, a refetch on focus, after a write or on Retry), the
  operator types, moves the caret, changes the tab or presses a button, the timer fires, an answer arrives. The
  query client keeps only the last call of a mutation, so an answer is one to the call in flight.
\<close>

datatype editor_event =
    Fetched SpecDocument | Typed string | Caret_moved "nat \<times> nat" | Tab_chosen EditorTab | Timer_fired | Validate_clicked
  | Validate_answered "(BffError + string) + ValidationResponse" | Save_clicked
  | Save_answered "(BffError + string) + SaveSpecResponse" | Retry_clicked

datatype editor_request = Post_validate string | Put_spec string nat | Refetch_spec

fun editor_react :: "SpecEditorView \<Rightarrow> editor_event \<Rightarrow> SpecEditorView \<times> editor_request option" where
  "editor_react e (Fetched d) = (e\<lparr>se_data := Some d\<rparr>, None)"
| "editor_react e (Typed s) = (if se_data e \<noteq> None \<and> se_tab e = Yaml_tab then e\<lparr>se_localDraft := Some s\<rparr> else e, None)"
| "editor_react e (Caret_moved p) = (if se_data e \<noteq> None \<and> se_tab e = Yaml_tab then e\<lparr>se_caret := p\<rparr> else e, None)"
| "editor_react e (Tab_chosen t) = (if se_data e \<noteq> None then e\<lparr>se_tab := t\<rparr> else e, None)"
| "editor_react e Timer_fired =
     (case se_timer e of
        None \<Rightarrow> (e, None)
      | Some (mine, body, _) \<Rightarrow> (e\<lparr>se_timer := None, se_validate := M_pending (Some mine, body)\<rparr>, Some (Post_validate body)))"
| "editor_react e Validate_clicked =
     (if se_data e = None \<or> isPending (se_validate e) then (e, None)
      else (e\<lparr>se_validate := M_pending (None, editor_draft e)\<rparr>, Some (Post_validate (editor_draft e))))"
| "editor_react e (Validate_answered res) =
     (case se_validate e of
        M_pending (mine, _) \<Rightarrow>
          (case res of
             Inl err \<Rightarrow> e\<lparr>se_validate := M_error err\<rparr>
           | Inr r \<Rightarrow> e\<lparr>se_validate := M_success,
                       se_validation := (if mine = None \<or> mine = Some (se_seq e) then Some r else se_validation e)\<rparr>)
      | _ \<Rightarrow> e, None)"
| "editor_react e Save_clicked =
     (if se_data e = None \<or> invalid_draft e \<or> isPending (se_save e) then (e, None)
      else (e\<lparr>se_save := M_pending (editor_draft e, editor_generation e)\<rparr>, Some (Put_spec (editor_draft e) (editor_generation e))))"
| "editor_react e (Save_answered res) =
     (case se_save e of
        M_pending _ \<Rightarrow>
          (case res of
             Inl err \<Rightarrow> e\<lparr>se_save := M_error err\<rparr>
           | Inr r \<Rightarrow> e\<lparr>se_save := M_success, se_saved := Some r, se_localDraft := None\<rparr>)
      | _ \<Rightarrow> e, None)"
| "editor_react e Retry_clicked = (if stale_error e then (e\<lparr>se_save := M_idle\<rparr>, Some Refetch_spec) else (e, None))"

definition editor_do :: "SpecEditorView \<Rightarrow> editor_event \<Rightarrow> SpecEditorView" where
  "editor_do e x = revalidate e (fst (editor_react e x))"

definition editor_blank :: SpecEditorView where
  "editor_blank =
     \<lparr>se_data = None, se_localDraft = None, se_validation = None, se_caret = (1, 1), se_tab = Yaml_tab, se_saved = None,
      se_seq = 0, se_timer = None, se_validate = M_idle, se_save = M_idle\<rparr>"

text \<open>The screen opens on the document the server seeded.\<close>

definition editor_after :: "SpecDocument \<Rightarrow> editor_event list \<Rightarrow> SpecEditorView" where
  "editor_after d xs = run editor_do (editor_do editor_blank (Fetched d)) xs"

section \<open>The plan dialog\<close>

text \<open>The dialog plans the editor's draft; its Apply button posts a reconcile, which carries no body.\<close>

definition plan_total :: "Plan option \<Rightarrow> nat" where
  "plan_total p = (case p of Some d \<Rightarrow> pl_create d + pl_update d + pl_delete d | None \<Rightarrow> 0)"

definition apply_enabled :: "Plan option \<Rightarrow> bool \<Rightarrow> bool" where
  "apply_enabled p applying \<longleftrightarrow> \<not> (p = None \<or> plan_total p = 0 \<or> applying)"

definition plan_title :: "string \<Rightarrow> Plan option \<Rightarrow> string" where
  "plan_title slug p =
     (case p of
        Some d \<Rightarrow> ''Plan for '' @ slug @ '' '' @ mid_dot @ '' generation '' @ show_nat (pl_generation d)
      | None \<Rightarrow> ''Plan for '' @ slug)"

definition plan_key :: "string option \<Rightarrow> string" where
  "plan_key draftBody = (case draftBody of None \<Rightarrow> ''current'' | Some b \<Rightarrow> spec_fnv1a b)"

section \<open>The version comparison\<close>

record Selection =
  sel_a :: nat
  sel_b :: nat

definition resolveSelection :: "SpecVersion list \<Rightarrow> nat \<Rightarrow> nat option \<Rightarrow> nat option \<Rightarrow> Selection" where
  "resolveSelection versions current a b =
     (let has = (\<lambda>g. case g of None \<Rightarrow> False | Some n \<Rightarrow> n \<in> set (map sv_generation versions));
          B = (if has b then the b else current);
          fallbackA = (case List.find (\<lambda>g. g < B) (map sv_generation versions) of Some g \<Rightarrow> g | None \<Rightarrow> B);
          A = (if has a \<and> a \<noteq> Some B then the a else fallbackA)
      in if A \<le> B then \<lparr>sel_a = A, sel_b = B\<rparr> else \<lparr>sel_a = B, sel_b = A\<rparr>)"

definition nextSelection :: "Selection \<Rightarrow> nat \<Rightarrow> Selection" where
  "nextSelection sel clicked =
     (if clicked = sel_a sel \<or> clicked = sel_b sel then sel
      else if clicked > sel_b sel then \<lparr>sel_a = sel_b sel, sel_b = clicked\<rparr>
      else \<lparr>sel_a = clicked, sel_b = sel_b sel\<rparr>)"

definition paneLabel :: "SpecVersion \<Rightarrow> string" where
  "paneLabel v =
     ''GEN '' @ show_nat (sv_generation v) @ '' '' @ mid_dot @ '' ''
     @ (case sv_status v of V_current \<Rightarrow> ''CURRENT DESIRED'' | V_applied \<Rightarrow> ''APPLIED, CONVERGED'' | V_superseded \<Rightarrow> ''SUPERSEDED'')"

definition history_selection :: "SpecVersions option \<Rightarrow> nat option \<Rightarrow> nat option \<Rightarrow> Selection" where
  "history_selection data a b =
     (case data of Some d \<Rightarrow> resolveSelection (vl_items d) (vl_currentGeneration d) a b | None \<Rightarrow> \<lparr>sel_a = 0, sel_b = 0\<rparr>)"

definition version_at :: "SpecVersions option \<Rightarrow> nat \<Rightarrow> SpecVersion option" where
  "version_at data g = (case data of Some d \<Rightarrow> List.find (\<lambda>v. sv_generation v = g) (vl_items d) | None \<Rightarrow> None)"

text \<open>The generation a press of the restore button asks for, if the button is enabled.\<close>

definition restore_request :: "SpecVersions option \<Rightarrow> nat option \<Rightarrow> nat option \<Rightarrow> bool \<Rightarrow> nat option" where
  "restore_request data a b restoring =
     (case version_at data (sel_a (history_selection data a b)) of
        None \<Rightarrow> None
      | Some v \<Rightarrow> if sv_status v = V_current \<or> restoring then None else Some (sv_generation v))"

text \<open>The generation the message after a restore names as the one restored.\<close>

definition restored_label :: "SpecVersions option \<Rightarrow> nat option \<Rightarrow> nat option \<Rightarrow> nat" where
  "restored_label data a b = sel_a (history_selection data a b)"

text \<open>The URL a click on a version replaces the current one with.\<close>

definition select_href :: "string \<Rightarrow> Selection \<Rightarrow> nat \<Rightarrow> string" where
  "select_href pathname sel g =
     (let next = nextSelection sel g in pathname @ ''?a='' @ show_nat (sel_a next) @ ''&b='' @ show_nat (sel_b next))"

section \<open>Runs of the editor\<close>

text \<open>\<open>judge body r\<close>: the server has answered \<open>r\<close> to a validation of \<open>body\<close>.\<close>

definition genuine :: "(string \<Rightarrow> ValidationResponse \<Rightarrow> bool) \<Rightarrow> SpecEditorView \<Rightarrow> editor_event \<Rightarrow> bool" where
  "genuine judge e x \<longleftrightarrow>
     (case (x, se_validate e) of (Validate_answered (Inr r), M_pending (_, body)) \<Rightarrow> judge body r | _ \<Rightarrow> True)"

inductive editor_reach :: "(string \<Rightarrow> ValidationResponse \<Rightarrow> bool) \<Rightarrow> SpecEditorView \<Rightarrow> bool" for judge where
  opened: "editor_reach judge (editor_do editor_blank (Fetched d))"
| happens: "editor_reach judge e \<Longrightarrow> genuine judge e x \<Longrightarrow> editor_reach judge (editor_do e x)"

text \<open>
  A scheduled validation is of the draft on screen. With none scheduled, the one in flight is of that draft and
  will be shown, or the verdict on screen is of it, or the last validation failed.
\<close>

definition editor_ok :: "(string \<Rightarrow> ValidationResponse \<Rightarrow> bool) \<Rightarrow> SpecEditorView \<Rightarrow> bool" where
  "editor_ok judge e \<longleftrightarrow>
     (case se_timer e of
        Some (mine, body, _) \<Rightarrow> mine = se_seq e \<and> body = editor_draft e
      | None \<Rightarrow>
          (case se_validate e of
             M_pending (mine, body) \<Rightarrow> body = editor_draft e \<and> (mine = None \<or> mine = Some (se_seq e))
           | M_success \<Rightarrow> (\<exists>r. se_validation e = Some r \<and> judge (editor_draft e) r)
           | M_error _ \<Rightarrow> True
           | M_idle \<Rightarrow> False))
     \<and> se_data e \<noteq> None"

lemma revalidate_frame [simp]:
  "se_data (revalidate old e) = se_data e" "se_localDraft (revalidate old e) = se_localDraft e" "se_validation (revalidate old e) = se_validation e"
  "se_validate (revalidate old e) = se_validate e" "se_save (revalidate old e) = se_save e" "se_saved (revalidate old e) = se_saved e"
  "se_tab (revalidate old e) = se_tab e"
  by (simp_all add: revalidate_def)

lemma draft_frame [simp]:
  "editor_draft (e\<lparr>se_timer := t\<rparr>) = editor_draft e" "editor_draft (e\<lparr>se_validate := v\<rparr>) = editor_draft e"
  "editor_draft (e\<lparr>se_validation := va\<rparr>) = editor_draft e" "editor_draft (e\<lparr>se_save := sa\<rparr>) = editor_draft e"
  "editor_draft (e\<lparr>se_seq := n\<rparr>) = editor_draft e" "editor_draft (e\<lparr>se_tab := tb\<rparr>) = editor_draft e"
  "editor_draft (e\<lparr>se_caret := c\<rparr>) = editor_draft e" "editor_draft (e\<lparr>se_saved := sv\<rparr>) = editor_draft e"
  by (cases "se_localDraft e"; simp add: editor_draft_def serverBody_def)+

lemma draft_cong: "se_localDraft e' = se_localDraft e \<Longrightarrow> se_data e' = se_data e \<Longrightarrow> editor_draft e' = editor_draft e"
  by (simp only: editor_draft_def serverBody_def)

lemma revalidate_ok:
  assumes "se_data e \<noteq> None" and "editor_draft old = editor_draft e \<Longrightarrow> se_localDraft old = se_localDraft e \<Longrightarrow> se_data old = se_data e \<Longrightarrow> editor_ok judge e"
  shows "editor_ok judge (revalidate old e)"
proof (cases "editor_draft old = editor_draft e \<and> se_localDraft old = se_localDraft e \<and> se_data old = se_data e")
  case True
  then show ?thesis using assms(2) by (simp add: revalidate_def)
next
  case False
  then show ?thesis using assms(1) unfolding revalidate_def if_not_P [OF False] by (simp add: editor_ok_def)
qed

lemma react_data: "se_data e \<noteq> None \<Longrightarrow> se_data (fst (editor_react e x)) \<noteq> None"
  by (cases x) (simp_all split: option.split mutation.split sum.split)

lemma editor_ok_same:
  assumes "editor_ok judge e" and "se_timer e' = se_timer e" and "se_seq e' = se_seq e" and "se_validate e' = se_validate e"
    and "se_validation e' = se_validation e" and "editor_draft e' = editor_draft e" and "se_data e' \<noteq> None"
  shows "editor_ok judge e'"
  using assms(1,7) unfolding editor_ok_def assms(2-6) by blast

lemma react_quiet:
  assumes "x \<noteq> Timer_fired" and "x \<noteq> Validate_clicked" and "\<And>res. x \<noteq> Validate_answered res"
  shows "se_timer (fst (editor_react e x)) = se_timer e \<and> se_seq (fst (editor_react e x)) = se_seq e
    \<and> se_validate (fst (editor_react e x)) = se_validate e \<and> se_validation (fst (editor_react e x)) = se_validation e"
  using assms by (cases x) (simp_all split: mutation.split sum.split)

lemma editor_ok_step:
  assumes ok: "editor_ok judge e" and g: "genuine judge e x"
  shows "editor_ok judge (editor_do e x)"
  unfolding editor_do_def
proof (rule revalidate_ok)
  have data: "se_data e \<noteq> None" using ok by (simp add: editor_ok_def)
  then show "se_data (fst (editor_react e x)) \<noteq> None" by (rule react_data)
  assume "editor_draft e = editor_draft (fst (editor_react e x))"
  then have same: "editor_draft (fst (editor_react e x)) = editor_draft e" by (rule sym)
  show "editor_ok judge (fst (editor_react e x))"
  proof (cases "x = Timer_fired \<or> x = Validate_clicked \<or> (\<exists>res. x = Validate_answered res)")
    case True
    then show ?thesis using ok g data
      by (auto simp: editor_ok_def genuine_def isPending_def split: option.splits mutation.splits sum.splits)
  next
    case False
    then show ?thesis using react_quiet [of x e] by (intro editor_ok_same [OF ok _ _ _ _ same react_data [OF data]]) auto
  qed
qed

lemma editor_reach_ok: "editor_reach judge e \<Longrightarrow> editor_ok judge e"
proof (induction rule: editor_reach.induct)
  case (opened d)
  show ?case by (simp add: editor_do_def revalidate_def editor_blank_def editor_ok_def editor_draft_def serverBody_def)
next
  case (happens e x)
  then show ?case by (simp add: editor_ok_step)
qed

lemma put_cases:
  "snd (editor_react e x) = Some (Put_spec body m) \<longleftrightarrow>
     x = Save_clicked \<and> se_data e \<noteq> None \<and> \<not> invalid_draft e \<and> \<not> isPending (se_save e) \<and> body = editor_draft e \<and> m = editor_generation e"
  by (cases x) (auto split: option.splits)

lemmas put_request = put_cases [THEN iffD1]

lemma put_pending: "snd (editor_react e x) = Some (Put_spec body m) \<Longrightarrow> isPending (se_save (editor_do e x))"
  unfolding put_cases by (simp add: editor_do_def isPending_def)

text \<open>One save at a time: only its answer lets another be sent.\<close>

definition save_settles :: "editor_event \<Rightarrow> bool" where
  "save_settles x \<longleftrightarrow> (case x of Save_answered _ \<Rightarrow> True | _ \<Rightarrow> False)"

definition editor_saves :: "SpecEditorView \<Rightarrow> editor_event \<Rightarrow> bool" where
  "editor_saves e x \<longleftrightarrow> (case snd (editor_react e x) of Some (Put_spec _ _) \<Rightarrow> True | _ \<Rightarrow> False)"

lemma editor_saves_iff: "editor_saves e x \<longleftrightarrow> (\<exists>body m. snd (editor_react e x) = Some (Put_spec body m))"
  by (auto simp: editor_saves_def split: option.splits editor_request.splits)

interpretation save_flight: single_flight editor_do editor_saves "\<lambda>e. isPending (se_save e)" save_settles
proof
  fix e x
  assume "editor_saves e x"
  then obtain body m where out: "snd (editor_react e x) = Some (Put_spec body m)" unfolding editor_saves_iff by blast
  show "\<not> isPending (se_save e)" using put_request [OF out] by blast
  show "isPending (se_save (editor_do e x))" by (rule put_pending [OF out])
next
  fix e :: SpecEditorView and x
  assume "isPending (se_save e)" and "\<not> save_settles x"
  then show "isPending (se_save (editor_do e x))"
    by (cases x) (auto simp: editor_do_def save_settles_def isPending_def stale_error_def split: option.split mutation.splits sum.split)
qed

text \<open>A draft goes only when it is typed over or saved.\<close>

lemma editor_keeps_draft:
  assumes "\<And>s. x \<noteq> Typed s" and "\<And>r. x \<noteq> Save_answered (Inr r)"
  shows "se_localDraft (editor_do e x) = se_localDraft e"
  using assms by (cases x) (auto simp: editor_do_def split: option.split mutation.split sum.split)

lemma save_refused:
  assumes "isPending (se_save e)"
  shows "se_localDraft (editor_do e (Save_answered (Inl err))) = se_localDraft e"
    and "se_data (editor_do e (Save_answered (Inl err))) = se_data e"
    and "se_save (editor_do e (Save_answered (Inl err))) = M_error err"
  using assms by (auto simp: editor_do_def isPending_def split: mutation.splits)

lemma save_accepted_shown:
  assumes "isPending (se_save e)"
  shows "se_localDraft (editor_do e (Save_answered (Inr r))) = None" and "se_saved (editor_do e (Save_answered (Inr r))) = Some r"
  using assms by (auto simp: editor_do_def isPending_def split: mutation.splits)

lemma same_generation_same_history:
  assumes "grows st st'" and "spec_state_ok st" and "spec_state_ok st'" and "ss_currentGeneration st' = ss_currentGeneration st"
  shows "history st' = history st"
proof -
  have "length (history x) = ss_currentGeneration x" if "spec_state_ok x" for x
  proof -
    have "length (map sv_generation (rev (ss_versions x))) = length [1..<Suc (ss_currentGeneration x)]" by (simp only: spec_state_okD(2) [OF that])
    then show ?thesis by (simp add: history_def del: upt_Suc)
  qed
  then have "length (history st) = length (history st')" using assms(2-4) by simp
  with assms(1) show ?thesis by (auto simp: grows_def prefix_def)
qed

lemma fetched_current:
  assumes "world_ok T w" and "slug \<noteq> []" and "snd (getSpec T (fst w) slug) = Inr (Some doc)"
  obtains st where "specs.view T (fst w) slug = Some st" "spec_state_ok st" "sd_generation doc = ss_currentGeneration st"
    "sd_body doc = sv_body (last (history st))"
proof -
  obtain st where st: "specs.view T (fst w) slug = Some st"
  proof -
    obtain S' r where sf: "stateFor_spec T (fst w) slug = (S', r)" by fastforce
    then obtain st where "r = Inr (Some st)" using assms(3) by (auto simp: getSpec_def split: sum.splits option.splits)
    then show ?thesis using that stateFor_spec_Some sf by blast
  qed
  then have ok: "spec_state_ok st" using assms(1) by (auto simp: world_ok_def)
  obtain v vs where v: "ss_versions st = v # vs" using current_head [OF ok] by metis
  show ?thesis using that [OF st ok] reads_of(2) [OF st ok assms(2)] assms(3) by (simp add: history_def v core_def)
qed

lemma refused_save:
  assumes "saveSpec parse_url T w slug body m key author now draws sm = (w', Some (Inr (Inl f)))"
  shows "specs.view T (fst w') = specs.view T (fst w)"
proof -
  obtain S R S' r where w: "w = (S, R)" and sf: "stateFor_spec T S slug = (S', r)" by (metis surj_pair)
  have "fst w' = S'"
    using assms by (auto simp: saveSpec_def w sf Let_def split: sum.splits option.splits prod.splits)
  then show ?thesis using fst_stateFor_view [of T S slug] by (simp add: w sf fun_eq_iff)
qed

section \<open>Where the editor falls short\<close>

text \<open>
  The generation sent is the one fetched last, not the one the draft was typed on: a refetch (window focus, or Retry
  after the 412) puts the old draft under the new generation, and the next save replaces what the
  other operator wrote.
\<close>

lemma editor_refetch_rebases:
  assumes "se_localDraft e = Some s" and "\<not> invalid_draft e" and "\<not> isPending (se_save e)"
  shows "snd (editor_react (editor_do e (Fetched doc')) Save_clicked) = Some (Put_spec s (sd_generation doc'))"
  using assms by (simp add: put_cases editor_do_def invalid_draft_def editor_draft_def editor_generation_def)

lemma refetched_draft_overwrites:
  assumes "world_ok T w" and "slug \<noteq> []" and "snd (getSpec T (fst w) slug) = Inr (Some doc')"
    and "se_localDraft e = Some s" and "\<not> invalid_draft e" and "\<not> isPending (se_save e)"
    and "save_answer T w (slug, key) = None"
    and "saveSpec parse_url T w slug s (Some (Some (int (sd_generation doc')))) key author now draws None = (w2, Some (Inr res))"
    and valid: "\<And>applied. vo_valid (validateSpecBody parse_url s applied)"
  shows "snd (editor_react (editor_do e (Fetched doc')) Save_clicked) = Some (Put_spec s (sd_generation doc'))
    \<and> (\<exists>r st2. res = Inr r \<and> specs.view T (fst w2) slug = Some st2 \<and> sv_body (last (history st2)) = s)"
proof -
  obtain st where st: "specs.view T (fst w) slug = Some st" "spec_state_ok st" "sd_generation doc' = ss_currentGeneration st"
    using fetched_current [OF assms(1-3)] by blast
  have "\<exists>r. res = Inr r"
  proof (rule ccontr)
    assume "\<nexists>r. res = Inr r"
    then obtain f where f: "res = Inl f" by (cases res) auto
    obtain S R S' where w: "w = (S, R)" and sf: "stateFor_spec T S slug = (S', Inr (Some st))"
      using stateFor_view [OF st(1)] by (metis surj_pair fst_conv)
    have "map_get (ss_byKey st) key = None" using assms(7) st(1) by (simp add: save_answer_def)
    moreover have "save_failure parse_url st s (Some (Some (int (sd_generation doc')))) = None"
      using valid by (simp add: save_failure_def st(3) Let_def)
    ultimately show False using assms(8) by (auto simp: saveSpec_def w sf f Let_def split: sum.splits option.splits prod.splits)
  qed
  then obtain r where r: "res = Inr r" by blast
  obtain sta stb v where "specs.view T (fst w2) = (specs.view T (fst w))(slug \<mapsto> stb)" "history stb = history sta @ [v]" "sv_body v = s"
    using accepted_save [OF assms(7) assms(8) [unfolded r]] by metis
  then show ?thesis using editor_refetch_rebases [OF assms(4-6)] r by simp
qed

text \<open>What is typed while a save is in flight goes when it is accepted: the draft is reset, not compared with what was sent.\<close>

lemma editor_drops_typing:
  assumes "isPending (se_save e)" and "se_data e \<noteq> None" and "se_tab e = Yaml_tab"
  shows "se_localDraft (editor_do e (Typed s)) = Some s" and "se_localDraft (editor_do (editor_do e (Typed s)) (Save_answered (Inr r))) = None"
  using assms save_accepted_shown(1) [of "editor_do e (Typed s)" r] by (simp_all add: editor_do_def)

text \<open>
  A draft's plan is one of the next generation; the Apply beside it reconciles the tenant, and no reconcile
  changes a spec: the draft planned is not what is applied.
\<close>

lemma draft_plan_not_applied:
  assumes "specs.view T S slug = Some st" and "snd (planSpec T S slug (Some body) now) = Inr (Some p)"
  shows "pl_generation p = ss_currentGeneration st + 1"
proof -
  obtain S' where "stateFor_spec T S slug = (S', Inr (Some st))" using stateFor_view [OF assms(1)] by blast
  then show ?thesis using assms(2)
    by (auto simp: planSpec_def planFixture_def parse_with_def Let_def split: option.splits if_splits)
qed

section \<open>The version comparison\<close>

text \<open>Older on the left, both among the versions, and equal only when there is nothing older to compare with.\<close>

lemma find_older: "List.find (\<lambda>g. g < n) gs = Some a \<Longrightarrow> a \<in> set gs \<and> a < n"
  by (auto simp: find_Some_iff)

lemma resolveSelection_ok:
  assumes "current \<in> set (map sv_generation versions)"
  shows "sel_a (resolveSelection versions current a b) \<in> set (map sv_generation versions)"
    and "sel_b (resolveSelection versions current a b) \<in> set (map sv_generation versions)"
    and "sel_a (resolveSelection versions current a b) \<le> sel_b (resolveSelection versions current a b)"
    and "sel_a (resolveSelection versions current a b) = sel_b (resolveSelection versions current a b) \<Longrightarrow>
      \<forall>v \<in> set versions. sel_b (resolveSelection versions current a b) \<le> sv_generation v"
proof -
  define has where "has = (\<lambda>g. case g of None \<Rightarrow> False | Some n \<Rightarrow> n \<in> set (map sv_generation versions))"
  define B where "B = (if has b then the b else current)"
  define F where "F = (case List.find (\<lambda>g. g < B) (map sv_generation versions) of Some g \<Rightarrow> g | None \<Rightarrow> B)"
  define A where "A = (if has a \<and> a \<noteq> Some B then the a else F)"
  have eq: "resolveSelection versions current a b = (if A \<le> B then \<lparr>sel_a = A, sel_b = B\<rparr> else \<lparr>sel_a = B, sel_b = A\<rparr>)"
    unfolding resolveSelection_def A_def F_def B_def has_def Let_def by (rule refl)
  have B: "B \<in> set (map sv_generation versions)" using assms by (simp add: B_def has_def split: option.split)
  have F: "F \<in> set (map sv_generation versions)" 
    using B find_older [of B "map sv_generation versions"] by (cases "List.find (\<lambda>g. g < B) (map sv_generation versions)") (simp_all add: F_def)
  have A: "A \<in> set (map sv_generation versions)" using F by (simp add: A_def has_def split: option.split)
  show "sel_a (resolveSelection versions current a b) \<in> set (map sv_generation versions)"
    "sel_b (resolveSelection versions current a b) \<in> set (map sv_generation versions)"
    "sel_a (resolveSelection versions current a b) \<le> sel_b (resolveSelection versions current a b)"
    using A B unfolding eq by simp_all
  assume "sel_a (resolveSelection versions current a b) = sel_b (resolveSelection versions current a b)"
  then have "A = B" unfolding eq by (simp split: if_splits)
  then have "F = B" by (auto simp: A_def has_def split: option.splits if_splits)
  then have "List.find (\<lambda>g. g < B) (map sv_generation versions) = None" using find_older [of B] by (fastforce simp: F_def split: option.splits)
  then show "\<forall>v \<in> set versions. sel_b (resolveSelection versions current a b) \<le> sv_generation v"
    unfolding eq by (auto simp: find_None_iff \<open>A = B\<close>)
qed

lemma nextSelection_ok:
  assumes "sel_a sel \<le> sel_b sel"
  shows "sel_a (nextSelection sel g) \<le> sel_b (nextSelection sel g)" and "g \<in> {sel_a (nextSelection sel g), sel_b (nextSelection sel g)}"
  using assms by (auto simp: nextSelection_def)

text \<open>On the listing the server has, the restore button asks only for an older generation of it: neither a 404 nor a 409 follows.\<close>

lemma restore_request_ok:
  assumes "spec_state_ok st" and "vl_items d = ss_versions st" and "restore_request (Some d) a b restoring = Some g"
  shows "\<exists>v. List.find (\<lambda>v. sv_generation v = g) (ss_versions st) = Some v" and "g \<noteq> ss_currentGeneration st"
proof -
  obtain v where v: "version_at (Some d) (sel_a (history_selection (Some d) a b)) = Some v" "sv_status v \<noteq> V_current" "g = sv_generation v"
    using assms(3) by (auto simp: restore_request_def split: option.splits if_splits)
  then have mem: "v \<in> set (ss_versions st)" "sv_generation v = sel_a (history_selection (Some d) a b)"
    using assms(2) by (auto simp: version_at_def find_Some_iff)
  then show "\<exists>v. List.find (\<lambda>v. sv_generation v = g) (ss_versions st) = Some v" using v assms(2) by (auto simp: version_at_def)
  show "g \<noteq> ss_currentGeneration st" using mem(1) v(2,3) assms(1) by (auto simp: spec_state_ok_def list_all_iff)
qed

text \<open>
  With the default comparison the message after a restore names the wrong generation: the button restores the one
  before the current, but once the list has grown the label follows the selection to the generation after it.
\<close>

lemma default_selection:
  assumes "spec_state_ok st" and "vl_items d = ss_versions st" and "vl_currentGeneration d = ss_currentGeneration st" and "1 < ss_currentGeneration st"
  shows "sel_a (history_selection (Some d) None None) = ss_currentGeneration st - 1"
proof -
  define n where "n = ss_currentGeneration st - 1"
  have n: "ss_currentGeneration st = Suc n" "0 < n" using assms(4) by (simp_all add: n_def)
  have "rev (map sv_generation (ss_versions st)) = [1..<Suc (Suc n)]" using spec_state_okD(2) [OF assms(1)] by (simp add: n(1) rev_map del: upt_Suc)
  then have "map sv_generation (ss_versions st) = rev [1..<Suc (Suc n)]" by (rule rev_swap [THEN iffD1])
  then have "map sv_generation (ss_versions st) = Suc n # n # rev [1..<n]" using n(2) by simp
  then show ?thesis using n by (simp add: history_selection_def resolveSelection_def assms(2,3) Let_def)
qed

lemma restored_label_wrong:
  assumes "spec_state_ok st" and "vl_items d = ss_versions st" and "vl_currentGeneration d = ss_currentGeneration st" and "1 < ss_currentGeneration st"
    and "spec_state_ok st'" and "vl_items d' = ss_versions st'" and "vl_currentGeneration d' = ss_currentGeneration st'"
    and "ss_currentGeneration st' = ss_currentGeneration st + 1"
  shows "restore_request (Some d) None None False \<in> {None, Some (ss_currentGeneration st - 1)}"
    and "restored_label (Some d') None None = ss_currentGeneration st"
proof -
  show "restore_request (Some d) None None False \<in> {None, Some (ss_currentGeneration st - 1)}"
    using default_selection [OF assms(1-4)] by (auto simp: restore_request_def version_at_def find_Some_iff split: option.splits)
  show "restored_label (Some d') None None = ss_currentGeneration st"
    using default_selection [OF assms(5-7)] assms(4,8) by (simp add: restored_label_def)
qed

section \<open>The form view's stack\<close>

text \<open>The keys on the stack are nested: each is indented deeper than the one below it.\<close>

lemma form_pop_prefix: "\<exists>ys. stack = form_pop n stack @ ys"
  unfolding form_pop_def by (metis rev_append rev_rev_ident takeWhile_dropWhile_id)

lemma form_pop_below: "sorted_wrt (<) (map fk_indent stack) \<Longrightarrow> \<forall>k \<in> set (form_pop n stack). fk_indent k < n"
proof (induction stack rule: rev_induct)
  case (snoc k stack)
  then show ?case by (auto simp: form_pop_def sorted_wrt_append)
qed (simp add: form_pop_def)

lemma form_line_nested:
  assumes "sorted_wrt (<) (map fk_indent (fst acc))"
  shows "sorted_wrt (<) (map fk_indent (fst (form_line acc text')))"
proof -
  have "sorted_wrt (<) (map fk_indent (form_pop n (fst acc)))" for n
    using form_pop_prefix [of "fst acc" n] assms by (metis map_append sorted_wrt_append)
  then show ?thesis using assms form_pop_below [OF assms]
    by (auto simp: form_line_def Let_def sorted_wrt_append split: prod.split option.split list.split)
qed

lemma form_nested: "sorted_wrt (<) (map fk_indent (fst (foldl form_line ([], []) ls)))"
  by (induction ls rule: rev_induct) (simp_all add: form_line_nested)

section \<open>Properties\<close>

text \<open>
  C23: what the editor saves. Whatever is typed and pressed, and however refetches, timers and answers interleave,
  a save sends the draft on screen with the generation last fetched; until it is answered no other is sent, whatever
  happens in between; and
  unless a validation is scheduled, in flight or has just failed, the verdict that enabled the button is the
  server's valid verdict on exactly that draft.
\<close>

theorem editor_save_sends:
  assumes "editor_reach judge e" and "snd (editor_react e x) = Some (Put_spec body m)"
  shows "body = editor_draft e \<and> (\<exists>doc. se_data e = Some doc \<and> m = sd_generation doc)
    \<and> (\<forall>ys y body' m'. list_all (\<lambda>z. \<not> save_settles z) ys \<longrightarrow>
          snd (editor_react (run editor_do (editor_do e x) ys) y) \<noteq> Some (Put_spec body' m'))
    \<and> (se_timer e \<noteq> None \<or> isPending (se_validate e) \<or> (\<exists>err. se_validate e = M_error err)
        \<or> (\<exists>r. se_validation e = Some r \<and> judge body r \<and> vo_valid (fst r)))"
proof -
  note ok = editor_reach_ok [OF assms(1)]
  note p = put_request [OF assms(2)]
  obtain doc where doc: "se_data e = Some doc" using p by blast
  have "se_timer e \<noteq> None \<or> isPending (se_validate e) \<or> (\<exists>err. se_validate e = M_error err)
      \<or> (\<exists>r. se_validation e = Some r \<and> judge body r \<and> vo_valid (fst r))"
    using ok p by (cases "se_timer e"; cases "se_validate e") (auto simp: editor_ok_def invalid_draft_def isPending_def)
  moreover have "\<forall>ys y body' m'. list_all (\<lambda>z. \<not> save_settles z) ys \<longrightarrow>
      snd (editor_react (run editor_do (editor_do e x) ys) y) \<noteq> Some (Put_spec body' m')"
  proof -
    have "editor_saves e x" unfolding editor_saves_iff using assms(2) by blast
    then show ?thesis using save_flight.none_until_settled [of e x] by (auto simp: editor_saves_iff)
  qed
  ultimately show ?thesis using p doc by (simp add: editor_generation_def)
qed

text \<open>
  C22: a save from the editor never overwrites a generation the browser had not fetched. Let the editor hold the
  document it read from the server, and let anything happen on the server before its save arrives under a fresh
  key. If the save is accepted, nobody had written in between: the history is the one that was read, ending in
  the document that was fetched, plus the draft as the next generation, and the editor follows the server
  again. If it is refused, no history changes and the draft stays; when a newer generation was the cause, the refusal is a 412,
  shown as \<open>Spec changed underneath you\<close>, and Retry refetches.
\<close>

theorem editor_save_guarded:
  assumes "world_ok T w" and "slug \<noteq> []" and fetched: "snd (getSpec T (fst w) slug) = Inr (Some doc)" and "se_data e = Some doc"
    and "list_all spec_op_ok ops" and later: "w1 = run (spec_step parse_url T) w ops"
    and put: "snd (editor_react e Save_clicked) = Some (Put_spec body m)" and fresh: "save_answer T w1 (slug, key) = None"
    and save: "saveSpec parse_url T w1 slug body (Some (Some (int m))) key author now draws None = (w2, Some (Inr res))"
    and "answer = (case res of Inl f \<Rightarrow> Inl (Inl (bff_of f)) | Inr r \<Rightarrow> Inr r)"
    and "e' = editor_do (editor_do e Save_clicked) (Save_answered answer)"
  shows "\<exists>st st1. specs.view T (fst w) slug = Some st \<and> specs.view T (fst w1) slug = Some st1 \<and>
    (case res of
       Inr r \<Rightarrow> (\<exists>st2 v. specs.view T (fst w2) slug = Some st2 \<and> history st1 = history st \<and> sd_body doc = sv_body (last (history st))
           \<and> history st2 = history st1 @ [v] \<and> sv_body v = editor_draft e \<and> sv_generation v = sd_generation doc + 1)
         \<and> sr_generation r = sd_generation doc + 1 \<and> se_localDraft e' = None \<and> se_saved e' = Some r
     | Inl f \<Rightarrow> specs.view T (fst w2) = specs.view T (fst w1) \<and> editor_draft e' = editor_draft e \<and> se_localDraft e' = se_localDraft e
         \<and> (ss_currentGeneration st1 \<noteq> sd_generation doc \<longrightarrow>
              f_status f = 412 \<and> map_option fst (save_notice e') = Some ''Spec changed underneath you''
              \<and> snd (editor_react e' Retry_clicked) = Some Refetch_spec))"
proof -
  obtain st where st: "specs.view T (fst w) slug = Some st" "spec_state_ok st" "sd_generation doc = ss_currentGeneration st"
      "sd_body doc = sv_body (last (history st))"
    using fetched_current [OF assms(1,2) fetched] by blast
  obtain st1 where st1: "specs.view T (fst w1) slug = Some st1" "grows st st1" unfolding later using extendsD [OF extends_run st(1)] by blast
  have "world_ok T w1" unfolding later by (rule world_ok_run [OF assms(5,1)])
  then have ok1: "spec_state_ok st1" using st1(1) by (auto simp: world_ok_def)
  note p = put_request [OF put]
  have m: "m = sd_generation doc" using p assms(4) by (simp add: editor_generation_def)
  have pend: "isPending (se_save (editor_do e Save_clicked))" by (rule put_pending [OF put])
  show ?thesis
  proof (cases res)
    case (Inr r)
    obtain sta stb v where a: "specs.view T (fst w1) slug = Some sta" "specs.view T (fst w2) = (specs.view T (fst w1))(slug \<mapsto> stb)"
        "Some (Some (int m)) = Some (Some (int (ss_currentGeneration sta)))" "history stb = history sta @ [v]" "sv_body v = body"
        "sv_generation v = ss_currentGeneration sta + 1" "sr_generation r = ss_currentGeneration sta + 1"
      using accepted_save [OF fresh save [unfolded Inr]] by metis
    have "sta = st1" using a(1) st1(1) by simp
    moreover have "history st1 = history st"
      using same_generation_same_history [OF st1(2) st(2) ok1] a(3) st(3) m \<open>sta = st1\<close> by simp
    ultimately show ?thesis using a st st1 p m save_accepted_shown [OF pend, of r] Inr by (simp add: assms(10,11))
  next
    case (Inl f)
    have same: "specs.view T (fst w2) = specs.view T (fst w1)" using refused_save [OF save [unfolded Inl]] .
    have moved: "f_status f = 412" if "ss_currentGeneration st1 \<noteq> sd_generation doc"
      using stale_save [OF st1(1) fresh, of "int m" parse_url body author now draws None] that save Inl m by auto
    have e': "e' = editor_do (editor_do e Save_clicked) (Save_answered (Inl (Inl (bff_of f))))" by (simp add: assms(10,11) Inl)
    note r = save_refused [OF pend, of "Inl (bff_of f)", folded e']
    have kept: "se_localDraft e' = se_localDraft e" "se_data e' = se_data e" using r(1,2) p by (simp_all add: editor_do_def)
    then have "editor_draft e' = editor_draft e" by (rule draft_cong)
    then show ?thesis using same moved st st1 kept r(3) Inl
      by (auto simp: save_notice_def stale_error_def bff_of_def throwProblem_def)
  qed
qed

section \<open>Witnesses\<close>

text \<open>The editor opened on a document, with a valid draft typed and its validation answered.\<close>

definition demo_judge :: "string \<Rightarrow> ValidationResponse \<Rightarrow> bool" where
  "demo_judge body r \<longleftrightarrow> (\<exists>applied. fst r = validateSpecBody (\<lambda>_. None) body applied)"

definition demo_editor :: "SpecDocument \<Rightarrow> SpecEditorView" where
  "demo_editor d = editor_after d [Typed small_spec, Timer_fired, Validate_answered (Inr (validateSpecBody (\<lambda>_. None) small_spec None, 41))]"

lemma demo_editor_reach: "editor_reach demo_judge (demo_editor d)"
  unfolding demo_editor_def editor_after_def run.simps
  by (intro editor_reach.intros) (auto simp: genuine_def demo_judge_def editor_do_def revalidate_def editor_blank_def editor_draft_def serverBody_def)

lemma demo_editor_put: "snd (editor_react (demo_editor d) Save_clicked) = Some (Put_spec small_spec (sd_generation d))"
    and demo_editor_data: "se_data (demo_editor d) = Some d"
  by (simp_all add: demo_editor_def editor_after_def editor_do_def revalidate_def editor_blank_def editor_draft_def serverBody_def
      invalid_draft_def small_spec_valid isPending_def editor_generation_def)

definition demo_doc :: SpecDocument where
  "demo_doc = \<lparr>sd_slug = ''acme-air'', sd_generation = 9, sd_body = ''kind: Tenant'', sd_hash = spec_fnv1a ''kind: Tenant'', sd_lineCount = 1,
     sd_updatedAt = ''2026-09-03T10:02:00Z''\<rparr>"

theorem editor_save_sends_witness:
  "snd (editor_react (demo_editor demo_doc) Save_clicked) = Some (Put_spec small_spec 9)
    \<and> snd (editor_react (run editor_do (demo_editor demo_doc) [Save_clicked, Tab_chosen Form_tab]) Save_clicked) \<noteq> Some (Put_spec small_spec 9)"
proof -
  have put: "snd (editor_react (demo_editor demo_doc) Save_clicked) = Some (Put_spec small_spec 9)"
    using demo_editor_put [of demo_doc] by (simp only: demo_doc_def SpecDocument.select_convs)
  have "\<forall>ys y body' m'. list_all (\<lambda>z. \<not> save_settles z) ys \<longrightarrow>
      snd (editor_react (run editor_do (editor_do (demo_editor demo_doc) Save_clicked) ys) y) \<noteq> Some (Put_spec body' m')"
    using editor_save_sends [OF demo_editor_reach put] by blast
  from this [rule_format, of "[Tab_chosen Form_tab]" Save_clicked small_spec 9] put show ?thesis by (simp add: save_settles_def)
qed

theorem editor_save_guarded_witness:
  "\<exists>doc w2 r. snd (getSpec [] [] ''acme-air'') = Inr (Some doc)
    \<and> saveSpec (\<lambda>_. None) [] ([], no_runs) ''acme-air'' small_spec (Some (Some 9)) ''key-1'' ''ops'' 0 [] None = (w2, Some (Inr (Inr r)))
    \<and> se_saved (editor_do (editor_do (demo_editor doc) Save_clicked) (Save_answered (Inr r))) = Some r
    \<and> sr_generation r = 10"
proof -
  have ok: "world_ok [] ([], no_runs)" by (rule world_ok_seed [OF tenants_wf_Nil])
  then have "spec_state_ok acme_start" using acme_view by (auto simp: world_ok_def)
  then obtain doc where doc: "snd (getSpec [] [] ''acme-air'') = Inr (Some doc)" "sd_generation doc = 9"
    using reads_of(2) [OF acme_view] acme_no_keys(2) by auto
  obtain w2 where w2: "saveSpec (\<lambda>_. None) [] ([], no_runs) ''acme-air'' small_spec (Some (Some 9)) ''key-1'' ''ops'' 0 [] None
     = (w2, Some (Inr (Inr \<lparr>sr_generation = 10, sr_runId = synthetic_run_id ''acme-air'' ''key-1:reconcile'' 0\<rparr>)))" using acme_save by blast
  have fresh: "save_answer [] ([], no_runs) (''acme-air'', ''key-1'') = None" by (simp add: save_answer_def acme_view acme_start_def)
  have put: "snd (editor_react (demo_editor doc) Save_clicked) = Some (Put_spec small_spec 9)"
    using demo_editor_put [of doc] by (simp only: doc(2))
  have "saveSpec (\<lambda>_. None) [] ([], no_runs) ''acme-air'' small_spec (Some (Some (int 9))) ''key-1'' ''ops'' 0 [] None
     = (w2, Some (Inr (Inr \<lparr>sr_generation = 10, sr_runId = synthetic_run_id ''acme-air'' ''key-1:reconcile'' 0\<rparr>)))" using w2 by simp
  from editor_save_guarded [OF ok _ _ demo_editor_data _ _ put fresh this refl refl, where ops = "[]"] doc
  show ?thesis using w2 by auto
qed

end
