(* ===== verification/Relations_Screen.thy ===== *)
theory Relations_Screen
  imports Relations Client_View Client_Requests
begin

text \<open>
  The relations screen in the browser (\<^verbatim>\<open>features/relations/components/relations-view.tsx\<close> and \<^verbatim>\<open>batch-write-panel.tsx\<close>): a
  batch of writes and deletes is staged, kept under one Idempotency-Key, and sent. The screen is a state machine
  over the operator's actions and the server's answers. Shown: what a batch sent looks like, when the server's schema takes it,
  and what screen and store hold after the answer.
\<close>

section \<open>Links and texts\<close>

definition list_params :: "RelationsFilter \<Rightarrow> string option \<Rightarrow> params" where
  "list_params flt cursor =
     (if truthy (rf_user flt) then [(''user'', the (rf_user flt))] else [])
     @ (if truthy (rf_relation flt) then [(''relation'', the (rf_relation flt))] else [])
     @ (if truthy (rf_object flt) then [(''object'', the (rf_object flt))] else [])
     @ (if truthy cursor then [(''cursor'', the cursor)] else [])"

definition listUrl :: "string \<Rightarrow> RelationsFilter \<Rightarrow> string option \<Rightarrow> string" where
  "listUrl slug flt cursor =
     (let qs = params_toString (list_params flt cursor)
      in ''/api/tenants/'' @ encodeURIComponent slug @ ''/relations'' @ (if qs \<noteq> [] then ''?'' @ qs else []))"

definition sourceLabel :: "TupleSource \<Rightarrow> string" where
  "sourceLabel s =
     (case s of
        Spec_source g \<Rightarrow> ''spec gen '' @ show_nat g
      | Api_source \<Rightarrow> ''api''
      | Drift_source \<Rightarrow> ''drift '' @ mid_dot @ '' unmanaged'')"

section \<open>The screen\<close>

text \<open>
  The rows listed, the staged batch and its key (the view's state); the form for a write, the last result and the
  write mutation (the panel's), whose variables are the batch and the key it was sent with.
\<close>

record RelationsView =
  rv_items :: "Tuple list"
  rv_staged :: WriteRequest
  rv_batchKey :: "string option"
  rv_draft :: TupleInput
  rv_draftError :: "string option"
  rv_last :: "WriteResult option"
  rv_write :: "(WriteRequest \<times> string option) mutation"

definition empty_batch :: WriteRequest where
  "empty_batch = \<lparr>wr_writes = [], wr_deletes = []\<rparr>"

definition empty_draft :: TupleInput where
  "empty_draft = \<lparr>ti_user = [], ti_relation = [], ti_object = []\<rparr>"

definition relations_start :: RelationsView where
  "relations_start = \<lparr>rv_items = [], rv_staged = empty_batch, rv_batchKey = None, rv_draft = empty_draft, rv_draftError = None,
     rv_last = None, rv_write = M_idle\<rparr>"

definition batch_empty :: "RelationsView \<Rightarrow> bool" where
  "batch_empty v \<longleftrightarrow> length (wr_writes (rv_staged v)) + length (wr_deletes (rv_staged v)) = 0"

definition ensureKey :: "128 word \<Rightarrow> RelationsView \<Rightarrow> RelationsView" where
  "ensureKey u v = (if \<not> truthy (rv_batchKey v) then v\<lparr>rv_batchKey := Some (idempotencyKey u)\<rparr> else v)"

definition stageDelete :: "128 word \<Rightarrow> Tuple \<Rightarrow> RelationsView \<Rightarrow> RelationsView" where
  "stageDelete u t v =
     (let v = ensureKey u v; s = rv_staged v
      in v\<lparr>rv_staged := (if list_ex (\<lambda>d. sameTuple d (input_of t)) (wr_deletes s) then s
                         else s\<lparr>wr_deletes := wr_deletes s @ [input_of t]\<rparr>)\<rparr>)"

definition addWrite :: "128 word \<Rightarrow> TupleInput \<Rightarrow> RelationsView \<Rightarrow> RelationsView" where
  "addWrite u t v =
     (let v = ensureKey u v; s = rv_staged v
      in v\<lparr>rv_staged := (if list_ex (\<lambda>w. sameTuple w t) (wr_writes s) then s else s\<lparr>wr_writes := wr_writes s @ [t]\<rparr>)\<rparr>)"

definition unstage_write :: "TupleInput \<Rightarrow> RelationsView \<Rightarrow> RelationsView" where
  "unstage_write t v = v\<lparr>rv_staged := (rv_staged v)\<lparr>wr_writes := filter (\<lambda>w. \<not> sameTuple w t) (wr_writes (rv_staged v))\<rparr>\<rparr>"

definition unstage_delete :: "TupleInput \<Rightarrow> RelationsView \<Rightarrow> RelationsView" where
  "unstage_delete t v = v\<lparr>rv_staged := (rv_staged v)\<lparr>wr_deletes := filter (\<lambda>d. \<not> sameTuple d t) (wr_deletes (rv_staged v))\<rparr>\<rparr>"

definition discard_batch :: "RelationsView \<Rightarrow> RelationsView" where
  "discard_batch v = v\<lparr>rv_staged := empty_batch, rv_batchKey := None\<rparr>"

text \<open>The add-write form of the panel: trimmed, checked, staged and cleared.\<close>

definition submit_draft :: "128 word \<Rightarrow> RelationsView \<Rightarrow> RelationsView" where
  "submit_draft u v =
     (let t = \<lparr>ti_user = trim (ti_user (rv_draft v)), ti_relation = trim (ti_relation (rv_draft v)), ti_object = trim (ti_object (rv_draft v))\<rparr>
      in if \<not> TupleInputSchema_ok t
         then v\<lparr>rv_draftError := Some (''expected user type:id '' @ mid_dot @ '' relation name '' @ mid_dot @ '' object type:id'')\<rparr>
         else (addWrite u t (v\<lparr>rv_draftError := None\<rparr>))\<lparr>rv_draft := empty_draft\<rparr>)"

text \<open>
  The rows' menu is there only for listed tuples and is disabled for one already staged; each staged line has an
  unstage button. A random id is drawn whenever a change is staged under no key.
\<close>

datatype relations_event =
    Listed "Tuple list" | Delete_staged Tuple "128 word" | Draft_typed TupleInput | Draft_submitted "128 word"
  | Write_unstaged TupleInput | Delete_unstaged TupleInput | Discard_clicked | Write_clicked
  | Write_answered "(BffError + string) + WriteResult"

datatype relations_request = Post_write WriteRequest "string option"

fun relations_react :: "RelationsView \<Rightarrow> relations_event \<Rightarrow> RelationsView \<times> relations_request option" where
  "relations_react v (Listed items) = (v\<lparr>rv_items := items\<rparr>, None)"
| "relations_react v (Delete_staged t u) =
     (if t \<in> set (rv_items v) \<and> tupleKey (input_of t) \<notin> set (map tupleKey (wr_deletes (rv_staged v))) then stageDelete u t v else v, None)"
| "relations_react v (Draft_typed d) = (v\<lparr>rv_draft := d\<rparr>, None)"
| "relations_react v (Draft_submitted u) = (submit_draft u v, None)"
| "relations_react v (Write_unstaged t) = (unstage_write t v, None)"
| "relations_react v (Delete_unstaged t) = (unstage_delete t v, None)"
| "relations_react v Discard_clicked = (if batch_empty v then v else discard_batch v, None)"
| "relations_react v Write_clicked =
     (if batch_empty v \<or> isPending (rv_write v) then (v, None)
      else (v\<lparr>rv_write := M_pending (rv_staged v, rv_batchKey v)\<rparr>, Some (Post_write (rv_staged v) (rv_batchKey v))))"
| "relations_react v (Write_answered res) =
     (case rv_write v of
        M_pending _ \<Rightarrow>
          (case res of
             Inl err \<Rightarrow> v\<lparr>rv_write := M_error err\<rparr>
           | Inr r \<Rightarrow> discard_batch (v\<lparr>rv_write := M_success, rv_last := Some r\<rparr>))
      | _ \<Rightarrow> v, None)"

definition relations_do :: "RelationsView \<Rightarrow> relations_event \<Rightarrow> RelationsView" where
  "relations_do v x = fst (relations_react v x)"

section \<open>The invariant of the screen\<close>

text \<open>
  Nothing is staged twice, every write is a well-formed tuple, every delete satisfies \<open>P\<close> if every row listed does,
  and a batch that is not empty has a key.
\<close>

definition batch_ok :: "(TupleInput \<Rightarrow> bool) \<Rightarrow> WriteRequest \<Rightarrow> bool" where
  "batch_ok P b \<longleftrightarrow> distinct (wr_writes b) \<and> distinct (wr_deletes b) \<and> list_all TupleInputSchema_ok (wr_writes b) \<and> list_all P (wr_deletes b)"

definition screen_ok :: "(TupleInput \<Rightarrow> bool) \<Rightarrow> RelationsView \<Rightarrow> bool" where
  "screen_ok P v \<longleftrightarrow> batch_ok P (rv_staged v) \<and> list_all (\<lambda>t. P (input_of t)) (rv_items v)
     \<and> (batch_empty v \<or> (\<exists>u. rv_batchKey v = Some (idempotencyKey u))) \<and> (\<forall>k. rv_batchKey v = Some k \<longrightarrow> (\<exists>u. k = idempotencyKey u))"

definition event_ok :: "(TupleInput \<Rightarrow> bool) \<Rightarrow> relations_event \<Rightarrow> bool" where
  "event_ok P x \<longleftrightarrow> (case x of Listed items \<Rightarrow> list_all (\<lambda>t. P (input_of t)) items | _ \<Rightarrow> True)"

lemma ensureKey_simps [simp]:
  "rv_staged (ensureKey u v) = rv_staged v" "rv_items (ensureKey u v) = rv_items v" "rv_write (ensureKey u v) = rv_write v"
  by (simp_all add: ensureKey_def)

lemma ensureKey_key: "\<forall>k. rv_batchKey v = Some k \<longrightarrow> (\<exists>u. k = idempotencyKey u) \<Longrightarrow> \<exists>u'. rv_batchKey (ensureKey u v) = Some (idempotencyKey u')"
  by (cases "rv_batchKey v") (auto simp: ensureKey_def truthy_def)

lemma screen_okI:
  assumes "batch_ok P (rv_staged v)" and "list_all (\<lambda>t. P (input_of t)) (rv_items v)" and "\<exists>u. rv_batchKey v = Some (idempotencyKey u)"
  shows "screen_ok P v"
  using assms by (auto simp: screen_ok_def)

lemma stageDelete_ok:
  assumes "screen_ok P v" and "t \<in> set (rv_items v)"
  shows "screen_ok P (stageDelete u t v)"
proof (rule screen_okI)
  show "batch_ok P (rv_staged (stageDelete u t v))"
    using assms by (auto simp: stageDelete_def Let_def screen_ok_def batch_ok_def list_ex_iff list_all_iff)
  show "list_all (\<lambda>t. P (input_of t)) (rv_items (stageDelete u t v))" using assms(1) by (simp add: stageDelete_def Let_def screen_ok_def)
  show "\<exists>u'. rv_batchKey (stageDelete u t v) = Some (idempotencyKey u')"
    using ensureKey_key [of v u] assms(1) by (simp add: stageDelete_def Let_def screen_ok_def)
qed

lemma addWrite_ok:
  assumes "screen_ok P v" and "TupleInputSchema_ok t"
  shows "screen_ok P (addWrite u t v)"
proof (rule screen_okI)
  show "batch_ok P (rv_staged (addWrite u t v))"
    using assms by (auto simp: addWrite_def Let_def screen_ok_def batch_ok_def list_ex_iff)
  show "list_all (\<lambda>t. P (input_of t)) (rv_items (addWrite u t v))" using assms(1) by (simp add: addWrite_def Let_def screen_ok_def)
  show "\<exists>u'. rv_batchKey (addWrite u t v) = Some (idempotencyKey u')"
    using ensureKey_key [of v u] assms(1) by (simp add: addWrite_def Let_def screen_ok_def)
qed

lemma unstage_ok: "screen_ok P v \<Longrightarrow> screen_ok P (unstage_write t v)" "screen_ok P v \<Longrightarrow> screen_ok P (unstage_delete t v)"
  by (auto simp: screen_ok_def batch_ok_def batch_empty_def unstage_write_def unstage_delete_def list_all_iff)

lemma discard_ok: "screen_ok P v \<Longrightarrow> screen_ok P (discard_batch v)"
  by (simp add: screen_ok_def batch_ok_def batch_empty_def discard_batch_def empty_batch_def)

lemma screen_frame [simp]:
  "screen_ok P (v\<lparr>rv_write := m\<rparr>) = screen_ok P v" "screen_ok P (v\<lparr>rv_last := l\<rparr>) = screen_ok P v"
  "screen_ok P (v\<lparr>rv_draft := d\<rparr>) = screen_ok P v" "screen_ok P (v\<lparr>rv_draftError := e\<rparr>) = screen_ok P v"
  by (simp_all add: screen_ok_def batch_empty_def)

lemma screen_ok_step:
  assumes ok: "screen_ok P v" and "event_ok P x"
  shows "screen_ok P (relations_do v x)"
proof (cases x)
  case (Listed items)
  then show ?thesis using assms by (simp add: relations_do_def screen_ok_def event_ok_def batch_empty_def)
next
  case (Draft_submitted u)
  then show ?thesis using ok by (simp add: relations_do_def submit_draft_def Let_def addWrite_ok)
next
  case (Write_answered res)
  then show ?thesis using ok by (simp add: relations_do_def discard_ok split: mutation.split sum.split)
qed (use ok in \<open>simp_all add: relations_do_def stageDelete_ok unstage_ok discard_ok\<close>)

lemma screen_ok_run: "screen_ok P v \<Longrightarrow> list_all (event_ok P) xs \<Longrightarrow> screen_ok P (run relations_do v xs)"
  by (induction xs arbitrary: v) (simp_all add: screen_ok_step)

lemma screen_ok_start: "screen_ok P relations_start"
  by (simp add: relations_start_def screen_ok_def batch_ok_def batch_empty_def empty_batch_def)

lemma post_cases:
  "snd (relations_react v x) = Some (Post_write b k) \<longleftrightarrow>
     x = Write_clicked \<and> \<not> batch_empty v \<and> \<not> isPending (rv_write v) \<and> b = rv_staged v \<and> k = rv_batchKey v"
  by (cases x) auto

lemma post_state:
  "snd (relations_react v Write_clicked) = Some (Post_write b k) \<Longrightarrow> relations_do v Write_clicked = v\<lparr>rv_write := M_pending (b, k)\<rparr>"
  unfolding post_cases by (simp add: relations_do_def)

lemma batch_empty_frame [simp]: "batch_empty (v\<lparr>rv_write := m\<rparr>) = batch_empty v"
  by (simp add: batch_empty_def)

lemma post_pending: "snd (relations_react v x) = Some (Post_write b k) \<Longrightarrow> isPending (rv_write (relations_do v x))"
  unfolding post_cases by (simp add: relations_do_def isPending_def)

text \<open>One write at a time: only its answer lets another be sent.\<close>

definition write_settles :: "relations_event \<Rightarrow> bool" where
  "write_settles x \<longleftrightarrow> (case x of Write_answered _ \<Rightarrow> True | _ \<Rightarrow> False)"

definition relations_sends :: "RelationsView \<Rightarrow> relations_event \<Rightarrow> bool" where
  "relations_sends v x \<longleftrightarrow> snd (relations_react v x) \<noteq> None"

lemma write_frame [simp]:
  "rv_write (stageDelete u row v) = rv_write v" "rv_write (addWrite u t v) = rv_write v" "rv_write (unstage_write t v) = rv_write v"
  "rv_write (unstage_delete t v) = rv_write v" "rv_write (discard_batch v) = rv_write v" "rv_write (submit_draft u v) = rv_write v"
  by (simp_all add: stageDelete_def addWrite_def unstage_write_def unstage_delete_def discard_batch_def submit_draft_def Let_def)

interpretation write_flight: single_flight relations_do relations_sends "\<lambda>v. isPending (rv_write v)" write_settles
proof
  fix v x
  assume "relations_sends v x"
  then obtain b k where out: "snd (relations_react v x) = Some (Post_write b k)"
    by (auto simp: relations_sends_def) (metis relations_request.exhaust)
  then show "\<not> isPending (rv_write v)" unfolding post_cases by blast
  show "isPending (rv_write (relations_do v x))" by (rule post_pending [OF out])
next
  fix v :: RelationsView and x
  assume "isPending (rv_write v)" and "\<not> write_settles x"
  then show "isPending (rv_write (relations_do v x))" by (cases x) (simp_all add: relations_do_def write_settles_def)
qed

section \<open>With the server\<close>

lemma accepted_keys:
  assumes "storeFor T stores slug = (stores1, Some s)" and "writeRelations T stores slug req now = (stores', Inr (Inr r))"
  shows "\<exists>s'. snd (storeFor T stores' slug) = Some s' \<and> keys_of s' = (keys_of s - set (wr_deletes req)) \<union> set (wr_writes req)"
proof -
  obtain s' w d where b: "apply_batch req now s = (s', w, d)" using prod_cases3 by blast
  have "write_failure s req = None" using assms by (auto simp: writeRelations_def split: option.splits)
  then have "stores' = map_set stores1 slug s'"
    using assms b by (auto simp: writeRelations_def Let_def parse_with_def split: if_splits)
  then show ?thesis using apply_batch_effect(1) [OF b] by (simp add: storeFor_def)
qed

lemma refused_keeps:
  assumes "writeRelations T stores slug req now = (stores', Inr (Inl f))"
  shows "snd (storeFor T stores' k) = snd (storeFor T stores k)"
proof -
  have "stores' = fst (storeFor T stores slug)"
    using assms by (auto simp: writeRelations_def Let_def parse_with_def split: option.splits prod.splits if_splits)
  then show ?thesis by (simp add: rels.snd_acquire rels.view_acquire)
qed

text \<open>
  The panel's comment promises that a retry of a batch is a no-op on the server, by its key. The server keeps no
  key: if another batch deleted the tuples in the meantime, the retry writes them again.
\<close>

lemma resend_rewrites:
  assumes "storeFor T stores slug = (stores1, Some s)" and "writeRelations T stores slug req now = (stores2, Inr (Inr r))"
    and "storeFor T stores2 slug = (stores2', Some s2)" and "writeRelations T stores2 slug other now2 = (stores3, Inr (Inr r2))"
    and "storeFor T stores3 slug = (stores3', Some s3)" and "writeRelations T stores3 slug req now3 = (stores4, Inr (Inr r4))"
    and "set (wr_writes req) \<subseteq> set (wr_deletes other)" and "set (wr_writes other) = {}"
  shows "set (wr_writes req) \<inter> keys_of s3 = {}" and "\<exists>s4. snd (storeFor T stores4 slug) = Some s4 \<and> set (wr_writes req) \<subseteq> keys_of s4"
proof -
  show "set (wr_writes req) \<inter> keys_of s3 = {}" using accepted_keys [OF assms(3,4)] assms(5,7,8) by auto
  show "\<exists>s4. snd (storeFor T stores4 slug) = Some s4 \<and> set (wr_writes req) \<subseteq> keys_of s4" using accepted_keys [OF assms(5,6)] by auto
qed

text \<open>What is staged while a write is in flight is discarded with it, unsent.\<close>

lemma staged_in_flight_lost:
  assumes "isPending (rv_write v)" and "t \<in> set (rv_items v)" and "input_of t \<notin> set (wr_deletes (rv_staged v))"
    and "tupleKey (input_of t) \<notin> set (map tupleKey (wr_deletes (rv_staged v)))"
  shows "input_of t \<in> set (wr_deletes (rv_staged (relations_do v (Delete_staged t u))))"
    and "rv_staged (relations_do (relations_do v (Delete_staged t u)) (Write_answered (Inr r))) = empty_batch"
  using assms by (auto simp: relations_do_def stageDelete_def Let_def isPending_def discard_batch_def list_ex_iff split: mutation.splits)

section \<open>Properties\<close>

text \<open>
  C25: what the relations screen sends. However changes are staged, unstaged and discarded, and whatever the server
  answers, a batch is sent only when it is not empty and none is in flight, and none is sent again before the answer, whatever is
  staged, typed and pressed in between; it is the batch on screen, without duplicates, under the random key drawn when its first change was staged; and if the rows listed were well-formed, the server's
  schema takes it exactly when it has at most 100 writes and at most 100 deletes, a bound the screen does not check.
\<close>

theorem relations_batch_sent:
  assumes "list_all (event_ok TupleInputSchema_ok) xs" and "v = run relations_do relations_start xs"
    and "snd (relations_react v x) = Some (Post_write batch key)"
  shows "batch = rv_staged v \<and> batch \<noteq> empty_batch \<and> distinct (wr_writes batch) \<and> distinct (wr_deletes batch)
    \<and> (\<exists>u. key = Some (idempotencyKey u))
    \<and> (WriteRequestSchema_ok batch \<longleftrightarrow> length (wr_writes batch) \<le> 100 \<and> length (wr_deletes batch) \<le> 100)
    \<and> (\<forall>ys y. list_all (\<lambda>z. \<not> write_settles z) ys \<longrightarrow> snd (relations_react (run relations_do (relations_do v x) ys) y) = None)"
proof -
  have ok: "screen_ok TupleInputSchema_ok v" unfolding assms(2) by (rule screen_ok_run [OF screen_ok_start assms(1)])
  have p: "\<not> batch_empty v" "batch = rv_staged v" "key = rv_batchKey v" using assms(3) unfolding post_cases by simp_all
  have "relations_sends v x" using assms(3) by (simp add: relations_sends_def)
  then have "\<forall>ys y. list_all (\<lambda>z. \<not> write_settles z) ys \<longrightarrow> snd (relations_react (run relations_do (relations_do v x) ys) y) = None"
    using write_flight.none_until_settled [of v x] by (auto simp: relations_sends_def)
  moreover have "batch \<noteq> empty_batch" using p by (auto simp: batch_empty_def empty_batch_def)
  moreover have "WriteRequestSchema_ok batch \<longleftrightarrow> length (wr_writes batch) \<le> 100 \<and> length (wr_deletes batch) \<le> 100"
    using ok p by (auto simp: WriteRequestSchema_ok_def screen_ok_def batch_ok_def batch_empty_def)
  ultimately show ?thesis using ok p by (auto simp: screen_ok_def batch_ok_def)
qed

text \<open>
  C24: screen and store agree on the outcome. When the server answers a batch the screen sent, an acceptance leaves
  the tenant's tuples as the old ones without the deletes plus the writes, and the screen with nothing
  staged, no key and the result shown; a refusal leaves every tenant's tuples as they were, and the screen with the whole batch still
  staged under the same key, ready to be sent again.
\<close>

theorem relations_batch_settled:
  assumes "storeFor T stores slug = (stores1, Some s)" and "snd (relations_react v Write_clicked) = Some (Post_write batch key)"
    and "writeRelations T stores slug batch now = (stores', Inr res)"
    and "answer = (case res of Inl f \<Rightarrow> Inl (Inl (bff_of f)) | Inr r \<Rightarrow> Inr r)"
    and "v' = relations_do (relations_do v Write_clicked) (Write_answered answer)"
  shows "case res of
      Inr r \<Rightarrow> (\<exists>s'. snd (storeFor T stores' slug) = Some s' \<and> keys_of s' = (keys_of s - set (wr_deletes (rv_staged v))) \<union> set (wr_writes (rv_staged v)))
        \<and> rv_staged v' = empty_batch \<and> rv_batchKey v' = None \<and> rv_last v' = Some r
    | Inl f \<Rightarrow> (\<forall>k. snd (storeFor T stores' k) = snd (storeFor T stores k))
        \<and> rv_staged v' = batch \<and> rv_batchKey v' = key \<and> snd (relations_react v' Write_clicked) = Some (Post_write batch key)"
proof -
  have p: "\<not> batch_empty v" "\<not> isPending (rv_write v)" "batch = rv_staged v" "key = rv_batchKey v"
    using assms(2) unfolding post_cases by simp_all
  show ?thesis
  proof (cases res)
    case (Inr r)
    with accepted_keys [OF assms(1) assms(3) [unfolded Inr]] p show ?thesis
      by (simp add: assms(4,5) post_state [OF assms(2)] relations_do_def discard_batch_def)
  next
    case (Inl f)
    have v': "v' = v\<lparr>rv_write := M_error (Inl (bff_of f))\<rparr>" 
      unfolding assms(4,5) Inl post_state [OF assms(2)] by (simp add: relations_do_def)
    from refused_keeps [OF assms(3) [unfolded Inl]] p Inl show ?thesis by (simp add: v' isPending_def)
  qed
qed

section \<open>Witnesses\<close>

text \<open>A write typed with spaces around it, and a row staged for deletion.\<close>

definition demo_row :: Tuple where
  "demo_row = \<lparr>tr_id = ''t-0001'', tr_user = ti_user example_delete, tr_relation = ti_relation example_delete, tr_object = ti_object example_delete,
     tr_source = Api_source, tr_writtenAt = []\<rparr>"

definition demo_steps :: "relations_event list" where
  "demo_steps = [Listed [demo_row], Delete_staged demo_row 0, Draft_typed (example_write\<lparr>ti_user := '' '' @ ti_user example_write\<rparr>), Draft_submitted 1]"

lemma demo_inputs: "TupleInputSchema_ok example_write" "TupleInputSchema_ok example_delete"
  by code_simp+

lemma demo_trim: "trim ('' '' @ ti_user example_write) = ti_user example_write" "trim (ti_relation example_write) = ti_relation example_write"
    "trim (ti_object example_write) = ti_object example_write"
  by code_simp+

lemma demo_draft: "TupleInputSchema_ok \<lparr>ti_user = ti_user example_write, ti_relation = ti_relation example_write, ti_object = ti_object example_write\<rparr>"
  using demo_inputs(1) by (simp add: example_write_def)

lemma demo_row_input: "input_of demo_row = example_delete"
  by (simp add: demo_row_def input_of_def)

lemma demo_screen: "rv_staged (run relations_do relations_start demo_steps) = example_batch"
    "snd (relations_react (run relations_do relations_start demo_steps) Write_clicked) = Some (Post_write example_batch (Some (idempotencyKey 0)))"
  using demo_inputs demo_trim demo_draft demo_row_input uuid_text_not_Nil [of 0]
  by (simp_all add: demo_steps_def relations_do_def relations_start_def empty_batch_def stageDelete_def ensureKey_def truthy_def Let_def
      submit_draft_def addWrite_def example_batch_def batch_empty_def isPending_def idempotencyKey_def)

theorem relations_batch_sent_witness:
  "snd (relations_react (run relations_do relations_start demo_steps) Write_clicked) = Some (Post_write example_batch (Some (idempotencyKey 0)))
    \<and> WriteRequestSchema_ok example_batch"
proof -
  have "list_all (event_ok TupleInputSchema_ok) demo_steps"
    using demo_inputs demo_row_input by (simp add: demo_steps_def event_ok_def)
  from relations_batch_sent [OF this refl demo_screen(2)]
  have "WriteRequestSchema_ok example_batch \<longleftrightarrow> length (wr_writes example_batch) \<le> 100 \<and> length (wr_deletes example_batch) \<le> 100" by (elim conjE)
  then have "WriteRequestSchema_ok example_batch" by (simp add: example_batch_def)
  with demo_screen(2) show ?thesis by (rule conjI)
qed

theorem relations_batch_settled_witness:
  "\<exists>stores' r. writeRelations [] [] ''acme-air'' example_batch 0 = (stores', Inr (Inr r))
    \<and> rv_last (relations_do (relations_do (run relations_do relations_start demo_steps) Write_clicked) (Write_answered (Inr r))) = Some r"
proof -
  obtain s where s: "storeFor [] [] ''acme-air'' = ([(''acme-air'', s)], Some s)" using acme_seed by blast
  obtain stores' r where r: "writeRelations [] [] ''acme-air'' example_batch 0 = (stores', Inr (Inr r))" using example_batch_runs by blast
  from relations_batch_settled [OF s demo_screen(2) r refl refl] r show ?thesis by auto
qed

end
