(* ===== verification/Connection_Form.thy ===== *)
theory Connection_Form
  imports Identity_Providers Client_Requests
begin

text \<open>
  The identity provider's form in the browser (\<^verbatim>\<open>features/identity-providers/components/connection-form.tsx\<close>): a draft of the
  connection, the write-only secret, the issuer probe run on blur, and Stage into spec. Shown: what is staged and
  when the server's schema takes it, that an accepted secret does not stay in the form, and that a green issuer is one the
  server's guard lets through.
\<close>

section \<open>The form\<close>

record ConnectionDraft =
  cd_name :: string
  cd_kind :: IdpKind
  cd_issuer :: string
  cd_clientId :: string

text \<open>
  Every probe and every edit sent is numbered, since each answer is taken, in whatever order they arrive; the buttons
  follow the last one. \<open>cf_idp\<close> is the connection the form was handed.
\<close>

record ConnectionForm =
  cf_idp :: IdentityProvider
  cf_draft :: ConnectionDraft
  cf_replacingSecret :: bool
  cf_secret :: string
  cf_probe :: "ProbeResult option"
  cf_probedIssuer :: string
  cf_staged :: "IdpStageResult option"
  cf_sent :: nat
  cf_flights :: "(nat \<times> string \<times> IdpKind) list"
  cf_probing :: "nat mutation"
  cf_edits :: "nat list"
  cf_staging :: "nat mutation"

fun probe_issuer :: "ProbeResult \<Rightarrow> string" where
  "probe_issuer (Probe_ok issuer _ _ _) = issuer"
| "probe_issuer (Probe_blocked issuer _ _ _) = issuer"

definition connection_start :: "IdentityProvider \<Rightarrow> ConnectionForm" where
  "connection_start idp =
     \<lparr>cf_idp = idp,
      cf_draft = \<lparr>cd_name = ip_name idp, cd_kind = ip_kind idp, cd_issuer = ip_issuer idp, cd_clientId = ip_clientId idp\<rparr>,
      cf_replacingSecret = (\<not> ip_hasSecret idp), cf_secret = [], cf_probe = ip_lastProbe idp,
      cf_probedIssuer = (case ip_lastProbe idp of Some r \<Rightarrow> probe_issuer r | None \<Rightarrow> []), cf_staged = None,
      cf_sent = 0, cf_flights = [], cf_probing = M_idle, cf_edits = [], cf_staging = M_idle\<rparr>"

datatype connection_request = Post_probe string IdpKind | Patch_connection IdpPatch

definition runProbe :: "ConnectionForm \<Rightarrow> ConnectionForm \<times> connection_request option" where
  "runProbe c =
     (let issuer = trim (cd_issuer (cf_draft c)); kind = cd_kind (cf_draft c)
      in if issuer = [] then (c, None)
         else (c\<lparr>cf_sent := cf_sent c + 1, cf_flights := cf_flights c @ [(cf_sent c, issuer, kind)], cf_probing := M_pending (cf_sent c)\<rparr>,
               Some (Post_probe issuer kind)))"

definition onIssuerBlur :: "ConnectionForm \<Rightarrow> ConnectionForm \<times> connection_request option" where
  "onIssuerBlur c =
     (let issuer = trim (cd_issuer (cf_draft c))
      in if issuer = [] \<or> issuer = cf_probedIssuer c then (c, None) else runProbe c)"

definition connection_patch :: "ConnectionForm \<Rightarrow> IdpPatch" where
  "connection_patch c =
     \<lparr>pt_name = Some (trim (cd_name (cf_draft c))), pt_kind = Some (cd_kind (cf_draft c)), pt_issuer = Some (trim (cd_issuer (cf_draft c))),
      pt_clientId = Some (trim (cd_clientId (cf_draft c))),
      pt_clientSecret = (if cf_replacingSecret c \<and> 0 < length (cf_secret c) then Some (cf_secret c) else None),
      pt_claimMappings = None\<rparr>"

definition stage_connection :: "ConnectionForm \<Rightarrow> ConnectionForm \<times> connection_request option" where
  "stage_connection c =
     (c\<lparr>cf_staged := None, cf_sent := cf_sent c + 1, cf_edits := cf_edits c @ [cf_sent c], cf_staging := M_pending (cf_sent c)\<rparr>,
      Some (Patch_connection (connection_patch c)))"

definition issuerStale :: "ConnectionForm \<Rightarrow> bool" where
  "issuerStale c \<longleftrightarrow> trim (cd_issuer (cf_draft c)) \<noteq> cf_probedIssuer c"

datatype IssuerTone = Ok_tone | Blocked_tone

definition issuerTone :: "ConnectionForm \<Rightarrow> IssuerTone option" where
  "issuerTone c =
     (if isPending (cf_probing c) \<or> issuerStale c then None
      else map_option (\<lambda>r. if probe_ok r then Ok_tone else Blocked_tone) (cf_probe c))"

definition probe_status :: "ConnectionForm \<Rightarrow> string" where
  "probe_status c =
     (if isPending (cf_probing c) then ''probing'' @ ellipsis
      else if issuerStale c then (if trim (cd_issuer (cf_draft c)) \<noteq> [] then ''probes on blur'' else [])
      else (case cf_probe c of Some r \<Rightarrow> probeInlineLabel r | None \<Rightarrow> []))"

text \<open>The form shows the mask of a stored secret, or an input for a new one.\<close>

definition shows_mask :: "ConnectionForm \<Rightarrow> bool" where
  "shows_mask c \<longleftrightarrow> \<not> cf_replacingSecret c"

text \<open>A second submit reaches the form even while the button is disabled; \<open>Idp_refetched\<close> is the list's refetch handing the form a newer connection.\<close>

datatype connection_event =
    Name_typed string | Kind_chosen IdpKind | Issuer_typed string | ClientId_typed string | Issuer_blurred | Secret_typed string
  | Replace_clicked | Keep_clicked | Probe_clicked | Probe_answered nat "(BffError + string) + ProbeResult"
  | Stage_clicked | Form_submitted | Stage_answered nat "(BffError + string) + IdpStageResult" | Stage_reset | Probe_reset
  | Idp_refetched IdentityProvider

fun connection_react :: "ConnectionForm \<Rightarrow> connection_event \<Rightarrow> ConnectionForm \<times> connection_request option" where
  "connection_react c (Name_typed s) = (c\<lparr>cf_draft := (cf_draft c)\<lparr>cd_name := s\<rparr>\<rparr>, None)"
| "connection_react c (Kind_chosen k) = (c\<lparr>cf_draft := (cf_draft c)\<lparr>cd_kind := k\<rparr>\<rparr>, None)"
| "connection_react c (Issuer_typed s) = (c\<lparr>cf_draft := (cf_draft c)\<lparr>cd_issuer := s\<rparr>\<rparr>, None)"
| "connection_react c (ClientId_typed s) = (c\<lparr>cf_draft := (cf_draft c)\<lparr>cd_clientId := s\<rparr>\<rparr>, None)"
| "connection_react c Issuer_blurred = onIssuerBlur c"
| "connection_react c (Secret_typed s) = (if cf_replacingSecret c then c\<lparr>cf_secret := s\<rparr> else c, None)"
| "connection_react c Replace_clicked = (if shows_mask c then c\<lparr>cf_replacingSecret := True\<rparr> else c, None)"
| "connection_react c Keep_clicked =
     (if cf_replacingSecret c \<and> ip_hasSecret (cf_idp c) then c\<lparr>cf_secret := [], cf_replacingSecret := False\<rparr> else c, None)"
| "connection_react c Probe_clicked =
     (if isPending (cf_probing c) \<or> trim (cd_issuer (cf_draft c)) = [] then (c, None) else runProbe c)"
| "connection_react c (Probe_answered i res) =
     (case map_of (cf_flights c) i of
        None \<Rightarrow> c
      | Some (issuer, kind) \<Rightarrow>
          (let c = c\<lparr>cf_flights := filter (\<lambda>f. fst f \<noteq> i) (cf_flights c)\<rparr>
           in case res of
                Inl err \<Rightarrow> if cf_probing c = M_pending i then c\<lparr>cf_probing := M_error err\<rparr> else c
              | Inr r \<Rightarrow> c\<lparr>cf_probe := Some r, cf_probedIssuer := issuer,
                           cf_probing := (if cf_probing c = M_pending i then M_success else cf_probing c)\<rparr>), None)"
| "connection_react c Stage_clicked =
     (if isPending (cf_staging c) \<or> trim (cd_name (cf_draft c)) = [] \<or> trim (cd_issuer (cf_draft c)) = [] then (c, None) else stage_connection c)"
| "connection_react c Form_submitted = stage_connection c"
| "connection_react c (Stage_answered i res) =
     (if i \<notin> set (cf_edits c) then c
      else (let c = c\<lparr>cf_edits := removeAll i (cf_edits c)\<rparr>
            in case res of
                 Inl err \<Rightarrow> if cf_staging c = M_pending i then c\<lparr>cf_staging := M_error err\<rparr> else c
               | Inr r \<Rightarrow> c\<lparr>cf_staging := (if cf_staging c = M_pending i then M_success else cf_staging c), cf_staged := Some r,
                            cf_secret := [], cf_replacingSecret := False\<rparr>), None)"
| "connection_react c Stage_reset = ((case cf_staging c of M_error _ \<Rightarrow> c\<lparr>cf_staging := M_idle\<rparr> | _ \<Rightarrow> c), None)"
| "connection_react c Probe_reset = ((case cf_probing c of M_error _ \<Rightarrow> c\<lparr>cf_probing := M_idle\<rparr> | _ \<Rightarrow> c), None)"
| "connection_react c (Idp_refetched idp) = (c\<lparr>cf_idp := idp\<rparr>, None)"

definition connection_do :: "ConnectionForm \<Rightarrow> connection_event \<Rightarrow> ConnectionForm" where
  "connection_do c x = fst (connection_react c x)"

section \<open>Runs of the form\<close>

text \<open>Answers of the probe route are the server's probe of the issuer and kind that were sent.\<close>

definition probe_genuine :: "(string \<Rightarrow> IdpUrl option) \<Rightarrow> ConnectionForm \<Rightarrow> connection_event \<Rightarrow> bool" where
  "probe_genuine parse_url c x \<longleftrightarrow>
     (case x of
        Probe_answered i (Inr r) \<Rightarrow> (case map_of (cf_flights c) i of Some (issuer, kind) \<Rightarrow> r = probeIssuer parse_url issuer kind | None \<Rightarrow> True)
      | _ \<Rightarrow> True)"

definition probe_stored :: "(string \<Rightarrow> IdpUrl option) \<Rightarrow> IdentityProvider \<Rightarrow> bool" where
  "probe_stored parse_url idp \<longleftrightarrow>
     (\<forall>r. ip_lastProbe idp = Some r \<longrightarrow> (\<exists>issuer kind. r = probeIssuer parse_url issuer kind))"

inductive connection_reach :: "(string \<Rightarrow> IdpUrl option) \<Rightarrow> ConnectionForm \<Rightarrow> bool" for parse_url where
  form_opened: "probe_stored parse_url idp \<Longrightarrow> connection_reach parse_url (connection_start idp)"
| form_event: "connection_reach parse_url c \<Longrightarrow> probe_genuine parse_url c x \<Longrightarrow> connection_reach parse_url (connection_do c x)"

text \<open>The probe shown is the server's probe of the issuer it is shown for; the issuer sent and remembered is trimmed.\<close>

definition connection_ok :: "(string \<Rightarrow> IdpUrl option) \<Rightarrow> ConnectionForm \<Rightarrow> bool" where
  "connection_ok parse_url c \<longleftrightarrow>
     (\<forall>r. cf_probe c = Some r \<longrightarrow> (\<exists>kind. r = probeIssuer parse_url (cf_probedIssuer c) kind))
     \<and> (\<forall>i issuer kind. (i, issuer, kind) \<in> set (cf_flights c) \<longrightarrow> trim issuer = issuer)
     \<and> (cf_replacingSecret c \<or> cf_secret c = [])"

lemma probe_issuer_trim: "probe_issuer (probeIssuer parse_url issuer kind) = trim issuer"
  by (auto simp: probeIssuer_def blocked_def Let_def split: option.split)

lemma probeIssuer_trim: "probeIssuer parse_url (trim issuer) kind = probeIssuer parse_url issuer kind"
  by (simp add: probeIssuer_def trim_idem)

lemma probe_ok_kind: "probe_ok (probeIssuer parse_url issuer kind) = probe_ok (probeIssuer parse_url issuer kind')"
  by (auto simp: probeIssuer_def blocked_def Let_def split: option.split)

lemma connection_start_ok: "probe_stored parse_url idp \<Longrightarrow> connection_ok parse_url (connection_start idp)"
  by (fastforce simp: connection_ok_def connection_start_def probe_stored_def probe_issuer_trim probeIssuer_trim)

lemma runProbe_ok: "connection_ok parse_url c \<Longrightarrow> connection_ok parse_url (fst (runProbe c))"
  by (auto simp: runProbe_def Let_def connection_ok_def trim_idem)

lemma connection_ok_step:
  assumes ok: "connection_ok parse_url c" and g: "probe_genuine parse_url c x"
  shows "connection_ok parse_url (connection_do c x)"
proof (cases x)
  case (Probe_answered i res)
  show ?thesis
  proof (cases "map_of (cf_flights c) i")
    case None
    then show ?thesis using ok Probe_answered by (simp add: connection_do_def)
  next
    case (Some f)
    obtain issuer kind where f: "f = (issuer, kind)" by fastforce
    show ?thesis
    proof (cases res)
      case (Inl err)
      then show ?thesis using ok Probe_answered Some f by (auto simp: connection_do_def connection_ok_def Let_def)
    next
      case (Inr r)
      then have "r = probeIssuer parse_url issuer kind" using g Probe_answered Some f by (simp add: probe_genuine_def)
      then show ?thesis using ok Probe_answered Some f Inr by (auto simp: connection_do_def connection_ok_def Let_def)
    qed
  qed
next
  case Issuer_blurred
  then show ?thesis using ok runProbe_ok by (simp add: connection_do_def onIssuerBlur_def Let_def)
next
  case Probe_clicked
  then show ?thesis using ok runProbe_ok by (simp add: connection_do_def)
next
  case (Stage_answered i res)
  then show ?thesis using ok by (auto simp: connection_do_def connection_ok_def Let_def split: sum.split)
next
  case Stage_reset
  then show ?thesis using ok by (auto simp: connection_do_def connection_ok_def split: mutation.split)
next
  case Probe_reset
  then show ?thesis using ok by (auto simp: connection_do_def connection_ok_def split: mutation.split)
qed (use ok in \<open>auto simp: connection_do_def connection_ok_def stage_connection_def shows_mask_def\<close>)

lemma connection_reach_ok: "connection_reach parse_url c \<Longrightarrow> connection_ok parse_url c"
  by (induction rule: connection_reach.induct) (simp_all add: connection_start_ok connection_ok_step)

lemma patch_requests:
  "snd (connection_react c x) = Some (Patch_connection p) \<Longrightarrow> p = connection_patch c \<and> (x = Stage_clicked \<or> x = Form_submitted)"
  by (cases x) (auto simp: stage_connection_def onIssuerBlur_def runProbe_def Let_def split: if_splits)

lemma patch_parse:
  "IdpPatchSchema_parse (connection_patch c) =
     (if trim (cd_name (cf_draft c)) \<noteq> [] \<and> length (trim (cd_name (cf_draft c))) \<le> 64
         \<and> trim (cd_issuer (cf_draft c)) \<noteq> [] \<and> length (trim (cd_issuer (cf_draft c))) \<le> 2048
         \<and> trim (cd_clientId (cf_draft c)) \<noteq> [] \<and> length (trim (cd_clientId (cf_draft c))) \<le> 256
         \<and> (cf_replacingSecret c \<longrightarrow> length (cf_secret c) \<le> 1024)
      then Some (connection_patch c) else None)"
  by (auto simp: IdpPatchSchema_parse_def connection_patch_def optional_field_def trimmed_text_def trim_idem Suc_le_eq)

text \<open>The Stage button does not ask for a client ID, but the server refuses every edit without one.\<close>

lemma empty_client_id_refused: "trim (cd_clientId (cf_draft c)) = [] \<Longrightarrow> IdpPatchSchema_parse (connection_patch c) = None"
  by (simp add: patch_parse)

text \<open>
  For a connection that stores no secret, staging another field hides the input behind the mask of a stored
  secret, although none was sent and none is stored.
\<close>

lemma mask_without_secret:
  assumes "\<not> ip_hasSecret idp" and "c = connection_start idp" and "trim (ip_name idp) \<noteq> []" and "trim (ip_issuer idp) \<noteq> []"
  shows "snd (connection_react c Stage_clicked) = Some (Patch_connection (connection_patch c)) \<and> pt_clientSecret (connection_patch c) = None
    \<and> shows_mask (connection_do (connection_do c Stage_clicked) (Stage_answered 0 (Inr r)))"
  using assms by (simp add: connection_start_def connection_do_def stage_connection_def connection_patch_def shows_mask_def isPending_def)

section \<open>Properties\<close>

text \<open>
  What the connection form stages. However the fields are edited, probes answered and secrets typed or kept, an
  edit sent carries the trimmed fields on screen, and a secret exactly when one was typed into the open
  input; the server's schema takes it, unchanged, exactly when name, issuer and client ID are between 1 and
  64, 2048 and 256 characters and the secret has at most 1024; and once it is accepted the form holds no secret any more.
\<close>

theorem connection_staged:
  assumes "connection_reach parse_url c" and "snd (connection_react c x) = Some (Patch_connection p)"
  shows "pt_name p = Some (trim (cd_name (cf_draft c))) \<and> pt_issuer p = Some (trim (cd_issuer (cf_draft c)))
    \<and> pt_clientSecret p = (if cf_secret c = [] then None else Some (cf_secret c))
    \<and> (IdpPatchSchema_parse p = Some p \<longleftrightarrow>
         length (trim (cd_name (cf_draft c))) \<in> {1..64} \<and> length (trim (cd_issuer (cf_draft c))) \<in> {1..2048}
         \<and> length (trim (cd_clientId (cf_draft c))) \<in> {1..256} \<and> length (cf_secret c) \<le> 1024)
    \<and> cf_secret (connection_do (connection_do c x) (Stage_answered (cf_sent c) (Inr r))) = []"
proof -
  have ok: "cf_replacingSecret c \<or> cf_secret c = []" using connection_reach_ok [OF assms(1)] by (simp add: connection_ok_def)
  have p: "p = connection_patch c" "x = Stage_clicked \<or> x = Form_submitted" using patch_requests [OF assms(2)] by simp_all
  have "cf_secret (connection_do (connection_do c x) (Stage_answered (cf_sent c) (Inr r))) = []"
    using p(2) assms(2) by (auto simp: connection_do_def stage_connection_def split: if_splits)
  moreover have "pt_clientSecret p = (if cf_secret c = [] then None else Some (cf_secret c))"
    using ok by (auto simp: p(1) connection_patch_def)
  moreover have "IdpPatchSchema_parse p = Some p \<longleftrightarrow>
       length (trim (cd_name (cf_draft c))) \<in> {1..64} \<and> length (trim (cd_issuer (cf_draft c))) \<in> {1..2048}
       \<and> length (trim (cd_clientId (cf_draft c))) \<in> {1..256} \<and> length (cf_secret c) \<le> 1024"
    using ok by (auto simp: p(1) patch_parse Suc_le_eq)
  ultimately show ?thesis by (simp add: p(1) connection_patch_def)
qed

text \<open>
  C26: a green issuer is a safe one. In whatever order probes are sent and answered, and whatever was typed
  meanwhile, the issuer field is marked as passed only when the server's probe of exactly that issuer passed; then its URL is
  https, without credentials, with a host in no private range, and an edit staged now is not
  refused for its issuer, whichever kind is chosen.
\<close>

theorem issuer_green_safe:
  assumes "connection_reach parse_url c" and "issuerTone c = Some Ok_tone"
  shows "issuer_failure parse_url idp (connection_patch c) = None
    \<and> (\<exists>u. parse_url (trim (cd_issuer (cf_draft c))) = Some u \<and> iu_protocol u = ''https:'' \<and> iu_username u = [] \<and> iu_password u = []
         \<and> privateRangeOf (toLowerCase (iu_hostname u)) = None)"
proof -
  obtain r where r: "cf_probe c = Some r" "probe_ok r" "trim (cd_issuer (cf_draft c)) = cf_probedIssuer c"
    using assms(2) by (auto simp: issuerTone_def issuerStale_def split: if_splits)
  then obtain kind where kind: "r = probeIssuer parse_url (trim (cd_issuer (cf_draft c))) kind"
    using connection_reach_ok [OF assms(1)] by (auto simp: connection_ok_def)
  have "probe_ok (probeIssuer parse_url (trim (cd_issuer (cf_draft c))) k)" for k using r(2) kind probe_ok_kind by metis
  then have "issuer_failure parse_url idp (connection_patch c) = None"
    by (auto simp: issuer_failure_def connection_patch_def split: ProbeResult.split) (metis probe_ok.simps(2))
  moreover have "\<exists>u. parse_url (trim (cd_issuer (cf_draft c))) = Some u \<and> iu_protocol u = ''https:'' \<and> iu_username u = [] \<and> iu_password u = []
      \<and> privateRangeOf (toLowerCase (iu_hostname u)) = None"
    using r(2) unfolding kind by (auto simp: probeIssuer_def blocked_def Let_def trim_idem split: option.splits if_splits)
  ultimately show ?thesis by blast
qed

section \<open>Witnesses\<close>

definition demo_idp :: IdentityProvider where
  "demo_idp = \<lparr>ip_id = ''entra'', ip_name = ''entra'', ip_kind = Oidc, ip_issuer = ''https://idp.example/'', ip_host = ''idp.example'', ip_clientId = ''console'',
     ip_hasSecret = False, ip_state = Pending_apply, ip_userCount = 0, ip_externalId = None, ip_note = None, ip_claimMappings = [], ip_lastProbe = None,
     ip_stagedGeneration = None\<rparr>"

lemma demo_texts: "trim ''entra'' = ''entra''" "trim ''https://idp.example/'' = ''https://idp.example/''" "trim ''console'' = ''console''"
  by code_simp+

definition demo_form :: ConnectionForm where
  "demo_form = connection_do (connection_do (connection_do (connection_start demo_idp) (Secret_typed ''s3cret'')) Issuer_blurred)
     (Probe_answered 0 (Inr (probeIssuer example_url ''https://idp.example/'' Oidc)))"

lemma demo_form_reach: "connection_reach example_url demo_form"
  unfolding demo_form_def
  by (intro connection_reach.intros)
     (simp_all add: probe_stored_def demo_idp_def probe_genuine_def connection_do_def connection_start_def onIssuerBlur_def runProbe_def Let_def demo_texts)

lemma demo_form_fields:
  "cd_name (cf_draft demo_form) = ''entra''" "cd_issuer (cf_draft demo_form) = ''https://idp.example/''" "cd_clientId (cf_draft demo_form) = ''console''"
  "cf_secret demo_form = ''s3cret''" "cf_sent demo_form = 1" "cf_staging demo_form = M_idle" "cf_probing demo_form = M_success" "cf_probedIssuer demo_form = ''https://idp.example/''"
  "cf_probe demo_form = Some (probeIssuer example_url ''https://idp.example/'' Oidc)"
  by (simp_all add: demo_form_def demo_idp_def connection_do_def connection_start_def onIssuerBlur_def runProbe_def Let_def demo_texts)

theorem connection_staged_witness:
  "snd (connection_react demo_form Stage_clicked) = Some (Patch_connection (connection_patch demo_form))
    \<and> IdpPatchSchema_parse (connection_patch demo_form) = Some (connection_patch demo_form)
    \<and> pt_clientSecret (connection_patch demo_form) = Some ''s3cret''
    \<and> cf_secret (connection_do (connection_do demo_form Stage_clicked)
        (Stage_answered 1 (Inr \<lparr>ir_id = ''entra'', ir_generation = 10, ir_stagedAt = [], ir_secretReplaced = True\<rparr>))) = []"
proof -
  have put: "snd (connection_react demo_form Stage_clicked) = Some (Patch_connection (connection_patch demo_form))"
    by (simp add: demo_form_fields demo_texts isPending_def stage_connection_def)
  note st = connection_staged [OF demo_form_reach put]
  have "IdpPatchSchema_parse (connection_patch demo_form) = Some (connection_patch demo_form)"
    using st by (simp add: demo_form_fields demo_texts)
  moreover have "pt_clientSecret (connection_patch demo_form) = Some ''s3cret''" using st by (simp add: demo_form_fields)
  ultimately show ?thesis using put st [unfolded demo_form_fields(5)] by blast
qed

theorem issuer_green_safe_witness:
  "issuerTone demo_form = Some Ok_tone \<and> issuer_failure example_url demo_idp (connection_patch demo_form) = None"
proof -
  obtain ms ip cs where "probeIssuer example_url ''https://idp.example/'' Oidc = Probe_ok (trim ''https://idp.example/'') ms ip cs"
    using example_probe by blast
  then have tone: "issuerTone demo_form = Some Ok_tone" by (simp add: issuerTone_def issuerStale_def demo_form_fields demo_texts isPending_def)
  with issuer_green_safe [OF demo_form_reach tone] show ?thesis by blast
qed

end
