(* ===== verification/Drift_Screen.thy ===== *)
theory Drift_Screen
  imports Drift_Behaviour Client_View Client_Requests
begin

text \<open>
  The drift screen in the browser (\<^verbatim>\<open>features/drift/components/drift-view.tsx\<close>, \<^verbatim>\<open>hooks.ts\<close>): the selection of findings, the
  bulk heal and acknowledge, the resync button and the links of the drawer. Shown: a bulk action names only findings that
  are selected and still listed, a heal of them closes exactly those, and an acknowledge of
  several stops at the first that is gone.
\<close>

section \<open>Links\<close>

definition driftListPath :: "DriftListFilter \<Rightarrow> string option \<Rightarrow> string" where
  "driftListPath flt scopedTenant =
     (let severity = (case fl_severity flt of Some s \<Rightarrow> [(''severity'', severity_str s)] | None \<Rightarrow> [])
      in if truthy scopedTenant
         then (let qs = params_toString severity
               in ''/api/tenants/'' @ encodeURIComponent (the scopedTenant) @ ''/drift'' @ (if qs \<noteq> [] then ''?'' @ qs else []))
         else (let qs = params_toString (severity @ (if truthy (fl_tenant flt) then [(''tenant'', the (fl_tenant flt))] else []))
               in ''/api/drift'' @ (if qs \<noteq> [] then ''?'' @ qs else [])))"

definition listQs :: "params \<Rightarrow> params" where
  "listQs searchParams = filter (\<lambda>p. fst p \<noteq> ''finding'') searchParams"

text \<open>\<^verbatim>\<open>params.set\<close> on parameters without the name appends.\<close>

definition drawerHref :: "string option \<Rightarrow> string \<Rightarrow> params \<Rightarrow> string \<Rightarrow> string" where
  "drawerHref scopedTenant basePath searchParams i =
     (if truthy scopedTenant then basePath @ ''?'' @ params_toString (listQs searchParams @ [(''finding'', i)])
      else (let qs = params_toString (listQs searchParams)
            in basePath @ ''/'' @ encodeURIComponent i @ (if qs \<noteq> [] then ''?'' @ qs else [])))"

definition closeHref :: "string \<Rightarrow> params \<Rightarrow> string" where
  "closeHref basePath searchParams =
     (let qs = params_toString (listQs searchParams) in if qs \<noteq> [] then basePath @ ''?'' @ qs else basePath)"

section \<open>The screen\<close>

text \<open>The selection is a JavaScript set: its elements in the order they were added.\<close>

record DriftView =
  dv_items :: "DriftFinding list"
  dv_selected :: "string list"
  dv_notice :: "string option"
  dv_error :: "(string \<times> string option) option"
  dv_heal :: "string list mutation"
  dv_ack :: "string list mutation"
  dv_resync :: "unit mutation"

definition drift_start :: "DriftFinding list \<Rightarrow> DriftView" where
  "drift_start items = \<lparr>dv_items = items, dv_selected = [], dv_notice = None, dv_error = None, dv_heal = M_idle, dv_ack = M_idle, dv_resync = M_idle\<rparr>"

definition liveSelected :: "DriftView \<Rightarrow> string list" where
  "liveSelected v = filter (\<lambda>i. i \<in> set (map df_id (dv_items v))) (dv_selected v)"

definition drift_busy :: "DriftView \<Rightarrow> bool" where
  "drift_busy v \<longleftrightarrow> isPending (dv_heal v) \<or> isPending (dv_ack v)"

definition drift_fail :: "BffError + string \<Rightarrow> string \<times> string option" where
  "drift_fail e = (case e of Inl b \<Rightarrow> (be_title b, be_detail b) | Inr text' \<Rightarrow> (''Request failed'', Some text'))"

definition run_label :: "string \<times> string \<Rightarrow> string" where
  "run_label r = fst r @ '' '' @ take 4 (snd r)"

definition heal_notice :: "HealResponse \<Rightarrow> string" where
  "heal_notice runs =
     (if length runs = 0 then ''nothing to heal '' @ mid_dot @ '' findings were already closed''
      else ''healing enqueued '' @ mid_dot @ '' '' @ show_nat (length runs) @ '' '' @ (if length runs = 1 then ''reconcile'' else ''reconciles'')
           @ '': '' @ join '', '' (map run_label runs))"

definition utcClock :: "string \<Rightarrow> string" where
  "utcClock text' =
     (case Date_parse text' of
        None \<Rightarrow> ''NaN:NaNZ''
      | Some d \<Rightarrow> pad 2 (getUTCHours d) @ '':'' @ pad 2 (getUTCMinutes d) @ ''Z'')"

text \<open>The query client reports a mutation's end to its last caller only, so an answer is one to the call in flight.\<close>

datatype drift_event =
    List_arrived "DriftFinding list" | Toggled string bool | Heal_selected | Ack_selected | Ack_row string | Resync_clicked
  | Heal_answered "(BffError + string) + HealResponse" | Ack_answered "(BffError + string) + unit"
  | Resync_answered "(BffError + string) + string" | Drawer_healed HealResponse

datatype drift_request = Post_heal "string list" | Post_acks "string list" | Post_resync

definition healIds :: "string list \<Rightarrow> DriftView \<Rightarrow> DriftView \<times> drift_request option" where
  "healIds ids v = (v\<lparr>dv_error := None, dv_notice := None, dv_heal := M_pending ids\<rparr>, Some (Post_heal ids))"

definition ackIds :: "string list \<Rightarrow> DriftView \<Rightarrow> DriftView \<times> drift_request option" where
  "ackIds ids v = (v\<lparr>dv_error := None, dv_notice := None, dv_ack := M_pending ids\<rparr>, Some (Post_acks ids))"

definition toggle :: "string \<Rightarrow> bool \<Rightarrow> string list \<Rightarrow> string list" where
  "toggle i on sel = (if on then (if i \<in> set sel then sel else sel @ [i]) else removeAll i sel)"

fun drift_react :: "DriftView \<Rightarrow> drift_event \<Rightarrow> DriftView \<times> drift_request option" where
  "drift_react v (List_arrived items) = (v\<lparr>dv_items := items\<rparr>, None)"
| "drift_react v (Toggled i on) = (v\<lparr>dv_selected := toggle i on (dv_selected v)\<rparr>, None)"
| "drift_react v Heal_selected = (if length (liveSelected v) = 0 \<or> drift_busy v then (v, None) else healIds (liveSelected v) v)"
| "drift_react v Ack_selected = (if length (liveSelected v) = 0 \<or> drift_busy v then (v, None) else ackIds (liveSelected v) v)"
| "drift_react v (Ack_row i) = (if i \<in> set (map df_id (dv_items v)) then ackIds [i] v else (v, None))"
| "drift_react v Resync_clicked =
     (if isPending (dv_resync v) then (v, None)
      else (v\<lparr>dv_error := None, dv_notice := None, dv_resync := M_pending ()\<rparr>, Some Post_resync))"
| "drift_react v (Heal_answered res) =
     (case dv_heal v of
        M_pending _ \<Rightarrow>
          (case res of
             Inl e \<Rightarrow> v\<lparr>dv_heal := M_error e, dv_error := Some (drift_fail e)\<rparr>
           | Inr runs \<Rightarrow> v\<lparr>dv_heal := M_success, dv_selected := [], dv_notice := Some (heal_notice runs)\<rparr>)
      | _ \<Rightarrow> v, None)"
| "drift_react v (Ack_answered res) =
     (case dv_ack v of
        M_pending ids \<Rightarrow>
          (case res of
             Inl e \<Rightarrow> v\<lparr>dv_ack := M_error e, dv_error := Some (drift_fail e)\<rparr>
           | Inr _ \<Rightarrow> v\<lparr>dv_ack := M_success, dv_selected := [],
               dv_notice := Some (show_nat (length ids) @ '' acknowledged '' @ mid_dot @ '' suppressed until the desired value changes'')\<rparr>)
      | _ \<Rightarrow> v, None)"
| "drift_react v (Resync_answered res) =
     (case dv_resync v of
        M_pending _ \<Rightarrow>
          (case res of
             Inl e \<Rightarrow> v\<lparr>dv_resync := M_error e, dv_error := Some (drift_fail e)\<rparr>
           | Inr scheduledAt \<Rightarrow> v\<lparr>dv_resync := M_success,
               dv_notice := Some (''resync enqueued '' @ mid_dot @ '' scheduled '' @ utcClock scheduledAt @ '', jittered'')\<rparr>)
      | _ \<Rightarrow> v, None)"
| "drift_react v (Drawer_healed runs) =
     (v\<lparr>dv_selected := [], dv_notice := Some (''healing enqueued '' @ mid_dot @ '' '' @ join '', '' (map run_label runs))\<rparr>, None)"

definition drift_do :: "DriftView \<Rightarrow> drift_event \<Rightarrow> DriftView" where
  "drift_do v x = fst (drift_react v x)"

text \<open>The acknowledge mutation: one request per finding, in order; a failure ends it.\<close>

fun useAcknowledge :: "DriftStore \<Rightarrow> string list \<Rightarrow> instant \<Rightarrow> DriftStore \<times> bool" where
  "useAcknowledge s [] now = (s, True)"
| "useAcknowledge s (i # ids) now =
     (case acknowledgeFinding (Some s) i now of
        (s', Inr (Some _)) \<Rightarrow> useAcknowledge s' ids now
      | (s', _) \<Rightarrow> (s', False))"

section \<open>What bulk actions name\<close>

interpretation drift_screen: transition_system drift_do "\<lambda>v. distinct (dv_selected v)"
proof
  fix v :: DriftView and x
  assume "distinct (dv_selected v)"
  then show "distinct (dv_selected (drift_do v x))"
    by (cases x) (auto simp: drift_do_def toggle_def healIds_def ackIds_def distinct_removeAll split: mutation.split sum.split)
qed

lemma heal_request:
  "snd (drift_react v x) = Some (Post_heal ids) \<longleftrightarrow> x = Heal_selected \<and> liveSelected v \<noteq> [] \<and> \<not> drift_busy v \<and> ids = liveSelected v"
  by (cases x) (auto simp: healIds_def ackIds_def)

text \<open>
  However the list was refreshed since the rows were ticked, a bulk heal names findings that are ticked and still
  listed, each once and at least one, and no second one is sent before its answer. If they are open on the server, the heal closes exactly them and leaves every other finding
  alone, and the screen's selection is empty again.
\<close>

theorem drift_heal_selected:
  assumes "v = run drift_do (drift_start items) xs" and "snd (drift_react v x) = Some (Post_heal ids)"
    and "keyed (ds_findings s)" and "\<forall>i \<in> set ids. \<exists>f. map_get (ds_findings s) i = Some f \<and> df_status f = Open_finding"
  shows "set ids = set (dv_selected v) \<inter> df_id ` set (dv_items v) \<and> distinct ids \<and> ids \<noteq> []
    \<and> snd (drift_react (drift_do v x) Heal_selected) = None
    \<and> map_values (ds_findings (fst (healFindings draw (Some s) ids now))) = filter (\<lambda>f. df_id f \<notin> set ids) (map_values (ds_findings s))
    \<and> dv_selected (drift_do (drift_do v x) (Heal_answered (Inr runs))) = []"
proof -
  have "distinct (dv_selected v)" unfolding assms(1) by (rule drift_screen.run_inv) (simp add: drift_start_def)
  moreover have h: "x = Heal_selected" "ids \<noteq> []" "\<not> drift_busy v" "ids = liveSelected v" using assms(2) unfolding heal_request by simp_all
  moreover have v': "drift_do v x = v\<lparr>dv_error := None, dv_notice := None, dv_heal := M_pending ids\<rparr>"
    using h by (simp add: drift_do_def healIds_def)
  moreover have "map_values (ds_findings (fst (healFindings draw (Some s) ids now))) = filter (\<lambda>f. \<not> healable ids f) (map_values (ds_findings s))"
    using heal_effect [OF assms(3), of ids draw now] unfolding heals_def by simp
  moreover have "healable ids f \<longleftrightarrow> df_id f \<in> set ids" if mem: "f \<in> set (map_values (ds_findings s))" for f
  proof -
    obtain k where k: "(k, f) \<in> set (ds_findings s)" using mem by force
    have "map_wf (ds_findings s)" "df_id f = k" using assms(3) k by (auto simp: keyed_def)
    then have "map_get (ds_findings s) (df_id f) = Some f" using k by simp
    then show ?thesis using assms(4) by (auto simp: healable_def)
  qed
  ultimately show ?thesis
    by (auto simp: liveSelected_def drift_busy_def isPending_def drift_do_def intro!: filter_cong)
qed

text \<open>A bulk acknowledge marks every finding it names, provided all are still there.\<close>

lemma ack_step:
  assumes "map_get (ds_findings s) i = Some f" and "DriftFindingSchema_ok (f\<lparr>df_status := Acknowledged\<rparr>)"
  shows "acknowledgeFinding (Some s) i now
    = (s\<lparr>ds_findings := map_set (ds_findings s) i (f\<lparr>df_status := Acknowledged\<rparr>)\<rparr>, Inr (Some (f\<lparr>df_status := Acknowledged\<rparr>)))"
  using assms by (simp add: acknowledgeFinding_def Let_def)

text \<open>One that is gone (healed by someone else meanwhile) ends it: what comes after keeps its state.\<close>

lemma ack_stops_at_missing: "map_get (ds_findings s) i = None \<Longrightarrow> useAcknowledge s (i # ids) now = (s, False)"
  by (simp add: acknowledgeFinding_def Let_def)

end
