(* ===== verification/Routes.thy ===== *)
theory Routes
  imports Authz_Model Playground Relations Reconcile_Behaviour Spec_History Drift_Behaviour
    Sessions Identity_Providers Roles Users Audit_Stream Dashboard
begin

text \<open>
  The route handlers under \<^verbatim>\<open>app/api\<close>: the whole server as one state machine. A \<open>world\<close> holds every store of
  the process; each handler calls the guard, reads its parameters and body, calls one operation of a
  feature, and turns the outcome into a response. What the framework and the platform supply (the
  router, WebCrypto, the URL parser, \<^verbatim>\<open>Number\<close>, collation, the wording of schema errors, clocks, random
  UUIDs) are arguments.
\<close>

section \<open>State, requests, responses\<close>

record world =
  w_cache :: key_cache
  w_tenants :: tenants
  w_models :: model_store
  w_rels :: rel_stores
  w_runs :: Store
  w_specs :: spec_store
  w_drift :: "DriftStore option"
  w_idps :: idp_store
  w_roles :: role_store
  w_mirror :: mirror
  w_exports :: exports

text \<open>The state of a fresh process.\<close>

definition boot :: world where
  "boot = \<lparr>w_cache = None, w_tenants = [], w_models = [], w_rels = [], w_runs = seed, w_specs = [], w_drift = None,
     w_idps = [], w_roles = [], w_mirror = [], w_exports = []\<rparr>"

record host =
  h_platform :: platform
  h_env :: environment
  h_spec_url :: "string \<Rightarrow> url_parts option"
  h_idp_url :: "string \<Rightarrow> IdpUrl option"
  h_compare :: "string \<Rightarrow> string \<Rightarrow> int"
  h_number :: "string \<Rightarrow> int option"
  h_issue :: "string \<Rightarrow> string"
  h_is_email :: "string \<Rightarrow> bool"

text \<open>
  One request: method, headers and cookies, the search parameters of its URL, the text the schema
  library would give for its body, the clock, a source of UUIDs, and the time a validation took.
\<close>

record incoming =
  in_request :: Request
  in_params :: params
  in_message :: string
  in_now :: instant
  in_draws :: "128 word list"
  in_uuid :: "nat \<Rightarrow> 128 word"
  in_elapsed :: nat

text \<open>A body: no JSON (\<open>None\<close>), JSON of another shape (\<open>Some None\<close>), or the raw fields.\<close>

type_synonym 'a body = "'a option option"

datatype payload =
    J_audit AuditPage | J_export ExportResponse | J_overview DashboardOverview | J_drift DriftList | J_finding DriftFinding
  | J_heal HealResponse | J_resync string | J_runs RunPage | J_run RunDetail | J_runId string | J_tenants TenantPage
  | J_tenant TenantDetail | J_created TenantSummary | J_slug SlugCheck | J_model AuthorizationModel | J_staged StageResult
  | J_validation ValidationResult | J_batch BatchCheckResponse | J_explain ExplainResponse | J_idps IdpList
  | J_idp IdentityProvider | J_idp_staged IdpStageResult | J_probe ProbeResult | J_plan Plan | J_relations RelationsPage
  | J_written WriteResult | J_roles RolesResponse | J_role_deleted RoleDeleteResult | J_spec SpecDocument
  | J_saved SaveSpecResponse | J_spec_validation ValidationOutcome nat | J_versions SpecVersions | J_users UsersPage
  | J_invite InviteResult | J_refresh RefreshResult

text \<open>An uncaught exception is the framework's 500; \<open>Waiting\<close> is a draw of ids that has not ended.\<close>

datatype reply = Json nat payload | Problem_json Problem | Threw exn | Waiting

definition fail :: "failure \<Rightarrow> reply" where
  "fail f = Problem_json (problem (f_status f) (f_title f) (f_detail f) [])"

definition not_found_reply :: "string \<Rightarrow> string option \<Rightarrow> reply" where
  "not_found_reply title detail = Problem_json (problem 404 title detail [])"

definition bad_request :: "string \<Rightarrow> string option \<Rightarrow> reply" where
  "bad_request title detail = Problem_json (problem 400 title detail [])"

definition answer :: "nat \<Rightarrow> ('a \<Rightarrow> payload) \<Rightarrow> 'a throws \<Rightarrow> reply" where
  "answer status json r = (case r of Inl e \<Rightarrow> Threw e | Inr a \<Rightarrow> Json status (json a))"

definition answer_or :: "reply \<Rightarrow> nat \<Rightarrow> ('a \<Rightarrow> payload) \<Rightarrow> 'a option throws \<Rightarrow> reply" where
  "answer_or missing status json r =
     (case r of Inl e \<Rightarrow> Threw e | Inr None \<Rightarrow> missing | Inr (Some a) \<Rightarrow> Json status (json a))"

definition answer_result :: "nat \<Rightarrow> ('a \<Rightarrow> payload) \<Rightarrow> 'a result throws \<Rightarrow> reply" where
  "answer_result status json r =
     (case r of Inl e \<Rightarrow> Threw e | Inr (Inl f) \<Rightarrow> fail f | Inr (Inr a) \<Rightarrow> Json status (json a))"

definition await_draw :: "('a \<Rightarrow> reply) \<Rightarrow> 'a option \<Rightarrow> reply" where
  "await_draw k r = (case r of None \<Rightarrow> Waiting | Some a \<Rightarrow> k a)"

text \<open>\<^verbatim>\<open>const g = await guardRoute(request); if (!g.ok) return g.response;\<close>\<close>

definition guarded :: "host \<Rightarrow> incoming \<Rightarrow> world \<Rightarrow> (Session \<Rightarrow> string \<Rightarrow> world \<Rightarrow> world \<times> reply) \<Rightarrow> world \<times> reply" where
  "guarded h q w handler =
     (case guardRoute (h_platform h) (h_env h) (w_cache w) (in_request q) (int (in_now q div 1000)) of
        (cache, Inl p) \<Rightarrow> (w\<lparr>w_cache := cache\<rparr>, Problem_json p)
      | (cache, Inr (operator, key)) \<Rightarrow>
          handler operator (case key of Some k \<Rightarrow> k | None \<Rightarrow> []) (w\<lparr>w_cache := cache\<rparr>))"

text \<open>\<^verbatim>\<open>const body = await parseBody(request, (input) => Schema.safeParse(input)); if (!body.ok) return body.response;\<close>\<close>

definition with_body :: "incoming \<Rightarrow> 'a body \<Rightarrow> ('a \<Rightarrow> 'b option) \<Rightarrow> world \<Rightarrow> ('b \<Rightarrow> world \<times> reply) \<Rightarrow> world \<times> reply" where
  "with_body q body safeParse w k =
     (case parseBody body (\<lambda>j. case j of
          None \<Rightarrow> Inl (in_message q)
        | Some raw \<Rightarrow> (case safeParse raw of None \<Rightarrow> Inl (in_message q) | Some data \<Rightarrow> Inr data)) of
        Inl p \<Rightarrow> (w, Problem_json p)
      | Inr data \<Rightarrow> k data)"

definition accept_if :: "('a \<Rightarrow> bool) \<Rightarrow> 'a \<Rightarrow> 'a option" where
  "accept_if ok a = (if ok a then Some a else None)"

abbreviation param :: "incoming \<Rightarrow> string \<Rightarrow> string option" where
  "param q k \<equiv> map_get (in_params q) k"

definition no_tenant :: "string \<Rightarrow> string option" where
  "no_tenant slug = Some (''No tenant '' @ slug @ ''.'')"

definition no_tenant_slug :: "string \<Rightarrow> string option" where
  "no_tenant_slug slug = Some (''No tenant with slug '' @ quoted slug @ ''.'')"

section \<open>Tenants\<close>

definition tenants_GET :: "host \<Rightarrow> incoming \<Rightarrow> world \<Rightarrow> world \<times> reply" where
  "tenants_GET h q w = guarded h q w (\<lambda>operator key w.
     (w, case parseTenantListFilter (in_params q) of
           Inl message \<Rightarrow> bad_request ''Invalid filter'' (Some message)
         | Inr fl \<Rightarrow> answer 200 J_tenants (listTenants (w_tenants w) fl)))"

definition slug_taken :: "string \<Rightarrow> reply" where
  "slug_taken slug = Problem_json (problem 409 ''Slug already taken''
     (Some (''A tenant with slug '' @ quoted slug @ '' already exists. Slugs are immutable, pick another.'')) [])"

definition tenants_POST :: "host \<Rightarrow> CreateTenantInput body \<Rightarrow> incoming \<Rightarrow> world \<Rightarrow> world \<times> reply" where
  "tenants_POST h body q w = guarded h q w (\<lambda>operator key w.
     with_body q body (\<lambda>raw. case CreateTenantInputSchema_parse raw of Inl _ \<Rightarrow> None | Inr input \<Rightarrow> Some input) w (\<lambda>input.
       case createTenant (w_tenants w) input (in_now q) of
         (T, Inl (SlugTakenError slug)) \<Rightarrow> (w\<lparr>w_tenants := T\<rparr>, slug_taken slug)
       | (T, r) \<Rightarrow> (w\<lparr>w_tenants := T\<rparr>, answer 201 J_created r)))"

definition slug_check_GET :: "host \<Rightarrow> incoming \<Rightarrow> world \<Rightarrow> world \<times> reply" where
  "slug_check_GET h q w = guarded h q w (\<lambda>operator key w.
     (w, case param q ''slug'' of
           None \<Rightarrow> bad_request ''Missing slug'' (Some ''Pass ?slug=<candidate>.'')
         | Some slug \<Rightarrow> Json 200 (J_slug (isSlugAvailable (w_tenants w) (trim slug)))))"

definition tenant_GET :: "host \<Rightarrow> string \<Rightarrow> incoming \<Rightarrow> world \<Rightarrow> world \<times> reply" where
  "tenant_GET h slug q w = guarded h q w (\<lambda>operator key w.
     (w, answer_or (not_found_reply ''Tenant not found'' (no_tenant_slug slug)) 200 J_tenant (getTenant (w_tenants w) slug)))"

section \<open>Authorization model\<close>

definition authorization_model_GET :: "host \<Rightarrow> string \<Rightarrow> incoming \<Rightarrow> world \<Rightarrow> world \<times> reply" where
  "authorization_model_GET h slug q w = guarded h q w (\<lambda>operator key w.
     case getAuthorizationModel (w_tenants w) (w_models w) slug of
       (M, r) \<Rightarrow> (w\<lparr>w_models := M\<rparr>, answer_or (not_found_reply ''Tenant not found'' None) 200 J_model r))"

definition authorization_model_POST :: "host \<Rightarrow> string \<Rightarrow> string body \<Rightarrow> incoming \<Rightarrow> world \<Rightarrow> world \<times> reply" where
  "authorization_model_POST h slug body q w = guarded h q w (\<lambda>operator key w.
     with_body q body (accept_if ValidateRequestSchema_ok) w (\<lambda>dsl.
       case stageModel (w_tenants w) (w_models w) slug dsl (in_now q) of
         (M, r) \<Rightarrow> (w\<lparr>w_models := M\<rparr>, answer_result 202 J_staged r)))"

definition authorization_model_validate_POST :: "host \<Rightarrow> string \<Rightarrow> string body \<Rightarrow> incoming \<Rightarrow> world \<Rightarrow> world \<times> reply" where
  "authorization_model_validate_POST h slug body q w = guarded h q w (\<lambda>operator key w.
     with_body q body (accept_if ValidateRequestSchema_ok) w (\<lambda>dsl.
       (w, answer_result 200 J_validation (validateModel (w_tenants w) slug dsl))))"

section \<open>Playground\<close>

text \<open>\<^verbatim>\<open>ConsistencySchema.safeParse(searchParams.get("consistency") ?? "eventual")\<close>.\<close>

definition consistency_of :: "string option \<Rightarrow> Consistency option" where
  "consistency_of v =
     (let s = (case v of Some s \<Rightarrow> s | None \<Rightarrow> ''eventual'')
      in if s = ''strong'' then Some Strong else if s = ''eventual'' then Some Eventual else None)"

definition invalid_consistency :: reply where
  "invalid_consistency = bad_request ''Invalid consistency'' (Some ''consistency must be strong or eventual.'')"

definition check_fields :: "string \<times> string \<times> string \<Rightarrow> CheckTuple option" where
  "check_fields c = (case c of (user, relation, object) \<Rightarrow> CheckTupleSchema_parse user relation object)"

definition ExplainRequestSchema_parse :: "(string \<times> string \<times> string) \<times> bool option \<Rightarrow> (CheckTuple \<times> bool) option" where
  "ExplainRequestSchema_parse r =
     map_option (\<lambda>c. (c, case snd r of Some b \<Rightarrow> b | None \<Rightarrow> True)) (check_fields (fst r))"

definition BatchCheckRequestSchema_parse :: "(string \<times> string \<times> string) list \<Rightarrow> CheckTuple list option" where
  "BatchCheckRequestSchema_parse rs = Option.bind (those (map check_fields rs)) (accept_if BatchCheckRequestSchema_ok)"

definition explain_POST :: "host \<Rightarrow> string \<Rightarrow> ((string \<times> string \<times> string) \<times> bool option) body \<Rightarrow> incoming \<Rightarrow> world \<Rightarrow> world \<times> reply" where
  "explain_POST h slug body q w = guarded h q w (\<lambda>operator key w.
     case consistency_of (param q ''consistency'') of
       None \<Rightarrow> (w, invalid_consistency)
     | Some consistency \<Rightarrow>
         with_body q body ExplainRequestSchema_parse w (\<lambda>(check, includeProvenance).
           (w, answer_or (not_found_reply ''Tenant not found'' None) 200 J_explain
                 (explainForTenant slug check includeProvenance consistency))))"

definition batch_check_POST :: "host \<Rightarrow> string \<Rightarrow> (string \<times> string \<times> string) list body \<Rightarrow> incoming \<Rightarrow> world \<Rightarrow> world \<times> reply" where
  "batch_check_POST h slug body q w = guarded h q w (\<lambda>operator key w.
     case consistency_of (param q ''consistency'') of
       None \<Rightarrow> (w, invalid_consistency)
     | Some consistency \<Rightarrow>
         with_body q body BatchCheckRequestSchema_parse w (\<lambda>checks.
           (w, answer_or (not_found_reply ''Tenant not found'' None) 200 J_batch
                 (batchCheckForTenant slug checks consistency))))"

section \<open>Relations\<close>

definition relations_limit :: "host \<Rightarrow> string option \<Rightarrow> int option" where
  "relations_limit h raw = (if truthy raw then h_number h (the raw) else Some (int RELATIONS_PAGE_SIZE))"

text \<open>\<^verbatim>\<open>Object.fromEntries\<close> keeps the last of repeated parameters.\<close>

definition relations_GET :: "host \<Rightarrow> string \<Rightarrow> incoming \<Rightarrow> world \<Rightarrow> world \<times> reply" where
  "relations_GET h slug q w = guarded h q w (\<lambda>operator key w.
     (let fl = parseRelationsFilter (map_of (rev (in_params q)));
          cursor = param q ''cursor'';
          invalid = bad_request ''Invalid limit'' (Some ''Expected an integer between 1 and 100.'')
      in case relations_limit h (param q ''limit'') of
           None \<Rightarrow> (w, invalid)
         | Some limit \<Rightarrow>
             if limit < 1 \<or> 100 < limit then (w, invalid)
             else (case listRelations (w_tenants w) (w_rels w) slug fl cursor (nat limit) of
                     (S, r) \<Rightarrow> (w\<lparr>w_rels := S\<rparr>, answer_or (not_found_reply ''Tenant not found'' None) 200 J_relations r))))"

definition relations_write_POST :: "host \<Rightarrow> string \<Rightarrow> WriteRequest body \<Rightarrow> incoming \<Rightarrow> world \<Rightarrow> world \<times> reply" where
  "relations_write_POST h slug body q w = guarded h q w (\<lambda>operator key w.
     with_body q body (accept_if WriteRequestSchema_ok) w (\<lambda>request.
       case writeRelations (w_tenants w) (w_rels w) slug request (in_now q) of
         (S, r) \<Rightarrow> (w\<lparr>w_rels := S\<rparr>, answer_result 200 J_written r)))"

section \<open>Reconcile runs\<close>

definition runs_GET :: "host \<Rightarrow> incoming \<Rightarrow> world \<Rightarrow> world \<times> reply" where
  "runs_GET h q w = guarded h q w (\<lambda>operator key w.
     (w, case runFilterFromParams (h_number h) (h_issue h) (fromUrlSearchParams (in_params q)) None of
           Inl message \<Rightarrow> bad_request ''Invalid filter'' (Some message)
         | Inr fl \<Rightarrow> answer 200 J_runs (listRuns (w_runs w) fl (in_now q))))"

definition tenant_runs_GET :: "host \<Rightarrow> string \<Rightarrow> incoming \<Rightarrow> world \<Rightarrow> world \<times> reply" where
  "tenant_runs_GET h slug q w = guarded h q w (\<lambda>operator key w.
     (w, if findTenant slug = None then not_found_reply ''Tenant not found'' (no_tenant slug)
         else (case runFilterFromParams (h_number h) (h_issue h) (fromUrlSearchParams (in_params q)) (Some slug) of
                 Inl message \<Rightarrow> bad_request ''Invalid filter'' (Some message)
               | Inr fl \<Rightarrow> answer 200 J_runs (listRuns (w_runs w) fl (in_now q)))))"

definition run_GET :: "host \<Rightarrow> string \<Rightarrow> incoming \<Rightarrow> world \<Rightarrow> world \<times> reply" where
  "run_GET h runId q w = guarded h q w (\<lambda>operator key w.
     case getRun (w_runs w) runId of
       (R, r) \<Rightarrow> (w\<lparr>w_runs := R\<rparr>, answer_or (not_found_reply ''Run not found'' (Some (''No reconcile run '' @ runId @ ''.''))) 200 J_run r))"

definition run_retry_POST :: "host \<Rightarrow> string \<Rightarrow> incoming \<Rightarrow> world \<Rightarrow> world \<times> reply" where
  "run_retry_POST h runId q w = guarded h q w (\<lambda>operator key w.
     case retryRun (w_runs w) runId key (in_now q) (in_draws q) of
       (R, r) \<Rightarrow> (w\<lparr>w_runs := R\<rparr>, await_draw (\<lambda>x. answer_result 202 J_runId (Inr x)) r))"

section \<open>Specs\<close>

definition spec_GET :: "host \<Rightarrow> string \<Rightarrow> incoming \<Rightarrow> world \<Rightarrow> world \<times> reply" where
  "spec_GET h slug q w = guarded h q w (\<lambda>operator key w.
     case getSpec (w_tenants w) (w_specs w) slug of
       (S, r) \<Rightarrow> (w\<lparr>w_specs := S\<rparr>, answer_or (not_found_reply ''Tenant not found'' (no_tenant_slug slug)) 200 J_spec r))"

text \<open>The If-Match header: absent, an integer, or refused.\<close>

definition if_match_of :: "host \<Rightarrow> string option \<Rightarrow> int option option" where
  "if_match_of h header =
     (case header of
        None \<Rightarrow> Some None
      | Some v \<Rightarrow> map_option Some (h_number h (trim (filter (\<lambda>c. c \<noteq> CHR 0x22) v))))"

definition spec_PUT :: "host \<Rightarrow> string \<Rightarrow> string body \<Rightarrow> incoming \<Rightarrow> world \<Rightarrow> world \<times> reply" where
  "spec_PUT h slug body q w = guarded h q w (\<lambda>operator key w.
     with_body q body (accept_if (\<lambda>b. b \<noteq> [])) w (\<lambda>spec_body.
       case if_match_of h (rq_header (in_request q) ''if-match'') of
         None \<Rightarrow> (w, bad_request ''Invalid If-Match'' (Some ''If-Match must carry the generation number you edited.''))
       | Some ifMatch \<Rightarrow>
           (case saveSpec (h_spec_url h) (w_tenants w) (w_specs w, w_runs w) slug spec_body (map_option Some ifMatch) key
                   (sn_email operator) (in_now q) (in_draws q) None of
              ((S, R), r) \<Rightarrow> (w\<lparr>w_specs := S, w_runs := R\<rparr>, await_draw (answer_result 202 J_saved) r))))"

definition spec_validate_POST :: "host \<Rightarrow> string \<Rightarrow> string body \<Rightarrow> incoming \<Rightarrow> world \<Rightarrow> world \<times> reply" where
  "spec_validate_POST h slug body q w = guarded h q w (\<lambda>operator key w.
     with_body q body Some w (\<lambda>spec_body.
       case validateSpec (h_spec_url h) (w_tenants w) (w_specs w) slug spec_body (in_elapsed q) of
         (S, r) \<Rightarrow> (w\<lparr>w_specs := S\<rparr>, answer_or (not_found_reply ''Tenant not found'' (no_tenant_slug slug)) 200
                      (\<lambda>(outcome, ms). J_spec_validation outcome ms) r)))"

definition spec_restore_POST :: "host \<Rightarrow> string \<Rightarrow> string \<Rightarrow> incoming \<Rightarrow> world \<Rightarrow> world \<times> reply" where
  "spec_restore_POST h slug gen q w = guarded h q w (\<lambda>operator key w.
     (let invalid = bad_request ''Invalid generation'' (Some (quoted gen @ '' is not a generation number.''))
      in case h_number h gen of
           None \<Rightarrow> (w, invalid)
         | Some generation \<Rightarrow>
             if generation < 1 then (w, invalid)
             else (case restoreVersion (h_spec_url h) (w_tenants w) (w_specs w, w_runs w) slug (nat generation) key
                          (sn_email operator) (in_now q) (in_draws q) of
                     ((S, R), r) \<Rightarrow> (w\<lparr>w_specs := S, w_runs := R\<rparr>, await_draw (answer_result 202 J_saved) r))))"

definition spec_versions_GET :: "host \<Rightarrow> string \<Rightarrow> incoming \<Rightarrow> world \<Rightarrow> world \<times> reply" where
  "spec_versions_GET h slug q w = guarded h q w (\<lambda>operator key w.
     case listVersions (w_tenants w) (w_specs w) slug of
       (S, r) \<Rightarrow> (w\<lparr>w_specs := S\<rparr>, answer_or (not_found_reply ''Tenant not found'' (no_tenant_slug slug)) 200 J_versions r))"

text \<open>The optional body of a dry run.\<close>

datatype plan_body = Empty_text | Not_json | Bad_shape | Plan_request "string option"

definition reconcile_POST :: "host \<Rightarrow> string \<Rightarrow> plan_body \<Rightarrow> incoming \<Rightarrow> world \<Rightarrow> world \<times> reply" where
  "reconcile_POST h slug body q w = guarded h q w (\<lambda>operator key w.
     (let missing = not_found_reply ''Tenant not found'' (no_tenant_slug slug);
          plan = (\<lambda>draft. case planSpec (w_tenants w) (w_specs w) slug draft (in_now q) of
                            (S, r) \<Rightarrow> (w\<lparr>w_specs := S\<rparr>, answer_or missing 200 J_plan r))
      in if param q ''dryRun'' = Some ''true'' then
           (case body of
              Empty_text \<Rightarrow> plan None
            | Not_json \<Rightarrow> (w, bad_request ''Invalid JSON body'' None)
            | Bad_shape \<Rightarrow> (w, bad_request ''Validation failed'' (Some (in_message q)))
            | Plan_request draft \<Rightarrow> plan draft)
         else (case reconcileNow (w_tenants w) (w_runs w) slug key (in_now q) (in_draws q) of
                 (R, r) \<Rightarrow> (w\<lparr>w_runs := R\<rparr>, await_draw (answer_or missing 202 J_runId) r))))"

section \<open>Drift\<close>

definition drift_GET :: "host \<Rightarrow> incoming \<Rightarrow> world \<Rightarrow> world \<times> reply" where
  "drift_GET h q w = guarded h q w (\<lambda>operator key w.
     case listDrift (h_compare h) (w_drift w) (driftFilterFromSearch (map_of (in_params q))) (in_now q) of
       (D, r) \<Rightarrow> (w\<lparr>w_drift := Some D\<rparr>, answer 200 J_drift r))"

definition tenant_drift_GET :: "host \<Rightarrow> string \<Rightarrow> incoming \<Rightarrow> world \<Rightarrow> world \<times> reply" where
  "tenant_drift_GET h slug q w = guarded h q w (\<lambda>operator key w.
     if findTenant slug = None then (w, not_found_reply ''Tenant not found'' (no_tenant slug))
     else (case listDrift (h_compare h) (w_drift w)
                  \<lparr>fl_tenant = Some slug, fl_severity = fl_severity (driftFilterFromSearch (map_of (in_params q)))\<rparr> (in_now q) of
             (D, r) \<Rightarrow> (w\<lparr>w_drift := Some D\<rparr>, answer 200 J_drift r)))"

definition no_finding :: "string \<Rightarrow> reply" where
  "no_finding i = not_found_reply ''Drift finding not found'' (Some (''No drift finding '' @ i @ ''.''))"

definition drift_finding_GET :: "host \<Rightarrow> string \<Rightarrow> incoming \<Rightarrow> world \<Rightarrow> world \<times> reply" where
  "drift_finding_GET h findingId q w = guarded h q w (\<lambda>operator key w.
     case getDriftFinding (w_drift w) findingId (in_now q) of
       (D, r) \<Rightarrow> (w\<lparr>w_drift := Some D\<rparr>, answer_or (no_finding findingId) 200 J_finding r))"

definition drift_acknowledge_POST :: "host \<Rightarrow> string \<Rightarrow> incoming \<Rightarrow> world \<Rightarrow> world \<times> reply" where
  "drift_acknowledge_POST h findingId q w = guarded h q w (\<lambda>operator key w.
     case acknowledgeFinding (w_drift w) findingId (in_now q) of
       (D, r) \<Rightarrow> (w\<lparr>w_drift := Some D\<rparr>, answer_or (no_finding findingId) 200 J_finding r))"

definition drift_heal_POST :: "host \<Rightarrow> string list body \<Rightarrow> incoming \<Rightarrow> world \<Rightarrow> world \<times> reply" where
  "drift_heal_POST h body q w = guarded h q w (\<lambda>operator key w.
     with_body q body (accept_if HealRequestSchema_ok) w (\<lambda>findingIds.
       case healFindings (in_uuid q) (w_drift w) findingIds (in_now q) of
         (D, runs) \<Rightarrow> (w\<lparr>w_drift := Some D\<rparr>, Json 202 (J_heal runs))))"

definition drift_resync_POST :: "host \<Rightarrow> incoming \<Rightarrow> world \<Rightarrow> world \<times> reply" where
  "drift_resync_POST h q w = guarded h q w (\<lambda>operator key w.
     case resyncAll (w_drift w) (in_now q) of
       (D, at) \<Rightarrow> (w\<lparr>w_drift := Some D\<rparr>, Json 202 (J_resync at)))"

section \<open>Identity providers\<close>

definition identity_providers_GET :: "host \<Rightarrow> string \<Rightarrow> incoming \<Rightarrow> world \<Rightarrow> world \<times> reply" where
  "identity_providers_GET h slug q w = guarded h q w (\<lambda>operator key w.
     case listIdentityProviders (h_idp_url h) (w_tenants w) (w_idps w) slug of
       (S, r) \<Rightarrow> (w\<lparr>w_idps := S\<rparr>, answer_or (not_found_reply ''Tenant not found'' None) 200 J_idps r))"

definition identity_provider_GET :: "host \<Rightarrow> string \<Rightarrow> string \<Rightarrow> incoming \<Rightarrow> world \<Rightarrow> world \<times> reply" where
  "identity_provider_GET h slug idpId q w = guarded h q w (\<lambda>operator key w.
     case getIdentityProvider (h_idp_url h) (w_tenants w) (w_idps w) slug idpId of
       (S, r) \<Rightarrow> (w\<lparr>w_idps := S\<rparr>, answer_result 200 J_idp r))"

definition identity_provider_PATCH :: "host \<Rightarrow> string \<Rightarrow> string \<Rightarrow> IdpPatch body \<Rightarrow> incoming \<Rightarrow> world \<Rightarrow> world \<times> reply" where
  "identity_provider_PATCH h slug idpId body q w = guarded h q w (\<lambda>operator key w.
     with_body q body IdpPatchSchema_parse w (\<lambda>patch.
       case stageIdentityProvider (h_idp_url h) (w_tenants w) (w_idps w) slug idpId patch (in_now q) of
         (S, r) \<Rightarrow> (w\<lparr>w_idps := S\<rparr>, answer_result 202 J_idp_staged r)))"

definition ProbeRequestSchema_parse :: "string \<times> IdpKind option \<Rightarrow> (string \<times> IdpKind) option" where
  "ProbeRequestSchema_parse r =
     map_option (\<lambda>issuer. (issuer, case snd r of Some k \<Rightarrow> k | None \<Rightarrow> Oidc)) (trimmed_text 2048 (fst r))"

definition identity_provider_test_POST ::
  "host \<Rightarrow> string \<Rightarrow> string \<Rightarrow> (string \<times> IdpKind option) body \<Rightarrow> incoming \<Rightarrow> world \<Rightarrow> world \<times> reply" where
  "identity_provider_test_POST h slug idpId body q w = guarded h q w (\<lambda>operator key w.
     with_body q body ProbeRequestSchema_parse w (\<lambda>(issuer, kind).
       case testIdentityProvider (h_idp_url h) (w_tenants w) (w_idps w) slug idpId issuer kind of
         (S, r) \<Rightarrow> (w\<lparr>w_idps := S\<rparr>, answer_result 200 J_probe r)))"

section \<open>Roles, users, audit, dashboard\<close>

definition roles_GET :: "host \<Rightarrow> string \<Rightarrow> incoming \<Rightarrow> world \<Rightarrow> world \<times> reply" where
  "roles_GET h slug q w = guarded h q w (\<lambda>operator key w.
     case listRoles (w_tenants w) (w_roles w) slug of
       (S, r) \<Rightarrow> (w\<lparr>w_roles := S\<rparr>, answer_or (not_found_reply ''Tenant not found'' None) 200 J_roles r))"

definition role_DELETE :: "host \<Rightarrow> string \<Rightarrow> string \<Rightarrow> incoming \<Rightarrow> world \<Rightarrow> world \<times> reply" where
  "role_DELETE h slug roleId q w = guarded h q w (\<lambda>operator key w.
     case deleteRole (w_tenants w) (w_roles w) slug roleId (in_now q) of
       (S, r) \<Rightarrow> (w\<lparr>w_roles := S\<rparr>, answer_result 202 J_role_deleted r))"

definition users_GET :: "host \<Rightarrow> string \<Rightarrow> incoming \<Rightarrow> world \<Rightarrow> world \<times> reply" where
  "users_GET h slug q w = guarded h q w (\<lambda>operator key w.
     case listUsers (w_tenants w) (w_mirror w) slug (parseUsersFilter (param q ''q'')) (param q ''cursor'') USERS_PAGE_SIZE of
       (S, r) \<Rightarrow> (w\<lparr>w_mirror := S\<rparr>, answer_or (not_found_reply ''Tenant not found'' None) 200 J_users r))"

definition users_invite_POST :: "host \<Rightarrow> string \<Rightarrow> InviteRequest body \<Rightarrow> incoming \<Rightarrow> world \<Rightarrow> world \<times> reply" where
  "users_invite_POST h slug body q w = guarded h q w (\<lambda>operator key w.
     with_body q body (\<lambda>raw. case InviteRequestSchema_parse (h_is_email h) raw of Inl _ \<Rightarrow> None | Inr r \<Rightarrow> Some r) w (\<lambda>request.
       case inviteUser (w_tenants w) (w_mirror w) slug request (in_now q) of
         (S, r) \<Rightarrow> (w\<lparr>w_mirror := S\<rparr>, answer_result 202 J_invite (Inr r))))"

definition users_refresh_POST :: "host \<Rightarrow> string \<Rightarrow> incoming \<Rightarrow> world \<Rightarrow> world \<times> reply" where
  "users_refresh_POST h slug q w = guarded h q w (\<lambda>operator key w.
     case refreshUsers (w_tenants w) (w_mirror w) slug (in_now q) of
       (S, r) \<Rightarrow> (w\<lparr>w_mirror := S\<rparr>, answer_result 202 J_refresh r))"

definition audit_events_GET :: "host \<Rightarrow> incoming \<Rightarrow> world \<Rightarrow> world \<times> reply" where
  "audit_events_GET h q w = guarded h q w (\<lambda>operator key w.
     (let fl = auditFilterFromSearch (in_params q)
      in (w, answer_or (not_found_reply ''Tenant not found'' (no_tenant (case af_tenant fl of Some t \<Rightarrow> t | None \<Rightarrow> ''undefined''))) 200 J_audit
               (listAuditEvents (h_compare h) fl (param q ''cursor'') (in_now q) AUDIT_PAGE_SIZE))))"

definition tenant_audit_events_GET :: "host \<Rightarrow> string \<Rightarrow> incoming \<Rightarrow> world \<Rightarrow> world \<times> reply" where
  "tenant_audit_events_GET h slug q w = guarded h q w (\<lambda>operator key w.
     (w, answer_or (not_found_reply ''Tenant not found'' (no_tenant slug)) 200 J_audit
           (listAuditEvents (h_compare h) ((auditFilterFromSearch (in_params q))\<lparr>af_tenant := Some slug\<rparr>)
             (param q ''cursor'') (in_now q) AUDIT_PAGE_SIZE)))"

definition audit_exports_POST :: "host \<Rightarrow> string \<Rightarrow> incoming \<Rightarrow> world \<Rightarrow> world \<times> reply" where
  "audit_exports_POST h slug q w = guarded h q w (\<lambda>operator key w.
     case requestAuditExport slug key (in_uuid q 0) (w_exports w) of
       (E, r) \<Rightarrow> (w\<lparr>w_exports := E\<rparr>, answer_or (not_found_reply ''Tenant not found'' (no_tenant slug)) 202 J_export r))"

text \<open>The dashboard route asks for the operator itself.\<close>

definition dashboard_GET :: "host \<Rightarrow> incoming \<Rightarrow> world \<Rightarrow> world \<times> reply" where
  "dashboard_GET h q w =
     (case currentOperator (h_platform h) (h_env h) (w_cache w) (in_request q) (int (in_now q div 1000)) of
        (cache, None) \<Rightarrow> (w\<lparr>w_cache := cache\<rparr>, Problem_json (problem 401 ''Not signed in'' None []))
      | (cache, Some operator) \<Rightarrow>
          (w\<lparr>w_cache := cache\<rparr>,
           case WindowSchema_parse (case param q ''window'' of Some v \<Rightarrow> v | None \<Rightarrow> window_name DEFAULT_WINDOW) of
             None \<Rightarrow> bad_request ''Invalid window'' (Some (''Expected one of '' @ join '', '' (map window_name WINDOWS) @ ''.''))
           | Some window \<Rightarrow> answer 200 J_overview (getDashboardOverview window (in_now q))))"

section \<open>The router\<close>

datatype route =
    Audit_events | Dashboard_overview | Drift_list | Drift_finding string | Drift_acknowledge string
  | Drift_heal "string list body" | Drift_resync | Runs | Run_detail string | Run_retry string
  | Tenants_list | Tenants_create "CreateTenantInput body" | Slug_check | Tenant_detail string
  | Tenant_audit string | Audit_export string | Model_get string | Model_stage string "string body"
  | Model_validate string "string body" | Batch_check string "(string \<times> string \<times> string) list body"
  | Explain_check string "((string \<times> string \<times> string) \<times> bool option) body" | Tenant_drift string
  | Idps_list string | Idp_get string string | Idp_patch string string "IdpPatch body"
  | Idp_test string string "(string \<times> IdpKind option) body" | Tenant_runs string | Reconcile_now string plan_body
  | Relations_list string | Relations_write string "WriteRequest body" | Roles_list string | Role_delete string string
  | Spec_get string | Spec_put string "string body" | Spec_validate_draft string "string body" | Spec_restore string string
  | Spec_versions string | Users_list string | Users_invite string "InviteRequest body" | Users_refresh string

fun route_method :: "route \<Rightarrow> string" where
  "route_method (Idp_patch _ _ _) = ''PATCH''"
| "route_method (Role_delete _ _) = ''DELETE''"
| "route_method (Spec_put _ _) = ''PUT''"
| "route_method (Drift_acknowledge _) = ''POST''"
| "route_method (Drift_heal _) = ''POST''"
| "route_method Drift_resync = ''POST''"
| "route_method (Run_retry _) = ''POST''"
| "route_method (Tenants_create _) = ''POST''"
| "route_method (Audit_export _) = ''POST''"
| "route_method (Model_stage _ _) = ''POST''"
| "route_method (Model_validate _ _) = ''POST''"
| "route_method (Batch_check _ _) = ''POST''"
| "route_method (Explain_check _ _) = ''POST''"
| "route_method (Idp_test _ _ _) = ''POST''"
| "route_method (Reconcile_now _ _) = ''POST''"
| "route_method (Relations_write _ _) = ''POST''"
| "route_method (Spec_validate_draft _ _) = ''POST''"
| "route_method (Spec_restore _ _) = ''POST''"
| "route_method (Users_invite _ _) = ''POST''"
| "route_method (Users_refresh _) = ''POST''"
| "route_method _ = ''GET''"

fun handler_of :: "host \<Rightarrow> route \<Rightarrow> incoming \<Rightarrow> world \<Rightarrow> world \<times> reply" where
  "handler_of h Audit_events = audit_events_GET h"
| "handler_of h Dashboard_overview = dashboard_GET h"
| "handler_of h Drift_list = drift_GET h"
| "handler_of h (Drift_finding i) = drift_finding_GET h i"
| "handler_of h (Drift_acknowledge i) = drift_acknowledge_POST h i"
| "handler_of h (Drift_heal body) = drift_heal_POST h body"
| "handler_of h Drift_resync = drift_resync_POST h"
| "handler_of h Runs = runs_GET h"
| "handler_of h (Run_detail i) = run_GET h i"
| "handler_of h (Run_retry i) = run_retry_POST h i"
| "handler_of h Tenants_list = tenants_GET h"
| "handler_of h (Tenants_create body) = tenants_POST h body"
| "handler_of h Slug_check = slug_check_GET h"
| "handler_of h (Tenant_detail slug) = tenant_GET h slug"
| "handler_of h (Tenant_audit slug) = tenant_audit_events_GET h slug"
| "handler_of h (Audit_export slug) = audit_exports_POST h slug"
| "handler_of h (Model_get slug) = authorization_model_GET h slug"
| "handler_of h (Model_stage slug body) = authorization_model_POST h slug body"
| "handler_of h (Model_validate slug body) = authorization_model_validate_POST h slug body"
| "handler_of h (Batch_check slug body) = batch_check_POST h slug body"
| "handler_of h (Explain_check slug body) = explain_POST h slug body"
| "handler_of h (Tenant_drift slug) = tenant_drift_GET h slug"
| "handler_of h (Idps_list slug) = identity_providers_GET h slug"
| "handler_of h (Idp_get slug i) = identity_provider_GET h slug i"
| "handler_of h (Idp_patch slug i body) = identity_provider_PATCH h slug i body"
| "handler_of h (Idp_test slug i body) = identity_provider_test_POST h slug i body"
| "handler_of h (Tenant_runs slug) = tenant_runs_GET h slug"
| "handler_of h (Reconcile_now slug body) = reconcile_POST h slug body"
| "handler_of h (Relations_list slug) = relations_GET h slug"
| "handler_of h (Relations_write slug body) = relations_write_POST h slug body"
| "handler_of h (Roles_list slug) = roles_GET h slug"
| "handler_of h (Role_delete slug key) = role_DELETE h slug key"
| "handler_of h (Spec_get slug) = spec_GET h slug"
| "handler_of h (Spec_put slug body) = spec_PUT h slug body"
| "handler_of h (Spec_validate_draft slug body) = spec_validate_POST h slug body"
| "handler_of h (Spec_restore slug gen) = spec_restore_POST h slug gen"
| "handler_of h (Spec_versions slug) = spec_versions_GET h slug"
| "handler_of h (Users_list slug) = users_GET h slug"
| "handler_of h (Users_invite slug body) = users_invite_POST h slug body"
| "handler_of h (Users_refresh slug) = users_refresh_POST h slug"

text \<open>
  The framework calls the handler of a path with requests of that handler's method only (a HEAD is served by
  the GET handler, and the guard treats the two alike).
\<close>

definition handle :: "host \<Rightarrow> world \<Rightarrow> route \<times> incoming \<Rightarrow> world \<times> reply" where
  "handle h w r =
     (case r of (rt, q) \<Rightarrow> handler_of h rt (q\<lparr>in_request := (in_request q)\<lparr>rq_method := route_method rt\<rparr>\<rparr>) w)"

end
