(* ===== verification/Console.thy ===== *)
theory Console
  imports Routes
begin

text \<open>
  The server as a whole. \<open>console_step\<close> is the specification of a request's effect: it runs at most one
  operation of one feature, and only for a signed-in operator. Every handler refines it; what holds of
  the stores in every reachable world follows by rule induction.
\<close>

section \<open>The effect of a request\<close>

text \<open>
  One rule per operation that writes a store; any of them, or none, after the session key may have
  been cached. Reads are rules too: they seed the store they look into.
\<close>

inductive console_step :: "host \<Rightarrow> world \<Rightarrow> world \<Rightarrow> bool" for h :: host where
  idle: "console_step h w (w\<lparr>w_cache := c\<rparr>)"
| create: "console_step h w (w\<lparr>w_cache := c, w_tenants := fst (createTenant (w_tenants w) raw now)\<rparr>)"
| model_read: "console_step h w (w\<lparr>w_cache := c, w_models := fst (getAuthorizationModel (w_tenants w) (w_models w) slug)\<rparr>)"
| model_stage: "console_step h w (w\<lparr>w_cache := c, w_models := fst (stageModel (w_tenants w) (w_models w) slug dsl now)\<rparr>)"
| tuples_read: "console_step h w (w\<lparr>w_cache := c, w_rels := fst (listRelations (w_tenants w) (w_rels w) slug fl cur n)\<rparr>)"
| tuples_write: "console_step h w (w\<lparr>w_cache := c, w_rels := fst (writeRelations (w_tenants w) (w_rels w) slug req now)\<rparr>)"
| run_read: "console_step h w (w\<lparr>w_cache := c, w_runs := fst (getRun (w_runs w) i)\<rparr>)"
| run_retry: "clock_ok now \<Longrightarrow> console_step h w (w\<lparr>w_cache := c, w_runs := fst (retryRun (w_runs w) i key now draws)\<rparr>)"
| run_now: "clock_ok now \<Longrightarrow>
    console_step h w (w\<lparr>w_cache := c, w_runs := fst (reconcileNow (w_tenants w) (w_runs w) slug key now draws)\<rparr>)"
| spec_read: "console_step h w (w\<lparr>w_cache := c, w_specs := fst (stateFor_spec (w_tenants w) (w_specs w) slug)\<rparr>)"
| spec_save: "clock_ok now \<Longrightarrow> author \<noteq> [] \<Longrightarrow>
    console_step h w (w\<lparr>w_cache := c,
      w_specs := fst (fst (saveSpec (h_spec_url h) (w_tenants w) (w_specs w, w_runs w) slug body m key author now draws sm)),
      w_runs := snd (fst (saveSpec (h_spec_url h) (w_tenants w) (w_specs w, w_runs w) slug body m key author now draws sm))\<rparr>)"
| spec_restore: "clock_ok now \<Longrightarrow> author \<noteq> [] \<Longrightarrow>
    console_step h w (w\<lparr>w_cache := c,
      w_specs := fst (fst (restoreVersion (h_spec_url h) (w_tenants w) (w_specs w, w_runs w) slug g key author now draws)),
      w_runs := snd (fst (restoreVersion (h_spec_url h) (w_tenants w) (w_specs w, w_runs w) slug g key author now draws))\<rparr>)"
| drift: "console_step h w (w\<lparr>w_cache := c, w_drift := Some (drift_step (h_compare h) (ensureStore (w_drift w) now) (x, now))\<rparr>)"
| idps_read: "console_step h w (w\<lparr>w_cache := c, w_idps := fst (listIdentityProviders (h_idp_url h) (w_tenants w) (w_idps w) slug)\<rparr>)"
| idp_read: "console_step h w (w\<lparr>w_cache := c, w_idps := fst (getIdentityProvider (h_idp_url h) (w_tenants w) (w_idps w) slug i)\<rparr>)"
| idp_stage: "console_step h w (w\<lparr>w_cache := c, w_idps := fst (stageIdentityProvider (h_idp_url h) (w_tenants w) (w_idps w) slug i patch now)\<rparr>)"
| idp_probe: "console_step h w (w\<lparr>w_cache := c, w_idps := fst (testIdentityProvider (h_idp_url h) (w_tenants w) (w_idps w) slug i issuer kind)\<rparr>)"
| roles_read: "console_step h w (w\<lparr>w_cache := c, w_roles := fst (listRoles (w_tenants w) (w_roles w) slug)\<rparr>)"
| role_delete: "console_step h w (w\<lparr>w_cache := c, w_roles := fst (deleteRole (w_tenants w) (w_roles w) slug key now)\<rparr>)"
| users_read: "console_step h w (w\<lparr>w_cache := c, w_mirror := fst (listUsers (w_tenants w) (w_mirror w) slug uf cur n)\<rparr>)"
| user_invite: "console_step h w (w\<lparr>w_cache := c, w_mirror := fst (inviteUser (w_tenants w) (w_mirror w) slug invite now)\<rparr>)"
| users_refresh: "console_step h w (w\<lparr>w_cache := c, w_mirror := fst (refreshUsers (w_tenants w) (w_mirror w) slug now)\<rparr>)"
| export: "console_step h w (w\<lparr>w_cache := c, w_exports := fst (requestAuditExport slug key u (w_exports w))\<rparr>)"

section \<open>Handlers refine it\<close>

text \<open>The two combinators every handler is built from, as rules for a property of the world they leave.\<close>

lemma guarded_rule:
  assumes "\<And>c. P (w\<lparr>w_cache := c\<rparr>)"
    and "\<And>operator key c. SessionSchema_ok operator \<Longrightarrow> P (fst (handler operator key (w\<lparr>w_cache := c\<rparr>)))"
  shows "P (fst (guarded h q w handler))"
proof -
  obtain c r where g: "guardRoute (h_platform h) (h_env h) (w_cache w) (in_request q) (int (in_now q div 1000)) = (c, r)"
    by fastforce
  show ?thesis
  proof (cases r)
    case (Inl p)
    then show ?thesis using assms(1) g by (simp add: guarded_def)
  next
    case (Inr a)
    obtain operator key where a: "a = (operator, key)" by fastforce
    have "openSession (h_platform h) (h_env h) (w_cache w) (rq_cookie (in_request q) SESSION_COOKIE) (int (in_now q div 1000))
        = (c, Some operator)"
      using guardRoute_Inr(1) [of "h_platform h"] g Inr a by (simp add: currentOperator_def)
    then have "SessionSchema_ok operator" by (rule openSession_Some)
    then show ?thesis using assms(2) g Inr a by (simp add: guarded_def)
  qed
qed

lemma with_body_rule:
  "P w \<Longrightarrow> (\<And>data. P (fst (k data))) \<Longrightarrow> P (fst (with_body q body safeParse w k))"
  by (auto simp: with_body_def split: sum.split)

lemma spec_reads_fst:
  "fst (getSpec T S slug) = fst (stateFor_spec T S slug)"
  "fst (listVersions T S slug) = fst (stateFor_spec T S slug)"
  "fst (validateSpec p T S slug body ms) = fst (stateFor_spec T S slug)"
  "fst (planSpec T S slug draft now) = fst (stateFor_spec T S slug)"
  by (auto simp: getSpec_def listVersions_def validateSpec_def planSpec_def Let_def split: prod.split sum.split option.split)

lemma drift_ops_fst:
  "fst (listDrift lc D fl now) = drift_step lc (ensureStore D now) (List_drift fl, now)"
  "fst (getDriftFinding D i now) = drift_step lc (ensureStore D now) (Get_finding i, now)"
  "fst (healFindings draw D ids now) = drift_step lc (ensureStore D now) (Heal draw ids, now)"
  "fst (acknowledgeFinding D i now) = drift_step lc (ensureStore D now) (Acknowledge i, now)"
  "fst (resyncAll D now) = drift_step lc (ensureStore D now) (Resync, now)"
  by (simp_all add: drift_step_def listDrift_def getDriftFinding_def healFindings_def acknowledgeFinding_def resyncAll_def Let_def)

lemmas step_rules = guarded_rule [where P = "console_step h w" for h w] with_body_rule [where P = "console_step h w" for h w]

lemma tenant_routes_step:
  "console_step h w (fst (tenants_GET h q w))" "console_step h w (fst (slug_check_GET h q w))"
  "console_step h w (fst (tenant_GET h slug q w))" "console_step h w (fst (tenants_POST h new q w))"
proof -
  have post: "fst (case createTenant T input now of
        (T, Inl (SlugTakenError slug)) \<Rightarrow> (w\<lparr>w_tenants := T\<rparr>, slug_taken slug)
      | (T, r) \<Rightarrow> (w\<lparr>w_tenants := T\<rparr>, answer 201 J_created r)) = w\<lparr>w_tenants := fst (createTenant T input now)\<rparr>" for T input now w
    by (simp split: prod.split sum.split exn.split)
  show "console_step h w (fst (tenants_POST h new q w))"
    unfolding tenants_POST_def by (intro step_rules idle) (simp add: post create)
qed (auto simp: tenants_GET_def slug_check_GET_def tenant_GET_def intro!: step_rules idle)

lemma model_routes_step:
  "console_step h w (fst (authorization_model_GET h slug q w))" "console_step h w (fst (authorization_model_POST h slug dsl q w))"
  "console_step h w (fst (authorization_model_validate_POST h slug dsl q w))"
  "console_step h w (fst (explain_POST h slug check q w))" "console_step h w (fst (batch_check_POST h slug checks q w))"
  by (auto simp: authorization_model_GET_def authorization_model_POST_def authorization_model_validate_POST_def explain_POST_def
      batch_check_POST_def split_beta intro!: step_rules idle model_read model_stage split: option.split)

lemma relation_routes_step:
  "console_step h w (fst (relations_GET h slug q w))" "console_step h w (fst (relations_write_POST h slug batch q w))"
  by (auto simp: relations_GET_def relations_write_POST_def split_beta Let_def intro!: step_rules idle tuples_read tuples_write
      split: option.split)

lemma run_routes_step:
  assumes "clock_ok (in_now q)"
  shows "console_step h w (fst (runs_GET h q w))" and "console_step h w (fst (tenant_runs_GET h slug q w))"
    and "console_step h w (fst (run_GET h i q w))" and "console_step h w (fst (run_retry_POST h i q w))"
  using assms by (auto simp: runs_GET_def tenant_runs_GET_def run_GET_def run_retry_POST_def split_beta intro!: step_rules idle run_read run_retry)

lemma operator_email: "SessionSchema_ok operator \<Longrightarrow> sn_email operator \<noteq> []"
  by (simp add: SessionSchema_ok_def)

lemma spec_routes_step:
  assumes "clock_ok (in_now q)"
  shows "console_step h w (fst (spec_GET h slug q w))" and "console_step h w (fst (spec_versions_GET h slug q w))"
    and "console_step h w (fst (spec_validate_POST h slug body q w))" and "console_step h w (fst (spec_PUT h slug body q w))"
    and "console_step h w (fst (spec_restore_POST h slug gen q w))" and "console_step h w (fst (reconcile_POST h slug draft q w))"
  using assms
  by (auto simp: spec_GET_def spec_versions_GET_def spec_validate_POST_def spec_PUT_def spec_restore_POST_def reconcile_POST_def
      split_beta spec_reads_fst Let_def intro!: step_rules idle spec_read spec_save spec_restore run_now operator_email
      split: option.split plan_body.split)

lemma drift_routes_step:
  "console_step h w (fst (drift_GET h q w))" "console_step h w (fst (tenant_drift_GET h slug q w))"
  "console_step h w (fst (drift_finding_GET h i q w))" "console_step h w (fst (drift_acknowledge_POST h i q w))"
  "console_step h w (fst (drift_heal_POST h ids q w))" "console_step h w (fst (drift_resync_POST h q w))"
  by (auto simp: drift_GET_def tenant_drift_GET_def drift_finding_GET_def drift_acknowledge_POST_def drift_heal_POST_def
      drift_resync_POST_def split_beta drift_ops_fst [where lc = "h_compare h"] intro!: step_rules idle drift)

lemma idp_routes_step:
  "console_step h w (fst (identity_providers_GET h slug q w))" "console_step h w (fst (identity_provider_GET h slug i q w))"
  "console_step h w (fst (identity_provider_PATCH h slug i patch q w))" "console_step h w (fst (identity_provider_test_POST h slug i probe q w))"
  by (auto simp: identity_providers_GET_def identity_provider_GET_def identity_provider_PATCH_def identity_provider_test_POST_def
      split_beta intro!: step_rules idle idps_read idp_read idp_stage idp_probe)

lemma people_routes_step:
  "console_step h w (fst (roles_GET h slug q w))" "console_step h w (fst (role_DELETE h slug i q w))"
  "console_step h w (fst (users_GET h slug q w))" "console_step h w (fst (users_invite_POST h slug new q w))"
  "console_step h w (fst (users_refresh_POST h slug q w))"
  by (auto simp: roles_GET_def role_DELETE_def users_GET_def users_invite_POST_def users_refresh_POST_def
      split_beta intro!: step_rules idle roles_read role_delete users_read user_invite users_refresh)

lemma audit_routes_step:
  "console_step h w (fst (audit_events_GET h q w))" "console_step h w (fst (tenant_audit_events_GET h slug q w))"
  "console_step h w (fst (audit_exports_POST h slug q w))" "console_step h w (fst (dashboard_GET h q w))"
  by (auto simp: audit_events_GET_def tenant_audit_events_GET_def audit_exports_POST_def split_beta Let_def intro!: step_rules idle export)
    (auto simp: dashboard_GET_def intro!: idle split: prod.split option.split)

lemmas routes_step = tenant_routes_step model_routes_step relation_routes_step run_routes_step spec_routes_step drift_routes_step
  idp_routes_step people_routes_step audit_routes_step

lemma handle_step: "clock_ok (in_now (snd x)) \<Longrightarrow> console_step h w (fst (handle h w x))"
  by (cases x, cases "fst x") (simp_all add: handle_def routes_step)

section \<open>What every reachable world satisfies\<close>

definition specs_ok :: "spec_store \<Rightarrow> bool" where
  "specs_ok S \<longleftrightarrow> (\<forall>slug st. map_get S slug = Some st \<longrightarrow> spec_state_ok st)"

definition console_ok :: "world \<Rightarrow> bool" where
  "console_ok w \<longleftrightarrow>
     tenants_wf (w_tenants w) \<and> models_wf (w_models w) \<and> rels_wf (w_rels w) \<and> store_wf (w_runs w) \<and> specs_ok (w_specs w)
     \<and> pred_option accounted (w_drift w) \<and> roles_inv [] {} (w_tenants w, w_roles w) \<and> users_inv [] {} (w_tenants w, w_mirror w)"

lemma specs_ok_iff: "tenants_wf T \<Longrightarrow> specs_ok S \<longleftrightarrow> world_ok T (S, R)"
  using seed_ok [of T] by (fastforce simp: specs_ok_def world_ok_def specs.view_def split: option.splits)

lemma specs_ok_updates:
  assumes "tenants_wf T" "specs_ok S" "updates T ok (S, R) w" "ok"
  shows "specs_ok (fst w)"
  using updates_ok [OF assms(3,4)] assms(1,2) specs_ok_iff [OF assms(1)] by (metis prod.collapse)

lemma updates_read: "updates T True (S, R) (fst (stateFor_spec T S slug), R)"
  by (simp add: updates_def fst_stateFor_view fun_eq_iff)

lemma spec_read_ok: "tenants_wf T \<Longrightarrow> specs_ok S \<Longrightarrow> specs_ok (fst (stateFor_spec T S slug))"
  using specs_ok_updates [OF _ _ updates_read] by simp

lemma enqueue_wf: "store_wf R \<Longrightarrow> clock_ok now \<Longrightarrow> store_wf (fst (enqueueReconcile R slug key now draws))"
  using retryRun_wf [of R now] by (auto simp: enqueueReconcile_def split: sum.split option.split prod.split) (metis fst_conv)+

lemma reconcileNow_wf: "store_wf R \<Longrightarrow> clock_ok now \<Longrightarrow> store_wf (fst (reconcileNow T R slug key now draws))"
  using enqueue_wf [of R now slug key draws] by (simp add: reconcileNow_def split_beta split: option.split)

lemma save_runs: "snd (fst (saveSpec p T (S, R) slug body m key author now draws sm)) = R
    \<or> snd (fst (saveSpec p T (S, R) slug body m key author now draws sm)) = fst (enqueueReconcile R slug (key @ '':reconcile'') now draws)"
  by (simp add: saveSpec_def Let_def split: sum.split option.split prod.split)

lemma restore_runs: "snd (fst (restoreVersion p T (S, R) slug g key author now draws)) = R
    \<or> snd (fst (restoreVersion p T (S, R) slug g key author now draws)) = fst (enqueueReconcile R slug (key @ '':reconcile'') now draws)"
  using save_runs by (auto simp: restoreVersion_def Let_def split: sum.split option.split prod.split)

lemma saved_runs_wf:
  assumes "store_wf R" "clock_ok now"
  shows "store_wf (snd (fst (saveSpec p T (S, R) slug body m key author now draws sm)))"
    and "store_wf (snd (fst (restoreVersion p T (S, R) slug g key author now draws)))"
  using save_runs [of p T S R slug body m key author now draws sm] restore_runs [of p T S R slug g key author now draws]
    enqueue_wf [OF assms] assms(1) by metis+

lemma models_read_wf: "models_wf S \<Longrightarrow> models_wf (fst (stateFor_model T S slug))"
  by (auto simp: stateFor_model_def models_wf_def split: option.splits if_splits dest: model_seed_ok)

lemma getAuthorizationModel_fst: "fst (getAuthorizationModel T S slug) = fst (stateFor_model T S slug)"
  by (simp add: getAuthorizationModel_def split: prod.split option.split)

lemma stageModel_wf:
  assumes "models_wf S"
  shows "models_wf (fst (stageModel T S slug dsl now))"
proof (cases "stateFor_model T S slug")
  case (Pair S' r)
  have S': "models_wf S'" using models_read_wf [OF assms, of T slug] Pair by simp
  show ?thesis
  proof (cases r)
    case None
    then show ?thesis using S' Pair by (simp add: stageModel_def)
  next
    case (Some s)
    have ok: "model_state_ok s" using stateFor_model_ok [OF assms, of T slug S' s] Pair Some by simp
    have "model_state_ok (stage_state dsl v (stage_entry g v now) s)" if "v = (case st_draftVersion s of Some v \<Rightarrow> v | None \<Rightarrow> st_liveVersion s + 1)" for v g
      using ok that by (intro stage_state_versions(1)) (auto simp: stage_entry_def model_state_ok_def split: option.splits)
    then show ?thesis using S' Pair Some
      by (auto simp: stageModel_def models_wf_def Let_def split: option.split list.split)
  qed
qed

lemma listRelations_fst: "fst (listRelations T S slug fl cur n) = fst (storeFor T S slug)"
  by (simp add: listRelations_def Let_def split: prod.split option.split)

lemma accounted_ensure: "pred_option accounted D \<Longrightarrow> accounted (ensureStore D now)"
  using accounted_seed [of now] by (cases D) simp_all

lemma people_inv:
  assumes "roles_inv slug0 gone (T, S)" "users_inv slug0 sent (T, M)"
  shows "roles_inv slug0 gone (fst (createTenant T raw now), S)" and "users_inv slug0 sent (T, fst (listUsers T M slug uf cur n))"
    and "users_inv slug0 sent (T, fst (refreshUsers T M slug now))"
  using role_runs.step_inv [OF assms(1), of "R_create raw now"] user_runs.step_inv [OF assms(2), of "U_list slug uf cur n"]
    user_runs.step_inv [OF assms(2), of "U_refresh slug now"] by simp_all

lemma tuples_read_wf: "tenants_wf T \<Longrightarrow> rels_wf S \<Longrightarrow> rels_wf (fst (listRelations T S slug fl cur n))"
  using storeFor_ok(1) [OF _ _ surjective_pairing] by (simp add: listRelations_fst)

lemma saved_specs_ok:
  assumes "tenants_wf T" "specs_ok S" "author \<noteq> []"
  shows "specs_ok (fst (fst (saveSpec p T (S, R) slug body m key author now draws sm)))"
    and "specs_ok (fst (fst (restoreVersion p T (S, R) slug g key author now draws)))"
  by (rule specs_ok_updates [OF assms(1,2) updates_save assms(3)], rule specs_ok_updates [OF assms(1,2) updates_restore assms(3)])

lemma console_step_ok: "console_step h w w' \<Longrightarrow> console_ok w \<Longrightarrow> console_ok w'"
  by (induction rule: console_step.induct)
    (auto simp: console_ok_def models_read_wf getAuthorizationModel_fst stageModel_wf writeRelations_wf tuples_read_wf getRun_wf
      retryRun_wf reconcileNow_wf saved_runs_wf spec_read_ok saved_specs_ok accounted_step accounted_ensure listRoles_fst rolesFor_inv
      deleteRole_inv createTenant_wf users_inv_create users_inv_invite intro: people_inv)

lemma boot_ok: "console_ok boot"
  using seed_wf users_start [of "[]" "[]"] reach_inv [of "[]" "[]" "[]"]
  by (simp add: console_ok_def boot_def models_wf_def rels_wf_def specs_ok_def tenants_after_def)

definition console_run :: "host \<Rightarrow> world \<Rightarrow> (route \<times> incoming) list \<Rightarrow> world" where
  "console_run h = run (\<lambda>w x. fst (handle h w x))"

definition clocks_ok :: "(route \<times> incoming) list \<Rightarrow> bool" where
  "clocks_ok xs \<longleftrightarrow> list_all (\<lambda>x. clock_ok (in_now (snd x))) xs"

lemma console_run_ok: "clocks_ok xs \<Longrightarrow> console_ok w \<Longrightarrow> console_ok (console_run h w xs)"
  unfolding console_run_def
proof (induction xs arbitrary: w)
  case (Cons x xs)
  then have "console_ok (fst (handle h w x))" by (intro console_step_ok [OF handle_step]) (simp_all add: clocks_ok_def)
  with Cons show ?case by (simp add: clocks_ok_def)
qed simp

end
