(* ===== verification/Console_Behaviour.thy ===== *)
theory Console_Behaviour
  imports Console
begin

text \<open>
  What clients of the HTTP interface can rely on, whatever requests come in between: who may cause an
  effect, what no request undoes, and which routes always answer.
\<close>

section \<open>Who may cause an effect\<close>

lemmas route_defs = tenants_GET_def tenants_POST_def slug_check_GET_def tenant_GET_def authorization_model_GET_def
  authorization_model_POST_def authorization_model_validate_POST_def explain_POST_def batch_check_POST_def relations_GET_def
  relations_write_POST_def runs_GET_def tenant_runs_GET_def run_GET_def run_retry_POST_def spec_GET_def spec_PUT_def
  spec_validate_POST_def spec_restore_POST_def spec_versions_GET_def reconcile_POST_def drift_GET_def tenant_drift_GET_def
  drift_finding_GET_def drift_acknowledge_POST_def drift_heal_POST_def drift_resync_POST_def identity_providers_GET_def
  identity_provider_GET_def identity_provider_PATCH_def identity_provider_test_POST_def roles_GET_def role_DELETE_def users_GET_def
  users_invite_POST_def users_refresh_POST_def audit_events_GET_def tenant_audit_events_GET_def audit_exports_POST_def

lemma handler_guarded: "rt \<noteq> Dashboard_overview \<Longrightarrow> \<exists>handler. handler_of h rt q w = guarded h q w handler"
  by (cases rt) (simp_all only: handler_of.simps route_defs, blast+)

lemma route_method_GET: "route_method Dashboard_overview = ''GET''"
  by simp

lemma route_method_not_HEAD: "route_method rt \<noteq> ''HEAD''"
  by (cases rt) simp_all

text \<open>A request the guard refuses leaves every store alone and is answered with the guard's problem.\<close>

lemma refused_idle:
  assumes "guardRoute (h_platform h) (h_env h) (w_cache w) (in_request q) (int (in_now q div 1000)) = (c, Inl p)"
  shows "guarded h q w handler = (w\<lparr>w_cache := c\<rparr>, Problem_json p)"
  using assms by (simp add: guarded_def)

section \<open>What requests never undo\<close>

text \<open>A stored history only grows, whichever request comes.\<close>

definition stored_grows :: "spec_store \<Rightarrow> spec_store \<Rightarrow> bool" where
  "stored_grows S S' \<longleftrightarrow> (\<forall>slug st. map_get S slug = Some st \<longrightarrow> (\<exists>st'. map_get S' slug = Some st' \<and> grows st st'))"

lemma stored_grows_refl [simp]: "stored_grows S S"
  by (simp add: stored_grows_def)

lemma stored_grows_trans: "stored_grows A B \<Longrightarrow> stored_grows B C \<Longrightarrow> stored_grows A C"
  unfolding stored_grows_def by (meson grows_trans)

lemma stored_grows_updates:
  assumes "updates T ok (S, R) w" and "\<And>slug. map_get S slug \<noteq> None \<Longrightarrow> map_get (fst w) slug \<noteq> None"
  shows "stored_grows S (fst w)"
  unfolding stored_grows_def
proof (intro allI impI)
  fix slug st
  assume st: "map_get S slug = Some st"
  obtain st' where "specs.view T (fst w) slug = Some st'" "grows st st'"
    using extendsD [OF updates_extends [OF assms(1)], of slug st] view_peek [OF st, of T] by auto
  moreover obtain st'' where "map_get (fst w) slug = Some st''" using assms(2) [of slug] st by auto
  ultimately show "\<exists>st'. map_get (fst w) slug = Some st' \<and> grows st st'" using view_peek [of "fst w" slug st'' T] by simp
qed

lemma stateFor_keeps: "map_get S k \<noteq> None \<Longrightarrow> map_get (fst (stateFor_spec T S slug)) k \<noteq> None"
  by (auto simp: stateFor_spec_def split: option.split sum.split)

lemma save_keeps: "map_get S k \<noteq> None \<Longrightarrow> map_get (fst (fst (saveSpec p T (S, R) slug body m key author now draws sm))) k \<noteq> None"
proof (cases rule: saveSpec_cases [where parse_url = p and T = T and S = S and R = R and slug = slug and body = body
      and m = m and key = key and author = author and now = now and draws = draws and sm = sm])
  case (same res)
  then show "map_get S k \<noteq> None \<Longrightarrow> ?thesis" using stateFor_keeps by simp
next
  case (appended st prev st' st'' S' R' res)
  then show "map_get S k \<noteq> None \<Longrightarrow> ?thesis" using stateFor_keeps [of S k T slug] by simp
qed

lemma restore_keeps: "map_get S k \<noteq> None \<Longrightarrow> map_get (fst (fst (restoreVersion p T (S, R) slug g key author now draws))) k \<noteq> None"
  using stateFor_keeps [of S k T slug]
  by (auto simp: restoreVersion_def intro!: save_keeps [unfolded not_None_eq] split: sum.split option.split prod.split)

lemma console_step_history: "console_step h w w' \<Longrightarrow> stored_grows (w_specs w) (w_specs w')"
proof (induction rule: console_step.induct)
  case spec_read
  show ?case using stored_grows_updates [OF updates_read] stateFor_keeps by simp
next
  case spec_save
  show ?case using stored_grows_updates [OF updates_save save_keeps] by simp
next
  case spec_restore
  show ?case using stored_grows_updates [OF updates_restore restore_keeps] by simp
qed simp_all

lemma console_run_history: "clocks_ok xs \<Longrightarrow> stored_grows (w_specs w) (w_specs (console_run h w xs))"
  unfolding console_run_def
proof (induction xs arbitrary: w)
  case (Cons x xs)
  then have "stored_grows (w_specs w) (w_specs (fst (handle h w x)))" by (intro console_step_history [OF handle_step]) (simp add: clocks_ok_def)
  with Cons show ?case by (auto simp: clocks_ok_def intro: stored_grows_trans)
qed simp

text \<open>What an answered versions request shows is what the store then holds.\<close>

lemma guarded_Json:
  assumes "guarded h q w handler = (w', Json n pl)"
  obtains operator key c where "handler operator key (w\<lparr>w_cache := c\<rparr>) = (w', Json n pl)"
  using assms by (auto simp: guarded_def split: prod.splits sum.splits)

lemma answer_or_Json: "answer_or missing n f r = Json n' pl \<Longrightarrow> (\<And>n pl. missing \<noteq> Json n pl) \<Longrightarrow> \<exists>a. r = Inr (Some a) \<and> n' = n \<and> pl = f a"
  by (auto simp: answer_or_def split: sum.splits option.splits)

lemma versions_answer:
  assumes "handle h w (Spec_versions slug, q) = (w', Json n (J_versions v))"
  shows "\<exists>st. map_get (w_specs w') slug = Some st \<and> specs.view (w_tenants w) (w_specs w) slug = Some st \<and> vl_items v = ss_versions st"
proof -
  from assms obtain c where "fst (listVersions (w_tenants w) (w_specs w) slug) = w_specs w'"
      "answer_or (not_found_reply ''Tenant not found'' (no_tenant_slug slug)) 200 J_versions (snd (listVersions (w_tenants w) (w_specs w) slug))
         = Json n (J_versions v)"
    by (auto simp: handle_def spec_versions_GET_def split_beta elim!: guarded_Json)
  then have l: "listVersions (w_tenants w) (w_specs w) slug = (w_specs w', Inr (Some v))"
    by (auto simp: not_found_reply_def prod_eq_iff dest: answer_or_Json)
  then obtain st where "stateFor_spec (w_tenants w) (w_specs w) slug = (w_specs w', Inr (Some st))" "vl_items v = ss_versions st"
    by (auto simp: listVersions_def parse_with_def split: prod.splits sum.splits option.splits if_splits)
  then show ?thesis using stateFor_spec_Some by blast
qed

section \<open>Tenants stay\<close>

lemma console_step_tenant:
  "console_step h w w' \<Longrightarrow> tenants_wf (w_tenants w) \<Longrightarrow> tenant_of (w_tenants w) slug = Some t \<Longrightarrow> tenant_of (w_tenants w') slug = Some t"
  by (induction rule: console_step.induct) (simp_all add: tenant_of_createTenant)

lemma console_run_tenant:
  "clocks_ok xs \<Longrightarrow> console_ok w \<Longrightarrow> tenant_of (w_tenants w) slug = Some t \<Longrightarrow> tenant_of (w_tenants (console_run h w xs)) slug = Some t"
  unfolding console_run_def
proof (induction xs arbitrary: w)
  case (Cons x xs)
  then have step: "console_step h w (fst (handle h w x))" by (intro handle_step) (simp add: clocks_ok_def)
  have "console_ok (fst (handle h w x))" using console_step_ok [OF step] Cons.prems by simp
  moreover have "tenant_of (w_tenants (fst (handle h w x))) slug = Some t"
    using console_step_tenant [OF step] Cons.prems by (simp add: console_ok_def)
  ultimately show ?case using Cons by (simp add: clocks_ok_def)
qed simp

lemma with_body_Json:
  assumes "with_body q body safeParse w k = (w', Json n pl)"
  obtains data where "k data = (w', Json n pl)"
  using assms by (auto simp: with_body_def split: sum.splits)

lemma created_stored:
  assumes "tenants_wf (w_tenants w)" "handle h w (Tenants_create body, q) = (w', Json n (J_created s))"
  shows "(\<exists>c. tenant_of (w_tenants w') (ts_slug s) = Some (pendingDetail c) \<and> ct_summary c = s \<and> ts_phase s = Pending)
    \<and> findTenant (ts_slug s) = None"
proof -
  from assms(2) obtain T' r input c where ct: "createTenant (w_tenants w) input (in_now q) = (T', r)"
      and res: "(case r of Inl (SlugTakenError slug) \<Rightarrow> (w\<lparr>w_cache := c, w_tenants := T'\<rparr>, slug_taken slug)
        | r \<Rightarrow> (w\<lparr>w_cache := c, w_tenants := T'\<rparr>, answer 201 J_created r)) = (w', Json n (J_created s))"
    by (auto simp: handle_def tenants_POST_def elim!: guarded_Json with_body_Json split: prod.splits)
  then have r: "r = Inr s" "w_tenants w' = T'"
    by (auto simp: slug_taken_def answer_def split: sum.splits exn.splits)
  obtain input' where "findAny (w_tenants w) (ci_slug input') = None" "s = created_summary input' (in_now q)"
      "T' = map_set (w_tenants w) (ci_slug input') \<lparr>ct_summary = s, ct_input = input'\<rparr>"
    using createTenant_Inr [OF ct [unfolded r(1)]] by blast
  with r(2) findAny_None_iff [OF assms(1)] show ?thesis by (auto simp: tenant_of_def created_summary_def)
qed

section \<open>Answers\<close>

text \<open>
  Routes whose handler never ends in an uncaught exception, two of them with one exception: a check that asks for what
  cannot be read of an inherited function makes the resolver throw.
\<close>

definition unreadable :: "string \<times> string \<times> string \<Rightarrow> bool" where
  "unreadable c = (case c of (user, relation, object) \<Rightarrow> read_throws (typeOf (trim object)) (trim relation))"

fun unreadable_request :: "route \<Rightarrow> bool" where
  "unreadable_request (Batch_check _ (Some (Some cs))) = list_ex unreadable cs"
| "unreadable_request (Explain_check _ (Some (Some (c, _)))) = unreadable c"
| "unreadable_request _ = False"

fun dependable :: "route \<Rightarrow> bool" where
  "dependable Tenants_list = True"
| "dependable (Tenants_create _) = True"
| "dependable Slug_check = True"
| "dependable (Tenant_detail _) = True"
| "dependable (Model_get _) = True"
| "dependable (Model_stage _ _) = True"
| "dependable (Model_validate _ _) = True"
| "dependable (Batch_check _ _) = True"
| "dependable (Explain_check _ _) = True"
| "dependable (Tenant_runs _) = True"
| "dependable (Run_detail _) = True"
| "dependable (Run_retry _) = True"
| "dependable (Drift_heal _) = True"
| "dependable Drift_resync = True"
| "dependable (Role_delete _ _) = True"
| "dependable (Users_invite _ _) = True"
| "dependable (Audit_export _) = True"
| "dependable Dashboard_overview = True"
| "dependable _ = False"

fun handled :: "reply \<Rightarrow> bool" where
  "handled (Threw e) = False"
| "handled _ = True"

lemma guarded_reply:
  assumes "\<And>operator key c. handled (snd (handler operator key (w\<lparr>w_cache := c\<rparr>)))"
  shows "handled (snd (guarded h q w handler))"
  using assms by (simp add: guarded_def split: prod.split sum.split)

lemma with_body_throws:
  assumes "snd (with_body q body safeParse w k) = Threw e"
  obtains raw data where "body = Some (Some raw)" "safeParse raw = Some data" "snd (k data) = Threw e"
proof -
  obtain raw data where "body = Some (Some raw)" "safeParse raw = Some data" "snd (k data) = Threw e"
    using assms by (auto simp: with_body_def parseBody_def split: option.splits sum.splits)
  then show ?thesis by (rule that)
qed

lemma with_body_reply:
  assumes "\<And>raw data. safeParse raw = Some data \<Longrightarrow> handled (snd (k data))"
  shows "handled (snd (with_body q body safeParse w k))"
proof -
  have "handled (snd (k data))"
    if "parseBody body (\<lambda>j. case j of None \<Rightarrow> Inl m | Some raw \<Rightarrow> (case safeParse raw of None \<Rightarrow> Inl m | Some d \<Rightarrow> Inr d)) = Inr data" for data m
    using that assms by (auto simp: parseBody_def split: option.splits sum.splits)
  then show ?thesis by (simp add: with_body_def split: sum.split)
qed

lemma handled_iff [simp]:
  "handled (answer n f r) \<longleftrightarrow> \<not> isl r" "handled (answer_or (not_found_reply t d) n g m) \<longleftrightarrow> \<not> isl m"
  "handled (answer_result n k x) \<longleftrightarrow> \<not> isl x" "handled (bad_request t d)" "handled (not_found_reply t d)"
  "handled invalid_consistency" "handled (slug_taken slug)"
  by (simp_all add: answer_def answer_or_def answer_result_def fail_def bad_request_def not_found_reply_def invalid_consistency_def
      slug_taken_def split: option.split sum.split)

text \<open>The operations behind them.\<close>

lemma reparse: "CreateTenantInputSchema_parse raw = Inr input \<Longrightarrow> CreateTenantInputSchema_parse input = Inr input"
  by (auto simp: CreateTenantInputSchema_parse_def Let_def split: if_splits)

lemma create_parsed_reply:
  assumes "CreateTenantInputSchema_parse raw = Inr input"
  shows "handled (snd (case createTenant T input now of
        (T, Inl (SlugTakenError slug)) \<Rightarrow> (w\<lparr>w_tenants := T\<rparr>, slug_taken slug)
      | (T, r) \<Rightarrow> (w\<lparr>w_tenants := T\<rparr>, answer 201 J_created r)))"
  using reparse [OF assms] by (simp add: createTenant_cases)

lemma listTenants_returns: "tenants_wf T \<Longrightarrow> \<not> isl (listTenants T fl)"
proof -
  assume "tenants_wf T"
  then have "TenantSummarySchema_ok t" if "t \<in> set (slice i j (tenant_rows T fl))" for i j t
    using that set_tenant_rows allTenants_ok by (fastforce simp: slice_def dest: in_set_dropD in_set_takeD)
  then show ?thesis by (simp add: listTenants_def TenantPageSchema_ok_def list_all_iff Let_def)
qed

lemma getAuthorizationModel_returns:
  assumes "models_wf S"
  shows "\<not> isl (snd (getAuthorizationModel T S slug))"
proof (cases "stateFor_model T S slug")
  case (Pair S' r)
  then show ?thesis using stateFor_model_ok [OF assms, of T slug S']
    by (auto simp: getAuthorizationModel_def AuthorizationModelSchema_ok_def model_state_ok_def split: option.split)
qed

lemma stageModel_returns:
  assumes "models_wf S"
  shows "\<not> isl (snd (stageModel T S slug dsl now))"
proof (cases "stateFor_model T S slug")
  case (Pair S' r)
  then show ?thesis using stateFor_model_ok [OF assms, of T slug S']
    by (auto simp: stageModel_def StageResultSchema_ok_def model_state_ok_def Let_def split: option.split list.split)
qed

lemma fixture_not_inherited: "findTenant slug \<noteq> None \<Longrightarrow> slug \<notin> set inherited_keys"
  unfolding findTenant_None TENANTS_slugs by (auto simp: inherited_keys_def)

lemma tenant_filter: "runFilterFromParams num wording get (Some slug) = Inr fl \<Longrightarrow> lf_tenant fl = Some slug"
  by (auto simp: runFilterFromParams_def min1_field_def Let_def split: option.splits if_splits)

lemma deleteRole_returns: "\<not> isl (snd (deleteRole T S slug key now))"
  by (cases "roles.view T S slug"; cases "tenant_of T slug") (simp_all add: deleteRole_view(2) deleteRole_unknown(2))

lemma requestAuditExport_returns: "\<not> isl (snd (requestAuditExport slug key u E))"
  by (simp add: requestAuditExport_def ExportResponseSchema_ok_def Let_def split: option.split)


lemma getRun_returns: "store_wf s \<Longrightarrow> \<not> isl (snd (getRun s i))"
  by (erule getRun_cases [where i = i]) simp_all

lemma tenant_listRuns_returns:
  assumes "store_wf s" "findTenant slug \<noteq> None" "runFilterFromParams num wording get (Some slug) = Inr fl"
  shows "\<not> isl (listRuns s fl now)"
proof -
  have "lf_tenant fl \<notin> Some ` set inherited_keys" using tenant_filter [OF assms(3)] fixture_not_inherited [OF assms(2)] by auto
  then show ?thesis using listRuns_page [OF assms(1), of fl now] by auto
qed

lemma validateModel_returns: "\<not> isl (validateModel T slug dsl)"
  by (simp add: validateModel_total)

lemmas returns = listTenants_returns getAuthorizationModel_returns stageModel_returns deleteRole_returns requestAuditExport_returns
  getRun_returns tenant_listRuns_returns validateModel_returns

lemma tenant_replies:
  assumes "tenants_wf (w_tenants w)"
  shows "handled (snd (tenants_GET h q w))" and "handled (snd (slug_check_GET h q w))" and "handled (snd (tenant_GET h slug q w))"
    and "handled (snd (tenants_POST h new q w))"
proof -
  show "handled (snd (tenants_POST h new q w))" unfolding tenants_POST_def
    by (intro guarded_reply with_body_reply) (auto intro!: create_parsed_reply split: sum.splits)
qed (use assms in \<open>auto simp: tenants_GET_def slug_check_GET_def tenant_GET_def getTenant_eq returns intro!: guarded_reply
  split: sum.split option.split\<close>)

lemma authorization_replies:
  assumes "models_wf (w_models w)"
  shows "handled (snd (authorization_model_GET h slug q w))" and "handled (snd (authorization_model_POST h slug dsl q w))"
    and "handled (snd (authorization_model_validate_POST h slug dsl q w))"
  using assms by (auto simp: authorization_model_GET_def authorization_model_POST_def authorization_model_validate_POST_def
      split_beta returns intro!: guarded_reply with_body_reply split: option.split)

lemma check_fields_read: "check_fields c = Some k \<Longrightarrow> read_throws (typeOf (ck_object k)) (ck_relation k) = unreadable c"
  by (cases c) (auto simp: check_fields_def CheckTupleSchema_parse_def RefSchema_parse_def RelationNameSchema_parse_def unreadable_def Let_def
      split: option.splits if_splits)

lemma batch_fields_read:
  "those (map check_fields rs) = Some ks \<Longrightarrow> list_ex (\<lambda>k. read_throws (typeOf (ck_object k)) (ck_relation k)) ks = list_ex unreadable rs"
  by (induction rs arbitrary: ks) (auto simp: check_fields_read split: option.splits)

lemma explain_throws_iff:
  "explainForTenant slug c prov k = Inl e \<longleftrightarrow>
     tenantContext slug \<noteq> None \<and> read_throws (typeOf (ck_object c)) (ck_relation c) \<and> e = TypeError"
  by (cases "tenantContext slug") (auto simp: explainForTenant_def check_throws_iff split: if_splits)

lemma batch_throws_iff:
  "batchCheckForTenant slug cs k = Inl e \<longleftrightarrow>
     tenantContext slug \<noteq> None \<and> list_ex (\<lambda>c. read_throws (typeOf (ck_object c)) (ck_relation c)) cs \<and> e = TypeError"
  by (cases "tenantContext slug") (auto simp: batchCheckForTenant_def check_throws_iff list_ex_iff split: if_splits)

lemma answer_or_throws: "answer_or (not_found_reply t d) n j r = Threw e \<longleftrightarrow> r = Inl e"
  by (auto simp: answer_or_def not_found_reply_def split: sum.split option.split)

lemma guarded_throws:
  assumes "snd (guarded h q w handler) = Threw e"
  obtains operator key c where "snd (handler operator key (w\<lparr>w_cache := c\<rparr>)) = Threw e"
  using assms by (auto simp: guarded_def split: prod.splits sum.splits)

lemma explain_reply_throws:
  assumes "snd (explain_POST h slug check q w) = Threw e"
  shows "e = TypeError \<and> unreadable_request (Explain_check slug check)"
  using assms unfolding explain_POST_def
  by (auto simp: invalid_consistency_def bad_request_def answer_or_throws explain_throws_iff ExplainRequestSchema_parse_def check_fields_read
      elim!: guarded_throws with_body_throws split: option.splits)

lemma batch_reply_throws:
  assumes "snd (batch_check_POST h slug checks q w) = Threw e"
  shows "e = TypeError \<and> unreadable_request (Batch_check slug checks)"
  using assms unfolding batch_check_POST_def
  by (auto simp: invalid_consistency_def bad_request_def answer_or_throws batch_throws_iff BatchCheckRequestSchema_parse_def accept_if_def
      batch_fields_read elim!: guarded_throws with_body_throws split: option.splits Option.bind_splits if_splits)

text \<open>And such a check is answered by an uncaught exception, for every tenant the playground knows.\<close>

lemma unreadable_throws:
  assumes "guardRoute (h_platform h) (h_env h) (w_cache w) (in_request q) (int (in_now q div 1000)) = (c, Inr (operator, key))"
    and "consistency_of (param q ''consistency'') = Some k" and "tenantContext slug \<noteq> None"
    and "check_fields (user, relation, object) \<noteq> None" and "unreadable (user, relation, object)"
  shows "snd (explain_POST h slug (Some (Some ((user, relation, object), prov))) q w) = Threw TypeError"
proof -
  obtain ck where ck: "check_fields (user, relation, object) = Some ck" using assms(4) by blast
  then have "explainForTenant slug ck p k = Inl TypeError" for p
    unfolding explain_throws_iff using assms(3,5) by (simp add: check_fields_read)
  then show ?thesis using assms(1,2) ck
    by (simp add: explain_POST_def guarded_def with_body_def parseBody_def ExplainRequestSchema_parse_def answer_or_def)
qed

lemma unreadable_valid: "check_fields (''user:ana'', ''caller'', ''constructor:x'') \<noteq> None" "unreadable (''user:ana'', ''caller'', ''constructor:x'')"
  by code_simp+

lemma run_replies:
  assumes "store_wf (w_runs w)"
  shows "handled (snd (tenant_runs_GET h slug q w))" and "handled (snd (run_GET h i q w))" and "handled (snd (run_retry_POST h i q w))"
  using assms by (auto simp: tenant_runs_GET_def run_GET_def run_retry_POST_def await_draw_def split_beta returns
      intro!: guarded_reply split: sum.split option.split)

lemma other_replies:
  "handled (snd (drift_heal_POST h ids q w))" "handled (snd (drift_resync_POST h q w))"
  "handled (snd (role_DELETE h slug i q w))" "handled (snd (users_invite_POST h slug invite q w))"
  "handled (snd (audit_exports_POST h slug q w))" "handled (snd (dashboard_GET h q w))"
  by (auto simp: drift_heal_POST_def drift_resync_POST_def role_DELETE_def users_invite_POST_def audit_exports_POST_def split_beta returns
      intro!: guarded_reply with_body_reply)
    (auto simp: dashboard_GET_def getDashboardOverview_ok split: prod.splits option.splits)

lemma handledD: "handled r \<Longrightarrow> r \<noteq> Threw e"
  by auto

lemma dependable_answers:
  assumes "console_ok w" and "dependable rt" and "snd (handle h w (rt, q)) = Threw e"
  shows "e = TypeError \<and> unreadable_request rt"
proof (cases rt)
  case (Batch_check slug checks)
  then show ?thesis using assms(3) batch_reply_throws by (simp only: handle_def prod.case handler_of.simps)
next
  case (Explain_check slug checks)
  then show ?thesis using assms(3) explain_reply_throws by (simp only: handle_def prod.case handler_of.simps)
qed (use assms handledD [OF tenant_replies(1)] handledD [OF tenant_replies(2)] handledD [OF tenant_replies(3)] handledD [OF tenant_replies(4)]
      handledD [OF authorization_replies(1)] handledD [OF authorization_replies(2)] handledD [OF authorization_replies(3)]
      handledD [OF run_replies(1)] handledD [OF run_replies(2)] handledD [OF run_replies(3)] handledD [OF other_replies(1)]
      handledD [OF other_replies(2)] handledD [OF other_replies(3)] handledD [OF other_replies(4)] handledD [OF other_replies(5)]
      handledD [OF other_replies(6)] in \<open>simp_all add: handle_def console_ok_def\<close>)

end
