(* ===== verification/Query_Cache.thy ===== *)
theory Query_Cache
  imports Console Client_Requests Client_View "HOL-Library.Sublist"
begin

text \<open>
  The browser's query cache against the server: the query keys of every feature (\<^verbatim>\<open>features/*/keys.ts\<close>), the
  endpoint each query reads, and what each mutation sends, writes into the cache and invalidates when it succeeds
  (\<^verbatim>\<open>features/*/hooks.ts\<close> and the views). Shown: whatever a mutation changes on the server, an answer the cache still holds as
  valid is the server's answer, with three exceptions, stated and shown to be outdated.

  The query client is third-party code. Of it its documented behaviour is used: \<^verbatim>\<open>setQueryData\<close> stores under a key, \<^verbatim>\<open>invalidateQueries\<close>
  marks the entries whose key matches, and a key of strings matches the keys that start with it.
\<close>

section \<open>Keys\<close>

text \<open>A part of a query key; an object has only its defined fields.\<close>

datatype key_part = K_text string | K_null | K_flag bool | K_num nat | K_object "(string \<times> key_part) list"

type_synonym query_key = "key_part list"

definition key_field :: "string \<Rightarrow> ('a \<Rightarrow> key_part) \<Rightarrow> 'a option \<Rightarrow> (string \<times> key_part) list" where
  "key_field name part v = (case v of None \<Rightarrow> [] | Some a \<Rightarrow> [(name, part a)])"

text \<open>\<^verbatim>\<open>filter.tenant ?? null\<close>.\<close>

definition or_null :: "('a \<Rightarrow> key_part) \<Rightarrow> 'a option \<Rightarrow> key_part" where
  "or_null part v = (case v of None \<Rightarrow> K_null | Some a \<Rightarrow> part a)"

definition auditKeys_list :: "string option \<Rightarrow> AuditFilter \<Rightarrow> query_key" where
  "auditKeys_list scope flt =
     (let f = normalizeAuditFilter flt
      in [K_text ''audit'', K_text (case scope of Some s \<Rightarrow> s | None \<Rightarrow> ''platform''),
          K_object (key_field ''tenant'' K_text (af_tenant f) @ key_field ''actor'' K_text (af_actor f)
            @ key_field ''action'' (\<lambda>a. K_text (action_name a)) (af_action f))])"

definition authzModelKeys_all :: "string \<Rightarrow> query_key" where
  "authzModelKeys_all slug = [K_text ''authz-model'', K_text slug]"

definition authzModelKeys_model :: "string \<Rightarrow> query_key" where
  "authzModelKeys_model slug = [K_text ''authz-model'', K_text slug, K_text ''model'']"

definition dashboardKeys_overview :: "Window \<Rightarrow> query_key" where
  "dashboardKeys_overview window = [K_text ''dashboard'', K_object [(''window'', K_text (window_name window))]]"

definition driftKeys_all :: query_key where
  "driftKeys_all = [K_text ''drift'']"

definition driftKeys_list :: "DriftListFilter \<Rightarrow> query_key" where
  "driftKeys_list flt =
     [K_text ''drift'', K_object [(''tenant'', or_null K_text (fl_tenant flt)),
        (''severity'', or_null (\<lambda>s. K_text (severity_str s)) (fl_severity flt))]]"

definition driftKeys_finding :: "string \<Rightarrow> query_key" where
  "driftKeys_finding i = [K_text ''drift'', K_text ''finding'', K_text i]"

definition RUNS_KEY :: query_key where
  "RUNS_KEY = [K_text ''runs'']"

definition idpKeys_all :: "string \<Rightarrow> query_key" where
  "idpKeys_all slug = [K_text ''identity-providers'', K_text slug]"

definition idpKeys_list :: "string \<Rightarrow> query_key" where
  "idpKeys_list slug = [K_text ''identity-providers'', K_text slug, K_text ''list'']"

definition specWriteKeys :: "string \<Rightarrow> query_key list" where
  "specWriteKeys slug = [[K_text ''tenant'', K_text slug], [K_text ''spec'', K_text slug], [K_text ''runs'']]"

record SubmittedQuery =
  sq_slug :: string
  sq_user :: string
  sq_relation :: string
  sq_object :: string
  sq_consistency :: Consistency
  sq_includeProvenance :: bool

definition consistency_str :: "Consistency \<Rightarrow> string" where
  "consistency_str c = (case c of Strong \<Rightarrow> ''strong'' | Eventual \<Rightarrow> ''eventual'')"

definition playgroundKeys_explain :: "SubmittedQuery \<Rightarrow> query_key" where
  "playgroundKeys_explain q =
     [K_text ''playground'', K_text ''explain'', K_text (sq_slug q),
      K_object [(''slug'', K_text (sq_slug q)), (''user'', K_text (sq_user q)), (''relation'', K_text (sq_relation q)),
        (''object'', K_text (sq_object q)), (''consistency'', K_text (consistency_str (sq_consistency q))),
        (''includeProvenance'', K_flag (sq_includeProvenance q))]]"

definition PLAYGROUND_KEY :: query_key where
  "PLAYGROUND_KEY = [K_text ''playground'']"

record RunListKeyFilter =
  rk_trigger :: "Trigger option"
  rk_outcome :: "Outcome option"
  rk_tenant :: "string option"
  rk_cursor :: "string option"

definition normalizeRunFilter :: "RunListKeyFilter \<Rightarrow> RunListKeyFilter" where
  "normalizeRunFilter f = f\<lparr>rk_tenant := nonempty (rk_tenant f), rk_cursor := nonempty (rk_cursor f)\<rparr>"

definition runKeys_list :: "RunListKeyFilter \<Rightarrow> query_key" where
  "runKeys_list flt =
     (let f = normalizeRunFilter flt
      in [K_text ''runs'',
          K_object (key_field ''trigger'' (\<lambda>t. K_text (trigger_str t)) (rk_trigger f)
            @ key_field ''outcome'' (\<lambda>oc. K_text (outcome_str oc)) (rk_outcome f)
            @ key_field ''tenant'' K_text (rk_tenant f) @ key_field ''cursor'' K_text (rk_cursor f))])"

definition runKeys_detail :: "string \<Rightarrow> query_key" where
  "runKeys_detail runId = [K_text ''run'', K_text runId]"

definition relationsKeys_all :: "string \<Rightarrow> query_key" where
  "relationsKeys_all slug = [K_text ''relations'', K_text slug]"

definition relationsKeys_list :: "string \<Rightarrow> RelationsFilter \<Rightarrow> query_key" where
  "relationsKeys_list slug f =
     [K_text ''relations'', K_text slug,
      K_object (key_field ''user'' K_text (rf_user f) @ key_field ''relation'' K_text (rf_relation f) @ key_field ''object'' K_text (rf_object f))]"

definition rolesKeys_list :: "string \<Rightarrow> query_key" where
  "rolesKeys_list slug = [K_text ''roles'', K_text slug]"

definition specKeys_all :: "string \<Rightarrow> query_key" where
  "specKeys_all slug = [K_text ''spec'', K_text slug]"

definition specKeys_current :: "string \<Rightarrow> query_key" where
  "specKeys_current slug = [K_text ''spec'', K_text slug, K_text ''current'']"

definition specKeys_versions :: "string \<Rightarrow> query_key" where
  "specKeys_versions slug = [K_text ''spec'', K_text slug, K_text ''versions'']"

definition specKeys_plan :: "string \<Rightarrow> string \<Rightarrow> query_key" where
  "specKeys_plan slug draftHash = [K_text ''plan'', K_text slug, K_text draftHash]"

definition tenantKeys_all :: query_key where
  "tenantKeys_all = [K_text ''tenants'']"

definition tenantKeys_list :: "TenantListFilter \<Rightarrow> query_key" where
  "tenantKeys_list f =
     [K_text ''tenants'',
      K_object (key_field ''phase'' (\<lambda>p. K_text (phase_name p)) (tf_phase f) @ key_field ''hasDrift'' K_flag (tf_hasDrift f)
        @ key_field ''q'' K_text (tf_q f) @ key_field ''cursor'' K_text (tf_cursor f) @ [(''limit'', K_num (tf_limit f))])]"

definition tenantKeys_detail :: "string \<Rightarrow> query_key" where
  "tenantKeys_detail slug = [K_text ''tenant'', K_text slug]"

definition tenantKeys_slugCheck :: "string \<Rightarrow> query_key" where
  "tenantKeys_slugCheck slug = [K_text ''tenants'', K_text ''slug-check'', K_text slug]"

definition usersKeys_all :: "string \<Rightarrow> query_key" where
  "usersKeys_all slug = [K_text ''users'', K_text slug]"

definition usersKeys_list :: "string \<Rightarrow> UsersFilter \<Rightarrow> query_key" where
  "usersKeys_list slug f = [K_text ''users'', K_text slug, K_object (key_field ''q'' K_text (uf_q f))]"

section \<open>Queries\<close>

text \<open>The queries of the hooks and views, with what they are called with.\<close>

datatype client_query =
    Q_tenants TenantListFilter | Q_slug_check string | Q_tenant string | Q_dashboard Window
  | Q_drift DriftListFilter "string option" | Q_finding string | Q_runs RunListKeyFilter "string option" | Q_run string
  | Q_spec string | Q_versions string | Q_plan string "string option" | Q_model string | Q_audit AuditFilter "string option"
  | Q_idps string | Q_relations string RelationsFilter | Q_roles string | Q_users string UsersFilter | Q_explain SubmittedQuery

text \<open>The path of the runs list; the scoped route fixes the tenant.\<close>

definition runs_params :: "RunListKeyFilter \<Rightarrow> string option \<Rightarrow> params" where
  "runs_params f tenantSlug =
     (case rk_trigger f of Some t \<Rightarrow> [(''trigger'', trigger_str t)] | None \<Rightarrow> [])
     @ (case rk_outcome f of Some oc \<Rightarrow> [(''outcome'', outcome_str oc)] | None \<Rightarrow> [])
     @ (if \<not> truthy tenantSlug \<and> truthy (rk_tenant f) then [(''tenant'', the (rk_tenant f))] else [])
     @ (if truthy (rk_cursor f) then [(''cursor'', the (rk_cursor f))] else [])"

definition runsListPath :: "RunListKeyFilter \<Rightarrow> string option \<Rightarrow> string" where
  "runsListPath f tenantSlug =
     (let base = (if truthy tenantSlug then ''/api/tenants/'' @ encodeURIComponent (the tenantSlug) @ ''/reconcile-runs'' else ''/api/reconcile-runs'');
          qs = params_toString (runs_params f tenantSlug)
      in if qs \<noteq> [] then base @ ''?'' @ qs else base)"

text \<open>
  Each query hook is its key and the route it asks; the search parameters are part of the request. The hooks of
  \<^verbatim>\<open>features/*/hooks.ts\<close> have names; the others stand in the views.
\<close>

type_synonym query_hook = "query_key \<times> route"

definition useSpecQuery :: "string \<Rightarrow> query_hook" where
  "useSpecQuery slug = (specKeys_current slug, Spec_get slug)"

definition useVersionsQuery :: "string \<Rightarrow> query_hook" where
  "useVersionsQuery slug = (specKeys_versions slug, Spec_versions slug)"

definition usePlanQuery :: "string \<Rightarrow> string option \<Rightarrow> query_hook" where
  "usePlanQuery slug draft =
     (specKeys_plan slug (case draft of None \<Rightarrow> ''current'' | Some b \<Rightarrow> spec_fnv1a b), Reconcile_now slug (Plan_request draft))"

definition useRunsQuery :: "RunListKeyFilter \<Rightarrow> string option \<Rightarrow> query_hook" where
  "useRunsQuery f tenantSlug =
     (runKeys_list (if truthy tenantSlug then f\<lparr>rk_tenant := tenantSlug\<rparr> else f), if truthy tenantSlug then Tenant_runs (the tenantSlug) else Runs)"

definition useRunQuery :: "string \<Rightarrow> query_hook" where
  "useRunQuery runId = (runKeys_detail runId, Run_detail runId)"

definition useDriftList :: "DriftListFilter \<Rightarrow> string option \<Rightarrow> query_hook" where
  "useDriftList f scopedTenant = (driftKeys_list f, if truthy scopedTenant then Tenant_drift (the scopedTenant) else Drift_list)"

definition useDriftFinding :: "string \<Rightarrow> query_hook" where
  "useDriftFinding i = (driftKeys_finding i, Drift_finding i)"

definition useAuditEvents :: "AuditFilter \<Rightarrow> string option \<Rightarrow> query_hook" where
  "useAuditEvents f scopedTenant = (auditKeys_list scopedTenant f, if truthy scopedTenant then Tenant_audit (the scopedTenant) else Audit_events)"

definition slug_check_query :: "string \<Rightarrow> query_hook" where
  "slug_check_query debounced = (tenantKeys_slugCheck debounced, Slug_check)"

definition useTenantDetailQuery :: "string \<Rightarrow> query_hook" where
  "useTenantDetailQuery slug = (tenantKeys_detail slug, Tenant_detail slug)"

definition tenants_query :: "TenantListFilter \<Rightarrow> query_hook" where
  "tenants_query f = (tenantKeys_list f, Tenants_list)"

definition overview_query :: "Window \<Rightarrow> query_hook" where
  "overview_query window = (dashboardKeys_overview window, Dashboard_overview)"

definition model_query :: "string \<Rightarrow> query_hook" where
  "model_query slug = (authzModelKeys_model slug, Model_get slug)"

definition connections_query :: "string \<Rightarrow> query_hook" where
  "connections_query slug = (idpKeys_list slug, Idps_list slug)"

definition relations_query :: "string \<Rightarrow> RelationsFilter \<Rightarrow> query_hook" where
  "relations_query slug f = (relationsKeys_list slug f, Relations_list slug)"

definition roles_query :: "string \<Rightarrow> query_hook" where
  "roles_query slug = (rolesKeys_list slug, Roles_list slug)"

definition users_query :: "string \<Rightarrow> UsersFilter \<Rightarrow> query_hook" where
  "users_query slug f = (usersKeys_list slug f, Users_list slug)"

definition explain_query :: "SubmittedQuery \<Rightarrow> query_hook" where
  "explain_query q =
     (playgroundKeys_explain q, Explain_check (sq_slug q) (Some (Some ((sq_user q, sq_relation q, sq_object q), Some (sq_includeProvenance q)))))"

fun query_of :: "client_query \<Rightarrow> query_hook" where
  "query_of (Q_tenants f) = tenants_query f"
| "query_of (Q_slug_check s) = slug_check_query s"
| "query_of (Q_tenant slug) = useTenantDetailQuery slug"
| "query_of (Q_dashboard window) = overview_query window"
| "query_of (Q_drift f scopedTenant) = useDriftList f scopedTenant"
| "query_of (Q_finding i) = useDriftFinding i"
| "query_of (Q_runs f tenantSlug) = useRunsQuery f tenantSlug"
| "query_of (Q_run i) = useRunQuery i"
| "query_of (Q_spec slug) = useSpecQuery slug"
| "query_of (Q_versions slug) = useVersionsQuery slug"
| "query_of (Q_plan slug draft) = usePlanQuery slug draft"
| "query_of (Q_model slug) = model_query slug"
| "query_of (Q_audit f scopedTenant) = useAuditEvents f scopedTenant"
| "query_of (Q_idps slug) = connections_query slug"
| "query_of (Q_relations slug f) = relations_query slug f"
| "query_of (Q_roles slug) = roles_query slug"
| "query_of (Q_users slug f) = users_query slug f"
| "query_of (Q_explain q) = explain_query q"

definition cache_key :: "client_query \<Rightarrow> query_key" where
  "cache_key v = fst (query_of v)"

definition query_route :: "client_query \<Rightarrow> route" where
  "query_route v = snd (query_of v)"

lemmas query_hook_defs = useSpecQuery_def useVersionsQuery_def usePlanQuery_def useRunsQuery_def useRunQuery_def useDriftList_def
  useDriftFinding_def useAuditEvents_def slug_check_query_def useTenantDetailQuery_def tenants_query_def overview_query_def model_query_def
  connections_query_def relations_query_def roles_query_def users_query_def explain_query_def

lemma cache_key_simps [simp]:
  "cache_key (Q_tenants ft) = tenantKeys_list ft"
  "cache_key (Q_slug_check s) = tenantKeys_slugCheck s"
  "cache_key (Q_tenant slug) = tenantKeys_detail slug"
  "cache_key (Q_dashboard window) = dashboardKeys_overview window"
  "cache_key (Q_drift fd scopedTenant) = driftKeys_list fd"
  "cache_key (Q_finding i) = driftKeys_finding i"
  "cache_key (Q_runs fr tenantSlug) = runKeys_list (if truthy tenantSlug then fr\<lparr>rk_tenant := tenantSlug\<rparr> else fr)"
  "cache_key (Q_run i) = runKeys_detail i"
  "cache_key (Q_spec slug) = specKeys_current slug"
  "cache_key (Q_versions slug) = specKeys_versions slug"
  "cache_key (Q_plan slug draft) = specKeys_plan slug (case draft of None \<Rightarrow> ''current'' | Some b \<Rightarrow> spec_fnv1a b)"
  "cache_key (Q_model slug) = authzModelKeys_model slug"
  "cache_key (Q_audit fa scopedTenant) = auditKeys_list scopedTenant fa"
  "cache_key (Q_idps slug) = idpKeys_list slug"
  "cache_key (Q_relations slug fl) = relationsKeys_list slug fl"
  "cache_key (Q_roles slug) = rolesKeys_list slug"
  "cache_key (Q_users slug fu) = usersKeys_list slug fu"
  "cache_key (Q_explain q) = playgroundKeys_explain q"
  by (simp_all add: cache_key_def query_hook_defs)

lemma query_route_simps [simp]:
  "query_route (Q_tenants ft) = Tenants_list"
  "query_route (Q_slug_check s) = Slug_check"
  "query_route (Q_tenant slug) = Tenant_detail slug"
  "query_route (Q_dashboard window) = Dashboard_overview"
  "query_route (Q_drift fd scopedTenant) = (if truthy scopedTenant then Tenant_drift (the scopedTenant) else Drift_list)"
  "query_route (Q_finding i) = Drift_finding i"
  "query_route (Q_runs fr tenantSlug) = (if truthy tenantSlug then Tenant_runs (the tenantSlug) else Runs)"
  "query_route (Q_run i) = Run_detail i"
  "query_route (Q_spec slug) = Spec_get slug"
  "query_route (Q_versions slug) = Spec_versions slug"
  "query_route (Q_plan slug draft) = Reconcile_now slug (Plan_request draft)"
  "query_route (Q_model slug) = Model_get slug"
  "query_route (Q_audit fa scopedTenant) = (if truthy scopedTenant then Tenant_audit (the scopedTenant) else Audit_events)"
  "query_route (Q_idps slug) = Idps_list slug"
  "query_route (Q_relations slug fl) = Relations_list slug"
  "query_route (Q_roles slug) = Roles_list slug"
  "query_route (Q_users slug fu) = Users_list slug"
  "query_route (Q_explain q) = Explain_check (sq_slug q) (Some (Some ((sq_user q, sq_relation q, sq_object q), Some (sq_includeProvenance q))))"
  by (simp_all add: query_route_def query_hook_defs)

definition dry_run :: "client_query \<Rightarrow> incoming \<Rightarrow> bool" where
  "dry_run v q \<longleftrightarrow> (case v of Q_plan _ _ \<Rightarrow> param q ''dryRun'' = Some ''true'' | _ \<Rightarrow> True)"

section \<open>The cache\<close>

text \<open>An entry: the answers it holds (one, or the pages loaded), each with the request it answered, and whether it is invalidated.\<close>

record cached =
  cd_pages :: "(incoming \<times> payload) list"
  cd_invalidated :: bool

type_synonym query_cache = "query_key \<Rightarrow> cached option"

definition setQueryData :: "query_key \<Rightarrow> incoming \<times> payload \<Rightarrow> query_cache \<Rightarrow> query_cache" where
  "setQueryData key a C = C(key \<mapsto> \<lparr>cd_pages = [a], cd_invalidated = False\<rparr>)"

definition invalidateQueries :: "(query_key \<Rightarrow> query_key \<Rightarrow> bool) \<Rightarrow> query_key \<Rightarrow> query_cache \<Rightarrow> query_cache" where
  "invalidateQueries matching k C =
     (\<lambda>key. map_option (\<lambda>e. if matching k key then e\<lparr>cd_invalidated := True\<rparr> else e) (C key))"

text \<open>What a query's entry must be: invalidated, or the server's answers to the requests it was fetched with.\<close>

definition current :: "host \<Rightarrow> world \<Rightarrow> client_query \<Rightarrow> query_cache \<Rightarrow> bool" where
  "current h w v C \<longleftrightarrow>
     (\<forall>e. C (cache_key v) = Some e \<longrightarrow> cd_invalidated e
        \<or> (\<forall>(q, p) \<in> set (cd_pages e). dry_run v q \<and> (\<exists>n. snd (handle h w (query_route v, q)) = Json n p)))"

section \<open>Mutations\<close>

datatype client_mutation =
    Do_save_spec string string | Do_restore string string | Do_reconcile string | Do_retry string string | Do_validate_spec string string
  | Do_stage_model string string | Do_validate_model string string | Do_patch_idp string string IdpPatch
  | Do_test_idp string string string IdpKind | Do_delete_role string string | Do_refresh_users string | Do_invite string InviteRequest
  | Do_create_tenant CreateTenantInput | Do_heal "string list" | Do_acknowledge "string list" | Do_resync
  | Do_write_relations string WriteRequest | Do_export string | Do_batch_check string "(string \<times> string \<times> string) list"
  | Do_check SubmittedQuery

text \<open>
  Each mutation is the requests it sends, in order, what \<^verbatim>\<open>onSuccess\<close> writes into the cache from their answers, and the keys it
  invalidates then. Acknowledging several findings is a loop that stops at the first error; a reconcile has no \<^verbatim>\<open>dryRun\<close>
  parameter and no body.
\<close>

type_synonym answers = "(incoming \<times> payload) list"

type_synonym mutation_hook = "route list \<times> (answers \<Rightarrow> (query_key \<times> incoming \<times> payload) list) \<times> query_key list"

definition no_data :: "answers \<Rightarrow> (query_key \<times> incoming \<times> payload) list" where
  "no_data answers = []"

definition useInvalidateSpecWrite :: "string \<Rightarrow> query_key list" where
  "useInvalidateSpecWrite slug = [[K_text ''tenant'', K_text slug], specKeys_all slug, [K_text ''runs'']]"

definition useSaveSpec :: "string \<Rightarrow> string \<Rightarrow> mutation_hook" where
  "useSaveSpec slug body = ([Spec_put slug (Some (Some body))], no_data, useInvalidateSpecWrite slug)"

definition useRestoreVersion :: "string \<Rightarrow> string \<Rightarrow> mutation_hook" where
  "useRestoreVersion slug generation = ([Spec_restore slug generation], no_data, useInvalidateSpecWrite slug)"

definition useReconcileNow :: "string \<Rightarrow> mutation_hook" where
  "useReconcileNow slug =
     ([Reconcile_now slug Empty_text], no_data, [[K_text ''tenant'', K_text slug], [K_text ''runs''], [K_text ''drift'', K_text slug]])"

definition useRetryRun :: "string \<Rightarrow> string \<Rightarrow> mutation_hook" where
  "useRetryRun i tenantSlug =
     ([Run_retry i], no_data, [[K_text ''runs''], [K_text ''tenant'', K_text tenantSlug], [K_text ''drift'', K_text tenantSlug]])"

definition useValidateSpec :: "string \<Rightarrow> string \<Rightarrow> mutation_hook" where
  "useValidateSpec slug body = ([Spec_validate_draft slug (Some (Some body))], no_data, [])"

definition stage_mutation :: "string \<Rightarrow> string \<Rightarrow> mutation_hook" where
  "stage_mutation slug dsl =
     ([Model_stage slug (Some (Some dsl))], no_data,
      [authzModelKeys_all slug, [K_text ''tenant'', K_text slug], [K_text ''spec'', K_text slug], [K_text ''runs'']])"

definition validate_mutation :: "string \<Rightarrow> string \<Rightarrow> mutation_hook" where
  "validate_mutation slug dsl = ([Model_validate slug (Some (Some dsl))], no_data, [])"

definition stageMutation :: "string \<Rightarrow> string \<Rightarrow> IdpPatch \<Rightarrow> mutation_hook" where
  "stageMutation slug i patch = ([Idp_patch slug i (Some (Some patch))], no_data, idpKeys_all slug # specWriteKeys slug)"

definition probeMutation :: "string \<Rightarrow> string \<Rightarrow> string \<Rightarrow> IdpKind \<Rightarrow> mutation_hook" where
  "probeMutation slug i issuer kind = ([Idp_test slug i (Some (Some (issuer, Some kind)))], no_data, [])"

definition remove_mutation :: "string \<Rightarrow> string \<Rightarrow> mutation_hook" where
  "remove_mutation slug key =
     ([Role_delete slug key], no_data, [rolesKeys_list slug, [K_text ''tenant'', K_text slug], [K_text ''spec'', K_text slug], [K_text ''runs'']])"

definition refresh_mutation :: "string \<Rightarrow> mutation_hook" where
  "refresh_mutation slug = ([Users_refresh slug], no_data, [usersKeys_all slug, [K_text ''runs''], [K_text ''tenant'', K_text slug]])"

definition invite_mutation :: "string \<Rightarrow> InviteRequest \<Rightarrow> mutation_hook" where
  "invite_mutation slug request = ([Users_invite slug (Some (Some request))], no_data, [])"

definition useCreateTenant :: "CreateTenantInput \<Rightarrow> mutation_hook" where
  "useCreateTenant input =
     ([Tenants_create (Some (Some input))],
      \<lambda>answers. (case answers of
          (q, J_created created) # _ \<Rightarrow> [(tenantKeys_detail (ts_slug created), q, J_created created)]
        | _ \<Rightarrow> []),
      [tenantKeys_all])"

definition useHeal :: "string list \<Rightarrow> mutation_hook" where
  "useHeal ids = ([Drift_heal (Some (Some ids))], no_data, [driftKeys_all, RUNS_KEY])"

definition acknowledge_mutation :: "string list \<Rightarrow> mutation_hook" where
  "acknowledge_mutation ids = (map Drift_acknowledge ids, no_data, [driftKeys_all])"

definition useResyncAll :: mutation_hook where
  "useResyncAll = ([Drift_resync], no_data, [driftKeys_all])"

definition write_mutation :: "string \<Rightarrow> WriteRequest \<Rightarrow> mutation_hook" where
  "write_mutation slug batch = ([Relations_write slug (Some (Some batch))], no_data, [relationsKeys_all slug, PLAYGROUND_KEY])"

definition useRequestExport :: "string \<Rightarrow> mutation_hook" where
  "useRequestExport slug = ([Audit_export slug], no_data, [])"

definition batch_mutation :: "string \<Rightarrow> (string \<times> string \<times> string) list \<Rightarrow> mutation_hook" where
  "batch_mutation slug checks = ([Batch_check slug (Some (Some checks))], no_data, [])"

definition explain_mutation :: "SubmittedQuery \<Rightarrow> mutation_hook" where
  "explain_mutation q =
     ([snd (explain_query q)], \<lambda>answers. (case answers of a # _ \<Rightarrow> [(playgroundKeys_explain q, a)] | [] \<Rightarrow> []), [])"

fun mutation_of :: "client_mutation \<Rightarrow> mutation_hook" where
  "mutation_of (Do_save_spec slug body) = useSaveSpec slug body"
| "mutation_of (Do_restore slug generation) = useRestoreVersion slug generation"
| "mutation_of (Do_reconcile slug) = useReconcileNow slug"
| "mutation_of (Do_retry i tenantSlug) = useRetryRun i tenantSlug"
| "mutation_of (Do_validate_spec slug body) = useValidateSpec slug body"
| "mutation_of (Do_stage_model slug dsl) = stage_mutation slug dsl"
| "mutation_of (Do_validate_model slug dsl) = validate_mutation slug dsl"
| "mutation_of (Do_patch_idp slug i patch) = stageMutation slug i patch"
| "mutation_of (Do_test_idp slug i issuer kind) = probeMutation slug i issuer kind"
| "mutation_of (Do_delete_role slug key) = remove_mutation slug key"
| "mutation_of (Do_refresh_users slug) = refresh_mutation slug"
| "mutation_of (Do_invite slug request) = invite_mutation slug request"
| "mutation_of (Do_create_tenant input) = useCreateTenant input"
| "mutation_of (Do_heal ids) = useHeal ids"
| "mutation_of (Do_acknowledge ids) = acknowledge_mutation ids"
| "mutation_of Do_resync = useResyncAll"
| "mutation_of (Do_write_relations slug batch) = write_mutation slug batch"
| "mutation_of (Do_export slug) = useRequestExport slug"
| "mutation_of (Do_batch_check slug checks) = batch_mutation slug checks"
| "mutation_of (Do_check q) = explain_mutation q"

definition mutation_routes :: "client_mutation \<Rightarrow> route list" where
  "mutation_routes m = fst (mutation_of m)"

definition written :: "client_mutation \<Rightarrow> answers \<Rightarrow> (query_key \<times> incoming \<times> payload) list" where
  "written m = fst (snd (mutation_of m))"

definition invalidated :: "client_mutation \<Rightarrow> query_key list" where
  "invalidated m = snd (snd (mutation_of m))"

text \<open>
  The requests of a mutation, one after the other; \<open>arrives\<close> says whether the answer reaches the browser. A problem, an exception
  or a lost answer makes the mutation fail, with what was done before it done.
\<close>

fun send_all :: "host \<Rightarrow> world \<Rightarrow> (route \<times> incoming \<times> bool) list \<Rightarrow> world \<times> answers option" where
  "send_all h w [] = (w, Some [])"
| "send_all h w ((rt, q, arrives) # xs) =
     (case handle h w (rt, q) of
        (w', Json n p) \<Rightarrow>
          if arrives \<and> 200 \<le> n \<and> n < 300
          then (case send_all h w' xs of (w'', res) \<Rightarrow> (w'', map_option (\<lambda>as. (q, p) # as) res))
          else (w', None)
      | (w', _) \<Rightarrow> (w', None))"

definition on_success :: "(query_key \<Rightarrow> query_key \<Rightarrow> bool) \<Rightarrow> client_mutation \<Rightarrow> answers \<Rightarrow> query_cache \<Rightarrow> query_cache" where
  "on_success matching m answers C =
     fold (invalidateQueries matching) (invalidated m) (fold (\<lambda>(key, a). setQueryData key a) (written m answers) C)"

text \<open>A mutation: the world after it, the cache after it, and whether it succeeded.\<close>

definition mutate :: "(query_key \<Rightarrow> query_key \<Rightarrow> bool) \<Rightarrow> host \<Rightarrow> client_mutation \<Rightarrow> (incoming \<times> bool) list \<Rightarrow> world \<times> query_cache
    \<Rightarrow> world \<times> query_cache \<times> bool" where
  "mutate matching h m qs wC =
     (case send_all h (fst wC) (zip (mutation_routes m) qs) of
        (w', None) \<Rightarrow> (w', snd wC, False)
      | (w', Some answers) \<Rightarrow> (w', on_success matching m answers (snd wC), True))"

lemmas mutation_hook_defs = useSaveSpec_def useRestoreVersion_def useReconcileNow_def useRetryRun_def useValidateSpec_def stage_mutation_def
  validate_mutation_def stageMutation_def probeMutation_def remove_mutation_def refresh_mutation_def invite_mutation_def useCreateTenant_def
  useHeal_def acknowledge_mutation_def useResyncAll_def write_mutation_def useRequestExport_def batch_mutation_def useInvalidateSpecWrite_def
  explain_mutation_def

lemma mutation_routes_simps [simp]:
  "mutation_routes (Do_save_spec slug body) = [Spec_put slug (Some (Some body))]"
  "mutation_routes (Do_restore slug generation) = [Spec_restore slug generation]"
  "mutation_routes (Do_reconcile slug) = [Reconcile_now slug Empty_text]"
  "mutation_routes (Do_retry i tenantSlug) = [Run_retry i]"
  "mutation_routes (Do_validate_spec slug body) = [Spec_validate_draft slug (Some (Some body))]"
  "mutation_routes (Do_stage_model slug dsl) = [Model_stage slug (Some (Some dsl))]"
  "mutation_routes (Do_validate_model slug dsl) = [Model_validate slug (Some (Some dsl))]"
  "mutation_routes (Do_patch_idp slug i patch) = [Idp_patch slug i (Some (Some patch))]"
  "mutation_routes (Do_test_idp slug i issuer kind) = [Idp_test slug i (Some (Some (issuer, Some kind)))]"
  "mutation_routes (Do_delete_role slug key) = [Role_delete slug key]"
  "mutation_routes (Do_refresh_users slug) = [Users_refresh slug]"
  "mutation_routes (Do_invite slug request) = [Users_invite slug (Some (Some request))]"
  "mutation_routes (Do_create_tenant input) = [Tenants_create (Some (Some input))]"
  "mutation_routes (Do_heal ids) = [Drift_heal (Some (Some ids))]"
  "mutation_routes (Do_acknowledge ids) = map Drift_acknowledge ids"
  "mutation_routes Do_resync = [Drift_resync]"
  "mutation_routes (Do_write_relations slug batch) = [Relations_write slug (Some (Some batch))]"
  "mutation_routes (Do_export slug) = [Audit_export slug]"
  "mutation_routes (Do_batch_check slug checks) = [Batch_check slug (Some (Some checks))]"
  "mutation_routes (Do_check q) =
     [Explain_check (sq_slug q) (Some (Some ((sq_user q, sq_relation q, sq_object q), Some (sq_includeProvenance q))))]"
  by (simp_all add: mutation_routes_def mutation_hook_defs explain_query_def)

lemma invalidated_simps [simp]:
  "invalidated (Do_save_spec slug body) = [[K_text ''tenant'', K_text slug], specKeys_all slug, [K_text ''runs'']]"
  "invalidated (Do_restore slug generation) = [[K_text ''tenant'', K_text slug], specKeys_all slug, [K_text ''runs'']]"
  "invalidated (Do_reconcile slug) = [[K_text ''tenant'', K_text slug], [K_text ''runs''], [K_text ''drift'', K_text slug]]"
  "invalidated (Do_retry i tenantSlug) = [[K_text ''runs''], [K_text ''tenant'', K_text tenantSlug], [K_text ''drift'', K_text tenantSlug]]"
  "invalidated (Do_stage_model slug dsl) = [authzModelKeys_all slug, [K_text ''tenant'', K_text slug], [K_text ''spec'', K_text slug], [K_text ''runs'']]"
  "invalidated (Do_patch_idp slug i patch) = idpKeys_all slug # specWriteKeys slug"
  "invalidated (Do_delete_role slug key) = [rolesKeys_list slug, [K_text ''tenant'', K_text slug], [K_text ''spec'', K_text slug], [K_text ''runs'']]"
  "invalidated (Do_refresh_users slug) = [usersKeys_all slug, [K_text ''runs''], [K_text ''tenant'', K_text slug]]"
  "invalidated (Do_create_tenant input) = [tenantKeys_all]"
  "invalidated (Do_heal ids) = [driftKeys_all, RUNS_KEY]"
  "invalidated (Do_acknowledge ids) = [driftKeys_all]"
  "invalidated Do_resync = [driftKeys_all]"
  "invalidated (Do_write_relations slug batch) = [relationsKeys_all slug, PLAYGROUND_KEY]"
  "invalidated (Do_validate_spec slug body) = []"
  "invalidated (Do_validate_model slug dsl) = []"
  "invalidated (Do_test_idp slug i issuer kind) = []"
  "invalidated (Do_invite slug request) = []"
  "invalidated (Do_export slug) = []"
  "invalidated (Do_batch_check slug checks) = []"
  "invalidated (Do_check q) = []"
  by (simp_all add: invalidated_def mutation_hook_defs)

text \<open>The documented matching of the query client, for keys of strings.\<close>

definition text_key :: "query_key \<Rightarrow> bool" where
  "text_key k \<longleftrightarrow> list_all (\<lambda>p. case p of K_text _ \<Rightarrow> True | _ \<Rightarrow> False) k"

definition matches_prefixes :: "(query_key \<Rightarrow> query_key \<Rightarrow> bool) \<Rightarrow> bool" where
  "matches_prefixes matching \<longleftrightarrow> (\<forall>k key. text_key k \<longrightarrow> matching k key = prefix k key)"

definition marked_stale :: "(query_key \<Rightarrow> query_key \<Rightarrow> bool) \<Rightarrow> client_mutation \<Rightarrow> client_query \<Rightarrow> bool" where
  "marked_stale matching m v \<longleftrightarrow> list_ex (\<lambda>k. matching k (cache_key v)) (invalidated m)"

text \<open>
  The two answers a mutation changes and does not invalidate; and the detail of a tenant just created, for which the cache gets
  the summary.
\<close>

definition overlooked :: "client_mutation \<Rightarrow> client_query \<Rightarrow> bool" where
  "overlooked m v \<longleftrightarrow>
     (case v of
        Q_tenant slug \<Rightarrow> (case m of Do_create_tenant input \<Rightarrow> ci_slug input = slug | _ \<Rightarrow> False)
      | Q_plan slug _ \<Rightarrow> (case m of Do_save_spec s _ \<Rightarrow> s = slug | Do_restore s _ \<Rightarrow> s = slug | _ \<Rightarrow> False)
      | Q_idps slug \<Rightarrow> (case m of Do_test_idp s _ _ _ \<Rightarrow> s = slug | _ \<Rightarrow> False)
      | _ \<Rightarrow> False)"

section \<open>The session key\<close>

text \<open>The guard caches the key it derives; it answers the same whether the key is cached yet or not.\<close>

definition key_ok :: "host \<Rightarrow> world \<Rightarrow> bool" where
  "key_ok h w \<longleftrightarrow> w_cache w = None \<or> w_cache w = Some (keyMaterial (h_platform h) (h_env h))"

lemmas guard_defs = guardRoute_def currentOperator_def openSession_def sessionKey_def

lemma guard_answer:
  "key_ok h w \<Longrightarrow> snd (guardRoute (h_platform h) (h_env h) (w_cache w) rq t) = snd (guardRoute (h_platform h) (h_env h) None rq t)"
  by (auto simp: key_ok_def guard_defs split: option.split sum.split prod.split)

lemma guard_cache:
  "key_ok h w \<Longrightarrow> key_ok h (w\<lparr>w_cache := fst (guardRoute (h_platform h) (h_env h) (w_cache w) rq t)\<rparr>)"
  by (auto simp: key_ok_def guard_defs split: option.split sum.split prod.split)

lemma guarded_answer:
  assumes "key_ok h w"
  shows "\<exists>c. snd (guarded h q w handler) =
    (case snd (guardRoute (h_platform h) (h_env h) None (in_request q) (int (in_now q div 1000))) of
       Inl p \<Rightarrow> Problem_json p
     | Inr (operator, key) \<Rightarrow> snd (handler operator (case key of Some k \<Rightarrow> k | None \<Rightarrow> []) (w\<lparr>w_cache := c\<rparr>)))"
  using guard_answer [OF assms, of "in_request q" "int (in_now q div 1000)"]
  by (auto simp: guarded_def split: prod.split sum.split)

lemma guarded_kept:
  assumes "key_ok h w" and "key_ok h w'" and "snd (guarded h q w handler) = Json n p"
    and "\<And>operator key c c'. snd (handler operator key (w\<lparr>w_cache := c\<rparr>)) = Json n p \<Longrightarrow> snd (handler operator key (w'\<lparr>w_cache := c'\<rparr>)) = Json n p"
  shows "snd (guarded h q w' handler) = Json n p"
  using guarded_answer [OF assms(1), of q handler] guarded_answer [OF assms(2), of q handler] assms(3,4)
  by (auto split: sum.splits prod.splits)

lemma guarded_key_ok:
  assumes "key_ok h w" and "\<And>operator key w. w_cache (fst (handler operator key w)) = w_cache w"
  shows "key_ok h (fst (guarded h q w handler))"
  using guard_cache [OF assms(1), of "in_request q" "int (in_now q div 1000)"] assms(2)
  by (auto simp: guarded_def key_ok_def split: prod.split sum.split)

lemma with_body_cache: "(\<And>data. w_cache (fst (k data)) = w_cache w) \<Longrightarrow> w_cache (fst (with_body q body safeParse w k)) = w_cache w"
  by (rule with_body_rule [where P = "\<lambda>x. w_cache x = w_cache w"]) simp_all

lemma dashboard_key_ok: "key_ok h w \<Longrightarrow> key_ok h (fst (dashboard_GET h q w))"
  by (auto simp: dashboard_GET_def key_ok_def guard_defs split: prod.split option.split sum.split)

lemma tenants_POST_key_ok: "key_ok h w \<Longrightarrow> key_ok h (fst (tenants_POST h new q w))"
  unfolding tenants_POST_def
  by (rule guarded_key_ok) (auto intro!: with_body_cache split: prod.split sum.split exn.split)

lemma handle_key_ok_1:
  assumes "key_ok h w"
  shows "key_ok h (fst (tenants_GET h q w))" "key_ok h (fst (slug_check_GET h q w))"
    "key_ok h (fst (tenant_GET h slug q w))" "key_ok h (fst (authorization_model_GET h slug q w))" "key_ok h (fst (authorization_model_POST h slug dsl q w))"
    "key_ok h (fst (authorization_model_validate_POST h slug dsl q w))" "key_ok h (fst (explain_POST h slug check q w))"
    "key_ok h (fst (batch_check_POST h slug checks q w))" "key_ok h (fst (relations_GET h slug q w))" "key_ok h (fst (relations_write_POST h slug batch q w))"
    "key_ok h (fst (runs_GET h q w))" "key_ok h (fst (tenant_runs_GET h slug q w))" "key_ok h (fst (run_GET h i q w))" "key_ok h (fst (run_retry_POST h i q w))"
  unfolding tenants_GET_def slug_check_GET_def tenant_GET_def authorization_model_GET_def authorization_model_POST_def
    authorization_model_validate_POST_def explain_POST_def batch_check_POST_def relations_GET_def relations_write_POST_def runs_GET_def
    tenant_runs_GET_def run_GET_def run_retry_POST_def Let_def
  by (rule guarded_key_ok [OF assms], auto simp: split_beta intro!: with_body_cache split: option.split)+

lemma handle_key_ok_2:
  assumes "key_ok h w"
  shows "key_ok h (fst (spec_GET h slug q w))" "key_ok h (fst (spec_versions_GET h slug q w))" "key_ok h (fst (spec_validate_POST h slug spec q w))"
    "key_ok h (fst (spec_PUT h slug spec q w))" "key_ok h (fst (spec_restore_POST h slug gen q w))" "key_ok h (fst (reconcile_POST h slug draft q w))"
    "key_ok h (fst (drift_GET h q w))" "key_ok h (fst (tenant_drift_GET h slug q w))" "key_ok h (fst (drift_finding_GET h i q w))"
    "key_ok h (fst (drift_acknowledge_POST h i q w))" "key_ok h (fst (drift_heal_POST h ids q w))" "key_ok h (fst (drift_resync_POST h q w))"
  unfolding spec_GET_def spec_versions_GET_def spec_validate_POST_def spec_PUT_def spec_restore_POST_def reconcile_POST_def drift_GET_def
    tenant_drift_GET_def drift_finding_GET_def drift_acknowledge_POST_def drift_heal_POST_def drift_resync_POST_def Let_def
  by (rule guarded_key_ok [OF assms], auto simp: split_beta intro!: with_body_cache split: option.split plan_body.split)+

lemma handle_key_ok_3:
  assumes "key_ok h w"
  shows "key_ok h (fst (identity_providers_GET h slug q w))" "key_ok h (fst (identity_provider_GET h slug i q w))"
    "key_ok h (fst (identity_provider_PATCH h slug i patch q w))" "key_ok h (fst (identity_provider_test_POST h slug i probe q w))"
    "key_ok h (fst (roles_GET h slug q w))" "key_ok h (fst (role_DELETE h slug i q w))" "key_ok h (fst (users_GET h slug q w))"
    "key_ok h (fst (users_invite_POST h slug invitee q w))" "key_ok h (fst (users_refresh_POST h slug q w))" "key_ok h (fst (audit_events_GET h q w))"
    "key_ok h (fst (tenant_audit_events_GET h slug q w))" "key_ok h (fst (audit_exports_POST h slug q w))"
  unfolding identity_providers_GET_def identity_provider_GET_def identity_provider_PATCH_def identity_provider_test_POST_def roles_GET_def
    role_DELETE_def users_GET_def users_invite_POST_def users_refresh_POST_def audit_events_GET_def tenant_audit_events_GET_def audit_exports_POST_def Let_def
  by (rule guarded_key_ok [OF assms], auto simp: split_beta intro!: with_body_cache split: option.split)+

lemma handle_key_ok: "key_ok h w \<Longrightarrow> key_ok h (fst (handle h w x))"
  by (cases x, cases "fst x") (simp_all add: handle_def handle_key_ok_1 handle_key_ok_2 handle_key_ok_3 dashboard_key_ok tenants_POST_key_ok)

lemma console_run_key_ok: "key_ok h w \<Longrightarrow> key_ok h (console_run h w xs)"
  unfolding console_run_def by (induction xs arbitrary: w) (simp_all add: handle_key_ok)

lemma boot_key_ok: "key_ok h boot"
  by (simp add: key_ok_def boot_def)

section \<open>What an answer depends on\<close>

text \<open>What was there is still there.\<close>

definition kept :: "'a option \<Rightarrow> 'a option \<Rightarrow> bool" where
  "kept a b \<longleftrightarrow> (\<forall>x. a = Some x \<longrightarrow> b = Some x)"

lemma kept_refl [simp, intro]: "kept a a"
  by (simp add: kept_def)

definition run_kept :: "Store \<Rightarrow> Store \<Rightarrow> string \<Rightarrow> bool" where
  "run_kept R R' i \<longleftrightarrow>
     (\<forall>r. map_get (s_runs R) i = Some r \<longrightarrow> map_get (s_runs R') i = Some r
        \<and> map_get (s_scripts R') i = map_get (s_scripts R) i \<and> map_get (s_liveStep R') i = map_get (s_liveStep R) i)"

text \<open>Two worlds that agree on everything the answer to a query depends on, where there is an answer in the first.\<close>

fun agree :: "host \<Rightarrow> client_query \<Rightarrow> world \<Rightarrow> world \<Rightarrow> bool" where
  "agree h (Q_tenants f) w w' = (w_tenants w' = w_tenants w)"
| "agree h (Q_slug_check s) w w' = (w_tenants w' = w_tenants w)"
| "agree h (Q_tenant slug) w w' = kept (tenant_of (w_tenants w) slug) (tenant_of (w_tenants w') slug)"
| "agree h (Q_drift f s) w w' = (w_drift w' = w_drift w)"
| "agree h (Q_finding i) w w' = (w_drift w' = w_drift w)"
| "agree h (Q_runs f s) w w' = (w_runs w' = w_runs w)"
| "agree h (Q_run i) w w' = run_kept (w_runs w) (w_runs w') i"
| "agree h (Q_spec slug) w w' = kept (specs.view (w_tenants w) (w_specs w) slug) (specs.view (w_tenants w') (w_specs w') slug)"
| "agree h (Q_versions slug) w w' = kept (specs.view (w_tenants w) (w_specs w) slug) (specs.view (w_tenants w') (w_specs w') slug)"
| "agree h (Q_plan slug d) w w' = (kept (tenant_of (w_tenants w) slug) (tenant_of (w_tenants w') slug)
     \<and> kept (specs.view (w_tenants w) (w_specs w) slug) (specs.view (w_tenants w') (w_specs w') slug))"
| "agree h (Q_model slug) w w' = (kept (tenant_of (w_tenants w) slug) (tenant_of (w_tenants w') slug)
     \<and> kept (models.view (w_tenants w) (w_models w) slug) (models.view (w_tenants w') (w_models w') slug))"
| "agree h (Q_idps slug) w w' = (kept (tenant_of (w_tenants w) slug) (tenant_of (w_tenants w') slug)
     \<and> kept (idps.view (h_idp_url h) (w_tenants w) (w_idps w) slug) (idps.view (h_idp_url h) (w_tenants w') (w_idps w') slug))"
| "agree h (Q_relations slug f) w w' = kept (rels.view (w_tenants w) (w_rels w) slug) (rels.view (w_tenants w') (w_rels w') slug)"
| "agree h (Q_roles slug) w w' = (kept (tenant_of (w_tenants w) slug) (tenant_of (w_tenants w') slug)
     \<and> kept (roles.view (w_tenants w) (w_roles w) slug) (roles.view (w_tenants w') (w_roles w') slug))"
| "agree h (Q_users slug f) w w' = (kept (tenant_of (w_tenants w) slug) (tenant_of (w_tenants w') slug)
     \<and> ms_lastRefreshedAt (mirror_of (w_mirror w') slug) = ms_lastRefreshedAt (mirror_of (w_mirror w) slug)
     \<and> ms_lastRefreshRunId (mirror_of (w_mirror w') slug) = ms_lastRefreshRunId (mirror_of (w_mirror w) slug))"
| "agree h _ w w' = True"

text \<open>The operations behind the queries, one by one.\<close>

lemma answer_or_found: "answer_or (not_found_reply t d) n j r = Json k p \<longleftrightarrow> k = n \<and> (\<exists>a. r = Inr (Some a) \<and> p = j a)"
  by (auto simp: answer_or_def not_found_reply_def split: sum.split option.split)

lemma getRun_kept:
  assumes "store_wf R" and "run_kept R R' i" and "snd (getRun R i) = Inr (Some d)"
  shows "snd (getRun R' i) = Inr (Some d)"
proof -
  obtain r where r: "map_get (s_runs R) i = Some r" using assms(3) by (auto simp: getRun_def split: option.splits)
  have i: "rn_id r = i" using run_okD(1) [OF store_wfD(1) [OF assms(1) r]] .
  from assms(2) r have k: "map_get (s_runs R') i = Some r" "map_get (s_scripts R') i = map_get (s_scripts R) i"
      "map_get (s_liveStep R') i = map_get (s_liveStep R) i"
    by (simp_all add: run_kept_def)
  show ?thesis using assms(3) r k i
    by (cases "rn_finishedAt r"; cases "map_get (s_scripts R) i"; cases "map_get (s_liveStep R) i"; cases "Date_parse (rn_startedAt r)")
      (simp_all add: getRun_def advanceLive_def Let_def split: if_splits)
qed

lemma spec_kept:
  assumes "kept (specs.view T S slug) (specs.view T' S' slug)" and "stateFor_spec T S slug = (S1, Inr (Some st))"
  shows "\<exists>S1'. stateFor_spec T' S' slug = (S1', Inr (Some st))"
  using stateFor_spec_Some [OF assms(2)] assms(1) stateFor_view by (simp add: kept_def)

lemma spec_reads_kept:
  assumes "kept (specs.view T S slug) (specs.view T' S' slug)"
  shows "snd (getSpec T S slug) = Inr (Some d) \<Longrightarrow> snd (getSpec T' S' slug) = Inr (Some d)"
    and "snd (listVersions T S slug) = Inr (Some vs) \<Longrightarrow> snd (listVersions T' S' slug) = Inr (Some vs)"
    and "snd (planSpec T S slug draft now) = Inr (Some pl) \<Longrightarrow> kept (tenant_of T slug) (tenant_of T' slug) \<Longrightarrow> snd (planSpec T' S' slug draft now) = Inr (Some pl)"
proof -
  assume "snd (getSpec T S slug) = Inr (Some d)"
  then show "snd (getSpec T' S' slug) = Inr (Some d)"
    by (auto simp: getSpec_def split: prod.splits sum.splits option.splits dest!: spec_kept [OF assms])
next
  assume "snd (listVersions T S slug) = Inr (Some vs)"
  then show "snd (listVersions T' S' slug) = Inr (Some vs)"
    by (auto simp: listVersions_def split: prod.splits sum.splits option.splits dest!: spec_kept [OF assms])
next
  assume "snd (planSpec T S slug draft now) = Inr (Some pl)" "kept (tenant_of T slug) (tenant_of T' slug)"
  then show "snd (planSpec T' S' slug draft now) = Inr (Some pl)"
    by (auto simp: planSpec_def Let_def kept_def split: prod.splits sum.splits option.splits dest!: spec_kept [OF assms])
qed

lemma model_read_kept:
  assumes "kept (tenant_of T slug) (tenant_of T' slug)" and "kept (models.view T M slug) (models.view T' M' slug)"
    and "snd (getAuthorizationModel T M slug) = Inr (Some m)"
  shows "snd (getAuthorizationModel T' M' slug) = Inr (Some m)"
proof -
  have v: "snd (stateFor_model T M slug) = models.view T M slug" "snd (stateFor_model T' M' slug) = models.view T' M' slug"
    by (rule models.snd_acquire)+
  show ?thesis using assms v
    by (auto simp: getAuthorizationModel_def kept_def split: prod.splits option.splits)
qed

lemma relations_read_kept:
  assumes "kept (rels.view T S slug) (rels.view T' S' slug)" and "snd (listRelations T S slug f cur n) = Inr (Some pg)"
  shows "snd (listRelations T' S' slug f cur n) = Inr (Some pg)"
proof -
  have v: "snd (storeFor T S slug) = rels.view T S slug" "snd (storeFor T' S' slug) = rels.view T' S' slug"
    by (rule rels.snd_acquire)+
  show ?thesis using assms v
    by (auto simp: listRelations_def kept_def Let_def split: prod.splits option.splits)
qed

lemma roles_read_kept:
  assumes "kept (tenant_of T slug) (tenant_of T' slug)" and "kept (roles.view T S slug) (roles.view T' S' slug)"
    and "snd (listRoles T S slug) = Inr (Some rs)"
  shows "snd (listRoles T' S' slug) = Inr (Some rs)"
proof -
  have v: "snd (rolesFor T S slug) = roles.view T S slug" "snd (rolesFor T' S' slug) = roles.view T' S' slug"
    by (rule roles.snd_acquire)+
  show ?thesis using assms v by (auto simp: listRoles_def kept_def split: prod.splits option.splits)
qed

lemma providers_of_view: "idps.view parse_url T S slug = Some items \<Longrightarrow> \<exists>S1. providersFor parse_url T S slug = (S1, Inr (Some items))"
  by (auto simp: providersFor_def idps.view_def seeded_idps_def split: option.splits sum.splits)

lemma idps_read_kept:
  assumes "kept (tenant_of T slug) (tenant_of T' slug)" and "kept (idps.view u T S slug) (idps.view u T' S' slug)"
    and "snd (listIdentityProviders u T S slug) = Inr (Some ps)"
  shows "snd (listIdentityProviders u T' S' slug) = Inr (Some ps)"
proof -
  obtain S1 items t where s: "providersFor u T S slug = (S1, Inr (Some items))" "tenant_of T slug = Some t"
    using assms(3) by (auto simp: listIdentityProviders_def split: prod.splits sum.splits option.splits)
  then have "idps.view u T' S' slug = Some items" "tenant_of T' slug = Some t"
    using assms(1,2) providersFor_view(1) by (auto simp: kept_def)
  with providers_of_view [OF this(1)] s assms(3) show ?thesis by (auto simp: listIdentityProviders_def)
qed

lemma users_read_kept:
  assumes "kept (tenant_of T slug) (tenant_of T' slug)" and "ms_lastRefreshedAt (mirror_of M' slug) = ms_lastRefreshedAt (mirror_of M slug)"
    and "ms_lastRefreshRunId (mirror_of M' slug) = ms_lastRefreshRunId (mirror_of M slug)" and "snd (listUsers T M slug f cur n) = Inr (Some pg)"
  shows "snd (listUsers T' M' slug f cur n) = Inr (Some pg)"
  using assms stateFor_users_view [of M slug] stateFor_users_view [of M' slug]
  by (auto simp: listUsers_def Let_def kept_def split: option.splits prod.splits)

text \<open>The routes of the queries.\<close>

lemma tenant_answers:
  assumes "key_ok h w" and "key_ok h w'"
  shows "w_tenants w' = w_tenants w \<Longrightarrow> snd (tenants_GET h q w) = Json n p \<Longrightarrow> snd (tenants_GET h q w') = Json n p"
    and "w_tenants w' = w_tenants w \<Longrightarrow> snd (slug_check_GET h q w) = Json n p \<Longrightarrow> snd (slug_check_GET h q w') = Json n p"
    and "tenants_wf (w_tenants w) \<Longrightarrow> tenants_wf (w_tenants w') \<Longrightarrow> kept (tenant_of (w_tenants w) slug) (tenant_of (w_tenants w') slug) \<Longrightarrow>
      snd (tenant_GET h slug q w) = Json n p \<Longrightarrow> snd (tenant_GET h slug q w') = Json n p"
  unfolding tenants_GET_def slug_check_GET_def tenant_GET_def
  by (erule guarded_kept [OF assms], auto simp: getTenant_eq answer_or_found kept_def split: sum.splits option.splits)+

lemma drift_answers:
  assumes "key_ok h w" and "key_ok h w'" and "w_drift w' = w_drift w"
  shows "snd (drift_GET h q w) = Json n p \<Longrightarrow> snd (drift_GET h q w') = Json n p"
    and "snd (tenant_drift_GET h slug q w) = Json n p \<Longrightarrow> snd (tenant_drift_GET h slug q w') = Json n p"
    and "snd (drift_finding_GET h i q w) = Json n p \<Longrightarrow> snd (drift_finding_GET h i q w') = Json n p"
  unfolding drift_GET_def tenant_drift_GET_def drift_finding_GET_def
  by (erule guarded_kept [OF assms(1,2)], auto simp: assms(3) split_beta)+

lemma run_answers:
  assumes "key_ok h w" and "key_ok h w'"
  shows "w_runs w' = w_runs w \<Longrightarrow> snd (runs_GET h q w) = Json n p \<Longrightarrow> snd (runs_GET h q w') = Json n p"
    and "w_runs w' = w_runs w \<Longrightarrow> snd (tenant_runs_GET h slug q w) = Json n p \<Longrightarrow> snd (tenant_runs_GET h slug q w') = Json n p"
    and "store_wf (w_runs w) \<Longrightarrow> run_kept (w_runs w) (w_runs w') i \<Longrightarrow> snd (run_GET h i q w) = Json n p \<Longrightarrow> snd (run_GET h i q w') = Json n p"
  unfolding runs_GET_def tenant_runs_GET_def run_GET_def
  by (erule guarded_kept [OF assms], auto simp: split_beta answer_or_found getRun_kept split: sum.splits if_splits)+

lemma spec_answers:
  assumes "key_ok h w" and "key_ok h w'" and "kept (specs.view (w_tenants w) (w_specs w) slug) (specs.view (w_tenants w') (w_specs w') slug)"
  shows "snd (spec_GET h slug q w) = Json n p \<Longrightarrow> snd (spec_GET h slug q w') = Json n p"
    and "snd (spec_versions_GET h slug q w) = Json n p \<Longrightarrow> snd (spec_versions_GET h slug q w') = Json n p"
    and "kept (tenant_of (w_tenants w) slug) (tenant_of (w_tenants w') slug) \<Longrightarrow> param q ''dryRun'' = Some ''true'' \<Longrightarrow>
      snd (reconcile_POST h slug (Plan_request draft) q w) = Json n p \<Longrightarrow> snd (reconcile_POST h slug (Plan_request draft) q w') = Json n p"
  unfolding spec_GET_def spec_versions_GET_def reconcile_POST_def
  by (erule guarded_kept [OF assms(1,2)], auto simp: split_beta answer_or_found spec_reads_kept [OF assms(3)])+

lemma model_answer:
  assumes "key_ok h w" and "key_ok h w'" and "kept (tenant_of (w_tenants w) slug) (tenant_of (w_tenants w') slug)"
    and "kept (models.view (w_tenants w) (w_models w) slug) (models.view (w_tenants w') (w_models w') slug)"
  shows "snd (authorization_model_GET h slug q w) = Json n p \<Longrightarrow> snd (authorization_model_GET h slug q w') = Json n p"
  unfolding authorization_model_GET_def
  by (erule guarded_kept [OF assms(1,2)]) (auto simp: split_beta answer_or_found model_read_kept [OF assms(3,4)])

lemma idps_answer:
  assumes "key_ok h w" and "key_ok h w'" and "kept (tenant_of (w_tenants w) slug) (tenant_of (w_tenants w') slug)"
    and "kept (idps.view (h_idp_url h) (w_tenants w) (w_idps w) slug) (idps.view (h_idp_url h) (w_tenants w') (w_idps w') slug)"
  shows "snd (identity_providers_GET h slug q w) = Json n p \<Longrightarrow> snd (identity_providers_GET h slug q w') = Json n p"
  unfolding identity_providers_GET_def
  by (erule guarded_kept [OF assms(1,2)]) (auto simp: split_beta answer_or_found idps_read_kept [OF assms(3,4)])

lemma relations_answer:
  assumes "key_ok h w" and "key_ok h w'" and "kept (rels.view (w_tenants w) (w_rels w) slug) (rels.view (w_tenants w') (w_rels w') slug)"
  shows "snd (relations_GET h slug q w) = Json n p \<Longrightarrow> snd (relations_GET h slug q w') = Json n p"
  unfolding relations_GET_def Let_def
  by (erule guarded_kept [OF assms(1,2)])
    (auto simp: split_beta answer_or_found relations_read_kept [OF assms(3)] bad_request_def split: option.splits if_splits)

lemma roles_answer:
  assumes "key_ok h w" and "key_ok h w'" and "kept (tenant_of (w_tenants w) slug) (tenant_of (w_tenants w') slug)"
    and "kept (roles.view (w_tenants w) (w_roles w) slug) (roles.view (w_tenants w') (w_roles w') slug)"
  shows "snd (roles_GET h slug q w) = Json n p \<Longrightarrow> snd (roles_GET h slug q w') = Json n p"
  unfolding roles_GET_def
  by (erule guarded_kept [OF assms(1,2)]) (auto simp: split_beta answer_or_found roles_read_kept [OF assms(3,4)])

lemma users_answer:
  assumes "key_ok h w" and "key_ok h w'" and "agree h (Q_users slug f) w w'"
  shows "snd (users_GET h slug q w) = Json n p \<Longrightarrow> snd (users_GET h slug q w') = Json n p"
  unfolding users_GET_def
  by (erule guarded_kept [OF assms(1,2)]) (use assms(3) in \<open>auto simp: split_beta answer_or_found users_read_kept\<close>)

lemma static_answers:
  assumes "key_ok h w" and "key_ok h w'"
  shows "snd (audit_events_GET h q w) = Json n p \<Longrightarrow> snd (audit_events_GET h q w') = Json n p"
    and "snd (tenant_audit_events_GET h slug q w) = Json n p \<Longrightarrow> snd (tenant_audit_events_GET h slug q w') = Json n p"
    and "snd (explain_POST h slug check q w) = Json n p \<Longrightarrow> snd (explain_POST h slug check q w') = Json n p"
  unfolding audit_events_GET_def tenant_audit_events_GET_def explain_POST_def Let_def
  by (erule guarded_kept [OF assms], auto simp: with_body_def split: option.splits sum.splits prod.splits)+

lemma operator_cached:
  "key_ok h w \<Longrightarrow> snd (currentOperator (h_platform h) (h_env h) (w_cache w) rq t) = snd (currentOperator (h_platform h) (h_env h) None rq t)"
  by (auto simp: key_ok_def guard_defs split: option.split sum.split)

lemma dashboard_answer:
  assumes "key_ok h w" and "key_ok h w'"
  shows "snd (dashboard_GET h q w') = snd (dashboard_GET h q w)"
  using operator_cached [OF assms(1), of "in_request q" "int (in_now q div 1000)"]
    operator_cached [OF assms(2), of "in_request q" "int (in_now q div 1000)"]
  by (auto simp: dashboard_GET_def split: prod.splits option.splits)

lemma agree_answer:
  assumes k: "key_ok h w" "key_ok h w'" and ok: "console_ok w" "console_ok w'" and a: "agree h v w w'" and d: "dry_run v q"
    and r: "snd (handle h w (query_route v, q)) = Json n p"
  shows "snd (handle h w' (query_route v, q)) = Json n p"
proof -
  have wf: "tenants_wf (w_tenants w)" "tenants_wf (w_tenants w')" "store_wf (w_runs w)" using ok by (simp_all add: console_ok_def)
  show ?thesis
  proof (cases v)
    case (Q_users slug f)
    then show ?thesis using a r users_answer [OF k] by (simp add: handle_def del: agree.simps)
  next
    case (Q_dashboard window)
    then show ?thesis using r dashboard_answer [OF k] by (simp add: handle_def)
  next
    case (Q_tenant slug)
    then show ?thesis using a r tenant_answers(3) [OF k wf(1,2)] by (simp add: handle_def)
  next
    case (Q_run i)
    then show ?thesis using a r run_answers(3) [OF k wf(3)] by (simp add: handle_def)
  next
    case (Q_plan slug draft)
    then show ?thesis using a r d spec_answers(3) [OF k] by (simp add: handle_def dry_run_def)
  qed (use a r in \<open>auto simp: handle_def tenant_answers(1,2) [OF k] drift_answers [OF k] run_answers(1,2) [OF k] spec_answers(1,2) [OF k]
        model_answer [OF k] idps_answer [OF k] relations_answer [OF k] roles_answer [OF k] static_answers [OF k] split: if_splits\<close>)
qed

section \<open>What a mutation changes\<close>

text \<open>Each store, for the tenants a mutation is not about.\<close>

lemma models_frame:
  assumes "k \<noteq> slug"
  shows "models.view T (fst (stageModel T M slug dsl now)) k = models.view T M k"
proof -
  obtain M1 r where sf: "stateFor_model T M slug = (M1, r)" by fastforce
  have "models.view T M1 k = models.view T M k" using models.view_acquire [of T M slug k] by (simp add: sf)
  moreover have "models.view T (map_set M1 slug m) k = models.view T M1 k" for m using assms by (simp add: models.view_def)
  ultimately show ?thesis by (simp add: stageModel_def Let_def sf split: option.split list.split)
qed

lemma rels_frame:
  assumes "k \<noteq> slug"
  shows "rels.view T (fst (writeRelations T S slug req now)) k = rels.view T S k"
proof -
  obtain S1 r where sf: "storeFor T S slug = (S1, r)" by fastforce
  have "rels.view T S1 k = rels.view T S k" using rels.view_acquire [of T S slug k] by (simp add: sf)
  moreover have "rels.view T (map_set S1 slug m) k = rels.view T S1 k" for m using assms by (simp add: rels.view_def)
  ultimately show ?thesis by (simp add: writeRelations_def Let_def sf split: option.split prod.split)
qed

lemma idps_frame:
  assumes "k \<noteq> slug"
  shows "idps.view u T (fst (stageIdentityProvider u T S slug i patch now)) k = idps.view u T S k"
    and "idps.view u T (fst (testIdentityProvider u T S slug i issuer kind)) k = idps.view u T S k"
proof -
  obtain S1 r where sf: "providersFor u T S slug = (S1, r)" by fastforce
  have "idps.view u T S1 k = idps.view u T S k" using idps.view_acquire [of u T S slug k] by (simp add: acquire_idps_def sf)
  moreover have "idps.view u T (map_set S1 slug m) k = idps.view u T S1 k" for m using assms by (simp add: idps.view_def)
  ultimately show "idps.view u T (fst (stageIdentityProvider u T S slug i patch now)) k = idps.view u T S k"
      and "idps.view u T (fst (testIdentityProvider u T S slug i issuer kind)) k = idps.view u T S k"
    by (simp_all add: stageIdentityProvider_def testIdentityProvider_def Let_def sf split: option.split sum.split)
qed

lemma roles_frame:
  assumes "k \<noteq> slug"
  shows "roles.view T (fst (deleteRole T S slug key now)) k = roles.view T S k"
proof -
  obtain S1 r where sf: "rolesFor T S slug = (S1, r)" by fastforce
  have "roles.view T S1 k = roles.view T S k" using roles.view_acquire [of T S slug k] by (simp add: sf)
  then show ?thesis using assms by (simp add: deleteRole_def sf view_map_set split: option.split)
qed

lemma mirror_read:
  assumes "stateFor_users M slug = (M1, s)"
  shows "s = mirror_of M slug" and "mirror_of M1 k = mirror_of M k"
  using stateFor_users_view [of M slug] mirror_of_stateFor [of M slug k] by (simp_all add: assms)

lemma users_frame:
  assumes "k \<noteq> slug"
  shows "mirror_of (fst (refreshUsers T M slug now)) k = mirror_of M k"
proof -
  obtain M1 s where sf: "stateFor_users M slug = (M1, s)" by fastforce
  show ?thesis using assms mirror_read(2) [OF sf, of k] by (simp add: refreshUsers_def sf split: option.split)
qed

lemma invite_frame:
  "ms_lastRefreshedAt (mirror_of (fst (inviteUser T M slug request now)) k) = ms_lastRefreshedAt (mirror_of M k)"
  "ms_lastRefreshRunId (mirror_of (fst (inviteUser T M slug request now)) k) = ms_lastRefreshRunId (mirror_of M k)"
proof -
  obtain M1 s where sf: "stateFor_users M slug = (M1, s)" by fastforce
  note r = mirror_read [OF sf]
  show "ms_lastRefreshedAt (mirror_of (fst (inviteUser T M slug request now)) k) = ms_lastRefreshedAt (mirror_of M k)"
      "ms_lastRefreshRunId (mirror_of (fst (inviteUser T M slug request now)) k) = ms_lastRefreshRunId (mirror_of M k)"
    using r by (simp_all add: inviteUser_def Let_def sf split: option.split)
qed

lemma specs_frame:
  assumes "k \<noteq> slug"
  shows "specs.view T (fst (fst (saveSpec p T (S, R) slug body m key author now draws sm))) k = specs.view T S k"
    and "specs.view T (fst (fst (restoreVersion p T (S, R) slug g key author now draws))) k = specs.view T S k"
proof -
  have save: "specs.view T (fst (fst (saveSpec p T (S, R) slug body m key author now draws sm))) k = specs.view T S k" for S body m sm
    by (cases rule: saveSpec_cases [where parse_url = p and T = T and S = S and R = R and slug = slug and body = body
        and m = m and key = key and author = author and now = now and draws = draws and sm = sm])
      (use assms in \<open>auto simp: fst_stateFor_view view_set dest: stateFor_spec_Some\<close>)
  then show "specs.view T (fst (fst (saveSpec p T (S, R) slug body m key author now draws sm))) k = specs.view T S k" .
  have "specs.view T (fst (stateFor_spec T S slug)) k = specs.view T S k" by (rule fst_stateFor_view)
  then show "specs.view T (fst (fst (restoreVersion p T (S, R) slug g key author now draws))) k = specs.view T S k"
    by (auto simp: restoreVersion_def save split: prod.splits sum.splits option.splits)
qed

lemma run_kept_refl [simp]: "run_kept R R i"
  by (simp add: run_kept_def)

lemma retry_kept: "run_kept R (fst (retryRun R j key now draws)) i"
  by (rule retryRun_cases [where s = R and key = key and runId = j and now = now and us = draws])
    (auto simp: run_kept_def)

lemma enqueue_kept: "run_kept R (fst (enqueueReconcile R slug key now draws)) i"
  using retry_kept [of R _ key now draws i]
  by (auto simp: enqueueReconcile_def split: sum.split option.split prod.split) (metis fst_conv)+

lemma runs_kept:
  "run_kept R (fst (reconcileNow T R slug key now draws)) i"
  "run_kept R (snd (fst (saveSpec p T (S, R) slug body m key author now draws sm))) i"
  "run_kept R (snd (fst (restoreVersion p T (S, R) slug g key author now draws))) i"
proof -
  note e = enqueue_kept [of R slug _ now draws i]
  show "run_kept R (fst (reconcileNow T R slug key now draws)) i"
    using e [of key] by (simp add: reconcileNow_def split_beta split: option.split)
  show "run_kept R (snd (fst (saveSpec p T (S, R) slug body m key author now draws sm))) i"
    using save_runs [of p T S R slug body m key author now draws sm] e [of "key @ '':reconcile''"] by fastforce
  show "run_kept R (snd (fst (restoreVersion p T (S, R) slug g key author now draws))) i"
    using restore_runs [of p T S R slug g key author now draws] e [of "key @ '':reconcile''"] by fastforce
qed

text \<open>A new tenant: what was known of any tenant, stored or to be seeded, stays.\<close>

lemma created_kept:
  fixes raw :: CreateTenantInput and now :: instant
  assumes "tenants_wf T"
  defines "T' \<equiv> fst (createTenant T raw now)"
  shows "kept (tenant_of T k) (tenant_of T' k)" and "kept (models.view T M k) (models.view T' M k)" and "kept (rels.view T S k) (rels.view T' S k)"
    and "kept (specs.view T SS k) (specs.view T' SS k)" and "kept (roles.view T RS k) (roles.view T' RS k)" and "kept (idps.view u T I k) (idps.view u T' I k)"
proof -
  show t: "kept (tenant_of T k) (tenant_of T' k)" using tenant_of_createTenant [OF assms(1)] by (simp add: kept_def T'_def)
  show "kept (models.view T M k) (models.view T' M k)"
    using t by (auto simp: kept_def models.view_def model_seed_def split: option.splits)
  show "kept (rels.view T S k) (rels.view T' S k)"
    using t by (auto simp: kept_def rels.view_def rel_seed_def split: option.splits)
  show "kept (specs.view T SS k) (specs.view T' SS k)"
    using t by (auto simp: kept_def specs.view_def seeded_state_def spec_seed_def split: option.splits sum.splits)
  show "kept (roles.view T RS k) (roles.view T' RS k)"
    using t by (auto simp: kept_def roles.view_def role_seed_def split: option.splits)
  show "kept (idps.view u T I k) (idps.view u T' I k)"
    using t by (auto simp: kept_def idps.view_def seeded_idps_def idp_seed_def split: option.splits sum.splits)
qed

text \<open>The mutation routes, each leaving alone the answers it is not about.\<close>

lemmas agree_rules = guarded_rule [where P = "agree h v w" for h v w] with_body_rule [where P = "agree h v w" for h v w]

lemma agree_cache [simp]: "agree h v w (w\<lparr>w_cache := c\<rparr>)"
  by (cases v) simp_all

lemma model_agree:
  "v \<noteq> Q_model slug \<Longrightarrow> agree h v w (fst (authorization_model_POST h slug body q w))"
  "agree h v w (fst (authorization_model_validate_POST h slug body q w))"
  unfolding authorization_model_POST_def authorization_model_validate_POST_def
  by (intro agree_rules; cases v; simp add: split_beta models_frame; fastforce)+

lemma relations_agree:
  "(\<forall>f. v \<noteq> Q_relations slug f) \<Longrightarrow> agree h v w (fst (relations_write_POST h slug body q w))"
  unfolding relations_write_POST_def by (intro agree_rules; cases v; simp add: split_beta rels_frame; fastforce)

lemma idp_agree:
  "v \<noteq> Q_idps slug \<Longrightarrow> agree h v w (fst (identity_provider_PATCH h slug i body q w))"
  "v \<noteq> Q_idps slug \<Longrightarrow> agree h v w (fst (identity_provider_test_POST h slug i probe q w))"
  unfolding identity_provider_PATCH_def identity_provider_test_POST_def
  by (intro agree_rules; cases v; simp add: split_beta idps_frame; fastforce)+

lemma people_agree:
  "v \<noteq> Q_roles slug \<Longrightarrow> agree h v w (fst (role_DELETE h slug i q w))"
  "(\<forall>f. v \<noteq> Q_users slug f) \<Longrightarrow> agree h v w (fst (users_refresh_POST h slug q w))"
  "agree h v w (fst (users_invite_POST h slug body q w))"
  unfolding role_DELETE_def users_refresh_POST_def users_invite_POST_def
  by (intro agree_rules; cases v; simp add: split_beta roles_frame users_frame invite_frame; fastforce)+

lemma drift_agree:
  assumes "\<forall>f s. v \<noteq> Q_drift f s" and "\<forall>i. v \<noteq> Q_finding i"
  shows "agree h v w (fst (drift_heal_POST h body q w))" "agree h v w (fst (drift_acknowledge_POST h i q w))" "agree h v w (fst (drift_resync_POST h q w))"
  unfolding drift_heal_POST_def drift_acknowledge_POST_def drift_resync_POST_def
  by (intro agree_rules; cases v; use assms in \<open>simp add: split_beta; fastforce\<close>)+

lemma agree_exports: "agree h v w (w\<lparr>w_cache := c, w_exports := x\<rparr>)"
  by (cases v) simp_all

lemma static_agree: "agree h v w (fst (audit_exports_POST h slug q w))" "agree h v w (fst (batch_check_POST h slug checks q w))"
    "agree h v w (fst (explain_POST h slug check q w))"
  unfolding audit_exports_POST_def batch_check_POST_def explain_POST_def
  by (auto simp: split_beta agree_exports intro!: agree_rules split: option.split)

lemma agree_seeded:
  "agree h v w (w\<lparr>w_cache := c, w_specs := fst (stateFor_spec (w_tenants w) (w_specs w) slug)\<rparr>)"
  by (cases v) (simp_all add: fst_stateFor_view)

lemma spec_agree:
  assumes "v \<noteq> Q_spec slug" and "v \<noteq> Q_versions slug" and "\<forall>d. v \<noteq> Q_plan slug d" and "\<forall>f s. v \<noteq> Q_runs f s"
  shows "agree h v w (w\<lparr>w_cache := c, w_specs := fst (fst (saveSpec p (w_tenants w) (w_specs w, w_runs w) slug body m key author now draws sm)),
      w_runs := snd (fst (saveSpec p (w_tenants w) (w_specs w, w_runs w) slug body m key author now draws sm))\<rparr>)"
    and "agree h v w (w\<lparr>w_cache := c, w_specs := fst (fst (restoreVersion p (w_tenants w) (w_specs w, w_runs w) slug g key author now draws)),
      w_runs := snd (fst (restoreVersion p (w_tenants w) (w_specs w, w_runs w) slug g key author now draws))\<rparr>)"
  using assms by (cases v; simp add: specs_frame runs_kept; fastforce)+

lemma spec_routes_agree:
  assumes "v \<noteq> Q_spec slug" and "v \<noteq> Q_versions slug" and "\<forall>d. v \<noteq> Q_plan slug d" and "\<forall>f s. v \<noteq> Q_runs f s"
  shows "agree h v w (fst (spec_PUT h slug body q w))" and "agree h v w (fst (spec_restore_POST h slug gen q w))"
  unfolding spec_PUT_def spec_restore_POST_def Let_def
  by (auto simp: split_beta spec_agree [OF assms] intro!: agree_rules split: option.split)

lemma validate_agree: "agree h v w (fst (spec_validate_POST h slug body q w))"
  unfolding spec_validate_POST_def by (auto simp: split_beta spec_reads_fst agree_seeded intro!: agree_rules)

lemma agree_runs:
  assumes "\<forall>f s. v \<noteq> Q_runs f s" and "\<And>i. run_kept (w_runs w) R i"
  shows "agree h v w (w\<lparr>w_cache := c, w_runs := R\<rparr>)"
  using assms by (cases v) simp_all

lemma run_agree:
  assumes "\<forall>f s. v \<noteq> Q_runs f s"
  shows "agree h v w (fst (reconcile_POST h slug body q w))" and "agree h v w (fst (run_retry_POST h i q w))"
  unfolding reconcile_POST_def run_retry_POST_def Let_def
  by (auto simp: split_beta spec_reads_fst agree_seeded agree_runs [OF assms] runs_kept retry_kept intro!: agree_rules split: plan_body.split)

lemma create_agree:
  assumes "tenants_wf (w_tenants w)" and "\<forall>f. v \<noteq> Q_tenants f" and "\<forall>s. v \<noteq> Q_slug_check s"
  shows "agree h v w (fst (tenants_POST h body q w))"
proof -
  have "agree h v w (w\<lparr>w_cache := c, w_tenants := fst (createTenant (w_tenants w) input now)\<rparr>)" for c input now
    using assms(2,3) by (cases v) (simp_all add: created_kept [OF assms(1)])
  then show ?thesis unfolding tenants_POST_def
    by (auto intro!: agree_rules split: prod.split sum.split exn.split) (metis fst_conv)+
qed

section \<open>Cached answers\<close>

text \<open>Every key a mutation invalidates is a key of strings, so the documented matching settles what it marks stale.\<close>

lemmas key_defs = auditKeys_list_def authzModelKeys_all_def authzModelKeys_model_def dashboardKeys_overview_def driftKeys_all_def
  driftKeys_list_def driftKeys_finding_def RUNS_KEY_def idpKeys_all_def idpKeys_list_def specWriteKeys_def playgroundKeys_explain_def
  PLAYGROUND_KEY_def runKeys_list_def runKeys_detail_def relationsKeys_all_def relationsKeys_list_def rolesKeys_list_def specKeys_all_def
  specKeys_current_def specKeys_versions_def specKeys_plan_def tenantKeys_all_def tenantKeys_list_def tenantKeys_detail_def
  tenantKeys_slugCheck_def usersKeys_all_def usersKeys_list_def

lemma invalidated_text: "list_all text_key (invalidated m)"
  by (cases m) (simp_all add: text_key_def key_defs)

lemma marked_stale_iff:
  assumes "matches_prefixes matching"
  shows "marked_stale matching m v \<longleftrightarrow> list_ex (\<lambda>k. prefix k (cache_key v)) (invalidated m)"
  using assms invalidated_text [of m] by (auto simp: marked_stale_def matches_prefixes_def list_ex_iff list_all_iff)

lemma step_agree:
  assumes "matches_prefixes matching" and "rt \<in> set (mutation_routes m)" and "\<not> marked_stale matching m v" and "\<not> overlooked m v"
    and "tenants_wf (w_tenants w)"
  shows "agree h v w (fst (handle h w (rt, q)))"
proof -
  have s: "\<not> list_ex (\<lambda>k. prefix k (cache_key v)) (invalidated m)" using assms(3) by (simp add: marked_stale_iff [OF assms(1)])
  have spec: "v \<noteq> Q_spec slug \<and> v \<noteq> Q_versions slug \<and> (\<forall>d. v \<noteq> Q_plan slug d) \<and> (\<forall>f s. v \<noteq> Q_runs f s)"
    if "m = Do_save_spec slug body \<or> m = Do_restore slug gen" for slug body gen
    using that s assms(4) by (auto simp: key_defs overlooked_def Let_def)
  show ?thesis
  proof (cases m)
    case (Do_save_spec slug body)
    then show ?thesis using assms(2) spec [of slug body] by (simp add: handle_def spec_routes_agree)
  next
    case (Do_restore slug gen)
    then show ?thesis using assms(2) spec [of slug _ gen] by (simp add: handle_def spec_routes_agree)
  next
    case (Do_create_tenant input)
    then show ?thesis using assms(2,5) s by (auto simp: handle_def key_defs intro!: create_agree)
  qed (use assms(2,4) s in \<open>auto simp: handle_def key_defs overlooked_def Let_def
        intro!: run_agree validate_agree model_agree idp_agree people_agree drift_agree relations_agree static_agree\<close>)
qed

lemma answer_current:
  assumes "matches_prefixes matching" and "\<not> marked_stale matching m v" and "\<not> overlooked m v" and "dry_run v q"
    and "set (map fst sent) \<subseteq> set (mutation_routes m)" and "clocks_ok sent" and "console_ok w" and "key_ok h w"
    and "snd (handle h w (query_route v, q)) = Json n p"
  shows "snd (handle h (console_run h w sent) (query_route v, q)) = Json n p"
  using assms(5-9)
proof (induction sent arbitrary: w)
  case Nil
  then show ?case by (simp add: console_run_def)
next
  case (Cons x sent)
  obtain rt i where x: "x = (rt, i)" by fastforce
  let ?w = "fst (handle h w x)"
  have ok: "console_ok ?w" using Cons.prems by (intro console_step_ok [OF handle_step]) (simp_all add: clocks_ok_def)
  have key: "key_ok h ?w" using Cons.prems by (simp add: handle_key_ok)
  have "agree h v w ?w" unfolding x using Cons.prems x by (intro step_agree [OF assms(1) _ assms(2,3)]) (simp_all add: console_ok_def)
  then have "snd (handle h ?w (query_route v, q)) = Json n p"
    using agree_answer Cons.prems(3,4,5) ok key assms(4) by blast
  then show ?case using Cons.IH [of ?w] Cons.prems ok key by (simp add: console_run_def clocks_ok_def)
qed

text \<open>What the cache holds under a key after a success.\<close>

lemma invalidate_fold:
  "fold (invalidateQueries matching) ks C key =
     map_option (\<lambda>e. e\<lparr>cd_invalidated := (cd_invalidated e \<or> list_ex (\<lambda>k. matching k key) ks)\<rparr>) (C key)"
proof (induction ks arbitrary: C)
  case Nil
  then show ?case by (cases "C key") simp_all
next
  case (Cons k ks)
  then show ?case by (cases "C key") (simp_all add: invalidateQueries_def)
qed

lemma written_frame: "key \<notin> fst ` set ws \<Longrightarrow> fold (\<lambda>(key, a). setQueryData key a) ws C key = C key"
  by (induction ws arbitrary: C) (auto simp: setQueryData_def)

lemma on_success_kept:
  assumes "on_success matching m answers C (cache_key v) = Some e" and "\<not> cd_invalidated e" and "cache_key v \<notin> fst ` set (written m answers)"
  shows "\<not> marked_stale matching m v" and "C (cache_key v) = Some e"
  using assms by (auto simp: on_success_def invalidate_fold written_frame marked_stale_def)

lemma send_all_run: "\<exists>k. fst (send_all h w xs) = console_run h w (map (\<lambda>(rt, q, b). (rt, q)) (take k xs))"
proof (induction xs arbitrary: w)
  case Nil
  then show ?case by (simp add: console_run_def)
next
  case (Cons x xs)
  obtain rt q b where x: "x = (rt, q, b)" by (cases x) blast
  obtain w' r where h: "handle h w (rt, q) = (w', r)" by fastforce
  obtain k where k: "fst (send_all h w' xs) = console_run h w' (map (\<lambda>(rt, q, b). (rt, q)) (take k xs))" using Cons.IH by blast
  have one: "console_run h w (map (\<lambda>(rt, q, b). (rt, q)) (take (Suc 0) (x # xs))) = w'" by (simp add: x h console_run_def)
  have more: "console_run h w (map (\<lambda>(rt, q, b). (rt, q)) (take (Suc k) (x # xs))) = fst (send_all h w' xs)"
    by (simp add: x h k) (simp add: console_run_def h)
  show ?case
  proof (cases "\<exists>n p. r = Json n p \<and> b \<and> 200 \<le> n \<and> n < 300")
    case True
    then have "fst (send_all h w (x # xs)) = fst (send_all h w' xs)" by (auto simp: x h split: prod.split)
    with more show ?thesis by metis
  next
    case False
    then have "fst (send_all h w (x # xs)) = w'" by (auto simp: x h split: reply.split)
    with one show ?thesis by metis
  qed
qed

lemma sent_ok:
  assumes "list_all (\<lambda>(q, b). clock_ok (in_now q)) qs"
  shows "clocks_ok (map (\<lambda>(rt, q, b). (rt, q)) (take k (zip rts qs)))"
    and "set (map fst (map (\<lambda>(rt, q, b). (rt, q)) (take k (zip rts qs)))) \<subseteq> set rts"
proof -
  have z: "rt \<in> set rts \<and> clock_ok (in_now q)" if "(rt, q, b) \<in> set (take k (zip rts qs))" for rt q b
    using in_set_takeD [OF that] assms by (fastforce simp: list_all_iff dest: set_zip_leftD set_zip_rightD)
  then show "clocks_ok (map (\<lambda>(rt, q, b). (rt, q)) (take k (zip rts qs)))"
    by (fastforce simp: clocks_ok_def list_all_iff)
  show "set (map fst (map (\<lambda>(rt, q, b). (rt, q)) (take k (zip rts qs)))) \<subseteq> set rts" using z by fastforce
qed

text \<open>The two mutations that write into the cache.\<close>

lemma explain_key_of: "cache_key v = playgroundKeys_explain q \<Longrightarrow> v = Q_explain q"
  by (cases v; cases q) (auto simp: key_defs consistency_str_def Let_def split: Consistency.splits)

lemma detail_key_of: "cache_key v = tenantKeys_detail slug \<Longrightarrow> v = Q_tenant slug"
  by (cases v) (auto simp: key_defs Let_def)

lemma created_slug:
  assumes "handle h w (Tenants_create (Some (Some input)), q) = (w', Json n (J_created s))"
  shows "ts_slug s = ci_slug input"
proof -
  from assms obtain data T' c r where d: "CreateTenantInputSchema_parse input = Inr data" "createTenant (w_tenants w) data (in_now q) = (T', r)"
      and res: "(case r of Inl (SlugTakenError slug) \<Rightarrow> (w\<lparr>w_cache := c, w_tenants := T'\<rparr>, slug_taken slug)
        | r \<Rightarrow> (w\<lparr>w_cache := c, w_tenants := T'\<rparr>, answer 201 J_created r)) = (w', Json n (J_created s))"
    by (auto simp: handle_def tenants_POST_def guarded_def with_body_def parseBody_def split: prod.splits sum.splits option.splits)
  then have "r = Inr s" by (auto simp: slug_taken_def answer_def split: sum.splits exn.splits)
  with d(2) obtain input' where "CreateTenantInputSchema_parse data = Inr input'" "s = created_summary input' (in_now q)"
    by (auto elim: createTenant_Inr)
  with parse_slug [OF d(1)] parse_slug show ?thesis by (simp add: created_summary_def)
qed

lemma written_cases:
  assumes "cache_key v \<in> fst ` set (written m answers)" and "send_all h w (zip (mutation_routes m) qs) = (w', Some answers)"
    and "length qs = length (mutation_routes m)"
  shows "overlooked m v \<or> (\<exists>q i n p. m = Do_check q \<and> v = Q_explain q \<and> answers = [(i, p)] \<and> handle h w (query_route v, i) = (w', Json n p))"
proof (cases m)
  case (Do_check q)
  obtain i b where qs: "qs = [(i, b)]" using assms(3) Do_check by (cases qs) auto
  obtain n p where p: "handle h w (query_route (Q_explain q), i) = (w', Json n p)" "answers = [(i, p)]"
    using assms(2) by (auto simp: Do_check qs split: prod.splits reply.splits if_splits)
  have "v = Q_explain q" using assms(1) p(2) by (intro explain_key_of) (simp add: Do_check written_def mutation_hook_defs)
  with p Do_check show ?thesis by blast
next
  case (Do_create_tenant input)
  obtain i b where qs: "qs = [(i, b)]" using assms(3) Do_create_tenant by (cases qs) auto
  obtain n p where p: "handle h w (Tenants_create (Some (Some input)), i) = (w', Json n p)" "answers = [(i, p)]"
    using assms(2) by (auto simp: Do_create_tenant qs split: prod.splits reply.splits if_splits)
  obtain s where s: "p = J_created s" "cache_key v = tenantKeys_detail (ts_slug s)"
    using assms(1) p(2) by (auto simp: Do_create_tenant written_def mutation_hook_defs split: payload.splits)
  have "v = Q_tenant (ts_slug s)" by (rule detail_key_of [OF s(2)])
  then show ?thesis using created_slug [OF p(1) [unfolded s(1)]] Do_create_tenant by (simp add: overlooked_def)
qed (use assms(1) in \<open>simp_all add: written_def mutation_hook_defs no_data_def\<close>)

lemma mutate_current:
  assumes m: "matches_prefixes matching" and w: "console_ok w" "key_ok h w"
    and qs: "length qs = length (mutation_routes m)" "list_all (\<lambda>(q, b). clock_ok (in_now q)) qs"
    and before: "current h w v C" and over: "\<not> overlooked m v"
    and mut: "mutate matching h m qs (w, C) = (w', C', ok)" and settled: "ok \<or> \<not> marked_stale matching m v"
  shows "current h w' v C'"
proof -
  obtain res where send: "send_all h w (zip (mutation_routes m) qs) = (w', res)"
    using mut by (auto simp: mutate_def split: prod.splits option.splits)
  obtain k where k: "w' = console_run h w (map (\<lambda>(rt, q, b). (rt, q)) (take k (zip (mutation_routes m) qs)))"
    using send_all_run [of h w "zip (mutation_routes m) qs"] by (auto simp: send)
  have kept: "snd (handle h w' (query_route v, q)) = Json n p"
    if "\<not> marked_stale matching m v" "dry_run v q" "snd (handle h w (query_route v, q)) = Json n p" for q n p
    unfolding k by (rule answer_current [OF m that(1) over that(2) sent_ok(2,1) [OF qs(2)] w that(3)])
  show ?thesis
  proof (cases res)
    case None
    then have "C' = C" "\<not> ok" using mut send by (simp_all add: mutate_def)
    then show ?thesis using before kept settled by (fastforce simp: current_def)
  next
    case (Some answers)
    then have C': "C' = on_success matching m answers C" using mut send by (simp add: mutate_def)
    show ?thesis unfolding current_def
    proof (intro allI impI)
      fix e
      assume e: "C' (cache_key v) = Some e"
      show "cd_invalidated e \<or> (\<forall>(q, p) \<in> set (cd_pages e). dry_run v q \<and> (\<exists>n. snd (handle h w' (query_route v, q)) = Json n p))"
      proof (cases "cd_invalidated e \<or> cache_key v \<notin> fst ` set (written m answers)")
        case True
        then show ?thesis using on_success_kept [OF e [unfolded C']] before kept by (fastforce simp: current_def)
      next
        case False
        then obtain q i n p where c: "m = Do_check q" "v = Q_explain q" "answers = [(i, p)]" "handle h w (query_route v, i) = (w', Json n p)"
          using written_cases [OF _ send [unfolded Some] qs(1), of v] over by blast
        have "cd_pages e = [(i, p)]"
          using e c(1-3) by (auto simp: C' on_success_def invalidate_fold written_def mutation_hook_defs setQueryData_def)
        moreover have "snd (handle h w' (query_route v, i)) = Json n p"
          using c(1,2,4) by (intro kept) (simp_all add: marked_stale_def dry_run_def)
        ultimately show ?thesis using c(2) by (auto simp: dry_run_def)
      qed
    qed
  qed
qed

text \<open>
  The third exception. The summary the create answered with is written under the detail's key, and is not what the detail route
  ever answers: until the entry is fetched, the detail's query has data without the detail's fields.
\<close>

lemma created_summary_cached:
  assumes "mutate matching h (Do_create_tenant input) [(q, True)] (w, C) = (w', C', True)" and "\<not> matching tenantKeys_all (tenantKeys_detail (ci_slug input))"
    and "handle h w (Tenants_create (Some (Some input)), q) = (w', Json n (J_created s))"
  shows "C' (cache_key (Q_tenant (ci_slug input))) = Some \<lparr>cd_pages = [(q, J_created s)], cd_invalidated = False\<rparr>"
    and "snd (handle h w' (query_route (Q_tenant (ci_slug input)), q')) \<noteq> Json k (J_created s)"
proof -
  have "send_all h w (zip (mutation_routes (Do_create_tenant input)) [(q, True)]) \<noteq> (w', None)"
    using assms(1) by (auto simp: mutate_def split: prod.splits option.splits)
  then have "send_all h w (zip (mutation_routes (Do_create_tenant input)) [(q, True)]) = (w', Some [(q, J_created s)])"
    using assms(3) by (auto split: if_splits)
  then show "C' (cache_key (Q_tenant (ci_slug input))) = Some \<lparr>cd_pages = [(q, J_created s)], cd_invalidated = False\<rparr>"
    using assms(1,2) created_slug [OF assms(3)]
    by (auto simp: mutate_def on_success_def invalidateQueries_def written_def mutation_hook_defs setQueryData_def)
  show "snd (handle h w' (query_route (Q_tenant (ci_slug input)), q')) \<noteq> Json k (J_created s)"
    by (auto simp: handle_def tenant_GET_def guarded_def answer_or_found split: prod.split sum.split)
qed

text \<open>
  Two overlooked answers. An accepted save raises the generation the plan of the current spec is for, and the plan's key is not
  among those it invalidates; a probe is recorded on the connection, and a test of a connection invalidates nothing.
\<close>

lemma plan_not_marked:
  assumes "matches_prefixes matching"
  shows "\<not> marked_stale matching (Do_save_spec slug body) (Q_plan s d)" and "\<not> marked_stale matching (Do_restore slug gen) (Q_plan s d)"
  by (simp_all add: marked_stale_iff [OF assms] key_defs)

lemma plan_outdated:
  assumes "save_answer T w (slug, key) = None"
    and "saveSpec parse_url T w slug body m key author now draws sm = (w', Some (Inr (Inr d)))"
    and "snd (planSpec T (fst w) slug None t) = Inr (Some old)" and "snd (planSpec T (fst w') slug None t') = Inr (Some new)"
  shows "pl_generation new = Suc (pl_generation old)"
proof -
  obtain st st' v where a: "specs.view T (fst w) slug = Some st" "specs.view T (fst w') = (specs.view T (fst w))(slug \<mapsto> st')"
      "m = Some (Some (int (ss_currentGeneration st)))" "vo_valid (validateSpecBody parse_url body (map_option sv_body (applied_version st)))"
      "history st' = history st @ [v]" "sv_body v = body" "sv_author v = author" "sv_generation v = ss_currentGeneration st + 1"
      "sr_generation d = ss_currentGeneration st + 1" "ss_currentGeneration st' = ss_currentGeneration st + 1"
    using accepted_save [OF assms(1,2)] .
  have pl: "pl_generation pl = ss_currentGeneration s" if sv: "specs.view T S slug = Some s" and sp: "snd (planSpec T S slug None t) = Inr (Some pl)" for S s t pl
  proof -
    obtain S' where "stateFor_spec T S slug = (S', Inr (Some s))" using stateFor_view [OF sv] by blast
    with sp show ?thesis by (auto simp: planSpec_def planFixture_def Let_def parse_with_def split: option.splits if_splits)
  qed
  have "specs.view T (fst w') slug = Some st'" by (simp add: a(2))
  from pl [OF a(1) assms(3)] pl [OF this assms(4)] a(10) show ?thesis by simp
qed

lemma probe_not_marked: "\<not> marked_stale matching (Do_test_idp slug i issuer kind) v"
  by (simp add: marked_stale_def)

lemma probe_branch:
  assumes "(case acquired of
        (S1, Inl e) \<Rightarrow> (S1, Inl e)
      | (S1, Inr None) \<Rightarrow> (S1, Inr (Inl missing))
      | (S1, Inr (Some items)) \<Rightarrow>
          (case found items of
             None \<Rightarrow> (S1, Inr (Inl unknown))
           | Some idp \<Rightarrow> (case probe of Inl e \<Rightarrow> (S1, Inl e) | Inr res \<Rightarrow> (record_probe S1 res items, Inr (Inr res))))) = (S', Inr (Inr r))"
  shows "\<exists>S1 items. acquired = (S1, Inr (Some items)) \<and> S' = record_probe S1 r items"
  using assms by (auto split: prod.splits sum.splits option.splits)

definition probed :: "string \<Rightarrow> ProbeResult \<Rightarrow> IdentityProvider \<Rightarrow> IdentityProvider" where
  "probed i res p = (if ip_id p = i then p\<lparr>ip_lastProbe := Some res\<rparr> else p)"

lemma probed_lastProbe: "ip_id (probed i res p) = i \<Longrightarrow> ip_lastProbe (probed i res p) = Some res"
  unfolding probed_def by (cases "ip_id p = i") simp_all

lemma probe_recorded:
  assumes "testIdentityProvider u T S slug i issuer kind = (S', Inr (Inr res))"
  shows "\<exists>items. idps.view u T S' slug = Some items \<and> (\<forall>p \<in> set items. ip_id p = i \<longrightarrow> ip_lastProbe p = Some res)"
proof -
  obtain S1 items where "S' = map_set S1 slug (map (probed i res) items)"
    using probe_branch [OF assms [unfolded testIdentityProvider_def, folded probed_def]] by (elim exE conjE)
  then have "idps.view u T S' slug = Some (map (probed i res) items)"
    by (simp only: idps.view_def map_get_set if_True simp_thms option.case)
  then show ?thesis using probed_lastProbe by auto
qed

text \<open>
  A reconcile and a retry also invalidate \<^verbatim>\<open>["drift", slug]\<close>. No drift list has that key, and a finding only
  for a tenant called finding; the dashboard and other tenants' data are left alone as they should.
\<close>

lemma drift_slug_key_marks_no_list:
  assumes "matches_prefixes matching"
  shows "\<not> marked_stale matching (Do_reconcile slug) (Q_drift f s)" and "\<not> marked_stale matching (Do_retry i slug) (Q_drift f s)"
    and "marked_stale matching (Do_reconcile slug) (Q_finding j) \<longleftrightarrow> slug = ''finding''"
  by (simp_all add: marked_stale_iff [OF assms] key_defs)

section \<open>A console on which the guard passes\<close>

definition demo_console :: host where
  "demo_console = \<lparr>h_platform = demo, h_env = dev_env, h_spec_url = (\<lambda>_. None), h_idp_url = (\<lambda>_. None), h_compare = (\<lambda>_ _. 0),
     h_number = (\<lambda>_. None), h_issue = id, h_is_email = (\<lambda>_. True)\<rparr>"

definition demo_post :: incoming where
  "demo_post = \<lparr>in_request = demo_request, in_params = [(''consistency'', ''strong'')], in_message = [], in_now = 2000000, in_draws = [],
     in_uuid = (\<lambda>_. 0), in_elapsed = 0\<rparr>"

lemma demo_console_passes:
  assumes "w_cache w \<in> {None, demo_cache}"
  shows "guardRoute (h_platform demo_console) (h_env demo_console) (w_cache w) (in_request demo_post) (int (in_now demo_post div 1000))
    = (demo_cache, Inr (demo_session, Some ''key-1''))"
  using demo_passes [OF assms, of "''POST''"] by (simp add: demo_console_def demo_post_def demo_request_def)

end
