(* ===== verification/Playground_Screen.thy ===== *)
theory Playground_Screen
  imports Query_Cache Console_Behaviour
begin

text \<open>
  The permission playground in the browser (\<^verbatim>\<open>features/playground/components\<close>): the question being typed, single checks
  and batches, the recent queries and the answer on screen, as a state machine over the operator's actions and the server's
  answers. Answers may come in any order and be lost. Shown: the verdict on screen is the server's answer to the
  query it is filed under, and means what the resolver's answers mean; what a check sends; what the recent list holds.
\<close>

section \<open>What is on screen\<close>

text \<open>The header line, the decision card, the statistics and the tree.\<close>

definition check_meta :: "nat \<Rightarrow> bool \<Rightarrow> nat \<Rightarrow> string \<Rightarrow> string" where
  "check_meta durationMs cached modelVersion checkedAt =
     show_nat durationMs @ ''ms '' @ mid_dot @ '' cache '' @ (if cached then ''hit'' else ''miss'') @ '' '' @ mid_dot @ '' model v''
       @ show_nat modelVersion @ '' '' @ mid_dot @ '' checkedAt '' @ checkedAtLabel checkedAt"

definition explain_meta :: "ExplainResponse \<Rightarrow> string" where
  "explain_meta r = check_meta (er_durationMs r) (er_cached r) (er_modelVersion r) (er_checkedAt r)"

definition batch_meta :: "BatchCheckResponse \<Rightarrow> string" where
  "batch_meta b = check_meta (sum_list (map br_durationMs (bc_results b))) (bc_consistency b \<noteq> Strong) (bc_modelVersion b) (bc_checkedAt b)"

definition shortTupleId :: "string \<Rightarrow> string" where
  "shortTupleId i = (if length i \<le> 8 then i else take 4 i @ ellipsis @ drop (length i - 2) i)"

definition auditEventHref :: "string \<Rightarrow> string \<Rightarrow> string" where
  "auditEventHref slug eventId = ''/tenants/'' @ slug @ ''/audit-events?event='' @ encodeURIComponent eventId"

datatype decision_card = Denied_card string | Allowed_card string string string string string

definition DecisiveTupleCard :: "string \<Rightarrow> ExplainResponse \<Rightarrow> decision_card" where
  "DecisiveTupleCard slug r =
     (case er_decisive r of
        None \<Rightarrow> Denied_card (er_reason r)
      | Some d \<Rightarrow>
          if \<not> er_allowed r then Denied_card (er_reason r)
          else Allowed_card (er_reason r) (shortTupleId (dt_tupleId d)) (dt_writtenBy d) (dt_writtenAt d) (auditEventHref slug (dt_auditEventId d)))"

text \<open>The four tiles, each a label and its text.\<close>

definition explain_tiles :: "ExplainResponse \<Rightarrow> (string \<times> string) list" where
  "explain_tiles r =
     (let s = er_stats r
      in [(''Nodes evaluated'', show_nat (es_nodesEvaluated s)),
          (''Max depth'', show_nat (es_maxDepth s) @ '' / '' @ show_nat (es_depthCap s) @ '' cap''),
          (''FGA calls'', show_nat (es_fgaCalls s)), (''Cache'', if er_cached r then ''hit'' else ''bypassed'')])"

definition batch_counts :: "BatchCheckResponse \<Rightarrow> string" where
  "batch_counts b =
     (let allowed = length (filter br_allowed (bc_results b))
      in show_nat allowed @ '' allowed '' @ mid_dot @ '' '' @ show_int (int (length (bc_results b)) - int allowed) @ '' denied '' @ mid_dot
         @ '' model v'' @ show_nat (bc_modelVersion b))"

datatype pill = Union_pill | Direct_pill | Computed_pill | TupleToUserset_pill | Decisive_pill

definition pillFor :: "ExplainNode \<Rightarrow> pill" where
  "pillFor n =
     (if en_via n = Direct \<and> en_result n = Allowed \<and> en_provenance n \<noteq> None then Decisive_pill
      else case en_via n of Union \<Rightarrow> Union_pill | Direct \<Rightarrow> Direct_pill | Computed \<Rightarrow> Computed_pill | TupleToUserset_via \<Rightarrow> TupleToUserset_pill)"

fun PILL :: "pill \<Rightarrow> string" where
  "PILL Union_pill = ''union''"
| "PILL Direct_pill = ''direct''"
| "PILL Computed_pill = ''computed''"
| "PILL TupleToUserset_pill = ''tupleToUserset''"
| "PILL Decisive_pill = ''decisive tuple''"

definition rowClasses :: "ExplainNode \<Rightarrow> Tone" where
  "rowClasses n = (if en_result n = Denied then Failed_tone else if pillFor n = Decisive_pill then Ready_tone else Neutral)"

text \<open>
  The rows of the tree with their levels and paths. The rows under a collapsed branch are not there; each row keeps for
  itself whether it is expanded, and forgets it when it goes.
\<close>

record TreeView =
  tv_collapsed :: "string list"
  tv_selected :: string

record TreeRow =
  tw_level :: nat
  tw_path :: string
  tw_label :: string
  tw_allowed :: bool
  tw_truncated :: bool
  tw_pill :: string
  tw_tone :: Tone
  tw_expanded :: "bool option"
  tw_selected :: bool

definition branch :: "ExplainNode \<Rightarrow> bool" where
  "branch n \<longleftrightarrow> (case en_children n of Some (_ # _) \<Rightarrow> True | _ \<Rightarrow> False)"

definition tree_row :: "TreeView \<Rightarrow> nat \<Rightarrow> string \<Rightarrow> ExplainNode \<Rightarrow> TreeRow" where
  "tree_row tv depth path n =
     \<lparr>tw_level = depth, tw_path = path, tw_label = en_node n, tw_allowed = (en_result n = Allowed), tw_truncated = en_truncated n,
      tw_pill = PILL (pillFor n), tw_tone = rowClasses n, tw_expanded = (if branch n then Some (path \<notin> set (tv_collapsed tv)) else None),
      tw_selected = (tv_selected tv = path)\<rparr>"

primrec tree_rows :: "ExplainNode \<Rightarrow> TreeView \<Rightarrow> nat \<Rightarrow> string \<Rightarrow> TreeRow list" where
  "tree_rows (Node l r v p tr cs) =
     (\<lambda>tv depth path. tree_row tv depth path (Node l r v p tr cs) #
        (case map_option (map tree_rows) cs of
           None \<Rightarrow> []
         | Some children \<Rightarrow>
             if path \<in> set (tv_collapsed tv) then []
             else concat (map (\<lambda>(i, rows). rows tv (depth + 1) (path @ ''.'' @ show_nat i)) (enumerate (0 :: nat) children))))"

definition collapse_row :: "string \<Rightarrow> TreeView \<Rightarrow> TreeView" where
  "collapse_row path tv = tv\<lparr>tv_collapsed := path # filter (\<lambda>p. p \<noteq> path \<and> \<not> startsWith p (path @ ''.'')) (tv_collapsed tv)\<rparr>"

definition expand_row :: "string \<Rightarrow> TreeView \<Rightarrow> TreeView" where
  "expand_row path tv = tv\<lparr>tv_collapsed := removeAll path (tv_collapsed tv)\<rparr>"

definition toggle_row :: "ExplainNode \<Rightarrow> string \<Rightarrow> TreeView \<Rightarrow> TreeView" where
  "toggle_row n path tv =
     (let tv = tv\<lparr>tv_selected := path\<rparr>
      in if \<not> branch n then tv else if path \<in> set (tv_collapsed tv) then expand_row path tv else collapse_row path tv)"

text \<open>A key pressed on a row.\<close>

definition tree_key :: "string \<Rightarrow> ExplainNode \<Rightarrow> string \<Rightarrow> TreeView \<Rightarrow> TreeView" where
  "tree_key key n path tv =
     (if key \<in> {''Enter'', '' ''} then toggle_row n path tv
      else if key = ''ArrowRight'' \<and> branch n then expand_row path tv
      else if key = ''ArrowLeft'' \<and> branch n then collapse_row path tv
      else tv)"

definition ResolutionTree :: "ExplainNode \<Rightarrow> TreeView \<Rightarrow> TreeRow list" where
  "ResolutionTree root tv = tree_rows root tv 1 ''0''"

definition tree_start :: TreeView where
  "tree_start = \<lparr>tv_collapsed = [], tv_selected = ''0''\<rparr>"

lemma toggle_flips:
  assumes "branch n"
  shows "path \<in> set (tv_collapsed (toggle_row n path tv)) \<longleftrightarrow> path \<notin> set (tv_collapsed tv)"
  using assms by (simp add: toggle_row_def expand_row_def collapse_row_def Let_def)

text \<open>A branch that is closed and opened again shows all its descendants.\<close>

lemma reopened_is_expanded:
  assumes "branch n" and "path \<notin> set (tv_collapsed tv)" and "startsWith p (path @ ''.'')"
  shows "p \<notin> set (tv_collapsed (toggle_row n path (toggle_row n path tv)))"
proof -
  have "p \<noteq> path" using assms(3) by (auto simp: startsWith_def)
  then show ?thesis using assms by (auto simp: toggle_row_def expand_row_def collapse_row_def Let_def)
qed

section \<open>The form\<close>

record QueryDraft =
  qd_slug :: string
  qd_user :: string
  qd_relation :: string
  qd_object :: string

record QueryOptions =
  qo_strong :: bool
  qo_provenance :: bool
  qo_batch :: bool

record RecentQuery = QueryDraft +
  rq_id :: string
  rq_allowed :: bool

text \<open>Picking a tenant keeps the relation if the tenant's model has it and takes its first one otherwise.\<close>

definition pick_tenant :: "PlaygroundTenant list \<Rightarrow> string \<Rightarrow> QueryDraft \<Rightarrow> QueryDraft" where
  "pick_tenant tenants slug d =
     (let relation = (case List.find (\<lambda>t. pt_slug t = slug) tenants of
          None \<Rightarrow> qd_relation d
        | Some t \<Rightarrow> if qd_relation d \<notin> set (pt_relations t) then (case pt_relations t of r # _ \<Rightarrow> r | [] \<Rightarrow> qd_relation d) else qd_relation d)
      in d\<lparr>qd_slug := slug, qd_relation := relation\<rparr>)"

definition form_relations :: "PlaygroundTenant list \<Rightarrow> QueryDraft \<Rightarrow> string list" where
  "form_relations tenants d =
     (case (case List.find (\<lambda>t. pt_slug t = qd_slug d) tenants of Some t \<Rightarrow> Some t | None \<Rightarrow> (case tenants of t # _ \<Rightarrow> Some t | [] \<Rightarrow> None)) of
        Some t \<Rightarrow> pt_relations t | None \<Rightarrow> [])"

definition submit_label :: "QueryOptions \<Rightarrow> string" where
  "submit_label opts = (if qo_batch opts then ''Check batch'' else ''Check & explain'')"

text \<open>The recent list, each row with its title, its text and its verdict; a line of text when there is none.\<close>

definition recent_list :: "RecentQuery list \<Rightarrow> string + (string \<times> string \<times> string) list" where
  "recent_list recent =
     (if recent = [] then Inl ''nothing asked yet this session''
      else Inr (map (\<lambda>r. (''re-run in '' @ qd_slug r, qd_user r @ '' '' @ qd_relation r @ '' '' @ qd_object r,
             if rq_allowed r then ''allowed'' else ''denied'')) recent))"

section \<open>The screen\<close>

definition check_problem :: "BffError + string \<Rightarrow> string \<times> string option" where
  "check_problem e =
     (case e of
        Inl b \<Rightarrow> (show_nat (be_status b) @ '' '' @ mid_dot @ '' '' @ be_title b, be_detail b)
      | Inr message \<Rightarrow> (''Check failed'', Some message))"

definition RECENT_LIMIT :: nat where
  "RECENT_LIMIT = 6"

text \<open>
  Beside the view's state, the answers the query cache holds under the playground's keys, the last error of a fetch under each,
  the checks and batches under way, each with its number (a recent query can be re-run while a check is under way), and the numbers
  of those the two mutations follow.
\<close>

type_synonym batch_input = "string \<times> CheckTuple list \<times> Consistency"

record PlaygroundView =
  pv_draft :: QueryDraft
  pv_options :: QueryOptions
  pv_batchText :: string
  pv_batchError :: "string option"
  pv_recent :: "RecentQuery list"
  pv_submitted :: SubmittedQuery
  pv_showRaw :: bool
  pv_batchResult :: "BatchCheckResponse option"
  pv_draftError :: "string option"
  pv_data :: "query_key \<Rightarrow> ExplainResponse option"
  pv_failed :: "query_key \<Rightarrow> (BffError + string) option"
  pv_fetching :: "SubmittedQuery list"
  pv_asking :: "(nat \<times> SubmittedQuery) list"
  pv_asked :: nat
  pv_follows :: "nat option"
  pv_explain :: "SubmittedQuery mutation"
  pv_batching :: "(nat \<times> batch_input) list"
  pv_batch_follows :: "nat option"
  pv_batch :: "batch_input mutation"

definition playground_start :: "SubmittedQuery \<Rightarrow> ExplainResponse option \<Rightarrow> PlaygroundView" where
  "playground_start q initial =
     \<lparr>pv_draft = \<lparr>qd_slug = sq_slug q, qd_user = sq_user q, qd_relation = sq_relation q, qd_object = sq_object q\<rparr>,
      pv_options = \<lparr>qo_strong = (sq_consistency q = Strong), qo_provenance = sq_includeProvenance q, qo_batch = False\<rparr>,
      pv_batchText = [], pv_batchError = None, pv_recent = [], pv_submitted = q, pv_showRaw = False, pv_batchResult = None, pv_draftError = None,
      pv_data = (\<lambda>_. None)(playgroundKeys_explain q := initial), pv_failed = (\<lambda>_. None), pv_fetching = [], pv_asking = [], pv_asked = 0,
      pv_follows = None, pv_explain = M_idle, pv_batching = [], pv_batch_follows = None, pv_batch = M_idle\<rparr>"

definition shown_result :: "PlaygroundView \<Rightarrow> ExplainResponse option" where
  "shown_result v = pv_data v (playgroundKeys_explain (pv_submitted v))"

definition showingBatch :: "PlaygroundView \<Rightarrow> bool" where
  "showingBatch v \<longleftrightarrow> qo_batch (pv_options v) \<and> pv_batchResult v \<noteq> None"

definition check_pending :: "PlaygroundView \<Rightarrow> bool" where
  "check_pending v \<longleftrightarrow> isPending (pv_explain v) \<or> isPending (pv_batch v) \<or> pv_submitted v \<in> set (pv_fetching v)"

definition mutation_error :: "'v mutation \<Rightarrow> (BffError + string) option" where
  "mutation_error m = (case m of M_error e \<Rightarrow> Some e | _ \<Rightarrow> None)"

text \<open>\<^verbatim>\<open>explainMutation.error ?? batchMutation.error ?? explainQuery.error\<close>.\<close>

definition check_error :: "PlaygroundView \<Rightarrow> (BffError + string) option" where
  "check_error v =
     (case mutation_error (pv_explain v) of Some e \<Rightarrow> Some e | None \<Rightarrow>
      (case mutation_error (pv_batch v) of Some e \<Rightarrow> Some e | None \<Rightarrow> pv_failed v (playgroundKeys_explain (pv_submitted v))))"

text \<open>The verdict chip of the header, with the line beside it, in the three cases of the code.\<close>

definition check_header :: "PlaygroundView \<Rightarrow> string \<times> string" where
  "check_header v =
     (if showingBatch v then
        (let b = the (pv_batchResult v) in (''BATCH '' @ mid_dot @ '' '' @ show_nat (length (bc_results b)), batch_meta b))
      else case shown_result v of
        Some r \<Rightarrow> (if er_allowed r then ''ALLOWED'' else ''DENIED'', explain_meta r)
      | None \<Rightarrow> ([], if check_pending v then ''checking'' @ ellipsis else ''no result yet''))"

text \<open>
  What the raw panel renders: \<^verbatim>\<open>JSON.stringify(showingBatch ? batchResult : result).split(...)\<close>. The text of a value that is not
  there is \<^verbatim>\<open>undefined\<close>, which has no \<^verbatim>\<open>split\<close>.
\<close>

datatype raw_value = Raw_batch BatchCheckResponse | Raw_explain ExplainResponse

definition raw_panel :: "PlaygroundView \<Rightarrow> raw_value option throws" where
  "raw_panel v =
     (if pv_showRaw v \<and> (shown_result v \<noteq> None \<or> pv_batchResult v \<noteq> None) then
        (if showingBatch v then Inr (map_option Raw_batch (pv_batchResult v))
         else case shown_result v of Some r \<Rightarrow> Inr (Some (Raw_explain r)) | None \<Rightarrow> Inl TypeError)
      else Inr None)"

definition same_question :: "RecentQuery \<Rightarrow> SubmittedQuery \<Rightarrow> bool" where
  "same_question r q \<longleftrightarrow> qd_slug r = sq_slug q \<and> qd_user r = sq_user q \<and> qd_relation r = sq_relation q \<and> qd_object r = sq_object q"

definition addRecent :: "128 word \<Rightarrow> SubmittedQuery \<Rightarrow> bool \<Rightarrow> RecentQuery list \<Rightarrow> RecentQuery list" where
  "addRecent u q allowed recent =
     take RECENT_LIMIT
       (\<lparr>qd_slug = sq_slug q, qd_user = sq_user q, qd_relation = sq_relation q, qd_object = sq_object q, rq_id = idempotencyKey u, rq_allowed = allowed\<rparr>
        # filter (\<lambda>r. \<not> same_question r q) recent)"

datatype playground_event =
    Draft_edited QueryDraft | Tenant_picked string | Options_set QueryOptions | Batch_typed string | Submit_clicked
  | Recent_clicked RecentQuery | Explain_answered nat SubmittedQuery "128 word" "(BffError + string) + ExplainResponse"
  | Batch_answered nat batch_input "(BffError + string) + BatchCheckResponse" | Fetch_started | Fetched SubmittedQuery "(BffError + string) + ExplainResponse"
  | Errors_dismissed | Raw_toggled

datatype playground_request = Post_explain SubmittedQuery | Post_batch string "CheckTuple list" Consistency

definition consistency_option :: "QueryOptions \<Rightarrow> Consistency" where
  "consistency_option opts = (if qo_strong opts then Strong else Eventual)"

text \<open>\<^verbatim>\<open>explainMutation.mutate(q)\<close>.\<close>

definition ask :: "SubmittedQuery \<Rightarrow> PlaygroundView \<Rightarrow> PlaygroundView \<times> playground_request option" where
  "ask q v =
     (v\<lparr>pv_asking := (pv_asked v, q) # pv_asking v, pv_asked := Suc (pv_asked v), pv_follows := Some (pv_asked v), pv_explain := M_pending q\<rparr>,
      Some (Post_explain q))"

text \<open>\<open>zod_line\<close> and \<open>zod_check\<close> are the texts the schema library gives for the first failing field.\<close>

definition submit_check ::
  "(string \<Rightarrow> string \<Rightarrow> string \<Rightarrow> string) \<Rightarrow> (string \<Rightarrow> string \<Rightarrow> string \<Rightarrow> string) \<Rightarrow> PlaygroundView \<Rightarrow> PlaygroundView \<times> playground_request option" where
  "submit_check zod_line zod_check v =
     (let d = pv_draft v; opts = pv_options v
      in if qo_batch opts then
           (case parseBatch zod_line (pv_batchText v) of
              Bad_line n message \<Rightarrow>
                (v\<lparr>pv_batchError := Some (if 0 < n then ''line '' @ show_nat n @ '': '' @ message else message)\<rparr>, None)
            | Checks checks \<Rightarrow>
                (let b = (qd_slug d, checks, consistency_option opts)
                 in (v\<lparr>pv_batchError := None, pv_batching := (pv_asked v, b) # pv_batching v, pv_asked := Suc (pv_asked v),
                       pv_batch_follows := Some (pv_asked v), pv_batch := M_pending b\<rparr>, Some (Post_batch (qd_slug d) checks (consistency_option opts)))))
         else case CheckTupleSchema_parse (qd_user d) (qd_relation d) (qd_object d) of
           None \<Rightarrow> (v\<lparr>pv_draftError := Some (zod_check (qd_user d) (qd_relation d) (qd_object d))\<rparr>, None)
         | Some c \<Rightarrow>
             ask \<lparr>sq_slug = qd_slug d, sq_user = ck_user c, sq_relation = ck_relation c, sq_object = ck_object c,
                  sq_consistency = consistency_option opts, sq_includeProvenance = qo_provenance opts\<rparr> (v\<lparr>pv_draftError := None\<rparr>))"

definition rerun_recent :: "RecentQuery \<Rightarrow> PlaygroundView \<Rightarrow> PlaygroundView \<times> playground_request option" where
  "rerun_recent r v =
     (let opts = pv_options v
      in ask \<lparr>sq_slug = qd_slug r, sq_user = qd_user r, sq_relation = qd_relation r, sq_object = qd_object r,
              sq_consistency = consistency_option opts, sq_includeProvenance = qo_provenance opts\<rparr>
           (v\<lparr>pv_draft := QueryDraft.truncate r, pv_options := opts\<lparr>qo_batch := False\<rparr>, pv_draftError := None\<rparr>))"

text \<open>The answer of check \<open>n\<close>; the mutation only follows its last call, but every success is handled.\<close>

definition explain_answered :: "nat \<Rightarrow> SubmittedQuery \<Rightarrow> 128 word \<Rightarrow> (BffError + string) + ExplainResponse \<Rightarrow> PlaygroundView \<Rightarrow> PlaygroundView" where
  "explain_answered n q u res v =
     (if (n, q) \<notin> set (pv_asking v) then v
      else (let v = v\<lparr>pv_asking := removeAll (n, q) (pv_asking v),
              pv_explain := (if pv_follows v = Some n then (case res of Inl e \<Rightarrow> M_error e | Inr _ \<Rightarrow> M_success) else pv_explain v)\<rparr>
            in case res of
                 Inl _ \<Rightarrow> v
               | Inr data \<Rightarrow>
                   v\<lparr>pv_data := (pv_data v)(playgroundKeys_explain q := Some data), pv_failed := (pv_failed v)(playgroundKeys_explain q := None),
                     pv_submitted := q, pv_batchResult := None, pv_recent := addRecent u q (er_allowed data) (pv_recent v)\<rparr>))"

definition batch_answered :: "nat \<Rightarrow> batch_input \<Rightarrow> (BffError + string) + BatchCheckResponse \<Rightarrow> PlaygroundView \<Rightarrow> PlaygroundView" where
  "batch_answered n b res v =
     (if (n, b) \<notin> set (pv_batching v) then v
      else (let v = v\<lparr>pv_batching := removeAll (n, b) (pv_batching v),
              pv_batch := (if pv_batch_follows v = Some n then (case res of Inl e \<Rightarrow> M_error e | Inr _ \<Rightarrow> M_success) else pv_batch v)\<rparr>
            in case res of Inl _ \<Rightarrow> v | Inr data \<Rightarrow> v\<lparr>pv_batchResult := Some data\<rparr>))"

text \<open>Retry on the notice of an error; the button of the raw panel.\<close>

definition dismiss_errors :: "PlaygroundView \<Rightarrow> PlaygroundView" where
  "dismiss_errors v =
     (if check_error v = None then v
      else v\<lparr>pv_follows := None, pv_explain := M_idle, pv_batch_follows := None, pv_batch := M_idle\<rparr>)"

definition toggle_raw :: "PlaygroundView \<Rightarrow> PlaygroundView" where
  "toggle_raw v = (if shown_result v = None \<and> pv_batchResult v = None then v else v\<lparr>pv_showRaw := \<not> pv_showRaw v\<rparr>)"

text \<open>A fetch of the query cache that comes back.\<close>

definition fetched :: "SubmittedQuery \<Rightarrow> (BffError + string) + ExplainResponse \<Rightarrow> PlaygroundView \<Rightarrow> PlaygroundView" where
  "fetched q res v =
     (if q \<notin> set (pv_fetching v) then v
      else (let v = v\<lparr>pv_fetching := remove1 q (pv_fetching v)\<rparr>
            in case res of
                 Inl e \<Rightarrow> v\<lparr>pv_failed := (pv_failed v)(playgroundKeys_explain q := Some e)\<rparr>
               | Inr data \<Rightarrow> v\<lparr>pv_data := (pv_data v)(playgroundKeys_explain q := Some data), pv_failed := (pv_failed v)(playgroundKeys_explain q := None)\<rparr>))"

fun playground_react ::
  "(string \<Rightarrow> string \<Rightarrow> string \<Rightarrow> string) \<Rightarrow> (string \<Rightarrow> string \<Rightarrow> string \<Rightarrow> string) \<Rightarrow> PlaygroundTenant list \<Rightarrow> PlaygroundView \<Rightarrow> playground_event
     \<Rightarrow> PlaygroundView \<times> playground_request option" where
  "playground_react zl zc tenants v (Draft_edited d) = (v\<lparr>pv_draft := d, pv_draftError := None\<rparr>, None)"
| "playground_react zl zc tenants v (Tenant_picked slug) = (v\<lparr>pv_draft := pick_tenant tenants slug (pv_draft v), pv_draftError := None\<rparr>, None)"
| "playground_react zl zc tenants v (Options_set opts) = (v\<lparr>pv_options := opts\<rparr>, None)"
| "playground_react zl zc tenants v (Batch_typed t) = (v\<lparr>pv_batchText := t, pv_batchError := None\<rparr>, None)"
| "playground_react zl zc tenants v Submit_clicked = (if check_pending v then (v, None) else submit_check zl zc v)"
| "playground_react zl zc tenants v (Recent_clicked r) = (if r \<in> set (pv_recent v) then rerun_recent r v else (v, None))"
| "playground_react zl zc tenants v (Explain_answered n q u res) = (explain_answered n q u res v, None)"
| "playground_react zl zc tenants v (Batch_answered n b res) = (batch_answered n b res v, None)"
| "playground_react zl zc tenants v Fetch_started = (v\<lparr>pv_fetching := pv_submitted v # pv_fetching v\<rparr>, Some (Post_explain (pv_submitted v)))"
| "playground_react zl zc tenants v (Fetched q res) = (fetched q res v, None)"
| "playground_react zl zc tenants v Errors_dismissed = (dismiss_errors v, None)"
| "playground_react zl zc tenants v Raw_toggled = (toggle_raw v, None)"

definition playground_do ::
  "(string \<Rightarrow> string \<Rightarrow> string \<Rightarrow> string) \<Rightarrow> (string \<Rightarrow> string \<Rightarrow> string \<Rightarrow> string) \<Rightarrow> PlaygroundTenant list \<Rightarrow> PlaygroundView \<Rightarrow> playground_event \<Rightarrow> PlaygroundView" where
  "playground_do zl zc tenants v x = fst (playground_react zl zc tenants v x)"

section \<open>What the server answers\<close>

definition check_of :: "SubmittedQuery \<Rightarrow> CheckTuple" where
  "check_of q = \<lparr>ck_user = sq_user q, ck_relation = sq_relation q, ck_object = sq_object q\<rparr>"

text \<open>The response, if there is one: not for an unknown tenant, and not where the resolver throws.\<close>

definition server_answer :: "SubmittedQuery \<Rightarrow> ExplainResponse option" where
  "server_answer q =
     (case explainForTenant (sq_slug q) (check_of q) (sq_includeProvenance q) (sq_consistency q) of Inr r \<Rightarrow> r | Inl _ \<Rightarrow> None)"

definition batch_answer :: "batch_input \<Rightarrow> BatchCheckResponse option" where
  "batch_answer b =
     (case b of (slug, checks, consistency) \<Rightarrow> (case batchCheckForTenant slug checks consistency of Inr r \<Rightarrow> r | Inl _ \<Rightarrow> None))"

text \<open>An answer that arrives is the server's; errors are anything.\<close>

definition answer_ok :: "playground_event \<Rightarrow> bool" where
  "answer_ok x \<longleftrightarrow>
     (case x of
        Explain_answered n q u (Inr r) \<Rightarrow> server_answer q = Some r
      | Fetched q (Inr r) \<Rightarrow> server_answer q = Some r
      | Batch_answered n b (Inr r) \<Rightarrow> batch_answer b = Some r
      | _ \<Rightarrow> True)"

text \<open>A query in the form the server's schema leaves it.\<close>

definition normal :: "SubmittedQuery \<Rightarrow> bool" where
  "normal q \<longleftrightarrow> CheckTupleSchema_parse (sq_user q) (sq_relation q) (sq_object q) = Some (check_of q)"

lemma parsed_is_normal: "CheckTupleSchema_parse u r ob = Some c \<Longrightarrow> CheckTupleSchema_parse (ck_user c) (ck_relation c) (ck_object c) = Some c"
  by (auto simp: CheckTupleSchema_parse_def RefSchema_parse_def RelationNameSchema_parse_def Let_def split: option.splits if_splits)

text \<open>The verdict depends on the question alone, not on the options it was asked with.\<close>

definition verdict :: "string \<Rightarrow> CheckTuple \<Rightarrow> bool option" where
  "verdict slug c = (case explainForTenant slug c True Strong of Inr (Some r) \<Rightarrow> Some (er_allowed r) | _ \<Rightarrow> None)"

lemma explain_options: "er_allowed (explain model tuples c opts) = er_allowed (explain model tuples c opts')"
  using evaluate_erase [of model tuples "ck_user c" "ck_object c" "ck_relation c" 1 Direct initial_ctx "ro_includeProvenance opts"]
    evaluate_erase [of model tuples "ck_user c" "ck_object c" "ck_relation c" 1 Direct initial_ctx "ro_includeProvenance opts'"]
  by (simp add: explain_def Let_def case_prod_unfold) (metis en_result_erase fst_map_prod)

lemma server_verdict: "server_answer q = Some r \<Longrightarrow> verdict (sq_slug q) (check_of q) = Some (er_allowed r)"
  by (auto simp: server_answer_def verdict_def explainForTenant_def split: option.splits if_splits) (metis explain_options)+

lemma answer_meaning:
  assumes "server_answer q = Some r"
  shows "er_allowed r \<Longrightarrow> holds (modelFor (sq_slug q)) (tuplesFor (sq_slug q)) (sq_user q) (sq_object q) (sq_relation q)"
    and "holds (modelFor (sq_slug q)) (tuplesFor (sq_slug q)) (sq_user q) (sq_object q) (sq_relation q) \<Longrightarrow> er_allowed r \<or> es_depthCapHit (er_stats r)"
proof -
  obtain opts where r: "r = explain (modelFor (sq_slug q)) (tuplesFor (sq_slug q)) (check_of q) opts"
    using assms by (auto simp: server_answer_def explainForTenant_def tenantContext_def split: option.splits if_splits)
  note s = steps_evaluate [of "tuplesFor (sq_slug q)" "ck_user (check_of q)" "modelFor (sq_slug q)" "ck_object (check_of q)" "ck_relation (check_of q)"
      "ro_includeProvenance opts" 1 Direct initial_ctx]
  show "er_allowed r \<Longrightarrow> holds (modelFor (sq_slug q)) (tuplesFor (sq_slug q)) (sq_user q) (sq_object q) (sq_relation q)"
      "holds (modelFor (sq_slug q)) (tuplesFor (sq_slug q)) (sq_user q) (sq_object q) (sq_relation q) \<Longrightarrow> er_allowed r \<or> es_depthCapHit (er_stats r)"
    unfolding r steps_explain using stepsD(2,6) [OF s] by (auto simp: initial_ctx_def check_of_def)
qed

section \<open>The invariant\<close>

lemma consistency_str_inj [simp]: "consistency_str a = consistency_str b \<longleftrightarrow> a = b"
  by (cases a; cases b) (simp_all add: consistency_str_def)

lemma explain_key_inj [simp]: "playgroundKeys_explain q = playgroundKeys_explain q' \<longleftrightarrow> q = q'"
  by (cases q; cases q') (auto simp: playgroundKeys_explain_def)

definition question :: "RecentQuery \<Rightarrow> string \<times> string \<times> string \<times> string" where
  "question r = (qd_slug r, qd_user r, qd_relation r, qd_object r)"

definition question_of :: "SubmittedQuery \<Rightarrow> string \<times> string \<times> string \<times> string" where
  "question_of q = (sq_slug q, sq_user q, sq_relation q, sq_object q)"

definition recent_check :: "RecentQuery \<Rightarrow> CheckTuple" where
  "recent_check r = \<lparr>ck_user = qd_user r, ck_relation = qd_relation r, ck_object = qd_object r\<rparr>"

definition recent_ok :: "RecentQuery \<Rightarrow> bool" where
  "recent_ok r \<longleftrightarrow> verdict (qd_slug r) (recent_check r) = Some (rq_allowed r)
     \<and> CheckTupleSchema_parse (qd_user r) (qd_relation r) (qd_object r) = Some (recent_check r)"

definition playground_ok :: "PlaygroundView \<Rightarrow> bool" where
  "playground_ok v \<longleftrightarrow>
     (\<forall>q r. pv_data v (playgroundKeys_explain q) = Some r \<longrightarrow> server_answer q = Some r)
     \<and> (\<forall>b. pv_batchResult v = Some b \<longrightarrow> (\<exists>i. batch_answer i = Some b))
     \<and> list_all (\<lambda>a. normal (snd a)) (pv_asking v) \<and> normal (pv_submitted v)
     \<and> length (pv_recent v) \<le> RECENT_LIMIT \<and> distinct (map question (pv_recent v)) \<and> list_all recent_ok (pv_recent v)
     \<and> (pv_recent v \<noteq> [] \<longrightarrow> question (hd (pv_recent v)) = question_of (pv_submitted v))"

lemma same_question_iff: "same_question r q \<longleftrightarrow> question r = question_of q"
  by (auto simp: same_question_def question_def question_of_def)

lemma list_all_take: "list_all P xs \<Longrightarrow> list_all P (take n xs)"
  using set_take_subset [of n xs] by (auto simp: list_all_iff)

lemma addRecent_ok:
  assumes "list_all recent_ok rs" and "distinct (map question rs)" and "normal q" and "server_answer q = Some r"
  shows "list_all recent_ok (addRecent u q (er_allowed r) rs)" and "distinct (map question (addRecent u q (er_allowed r) rs))"
    and "length (addRecent u q (er_allowed r) rs) \<le> RECENT_LIMIT"
    and "addRecent u q (er_allowed r) rs \<noteq> []" "question (hd (addRecent u q (er_allowed r) rs)) = question_of q"
proof -
  let ?e = "\<lparr>qd_slug = sq_slug q, qd_user = sq_user q, qd_relation = sq_relation q, qd_object = sq_object q, rq_id = idempotencyKey u, rq_allowed = er_allowed r\<rparr>"
  let ?rs = "?e # filter (\<lambda>r. \<not> same_question r q) rs"
  have e: "recent_ok ?e" "question ?e = question_of q"
    using assms(3) server_verdict [OF assms(4)] by (simp_all add: recent_ok_def recent_check_def normal_def check_of_def question_def question_of_def)
  have "list_all recent_ok ?rs" using assms(1) e(1) by (auto simp: list_all_iff)
  then show "list_all recent_ok (addRecent u q (er_allowed r) rs)" unfolding addRecent_def by (rule list_all_take)
  have "distinct (map question ?rs)" using assms(2) e(2) by (auto simp: same_question_iff distinct_map_filter)
  then show "distinct (map question (addRecent u q (er_allowed r) rs))" unfolding addRecent_def take_map [symmetric] by (rule distinct_take)
  show "length (addRecent u q (er_allowed r) rs) \<le> RECENT_LIMIT" "addRecent u q (er_allowed r) rs \<noteq> []"
      "question (hd (addRecent u q (er_allowed r) rs)) = question_of q"
    using e(2) by (simp_all add: addRecent_def RECENT_LIMIT_def)
qed

lemma playground_frame [simp]:
  "playground_ok (v\<lparr>pv_draft := d\<rparr>) = playground_ok v" "playground_ok (v\<lparr>pv_options := opts\<rparr>) = playground_ok v"
  "playground_ok (v\<lparr>pv_batchText := s\<rparr>) = playground_ok v" "playground_ok (v\<lparr>pv_batchError := e\<rparr>) = playground_ok v"
  "playground_ok (v\<lparr>pv_showRaw := raw\<rparr>) = playground_ok v" "playground_ok (v\<lparr>pv_draftError := e\<rparr>) = playground_ok v"
  "playground_ok (v\<lparr>pv_failed := f\<rparr>) = playground_ok v" "playground_ok (v\<lparr>pv_fetching := qs\<rparr>) = playground_ok v"
  "playground_ok (v\<lparr>pv_asked := n\<rparr>) = playground_ok v" "playground_ok (v\<lparr>pv_follows := fo\<rparr>) = playground_ok v"
  "playground_ok (v\<lparr>pv_explain := m\<rparr>) = playground_ok v" "playground_ok (v\<lparr>pv_batching := bs\<rparr>) = playground_ok v"
  "playground_ok (v\<lparr>pv_batch_follows := fo\<rparr>) = playground_ok v" "playground_ok (v\<lparr>pv_batch := mb\<rparr>) = playground_ok v"
  by (simp_all add: playground_ok_def)

lemma ask_ok: "playground_ok v \<Longrightarrow> normal q \<Longrightarrow> playground_ok (fst (ask q v))"
  by (simp add: ask_def playground_ok_def)

lemma submit_ok:
  assumes "playground_ok v"
  shows "playground_ok (fst (submit_check zl zc v))"
proof (cases "qo_batch (pv_options v)")
  case True
  then show ?thesis using assms by (simp add: submit_check_def Let_def split: ParsedBatch.split)
next
  case False
  show ?thesis
  proof (cases "CheckTupleSchema_parse (qd_user (pv_draft v)) (qd_relation (pv_draft v)) (qd_object (pv_draft v))")
    case None
    then show ?thesis using assms False by (simp add: submit_check_def Let_def)
  next
    case (Some c)
    have "check_of \<lparr>sq_slug = s, sq_user = ck_user c, sq_relation = ck_relation c, sq_object = ck_object c, sq_consistency = k, sq_includeProvenance = b\<rparr> = c" for s k b
      by (simp add: check_of_def)
    then show ?thesis using assms False Some parsed_is_normal [OF Some] by (simp add: submit_check_def Let_def ask_ok normal_def)
  qed
qed

lemma rerun_ok:
  assumes "playground_ok v" and "r \<in> set (pv_recent v)"
  shows "playground_ok (fst (rerun_recent r v))"
proof -
  have "recent_ok r" using assms by (simp add: playground_ok_def list_all_iff)
  then show ?thesis unfolding rerun_recent_def Let_def
    by (intro ask_ok) (simp_all add: assms(1) normal_def check_of_def recent_ok_def recent_check_def)
qed

lemma playground_ok_step:
  assumes ok: "playground_ok v" and a: "answer_ok x"
  shows "playground_ok (playground_do zl zc tenants v x)"
proof (cases x)
  case (Explain_answered n q u res)
  show ?thesis
  proof (cases "(n, q) \<in> set (pv_asking v) \<and> \<not> isl res")
    case False
    then show ?thesis using ok Explain_answered
      by (cases res) (auto simp: playground_do_def explain_answered_def Let_def playground_ok_def list_all_iff)
  next
    case True
    then obtain data where res: "res = Inr data" "(n, q) \<in> set (pv_asking v)" by (cases res) auto
    have q: "normal q" "server_answer q = Some data" using ok a res Explain_answered by (auto simp: playground_ok_def list_all_iff answer_ok_def)
    have "list_all recent_ok (pv_recent v)" "distinct (map question (pv_recent v))" using ok by (simp_all add: playground_ok_def)
    from addRecent_ok [OF this q, of u] show ?thesis using ok Explain_answered res q
      by (auto simp: playground_do_def explain_answered_def Let_def playground_ok_def list_all_iff)
  qed
next
  case (Batch_answered n b res)
  then show ?thesis using ok a
    by (cases res) (auto simp: playground_do_def batch_answered_def Let_def playground_ok_def answer_ok_def simp del: split_paired_Ex)
next
  case (Fetched q res)
  then show ?thesis using ok a
    by (cases res) (auto simp: playground_do_def fetched_def Let_def playground_ok_def answer_ok_def)
next
  case (Recent_clicked r)
  then show ?thesis using ok by (simp add: playground_do_def rerun_ok)
next
  case Submit_clicked
  then show ?thesis using ok by (simp add: playground_do_def submit_ok)
qed (use ok in \<open>simp_all add: playground_do_def dismiss_errors_def toggle_raw_def\<close>)

lemma playground_ok_run: "playground_ok v \<Longrightarrow> list_all answer_ok xs \<Longrightarrow> playground_ok (run (playground_do zl zc tenants) v xs)"
  by (induction xs arbitrary: v) (simp_all add: playground_ok_step)

lemma playground_ok_start: "normal q \<Longrightarrow> playground_ok (playground_start q (server_answer q))"
  by (auto simp: playground_start_def playground_ok_def)

section \<open>What is sent\<close>

lemma explain_request:
  assumes "snd (playground_react zl zc tenants v x) = Some (Post_explain q)" and "playground_ok v"
  shows "normal q"
proof (cases x)
  case Submit_clicked
  with assms(1) obtain c where "CheckTupleSchema_parse (qd_user (pv_draft v)) (qd_relation (pv_draft v)) (qd_object (pv_draft v)) = Some c"
      "sq_user q = ck_user c" "sq_relation q = ck_relation c" "sq_object q = ck_object c"
    by (auto simp: submit_check_def ask_def Let_def split: if_splits ParsedBatch.splits option.splits)
  then show ?thesis using parsed_is_normal by (simp add: normal_def check_of_def)
next
  case (Recent_clicked r)
  with assms have "r \<in> set (pv_recent v)" "sq_user q = qd_user r" "sq_relation q = qd_relation r" "sq_object q = qd_object r"
    by (auto simp: rerun_recent_def ask_def Let_def split: if_splits)
  then show ?thesis using assms(2) by (auto simp: playground_ok_def list_all_iff recent_ok_def recent_check_def normal_def check_of_def)
next
  case Fetch_started
  then show ?thesis using assms by (simp add: playground_ok_def)
qed (use assms(1) in simp_all)

lemma parse_batch_lines_normal:
  "parse_batch_lines zl i ls checks = Checks cs \<Longrightarrow> list_all (\<lambda>c. CheckTupleSchema_parse (ck_user c) (ck_relation c) (ck_object c) = Some c) checks
    \<Longrightarrow> cs \<noteq> [] \<and> list_all (\<lambda>c. CheckTupleSchema_parse (ck_user c) (ck_relation c) (ck_object c) = Some c) cs"
proof (induction zl i ls checks rule: parse_batch_lines.induct)
  case (2 zl i l ls checks)
  then show ?case
    by (auto simp: Let_def parsed_is_normal split: if_splits list.splits option.splits)
qed (auto split: if_splits)

definition wire_check :: "CheckTuple \<Rightarrow> string \<times> string \<times> string" where
  "wire_check c = (ck_user c, ck_relation c, ck_object c)"

lemma batch_request:
  assumes "snd (playground_react zl zc tenants v x) = Some (Post_batch slug checks k)"
  shows "checks \<noteq> []" and "those (map check_fields (map wire_check checks)) = Some checks"
proof -
  have "parseBatch zl (pv_batchText v) = Checks checks"
    using assms by (cases x) (auto simp: submit_check_def rerun_recent_def ask_def Let_def split: if_splits ParsedBatch.splits option.splits)
  then have c: "checks \<noteq> []" "list_all (\<lambda>c. CheckTupleSchema_parse (ck_user c) (ck_relation c) (ck_object c) = Some c) checks"
    using parse_batch_lines_normal [of zl 0 _ "[]" checks] by (simp_all add: parseBatch_def)
  show "checks \<noteq> []" by (rule c)
  show "those (map check_fields (map wire_check checks)) = Some checks"
    using c(2) by (induction checks) (simp_all add: check_fields_def wire_check_def)
qed

text \<open>The parameter of the path.\<close>

definition consistency_param :: "Consistency \<Rightarrow> string option" where
  "consistency_param k = (if k = Strong then Some ''strong'' else None)"

lemma consistency_of_param [simp]: "consistency_of (consistency_param k) = Some k"
  by (cases k) (simp_all add: consistency_of_def consistency_param_def)

lemma explain_reply:
  assumes "guardRoute (h_platform h) (h_env h) (w_cache w) (in_request i) (int (in_now i div 1000)) = (c, Inr (operator, key))"
    and "normal q" and "param i ''consistency'' = consistency_param (sq_consistency q)"
  shows "snd (explain_POST h (sq_slug q) (Some (Some ((sq_user q, sq_relation q, sq_object q), Some (sq_includeProvenance q)))) i w)
    = (case server_answer q of
         Some r \<Rightarrow> Json 200 (J_explain r)
       | None \<Rightarrow> if tenantContext (sq_slug q) \<noteq> None \<and> unreadable (sq_user q, sq_relation q, sq_object q)
                 then Threw TypeError else not_found_reply ''Tenant not found'' None)"
proof -
  have f: "check_fields (sq_user q, sq_relation q, sq_object q) = Some (check_of q)" using assms(2) by (simp add: check_fields_def normal_def)
  define a where "a = explainForTenant (sq_slug q) (check_of q) (sq_includeProvenance q) (sq_consistency q)"
  have thrown: "a = Inl e \<longleftrightarrow> tenantContext (sq_slug q) \<noteq> None \<and> unreadable (sq_user q, sq_relation q, sq_object q) \<and> e = TypeError" for e
    unfolding a_def explain_throws_iff check_fields_read [OF f] ..
  have post: "snd (explain_POST h (sq_slug q) (Some (Some ((sq_user q, sq_relation q, sq_object q), Some (sq_includeProvenance q)))) i w)
      = answer_or (not_found_reply ''Tenant not found'' None) 200 J_explain a"
    using assms(1,3) f by (simp add: explain_POST_def guarded_def with_body_def parseBody_def ExplainRequestSchema_parse_def a_def)
  have answer: "server_answer q = (case a of Inr r \<Rightarrow> r | Inl _ \<Rightarrow> None)" by (simp add: server_answer_def a_def)
  show ?thesis
  proof (cases a)
    case (Inl e)
    then show ?thesis using thrown [of e] by (simp add: post answer answer_or_def)
  next
    case (Inr r)
    then have "\<not> (tenantContext (sq_slug q) \<noteq> None \<and> unreadable (sq_user q, sq_relation q, sq_object q))"
      using thrown [of TypeError] by auto
    with Inr show ?thesis by (cases r) (auto simp: post answer answer_or_def)
  qed
qed

lemma batch_reply:
  assumes "guardRoute (h_platform h) (h_env h) (w_cache w) (in_request i) (int (in_now i div 1000)) = (c, Inr (operator, key))"
    and "those (map check_fields (map wire_check checks)) = Some checks" and "checks \<noteq> []" and "param i ''consistency'' = consistency_param k"
  shows "snd (batch_check_POST h slug (Some (Some (map wire_check checks))) i w)
    = (if length checks \<le> 100
       then (case batch_answer (slug, checks, k) of
               Some b \<Rightarrow> Json 200 (J_batch b)
             | None \<Rightarrow> if tenantContext slug \<noteq> None \<and> list_ex unreadable (map wire_check checks)
                       then Threw TypeError else not_found_reply ''Tenant not found'' None)
       else Problem_json (problem 400 ''Validation failed'' (Some (in_message i)) []))"
proof -
  define a where "a = batchCheckForTenant slug checks k"
  have thrown: "a = Inl e \<longleftrightarrow> tenantContext slug \<noteq> None \<and> list_ex unreadable (map wire_check checks) \<and> e = TypeError" for e
    unfolding a_def batch_throws_iff batch_fields_read [OF assms(2)] ..
  have post: "snd (batch_check_POST h slug (Some (Some (map wire_check checks))) i w)
      = (if length checks \<le> 100 then answer_or (not_found_reply ''Tenant not found'' None) 200 J_batch a
         else Problem_json (problem 400 ''Validation failed'' (Some (in_message i)) []))"
    using assms by (simp add: batch_check_POST_def guarded_def with_body_def parseBody_def BatchCheckRequestSchema_parse_def
      accept_if_def BatchCheckRequestSchema_ok_def Suc_le_eq a_def)
  have answer: "batch_answer (slug, checks, k) = (case a of Inr r \<Rightarrow> r | Inl _ \<Rightarrow> None)" by (simp add: batch_answer_def a_def)
  show ?thesis
  proof (cases a)
    case (Inl e)
    then show ?thesis using thrown [of e] by (simp add: post answer answer_or_def)
  next
    case (Inr r)
    then have "\<not> (tenantContext slug \<noteq> None \<and> list_ex unreadable (map wire_check checks))" using thrown [of TypeError] by auto
    with Inr show ?thesis by (cases r) (auto simp: post answer answer_or_def)
  qed
qed

section \<open>What the screen gets wrong\<close>

text \<open>
  The recent list stays enabled while a check is under way. Of two re-runs the one answered last is shown, whichever was
  asked last: the form then holds one question and the verdict beside it answers the other.
\<close>

lemma late_answer_shown:
  assumes "r1 \<in> set (pv_recent v)" and "r2 \<in> set (pv_recent v)" and "question r1 \<noteq> question r2"
    and "v' = run (playground_do zl zc tenants) v [Recent_clicked r1, Recent_clicked r2]"
    and "q1 = snd (pv_asking v' ! 1)" and "q2 = snd (pv_asking v' ! 0)"
    and "v'' = run (playground_do zl zc tenants) v' [Explain_answered (Suc (pv_asked v)) q2 u2 (Inr d2), Explain_answered (pv_asked v) q1 u1 (Inr d1)]"
  shows "pv_draft v'' = QueryDraft.truncate r2" and "pv_submitted v'' = q1" and "question_of q1 = question r1" and "shown_result v'' = Some d1"
proof -
  have ne: "q1 \<noteq> q2" "question_of q1 = question r1"
    using assms(1-6) by (auto simp: playground_do_def rerun_recent_def ask_def Let_def question_def question_of_def)
  show "question_of q1 = question r1" by (rule ne)
  show "pv_draft v'' = QueryDraft.truncate r2" and "pv_submitted v'' = q1" and "shown_result v'' = Some d1"
    using assms ne by (auto simp: playground_do_def rerun_recent_def ask_def Let_def explain_answered_def shown_result_def)
qed

text \<open>
  With the raw panel open on a batch, no single check answered yet and batch mode switched off, the panel renders
  the text of \<^verbatim>\<open>undefined\<close>: the view throws.
\<close>

lemma raw_panel_throws:
  assumes "pv_showRaw v" and "pv_batchResult v = Some b" and "shown_result v = None" and "\<not> qo_batch opts"
  shows "raw_panel (playground_do zl zc tenants v (Options_set opts)) = Inl TypeError"
  using assms by (simp add: playground_do_def raw_panel_def showingBatch_def shown_result_def)

section \<open>Properties\<close>

text \<open>
  C8: the verdict on screen. Whatever is typed, picked, asked and re-run, and in whatever order the server's answers arrive or
  are refetched, the answer shown is the server's answer to the query it is filed under. Read as a verdict: when the chip says
  ALLOWED the relationship follows from the tenant's model and tuples, and when it says DENIED it does not,
  unless the answer reports that the depth cap was hit.
\<close>

theorem playground_verdict:
  assumes "normal q0" and "list_all answer_ok xs" and "v = run (playground_do zl zc tenants) (playground_start q0 (server_answer q0)) xs"
    and "shown_result v = Some r"
  shows "server_answer (pv_submitted v) = Some r
    \<and> (\<not> showingBatch v \<longrightarrow>
        (let q = pv_submitted v; follows = holds (modelFor (sq_slug q)) (tuplesFor (sq_slug q)) (sq_user q) (sq_object q) (sq_relation q)
         in (fst (check_header v) = ''ALLOWED'' \<longrightarrow> follows) \<and> (fst (check_header v) = ''DENIED'' \<longrightarrow> \<not> follows \<or> es_depthCapHit (er_stats r))))"
proof -
  have "playground_ok v" unfolding assms(3) by (intro playground_ok_run playground_ok_start assms(1,2))
  then have a: "server_answer (pv_submitted v) = Some r" using assms(4) by (simp add: playground_ok_def shown_result_def)
  show ?thesis using a assms(4) answer_meaning [OF a] by (auto simp: check_header_def Let_def split: if_splits)
qed

text \<open>
  C31: the recent queries. At most six, no question twice, the one last answered first; the verdict beside each is the
  server's for that question, with whatever options it was asked; and clicking one asks exactly it again.
\<close>

theorem playground_recent:
  assumes "normal q0" and "list_all answer_ok xs" and "v = run (playground_do zl zc tenants) (playground_start q0 (server_answer q0)) xs"
  shows "length (pv_recent v) \<le> 6 \<and> distinct (map question (pv_recent v))
    \<and> (pv_recent v \<noteq> [] \<longrightarrow> question (hd (pv_recent v)) = question_of (pv_submitted v))
    \<and> (\<forall>r \<in> set (pv_recent v). verdict (qd_slug r) (recent_check r) = Some (rq_allowed r)
        \<and> (\<exists>q. snd (playground_react zl zc tenants v (Recent_clicked r)) = Some (Post_explain q) \<and> question_of q = question r \<and> normal q))"
proof -
  have ok: "playground_ok v" unfolding assms(3) by (intro playground_ok_run playground_ok_start assms(1,2))
  have "\<exists>q. snd (playground_react zl zc tenants v (Recent_clicked r)) = Some (Post_explain q) \<and> question_of q = question r \<and> normal q"
    if "r \<in> set (pv_recent v)" for r
  proof -
    have "\<exists>q. snd (playground_react zl zc tenants v (Recent_clicked r)) = Some (Post_explain q) \<and> question_of q = question r"
      using that by (simp add: rerun_recent_def ask_def Let_def question_def question_of_def)
    then show ?thesis using explain_request [OF _ ok] by blast
  qed
  then show ?thesis using ok by (auto simp: playground_ok_def recent_ok_def list_all_iff RECENT_LIMIT_def)
qed

text \<open>
  C30: what a check sends is what the server answers. Every request of the screen passes the route's schemas unchanged: a
  single check is answered by the resolver's answer to exactly that query, by a 404 for a tenant the
  playground does not know, or, where it asks for what cannot be read of an inherited function, by an uncaught TypeError. A batch
  has at least one line, every line as the server reads it, and is answered line by line in one request, likewise, or refused as a
  whole when it has more than 100 lines, a bound the screen does not check.
\<close>

theorem playground_requests_answered:
  assumes "normal q0" and "list_all answer_ok xs" and "v = run (playground_do zl zc tenants) (playground_start q0 (server_answer q0)) xs"
    and "snd (playground_react zl zc tenants v x) = Some req"
    and "guardRoute (h_platform h) (h_env h) (w_cache w) (in_request i) (int (in_now i div 1000)) = (c, Inr (operator, key))"
    and "param i ''consistency'' = consistency_param (case req of Post_explain q \<Rightarrow> sq_consistency q | Post_batch _ _ k \<Rightarrow> k)"
  shows "case req of
      Post_explain q \<Rightarrow>
        snd (explain_POST h (sq_slug q) (Some (Some ((sq_user q, sq_relation q, sq_object q), Some (sq_includeProvenance q)))) i w)
          = (case server_answer q of
               Some r \<Rightarrow> Json 200 (J_explain r)
             | None \<Rightarrow> if tenantContext (sq_slug q) \<noteq> None \<and> unreadable (sq_user q, sq_relation q, sq_object q)
                       then Threw TypeError else not_found_reply ''Tenant not found'' None)
    | Post_batch slug checks k \<Rightarrow> checks \<noteq> [] \<and>
        snd (batch_check_POST h slug (Some (Some (map wire_check checks))) i w)
          = (if length checks \<le> 100
             then (case batch_answer (slug, checks, k) of
                     Some b \<Rightarrow> Json 200 (J_batch b)
                   | None \<Rightarrow> if tenantContext slug \<noteq> None \<and> list_ex unreadable (map wire_check checks)
                             then Threw TypeError else not_found_reply ''Tenant not found'' None)
             else Problem_json (problem 400 ''Validation failed'' (Some (in_message i)) []))"
proof (cases req)
  case (Post_explain q)
  have "playground_ok v" unfolding assms(3) by (intro playground_ok_run playground_ok_start assms(1,2))
  with explain_request assms(4) Post_explain have "normal q" by blast
  then show ?thesis using explain_reply [OF assms(5), of q] assms(6) Post_explain by simp
next
  case (Post_batch slug checks k)
  note b = batch_request [OF assms(4) [unfolded Post_batch]]
  show ?thesis using b(1) batch_reply [OF assms(5) b(2,1), of k slug] assms(6) Post_batch by simp
qed

section \<open>Witnesses\<close>

text \<open>The query the page starts with, asked again from the form.\<close>

definition demo_query :: SubmittedQuery where
  "demo_query = \<lparr>sq_slug = ''acme-air'', sq_user = ''user:raj'', sq_relation = ''viewer'', sq_object = ''document:budget-2026'',
     sq_consistency = Strong, sq_includeProvenance = True\<rparr>"

definition demo_text :: "string \<Rightarrow> string \<Rightarrow> string \<Rightarrow> string" where
  "demo_text u r ob = ''invalid''"

lemma demo_parse: "CheckTupleSchema_parse ''user:raj'' ''viewer'' ''document:budget-2026''
    = Some \<lparr>ck_user = ''user:raj'', ck_relation = ''viewer'', ck_object = ''document:budget-2026''\<rparr>"
  by code_simp

lemma demo_normal: "normal demo_query"
  using demo_parse by (simp add: normal_def demo_query_def check_of_def)

lemma demo_answer: "\<exists>r. server_answer demo_query = Some r \<and> er_allowed r"
proof -
  have q: "check_of demo_query = DEFAULT_QUERY" by (simp add: check_of_def demo_query_def DEFAULT_QUERY_def)
  have "tenantContext ''acme-air'' = Some (ACME_AIR_MODEL_V6, ACME_AIR_TUPLES, fixture_modelVersion ''acme-air'')"
    by (simp add: tenantContext_def findTenant_def TENANTS_def fixture_tenant_def modelFor_def tuplesFor_def)
  moreover from this have "\<not> check_throws ACME_AIR_MODEL_V6 ACME_AIR_TUPLES DEFAULT_QUERY"
    by (simp add: check_throws_iff) (simp add: DEFAULT_QUERY_def read_throws_def)
  ultimately show ?thesis using default_query_allowed explain_options [of ACME_AIR_MODEL_V6 ACME_AIR_TUPLES DEFAULT_QUERY example_opts]
    by (simp add: server_answer_def q explainForTenant_def) (simp add: demo_query_def)
qed

definition demo_steps_playground :: "ExplainResponse \<Rightarrow> playground_event list" where
  "demo_steps_playground r = [Draft_edited \<lparr>qd_slug = ''acme-air'', qd_user = ''user:raj'', qd_relation = ''viewer'', qd_object = ''document:budget-2026''\<rparr>,
     Submit_clicked, Explain_answered 0 demo_query 0 (Inr r)]"

lemma demo_steps_ok: "server_answer demo_query = Some r \<Longrightarrow> list_all answer_ok (demo_steps_playground r)"
  by (simp add: demo_steps_playground_def answer_ok_def)

lemma demo_run:
  assumes "v = run (playground_do demo_text demo_text []) (playground_start demo_query (server_answer demo_query)) (demo_steps_playground r)"
  shows "shown_result v = Some r" "pv_submitted v = demo_query" "\<not> showingBatch v" "map question (pv_recent v) = [question_of demo_query]"
    "map rq_allowed (pv_recent v) = [er_allowed r]"
  using demo_parse
  by (simp_all add: assms demo_steps_playground_def playground_do_def playground_start_def submit_check_def check_pending_def isPending_def ask_def
      consistency_option_def Let_def explain_answered_def shown_result_def showingBatch_def addRecent_def RECENT_LIMIT_def demo_query_def
      question_def question_of_def)

theorem playground_verdict_witness:
  "\<exists>r. er_allowed r \<and> shown_result (run (playground_do demo_text demo_text []) (playground_start demo_query (server_answer demo_query)) (demo_steps_playground r)) = Some r
    \<and> holds (modelFor ''acme-air'') (tuplesFor ''acme-air'') ''user:raj'' ''document:budget-2026'' ''viewer''"
proof -
  obtain r where r: "server_answer demo_query = Some r" "er_allowed r" using demo_answer by blast
  note d = demo_run [OF refl, of r]
  from playground_verdict [OF demo_normal demo_steps_ok [OF r(1)] refl d(1)] d r show ?thesis
    by (auto simp: check_header_def Let_def demo_query_def)
qed

theorem playground_recent_witness:
  "\<exists>r v. v = run (playground_do demo_text demo_text []) (playground_start demo_query (server_answer demo_query)) (demo_steps_playground r)
    \<and> pv_recent v \<noteq> [] \<and> verdict ''acme-air'' (recent_check (hd (pv_recent v))) = Some True"
proof -
  obtain r where r: "server_answer demo_query = Some r" "er_allowed r" using demo_answer by blast
  define v where "v = run (playground_do demo_text demo_text []) (playground_start demo_query (server_answer demo_query)) (demo_steps_playground r)"
  note d = demo_run [OF v_def]
  obtain e where e: "pv_recent v = [e]" "qd_slug e = ''acme-air''" "rq_allowed e"
    using d(4,5) r(2) by (auto simp: question_def question_of_def demo_query_def)
  from playground_recent [OF demo_normal demo_steps_ok [OF r(1)] v_def] e
  have "pv_recent v \<noteq> [] \<and> verdict ''acme-air'' (recent_check (hd (pv_recent v))) = Some True" by simp
  with v_def show ?thesis by blast
qed

theorem playground_requests_answered_witness:
  "\<exists>r. snd (playground_react demo_text demo_text [] (playground_start demo_query (server_answer demo_query)) Submit_clicked) = Some (Post_explain demo_query)
    \<and> snd (explain_POST demo_console ''acme-air'' (Some (Some ((''user:raj'', ''viewer'', ''document:budget-2026''), Some True))) demo_post boot)
        = Json 200 (J_explain r) \<and> er_allowed r"
proof -
  obtain r where r: "server_answer demo_query = Some r" "er_allowed r" using demo_answer by blast
  have s: "snd (playground_react demo_text demo_text [] (playground_start demo_query (server_answer demo_query)) Submit_clicked) = Some (Post_explain demo_query)"
    using demo_parse by (simp add: playground_start_def submit_check_def check_pending_def isPending_def ask_def consistency_option_def Let_def demo_query_def)
  have "w_cache boot \<in> {None, demo_cache}" by (simp add: boot_def)
  note g = demo_console_passes [OF this]
  have p: "param demo_post ''consistency'' = consistency_param (case Post_explain demo_query of Post_explain q \<Rightarrow> sq_consistency q | Post_batch _ _ k \<Rightarrow> k)"
    by (simp add: demo_post_def consistency_param_def demo_query_def)
  have run: "playground_start demo_query (server_answer demo_query)
      = run (playground_do demo_text demo_text []) (playground_start demo_query (server_answer demo_query)) []" by simp
  from playground_requests_answered [OF demo_normal _ run s g p] r s show ?thesis by (auto simp: demo_query_def)
qed

end
