(* ===== verification/Model_Screen.thy ===== *)
theory Model_Screen
  imports Query_Cache
begin

text \<open>
  The authorization model screen in the browser (\<^verbatim>\<open>features/authz-model/components\<close>): the text of the draft with its
  additions, the type graph, the version history, and the view as a state machine over edits, validations, staging and
  refetches. Shown: what the screen stages the server accepts and serves back as the draft; the local verdict on
  a text is the server's.
\<close>

section \<open>The draft and the type graph\<close>

text \<open>The lines of the draft: number, whether it is new over the live model, and the text after the mark.\<close>

definition dsl_row :: "nat list \<Rightarrow> TokenLine \<Rightarrow> nat \<times> bool \<times> string \<times> Token list" where
  "dsl_row added l =
     (let isAdded = (tl_n l \<in> set added);
          indent = (if isAdded \<and> 0 < length (tl_indent l) then drop 1 (tl_indent l) else tl_indent l)
      in (tl_n l, isAdded, indent, tl_tokens l))"

definition DslView :: "string \<Rightarrow> string \<Rightarrow> (nat \<times> bool \<times> string \<times> Token list) list" where
  "DslView live draft = map (dsl_row (fst (diffDsl live draft))) (tokenize draft)"

definition relation_parts :: "RelationDef \<Rightarrow> string list" where
  "relation_parts rel =
     (if rd_direct rel \<noteq> [] then
        [if rd_direct rel = [''user''] then ''direct'' else ''['' @ join '', '' (rd_direct rel) @ '']''] else [])
     @ rd_computed rel @ map (\<lambda>t. ttu_relation t @ '' from '' @ ttu_via t) (rd_ttu rel)"

text \<open>A card of the graph: the type, the caption, and its relations, each with its parts and whether it is new.\<close>

definition type_card :: "string list \<Rightarrow> TypeDef \<Rightarrow> string \<times> string \<times> (string \<times> string list \<times> bool) list" where
  "type_card fresh ty =
     (let n = length (ty_relations ty)
      in (ty_name ty, show_nat n @ '' relation'' @ (if n = 1 then [] else ''s''),
          map (\<lambda>rel. (rd_name rel, relation_parts rel, ty_name ty @ ''#'' @ rd_name rel \<in> set fresh)) (rev (ty_relations ty))))"

definition TypeGraph :: "string \<Rightarrow> string \<Rightarrow> (string \<times> string \<times> (string \<times> string list \<times> bool) list) list" where
  "TypeGraph live draft =
     (let draftModel = parseModel draft; fresh = newRelations (parseModel live) draftModel
      in map (type_card fresh)
           (js_sort (\<lambda>a b. int (length (ty_relations b)) - int (length (ty_relations a)))
              (filter (\<lambda>t. 0 < length (ty_relations t)) (pm_types draftModel))))"

definition subjectTypes :: "string \<Rightarrow> string list" where
  "subjectTypes draft = map ty_name (filter (\<lambda>t. length (ty_relations t) = 0) (pm_types (parseModel draft)))"

definition removedDefines :: "string \<Rightarrow> string \<Rightarrow> string list" where
  "removedDefines live draft = filter (\<lambda>l. startsWith l ''define '') (snd (diffDsl live draft))"

definition removed_note :: "string \<Rightarrow> string \<Rightarrow> string option" where
  "removed_note live draft =
     (let n = length (removedDefines live draft)
      in if 0 < n then Some (minus_sign @ '' removes '' @ show_nat n @ '' relation'' @ (if n = 1 then [] else ''s'') @ '' present in the live model'') else None)"

fun STATE_TONE :: "VersionState \<Rightarrow> Tone" where
  "STATE_TONE Live_v = Ready_tone"
| "STATE_TONE Draft_v = Link"
| "STATE_TONE Superseded_v = Neutral"

definition VersionHistoryDrawer :: "ModelVersion list \<Rightarrow> ModelVersion list" where
  "VersionHistoryDrawer versions = js_sort (\<lambda>a b. int (mv_version b) - int (mv_version a)) versions"

section \<open>The screen\<close>

text \<open>\<open>mw_data\<close> is what the query cache holds; a local draft of \<open>None\<close> follows the server's.\<close>

record ModelView =
  mw_data :: "AuthorizationModel option"
  mw_localDraft :: "string option"
  mw_editing :: bool
  mw_validation :: "ValidationResult option"
  mw_staged :: "StageResult option"
  mw_validate :: "string mutation"
  mw_stage :: "string mutation"

definition model_start :: "AuthorizationModel \<Rightarrow> ModelView" where
  "model_start m = \<lparr>mw_data = Some m, mw_localDraft = None, mw_editing = False, mw_validation = None, mw_staged = None,
     mw_validate = M_idle, mw_stage = M_idle\<rparr>"

definition model_draft :: "ModelView \<Rightarrow> AuthorizationModel \<Rightarrow> string" where
  "model_draft v m = (case mw_localDraft v of Some d \<Rightarrow> d | None \<Rightarrow> am_draft m)"

definition model_draftVersion :: "AuthorizationModel \<Rightarrow> nat" where
  "model_draftVersion m = (case am_draftVersion m of Some n \<Rightarrow> n | None \<Rightarrow> am_liveVersion m + 1)"

definition model_parses :: "string \<Rightarrow> bool" where
  "model_parses draft \<longleftrightarrow> length (pm_issues (parseModel draft)) = 0"

definition model_dirty :: "ModelView \<Rightarrow> AuthorizationModel \<Rightarrow> bool" where
  "model_dirty v m \<longleftrightarrow> mw_localDraft v \<noteq> None \<and> mw_localDraft v \<noteq> Some (am_draft m)"

text \<open>The status line of the draft and the first line of a validation's panel.\<close>

definition counts_text :: "nat \<Rightarrow> nat \<Rightarrow> nat \<Rightarrow> string" where
  "counts_text types relations depth =
     show_nat types @ '' types '' @ mid_dot @ '' '' @ show_nat relations @ '' relations '' @ mid_dot @ '' depth '' @ show_nat depth"

definition issues_text :: "nat \<Rightarrow> string" where
  "issues_text n = show_nat n @ '' issue'' @ (if n = 1 then [] else ''s'')"

definition status_text :: "string \<Rightarrow> string" where
  "status_text draft =
     (let parsed = parseModel draft; s = the (summarize parsed)
      in case pm_issues parsed of
           [] \<Rightarrow> ''parses '' @ mid_dot @ '' '' @ counts_text (ms_types s) (ms_relations s) (ms_depth s)
         | i # _ \<Rightarrow> issues_text (length (pm_issues parsed)) @ '' '' @ mid_dot @ '' line '' @ show_nat (pi_line i))"

definition validation_text :: "ValidationResult \<Rightarrow> string" where
  "validation_text r =
     (if vr_ok r then ''DSL parses '' @ mid_dot @ '' '' @ counts_text (vr_types r) (vr_relations r) (vr_depth r)
      else issues_text (length (vr_issues r)) @ '' found'')"

definition validation_list :: "ValidationResult \<Rightarrow> string list" where
  "validation_list r = map (\<lambda>i. ''line '' @ show_nat (pi_line i) @ '': '' @ pi_message i) (vr_issues r)"

definition staged_text :: "StageResult \<Rightarrow> string" where
  "staged_text r = ''staged into generation '' @ show_nat (StageResult.sr_generation r) @ '' '' @ mid_dot @ '' v'' @ show_nat (sr_version r) @ '' '' @ mid_dot
     @ '' the reconciler applies it when generation '' @ show_nat (StageResult.sr_generation r) @ '' converges''"

definition request_problem :: "BffError + string \<Rightarrow> string \<times> string option" where
  "request_problem e = (case e of Inl b \<Rightarrow> (be_title b, be_detail b) | Inr message \<Rightarrow> (''Request failed'', Some message))"

text \<open>Every action needs the model; without data the screen is a notice.\<close>

datatype model_event =
    Model_fetched AuthorizationModel | Draft_changed string | Edit_toggled | Revert_clicked | Validate_clicked
  | Validate_answered "(BffError + string) + ValidationResult" | Stage_clicked | Stage_answered "(BffError + string) + StageResult"

datatype model_request = Post_validate string | Post_stage string

definition with_model :: "ModelView \<Rightarrow> (AuthorizationModel \<Rightarrow> ModelView \<times> model_request option) \<Rightarrow> ModelView \<times> model_request option" where
  "with_model v f = (case mw_data v of None \<Rightarrow> (v, None) | Some m \<Rightarrow> f m)"

fun model_react :: "ModelView \<Rightarrow> model_event \<Rightarrow> ModelView \<times> model_request option" where
  "model_react v (Model_fetched m) = (v\<lparr>mw_data := Some m\<rparr>, None)"
| "model_react v (Draft_changed text') = with_model v (\<lambda>m. (if mw_editing v then v\<lparr>mw_localDraft := Some text'\<rparr> else v, None))"
| "model_react v Edit_toggled = with_model v (\<lambda>m. (v\<lparr>mw_editing := \<not> mw_editing v\<rparr>, None))"
| "model_react v Revert_clicked = with_model v (\<lambda>m. (if model_dirty v m then v\<lparr>mw_localDraft := None\<rparr> else v, None))"
| "model_react v Validate_clicked = with_model v (\<lambda>m.
     if isPending (mw_validate v) then (v, None)
     else (v\<lparr>mw_validate := M_pending (model_draft v m)\<rparr>, Some (Post_validate (model_draft v m))))"
| "model_react v (Validate_answered res) =
     (if isPending (mw_validate v) then
        (case res of Inl e \<Rightarrow> v\<lparr>mw_validate := M_error e\<rparr> | Inr r \<Rightarrow> v\<lparr>mw_validate := M_success, mw_validation := Some r\<rparr>)
      else v, None)"
| "model_react v Stage_clicked = with_model v (\<lambda>m.
     if \<not> model_parses (model_draft v m) \<or> isPending (mw_stage v) then (v, None)
     else (v\<lparr>mw_stage := M_pending (model_draft v m)\<rparr>, Some (Post_stage (model_draft v m))))"
| "model_react v (Stage_answered res) =
     (if isPending (mw_stage v) then
        (case res of Inl e \<Rightarrow> v\<lparr>mw_stage := M_error e\<rparr> | Inr r \<Rightarrow> v\<lparr>mw_stage := M_success, mw_staged := Some r, mw_localDraft := None\<rparr>)
      else v, None)"

definition model_do :: "ModelView \<Rightarrow> model_event \<Rightarrow> ModelView" where
  "model_do v x = fst (model_react v x)"

section \<open>With the server\<close>

lemma empty_model_issues: "pm_issues (parseModel []) \<noteq> []"
  by code_simp

lemma parses_nonempty: "model_parses d \<Longrightarrow> d \<noteq> []"
  using empty_model_issues by (auto simp: model_parses_def)

lemma stage_request:
  "snd (model_react v Stage_clicked) = Some (Post_stage dsl) \<longleftrightarrow>
     (\<exists>m. mw_data v = Some m \<and> model_parses (model_draft v m) \<and> \<not> isPending (mw_stage v) \<and> dsl = model_draft v m)"
  by (auto simp: with_model_def split: option.split)

lemma model_read:
  assumes "models_wf S" and "tenant_of T slug = Some t" and "map_get S slug = Some s"
  shows "snd (getAuthorizationModel T S slug) = Inr (Some
    \<lparr>am_slug = slug, am_liveVersion = st_liveVersion s, am_draftVersion = st_draftVersion s, am_live = st_live s, am_draft = st_draft s,
     am_versions = st_versions s, am_tupleCount = td_tupleCount t, am_cachedDecisions = st_cachedDecisions s\<rparr>)"
proof -
  have "model_state_ok s" using assms(1,3) by (auto simp: models_wf_def)
  then show ?thesis using assms(2,3)
    by (simp add: getAuthorizationModel_def stateFor_model_def AuthorizationModelSchema_ok_def model_state_ok_def)
qed

lemma stage_accepts:
  assumes "models_wf S" and "tenant_of T slug = Some t" and "pm_issues (parseModel dsl) = []"
  obtains S' s' r where "stageModel T S slug dsl now = (S', Inr (Inr r))" "models_wf S'" "map_get S' slug = Some s'"
    "st_draft s' = dsl" "st_draftVersion s' = Some (sr_version r)" "StageResult.sr_generation r = ts_generation t + 1"
    "\<exists>s. snd (stateFor_model T S slug) = Some s \<and> st_live s' = st_live s \<and> st_liveVersion s' = st_liveVersion s"
proof -
  obtain s where s: "snd (stateFor_model T S slug) = Some s"
    using assms(2) by (cases "map_get S slug") (auto simp: stateFor_model_def model_seed_def)
  obtain S1 where sf: "stateFor_model T S slug = (S1, Some s)" using s by (cases "stateFor_model T S slug") simp
  have ok: "model_state_ok s" using stateFor_model_ok [OF assms(1) sf] by simp
  let ?v = "case st_draftVersion s of Some v \<Rightarrow> v | None \<Rightarrow> st_liveVersion s + 1"
  let ?s' = "stage_state dsl ?v (stage_entry (ts_generation t) ?v now) s"
  have "\<exists>r. stageModel T S slug dsl now = (map_set S1 slug ?s', Inr (Inr r)) \<and> sr_version r = ?v \<and> StageResult.sr_generation r = ts_generation t + 1"
    using assms(2,3) sf stageModel_version_pos [OF ok] by (simp add: stageModel_def Let_def StageResultSchema_ok_def)
  then obtain r where run: "stageModel T S slug dsl now = (map_set S1 slug ?s', Inr (Inr r))" "sr_version r = ?v" "StageResult.sr_generation r = ts_generation t + 1"
    by blast
  have wf: "models_wf (map_set S1 slug ?s')" using stageModel_wf [OF assms(1), of T slug dsl now] by (simp add: run(1))
  show ?thesis by (rule that [OF run(1) wf, of ?s']) (simp_all add: stage_state_def s run(2,3))
qed

text \<open>A text typed while its predecessor is being staged is discarded with it.\<close>

lemma stage_drops_typing:
  assumes "isPending (mw_stage v)" and "mw_editing v" and "mw_data v = Some m" and "typed \<noteq> am_draft m"
  shows "model_draft (model_do v (Draft_changed typed)) m = typed"
    and "model_draft (model_do (model_do v (Draft_changed typed)) (Stage_answered (Inr r))) m = am_draft m"
  using assms by (simp_all add: model_do_def with_model_def model_draft_def)

text \<open>The verdict of a validation stays when the draft is changed, over a text it was not given on.\<close>

lemma verdict_survives_edit:
  assumes "mw_validation v = Some r" and "mw_editing v" and "mw_data v = Some m"
  shows "mw_validation (model_do v (Draft_changed typed)) = Some r" and "model_draft (model_do v (Draft_changed typed)) m = typed"
  using assms by (simp_all add: model_do_def with_model_def model_draft_def)

text \<open>The note on removed relations counts the lines of the live model that are gone: a relation that is only changed is counted as removed.\<close>

definition changed_model :: string where
  "changed_model = join [CHR 0x0A]
     [''model'', ''  schema 1.1'', ''type user'', ''type folder'', ''  relations'', ''    define owner: [user]'',
      ''    define viewer: [user] or owner'']"

definition unchanged_model :: string where
  "unchanged_model = join [CHR 0x0A]
     [''model'', ''  schema 1.1'', ''type user'', ''type folder'', ''  relations'', ''    define owner: [user]'', ''    define viewer: [user]'']"

lemma changed_relation_counted_as_removed:
  "removed_note unchanged_model changed_model = Some (minus_sign @ '' removes 1 relation present in the live model'')"
  "newRelations (parseModel changed_model) (parseModel unchanged_model) = []"
  by code_simp+

section \<open>Properties\<close>

text \<open>
  C9: staging from the screen. The button sends the draft on screen and only one that parses; the server accepts it for any
  tenant it knows, unless the text is over the 64000 characters of the request's schema, which the screen does not check. After the
  acceptance the server serves the text as the tenant's draft, under the version and beside the unchanged live model the answer
  implies, and once that answer is fetched the screen shows the text it sent, with nothing unsaved.
\<close>

theorem model_stage_round:
  assumes "console_ok w" and "tenant_of (w_tenants w) slug = Some t"
    and "snd (model_react v Stage_clicked) = Some (Post_stage dsl)"
    and "guardRoute (h_platform h) (h_env h) (w_cache w) (in_request i) (int (in_now i div 1000)) = (c, Inr (operator, key))"
  shows "(\<exists>m. mw_data v = Some m \<and> dsl = model_draft v m) \<and>
    (if length dsl \<le> 64000
     then (\<exists>w' r m. authorization_model_POST h slug (Some (Some dsl)) i w = (w', Json 202 (J_staged r))
        \<and> snd (getAuthorizationModel (w_tenants w') (w_models w') slug) = Inr (Some m)
        \<and> am_draft m = dsl \<and> am_draftVersion m = Some (sr_version r) \<and> StageResult.sr_generation r = ts_generation t + 1
        \<and> (\<forall>old. snd (getAuthorizationModel (w_tenants w) (w_models w) slug) = Inr (Some old) \<longrightarrow> am_live m = am_live old \<and> am_liveVersion m = am_liveVersion old)
        \<and> (let v' = run model_do v [Stage_clicked, Stage_answered (Inr r), Model_fetched m]
           in mw_data v' = Some m \<and> model_draft v' m = dsl \<and> \<not> model_dirty v' m \<and> model_draftVersion m = sr_version r \<and> mw_staged v' = Some r))
     else (\<exists>p. authorization_model_POST h slug (Some (Some dsl)) i w = (w\<lparr>w_cache := c\<rparr>, Problem_json p) \<and> pb_status p = 400))"
proof -
  obtain m0 where m0: "mw_data v = Some m0" "dsl = model_draft v m0" "model_parses dsl" "\<not> isPending (mw_stage v)"
    using assms(3) unfolding stage_request by auto
  have issues: "pm_issues (parseModel dsl) = []" using m0(3) by (simp add: model_parses_def)
  have wf: "models_wf (w_models w)" using assms(1) by (simp add: console_ok_def)
  show ?thesis
  proof (cases "length dsl \<le> 64000")
    case False
    then show ?thesis using m0 assms(4)
      by (simp add: authorization_model_POST_def guarded_def with_body_def parseBody_def accept_if_def ValidateRequestSchema_ok_def problem_def)
  next
    case True
    obtain S' s' r where st: "stageModel (w_tenants w) (w_models w) slug dsl (in_now i) = (S', Inr (Inr r))" "models_wf S'" "map_get S' slug = Some s'"
        "st_draft s' = dsl" "st_draftVersion s' = Some (sr_version r)" "StageResult.sr_generation r = ts_generation t + 1"
        and live: "\<exists>s. snd (stateFor_model (w_tenants w) (w_models w) slug) = Some s \<and> st_live s' = st_live s \<and> st_liveVersion s' = st_liveVersion s"
      using stage_accepts [OF wf assms(2) issues] .
    let ?w' = "w\<lparr>w_cache := c, w_models := S'\<rparr>"
    have post: "authorization_model_POST h slug (Some (Some dsl)) i w = (?w', Json 202 (J_staged r))"
      using True parses_nonempty [OF m0(3)] assms(4) st(1)
      by (simp add: authorization_model_POST_def guarded_def with_body_def parseBody_def accept_if_def ValidateRequestSchema_ok_def
          answer_result_def Suc_le_eq)
    obtain m where m: "snd (getAuthorizationModel (w_tenants ?w') (w_models ?w') slug) = Inr (Some m)" "am_draft m = dsl"
        "am_draftVersion m = Some (sr_version r)" "am_live m = st_live s'" "am_liveVersion m = st_liveVersion s'"
      using model_read [of S' "w_tenants w" slug t s'] st assms(2) by simp
    have old: "am_live m = am_live old \<and> am_liveVersion m = am_liveVersion old"
      if "snd (getAuthorizationModel (w_tenants w) (w_models w) slug) = Inr (Some old)" for old
      using that live m(4,5) by (auto simp: getAuthorizationModel_def parse_with_def split: prod.splits option.splits if_splits)
    have screen: "let v' = run model_do v [Stage_clicked, Stage_answered (Inr r), Model_fetched m]
        in mw_data v' = Some m \<and> model_draft v' m = dsl \<and> \<not> model_dirty v' m \<and> model_draftVersion m = sr_version r \<and> mw_staged v' = Some r"
      using m0 m by (simp add: model_do_def with_model_def isPending_def model_draft_def model_dirty_def model_draftVersion_def Let_def)
    have get: "snd (getAuthorizationModel (w_tenants ?w') (w_models ?w') slug) = Inr (Some m)" by (rule m(1))
    show ?thesis unfolding if_P [OF True]
      by (intro conjI exI [of _ m0] exI [of _ ?w'] exI [of _ r] exI [of _ m])
        (rule m0(1) m0(2) post get m(2) m(3) st(6) screen | use old in blast)+
  qed
qed

text \<open>
  C32: the two verdicts on a text. Validating sends the text on screen; for a tenant the server knows and a text within the
  request's bounds it answers, and its verdict is the status line's: both say that the text parses, with the same counts, or
  both count the same issues, the first of the list at the line the status names.
\<close>

theorem model_verdicts_agree:
  assumes "tenant_of (w_tenants w) slug = Some t" and "snd (model_react v Validate_clicked) = Some (Post_validate dsl)"
    and "dsl \<noteq> []" and "length dsl \<le> 64000"
    and "guardRoute (h_platform h) (h_env h) (w_cache w) (in_request i) (int (in_now i div 1000)) = (c, Inr (operator, key))"
  shows "(\<exists>m. mw_data v = Some m \<and> dsl = model_draft v m) \<and>
    (\<exists>r. authorization_model_validate_POST h slug (Some (Some dsl)) i w = (w\<lparr>w_cache := c\<rparr>, Json 200 (J_validation r))
      \<and> (vr_ok r \<longleftrightarrow> model_parses dsl)
      \<and> (vr_ok r \<longrightarrow> validation_text r = ''DSL '' @ status_text dsl \<and> validation_list r = [])
      \<and> (\<not> vr_ok r \<longrightarrow> (\<exists>n line. validation_text r = issues_text n @ '' found'' \<and> length (validation_list r) = n
           \<and> status_text dsl = issues_text n @ '' '' @ mid_dot @ '' line '' @ line
           \<and> prefix (''line '' @ line @ '': '') (hd (validation_list r)))))"
proof -
  obtain s where s: "summarize (parseModel dsl) = Some s" "ms_types s = length (pm_types (parseModel dsl))"
      "ms_relations s = sum_list (map (\<lambda>ty. length (ty_relations ty)) (pm_types (parseModel dsl)))"
    using summarize_Some by blast
  have "\<exists>r. validateModel (w_tenants w) slug dsl = Inr (Inr r) \<and> vr_ok r = (pm_issues (parseModel dsl) = [])
      \<and> vr_types r = ms_types s \<and> vr_relations r = ms_relations s \<and> vr_depth r = ms_depth s \<and> vr_issues r = pm_issues (parseModel dsl)"
    unfolding validateModel_total assms(1) option.case s(1) option.sel s(2,3) by (intro exI conjI) (rule refl, simp_all)
  then obtain r where r: "validateModel (w_tenants w) slug dsl = Inr (Inr r)" "vr_ok r = (pm_issues (parseModel dsl) = [])"
      "vr_types r = ms_types s" "vr_relations r = ms_relations s" "vr_depth r = ms_depth s" "vr_issues r = pm_issues (parseModel dsl)"
    by blast
  have post: "authorization_model_validate_POST h slug (Some (Some dsl)) i w = (w\<lparr>w_cache := c\<rparr>, Json 200 (J_validation r))"
    using assms(3-5) r(1) by (simp add: authorization_model_validate_POST_def guarded_def with_body_def parseBody_def accept_if_def
        ValidateRequestSchema_ok_def answer_result_def Suc_le_eq)
  have good: "validation_text r = ''DSL '' @ status_text dsl \<and> validation_list r = []" if "vr_ok r"
    using that r s(1) by (simp add: validation_text_def status_text_def validation_list_def Let_def)
  have bad: "\<exists>n line. validation_text r = issues_text n @ '' found'' \<and> length (validation_list r) = n
      \<and> status_text dsl = issues_text n @ '' '' @ mid_dot @ '' line '' @ line \<and> prefix (''line '' @ line @ '': '') (hd (validation_list r))" if nv: "\<not> vr_ok r"
  proof -
    obtain j js where j: "pm_issues (parseModel dsl) = j # js" using nv r(2) by (cases "pm_issues (parseModel dsl)") simp_all
    show ?thesis
      by (rule exI [of _ "length (j # js)"], rule exI [of _ "show_nat (pi_line j)"])
        (use nv r(6) j in \<open>simp add: validation_text_def status_text_def validation_list_def Let_def\<close>)
  qed
  have "\<exists>m. mw_data v = Some m \<and> dsl = model_draft v m"
    using assms(2) by (auto simp: with_model_def split: option.splits if_splits)
  then show ?thesis using post good bad r(2) by (auto simp: model_parses_def)
qed

section \<open>Witnesses\<close>

definition demo_model :: AuthorizationModel where
  "demo_model = \<lparr>am_slug = ''acme-air'', am_liveVersion = 6, am_draftVersion = None, am_live = [], am_draft = [], am_versions = [], am_tupleCount = 0,
     am_cachedDecisions = 0\<rparr>"

definition demo_view :: ModelView where
  "demo_view = run model_do (model_start demo_model) [Edit_toggled, Draft_changed example_dsl]"

lemma demo_buttons:
  "snd (model_react demo_view Stage_clicked) = Some (Post_stage example_dsl)" "snd (model_react demo_view Validate_clicked) = Some (Post_validate example_dsl)"
  using example_issues by (simp_all add: demo_view_def model_do_def with_model_def model_start_def model_draft_def model_parses_def isPending_def)

lemma demo_length: "length example_dsl \<le> 64000" "example_dsl \<noteq> []"
  by (simp_all add: example_dsl_def)

theorem model_stage_round_witness:
  "\<exists>w' r. authorization_model_POST demo_console ''acme-air'' (Some (Some example_dsl)) demo_post boot = (w', Json 202 (J_staged r))
    \<and> StageResult.sr_generation r = 10"
proof -
  obtain t where t: "tenant_of (w_tenants boot) ''acme-air'' = Some t" "ts_generation t = 9" using tenant_of_acme by (auto simp: boot_def)
  have "w_cache boot \<in> {None, demo_cache}" by (simp add: boot_def)
  note g = demo_console_passes [OF this]
  from model_stage_round [OF boot_ok t(1) demo_buttons(1) g] demo_length(1) t(2) show ?thesis by auto
qed

theorem model_verdicts_agree_witness:
  "\<exists>r. snd (authorization_model_validate_POST demo_console ''acme-air'' (Some (Some example_dsl)) demo_post boot) = Json 200 (J_validation r)
    \<and> vr_ok r \<and> validation_text r = ''DSL '' @ status_text example_dsl"
proof -
  obtain t where t: "tenant_of (w_tenants boot) ''acme-air'' = Some t" using tenant_of_acme by (auto simp: boot_def)
  have "w_cache boot \<in> {None, demo_cache}" by (simp add: boot_def)
  note g = demo_console_passes [OF this]
  from model_verdicts_agree [OF t demo_buttons(2) demo_length(2,1) g] example_issues show ?thesis by (auto simp: model_parses_def)
qed

end
