(* ===== verification/Js_Number.thy ===== *)
theory Js_Number
  imports Js_String "HOL-Library.Log_Nat"
begin

text \<open>
  Numbers that are not whole: a positive double is a numerator over a power of two, and a quotient or product is the exact one
  rounded to 53 bits, ties to the even numerator. Values up to \<open>2 ^ 53\<close>, and not so small that the exponent
  ends: a quotient of two counts. Shown: the error of a quotient, and what \<^verbatim>\<open>toFixed\<close> and \<^verbatim>\<open>Math.round\<close> make of it.
\<close>

section \<open>Doubles\<close>

type_synonym double = "nat \<times> nat"

definition nearest :: "nat \<Rightarrow> nat \<Rightarrow> nat" where
  "nearest a b = (let q = a div b; r = a mod b in if b < 2 * r \<or> 2 * r = b \<and> odd q then Suc q else q)"

text \<open>The exponent that leaves 53 bits before the point.\<close>

definition double_exp :: "nat \<Rightarrow> nat \<Rightarrow> nat" where
  "double_exp m d = (let e = 53 + floorlog 2 d - floorlog 2 m in if d * 2 ^ 53 \<le> m * 2 ^ e then e - 1 else e)"

definition double_div :: "nat \<Rightarrow> nat \<Rightarrow> double" where
  "double_div m d = (if m = 0 then (0, 0) else (nearest (m * 2 ^ double_exp m d) d, double_exp m d))"

definition double_times :: "double \<Rightarrow> nat \<Rightarrow> double" where
  "double_times x n = double_div (fst x * n) (2 ^ snd x)"

definition Math_round :: "double \<Rightarrow> nat" where
  "Math_round x = (2 * fst x + 2 ^ snd x) div 2 ^ Suc (snd x)"

text \<open>\<^verbatim>\<open>toFixed\<close> takes the number of digits' nearest integer, the larger one of two.\<close>

definition fixed :: "nat \<Rightarrow> double \<Rightarrow> nat" where
  "fixed k x = (2 * fst x * 10 ^ k + 2 ^ snd x) div 2 ^ Suc (snd x)"

definition toFixed :: "nat \<Rightarrow> double \<Rightarrow> string" where
  "toFixed k x = show_nat (fixed k x div 10 ^ k) @ (if 0 < k then ''.'' @ pad k (fixed k x mod 10 ^ k) else [])"

section \<open>Their error\<close>

lemma nearest_error: "0 < b \<Longrightarrow> 2 * \<bar>int (nearest a b) * int b - int a\<bar> \<le> int b"
proof -
  assume b: "0 < b"
  have a: "int a = int (a div b) * int b + int (a mod b)"
    by (metis div_mult_mod_eq of_nat_add of_nat_mult)
  have r: "int (a mod b) < int b" using b by simp
  show ?thesis
  proof (cases "b < 2 * (a mod b) \<or> 2 * (a mod b) = b \<and> odd (a div b)")
    case True
    then have "nearest a b = Suc (a div b)" by (simp add: nearest_def)
    then have "int (nearest a b) * int b - int a = int b - int (a mod b)" using a by (simp add: algebra_simps)
    moreover have "int b \<le> 2 * int (a mod b)" using True by auto
    ultimately show ?thesis using r by simp
  next
    case False
    then have "nearest a b = a div b" by (auto simp: nearest_def Let_def)
    then have "int (nearest a b) * int b - int a = - int (a mod b)" using a by simp
    moreover have "2 * int (a mod b) \<le> int b" using False by auto
    ultimately show ?thesis by simp
  qed
qed

lemma nearest_le: "0 < b \<Longrightarrow> a \<le> b * c \<Longrightarrow> nearest a b \<le> c"
proof -
  assume b: "0 < b" and ac: "a \<le> b * c"
  show ?thesis
  proof (cases "a = b * c")
    case True
    then show ?thesis using b by (simp add: nearest_def)
  next
    case False
    then have "a div b < c" using ac b by (metis div_less_iff_less_mult le_neq_implies_less mult.commute)
    then show ?thesis by (auto simp: nearest_def Let_def)
  qed
qed

lemma bits_bounds: "0 < n \<Longrightarrow> 2 ^ (floorlog 2 n - 1) \<le> n \<and> n < 2 ^ floorlog 2 n \<and> 0 < floorlog 2 n"
  using floorlog_bounds [of n 2] by (cases "floorlog 2 n") auto

lemma double_exp_ge:
  assumes "0 < m" and "0 < d" and "m < d * 2 ^ 53"
  shows "d * 2 ^ 52 \<le> m * 2 ^ double_exp m d"
proof -
  let ?e = "53 + floorlog 2 d - floorlog 2 m"
  note m = bits_bounds [OF assms(1)] and d = bits_bounds [OF assms(2)]
  show ?thesis
  proof (cases "d * 2 ^ 53 \<le> m * 2 ^ ?e")
    case True
    then have "?e \<noteq> 0" using assms(3) by (intro notI) simp
    then obtain e where "?e = Suc e" by (cases ?e) auto
    then show ?thesis using True by (simp add: double_exp_def)
  next
    case False
    have "floorlog 2 m \<le> 53 + floorlog 2 d"
    proof (rule ccontr)
      assume "\<not> ?thesis"
      then have "53 + floorlog 2 d \<le> floorlog 2 m - 1" by simp
      then have "(2::nat) ^ (53 + floorlog 2 d) \<le> 2 ^ (floorlog 2 m - 1)" by (intro power_increasing) simp_all
      moreover have "d * 2 ^ 53 < 2 ^ (53 + floorlog 2 d)" using d by (simp add: power_add)
      ultimately show False using m assms(3) by linarith
    qed
    then have s: "floorlog 2 m - 1 + ?e = 52 + floorlog 2 d" using m by simp
    have "d * 2 ^ 52 \<le> 2 ^ (52 + floorlog 2 d)" using d by (simp add: power_add)
    also have "\<dots> = 2 ^ (floorlog 2 m - 1) * 2 ^ ?e" unfolding s [symmetric] power_add ..
    also have "\<dots> \<le> m * 2 ^ ?e" using m by simp
    finally show ?thesis using False by (simp add: double_exp_def)
  qed
qed

text \<open>A quotient is off by at most one part in \<open>2 ^ 53\<close>.\<close>

lemma double_div_error:
  assumes "0 < d" and "m < d * 2 ^ 53"
  shows "2 ^ 53 * \<bar>int (fst (double_div m d)) * int d - int m * 2 ^ snd (double_div m d)\<bar> \<le> int m * 2 ^ snd (double_div m d)"
proof (cases "m = 0")
  case False
  let ?a = "m * 2 ^ double_exp m d"
  let ?x = "\<bar>int (nearest ?a d) * int d - int ?a\<bar>"
  have x: "2 * ?x \<le> int d" by (rule nearest_error [OF assms(1)])
  have "d * 2 ^ 52 \<le> ?a" using double_exp_ge [OF _ assms] False by blast
  then have d: "int d * 2 ^ 52 \<le> int ?a" by (metis of_nat_le_iff of_nat_mult of_nat_numeral of_nat_power)
  have "(2::int) ^ 53 = 2 ^ 52 * 2" by simp
  then have "2 ^ 53 * ?x = 2 ^ 52 * (2 * ?x)" by (simp only: mult.assoc)
  also have "\<dots> \<le> 2 ^ 52 * int d" using x by (rule mult_left_mono) simp
  also have "\<dots> \<le> int ?a" using d by (simp only: mult.commute)
  finally show ?thesis using False by (simp only: double_div_def if_False fst_conv snd_conv of_nat_mult of_nat_power of_nat_numeral)
qed (simp add: double_div_def)

lemma double_div_le: "0 < d \<Longrightarrow> m \<le> d * c \<Longrightarrow> fst (double_div m d) \<le> c * 2 ^ snd (double_div m d)"
  by (auto simp: double_div_def algebra_simps intro!: nearest_le)

section \<open>What is shown of them\<close>

text \<open>A floor is not changed by an error that does not reach the next whole number.\<close>

lemma div_off:
  fixes x k s r p off :: int
  assumes "0 < p" and "s * x = p * (s * k + r) + off" and "\<bar>off\<bar> < p" and "1 \<le> r" and "r < s"
  shows "x div p = k"
proof -
  have "p \<le> p * r" using assms(1,4) by simp
  then have "0 < off + p * r" using assms(3) by linarith
  then have "p * (s * k) < s * x" unfolding assms(2) by (simp add: algebra_simps)
  then have "s * (p * k) < s * x" by (simp add: algebra_simps)
  then have l: "p * k \<le> x" using assms(4,5) by simp
  have "p * (r + 1) \<le> p * s" using assms by (intro mult_left_mono) simp_all
  then have "off + p * r < p * s" using assms(3) by (simp add: distrib_left)
  then have "s * x < p * (s * k) + p * s" unfolding assms(2) by (simp add: algebra_simps)
  then have "s * x < s * (p * (k + 1))" by (simp add: algebra_simps)
  then have "x < p * (k + 1)" using assms(4,5) by simp
  then show ?thesis using l assms(1) by (intro int_div_pos_eq [of x p k "x - p * k"]) (simp_all add: algebra_simps)
qed

lemma below_tie: "m mod 100 \<noteq> 50 \<Longrightarrow> 1 \<le> (int m + 50) mod 100"
proof -
  assume "m mod 100 \<noteq> 50"
  moreover have "m mod 100 < 100" by simp
  moreover have "(m + 50) mod 100 = (m mod 100 + 50) mod 100" by (simp only: mod_add_left_eq)
  ultimately have "(m + 50) mod 100 \<noteq> 0" by (cases "m mod 100 + 50 < 100") (simp_all add: le_mod_geq)
  moreover have "int ((m + 50) mod 100) = (int m + 50) mod 100" by (simp add: zmod_int)
  ultimately show ?thesis by linarith
qed

text \<open>
  A number of thousandths, shown with one digit: the nearest tenth. Half way between two, the double decides, not
  the number: the tenth above or the one below.
\<close>

lemma fixed_thousandths:
  assumes "m < 2 ^ 53" and "m mod 100 \<noteq> 50"
  shows "fixed 1 (double_div m 1000) = (m + 50) div 100"
proof -
  define q e where "q = int (fst (double_div m 1000))" and "e = snd (double_div m 1000)"
  define off where "off = q * 1000 - int m * 2 ^ e"
  have "m < 1000 * 2 ^ 53" using assms(1) by linarith
  then have "2 ^ 53 * \<bar>off\<bar> \<le> int m * 2 ^ e"
    using double_div_error [of 1000 m] unfolding off_def q_def e_def by (simp only: of_nat_numeral zero_less_numeral)
  also have "\<dots> < 2 ^ 53 * 2 ^ e"
  proof (rule mult_strict_right_mono)
    show "int m < 2 ^ 53" using assms(1) by (metis of_nat_less_iff of_nat_numeral of_nat_power)
  qed simp
  finally have "\<bar>off\<bar> < 2 ^ e" by (rule mult_left_less_imp_less) simp
  then have o: "\<bar>2 * off\<bar> < 2 ^ Suc e" by simp
  let ?k = "(int m + 50) div 100" and ?r = "(int m + 50) mod 100"
  have kr: "100 * ?k + ?r = int m + 50" by simp
  have r: "1 \<le> ?r" "?r < 100" using below_tie [OF assms(2)] by simp_all
  have "100 * (20 * q + p) = 2 * p * (int m + 50) + 2 * (q * 1000 - int m * p)" for p by (simp add: distrib_left right_diff_distrib)
  then have "(100::int) * (20 * q + 2 ^ e) = 2 ^ Suc e * (100 * ?k + ?r) + 2 * off" unfolding off_def kr power_Suc .
  from div_off [OF _ this o r] have "(20 * q + 2 ^ e) div 2 ^ Suc e = ?k" by (simp only: zero_less_numeral zero_less_power)
  moreover have "int (fixed 1 x) = (20 * int (fst x) + 2 ^ snd x) div 2 ^ Suc (snd x)" for x
    by (simp add: fixed_def zdiv_int)
  ultimately have "int (fixed 1 (double_div m 1000)) = int ((m + 50) div 100)" by (simp only: q_def e_def zdiv_int of_nat_add of_nat_numeral)
  then show ?thesis by (simp only: of_nat_eq_iff)
qed

lemma Math_round_le: "fst x \<le> c * 2 ^ snd x \<Longrightarrow> Math_round x \<le> c"
proof -
  assume "fst x \<le> c * 2 ^ snd x"
  then have "2 * fst x + 2 ^ snd x \<le> 2 * (c * 2 ^ snd x) + 2 ^ snd x" by simp
  also have "\<dots> < 2 * (c * 2 ^ snd x) + 2 * 2 ^ snd x" by simp
  finally have "2 * fst x + 2 ^ snd x < 2 ^ Suc (snd x) * Suc c" by (simp add: algebra_simps)
  then show ?thesis unfolding Math_round_def by (metis div_less_iff_less_mult less_Suc_eq_le mult.commute zero_less_numeral zero_less_power)
qed

text \<open>A percentage of a part is at most a hundred, and nothing of a whole is none of it.\<close>

definition percent_round :: "nat \<Rightarrow> nat \<Rightarrow> nat" where
  "percent_round a b = Math_round (double_times (double_div a b) 100)"

lemma percent_round_le: "0 < b \<Longrightarrow> a \<le> b \<Longrightarrow> percent_round a b \<le> 100"
proof -
  assume "0 < b" "a \<le> b"
  then have "fst (double_div a b) \<le> 1 * 2 ^ snd (double_div a b)" by (intro double_div_le) simp_all
  then show ?thesis unfolding percent_round_def double_times_def by (intro Math_round_le double_div_le) simp_all
qed

lemma percent_round_none: "percent_round 0 b = 0"
  by (simp add: percent_round_def double_times_def double_div_def Math_round_def)

end
