(* ===== verification/Screen_Text.thy ===== *)
theory Screen_Text
  imports Client_Requests Client_View Tenants Users Js_Number
begin

text \<open>
  The texts the screens put numbers, names and dates into (\<^verbatim>\<open>lib/format.ts\<close> and the \<^verbatim>\<open>format.ts\<close> of the features). Shown:
  grouping the digits of a number loses none of them, and a duration shown in seconds is the nearest tenth.
\<close>

section \<open>Numbers and dates\<close>

text \<open>A narrow no-break space, and the groups of three digits it separates.\<close>

definition thin_space :: string where
  "thin_space = [CHR 0xE2, CHR 0x80, CHR 0xAF]"

function digit_groups :: "string \<Rightarrow> string list" where
  "digit_groups s = (if length s \<le> 3 then [s] else digit_groups (take (length s - 3) s) @ [drop (length s - 3) s])"
  by pat_completeness auto

termination
  by (relation "measure length") auto

declare digit_groups.simps [simp del]

definition groupThousands :: "int \<Rightarrow> string" where
  "groupThousands n = (if n < 0 then ''-'' else []) @ join thin_space (digit_groups (show_nat (nat \<bar>n\<bar>)))"

text \<open>Milliseconds below a second, tenths of a second from there on.\<close>

definition formatDuration :: "nat \<Rightarrow> string" where
  "formatDuration ms = (if ms < 1000 then show_nat ms @ ''ms'' else toFixed 1 (double_div ms 1000) @ ''s'')"

text \<open>\<^verbatim>\<open>percent\<close> of a ratio of two counts.\<close>

definition percent :: "nat \<times> nat \<Rightarrow> nat \<Rightarrow> string" where
  "percent ratio digits = toFixed digits (double_times (double_div (fst ratio) (snd ratio)) 100) @ ''%''"

definition MONTHS :: "string list" where
  "MONTHS = [''Jan'', ''Feb'', ''Mar'', ''Apr'', ''May'', ''Jun'', ''Jul'', ''Aug'', ''Sep'', ''Oct'', ''Nov'', ''Dec'']"

definition month_day :: "instant \<Rightarrow> nat \<times> nat" where
  "month_day t = (let (y, yd) = year_of 1970 (t div 86400000); (m, d) = month_of (month_lengths y) 1 yd in (m, Suc d))"

definition utcDayTime :: "string \<Rightarrow> string" where
  "utcDayTime text' =
     (case Date_parse text' of
        None \<Rightarrow> ''undefined NaN NaN:NaNZ''
      | Some t \<Rightarrow> MONTHS ! (fst (month_day t) - 1) @ '' '' @ pad 2 (snd (month_day t)) @ '' '' @ pad 2 (getUTCHours t) @ '':''
          @ pad 2 (getUTCMinutes t) @ ''Z'')"

definition keyPreview :: "string \<Rightarrow> string" where
  "keyPreview uuid = take 4 uuid @ ''-'' @ ellipsis @ ''-'' @ last_chars 2 uuid"

section \<open>Names\<close>

text \<open>
  \<^verbatim>\<open>toUpperCase\<close> on the letters of the range that have a capital in it; the sharp s becomes two letters, and the two letters
  whose capital is above the range do not occur.
\<close>

definition upper :: "char \<Rightarrow> string" where
  "upper c =
     (let n = code c
      in if n = 223 then ''SS''
         else if 97 \<le> n \<and> n \<le> 122 \<or> 224 \<le> n \<and> n \<le> 254 \<and> n \<noteq> 247 then [char_of (n - 32)] else [c])"

definition toUpperCase :: "string \<Rightarrow> string" where
  "toUpperCase s = concat (map upper s)"

definition spaces_re :: re where
  "spaces_re = re_plus is_space"

definition name_parts :: "string \<Rightarrow> string list" where
  "name_parts name = filter (\<lambda>p. p \<noteq> []) (split_re spaces_re [] name)"

definition initialsOf :: "string \<Rightarrow> string" where
  "initialsOf name = concat (map (\<lambda>p. toUpperCase (take 1 p)) (take 2 (name_parts name)))"

definition local_parts :: "string \<Rightarrow> string list" where
  "local_parts local_name = filter (\<lambda>p. p \<noteq> []) (split_on (\<lambda>c. c \<in> set ''.-_'') local_name)"

definition initialsFor :: "string option \<Rightarrow> string \<Rightarrow> string" where
  "initialsFor name email =
     (if truthy name then initialsOf (the name)
      else (let local_name = (case split_char (CHR ''@'') email of l # _ \<Rightarrow> l | [] \<Rightarrow> [])
            in case local_parts local_name of
                 p # p' # _ \<Rightarrow> toUpperCase (take 1 p @ take 1 p')
               | _ \<Rightarrow> toUpperCase (take 2 local_name)))"

text \<open>The name of an identity provider in the tenant table; the text is "kind \<open>middle dot\<close> host".\<close>

definition idpLabel :: "string option \<Rightarrow> Phase \<Rightarrow> string" where
  "idpLabel idp phase =
     (if \<not> truthy idp then (if phase = Deleting then ''finalizing'' else em_dash)
      else (let parts = map trim (split_char (CHR 0xB7) (the idp));
                kind = (case parts of k # _ \<Rightarrow> k | [] \<Rightarrow> []);
                host = (case parts of _ # w # _ \<Rightarrow> w | _ \<Rightarrow> [])
            in if includes_str host ''microsoftonline'' then ''Entra ID''
               else if includes_str host ''google'' then ''Google''
               else if includes_str host ''okta'' then ''Okta''
               else if toLowerCase kind = ''saml'' then ''SAML''
               else if kind \<noteq> [] then toUpperCase kind else em_dash))"

section \<open>Search parameters\<close>

fun params_set :: "params \<Rightarrow> string \<Rightarrow> string \<Rightarrow> params" where
  "params_set [] k v = [(k, v)]"
| "params_set ((k', v') # ps) k v = (if k' = k then (k, v) # params_delete ps k else (k', v') # params_set ps k v)"

definition filter_href :: "string \<Rightarrow> params \<Rightarrow> string" where
  "filter_href pathname ps = (let qs = params_toString ps in if qs \<noteq> [] then pathname @ ''?'' @ qs else pathname)"

section \<open>What they keep\<close>

lemma get_params_delete [simp]: "map_get (params_delete ps k) k' = (if k' = k then None else map_get ps k')"
  by (induction ps) (auto simp: params_delete_def)

lemma get_params_set [simp]: "map_get (params_set ps k v) k' = (if k' = k then Some v else map_get ps k')"
  by (induction ps k v rule: params_set.induct) auto

lemma concat_digit_groups: "concat (digit_groups s) = s"
proof (induction s rule: digit_groups.induct)
  case (1 s)
  then show ?case by (subst digit_groups.simps) auto
qed

lemma digit_groups_width: "\<forall>g \<in> set (digit_groups s). length g \<le> 3"
proof (induction s rule: digit_groups.induct)
  case (1 s)
  show ?case
  proof (cases "length s \<le> 3")
    case True
    then show ?thesis by (subst digit_groups.simps) simp
  next
    case False
    have eq: "digit_groups s = digit_groups (take (length s - 3) s) @ [drop (length s - 3) s]"
      by (subst digit_groups.simps) (rule if_not_P [OF False])
    have "length (drop (length s - 3) s) \<le> 3" by simp
    then show ?thesis using 1 [OF False] unfolding eq by (metis Un_iff empty_iff insert_iff list.set set_append)
  qed
qed

lemma join_outside: "set sep \<inter> A = {} \<Longrightarrow> \<forall>w \<in> set ws. set w \<subseteq> A \<Longrightarrow> filter (\<lambda>c. c \<in> A) (join sep ws) = concat ws"
proof (induction sep ws rule: join.induct)
  case (2 sep w)
  then show ?case by (auto simp: filter_id_conv)
next
  case (3 sep w w' ws)
  have "filter (\<lambda>c. c \<in> A) sep = []" using 3(2) by (auto simp: filter_empty_conv)
  moreover have "filter (\<lambda>c. c \<in> A) w = w" using 3(3) by (auto simp: filter_id_conv)
  ultimately show ?case using 3 by simp
qed simp

text \<open>The digits of a grouped number, put together, are the number's.\<close>

lemma groupThousands_digits:
  assumes "0 \<le> n"
  shows "filter is_digit (groupThousands n) = show_nat (nat n)"
proof -
  let ?g = "digit_groups (show_nat (nat n))"
  have d: "set (show_nat (nat n)) \<subseteq> {c. is_digit c}" using show_nat_digits by auto
  have "\<forall>w \<in> set ?g. set w \<subseteq> {c. is_digit c}"
    using d arg_cong [OF concat_digit_groups [of "show_nat (nat n)"], of set] by auto
  moreover have "set thin_space \<inter> {c. is_digit c} = {}" by (auto simp: thin_space_def char_class_defs)
  ultimately show ?thesis using assms join_outside [of thin_space "{c. is_digit c}" ?g]
    by (simp add: groupThousands_def concat_digit_groups)
qed

text \<open>
  A duration of a second or more is shown as its nearest tenth of a second, unless it is half way between two:
  there the double decides, so 1.05s and 1.15s read the same.
\<close>

lemma formatDuration_nearest:
  assumes "1000 \<le> ms" and "ms < 2 ^ 53" and "ms mod 100 \<noteq> 50"
  shows "formatDuration ms = show_nat ((ms + 50) div 1000) @ ''.'' @ pad 1 ((ms + 50) div 100 mod 10) @ ''s''"
proof -
  have "(ms + 50) div 100 div 10 = (ms + 50) div 1000" by (simp add: div_mult2_eq [symmetric])
  then show ?thesis using assms fixed_thousandths [OF assms(2,3)] by (simp add: formatDuration_def toFixed_def)
qed

lemma halves: "fixed 1 (double_div 1050 1000) = 11" "fixed 1 (double_div 1150 1000) = 11" "fixed 1 (double_div 1250 1000) = 13"
proof -
  have "floorlog 2 1000 = 10" "floorlog 2 1050 = 11" "floorlog 2 1150 = 11" "floorlog 2 1250 = 11" by (simp_all add: compute_floorlog)
  then have "double_exp 1050 1000 = 52" "double_exp 1150 1000 = 52" "double_exp 1250 1000 = 52" by (simp_all add: double_exp_def)
  then show "fixed 1 (double_div 1050 1000) = 11" "fixed 1 (double_div 1150 1000) = 11" "fixed 1 (double_div 1250 1000) = 13"
    by (simp_all add: fixed_def double_div_def nearest_def)
qed

lemma formatDuration_halves: "formatDuration 1050 = ''1.1s''" "formatDuration 1150 = ''1.1s''" "formatDuration 1250 = ''1.3s''"
  unfolding formatDuration_def toFixed_def halves by code_simp+

end
