(* ===== verification/Users_Screen.thy ===== *)
theory Users_Screen
  imports Screen_Text
begin

text \<open>
  The users screen (\<^verbatim>\<open>features/users/components\<close>): the rows of the mirror, the search, the pages loaded, the refresh and the
  invite drawer, as state machines over the operator's actions and the server's answers. Shown: what an invitation
  sends and how the server answers it, what the rows and the footer say, and two defects (a second Enter
  hides an accepted invitation behind an error; the footer counts users that are never listed).
\<close>

section \<open>The list\<close>

definition users_params :: "UsersFilter \<Rightarrow> string option \<Rightarrow> params" where
  "users_params f cursor =
     (if truthy (uf_q f) then [(''q'', the (uf_q f))] else []) @ (if truthy cursor then [(''cursor'', the cursor)] else [])"

definition users_listUrl :: "string \<Rightarrow> UsersFilter \<Rightarrow> string option \<Rightarrow> string" where
  "users_listUrl slug f cursor =
     (let qs = params_toString (users_params f cursor)
      in ''/api/tenants/'' @ encodeURIComponent slug @ ''/users'' @ (if qs \<noteq> [] then ''?'' @ qs else []))"

definition titled_problem :: "string \<Rightarrow> BffError + string \<Rightarrow> string \<times> string option" where
  "titled_problem title e =
     (case e of Inl b \<Rightarrow> (show_nat (be_status b) @ '' '' @ mid_dot @ '' '' @ be_title b, be_detail b) | Inr message \<Rightarrow> (title, Some message))"

definition refresh_problem :: "BffError + string \<Rightarrow> string \<times> string option" where
  "refresh_problem = titled_problem ''Refresh failed''"

definition invite_problem :: "BffError + string \<Rightarrow> string \<times> string option" where
  "invite_problem = titled_problem ''Invite failed''"

text \<open>The search box: the term goes to the URL when submitted, or on leaving the field when it changed.\<close>

definition search_href :: "string \<Rightarrow> string \<Rightarrow> string" where
  "search_href pathname term =
     (let q = trim term; qs = params_toString (if q \<noteq> [] then [(''q'', q)] else [])
      in if qs \<noteq> [] then pathname @ ''?'' @ qs else pathname)"

definition search_blur :: "string \<Rightarrow> string \<Rightarrow> string \<Rightarrow> string option" where
  "search_blur pathname initial text' = (if trim text' \<noteq> trim initial then Some (search_href pathname text') else None)"

definition avatarClasses :: "UserRecord \<Rightarrow> Tone" where
  "avatarClasses u =
     (if us_state u = Unmanaged_user then Drift_tone
      else if list_ex (\<lambda>r. ur_state r = Staged_role \<or> ur_state r = Drift_role) (us_roles u) then Drift_tone
      else if list_ex (\<lambda>r. ur_name r = ''tenant_admin'') (us_roles u) then Link else Neutral)"

definition RoleLabel :: "UserRole \<Rightarrow> string \<times> Tone" where
  "RoleLabel r =
     (case ur_state r of
        Staged_role \<Rightarrow> (ur_name r @ ''*'', Ready_tone)
      | Drift_role \<Rightarrow> (ur_name r @ '' (drift)'', Drift_tone)
      | Applied_role \<Rightarrow> (ur_name r, Neutral))"

text \<open>A row: avatar, name, caption, subject, roles, the tuples cell (a pending delete or a link with its count), and the chip.\<close>

record UsersRow =
  ux_avatar :: "string \<times> Tone"
  ux_name :: string
  ux_caption :: string
  ux_subject :: string
  ux_roles :: "(string \<times> Tone) list"
  ux_tuples :: "string + (string \<times> nat)"
  ux_state :: Tone

definition tuples_cell :: "string \<Rightarrow> UserRecord \<Rightarrow> string + (string \<times> nat)" where
  "tuples_cell slug u =
     (if 0 < us_pendingDeletes u
      then Inl (show_nat (us_pendingDeletes u) @ '' pending delete'' @ (if us_pendingDeletes u = 1 then [] else ''s''))
      else Inr (''/tenants/'' @ encodeURIComponent slug @ ''/relations?user='' @ encodeURIComponent (us_subject u), us_tupleCount u))"

definition users_row :: "string \<Rightarrow> UserRecord \<Rightarrow> UsersRow" where
  "users_row slug u =
     (let unmanaged = (us_state u = Unmanaged_user)
      in \<lparr>ux_avatar = (initialsFor (us_name u) (us_email u), avatarClasses u),
          ux_name = (case us_name u of Some n \<Rightarrow> n | None \<Rightarrow> us_email u),
          ux_caption = (if unmanaged then ''not in desired state'' else us_email u), ux_subject = us_subject u,
          ux_roles = (if us_roles u = [] then [(em_dash, Neutral)] else map RoleLabel (us_roles u)), ux_tuples = tuples_cell slug u,
          ux_state = (if unmanaged then Drift_tone else Ready_tone)\<rparr>)"

definition UsersTable :: "string \<Rightarrow> UserRecord list \<Rightarrow> UsersRow list" where
  "UsersTable slug items = map (users_row slug) items"

section \<open>The view\<close>

text \<open>\<open>ul_pages\<close> are the pages the query client has loaded, in order.\<close>

record UsersView =
  ul_pages :: "UsersPage list"
  ul_inviteOpen :: bool
  ul_refreshed :: "RefreshResult option"
  ul_refresh :: "unit mutation"
  ul_fetching :: bool

definition users_items :: "UsersView \<Rightarrow> UserRecord list" where
  "users_items v = concat (map up_items (ul_pages v))"

definition users_remaining :: "UsersView \<Rightarrow> nat" where
  "users_remaining v = (case ul_pages v of [] \<Rightarrow> 0 | p # _ \<Rightarrow> up_total p - length (users_items v))"

definition users_hasNextPage :: "UsersView \<Rightarrow> bool" where
  "users_hasNextPage v \<longleftrightarrow> ul_pages v \<noteq> [] \<and> up_nextCursor (last (ul_pages v)) \<noteq> None"

definition run_href :: "string \<Rightarrow> string" where
  "run_href runId = ''/reconcile-runs/'' @ encodeURIComponent runId"

definition match_text :: "UsersPage \<Rightarrow> UsersFilter \<Rightarrow> string option" where
  "match_text p f =
     (if truthy (uf_q f)
      then Some (groupThousands (int (up_total p)) @ '' match'' @ (if up_total p = 1 then [] else ''es'') @ '' for '' @ the (uf_q f)) else None)"

definition mirror_text :: "UsersPage \<Rightarrow> string" where
  "mirror_text p = groupThousands (int (up_userCount p)) @ '' users '' @ mid_dot @ '' last refreshed ''
     @ relativeAge (Some (up_lastRefreshedAt p)) (Date_parse (up_asOf p)) @ '' by resync run ''
     @ (case up_lastRefreshRunId p of Some i \<Rightarrow> take 4 i | None \<Rightarrow> [])"

definition refreshed_text :: "RefreshResult \<Rightarrow> string" where
  "refreshed_text r = ''resync enqueued '' @ mid_dot @ '' run '' @ (case rf_runId r of Some i \<Rightarrow> take 4 i | None \<Rightarrow> []) @ '' refreshes the mirror''"

definition users_empty_text :: "UsersFilter \<Rightarrow> string \<times> string" where
  "users_empty_text f =
     (if truthy (uf_q f)
      then (''No users match this search'', ''Search matches email, subject and name. Clear the term to see the whole mirror.'')
      else (''No users in the mirror yet'', ''The mirror fills when the IdP reports accounts and a resync run copies them here.''))"

datatype users_event =
    Refresh_clicked | Refresh_answered "(BffError + string) + RefreshResult" | Refresh_dismissed | Invite_opened | Invite_closed
  | Load_more | Page_arrived UsersPage

datatype users_request = Post_refresh | Get_users "string option"

fun users_react :: "UsersView \<Rightarrow> users_event \<Rightarrow> UsersView \<times> users_request option" where
  "users_react v Refresh_clicked = (if isPending (ul_refresh v) then (v, None) else (v\<lparr>ul_refresh := M_pending ()\<rparr>, Some Post_refresh))"
| "users_react v (Refresh_answered res) =
     (if isPending (ul_refresh v) then
        (case res of Inl e \<Rightarrow> v\<lparr>ul_refresh := M_error e\<rparr> | Inr r \<Rightarrow> v\<lparr>ul_refresh := M_success, ul_refreshed := Some r\<rparr>)
      else v, None)"
| "users_react v Refresh_dismissed = (case ul_refresh v of M_error _ \<Rightarrow> v\<lparr>ul_refresh := M_idle\<rparr> | _ \<Rightarrow> v, None)"
| "users_react v Invite_opened = (v\<lparr>ul_inviteOpen := True\<rparr>, None)"
| "users_react v Invite_closed = (v\<lparr>ul_inviteOpen := False\<rparr>, None)"
| "users_react v Load_more =
     (if users_hasNextPage v \<and> \<not> ul_fetching v then (v\<lparr>ul_fetching := True\<rparr>, Some (Get_users (up_nextCursor (last (ul_pages v)))))
      else (v, None))"
| "users_react v (Page_arrived p) = (v\<lparr>ul_pages := ul_pages v @ [p], ul_fetching := False\<rparr>, None)"

section \<open>The invite drawer\<close>

text \<open>The invitations under way are numbered: Enter in the form sends one even while another is under way.\<close>

record InviteDrawer =
  id_email :: string
  id_role :: string
  id_validation :: "string option"
  id_sent :: "InviteResult option"
  id_asking :: "(nat \<times> InviteRequest) list"
  id_asked :: nat
  id_invite :: "InviteRequest mutation"

definition drawer_start :: "string list \<Rightarrow> InviteDrawer" where
  "drawer_start roles = \<lparr>id_email = [], id_role = (case roles of r # _ \<Rightarrow> r | [] \<Rightarrow> []), id_validation = None, id_sent = None,
     id_asking = [], id_asked = 0, id_invite = M_idle\<rparr>"

text \<open>\<open>zod_invite\<close> is the text the schema library gives for the first failing field.\<close>

definition invite_submit :: "(string \<Rightarrow> bool) \<Rightarrow> (InviteRequest \<Rightarrow> string) \<Rightarrow> InviteDrawer \<Rightarrow> InviteDrawer \<times> InviteRequest option" where
  "invite_submit is_email zod_invite d =
     (let raw = \<lparr>iv_email = trim (id_email d), iv_role = id_role d\<rparr>
      in case InviteRequestSchema_parse is_email raw of
           Inl _ \<Rightarrow> (d\<lparr>id_validation := Some (zod_invite raw)\<rparr>, None)
         | Inr request \<Rightarrow>
             (d\<lparr>id_validation := None, id_sent := None, id_asking := (id_asked d, request) # id_asking d, id_asked := Suc (id_asked d),
                id_invite := M_pending request\<rparr>, Some request))"

definition invite_disabled :: "InviteDrawer \<Rightarrow> bool" where
  "invite_disabled d \<longleftrightarrow> isPending (id_invite d) \<or> trim (id_email d) = [] \<or> id_role d = []"

definition sent_text :: "InviteResult \<Rightarrow> string \<times> string" where
  "sent_text r = (''Invite sent to '' @ iv_to r, ''role '' @ iv_granted r @ '' '' @ mid_dot @ '' '' @ iv_inviteId r @ '' '' @ mid_dot
     @ '' expires '' @ take 10 (iv_expiresAt r))"

datatype invite_event =
    Email_typed string | Role_picked string | Invite_clicked | Invite_entered | Invite_answered nat InviteRequest "(BffError + string) + InviteResult"
  | Invite_dismissed

definition invite_answered :: "nat \<Rightarrow> InviteRequest \<Rightarrow> (BffError + string) + InviteResult \<Rightarrow> InviteDrawer \<Rightarrow> InviteDrawer" where
  "invite_answered n request res d =
     (if (n, request) \<notin> set (id_asking d) then d
      else (let d = d\<lparr>id_asking := removeAll (n, request) (id_asking d),
              id_invite := (if Suc n = id_asked d then (case res of Inl e \<Rightarrow> M_error e | Inr _ \<Rightarrow> M_success) else id_invite d)\<rparr>
            in case res of Inl _ \<Rightarrow> d | Inr r \<Rightarrow> d\<lparr>id_sent := Some r, id_email := []\<rparr>))"

fun invite_react :: "(string \<Rightarrow> bool) \<Rightarrow> (InviteRequest \<Rightarrow> string) \<Rightarrow> InviteDrawer \<Rightarrow> invite_event \<Rightarrow> InviteDrawer \<times> InviteRequest option" where
  "invite_react is_email zi d (Email_typed s) = (d\<lparr>id_email := s\<rparr>, None)"
| "invite_react is_email zi d (Role_picked r) = (d\<lparr>id_role := r\<rparr>, None)"
| "invite_react is_email zi d Invite_clicked = (if invite_disabled d then (d, None) else invite_submit is_email zi d)"
| "invite_react is_email zi d Invite_entered = invite_submit is_email zi d"
| "invite_react is_email zi d (Invite_answered n request res) = (invite_answered n request res d, None)"
| "invite_react is_email zi d Invite_dismissed = (case id_invite d of M_error _ \<Rightarrow> d\<lparr>id_invite := M_idle\<rparr> | _ \<Rightarrow> d, None)"

definition invite_do :: "(string \<Rightarrow> bool) \<Rightarrow> (InviteRequest \<Rightarrow> string) \<Rightarrow> InviteDrawer \<Rightarrow> invite_event \<Rightarrow> InviteDrawer" where
  "invite_do is_email zi d x = fst (invite_react is_email zi d x)"

section \<open>What they show and send\<close>

lemma submit_sends:
  assumes "snd (invite_react is_email zi d x) = Some request"
  shows "InviteRequestSchema_parse is_email request = Inr request \<and> iv_email request = trim (id_email d) \<and> iv_role request = trim (id_role d)"
  using assms by (cases x) (auto simp: invite_submit_def InviteRequestSchema_parse_def Let_def split: if_splits)

text \<open>
  A role picked from those the server offered is never refused as unknown: the answer to an invitation is the invitation, or
  409 when the address is in the mirror or was invited before, in any letter case.
\<close>

lemma invite_round:
  assumes "snd (invite_react is_email zi d x) = Some request" and "tenant_of T slug = Some tenant"
    and "ms_lastRefreshRunId (mirror_of S slug) \<noteq> None" and "snd (listUsers T S slug f cursor limit) = Inr (Some page)"
    and "id_role d \<in> set (up_inviteRoles page)" and "trim (id_role d) = id_role d"
  shows "snd (inviteUser T S slug request now) =
     (if member tenant (toLowerCase (iv_email request)) \<or> toLowerCase (iv_email request) \<in> set (ms_invited (mirror_of S slug))
      then Inl (already_member (toLowerCase (iv_email request)))
      else Inr \<lparr>iv_inviteId = ''inv_'' @ hex12 (slug @ '':'' @ toLowerCase (iv_email request)), iv_to = toLowerCase (trim (id_email d)),
             iv_granted = id_role d, iv_expiresAt = toISOString (now + 7 * 24 * 60 * 60000)\<rparr>)"
proof -
  have "iv_email request = trim (id_email d)" "iv_role request = id_role d" using submit_sends [OF assms(1)] assms(6) by auto
  moreover have "id_role d \<in> set (specRoles (de_roles (td_desired tenant)))" using assms(4,5) by (auto simp: listUsers_view [OF assms(2,3)])
  ultimately show ?thesis by (simp add: inviteUser_view(2) [OF assms(2)] invitable_def)
qed

text \<open>
  Enter sends the invitation again while it is under way. The server accepts the first and refuses the second, and the
  drawer then shows the refusal above the invitation that was sent.
\<close>

lemma second_enter_refused:
  assumes "tenant_of T slug = Some tenant" and "inviteUser T S slug request now = (S', Inr r)"
  shows "snd (inviteUser T S' slug request now') = Inl (already_member (toLowerCase (iv_email request)))"
proof -
  have i: "invitable tenant S slug request" using inviteUser_view(2) [OF assms(1), of S request now] assms(2) by (auto split: if_splits)
  then have "mirror_of S' slug = (mirror_of S slug)\<lparr>ms_invited := ms_invited (mirror_of S slug) @ [toLowerCase (iv_email request)]\<rparr>"
    using inviteUser_view(1) [OF assms(1), of S request now] assms(2) by simp
  then show ?thesis using i by (simp add: inviteUser_view(2) [OF assms(1)] invitable_def)
qed

lemma second_enter_hides_success:
  assumes "InviteRequestSchema_parse is_email \<lparr>iv_email = trim (id_email d), iv_role = id_role d\<rparr> = Inr request"
    and "d' = run (invite_do is_email zi) d [Invite_entered, Invite_entered, Invite_answered (id_asked d) request (Inr r),
           Invite_answered (Suc (id_asked d)) request (Inl e)]"
  shows "snd (invite_react is_email zi (invite_do is_email zi d Invite_entered) Invite_entered) = Some request"
    and "id_invite d' = M_error e" and "id_sent d' = Some r" and "id_email d' = []"
  using assms by (simp_all add: invite_do_def invite_submit_def invite_answered_def Let_def)

text \<open>
  The footer. With a search it counts exactly the users on the pages not loaded yet; without one it counts to the tenant's
  user count, which is not the number of rows the mirror lists: once every page is loaded the difference stays, with nothing to load.
\<close>

lemma remaining_exact:
  assumes "tenant_of T slug = Some tenant" and "ms_lastRefreshRunId (mirror_of S slug) \<noteq> None" and "0 < limit"
    and "snd (listUsers T S slug f None limit) = Inr (Some p)" and "v = v0\<lparr>ul_pages := [p]\<rparr>"
  shows "users_hasNextPage v \<longleftrightarrow> limit < length (user_rows tenant f)"
    and "users_remaining v = (if truthy (uf_q f) then length (user_rows tenant f) else de_userCount (td_desired tenant)) - min limit (length (user_rows tenant f))"
proof -
  let ?rows = "user_rows tenant f"
  have p: "up_items p = slice 0 limit ?rows" "up_nextCursor p = (if length (slice 0 limit ?rows) < length ?rows then Some (offset_cursor (length (slice 0 limit ?rows))) else None)"
    "up_total p = (if truthy (uf_q f) then length ?rows else de_userCount (td_desired tenant))"
    using assms(4) by (auto simp: listUsers_view [OF assms(1,2)] offset_page_def Let_def)
  have n: "length (slice 0 limit ?rows) = min limit (length ?rows)" by (simp add: length_slice)
  show "users_hasNextPage v \<longleftrightarrow> limit < length ?rows" using assms(5) by (simp add: users_hasNextPage_def p(2) n min_less_iff_disj)
  show "users_remaining v = (if truthy (uf_q f) then length ?rows else de_userCount (td_desired tenant)) - min limit (length ?rows)"
    using assms(5) by (simp add: users_remaining_def users_items_def p(1,3) n)
qed

lemma footer_counts_unlisted:
  assumes "tenant_of T slug = Some tenant" and "ms_lastRefreshRunId (mirror_of S slug) \<noteq> None" and "length (user_rows tenant f) \<le> limit" and "0 < limit"
    and "\<not> truthy (uf_q f)" and "snd (listUsers T S slug f None limit) = Inr (Some p)" and "v = v0\<lparr>ul_pages := [p]\<rparr>"
  shows "\<not> users_hasNextPage v" and "users_remaining v = de_userCount (td_desired tenant) - length (user_rows tenant f)"
  using remaining_exact [OF assms(1,2,4,6,7)] assms(3,5) by (simp_all add: min_def)

end
