(* ===== verification/Roles_Screen.thy ===== *)
theory Roles_Screen
  imports Screen_Text Roles
begin

text \<open>
  The roles screen (\<^verbatim>\<open>features/roles/components\<close>): the matrix, the inspector of the selected role and its delete guard, as a
  state machine over selections, deletions, answers and refetches. Shown: what the matrix and the guard say is what the
  server does, and that the confirmation of a deletion is never displayed.
\<close>

section \<open>Matrix and inspector\<close>

definition pickDefault :: "Role list \<Rightarrow> string option" where
  "pickDefault roles =
     (case List.find ro_staged roles of
        Some r \<Rightarrow> Some (ro_key r)
      | None \<Rightarrow> (case roles of r # _ \<Rightarrow> Some (ro_key r) | [] \<Rightarrow> None))"

definition selected_role :: "Role list \<Rightarrow> string option \<Rightarrow> Role option" where
  "selected_role roles selectedKey =
     (case List.find (\<lambda>r. Some (ro_key r) = selectedKey) roles of
        Some r \<Rightarrow> Some r
      | None \<Rightarrow> List.find (\<lambda>r. Some (ro_key r) = pickDefault roles) roles)"

definition roles_meta :: "Role list \<Rightarrow> string" where
  "roles_meta roles = show_nat (length (filter (\<lambda>r. \<not> ro_staged r) roles)) @ '' roles '' @ mid_dot @ '' spec-owned''"

definition roles_footer :: "RolesResponse \<Rightarrow> string" where
  "roles_footer d = ''spec generation '' @ show_nat (rr_specGeneration d) @ '' '' @ mid_dot @ '' '' @ show_nat (length (filter ro_staged (rr_items d)))
     @ '' staged '' @ mid_dot @ '' roles bind to tuples through relation names, so a bound role cannot be deleted''"

definition role_href :: "string \<Rightarrow> string \<Rightarrow> string" where
  "role_href pathname key = pathname @ ''?'' @ params_toString [(''role'', key)]"

definition role_caption :: "Role \<Rightarrow> string" where
  "role_caption role =
     (if ro_staged role then ''staged in gen '' @ show_nat (ro_generation role) @ '' '' @ mid_dot @ '' not applied''
      else case ro_unusedDays role of
        Some d \<Rightarrow> show_int (ro_users role) @ '' users '' @ mid_dot @ '' unused '' @ show_nat d @ ''d''
      | None \<Rightarrow> show_int (ro_users role) @ '' users '' @ mid_dot @ '' from spec'')"

datatype key_tone = Staged_key | Dimmed_key | Plain_key

text \<open>A row: key, tone of the key, caption, a dot per permission of the header, and whether it is selected.\<close>

definition matrix_row :: "string option \<Rightarrow> Role \<Rightarrow> string \<times> key_tone \<times> string \<times> bool list \<times> bool" where
  "matrix_row selectedKey role =
     (ro_key role, if ro_staged role then Staged_key else if ro_unusedDays role \<noteq> None then Dimmed_key else Plain_key, role_caption role,
      map (\<lambda>p. p \<in> set (ro_permissions role)) PERMISSIONS, Some (ro_key role) = selectedKey)"

definition RolesMatrix :: "Role list \<Rightarrow> string option \<Rightarrow> (string \<times> key_tone \<times> string \<times> bool list \<times> bool) list" where
  "RolesMatrix roles selectedKey = map (matrix_row selectedKey) roles"

definition inspector_rows :: "Role \<Rightarrow> (string \<times> string) list" where
  "inspector_rows role =
     [(''key'', ro_key role), (''permissions'', show_nat (length (ro_permissions role))), (''bound tuples'', show_int (ro_boundTuples role)),
      (''source'', ''spec gen '' @ show_nat (ro_generation role) @ (if ro_staged role then '' '' @ mid_dot @ '' staged'' else []))]"

definition guard_text :: "Role \<Rightarrow> string" where
  "guard_text role =
     (if 0 < ro_boundTuples role
      then ro_key role @ '' is bound to '' @ show_int (ro_boundTuples role) @ '' tuple'' @ (if ro_boundTuples role = 1 then [] else ''s'')
           @ ''. Deleting it returns 409 until those relations are removed.''
      else ro_key role @ '' is bound to 0 tuples. Deleting it stages the removal into the next spec generation (202).'')"

definition delete_problem :: "BffError + string \<Rightarrow> string \<times> string option" where
  "delete_problem e =
     (case e of Inl b \<Rightarrow> (show_nat (be_status b) @ '' '' @ mid_dot @ '' '' @ be_title b, be_detail b) | Inr message \<Rightarrow> (''Delete failed'', Some message))"

section \<open>The view\<close>

text \<open>
  The inspector is mounted per selected role (\<^verbatim>\<open>key={selected.key}\<close>): another selection gives a fresh one. Its mutation's
  callbacks run also when it is gone.
\<close>

record RoleInspector =
  ri_mount :: nat
  ri_key :: string
  ri_lastDeleted :: "RoleDeleteResult option"
  ri_remove :: "string mutation"

record RolesView =
  rv_data :: RolesResponse
  rv_selectedKey :: "string option"
  rv_inspector :: "RoleInspector option"
  rv_mounts :: nat
  rv_removing :: "(nat \<times> string) list"

definition fresh_inspector :: "nat \<Rightarrow> string \<Rightarrow> RoleInspector" where
  "fresh_inspector n key = \<lparr>ri_mount = n, ri_key = key, ri_lastDeleted = None, ri_remove = M_idle\<rparr>"

text \<open>A render: the inspector of the role that is selected now.\<close>

definition mount_inspector :: "RolesView \<Rightarrow> RolesView" where
  "mount_inspector v =
     (case selected_role (rr_items (rv_data v)) (rv_selectedKey v) of
        None \<Rightarrow> v\<lparr>rv_inspector := None\<rparr>
      | Some role \<Rightarrow>
          (case rv_inspector v of
             Some i \<Rightarrow> if ri_key i = ro_key role then v
                       else v\<lparr>rv_inspector := Some (fresh_inspector (rv_mounts v) (ro_key role)), rv_mounts := Suc (rv_mounts v)\<rparr>
           | None \<Rightarrow> v\<lparr>rv_inspector := Some (fresh_inspector (rv_mounts v) (ro_key role)), rv_mounts := Suc (rv_mounts v)\<rparr>))"

definition roles_start :: "RolesResponse \<Rightarrow> string option \<Rightarrow> RolesView" where
  "roles_start data initialRole = mount_inspector \<lparr>rv_data = data, rv_selectedKey = initialRole, rv_inspector = None, rv_mounts = 0, rv_removing = []\<rparr>"

datatype roles_event =
    Role_selected string | Delete_clicked | Delete_answered nat string "(BffError + string) + RoleDeleteResult" | Roles_fetched RolesResponse

definition on_inspector :: "nat \<Rightarrow> (RoleInspector \<Rightarrow> RoleInspector) \<Rightarrow> RolesView \<Rightarrow> RolesView" where
  "on_inspector n f v =
     (case rv_inspector v of
        Some i \<Rightarrow> if ri_mount i = n then v\<lparr>rv_inspector := Some (f i)\<rparr> else v
      | None \<Rightarrow> v)"

fun roles_react :: "RolesView \<Rightarrow> roles_event \<Rightarrow> RolesView \<times> string option" where
  "roles_react v (Role_selected key) = (mount_inspector (v\<lparr>rv_selectedKey := Some key\<rparr>), None)"
| "roles_react v Delete_clicked =
     (case rv_inspector v of
        None \<Rightarrow> (v, None)
      | Some i \<Rightarrow>
          if isPending (ri_remove i) then (v, None)
          else (v\<lparr>rv_inspector := Some (i\<lparr>ri_remove := M_pending (ri_key i)\<rparr>), rv_removing := (ri_mount i, ri_key i) # rv_removing v\<rparr>, Some (ri_key i)))"
| "roles_react v (Delete_answered n key res) =
     (if (n, key) \<notin> set (rv_removing v) then (v, None)
      else (let v = v\<lparr>rv_removing := removeAll (n, key) (rv_removing v)\<rparr>
            in case res of
                 Inl e \<Rightarrow> (on_inspector n (\<lambda>i. i\<lparr>ri_remove := M_error e\<rparr>) v, None)
               | Inr r \<Rightarrow>
                   (mount_inspector ((on_inspector n (\<lambda>i. i\<lparr>ri_remove := M_success, ri_lastDeleted := Some r\<rparr>) v)\<lparr>rv_selectedKey := None\<rparr>), None)))"
| "roles_react v (Roles_fetched d) = (mount_inspector (v\<lparr>rv_data := d\<rparr>), None)"

definition roles_do :: "RolesView \<Rightarrow> roles_event \<Rightarrow> RolesView" where
  "roles_do v x = fst (roles_react v x)"

text \<open>The line that confirms a deletion, in the inspector of the role shown.\<close>

definition deleted_notice :: "RolesView \<Rightarrow> string option" where
  "deleted_notice v =
     (case rv_inspector v of
        None \<Rightarrow> None
      | Some i \<Rightarrow>
          (case ri_lastDeleted i of
             None \<Rightarrow> None
           | Some r \<Rightarrow>
               if rd_key r \<noteq> ri_key i then Some (rd_key r @ '' removed '' @ mid_dot @ '' staged into generation '' @ show_nat (rd_generation r)) else None))"

section \<open>What they say\<close>

lemma matrix_dots:
  assumes "row \<in> set (RolesMatrix roles selectedKey)"
  shows "\<exists>role \<in> set roles. fst row = ro_key role \<and> map snd (filter fst (zip (fst (snd (snd (snd row)))) PERMISSIONS)) = filter (\<lambda>p. p \<in> set (ro_permissions role)) PERMISSIONS"
  using assms by (auto simp: RolesMatrix_def matrix_row_def PERMISSIONS_def)

lemma selected_listed: "selected_role roles k = Some r \<Longrightarrow> r \<in> set roles"
  unfolding selected_role_def by (auto simp: find_Some_iff split: option.splits)

text \<open>The guard's sentence announces the server's answer: 409 for a bound role, an accepted deletion for one that is not.\<close>

lemma guard_text_honest:
  assumes "roles.view T S slug = Some items" and "tenant_of T slug = Some t" and "distinct (map ro_key items)" and "role \<in> set items"
  shows "if 0 < ro_boundTuples role
     then includes_str (guard_text role) ''returns 409'' \<and> snd (deleteRole T S slug (ro_key role) now) = Inr (Inl (role_bound (ro_key role) (ro_boundTuples role)))
     else guard_text role = ro_key role @ '' is bound to 0 tuples. Deleting it stages the removal into the next spec generation (202).''
       \<and> (\<exists>r. snd (deleteRole T S slug (ro_key role) now) = Inr (Inr r) \<and> rd_key r = ro_key role)"
proof -
  have f: "List.find (\<lambda>r. ro_key r = ro_key role) items = Some role"
    using assms(3,4) by (induction items) auto
  have inc: "includes_str (xs @ ys) p" if "includes_str ys p" for xs ys p
    using that by (induction xs) simp_all
  have "includes_str ''. Deleting it returns 409 until those relations are removed.'' ''returns 409''" by code_simp
  then have "includes_str (guard_text role) ''returns 409''" if "0 < ro_boundTuples role"
    using that unfolding guard_text_def if_P [OF that] append_assoc [symmetric] by (rule_tac inc)
  then show ?thesis by (simp add: deleteRole_view(2) [OF assms(1,2)] f guard_text_def)
qed

definition notice_ok :: "RolesView \<Rightarrow> bool" where
  "notice_ok v \<longleftrightarrow>
     (case rv_inspector v of
        None \<Rightarrow> True
      | Some i \<Rightarrow> ri_mount i < rv_mounts v \<and> (\<forall>key. (ri_mount i, key) \<in> set (rv_removing v) \<longrightarrow> key = ri_key i)
          \<and> (\<forall>r. ri_lastDeleted i = Some r \<longrightarrow> rd_key r = ri_key i))
     \<and> (\<forall>(n, key) \<in> set (rv_removing v). n < rv_mounts v)"

text \<open>An answer names the role it was asked to delete.\<close>

definition names_asked :: "roles_event \<Rightarrow> bool" where
  "names_asked x \<longleftrightarrow> (case x of Delete_answered n key (Inr r) \<Rightarrow> rd_key r = key | _ \<Rightarrow> True)"

lemma notice_ok_mount: "notice_ok v \<Longrightarrow> notice_ok (mount_inspector v)"
  by (fastforce simp: notice_ok_def mount_inspector_def fresh_inspector_def split: option.splits)

lemma notice_ok_frame [simp]:
  "notice_ok (v\<lparr>rv_selectedKey := k\<rparr>) = notice_ok v" "notice_ok (v\<lparr>rv_data := d\<rparr>) = notice_ok v"
  by (simp_all add: notice_ok_def split: option.split)

lemma notice_ok_answer:
  assumes "notice_ok v" and "(n, key) \<in> set (rv_removing v)" and "\<And>i. ri_key (f i) = ri_key i" and "\<And>i. ri_mount (f i) = ri_mount i"
    and "\<And>i r. ri_lastDeleted (f i) = Some r \<Longrightarrow> ri_lastDeleted i = Some r \<or> rd_key r = key"
  shows "notice_ok (on_inspector n f (v\<lparr>rv_removing := removeAll (n, key) (rv_removing v)\<rparr>))"
  using assms(1,2) by (auto simp: notice_ok_def on_inspector_def assms(3,4) split: option.splits dest!: assms(5))

lemma notice_ok_step:
  assumes "notice_ok v" and "names_asked x"
  shows "notice_ok (roles_do v x)"
proof (cases x)
  case Delete_clicked
  then show ?thesis using assms(1) by (auto simp: roles_do_def notice_ok_def split: option.split)
next
  case (Delete_answered n key res)
  show ?thesis
  proof (cases "(n, key) \<in> set (rv_removing v)")
    case False
    then show ?thesis using Delete_answered assms(1) by (simp add: roles_do_def)
  next
    case True
    show ?thesis
    proof (cases res)
      case (Inl e)
      then show ?thesis using Delete_answered True notice_ok_answer [OF assms(1) True, of "\<lambda>i. i\<lparr>ri_remove := M_error e\<rparr>"]
        by (simp add: roles_do_def Let_def)
    next
      case (Inr r)
      have "rd_key r = key" using assms(2) Delete_answered Inr by (simp add: names_asked_def)
      then show ?thesis
        using Delete_answered Inr True notice_ok_answer [OF assms(1) True, of "\<lambda>i. i\<lparr>ri_remove := M_success, ri_lastDeleted := Some r\<rparr>"]
        by (simp add: roles_do_def Let_def notice_ok_mount)
    qed
  qed
qed (use assms(1) in \<open>simp_all add: roles_do_def notice_ok_mount\<close>)

text \<open>
  The confirmation is dead code. The inspector is remounted for every role, so it only ever holds the deletion of its own role,
  which is the one case in which the line is not shown.
\<close>

lemma confirmation_never_shown:
  assumes "list_all names_asked xs"
  shows "deleted_notice (run roles_do (roles_start data initialRole) xs) = None"
proof -
  have "notice_ok (run roles_do v xs)" if "notice_ok v" for v
    using that assms by (induction xs arbitrary: v) (simp_all add: notice_ok_step)
  moreover have "notice_ok (roles_start data initialRole)" unfolding roles_start_def by (rule notice_ok_mount) (simp add: notice_ok_def)
  ultimately have "notice_ok (run roles_do (roles_start data initialRole) xs)" by blast
  then show ?thesis by (auto simp: notice_ok_def deleted_notice_def split: option.split)
qed

lemma delete_names_asked:
  assumes "deleteRole T S slug key now = (S', Inr (Inr r))"
  shows "rd_key r = key"
  using assms by (auto simp: deleteRole_def Let_def parse_with_def split: prod.splits option.splits if_splits)

end
