(* ===== verification/Tenants_Screen.thy ===== *)
theory Tenants_Screen
  imports Screen_Text New_Tenant
begin

text \<open>
  The tenants list and the first step of the create wizard (\<^verbatim>\<open>features/tenants/components\<close>): filter pills, search box, table, pager
  and texts over the page the server answered, and what each control of the identity step dispatches. Shown: where the links
  lead, that the filter described is the one applied, and two defects (a pending search undoes a filter picked
  after it; the link to the previous page leads to the first one).
\<close>

section \<open>Filters and search\<close>

definition no_patch :: Patch where
  "no_patch = \<lparr>pa_phase = None, pa_hasDrift = None, pa_q = None, pa_cursor = None\<rparr>"

definition PHASE_PILLS :: "Phase list" where
  "PHASE_PILLS = [Ready, Applying, Degraded, Failed]"

text \<open>A pill: label, link, whether it is the active one, and its count.\<close>

definition TenantFilterBar :: "TenantListFilter \<Rightarrow> TenantPage \<Rightarrow> (string \<times> string \<times> bool \<times> nat) list" where
  "TenantFilterBar f page =
     (''All'', tenantListHref f (no_patch\<lparr>pa_phase := Some None\<rparr>), tf_phase f = None, tp_all page)
     # map (\<lambda>p. (phase_name p, tenantListHref f (no_patch\<lparr>pa_phase := Some (Some p)\<rparr>), tf_phase f = Some p, tp_byPhase page p)) PHASE_PILLS"

definition drift_pill :: "TenantListFilter \<Rightarrow> TenantPage \<Rightarrow> string \<times> bool \<times> nat" where
  "drift_pill f page =
     (let active = (tf_hasDrift f = Some True)
      in (tenantListHref f (no_patch\<lparr>pa_hasDrift := Some (if active then None else Some True)\<rparr>), active, tp_withDrift page))"

definition cursor_caption :: "TenantListFilter \<Rightarrow> string" where
  "cursor_caption f =
     (if truthy (tf_cursor f) then ''cursor after '' @ the (tf_cursor f) else ''cursor page 1'') @ '' '' @ mid_dot @ '' '' @ show_nat PAGE_SIZE @ '' per page''"

text \<open>
  The search box. A keystroke starts a timer, which remembers the filter the box was rendered with then; when it fires, the
  URL is replaced unless the term is that filter's.
\<close>

definition SEARCH_DEBOUNCE_MS :: nat where
  "SEARCH_DEBOUNCE_MS = 300"

record TenantSearch =
  sx_filter :: TenantListFilter
  sx_value :: string
  sx_timer :: "(TenantListFilter \<times> string) option"

definition search_start :: "TenantListFilter \<Rightarrow> TenantSearch" where
  "search_start f = \<lparr>sx_filter = f, sx_value = (case tf_q f of Some q \<Rightarrow> q | None \<Rightarrow> []), sx_timer = None\<rparr>"

datatype search_event = Search_typed string | Search_timer | Filter_changed TenantListFilter

definition search_patch :: "string \<Rightarrow> Patch" where
  "search_patch q = no_patch\<lparr>pa_q := Some (if q = [] then None else Some q)\<rparr>"

definition search_fires :: "TenantListFilter \<Rightarrow> string \<Rightarrow> TenantListFilter option" where
  "search_fires f next =
     (let q = trim next
      in if q = (case tf_q f of Some p \<Rightarrow> p | None \<Rightarrow> []) then None else Some (tenantListPatched f (search_patch q)))"

text \<open>The output is the filter of the URL the router is sent to.\<close>

fun search_react :: "TenantSearch \<Rightarrow> search_event \<Rightarrow> TenantSearch \<times> TenantListFilter option" where
  "search_react s (Search_typed v) = (s\<lparr>sx_value := v, sx_timer := Some (sx_filter s, v)\<rparr>, None)"
| "search_react s Search_timer =
     (case sx_timer s of None \<Rightarrow> (s, None) | Some (f, v) \<Rightarrow> (s\<lparr>sx_timer := None\<rparr>, search_fires f v))"
| "search_react s (Filter_changed f) = (s\<lparr>sx_filter := f\<rparr>, None)"

definition search_do :: "TenantSearch \<Rightarrow> search_event \<Rightarrow> TenantSearch" where
  "search_do s x = fst (search_react s x)"

section \<open>The table\<close>

definition rowTone :: "Phase \<Rightarrow> Tone" where
  "rowTone phase = (if phase = Deleting then Neutral else toneForPhase phase)"

text \<open>A row: name and its link, slug, phase with its tone, the two generations and whether they differ, drift, age and provider.\<close>

record tenant_row =
  tx_name :: string
  tx_href :: string
  tx_slug :: string
  tx_phase :: "string \<times> Tone"
  tx_generation :: "nat \<times> nat"
  tx_stuck :: bool
  tx_drift :: string
  tx_age :: string
  tx_idp :: string

definition TenantRowView :: "instant option \<Rightarrow> TenantSummary \<Rightarrow> tenant_row" where
  "TenantRowView now t =
     \<lparr>tx_name = ts_displayName t, tx_href = ''/tenants/'' @ ts_slug t, tx_slug = ts_slug t, tx_phase = (phase_name (ts_phase t), rowTone (ts_phase t)),
      tx_generation = (ts_generation t, ts_observedGeneration t), tx_stuck = (ts_generation t \<noteq> ts_observedGeneration t),
      tx_drift = (if 0 < ts_openDrift t then show_nat (ts_openDrift t) else em_dash), tx_age = relativeAge (ts_lastReconciledAt t) now,
      tx_idp = idpLabel (ts_idp t) (ts_phase t)\<rparr>"

definition MENU_ITEMS :: "(string \<times> string) list" where
  "MENU_ITEMS = [(''Open overview'', []), (''Edit spec'', ''/spec''), (''Reconcile runs'', ''/reconcile-runs''), (''Drift findings'', ''/drift'')]"

text \<open>The menu of a row: open or closed, and its links.\<close>

datatype menu_event = Menu_clicked | Pointer_outside | Escape_pressed | Item_clicked

fun RowMenu :: "bool \<Rightarrow> menu_event \<Rightarrow> bool" where
  "RowMenu opened Menu_clicked = (\<not> opened)"
| "RowMenu opened Pointer_outside = False"
| "RowMenu opened Escape_pressed = False"
| "RowMenu opened Item_clicked = False"

definition menu_links :: "TenantSummary \<Rightarrow> (string \<times> string) list" where
  "menu_links t = map (\<lambda>(label, path). (label, ''/tenants/'' @ ts_slug t @ path)) MENU_ITEMS"

definition TenantTable :: "instant option \<Rightarrow> TenantSummary list \<Rightarrow> tenant_row list" where
  "TenantTable now items = map (TenantRowView now) items"

text \<open>The pager: its caption, and the filters the two links lead to; a disabled end is \<open>None\<close>.\<close>

definition pager_caption :: "TenantPage \<Rightarrow> string" where
  "pager_caption page = ''showing '' @ show_nat (length (tp_items page)) @ '' of '' @ show_nat (tp_total page)"

definition pager_prev :: "TenantListFilter \<Rightarrow> TenantListFilter option" where
  "pager_prev f = (if truthy (tf_cursor f) then Some (tenantListPatched f (no_patch\<lparr>pa_cursor := Some None\<rparr>)) else None)"

definition pager_next :: "TenantListFilter \<Rightarrow> TenantPage \<Rightarrow> TenantListFilter option" where
  "pager_next f page =
     (case tp_nextCursor page of None \<Rightarrow> None | Some c \<Rightarrow> Some (tenantListPatched f (no_patch\<lparr>pa_cursor := Some (Some c)\<rparr>)))"

text \<open>What the list shows: the table, or one of two notices.\<close>

definition describeFilter :: "TenantListFilter \<Rightarrow> string" where
  "describeFilter f =
     (let parts = (case tf_phase f of Some p \<Rightarrow> [''phase '' @ phase_name p] | None \<Rightarrow> [])
        @ (if tf_hasDrift f = Some True then [''open drift''] else []) @ (if truthy (tf_q f) then [quoted (the (tf_q f))] else [])
      in if parts \<noteq> [] then join ('' '' @ mid_dot @ '' '') parts else ''these filters'')"

datatype tenants_body = No_tenants_yet | No_match string TenantListFilter | Tenant_rows "tenant_row list"

definition clear_filters :: "TenantListFilter \<Rightarrow> TenantListFilter" where
  "clear_filters f = tenantListPatched f (no_patch\<lparr>pa_phase := Some None, pa_hasDrift := Some None, pa_q := Some None\<rparr>)"

definition TenantsListView :: "TenantListFilter \<Rightarrow> instant option \<Rightarrow> TenantPage \<Rightarrow> tenants_body" where
  "TenantsListView f now page =
     (let fleetEmpty = (tp_all page = 0 \<and> \<not> hasActiveFilters f)
      in if length (tp_items page) = 0 then
           (if fleetEmpty then No_tenants_yet else No_match (describeFilter f) (clear_filters f))
         else Tenant_rows (TenantTable now (tp_items page)))"

section \<open>The identity step\<close>

fun SlugHint :: "SlugStatus \<Rightarrow> (string \<times> Tone) option" where
  "SlugHint Slug_empty = None"
| "SlugHint Slug_checking = Some (''checking'' @ ellipsis, Neutral)"
| "SlugHint Slug_available = Some (''available'', Ready_tone)"
| "SlugHint (Slug_taken reason) = Some (''taken'', Failed_tone)"
| "SlugHint (Slug_invalid reason) = Some (reason, Failed_tone)"
| "SlugHint (Slug_error reason) = Some (reason, Failed_tone)"

fun slugInvalid :: "SlugStatus \<Rightarrow> bool" where
  "slugInvalid (Slug_taken reason) = True"
| "slugInvalid (Slug_invalid reason) = True"
| "slugInvalid _ = False"

definition START_FROM :: "(StartFrom \<times> string \<times> string) list" where
  "START_FROM = [(Blank, ''Blank spec'', ''roles only, no IdP''), (Copy, ''Copy from tenant'', ''clone model + roles''), (Yaml, ''Paste YAML'', ''validated on paste'')]"

definition start_cards :: "NewTenantForm \<Rightarrow> (string \<times> string \<times> bool) list" where
  "start_cards form = map (\<lambda>(v, title, hint). (title, hint, nf_startFrom form = v)) START_FROM"

text \<open>The panel below the cards: a choice of tenants, a text, or nothing.\<close>

datatype StartPanel = No_panel | Copy_panel string "(string \<times> string) list" | Yaml_panel string

definition start_panel :: "NewTenantForm \<Rightarrow> (string \<times> string) list \<Rightarrow> StartPanel" where
  "start_panel form tenantOptions =
     (case nf_startFrom form of
        Copy \<Rightarrow> Copy_panel (nf_copyFromSlug form)
          (([], ''pick a tenant'' @ ellipsis) # map (\<lambda>(slug, name). (slug, slug @ '' '' @ mid_dot @ '' '' @ name)) tenantOptions)
      | Yaml \<Rightarrow> Yaml_panel (nf_yaml form)
      | Blank \<Rightarrow> No_panel)"

text \<open>
  What each control dispatches. The number of an input is the library's: \<open>to_number\<close> gives what the text reads as, \<open>None\<close> for
  what is not finite. A reading that is no natural number is left to the schema, which refuses it, and not modelled.
\<close>

datatype identity_control =
    Name_input string | Slug_input string | Start_card StartFrom | Copy_select string | Yaml_input string | AutoHeal_toggle bool | Resync_input string

definition identity_dispatch :: "(string \<Rightarrow> nat option) \<Rightarrow> identity_control \<Rightarrow> FormAction option" where
  "identity_dispatch to_number c =
     (case c of
        Name_input v \<Rightarrow> Some (Set_displayName v)
      | Slug_input v \<Rightarrow> Some (Set_slug v)
      | Start_card v \<Rightarrow> Some (Set_startFrom v)
      | Copy_select v \<Rightarrow> Some (Set_copyFromSlug v)
      | Yaml_input v \<Rightarrow> Some (Set_yaml v)
      | AutoHeal_toggle v \<Rightarrow> Some (Set_autoHeal v)
      | Resync_input v \<Rightarrow> (case to_number v of None \<Rightarrow> None | Some n \<Rightarrow> Some (Set_resyncIntervalSeconds n)))"

section \<open>What they do\<close>

text \<open>The pills change one part of the filter, keep the others and start at the first page.\<close>

lemma pills_patch:
  "tenantListPatched f (no_patch\<lparr>pa_phase := Some p\<rparr>) = f\<lparr>tf_phase := p, tf_cursor := None\<rparr>"
  "tenantListPatched f (no_patch\<lparr>pa_hasDrift := Some d\<rparr>) = f\<lparr>tf_hasDrift := d, tf_cursor := None\<rparr>"
  "tenantListPatched f (search_patch q) = f\<lparr>tf_q := (if q = [] then None else Some q), tf_cursor := None\<rparr>"
  by (simp_all add: tenantListPatched_def no_patch_def patched_def search_patch_def)

lemma clear_filters_inactive: "\<not> hasActiveFilters (clear_filters f)"
  by (simp add: clear_filters_def tenantListPatched_def no_patch_def patched_def hasActiveFilters_def truthy_def)

text \<open>The empty fleet is only announced when no filter could have hidden it.\<close>

lemma describe_inactive: "\<not> hasActiveFilters f \<Longrightarrow> describeFilter f = ''these filters''"
  by (simp add: describeFilter_def hasActiveFilters_def)

lemma no_tenants_yet_iff:
  "TenantsListView f now page = No_tenants_yet \<longleftrightarrow> tp_items page = [] \<and> tp_all page = 0 \<and> \<not> hasActiveFilters f"
  by (auto simp: TenantsListView_def Let_def)

text \<open>
  The search. If nothing else changes the filter, what fires is the filter on screen with the term typed last. A filter picked while
  the timer runs is undone by it: the timer has the filter of the keystroke.
\<close>

lemma search_applies:
  "snd (search_react (search_do s (Search_typed v)) Search_timer)
     = (if trim v = (case tf_q (sx_filter s) of Some p \<Rightarrow> p | None \<Rightarrow> []) then None
        else Some ((sx_filter s)\<lparr>tf_q := (if trim v = [] then None else Some (trim v)), tf_cursor := None\<rparr>))"
  by (simp add: search_do_def search_fires_def pills_patch Let_def)

lemma search_undoes_filter:
  assumes "trim v \<noteq> (case tf_q (sx_filter s) of Some p \<Rightarrow> p | None \<Rightarrow> [])"
    and "snd (search_react (search_do (search_do s (Search_typed v)) (Filter_changed ((sx_filter s)\<lparr>tf_phase := Some p, tf_cursor := None\<rparr>))) Search_timer) = Some f"
  shows "tf_phase f = tf_phase (sx_filter s)"
  using assms by (auto simp: search_do_def search_fires_def pills_patch Let_def)

text \<open>The link to the previous page leads to the first page from any page, also from the third.\<close>

lemma prev_is_first:
  "pager_prev f = Some g \<Longrightarrow> g = f\<lparr>tf_cursor := None\<rparr>"
  "pager_next f page = Some g \<Longrightarrow> tp_nextCursor page' \<noteq> Some [] \<Longrightarrow> pager_next g page' = Some g' \<Longrightarrow> pager_prev g' = Some (f\<lparr>tf_cursor := None\<rparr>)"
  by (auto simp: pager_prev_def pager_next_def tenantListPatched_def no_patch_def patched_def truthy_def split: if_splits option.splits)

text \<open>No control of the step touches the starter model, and only the name input derives the slug.\<close>

lemma identity_keeps_model:
  assumes "identity_dispatch to_number c = Some a"
  shows "nf_starterModel (formReducer fd form a) = nf_starterModel form"
    and "nf_slug (formReducer fd form a) \<noteq> nf_slug form \<Longrightarrow> (\<exists>v. c = Name_input v \<or> c = Slug_input v)"
  using assms by (auto simp: identity_dispatch_def Let_def split: identity_control.splits option.splits)

text \<open>The hint of the card promises a validation on paste; a text of any content counts as complete.\<close>

lemma yaml_not_validated:
  assumes "trim (nf_displayName form) \<noteq> []" and "nf_startFrom form = Yaml" and "trim text' \<noteq> []"
  shows "identityComplete (formReducer fd form (Set_yaml text')) Slug_available"
  using assms by (simp add: identityComplete_def)

end
