(* ===== verification/Drift_Panels.thy ===== *)
theory Drift_Panels
  imports Screen_Text Drift_Screen
begin

text \<open>
  The parts of the drift screen (\<^verbatim>\<open>features/drift/components\<close>): the rows of the table with their actions, filters, statistics,
  footer, and the drawer of one finding as a state machine over its buttons, the answers, and the finding it is opened
  for. Shown: what the drawer heals, and two defects of the drawer, which a tenant's page mounts once for all findings (its error
  stays for the next finding, a late answer closes the drawer of another one).
\<close>

section \<open>The table\<close>

definition ACTUAL_TEXT :: "Severity \<Rightarrow> Tone" where
  "ACTUAL_TEXT s = (case s of High \<Rightarrow> Failed_tone | Medium \<Rightarrow> Degraded_tone | Low \<Rightarrow> Neutral)"

text \<open>The action of a row: the link to its drawer, a button, or the link to the run that heals it.\<close>

datatype RowControl = Heal_link string | Ack_button string | Run_link string

record DriftRow =
  dx_id :: string
  dx_selected :: bool
  dx_tenant :: string
  dx_resource :: "string \<times> string"
  dx_desired :: "string \<times> Tone"
  dx_actual :: "string \<times> Tone"
  dx_severity :: "string \<times> Tone"
  dx_age :: string
  dx_action :: "RowControl option"

definition row_action :: "(string \<Rightarrow> string) \<Rightarrow> DriftFinding \<Rightarrow> RowControl option" where
  "row_action href f =
     (case rowActionFor f of
        Act_heal \<Rightarrow> Some (Heal_link (href (df_id f)))
      | Act_ack \<Rightarrow> Some (Ack_button (df_id f))
      | Act_view_reconcile \<Rightarrow> (case df_reconcileRunId f of Some i \<Rightarrow> Some (Run_link (''/reconcile-runs/'' @ encodeURIComponent i)) | None \<Rightarrow> None))"

definition drift_row :: "string \<Rightarrow> string list \<Rightarrow> (string \<Rightarrow> string) \<Rightarrow> DriftFinding \<Rightarrow> DriftRow" where
  "drift_row generatedAt selected href f =
     \<lparr>dx_id = df_id f, dx_selected = (df_id f \<in> set selected), dx_tenant = df_tenant f,
      dx_resource = (dr_kind (df_resource f), dr_path (df_resource f)),
      dx_desired = (valueLabel (df_desired f), if df_desired f = None then Neutral else Ready_tone),
      dx_actual = (valueLabel (df_actual f), if df_actual f = None then Neutral else ACTUAL_TEXT (df_severity f)),
      dx_severity = (severity_str (df_severity f), SEVERITY_TONE (df_severity f)),
      dx_age = drift_relativeAge (df_detectedAt f) generatedAt, dx_action = row_action href f\<rparr>"

definition DriftTable :: "string \<Rightarrow> string list \<Rightarrow> (string \<Rightarrow> string) \<Rightarrow> DriftFinding list \<Rightarrow> DriftRow list" where
  "DriftTable generatedAt selected href items = map (drift_row generatedAt selected href) items"

text \<open>A key on a row opens it or flips its selection; keys on a control inside the row are that control's.\<close>

datatype row_effect = Open_row string | Flip_row string bool

definition rowKey :: "string list \<Rightarrow> string \<Rightarrow> bool \<Rightarrow> string \<Rightarrow> row_effect option" where
  "rowKey selected i on_row key =
     (if \<not> on_row then None
      else if key = ''Enter'' then Some (Open_row i)
      else if key = '' '' then Some (Flip_row i (i \<notin> set selected)) else None)"

section \<open>Filters, statistics, footer\<close>

definition drift_filter_params :: "string option \<Rightarrow> DriftListFilter \<Rightarrow> params" where
  "drift_filter_params scopedTenant next =
     (if \<not> truthy scopedTenant \<and> truthy (fl_tenant next) then [(''tenant'', the (fl_tenant next))] else [])
     @ (case fl_severity next of Some s \<Rightarrow> [(''severity'', severity_str s)] | None \<Rightarrow> [])"

definition drift_filter_href :: "string \<Rightarrow> string option \<Rightarrow> DriftListFilter \<Rightarrow> string" where
  "drift_filter_href basePath scopedTenant next =
     (let qs = params_toString (drift_filter_params scopedTenant next) in if qs \<noteq> [] then basePath @ ''?'' @ qs else basePath)"

definition pick_drift_tenant :: "DriftListFilter \<Rightarrow> string \<Rightarrow> DriftListFilter" where
  "pick_drift_tenant f v = f\<lparr>fl_tenant := (if v = [] then None else Some v)\<rparr>"

definition pick_severity :: "DriftListFilter \<Rightarrow> string \<Rightarrow> DriftListFilter" where
  "pick_severity f v = f\<lparr>fl_severity := severity_of (Some v)\<rparr>"

text \<open>The four cards: label, text and tone; a negative age does not occur, the schema refuses it.\<close>

definition DriftStatsRow :: "DriftStats \<Rightarrow> (string \<times> string \<times> Tone) list" where
  "DriftStatsRow s =
     [(''Open findings'', show_nat (st_open s), if 0 < st_open s then Drift_tone else Neutral),
      (''Tenants affected'', show_nat (st_tenantsAffected s), Neutral),
      (case st_oldestUnresolvedSeconds s of
         None \<Rightarrow> (''Oldest unresolved'', em_dash, Neutral)
       | Some n \<Rightarrow> (''Oldest unresolved'', durationShort (nat n), Degraded_tone)),
      (''Healed today'', show_nat (st_healedToday s), Ready_tone)]"

definition drift_meta :: "DriftList \<Rightarrow> string" where
  "drift_meta d =
     (let n = st_open (dl_stats d)
      in show_nat n @ '' open '' @ (if n = 1 then ''finding'' else ''findings'') @ '' '' @ mid_dot @ '' resync every ''
         @ show_nat (dl_resyncIntervalSeconds d) @ ''s, jittered'')"

definition SelectionFooter :: "DriftView \<Rightarrow> string option" where
  "SelectionFooter v =
     (let n = length (liveSelected v)
      in if n = 0 then None
         else Some (show_nat n @ '' selected '' @ mid_dot @ '' healing enqueues one reconcile per tenant and closes findings on convergence''))"

section \<open>The drawer\<close>

text \<open>The lines of a finding, each with its label.\<close>

definition finding_lines :: "DriftFinding \<Rightarrow> (string \<times> string) list" where
  "finding_lines f =
     [(''chip'', severity_str (df_severity f) @ '' severity '' @ mid_dot @ '' '' @ (if df_status f = Open_finding then ''unresolved'' else ''acknowledged'')),
      (''meta'', df_tenant f @ '' '' @ mid_dot @ '' '' @ dr_ref (df_resource f) @ '' '' @ mid_dot @ '' detected '' @ utcTimeOfDay (df_detectedAt f)
         @ '' by resync run '' @ df_detectedByRun f),
      (''desired'', dr_path (df_resource f) @ '' = '' @ valueLabel (df_desired f)),
      (''actual'', dr_path (df_resource f) @ '' = '' @ valueLabel (df_actual f)), (''impact'', df_impact f)]"

definition evidence_lines :: "DriftEvidence \<Rightarrow> string list" where
  "evidence_lines e =
     [''actualStateHash '' @ ev_actualStateHash e @ '' '' @ [CHR 0xE2, CHR 0x89, CHR 0xA0] @ '' lastKnown '' @ ev_lastKnownHash e,
      ''field-level diff produced '' @ show_nat (ev_siblingFindings e) @ '' '' @ (if ev_siblingFindings e = 1 then ''finding'' else ''findings''),
      ''no matching audit event in authz-plane '' @ [CHR 0xE2, CHR 0x86, CHR 0x92] @ '' change did not come from us'', ev_conclusion e]"

text \<open>
  On a tenant's page the drawer is mounted once; the finding it shows and whether it is open come from the URL. A mutation's
  callbacks are those of its last call, and run whatever the drawer shows by then. (On the fleet's page every finding is a route
  of its own, which mounts a new drawer: there an event \<open>Finding_shown\<close> does not occur.)
\<close>

record FindingDrawer =
  fd_finding :: "DriftFinding option"
  fd_error :: "(string \<times> string option) option"
  fd_heal :: "string mutation"
  fd_ack :: "string mutation"

definition finding_drawer_start :: "DriftFinding option \<Rightarrow> FindingDrawer" where
  "finding_drawer_start f = \<lparr>fd_finding = f, fd_error = None, fd_heal = M_idle, fd_ack = M_idle\<rparr>"

definition fd_disabled :: "FindingDrawer \<Rightarrow> DriftFinding \<Rightarrow> bool" where
  "fd_disabled d f \<longleftrightarrow> isPending (fd_heal d) \<or> isPending (fd_ack d) \<or> df_status f \<noteq> Open_finding"

datatype finding_event =
    Finding_shown "DriftFinding option" | Heal_now | Acknowledge_now | Drawer_heal_answered "(BffError + string) + HealResponse"
  | Drawer_ack_answered "(BffError + string) + unit"

datatype finding_output = Send_heal string | Send_ack string | Healed_and_close HealResponse | Close_drawer

fun finding_react :: "FindingDrawer \<Rightarrow> finding_event \<Rightarrow> FindingDrawer \<times> finding_output option" where
  "finding_react d (Finding_shown f) = (d\<lparr>fd_finding := f\<rparr>, None)"
| "finding_react d Heal_now =
     (case fd_finding d of
        None \<Rightarrow> (d, None)
      | Some f \<Rightarrow> if fd_disabled d f then (d, None) else (d\<lparr>fd_error := None, fd_heal := M_pending (df_id f)\<rparr>, Some (Send_heal (df_id f))))"
| "finding_react d Acknowledge_now =
     (case fd_finding d of
        None \<Rightarrow> (d, None)
      | Some f \<Rightarrow> if fd_disabled d f then (d, None) else (d\<lparr>fd_error := None, fd_ack := M_pending (df_id f)\<rparr>, Some (Send_ack (df_id f))))"
| "finding_react d (Drawer_heal_answered res) =
     (if \<not> isPending (fd_heal d) then (d, None)
      else case res of
        Inl e \<Rightarrow> (d\<lparr>fd_heal := M_error e, fd_error := Some (drift_fail e)\<rparr>, None)
      | Inr runs \<Rightarrow> (d\<lparr>fd_heal := M_success\<rparr>, Some (Healed_and_close runs)))"
| "finding_react d (Drawer_ack_answered res) =
     (if \<not> isPending (fd_ack d) then (d, None)
      else case res of
        Inl e \<Rightarrow> (d\<lparr>fd_ack := M_error e, fd_error := Some (drift_fail e)\<rparr>, None)
      | Inr _ \<Rightarrow> (d\<lparr>fd_ack := M_success\<rparr>, Some Close_drawer))"

definition finding_do :: "FindingDrawer \<Rightarrow> finding_event \<Rightarrow> FindingDrawer" where
  "finding_do d x = fst (finding_react d x)"

section \<open>What it does\<close>

text \<open>What the drawer sends is the open finding it shows, and one request at a time.\<close>

lemma drawer_sends:
  assumes "snd (finding_react d x) = Some (Send_heal i) \<or> snd (finding_react d x) = Some (Send_ack i)"
  shows "\<exists>f. fd_finding d = Some f \<and> df_id f = i \<and> df_status f = Open_finding \<and> \<not> isPending (fd_heal d) \<and> \<not> isPending (fd_ack d)"
  using assms by (cases x) (auto simp: fd_disabled_def split: option.splits if_splits sum.splits)

text \<open>The error of one finding is shown for the next one too; only a new request clears it.\<close>

lemma error_survives_finding:
  assumes "isPending (fd_heal d)"
  shows "fd_error (run finding_do d [Drawer_heal_answered (Inl e), Finding_shown None, Finding_shown (Some g)]) = Some (drift_fail e)"
    and "fd_finding (run finding_do d [Drawer_heal_answered (Inl e), Finding_shown None, Finding_shown (Some g)]) = Some g"
  using assms by (simp_all add: finding_do_def)

text \<open>The answer to the heal of one finding closes the drawer in which another one was opened meanwhile.\<close>

lemma late_heal_closes_other:
  assumes "fd_finding d = Some f" and "\<not> fd_disabled d f" and "d' = run finding_do d [Heal_now, Finding_shown None, Finding_shown (Some g)]"
  shows "fd_finding d' = Some g" and "snd (finding_react d' (Drawer_heal_answered (Inr runs))) = Some (Healed_and_close runs)"
  using assms by (simp_all add: finding_do_def isPending_def)

text \<open>The filter that a select writes to the URL is read back from it, but the tenant of a scoped page, which is not written.\<close>

lemma severity_of_str [simp]: "severity_of (Some (severity_str s)) = Some s"
  by (cases s) (simp_all add: severity_of_def SEVERITIES_def)

lemma severity_of_None [simp]: "severity_of None = None"
  by (simp add: severity_of_def SEVERITIES_def)

lemma drift_filter_written:
  "map_get (drift_filter_params None f) ''tenant'' = nonempty (fl_tenant f)"
  "severity_of (map_get (drift_filter_params s f) ''severity'') = fl_severity f"
  using severity_of_str by (auto simp: drift_filter_params_def nonempty_def truthy_def severity_of_None split: option.split if_splits)

lemma row_action_total: "row_action href f \<noteq> None"
  by (auto simp: row_action_def rowActionFor_def split: option.splits)

end
