(* ===== verification/Audit_Screen.thy ===== *)
theory Audit_Screen
  imports Screen_Text Audit_Stream
begin

text \<open>
  The audit screen (\<^verbatim>\<open>features/audit/components\<close>): the table, the filters in the URL, the selected event and its panel, the pages
  loaded and the export, as a state machine over the operator's actions and the answers. Shown: a filter picked is the
  filter the URL reads back as, and that a link to an event works only if the event is on the first page.
\<close>

section \<open>Filters\<close>

text \<open>A select writes its value, or removes it, and drops the selected event and the cursor.\<close>

definition set_filter :: "params \<Rightarrow> string \<Rightarrow> string \<Rightarrow> params" where
  "set_filter searchParams name v =
     params_delete (params_delete (if v \<noteq> [] then params_set searchParams name v else params_delete searchParams name) ''event'') ''cursor''"

definition actor_options :: "Actor list \<Rightarrow> (string \<times> string) list" where
  "actor_options actors = ([], ''actor: any'') # map (\<lambda>a. (at_id a, ''actor: '' @ at_label a)) actors"

definition action_options :: "(string \<times> string) list" where
  "action_options = ([], ''action: any'') # map (\<lambda>a. (action_name a, ''action: '' @ action_name a)) AUDIT_ACTIONS"

definition tenant_options :: "string list \<Rightarrow> (string \<times> string) list" where
  "tenant_options slugs = ([], ''tenant: any'') # map (\<lambda>s. (s, ''tenant: '' @ s)) slugs"

section \<open>Table and panel\<close>

definition utcTime :: "string \<Rightarrow> bool \<Rightarrow> string" where
  "utcTime text' withMillis =
     (case Date_parse text' of
        None \<Rightarrow> ''NaN:NaN:NaN'' @ (if withMillis then ''.NaNZ'' else ''Z'')
      | Some d \<Rightarrow> pad 2 (getUTCHours d) @ '':'' @ pad 2 (getUTCMinutes d) @ '':'' @ pad 2 (getUTCSeconds d)
          @ (if withMillis then ''.'' @ pad 3 (d mod 1000) @ ''Z'' else ''Z''))"

record AuditRow =
  aw_id :: string
  aw_active :: bool
  aw_time :: string
  aw_tenant :: "string option"
  aw_actor :: string
  aw_action :: "string \<times> Tone"
  aw_resource :: string
  aw_request :: string

definition audit_row :: "string option \<Rightarrow> bool \<Rightarrow> AuditEvent \<Rightarrow> AuditRow" where
  "audit_row selectedId showTenant e =
     \<lparr>aw_id = ae_id e, aw_active = (Some (ae_id e) = selectedId), aw_time = utcTime (ae_occurredAt e) False,
      aw_tenant = (if showTenant then Some (ae_tenant e) else None), aw_actor = at_label (ae_actor e),
      aw_action = (action_name (ae_action e), ACTION_TONE (ae_action e)), aw_resource = ae_resource e, aw_request = audit_shortId (ae_requestId e) 4 2\<rparr>"

definition AuditTable :: "string option \<Rightarrow> bool \<Rightarrow> AuditEvent list \<Rightarrow> AuditRow list" where
  "AuditTable selectedId showTenant items = map (audit_row selectedId showTenant) items"

fun actor_kind_name :: "ActorKind \<Rightarrow> string" where
  "actor_kind_name Human = ''human''"
| "actor_kind_name System = ''system''"
| "actor_kind_name M2m = ''m2m''"

definition panel_heading :: "AuditEvent \<Rightarrow> string \<times> string \<times> string" where
  "panel_heading e =
     (action_name (ae_action e), ae_title e,
      at_label (ae_actor e) @ '' '' @ mid_dot @ '' '' @ actor_kind_name (at_kind (ae_actor e)) @ '' '' @ mid_dot @ '' '' @ utcTime (ae_occurredAt e) True)"

definition trace_href :: "string \<Rightarrow> string" where
  "trace_href traceId = ''https://traces.authz-plane.test/trace/'' @ encodeURIComponent traceId"

definition panel_facts :: "AuditEvent \<Rightarrow> (string \<times> string) list" where
  "panel_facts e =
     [(''requestId'', audit_shortId (ae_requestId e) 4 2),
      (''traceId'', if truthy (ae_traceId e) then audit_shortId (the (ae_traceId e)) 8 2 else em_dash),
      (''ip'', case ae_ip e of Some ip \<Rightarrow> ip | None \<Rightarrow> em_dash @ '' (system)''),
      (''idempotencyKey'', if truthy (ae_idempotencyKey e) then audit_shortId (the (ae_idempotencyKey e)) 4 2 else em_dash),
      (''specHash'', case ae_specHash e of Some s \<Rightarrow> s | None \<Rightarrow> em_dash)]"

definition related_run :: "AuditEvent \<Rightarrow> string option" where
  "related_run e = (if truthy (ae_relatedRunId e) then Some (''/reconcile-runs/'' @ encodeURIComponent (the (ae_relatedRunId e))) else None)"

section \<open>The view\<close>

record AuditView =
  av_filter :: AuditFilter
  av_scoped :: "string option"
  av_search :: params
  av_pages :: "AuditPage list"
  av_fetching :: bool
  av_selectedId :: "string option"
  av_export :: "string mutation"
  av_exported :: "ExportResponse option"

definition audit_start :: "AuditFilter \<Rightarrow> string option \<Rightarrow> params \<Rightarrow> AuditPage \<Rightarrow> string option \<Rightarrow> AuditView" where
  "audit_start f scopedTenant search page initialEventId =
     \<lparr>av_filter = f, av_scoped = scopedTenant, av_search = search, av_pages = [page], av_fetching = False, av_selectedId = initialEventId,
      av_export = M_idle, av_exported = None\<rparr>"

definition audit_items :: "AuditView \<Rightarrow> AuditEvent list" where
  "audit_items v = concat (map ap_items (av_pages v))"

definition selected_event :: "AuditView \<Rightarrow> AuditEvent option" where
  "selected_event v =
     (case List.find (\<lambda>e. Some (ae_id e) = av_selectedId v) (audit_items v) of
        Some e \<Rightarrow> Some e
      | None \<Rightarrow> (case audit_items v of e # _ \<Rightarrow> Some e | [] \<Rightarrow> None))"

definition exportTenant :: "AuditView \<Rightarrow> string option" where
  "exportTenant v = (case av_scoped v of Some s \<Rightarrow> Some s | None \<Rightarrow> af_tenant (av_filter v))"

definition audit_meta :: "AuditView \<Rightarrow> string" where
  "audit_meta v =
     (case av_pages v of
        p # _ \<Rightarrow> ''append-only '' @ mid_dot @ '' '' @ (case exportTenant v of Some s \<Rightarrow> s | None \<Rightarrow> ''all tenants'') @ '' '' @ mid_dot @ '' ''
          @ groupThousands (int (ap_total p)) @ '' events''
      | [] \<Rightarrow> ''unavailable'')"

definition audit_hasFilter :: "AuditView \<Rightarrow> bool" where
  "audit_hasFilter v \<longleftrightarrow> truthy (af_actor (av_filter v)) \<or> af_action (av_filter v) \<noteq> None
     \<or> (\<not> truthy (av_scoped v) \<and> truthy (af_tenant (av_filter v)))"

definition audit_empty_text :: "AuditView \<Rightarrow> string \<times> string" where
  "audit_empty_text v =
     (if audit_hasFilter v then (''No events match these filters'', ''Filters are exact. Clear them to see the full stream.'')
      else (''No events yet'', ''The first spec write for this tenant will appear here.''))"

definition audit_hasNextPage :: "AuditView \<Rightarrow> bool" where
  "audit_hasNextPage v \<longleftrightarrow> av_pages v \<noteq> [] \<and> ap_nextCursor (last (av_pages v)) \<noteq> None"

definition export_problem :: "BffError + string \<Rightarrow> string \<times> string option" where
  "export_problem e = (case e of Inl b \<Rightarrow> (be_title b, be_detail b) | Inr message \<Rightarrow> (''Export failed'', Some message))"

definition export_text :: "ExportResponse \<Rightarrow> string" where
  "export_text r = ''export queued '' @ mid_dot @ '' '' @ ex_exportId r @ '' '' @ mid_dot @ '' ndjson.gz '' @ mid_dot @ '' you will be notified when it is ready''"

datatype audit_event_kind =
    Event_selected string | Filter_picked string string | Older_clicked | Older_arrived AuditPage | Export_clicked
  | Export_answered "(BffError + string) + ExportResponse"

datatype audit_output = Replace_url params | Get_older "string option" | Post_export string

fun audit_react :: "AuditView \<Rightarrow> audit_event_kind \<Rightarrow> AuditView \<times> audit_output option" where
  "audit_react v (Event_selected i) = (v\<lparr>av_selectedId := Some i\<rparr>, Some (Replace_url (params_set (av_search v) ''event'' i)))"
| "audit_react v (Filter_picked name text') = (v, Some (Replace_url (set_filter (av_search v) name text')))"
| "audit_react v Older_clicked =
     (if audit_hasNextPage v \<and> \<not> av_fetching v then (v\<lparr>av_fetching := True\<rparr>, Some (Get_older (ap_nextCursor (last (av_pages v))))) else (v, None))"
| "audit_react v (Older_arrived p) = (v\<lparr>av_pages := av_pages v @ [p], av_fetching := False\<rparr>, None)"
| "audit_react v Export_clicked =
     (if truthy (exportTenant v) \<and> \<not> isPending (av_export v)
      then (v\<lparr>av_export := M_pending (the (exportTenant v)), av_exported := None\<rparr>, Some (Post_export (the (exportTenant v)))) else (v, None))"
| "audit_react v (Export_answered res) =
     (if isPending (av_export v)
      then (case res of Inl e \<Rightarrow> v\<lparr>av_export := M_error e\<rparr> | Inr r \<Rightarrow> v\<lparr>av_export := M_success, av_exported := Some r\<rparr>) else v, None)"

definition audit_do :: "AuditView \<Rightarrow> audit_event_kind \<Rightarrow> AuditView" where
  "audit_do v x = fst (audit_react v x)"

section \<open>What they do\<close>

text \<open>The URL a select writes reads back as the filter with that one part changed, and without event and cursor.\<close>

lemma filter_picked:
  "auditFilterFromSearch (set_filter ps ''actor'' v) = (auditFilterFromSearch ps)\<lparr>af_actor := nonempty (Some v)\<rparr>"
  "auditFilterFromSearch (set_filter ps ''tenant'' v) = (auditFilterFromSearch ps)\<lparr>af_tenant := nonempty (Some v)\<rparr>"
  "auditFilterFromSearch (set_filter ps ''action'' v) = (auditFilterFromSearch ps)\<lparr>af_action := AuditActionSchema_parse (nonempty (Some v))\<rparr>"
  "map_get (set_filter ps name v) ''event'' = None" "map_get (set_filter ps name v) ''cursor'' = None"
  by (auto simp: auditFilterFromSearch_def set_filter_def Let_def nonempty_def truthy_def)

lemma action_option_parses: "AuditActionSchema_parse (nonempty (Some (action_name a))) = Some a"
  by (cases a) (simp_all add: AuditActionSchema_parse_def nonempty_def truthy_def AUDIT_ACTIONS_def)

text \<open>Selecting an event that is listed shows it, keeps the filter, and its link names it.\<close>

lemma event_selected:
  assumes "e \<in> set (audit_items v)" and "distinct (map ae_id (audit_items v))"
  shows "selected_event (audit_do v (Event_selected (ae_id e))) = Some e"
    and "\<exists>ps. snd (audit_react v (Event_selected (ae_id e))) = Some (Replace_url ps) \<and> map_get ps ''event'' = Some (ae_id e)
       \<and> auditFilterFromSearch ps = auditFilterFromSearch (av_search v)"
proof -
  have "List.find (\<lambda>x. Some (ae_id x) = Some (ae_id e)) (audit_items v) = Some e"
    using assms by (induction "audit_items v" arbitrary: v) (auto simp: find_Some_iff in_set_conv_nth nth_eq_iff_index_eq distinct_conv_nth)
  then show "selected_event (audit_do v (Event_selected (ae_id e))) = Some e" by (simp add: selected_event_def audit_do_def audit_items_def)
qed (auto simp: auditFilterFromSearch_def Let_def)

text \<open>
  A link to an event that is not on the first page shows another one: the first row of the page. So a row found by loading
  older events is not linkable.
\<close>

lemma link_beyond_first_page:
  assumes "ap_items p = first # others" and "\<forall>e \<in> set (ap_items p). ae_id e \<noteq> i"
  shows "selected_event (audit_start f scopedTenant search p (Some i)) = Some first"
proof -
  have "List.find (\<lambda>e. Some (ae_id e) = Some i) (ap_items p) = None" using assms(2) by (auto simp: find_None_iff)
  then show ?thesis using assms(1) by (simp add: selected_event_def audit_start_def audit_items_def)
qed

text \<open>An export is asked only for a tenant, and one at a time.\<close>

lemma export_sends:
  assumes "snd (audit_react v x) = Some (Post_export slug)"
  shows "exportTenant v = Some slug \<and> slug \<noteq> [] \<and> \<not> isPending (av_export v)"
  using assms by (cases x) (auto simp: truthy_def split: option.splits if_splits)

end
