(* ===== verification/Runs_Screen.thy ===== *)
theory Runs_Screen
  imports Screen_Text Reconcile_Behaviour
begin

text \<open>
  The screens of the reconcile runs (\<^verbatim>\<open>features/reconcile/components\<close>): filters in the URL, statistics, table with its segments, and
  the page of one run with its facts, changes and log, as a state machine over retries, their answers and the polls.
  Shown: a filter picked is the filter the page parses, a failed change never loses its problem, the page polls exactly
  while its run is in flight, and what a retry sends is never refused as being in flight.
\<close>

section \<open>The list\<close>

text \<open>A select writes its value, or removes it, and drops the cursor.\<close>

definition set_run_filter :: "params \<Rightarrow> string \<Rightarrow> string \<Rightarrow> params" where
  "set_run_filter searchParams name v =
     params_delete (if v \<noteq> [] then params_set searchParams name v else params_delete searchParams name) ''cursor''"

definition run_filter_options :: "(string \<times> (string \<times> string) list) list" where
  "run_filter_options =
     [(''trigger'', ([], ''trigger: any'') # map (\<lambda>(t, _). (t, ''trigger: '' @ t)) TRIGGERS),
      (''outcome'', ([], ''outcome: any'') # map (\<lambda>(oc, _). (oc, ''outcome: '' @ oc)) OUTCOMES)]"

definition tenant_filter_options :: "bool \<Rightarrow> string list \<Rightarrow> (string \<times> string) list option" where
  "tenant_filter_options showTenant tenantSlugs =
     (if showTenant then Some (([], ''tenant: any'') # map (\<lambda>slug. (slug, ''tenant: '' @ slug)) tenantSlugs) else None)"

text \<open>The four cards: label, text, tone.\<close>

definition RunStatsCards :: "RunStats \<Rightarrow> (string \<times> string \<times> Tone) list" where
  "RunStatsCards s =
     [(''Runs'', groupThousands (int (st_runs s)), Neutral), (''Median duration'', formatDuration (st_medianDurationMs s), Neutral),
      (''No-change runs'', show_nat (percent_round (fst (st_noChangeRatio s)) (snd (st_noChangeRatio s))) @ ''%'', Ready_tone),
      (''Retries in backoff'', show_nat (st_retriesInBackoff s), if 0 < st_retriesInBackoff s then Degraded_tone else Neutral)]"

text \<open>The changes cell: a text, or the segments with their caption and the sentence for a screen reader.\<close>

definition ChangeSegments :: "RunSummary \<Rightarrow> (string \<times> Tone) + ((Tone \<times> ChangeOutcome option) list \<times> string \<times> Tone \<times> string)" where
  "ChangeSegments rn =
     (case changesCell rn of
        Text_cell t tone \<Rightarrow> Inl (t, tone)
      | Segments_cell segments cap tone lbl \<Rightarrow> Inr (map (\<lambda>s. (sg_tone s, sg_outcome s)) segments, cap, tone, lbl))"

record RunRow =
  rw_href :: string
  rw_id :: string
  rw_active :: bool
  rw_tenant :: string
  rw_trigger :: string
  rw_generation :: nat
  rw_changes :: "(string \<times> Tone) + ((Tone \<times> ChangeOutcome option) list \<times> string \<times> Tone \<times> string)"
  rw_outcome :: "string \<times> Tone"
  rw_duration :: string

definition run_row :: "RunSummary \<Rightarrow> RunRow" where
  "run_row rn =
     (let inFlight = (rn_finishedAt rn = None)
      in \<lparr>rw_href = ''/reconcile-runs/'' @ rn_id rn, rw_id = shortId (rn_id rn), rw_active = inFlight, rw_tenant = rn_tenantSlug rn,
          rw_trigger = trigger_str (rn_trigger rn), rw_generation = rn_generation rn, rw_changes = ChangeSegments rn,
          rw_outcome = (outcome_str (rn_outcome rn), OUTCOME_TONE (rn_outcome rn)),
          rw_duration = formatDuration (rn_durationMs rn) @ (if inFlight then '' so far, still running'' else [])\<rparr>)"

text \<open>The rows, or the notice that there are none.\<close>

definition RunsTable :: "RunSummary list \<Rightarrow> RunRow list option" where
  "RunsTable runs = (if length runs = 0 then None else Some (map run_row runs))"

definition runs_footer :: "RunPage \<Rightarrow> string option" where
  "runs_footer d =
     (if truthy (pg_nextCursor d)
      then Some (''showing '' @ show_nat (length (pg_items d)) @ '' of '' @ show_nat (pg_total d) @ '' '' @ mid_dot @ '' cursor paginated'') else None)"

section \<open>One run\<close>

definition runMeta :: "RunDetail \<Rightarrow> string" where
  "runMeta rn =
     (let duration = (if rn_finishedAt rn = None then ''running '' @ formatDuration (rn_durationMs rn) else formatDuration (rn_durationMs rn));
          retry = (if truthy (rn_retryOf rn) then '' '' @ mid_dot @ '' retry of '' @ shortId (the (rn_retryOf rn)) else [])
      in ''generation '' @ show_nat (rn_generation rn) @ '' '' @ mid_dot @ '' trigger '' @ trigger_str (rn_trigger rn) @ '' '' @ mid_dot
         @ '' started '' @ utcSeconds (rn_startedAt rn) True @ '' '' @ mid_dot @ '' '' @ duration @ '' '' @ mid_dot @ '' traceId ''
         @ shortId (rn_traceId rn) @ retry)"

definition RunFactsRows :: "RunDetail \<Rightarrow> (string \<times> string \<times> Tone) list" where
  "RunFactsRows rn =
     (let f = rd_facts rn; drifted = (fa_actualHash f \<noteq> fa_specHash f)
      in [(case fa_advisoryLockHeldMs f of
             None \<Rightarrow> (''advisory lock'', ''held '' @ mid_dot @ '' in flight'', Link)
           | Some ms \<Rightarrow> (''advisory lock'', ''held '' @ formatDuration ms, Ready_tone)),
          (''outbox msg'', if truthy (fa_outboxMessageId f) then shortId (the (fa_outboxMessageId f)) else em_dash, Neutral),
          (''worker'', fa_worker f, Neutral),
          (if truthy (fa_snapshotKey f) then (''snapshot'', shortSnapshotKey (the (fa_snapshotKey f)), Link)
           else (''snapshot'', ''none '' @ mid_dot @ '' no changes'', Neutral)),
          (''specHash'', shortId (fa_specHash f), Neutral), (''actualHash'', shortId (fa_actualHash f), if drifted then Degraded_tone else Neutral)])"

definition PhaseWaterfall :: "RunPhase list \<Rightarrow> (string \<times> Tone \<times> nat) list" where
  "PhaseWaterfall phases = map (\<lambda>p. (ph_name p @ '' '' @ mid_dot @ '' '' @ formatDuration (ph_durationMs p), ph_tone p, ph_weight p)) phases"

fun CHANGE_GLYPH :: "ChangeOutcome \<Rightarrow> string" where
  "CHANGE_GLYPH Ch_applied = [CHR 0xE2, CHR 0x9C, CHR 0x93]"
| "CHANGE_GLYPH Ch_failed = [CHR 0xE2, CHR 0x9C, CHR 0x95]"
| "CHANGE_GLYPH Ch_retrying = [CHR 0xE2, CHR 0x9A, CHR 0xA0]"
| "CHANGE_GLYPH Ch_applying = arrow"
| "CHANGE_GLYPH Ch_pending = mid_dot"
| "CHANGE_GLYPH Ch_skipped = mid_dot"

text \<open>The card of a change and its dashed or plain border; the tones of glyph and text.\<close>

fun ROW_STYLE :: "ChangeOutcome \<Rightarrow> Tone \<times> bool" where
  "ROW_STYLE Ch_applied = (Ready_tone, False)"
| "ROW_STYLE Ch_failed = (Failed_tone, False)"
| "ROW_STYLE Ch_retrying = (Degraded_tone, False)"
| "ROW_STYLE Ch_applying = (Link, False)"
| "ROW_STYLE Ch_pending = (Neutral, True)"
| "ROW_STYLE Ch_skipped = (Neutral, True)"

record ChangeLine =
  cl_glyph :: string
  cl_index :: nat
  cl_kind :: string
  cl_description :: string
  cl_note :: "string \<times> Tone"
  cl_duration :: "string option"

definition ChangeRow :: "RunChange \<Rightarrow> ChangeLine" where
  "ChangeRow c =
     (let dim = (ch_outcome c = Ch_skipped \<or> ch_outcome c = Ch_pending)
      in \<lparr>cl_glyph = CHANGE_GLYPH (ch_outcome c), cl_index = ch_index c, cl_kind = ch_kind c, cl_description = ch_description c,
          cl_note = (case ch_note c of Some n \<Rightarrow> n | None \<Rightarrow> em_dash,
            if ch_outcome c = Ch_failed then Failed_tone else if ch_outcome c = Ch_applying then Link else Neutral),
          cl_duration = (if dim then None else Some (formatMillis (ch_durationMs c)))\<rparr>)"

definition ProblemWell :: "ChangeError \<Rightarrow> string list" where
  "ProblemWell e =
     (let retry = (case ce_nextRetrySeconds e of None \<Rightarrow> ''no further attempts'' | Some n \<Rightarrow> ''next '' @ show_nat n @ ''s (jittered)'')
      in [''problem+json '' @ mid_dot @ '' type: '' @ ce_type e,
          ''changeKey: '' @ shortId (ce_changeKey e) @ '' '' @ mid_dot @ '' attempt '' @ show_nat (ce_attempt e) @ '' of '' @ show_nat (ce_maxAttempts e)
            @ '' '' @ mid_dot @ '' '' @ retry,
          ''detail: '' @ ce_detail e])"

text \<open>The cards of the changes, the failed ones with their problem; \<open>None\<close> is the line that there are none.\<close>

definition ChangeList :: "RunChange list \<Rightarrow> (ChangeLine \<times> string list option) list option" where
  "ChangeList changes =
     (if length changes = 0 then None
      else Some (map (\<lambda>c. (ChangeRow c, if ch_outcome c = Ch_failed then map_option ProblemWell (ch_error c) else None)) changes))"

fun LOG_TS_TONE :: "LogLevel \<Rightarrow> Tone" where
  "LOG_TS_TONE L_info = Neutral"
| "LOG_TS_TONE L_ready = Ready_tone"
| "LOG_TS_TONE L_link = Link"
| "LOG_TS_TONE L_degraded = Degraded_tone"
| "LOG_TS_TONE L_failed = Failed_tone"

text \<open>The lines, and whether the cursor and the note that it polls are shown.\<close>

definition WorkerLog :: "LogLine list \<Rightarrow> bool \<Rightarrow> (string \<times> Tone \<times> string) list \<times> bool" where
  "WorkerLog entries live = (map (\<lambda>l. (utcSeconds (ll_ts l) False, LOG_TS_TONE (ll_level l), ll_text l)) entries, live)"

text \<open>The buttons of the header: the trace link, the snapshot's file if it can be downloaded, and whether a retry is possible.\<close>

definition RunActions :: "RunDetail \<Rightarrow> bool \<Rightarrow> string \<times> string option \<times> bool" where
  "RunActions rn retrying =
     (rd_traceUrl rn, if truthy (fa_snapshotKey (rd_facts rn)) then Some (snapshotFilename (rn_id rn)) else None,
      rn_finishedAt rn \<noteq> None \<and> \<not> retrying)"

record RunDetailView =
  rdv_run :: RunDetail
  rdv_retry :: "unit mutation"

definition retry_problem :: "BffError + string \<Rightarrow> string \<times> string option" where
  "retry_problem e = (case e of Inl b \<Rightarrow> (be_title b, be_detail b) | Inr message \<Rightarrow> (''Retry failed'', Some message))"

datatype run_event = Retry_clicked | Problem_retry_clicked | Retry_answered "(BffError + string) + string" | Run_polled RunDetail

datatype run_output = Post_retry string | Push_run string

fun run_react :: "RunDetailView \<Rightarrow> run_event \<Rightarrow> RunDetailView \<times> run_output option" where
  "run_react v Retry_clicked =
     (if snd (snd (RunActions (rdv_run v) (isPending (rdv_retry v)))) then (v\<lparr>rdv_retry := M_pending ()\<rparr>, Some (Post_retry (rn_id (rdv_run v)))) else (v, None))"
| "run_react v Problem_retry_clicked =
     (case rdv_retry v of M_error _ \<Rightarrow> (v\<lparr>rdv_retry := M_pending ()\<rparr>, Some (Post_retry (rn_id (rdv_run v)))) | _ \<Rightarrow> (v, None))"
| "run_react v (Retry_answered res) =
     (if \<not> isPending (rdv_retry v) then (v, None)
      else case res of
        Inl e \<Rightarrow> (v\<lparr>rdv_retry := M_error e\<rparr>, None)
      | Inr i \<Rightarrow> (v\<lparr>rdv_retry := M_success\<rparr>, Some (Push_run (''/reconcile-runs/'' @ i))))"
| "run_react v (Run_polled r) = (v\<lparr>rdv_run := r\<rparr>, None)"

definition run_do :: "RunDetailView \<Rightarrow> run_event \<Rightarrow> RunDetailView" where
  "run_do v x = fst (run_react v x)"

section \<open>What they show\<close>

lemma outcome_str_listed: "map_of OUTCOMES (outcome_str oc) = Some oc"
  by (cases oc) (simp_all add: OUTCOMES_def)

lemma trigger_str_listed: "map_of TRIGGERS (trigger_str t) = Some t"
  by (cases t) (simp_all add: TRIGGERS_def)

lemma fromUrl_set_run_filter:
  "fromUrlSearchParams (set_run_filter ps name v) k = (if k = ''cursor'' then None else if k = name then nonempty (Some v) else fromUrlSearchParams ps k)"
  by (auto simp: fromUrlSearchParams_def set_run_filter_def nonempty_def truthy_def split: option.split)

lemma field_any: "enum_field table (nonempty (Some [])) = Some None" "min1_field None = Some None"
  by (simp_all add: enum_field_def nonempty_def truthy_def min1_field_def)

lemma field_picked: "map_of table s = Some a \<Longrightarrow> s \<noteq> [] \<Longrightarrow> enum_field table (nonempty (Some s)) = Some (Some a)"
  by (simp add: enum_field_def nonempty_def truthy_def)

lemma outcome_str_nonempty [simp]: "outcome_str oc \<noteq> []" by (cases oc) simp_all

lemma trigger_str_nonempty [simp]: "trigger_str t \<noteq> []" by (cases t) simp_all

text \<open>The URL a select writes is parsed by the page as its filter with that one part changed, at the first page.\<close>

lemma run_filter_picked:
  assumes "runFilterFromParams to_number z (fromUrlSearchParams ps) fixed_tenant = Inr f"
  shows "runFilterFromParams to_number z (fromUrlSearchParams (set_run_filter ps ''outcome'' (outcome_str oc))) fixed_tenant
           = Inr (f\<lparr>lf_outcome := Some oc, lf_cursor := None\<rparr>)"
    and "runFilterFromParams to_number z (fromUrlSearchParams (set_run_filter ps ''outcome'' [])) fixed_tenant = Inr (f\<lparr>lf_outcome := None, lf_cursor := None\<rparr>)"
    and "runFilterFromParams to_number z (fromUrlSearchParams (set_run_filter ps ''trigger'' (trigger_str t))) fixed_tenant
           = Inr (f\<lparr>lf_trigger := Some t, lf_cursor := None\<rparr>)"
    and "runFilterFromParams to_number z (fromUrlSearchParams (set_run_filter ps ''trigger'' [])) fixed_tenant = Inr (f\<lparr>lf_trigger := None, lf_cursor := None\<rparr>)"
  using assms by (auto simp: runFilterFromParams_def fromUrl_set_run_filter field_any field_picked outcome_str_listed trigger_str_listed Let_def
      split: option.splits)

text \<open>The problem of a failed change is shown with it, and each card leads with the index of its change.\<close>

lemma change_list_complete:
  "ChangeList changes = Some cards \<Longrightarrow> map (cl_index \<circ> fst) cards = map ch_index changes"
  "ChangeList changes = Some cards \<Longrightarrow> c \<in> set changes \<Longrightarrow> ch_outcome c = Ch_failed \<Longrightarrow> ch_error c = Some e \<Longrightarrow> (ChangeRow c, Some (ProblemWell e)) \<in> set cards"
  by (auto simp: ChangeList_def ChangeRow_def Let_def split: if_splits) [1] (auto simp: ChangeList_def split: if_splits intro!: rev_image_eqI)

text \<open>A segment for each change, and no more of them applied or failed than there are.\<close>

lemma segments_of_changes:
  assumes "rn_outcome rn \<noteq> Drift" and "rn_changeOutcomes rn \<noteq> []"
  shows "\<exists>cap tone lbl. ChangeSegments rn = Inr (map (\<lambda>oc. (CHANGE_TONE oc, Some oc)) (rn_changeOutcomes rn), cap, tone, lbl)"
  using assms by (auto simp: ChangeSegments_def changesCell_def Let_def split: Outcome.split option.split)

text \<open>The share of runs without changes is a percentage.\<close>

lemma no_change_percent: "RunStatsSchema_ok s \<Longrightarrow> 0 < snd (st_noChangeRatio s) \<Longrightarrow> percent_round (fst (st_noChangeRatio s)) (snd (st_noChangeRatio s)) \<le> 100"
  by (rule percent_round_le) (simp_all add: RunStatsSchema_ok_def)

text \<open>The page polls, says it runs and disables its retry for the same runs: those without an end.\<close>

lemma live_run:
  "detailPollInterval (Some rn) \<noteq> None \<longleftrightarrow> rn_finishedAt rn = None"
  "snd (WorkerLog (rd_log rn) (rn_finishedAt rn = None)) \<longleftrightarrow> rn_finishedAt rn = None"
  "rn_finishedAt rn = None \<Longrightarrow> \<not> snd (snd (RunActions rn retrying))"
  by (simp_all add: detailPollInterval_def WorkerLog_def RunActions_def)

text \<open>
  What the retry button sends is not refused as in flight, whatever happened to the store since the page was
  polled: a settled run stays settled, so under a new key the server starts a run, if it finds an identifier.
\<close>

lemma retry_sends:
  assumes "snd (run_react v Retry_clicked) = Some (Post_retry i)"
  shows "i = rn_id (rdv_run v) \<and> rn_finishedAt (rdv_run v) \<noteq> None \<and> \<not> isPending (rdv_retry v)"
  using assms by (auto simp: RunActions_def split: if_splits)

lemma retry_accepted_later:
  assumes "store_wf s" and "list_all op_ok xs" and "map_get (s_runs s) i = Some (rdv_run v)" and "snd (run_react v Retry_clicked) = Some (Post_retry i)"
    and "s' = run run_step s xs" and "\<not> truthy (map_get (s_retriesByKey s') key)" and "newRunId (s_runs s') draws = Some i'"
  shows "snd (retryRun s' i key now draws) = Some (Inr i')"
proof -
  have "map_get (s_runs s') i = Some (rdv_run v)" using run_settled [OF assms(1-3)] retry_sends [OF assms(4)] assms(5) by simp
  then show ?thesis using assms(6,7) retry_sends [OF assms(4)] by (auto simp: retryRun_def Let_def)
qed

text \<open>One retry at a time: none is sent between a retry and its answer.\<close>

lemma one_retry: "isPending (rdv_retry v) \<Longrightarrow> snd (run_react v x) = Some (Post_retry i) \<Longrightarrow> False"
  by (cases x) (auto simp: RunActions_def isPending_def split: mutation.splits sum.splits if_splits)

end
