(* ===== verification/Dashboard_Screen.thy ===== *)
theory Dashboard_Screen
  imports Screen_Text Drift_Screen Dashboard
begin

text \<open>
  The overview screen (\<^verbatim>\<open>features/dashboard/components\<close>): the four figures, the stacked chart of outcomes, the attention list and the
  window select. Shown: bars and percentages stay in their range, a column's sentence counts its runs, and the
  window picked is the window the page reads from the URL.
\<close>

section \<open>Figures\<close>

text \<open>A number of tenths as JavaScript prints it.\<close>

definition show_tenths :: "nat \<Rightarrow> string" where
  "show_tenths n = show_nat (n div 10) @ (if n mod 10 = 0 then [] else ''.'' @ show_nat (n mod 10))"

definition convergedPct :: "DashboardOverview \<Rightarrow> nat" where
  "convergedPct d = (if do_total d = 0 then 0 else percent_round (do_converged d) (do_total d))"

text \<open>A figure: label, number, unit, tone, and its line; the line of the first is a meter, filled by \<open>convergedPct\<close> percent.\<close>

record Kpi =
  kp_label :: string
  kp_value :: nat
  kp_unit :: string
  kp_tone :: Tone
  kp_footer :: "nat + (string \<times> Tone)"

definition KpiGrid :: "DashboardOverview \<Rightarrow> Kpi list" where
  "KpiGrid d =
     (let withinSlo = (do_p95Seconds d < do_sloSeconds d)
      in [\<lparr>kp_label = ''Converged'', kp_value = do_converged d, kp_unit = ''/'' @ show_nat (do_total d), kp_tone = Ready_tone,
           kp_footer = Inl (convergedPct d)\<rparr>,
          \<lparr>kp_label = ''Convergence lag p95'', kp_value = do_p95Seconds d, kp_unit = ''s'', kp_tone = Neutral,
           kp_footer = Inr (''SLO < '' @ show_nat (do_sloSeconds d) @ ''s '' @ mid_dot @ '' '' @ (if withinSlo then ''within budget'' else ''over budget''),
             if withinSlo then Ready_tone else Degraded_tone)\<rparr>,
          \<lparr>kp_label = ''Open drift findings'', kp_value = do_driftOpen d, kp_unit = [], kp_tone = (if 0 < do_driftOpen d then Drift_tone else Neutral),
           kp_footer = Inr (if do_driftOpen d = 0 then ''no open findings''
             else ''across '' @ show_nat (do_tenantsAffected d) @ '' tenant'' @ (if do_tenantsAffected d = 1 then [] else ''s''), Neutral)\<rparr>,
          \<lparr>kp_label = ''Outbox depth / lag'', kp_value = do_outboxDepth d, kp_unit = '' '' @ mid_dot @ '' '' @ show_tenths (do_outboxLagTenths d) @ ''s'',
           kp_tone = Neutral,
           kp_footer = (if do_outboxLagTenths d < 50 then Inr (''worker keeping up'', Ready_tone) else Inr (''worker falling behind'', Degraded_tone))\<rparr>])"

section \<open>Chart\<close>

definition CHART_HEIGHT_PX :: nat where "CHART_HEIGHT_PX = 150"

definition SEGMENTS :: "((OutcomeBucket \<Rightarrow> nat) \<times> string \<times> Tone) list" where
  "SEGMENTS = [(bk_ready, ''Ready'', Ready_tone), (bk_degraded, ''Degraded'', Degraded_tone), (bk_failed, ''Failed'', Failed_tone)]"

definition bucket_total :: "OutcomeBucket \<Rightarrow> nat" where
  "bucket_total b = bk_ready b + bk_degraded b + bk_failed b"

definition describe_bucket :: "OutcomeBucket \<Rightarrow> string" where
  "describe_bucket b =
     (let parts = map (\<lambda>(get, label, _). show_nat (get b) @ '' '' @ toLowerCase label) (filter (\<lambda>(get, _). 0 < get b) SEGMENTS)
      in utcClock (bk_startsAt b) @ '' '' @ mid_dot @ '' '' @ show_nat (bucket_total b) @ '' runs''
         @ (if length parts \<noteq> 0 then '' '' @ mid_dot @ '' '' @ join '', '' parts else []))"

definition chart_max :: "OutcomeBucket list \<Rightarrow> nat" where
  "chart_max bs = foldr max (map bucket_total bs) 1"

definition px :: "nat \<Rightarrow> nat \<Rightarrow> nat" where
  "px n m = Math_round (double_times (double_div n m) CHART_HEIGHT_PX)"

text \<open>A column: its sentence, and the segments top down with their heights.\<close>

definition bucket_column :: "nat \<Rightarrow> OutcomeBucket \<Rightarrow> string \<times> (Tone \<times> nat) list" where
  "bucket_column m b =
     (describe_bucket b, map (\<lambda>(get, _, tone). (tone, max 2 (px (get b) m))) (filter (\<lambda>(get, _). 0 < get b) (rev SEGMENTS)))"

definition ReconcileOutcomesChart :: "DashboardOverview \<Rightarrow> string \<times> (string \<times> (Tone \<times> nat) list) list" where
  "ReconcileOutcomesChart d =
     (''success '' @ percent (do_successRate d) 1 @ '' '' @ mid_dot @ '' '' @ groupThousands (int (do_runs d)) @ '' runs'',
      map (bucket_column (chart_max (do_buckets d))) (do_buckets d))"

section \<open>Attention and window\<close>

fun KIND_TONE :: "AttentionKind \<Rightarrow> Tone" where
  "KIND_TONE Failed_attention = Failed_tone"
| "KIND_TONE Degraded_attention = Degraded_tone"
| "KIND_TONE Drift_attention = Drift_tone"
| "KIND_TONE Applying_attention = Link"

text \<open>A card: link, slug, chip and its tone, reason, and whether it is tinted.\<close>

definition AttentionCard :: "AttentionItem \<Rightarrow> string \<times> string \<times> (string \<times> Tone) \<times> string \<times> bool" where
  "AttentionCard i = (ai_href i, ai_slug i, (ai_label i, KIND_TONE (ai_kind i)), ai_reason i, ai_kind i \<noteq> Applying_attention)"

definition NeedsAttention :: "AttentionItem list \<Rightarrow> string + (string \<times> string \<times> (string \<times> Tone) \<times> string \<times> bool) list" where
  "NeedsAttention items =
     (if length items = 0 then Inl ''Nothing needs attention. Every tenant is converged and no drift is open.'' else Inr (map AttentionCard items))"

definition window_options :: "(string \<times> string) list" where
  "window_options = map (\<lambda>w. (window_name w, WINDOW_LABELS w)) WINDOWS"

text \<open>The search parameters a choice writes; \<open>None\<close> if the value is no window, on which the handler throws.\<close>

definition WindowSelect :: "string \<Rightarrow> params option" where
  "WindowSelect text' =
     (case WindowSchema_parse text' of
        None \<Rightarrow> None
      | Some next \<Rightarrow> Some (if next \<noteq> W_24h then [(''window'', window_name next)] else []))"

definition window_href :: "string \<Rightarrow> string \<Rightarrow> string option" where
  "window_href pathname text' = map_option (filter_href pathname) (WindowSelect text')"

text \<open>What the page reads.\<close>

definition page_window :: "params \<Rightarrow> Window" where
  "page_window ps =
     (case map_get ps ''window'' of
        None \<Rightarrow> DEFAULT_WINDOW
      | Some s \<Rightarrow> (case WindowSchema_parse s of Some w \<Rightarrow> w | None \<Rightarrow> DEFAULT_WINDOW))"

section \<open>What they show\<close>

lemma window_select_read: "map_option page_window (WindowSelect (window_name w)) = Some w"
  by (simp add: WindowSelect_def window_roundtrip page_window_def DEFAULT_WINDOW_def)

lemma convergedPct_le: "do_converged d \<le> do_total d \<Longrightarrow> convergedPct d \<le> 100"
  by (cases "do_total d = 0") (simp_all add: convergedPct_def percent_round_le)

lemma chart_max_ge: "b \<in> set bs \<Longrightarrow> bucket_total b \<le> chart_max bs" and chart_max_pos: "0 < chart_max bs"
  by (induction bs) (auto simp: chart_max_def less_max_iff_disj)

lemma px_le: "0 < m \<Longrightarrow> n \<le> m \<Longrightarrow> px n m \<le> CHART_HEIGHT_PX"
proof -
  assume "0 < m" "n \<le> m"
  then have "fst (double_div n m) \<le> 1 * 2 ^ snd (double_div n m)" by (intro double_div_le) simp_all
  then show ?thesis unfolding px_def double_times_def by (intro Math_round_le double_div_le) simp_all
qed

text \<open>No segment of the chart is higher than the chart, and each stands for at least one run.\<close>

lemma segments_fit:
  assumes "(text', segments) \<in> set (snd (ReconcileOutcomesChart d))" and "(tone, h) \<in> set segments"
  shows "2 \<le> h \<and> h \<le> CHART_HEIGHT_PX"
proof -
  from assms obtain b get where b: "b \<in> set (do_buckets d)" and h: "h = max 2 (px (get b) (chart_max (do_buckets d)))"
    and "get \<in> {bk_ready, bk_degraded, bk_failed}"
    by (auto simp: ReconcileOutcomesChart_def bucket_column_def SEGMENTS_def split: if_splits)
  then have "get b \<le> bucket_total b" by (auto simp: bucket_total_def)
  also have "\<dots> \<le> chart_max (do_buckets d)" using b by (rule chart_max_ge)
  finally have "px (get b) (chart_max (do_buckets d)) \<le> CHART_HEIGHT_PX" by (intro px_le chart_max_pos)
  then show ?thesis using h by (simp add: CHART_HEIGHT_PX_def)
qed

text \<open>The tones of a column are those of the outcomes it has, each once, failed on top.\<close>

lemma column_tones:
  "map fst (snd (bucket_column m b)) = (if 0 < bk_failed b then [Failed_tone] else []) @ (if 0 < bk_degraded b then [Degraded_tone] else [])
     @ (if 0 < bk_ready b then [Ready_tone] else [])"
  by (simp add: bucket_column_def SEGMENTS_def)

text \<open>The server's overview: every run is in one column of the chart.\<close>

lemma chart_counts_runs:
  assumes "getDashboardOverview w now = Inr d"
  shows "sum_list (map bucket_total (do_buckets d)) = do_runs d" and "length (snd (ReconcileOutcomesChart d)) = 12" and "convergedPct d \<le> 100"
proof -
  have d: "d = dashboardFixture w now" using assms by (simp add: getDashboardOverview_ok)
  show "sum_list (map bucket_total (do_buckets d)) = do_runs d" unfolding d by (simp add: dashboardFixture_def Let_def bucket_total_def [abs_def])
  show "length (snd (ReconcileOutcomesChart d)) = 12" unfolding d by (simp add: ReconcileOutcomesChart_def dashboardFixture_def Let_def length_buckets)
  show "convergedPct d \<le> 100" unfolding d by (rule convergedPct_le) (simp add: dashboardFixture_def Let_def)
qed

end
