(* ===== verification/Tenant_Detail.thy ===== *)
theory Tenant_Detail
  imports Screen_Text Reconcile Spec_Documents
begin

text \<open>
  The page of one tenant (\<^verbatim>\<open>features/tenants/components/detail\<close>): figures, lifecycle, recent runs, desired state, the strip or
  notice of a tenant that has not converged, and "Reconcile now", as a state machine over clicks, answers and polls.
  Shown: what is polled and when, that one reconcile is sent at a time, and two defects (the notice of an accepted
  reconcile stays beside the error of the next one; it may link to a run that does not exist).
\<close>

section \<open>Figures and lists\<close>

text \<open>A figure: label, value, line below, and tone.\<close>

definition detail_stats :: "TenantDetail \<Rightarrow> (string \<times> string \<times> string \<times> Tone) list" where
  "detail_stats t =
     (let notConverged = (ts_generation t \<noteq> ts_observedGeneration t); isFailed = (ts_phase t = Failed)
      in [(''Generation'', show_nat (ts_generation t), ''specHash '' @ shortHash (ts_specHash t), Neutral),
          (''Observed'', show_nat (ts_observedGeneration t),
           if notConverged then ''lag '' @ show_nat (td_observedLagSeconds t) @ ''s'' else ''converged'',
           if notConverged then (if isFailed then Failed_tone else Degraded_tone) else Neutral),
          (''Relation tuples'', groupThousands (int (td_tupleCount t)), ''model v'' @ show_nat (td_modelVersion t), Neutral),
          (''Auto-heal'', if ts_autoHeal t then ''on'' else ''off'', ''resync every '' @ show_nat (ts_resyncIntervalSeconds t) @ ''s'',
           if ts_autoHeal t then Ready_tone else Neutral)])"

definition detail_meta :: "TenantDetail \<Rightarrow> string" where
  "detail_meta t = ''tenant:'' @ ts_id t @ '' '' @ mid_dot @ '' org '' @ (case ts_orgId t of Some i \<Rightarrow> i | None \<Rightarrow> ''pending'') @ '' '' @ mid_dot
     @ '' created '' @ take 10 (ts_createdAt t)"

definition outcomeLabel :: "RunSummary \<Rightarrow> string" where
  "outcomeLabel r =
     (if rn_outcome r = Applied \<and> 0 < length (rn_changeOutcomes r) then ''Applied '' @ show_nat (length (rn_changeOutcomes r))
      else OUTCOME_LABELS (rn_outcome r))"

text \<open>A recent run: link, line, outcome with its tone, and age.\<close>

definition recent_run :: "instant \<Rightarrow> RunSummary \<Rightarrow> string \<times> string \<times> (string \<times> Tone) \<times> string" where
  "recent_run nowMs r =
     (''/reconcile-runs/'' @ rn_id r,
      ''run '' @ take 4 (shortId (rn_id r)) @ '' '' @ mid_dot @ '' gen '' @ show_nat (rn_generation r) @ '' '' @ mid_dot @ '' '' @ trigger_str (rn_trigger r),
      (outcomeLabel r, OUTCOME_TONE (rn_outcome r)), compactAge (rn_startedAt r) nowMs)"

definition RecentRuns :: "RunSummary list \<Rightarrow> instant \<Rightarrow> (string \<times> string \<times> (string \<times> Tone) \<times> string) list option" where
  "RecentRuns runs nowMs = (if length runs = 0 then None else Some (map (recent_run nowMs) runs))"

definition or_none :: "string \<Rightarrow> string" where
  "or_none s = (if s \<noteq> [] then s else ''none'')"

definition desired_rows :: "TenantDetail \<Rightarrow> (string \<times> string) list" where
  "desired_rows t =
     (let d = td_desired t
      in [(''Identity providers'', show_nat (length (de_identityProviders d)) @ '' '' @ mid_dot @ '' '' @ or_none (join '', '' (de_identityProviders d))),
          (''Authorization model'', de_modelSummary d), (''Roles'', or_none (join '', '' (de_roles d))),
          (''Managed users'', groupThousands (int (de_userCount d)) @ '' mirrored''), (''Reconcile policy'', de_policy d)])"

text \<open>The drift line below, and the link to the findings if there are any.\<close>

definition drift_callout :: "TenantDetail \<Rightarrow> string \<times> string option" where
  "drift_callout t =
     (if 0 < ts_openDrift t
      then (show_nat (ts_openDrift t) @ '' open drift finding'' @ (if ts_openDrift t = 1 then [] else ''s'') @ '' on this tenant'',
            Some (''/tenants/'' @ ts_slug t @ ''/drift''))
      else (''no open drift '' @ mid_dot @ '' actual matches desired'', None))"

text \<open>A chip: phase, whether it is the current one, its tone if so, and the arrow after it.\<close>

definition LifecycleChain :: "Phase \<Rightarrow> (string \<times> Tone option \<times> arrow_kind option) list" where
  "LifecycleChain phase =
     map (\<lambda>s. (phase_name (ly_phase s), if ly_current s then Some (toneForPhase (ly_phase s)) else None, ly_arrow s)) (lifecycleChain phase)"

section \<open>Not converged, failed\<close>

text \<open>The clock that the countdown reads: the server's, and what passed since the page was mounted.\<close>

definition useTicker :: "instant \<Rightarrow> nat \<Rightarrow> instant" where
  "useTicker initial elapsed = initial + elapsed"

text \<open>Tone, title, detail, and the run to view if there is an error (then there is a retry button, too).\<close>

definition NotConvergedStrip :: "TenantDetail \<Rightarrow> instant \<Rightarrow> Tone \<times> string \<times> string \<times> string option" where
  "NotConvergedStrip t nowMs =
     (case td_lastError t of
        Some e \<Rightarrow> Degraded_tone
      | None \<Rightarrow> Link,
      ''Not converged '' @ mid_dot @ '' generation '' @ show_nat (ts_generation t) @ '', observed '' @ show_nat (ts_observedGeneration t),
      case td_lastError t of
        Some e \<Rightarrow> te_message e @ '' '' @ mid_dot @ '' attempt '' @ show_nat (te_attempt e) @ '' of '' @ show_nat (te_maxAttempts e) @ '' '' @ mid_dot @ '' ''
          @ retryCountdownText (te_nextAttemptAt e) nowMs
      | None \<Rightarrow> ''generation '' @ show_nat (ts_generation t) @ '' is being applied '' @ mid_dot @ '' observed '' @ show_nat (ts_observedGeneration t),
      case td_lastError t of Some e \<Rightarrow> Some (''/reconcile-runs/'' @ te_runId e) | None \<Rightarrow> None)"

definition re_code :: re where
  "re_code = Cap (re_seq [re_exactly 3 is_digit, re_lit '' '', re_plus (\<lambda>c. is_lower c \<or> c = CHR ''_'')])"

text \<open>The first place of a text where an expression matches, as \<^verbatim>\<open>exec\<close> without an anchor finds it.\<close>

fun re_find :: "re \<Rightarrow> string \<Rightarrow> string list option" where
  "re_find r [] = re_exec r []"
| "re_find r (c # s) = (case re_exec r (c # s) of Some g \<Rightarrow> Some g | None \<Rightarrow> re_find r s)"

definition failure_code :: "TenantError option \<Rightarrow> string" where
  "failure_code err =
     (case err of
        None \<Rightarrow> ''unknown error''
      | Some e \<Rightarrow> (case re_find re_code (te_message e) of Some (c # _) \<Rightarrow> c | _ \<Rightarrow> te_message e))"

text \<open>Title, summary, the lines of the error, and the failed run.\<close>

definition FailedTenantNotice :: "TenantDetail \<Rightarrow> string \<times> string \<times> string list \<times> string option" where
  "FailedTenantNotice t =
     (let stopped = ''he reconciler stopped at generation '' @ show_nat (ts_generation t) @ ''; observed is still '' @ show_nat (ts_observedGeneration t) @ ''.''
      in (ts_slug t @ '' is Failed'',
          case td_lastError t of
            Some e \<Rightarrow> show_nat (te_attempt e) @ '' of '' @ show_nat (te_maxAttempts e) @ '' attempts exhausted over '' @ spanLabel (td_observedLagSeconds t)
              @ ''. T'' @ stopped @ '' Nothing retries until the spec changes or an operator reconciles by hand.''
          | None \<Rightarrow> ''T'' @ stopped,
          case td_lastError t of Some e \<Rightarrow> [failure_code (Some e), te_message e] | None \<Rightarrow> [''no error recorded''],
          case td_lastError t of Some e \<Rightarrow> Some (''/reconcile-runs/'' @ te_runId e) | None \<Rightarrow> None))"

datatype convergence_panel = Converged_panel | Failed_panel | Strip_panel

definition panel_of :: "TenantDetail \<Rightarrow> convergence_panel" where
  "panel_of t =
     (if ts_phase t = Failed then Failed_panel else if ts_generation t \<noteq> ts_observedGeneration t then Strip_panel else Converged_panel)"

section \<open>The view\<close>

definition detail_problem :: "BffError + string \<Rightarrow> string \<times> string option" where
  "detail_problem e =
     (case e of Inl b \<Rightarrow> (show_nat (be_status b) @ '' '' @ mid_dot @ '' '' @ be_title b, be_detail b) | Inr message \<Rightarrow> (''Request failed'', Some message))"

text \<open>The poll: every two seconds while the tenant's own phase is in flight.\<close>

definition detail_poll :: "TenantDetail option \<Rightarrow> nat" where
  "detail_poll t = pollIntervalFor (map_option (\<lambda>t p. if p = ts_phase t then Some 1 else None) t)"

record TenantDetailView =
  dw_slug :: string
  dw_tenant :: "TenantDetail option"
  dw_plan :: bool
  dw_accepted :: "string option"
  dw_reconcile :: "unit mutation"

definition detail_start :: "string \<Rightarrow> TenantDetail option \<Rightarrow> params \<Rightarrow> TenantDetailView" where
  "detail_start slug t ps =
     \<lparr>dw_slug = slug, dw_tenant = t, dw_plan = (map_get ps ''plan'' = Some ''1''), dw_accepted = None, dw_reconcile = M_idle\<rparr>"

definition accepted_notice :: "TenantDetailView \<Rightarrow> (string \<times> string) option" where
  "accepted_notice v = map_option (\<lambda>i. (''/reconcile-runs/'' @ i, shortId i)) (dw_accepted v)"

definition reconcile_error :: "TenantDetailView \<Rightarrow> (string \<times> string option) option" where
  "reconcile_error v = (case dw_reconcile v of M_error e \<Rightarrow> Some (detail_problem e) | _ \<Rightarrow> None)"

text \<open>The buttons that reconcile: the header's always, the strip's with an error, the failed notice's.\<close>

datatype detail_event =
    Reconcile_now | Strip_retry | Reconcile_anyway | Reconcile_answered "(BffError + string) + string" | Tenant_polled TenantDetail
  | Plan_link | Plan_closed

definition button_shown :: "TenantDetailView \<Rightarrow> detail_event \<Rightarrow> bool" where
  "button_shown v x \<longleftrightarrow>
     (case dw_tenant v of
        None \<Rightarrow> False
      | Some t \<Rightarrow>
          x = Reconcile_now \<or> x = Strip_retry \<and> panel_of t = Strip_panel \<and> td_lastError t \<noteq> None \<or> x = Reconcile_anyway \<and> panel_of t = Failed_panel)"

definition detail_reconcile :: "TenantDetailView \<Rightarrow> detail_event \<Rightarrow> TenantDetailView \<times> string option" where
  "detail_reconcile v x =
     (if button_shown v x \<and> \<not> isPending (dw_reconcile v) then (v\<lparr>dw_reconcile := M_pending ()\<rparr>, Some (dw_slug v)) else (v, None))"

text \<open>The output is the tenant a reconcile is posted for.\<close>

fun detail_react :: "TenantDetailView \<Rightarrow> detail_event \<Rightarrow> TenantDetailView \<times> string option" where
  "detail_react v Reconcile_now = detail_reconcile v Reconcile_now"
| "detail_react v Strip_retry = detail_reconcile v Strip_retry"
| "detail_react v Reconcile_anyway = detail_reconcile v Reconcile_anyway"
| "detail_react v (Reconcile_answered res) =
     (if \<not> isPending (dw_reconcile v) then v
      else case res of Inl e \<Rightarrow> v\<lparr>dw_reconcile := M_error e\<rparr> | Inr i \<Rightarrow> v\<lparr>dw_reconcile := M_success, dw_accepted := Some i\<rparr>, None)"
| "detail_react v (Tenant_polled t) = (v\<lparr>dw_tenant := Some t\<rparr>, None)"
| "detail_react v Plan_link = (v\<lparr>dw_plan := True\<rparr>, None)"
| "detail_react v Plan_closed = (v\<lparr>dw_plan := False\<rparr>, None)"

definition detail_do :: "TenantDetailView \<Rightarrow> detail_event \<Rightarrow> TenantDetailView" where
  "detail_do v x = fst (detail_react v x)"

section \<open>What it does\<close>

lemma detail_poll_fast: "detail_poll (Some t) = 2000 \<longleftrightarrow> ts_phase t \<in> {Planning, Applying, Deleting}"
  by (cases "ts_phase t") (auto simp: detail_poll_def pollIntervalFor_def IN_FLIGHT_PHASES_def)

text \<open>Exactly one chip is the current phase's.\<close>

lemma one_current_chip: "map fst (filter (\<lambda>(_, tone, _). tone \<noteq> None) (LifecycleChain phase)) = [phase_name phase]"
  by (cases phase) (simp_all add: LifecycleChain_def lifecycleChain_def lifecycle_order_def Let_def)

lemma reconcile_sends:
  assumes "snd (detail_react v x) = Some slug"
  shows "slug = dw_slug v \<and> button_shown v x \<and> \<not> isPending (dw_reconcile v) \<and> isPending (dw_reconcile (detail_do v x))"
  using assms by (cases x) (auto simp: detail_reconcile_def detail_do_def isPending_def split: if_splits)

text \<open>A failed tenant can be reconciled by hand, from two buttons; a tenant that is being applied has no retry.\<close>

lemma failed_has_buttons: "dw_tenant v = Some t \<Longrightarrow> ts_phase t = Failed \<Longrightarrow> button_shown v Reconcile_now \<and> button_shown v Reconcile_anyway \<and> \<not> button_shown v Strip_retry"
  by (simp add: button_shown_def panel_of_def)

lemma strip_retry_on_error: "button_shown v Strip_retry \<Longrightarrow> \<exists>t e. dw_tenant v = Some t \<and> td_lastError t = Some e \<and> fst (NotConvergedStrip t nowMs) = Degraded_tone"
  by (auto simp: button_shown_def NotConvergedStrip_def split: option.splits)

text \<open>The notice of an accepted reconcile is never taken back: beside the error of the next one it is still shown.\<close>

lemma notice_beside_error:
  assumes "isPending (dw_reconcile v)" and "dw_tenant v \<noteq> None" and "v' = fold (\<lambda>x w. detail_do w x) [Reconcile_answered (Inr i), Reconcile_now, Reconcile_answered (Inl e)] v"
  shows "accepted_notice v' = Some (''/reconcile-runs/'' @ i, shortId i) \<and> reconcile_error v' = Some (detail_problem e)"
  using assms
  by (auto simp: detail_do_def detail_reconcile_def button_shown_def isPending_def accepted_notice_def reconcile_error_def split: mutation.splits option.splits)

text \<open>
  The run it links to. Of a tenant without a settled run among its newest ten, the server makes up an identifier: no run has
  it, so the link leads nowhere.
\<close>

lemma accepted_run_missing:
  assumes "listRuns R \<lparr>lf_trigger = None, lf_outcome = None, lf_tenant = Some slug, lf_cursor = None, lf_limit = 10\<rparr> now = Inr p"
    and "\<forall>r \<in> set (pg_items p). rn_finishedAt r = None" and "slug \<noteq> []" and "enqueueReconcile R slug key now draws = (R', Some (Inr i))"
    and "map_get (s_runs R) (synthetic_run_id slug key now) = None"
  shows "R' = R \<and> snd (getRun R' i) = Inr None"
proof -
  have "List.find (\<lambda>r. rn_finishedAt r \<noteq> None) (pg_items p) = None" using assms(2) by (auto simp: find_None_iff)
  then have e: "enqueueReconcile R slug key now draws = (R, Some (ReconcileAccepted (synthetic_run_id slug key now)))"
    using assms(1,3) by (simp add: enqueueReconcile_def)
  then have "R' = R" and "ReconcileAccepted (synthetic_run_id slug key now) = Inr i" using assms(4) by simp_all
  then show ?thesis using assms(5) by (auto simp: ReconcileAccepted_def parse_with_def getRun_def split: if_splits)
qed

end
