(* ===== verification/Spec_Panels.thy ===== *)
theory Spec_Panels
  imports Screen_Text Spec_Editor
begin

text \<open>
  The parts of the spec screens (\<^verbatim>\<open>features/spec/components\<close>): the code editor with its marked lines and its Tab key, the validation
  panel, the list of versions and the rows of the plan dialog. Shown: the rendered lines are the text that is edited, a line is
  marked by the worst of its findings, and Tab changes nothing outside the selection.
\<close>

section \<open>Code editor\<close>

text \<open>The marks: an error stays, a later finding of the line replaces anything else.\<close>

definition mark_issue :: "ValidationIssue \<Rightarrow> (nat, ValidationLevel) jsmap \<Rightarrow> (nat, ValidationLevel) jsmap" where
  "mark_issue i m =
     (case vi_line i of
        None \<Rightarrow> m
      | Some n \<Rightarrow> if vi_level i = V_ok then m else if map_get m n \<noteq> Some V_error then map_set m n (vi_level i) else m)"

definition issueByLine :: "ValidationIssue list \<Rightarrow> (nat, ValidationLevel) jsmap" where
  "issueByLine issues = fold mark_issue issues []"

definition editor_lines :: "string \<Rightarrow> string list" where
  "editor_lines text' = split_char (CHR 0x0A) text'"

text \<open>A row: its number, the mark, and the tokens; an empty line is drawn as a blank.\<close>

definition editor_row :: "(nat, ValidationLevel) jsmap \<Rightarrow> nat \<Rightarrow> string \<Rightarrow> nat \<times> ValidationLevel option \<times> HighlightToken list" where
  "editor_row marks i text' = (Suc i, map_get marks (Suc i), tokenizeYamlLine text')"

definition CodeEditor :: "string \<Rightarrow> ValidationIssue list \<Rightarrow> (nat \<times> ValidationLevel option \<times> HighlightToken list) list" where
  "CodeEditor text' issues = map (\<lambda>(i, t). editor_row (issueByLine issues) i t) (enumerate 0 (editor_lines text'))"

text \<open>The Tab key: two blanks in place of the selection, and the caret after them; other keys, or a read-only editor, are the browser's.\<close>

definition editor_key :: "bool \<Rightarrow> string \<Rightarrow> string \<Rightarrow> nat \<Rightarrow> nat \<Rightarrow> (string \<times> nat) option" where
  "editor_key readOnly key text' selectionStart selectionEnd =
     (if key \<noteq> ''Tab'' \<or> readOnly then None
      else Some (take selectionStart text' @ ''  '' @ drop selectionEnd text', selectionStart + 2))"

section \<open>Validation panel\<close>

fun LEVEL :: "ValidationLevel \<Rightarrow> string \<times> Tone \<times> string" where
  "LEVEL V_ok = ([CHR 0xE2, CHR 0x9C, CHR 0x93], Ready_tone, ''ok'')"
| "LEVEL V_warning = ([CHR 0xE2, CHR 0x9A, CHR 0xA0], Degraded_tone, ''warning'')"
| "LEVEL V_error = ([CHR 0xE2, CHR 0x9C, CHR 0x95], Failed_tone, ''error'')"

definition ResultCard :: "ValidationIssue \<Rightarrow> (string \<times> Tone \<times> string) \<times> string \<times> string" where
  "ResultCard i = (LEVEL (vi_level i), vi_title i, vi_detail i)"

definition validation_caption :: "bool \<Rightarrow> ValidationResponse option \<Rightarrow> string" where
  "validation_caption validating validation =
     ''POST /spec:validate '' @ mid_dot @ '' ''
     @ (if validating then ellipsis else case validation of Some (_, ms) \<Rightarrow> show_nat ms @ ''ms'' | None \<Rightarrow> em_dash)"

datatype ValidationBody = Validation_problem "string \<times> string option" | Validation_cards "((string \<times> Tone \<times> string) \<times> string \<times> string) list" | Validation_skeleton

definition validation_body :: "ValidationResponse option \<Rightarrow> (string \<times> string option) option \<Rightarrow> ValidationBody" where
  "validation_body validation failure' =
     (case failure' of
        Some p \<Rightarrow> Validation_problem p
      | None \<Rightarrow> (case validation of Some (r, _) \<Rightarrow> Validation_cards (map ResultCard (vo_results r)) | None \<Rightarrow> Validation_skeleton))"

text \<open>The lines of the change, or the note that there is none.\<close>

definition preview_pane :: "SpecEditorView \<Rightarrow> string + DiffLine list" where
  "preview_pane e =
     (if dirty e then Inr (change_preview e)
      else Inl (''no changes yet '' @ mid_dot @ '' draft matches generation '' @ show_nat (editor_generation e)))"

section \<open>Versions\<close>

definition utcMinute :: "string \<Rightarrow> string" where
  "utcMinute text' =
     (case Date_parse text' of
        None \<Rightarrow> ''NaN-NaN-NaN NaN:NaN''
      | Some t \<Rightarrow> show_nat (fst (year_of 1970 (t div 86400000))) @ ''-'' @ pad 2 (fst (month_day t)) @ ''-'' @ pad 2 (snd (month_day t)) @ '' ''
          @ pad 2 (getUTCHours t) @ '':'' @ pad 2 (getUTCMinutes t))"

record VersionCard =
  vc_generation :: nat
  vc_label :: string
  vc_pressed :: bool
  vc_title :: string
  vc_badge :: "string option"
  vc_meta :: string
  vc_hash :: string

definition version_card :: "nat \<Rightarrow> nat \<Rightarrow> SpecVersion \<Rightarrow> VersionCard" where
  "version_card a b v =
     (let isA = (sv_generation v = a); isB = (sv_generation v = b); gen = ''gen '' @ show_nat (sv_generation v)
      in \<lparr>vc_generation = sv_generation v,
          vc_label = gen @ (if isA then '' '' @ mid_dot @ '' side A'' else if isB then '' '' @ mid_dot @ '' side B'' else []),
          vc_pressed = (isA \<or> isB), vc_title = gen @ (if sv_status v = V_current then '' '' @ mid_dot @ '' current'' else []),
          vc_badge = (if isA \<or> isB then Some (if isB then ''B'' else ''A'') else None),
          vc_meta = sv_author v @ '' '' @ mid_dot @ '' '' @ utcMinute (sv_createdAt v),
          vc_hash = shortHash (sv_hash v) @ '' '' @ mid_dot @ '' '' @ sv_summary v\<rparr>)"

definition VersionList :: "SpecVersion list \<Rightarrow> nat \<Rightarrow> nat \<Rightarrow> VersionCard list" where
  "VersionList versions a b = map (version_card a b) versions"

section \<open>Plan dialog\<close>

fun OP :: "PlanOp \<Rightarrow> string \<times> Tone \<times> string" where
  "OP Plan_create = (''+'', Ready_tone, ''create'')"
| "OP Plan_update = (''~'', Degraded_tone, ''update'')"
| "OP Plan_delete = ([CHR 0xE2, CHR 0x88, CHR 0x92], Failed_tone, ''delete'')"

definition plan_tiles :: "Plan \<Rightarrow> (nat \<times> string \<times> Tone) list" where
  "plan_tiles p =
     [(pl_create p, ''to create'', Ready_tone), (pl_update p, ''to update'', Degraded_tone), (pl_delete p, ''to delete'', Failed_tone),
      (pl_unchanged p, ''unchanged'', Neutral)]"

definition plan_meta :: "Plan option \<Rightarrow> string" where
  "plan_meta p =
     (case p of
        Some d \<Rightarrow> ''pure planner '' @ mid_dot @ '' desired gen '' @ show_nat (pl_generation d) @ '' vs actual read at '' @ utcSeconds (pl_actualReadAt d) True
          @ '' '' @ mid_dot @ '' no side effects yet''
      | None \<Rightarrow> ''pure planner '' @ mid_dot @ '' reading actual state'' @ ellipsis)"

definition plan_row :: "PlanChange \<Rightarrow> (string \<times> Tone \<times> string) \<times> string \<times> string \<times> string" where
  "plan_row c = (OP (pc_op c), pc_kind c, pc_description c, ''changeKey '' @ shortHash (pc_changeKey c))"

text \<open>The changes, and the last line for what is left alone.\<close>

definition plan_rows :: "Plan \<Rightarrow> ((string \<times> Tone \<times> string) \<times> string \<times> string \<times> string) list \<times> string" where
  "plan_rows p = (map plan_row (pl_changes p), show_nat (pl_unchanged p) @ '' resources already match desired state '' @ em_dash @ '' no calls will be made'')"

definition plan_filename :: "Plan \<Rightarrow> string" where
  "plan_filename p = ''plan-'' @ pl_slug p @ ''-gen'' @ show_nat (pl_generation p) @ ''.json''"

definition apply_label :: "Plan option \<Rightarrow> bool \<Rightarrow> string" where
  "apply_label p applying =
     (if applying then ''Applying'' @ ellipsis
      else ''Apply '' @ show_nat (plan_total p) @ '' change'' @ (if plan_total p = 1 then [] else ''s''))"

section \<open>What they show\<close>

text \<open>The lines drawn under the text area are its text.\<close>

lemma CodeEditor_renders: "join [CHR 0x0A] (map (\<lambda>(_, _, ts). concat (map tk_text ts)) (CodeEditor text' issues)) = text'"
proof -
  have "map (\<lambda>(_, _, ts). concat (map tk_text ts)) (CodeEditor text' issues) = editor_lines text'"
    by (rule nth_equalityI) (simp_all add: CodeEditor_def editor_row_def nth_enumerate_eq tokenizeYamlLine_lossless)
  then show ?thesis by (simp add: editor_lines_def join_split_char)
qed

lemma CodeEditor_numbers: "map fst (CodeEditor text' issues) = [1..<Suc (length (editor_lines text'))]"
  by (rule nth_equalityI) (simp_all add: CodeEditor_def editor_row_def nth_enumerate_eq del: upt_Suc)

text \<open>The mark of a line: an error if it has one, else a warning if it has one, else none.\<close>

lemma mark_issue_get:
  "map_get (mark_issue i m) n =
     (if vi_line i = Some n \<and> vi_level i \<noteq> V_ok \<and> map_get m n \<noteq> Some V_error then Some (vi_level i) else map_get m n)"
  by (auto simp: mark_issue_def split: option.splits)

lemma marks_fold:
  assumes "map_get m n \<noteq> Some V_ok"
  shows "map_get (fold mark_issue issues m) n =
     (if map_get m n = Some V_error \<or> (\<exists>i \<in> set issues. vi_line i = Some n \<and> vi_level i = V_error) then Some V_error
      else if map_get m n = Some V_warning \<or> (\<exists>i \<in> set issues. vi_line i = Some n \<and> vi_level i = V_warning) then Some V_warning
      else None)"
  using assms
proof (induction issues arbitrary: m)
  case Nil
  then show ?case by (cases "map_get m n"; cases "the (map_get m n)") auto
next
  case (Cons i issues)
  have "map_get (mark_issue i m) n \<noteq> Some V_ok" using Cons.prems by (simp add: mark_issue_get)
  from Cons.IH [OF this] show ?case using Cons.prems by (cases "vi_level i") (auto simp: mark_issue_get)
qed

lemma issueByLine_worst:
  "map_get (issueByLine issues) n =
     (if \<exists>i \<in> set issues. vi_line i = Some n \<and> vi_level i = V_error then Some V_error
      else if \<exists>i \<in> set issues. vi_line i = Some n \<and> vi_level i = V_warning then Some V_warning
      else None)"
  using marks_fold [of "[]" n issues] by (simp add: issueByLine_def)

text \<open>Tab keeps what is before and after the selection; deleting the two blanks gives back a text without selection.\<close>

lemma tab_keeps_rest:
  assumes "editor_key False ''Tab'' text' s e = Some (next, caret)" and "s \<le> e" and "e \<le> length text'"
  shows "take s next = take s text' \<and> drop caret next = drop e text' \<and> length next = length text' - (e - s) + 2
     \<and> (s = e \<longrightarrow> take s next @ drop caret next = text')"
  using assms by (auto simp: editor_key_def min_def)

text \<open>A pair of different generations of the list carries each badge once.\<close>

lemma badges:
  assumes "distinct (map sv_generation versions)" and "a \<noteq> b"
  shows "map vc_generation (filter (\<lambda>c. vc_badge c = Some ''A'') (VersionList versions a b)) = filter (\<lambda>g. g = a) (map sv_generation versions)"
    and "map vc_generation (filter (\<lambda>c. vc_badge c = Some ''B'') (VersionList versions a b)) = filter (\<lambda>g. g = b) (map sv_generation versions)"
  using assms(2) by (induction versions) (auto simp: VersionList_def version_card_def Let_def)

text \<open>The number on the Apply button is the sum of the first three tiles, and the button is dead for none.\<close>

lemma apply_counts_tiles: "plan_total (Some p) = sum_list (map fst (take 3 (plan_tiles p)))" "plan_total q = 0 \<Longrightarrow> \<not> apply_enabled q applying"
  by (simp_all add: plan_total_def plan_tiles_def apply_enabled_def)

end
