(* ===== verification/Relations_Panels.thy ===== *)
theory Relations_Panels
  imports Screen_Text Relations_Screen
begin

text \<open>
  The parts of the relations screen (\<^verbatim>\<open>features/relations/components\<close>): the filter row, the table with its row menu and the
  lines and labels of the batch panel, over the state of \<^verbatim>\<open>Relations_Screen\<close>. Shown: the filter row writes the filter that the page
  reads, a row can be staged for deletion once, and each staged line unstages its own tuple.
\<close>

section \<open>Filter row\<close>

definition filter_keys :: "string list" where
  "filter_keys = [''user'', ''relation'', ''object'']"

text \<open>\<open>data\<close> are the texts of the three inputs.\<close>

definition filter_row_params :: "(string \<Rightarrow> string) \<Rightarrow> params" where
  "filter_row_params data = concat (map (\<lambda>k. let v = trim (data k) in if v \<noteq> [] then [(k, v)] else []) filter_keys)"

definition filter_row_href :: "string \<Rightarrow> (string \<Rightarrow> string) \<Rightarrow> string" where
  "filter_row_href pathname data = filter_href pathname (filter_row_params data)"

definition relations_hasFilter :: "RelationsFilter \<Rightarrow> bool" where
  "relations_hasFilter f \<longleftrightarrow> truthy (rf_user f) \<or> truthy (rf_relation f) \<or> truthy (rf_object f)"

definition filter_formKey :: "RelationsFilter \<Rightarrow> string" where
  "filter_formKey f =
     (let part = (\<lambda>v. case v of Some s \<Rightarrow> s | None \<Rightarrow> [])
      in part (rf_user f) @ ''|'' @ part (rf_relation f) @ ''|'' @ part (rf_object f))"

section \<open>Table\<close>

record RelationRow =
  rr_id :: string
  rr_dim :: bool
  rr_user :: "string \<times> Tone"
  rr_relation :: "string \<times> Tone"
  rr_object :: string
  rr_source :: "string \<times> Tone"
  rr_written :: string

definition staged_delete_keys :: "RelationsView \<Rightarrow> string list" where
  "staged_delete_keys v = map tupleKey (wr_deletes (rv_staged v))"

definition relation_row :: "string list \<Rightarrow> Tuple \<Rightarrow> RelationRow" where
  "relation_row stagedDeleteKeys t =
     (let drift = (tr_source t = Drift_source)
      in \<lparr>rr_id = tr_id t, rr_dim = (tupleKey (input_of t) \<in> set stagedDeleteKeys), rr_user = (tr_user t, if drift then Drift_tone else Neutral),
          rr_relation = (tr_relation t, if drift then Drift_tone else if tr_relation t = ''parent'' then Degraded_tone else Link),
          rr_object = tr_object t, rr_source = (sourceLabel (tr_source t), if drift then Drift_tone else Neutral), rr_written = utcDayTime (tr_writtenAt t)\<rparr>)"

definition RelationsTable :: "RelationsView \<Rightarrow> RelationRow list" where
  "RelationsTable v = map (relation_row (staged_delete_keys v)) (rv_items v)"

text \<open>The menu of a row: open or not, and what its one item does.\<close>

datatype tuple_menu_event = Tuple_menu_clicked | Tuple_menu_escape | Stage_delete_clicked

definition tuple_menu :: "bool \<Rightarrow> bool \<Rightarrow> tuple_menu_event \<Rightarrow> bool \<times> bool" where
  "tuple_menu staged opened x =
     (case x of
        Tuple_menu_clicked \<Rightarrow> (\<not> opened, False)
      | Tuple_menu_escape \<Rightarrow> (False, False)
      | Stage_delete_clicked \<Rightarrow> if opened \<and> \<not> staged then (False, True) else (opened, False))"

definition menu_label :: "bool \<Rightarrow> string" where
  "menu_label staged = (if staged then ''staged for delete'' else ''stage delete'')"

section \<open>Batch panel\<close>

text \<open>A line: write or delete, the tuple, and the event of its unstage button.\<close>

definition StagedLine :: "bool \<Rightarrow> TupleInput \<Rightarrow> string \<times> string \<times> relations_event" where
  "StagedLine is_write t =
     (if is_write then ''write'' else ''delete'', tupleKey t, if is_write then Write_unstaged t else Delete_unstaged t)"

definition staged_lines :: "WriteRequest \<Rightarrow> (string \<times> string \<times> relations_event) list" where
  "staged_lines b = map (StagedLine True) (wr_writes b) @ map (StagedLine False) (wr_deletes b)"

definition key_caption :: "string option \<Rightarrow> string" where
  "key_caption key =
     (if truthy key then keyPreview (the key) else ''assigned when the first change is staged'')"

definition write_label :: "RelationsView \<Rightarrow> string" where
  "write_label v =
     (if isPending (rv_write v) then ''Writing'' @ ellipsis
      else ''Write '' @ show_nat (length (wr_writes (rv_staged v))) @ '' '' @ mid_dot @ '' delete '' @ show_nat (length (wr_deletes (rv_staged v))))"

definition written_text :: "WriteResult \<Rightarrow> string" where
  "written_text r = ''wrote '' @ show_nat (ws_written r) @ '' '' @ mid_dot @ '' deleted '' @ show_nat (ws_deleted r) @ '' '' @ mid_dot @ '' invalidated ''
     @ (case ws_invalidatedDecisions r of Some n \<Rightarrow> show_nat n | None \<Rightarrow> ''NaN'') @ '' cached decisions '' @ mid_dot @ '' model v'' @ show_nat (ws_modelVersion r)"

definition write_problem :: "RelationsView \<Rightarrow> (string \<times> string option) option" where
  "write_problem v =
     (case rv_write v of
        M_error (Inl b) \<Rightarrow> Some (show_nat (be_status b) @ '' '' @ mid_dot @ '' '' @ be_title b, be_detail b)
      | M_error (Inr message) \<Rightarrow> Some (''Write failed'', Some message)
      | _ \<Rightarrow> None)"

definition relations_remaining :: "RelationsPage \<Rightarrow> Tuple list \<Rightarrow> int" where
  "relations_remaining first items = max 0 (rp_total first - int (length items))"

definition relations_empty_text :: "RelationsFilter \<Rightarrow> string \<times> string" where
  "relations_empty_text f =
     (if relations_hasFilter f then (''No tuples match these filters'', ''Filters are exact; end a value with * for a prefix, e.g. folder:*.'')
      else (''No tuples yet'', ''Tuples arrive when the spec's relations apply or through a batch write.''))"

definition ndjson_filename :: "string \<Rightarrow> Tuple list \<Rightarrow> string" where
  "ndjson_filename slug items = slug @ ''-relations-'' @ show_nat (length items) @ ''.ndjson''"

section \<open>What they do\<close>

lemma filter_row_get: "map_get (filter_row_params data) k = (if k \<in> set filter_keys then nonempty (Some (trim (data k))) else None)"
  by (auto simp: filter_row_params_def filter_keys_def Let_def nonempty_def truthy_def)

text \<open>The page reads back what was typed, without blanks around it.\<close>

lemma filter_row_read:
  "parseRelationsFilter (map_get (filter_row_params data)) =
     \<lparr>rf_user = nonempty (Some (trim (data ''user''))), rf_relation = nonempty (Some (trim (data ''relation''))),
      rf_object = nonempty (Some (trim (data ''object'')))\<rparr>"
  by (simp add: parseRelationsFilter_def filter_row_get filter_keys_def nonempty_def truthy_def)

lemma clear_shown_iff: "relations_hasFilter (parseRelationsFilter (map_get (filter_row_params data))) \<longleftrightarrow> (\<exists>k \<in> set filter_keys. trim (data k) \<noteq> [])"
  by (auto simp: filter_row_read relations_hasFilter_def filter_keys_def nonempty_def truthy_def)

text \<open>A line's button takes away the line's tuple and nothing else of the batch.\<close>

lemma staged_line_unstages:
  assumes "(kind, key, x) \<in> set (staged_lines (rv_staged v))"
  shows "\<exists>t. tupleKey t = key \<and> rv_staged (relations_do v x) =
     (if kind = ''write'' then (rv_staged v)\<lparr>wr_writes := filter (\<lambda>w. w \<noteq> t) (wr_writes (rv_staged v))\<rparr>
      else (rv_staged v)\<lparr>wr_deletes := filter (\<lambda>w. w \<noteq> t) (wr_deletes (rv_staged v))\<rparr>)"
  using assms by (auto simp: staged_lines_def StagedLine_def relations_do_def unstage_write_def unstage_delete_def)

text \<open>A staged row is dimmed and its menu item is dead.\<close>

lemma staged_row_dead: "t \<in> set (rv_items v) \<Longrightarrow> input_of t \<in> set (wr_deletes (rv_staged v)) \<Longrightarrow>
   rr_dim (relation_row (staged_delete_keys v) t) \<and> \<not> snd (tuple_menu (rr_dim (relation_row (staged_delete_keys v) t)) opened Stage_delete_clicked)"
  by (auto simp: relation_row_def staged_delete_keys_def tuple_menu_def Let_def)

end
