(* ===== verification/Spec2Isabelle.thy ===== *)
theory Spec2Isabelle
  imports Js_Date Paging Stores Tenants Authz_Model Playground Relations Reconcile_Behaviour Spec_History Drift_Behaviour
    Sessions Identity_Providers Roles Users Audit_Stream Dashboard New_Tenant Client_View Spec_Editor Relations_Screen Connection_Form
    Drift_Screen Routes Console Console_Behaviour Query_Cache Playground_Screen Model_Screen Users_Screen Roles_Screen
    Tenants_Screen Drift_Panels Audit_Screen Runs_Screen Dashboard_Screen Tenant_Detail Spec_Panels Relations_Panels
begin

text \<open>
  A verification development for the AuthzPlane console: the TypeScript backend-for-frontend under
  \<^verbatim>\<open>web/src\<close>. The console manages tenants of an authorization control plane. Each feature under
  \<^verbatim>\<open>features/<name>\<close> has a \<^verbatim>\<open>server.ts\<close> with the operations, a \<^verbatim>\<open>schemas.ts\<close> with the wire shapes, and
  fixtures that seed an in-memory store on first use; route handlers under \<^verbatim>\<open>app/api\<close> call the guard
  and then one operation; the browser calls the routes with \<^verbatim>\<open>lib/api/client.ts\<close>. Features interact through
  the tenants store (every tenant-scoped feature looks its tenant up), through the reconcile store
  (saving a spec enqueues a run), and through the authorization model (relations and the playground
  evaluate against it).

  \<^bold>\<open>How the language is modelled.\<close> \<open>Js_Prelude\<close>, \<open>Js_String\<close>, \<open>Js_Date\<close>, \<open>Js_Url\<close> and \<open>Base64\<close> hold what the
  code uses of JavaScript and its library: strings as lists of code units 0 to 255, maps as
  insertion-ordered association lists, sets, stable sorting by a comparator, regular expressions with
  captures (\<open>re_run\<close> lists all matches in preference order), dates between milliseconds and ISO text,
  form encoding, base64. \<open>Js_Number\<close> holds quotients of counts as 53-bit doubles with \<^verbatim>\<open>toFixed\<close> and \<^verbatim>\<open>Math.round\<close>. A thrown exception is the left side of \<open>throws\<close>, an error result the left side of
  \<open>result\<close>. A zod object is a record with a predicate \<open>..._ok\<close> for its constraints. Clocks, random UUIDs
  and IVs are arguments. A loop that draws ids until one is free takes the list of draws and answers
  \<open>None\<close> when they run out. Code outside the repository is a parameter with named hypotheses: WebCrypto
  and JSON in \<open>Sessions\<close>, the URL parser in \<open>Spec_Validate\<close> and \<open>Identity_Providers\<close>, \<^verbatim>\<open>localeCompare\<close>
  in \<open>Drift_Findings\<close> and \<open>Audit_Stream\<close> (its contract is \<open>collation\<close> of \<open>Js_Order\<close>). A lookup in a plain object also finds
  inherited names (\<open>inherited_keys\<close>); where such a name can be reached by a valid input the model has it.

  \<^bold>\<open>Interfaces.\<close> \<open>Stores\<close> states the contracts the features share as locales: \<open>lazy_store\<close> (a seeded entry is
  cached, others are untouched), \<open>transition_system\<close> (an invariant kept by every step), \<open>single_flight\<close> (a screen sends nothing
  while a request is in flight),
  \<open>keyed_replay\<close> and \<open>keyed_log\<close> (an Idempotency-Key is answered once, and later operations never revoke
  the answer). \<open>Paging\<close> has \<open>cursor_pager\<close>, which \<open>offset_pager\<close> and \<open>key_pager\<close> refine; following cursors
  enumerates a listing without loss or repetition. \<open>js_comparator\<close> is the contract of a sort callback and
  \<open>collation\<close> the one of a string collation. Each locale is interpreted on the definitions of the
  components that provide it.

  \<^bold>\<open>The components.\<close>
  \<^item> \<open>Tenants_Data\<close>, \<open>Tenants\<close> (\<^verbatim>\<open>features/tenants\<close>): creation, listing, lookup, slug check and derivation,
    spec preview, filters in the URL. Shown: what an accepted or refused creation does, that every
    reachable store answers every lookup, that the listing is complete, that the slug check predicts
    creation, that derived slugs are valid, that filters survive the URL.
  \<^item> \<open>Authz_Dsl\<close>, \<open>Authz_Model\<close> (\<^verbatim>\<open>features/authz-model\<close>): tokenizer, parser and reference checks of the model
    language, the depth computation, staging and validation. Shown: an accepted model has no dangling
    reference, the tokenizer loses nothing, the reported depth is the longest rewrite chain and its
    recursion always finishes (the fuel is the number of relations plus one), issue lines are in range.
  \<^item> \<open>Resolver\<close>, \<open>Playground\<close> (\<^verbatim>\<open>features/playground\<close>): the explaining evaluator, batch checks. Shown: the
    answer is exactly derivability within the depth cap of 8, the decisive tuple is real, the
    explanation tree is consistent, the batch check agrees with the single one.
  \<^item> \<open>Relations\<close> (\<^verbatim>\<open>features/relations\<close>): listing and batched writes of tuples. Shown: post-state, atomicity,
    idempotence, invariant, complete listing, and a negative total for a fresh tenant.
  \<^item> \<open>Reconcile_Data\<close>, \<open>Reconcile\<close>, \<open>Reconcile_Behaviour\<close> (\<^verbatim>\<open>features/reconcile\<close>): the run store with scripted
    progress, retries, listing and statistics. Shown: a retry settles after two more reads than it has
    changes, keys replay, settled runs never change, reads pass their schema, listing and median.
  \<^item> \<open>Spec_Diff\<close>, \<open>Spec_Validate\<close>, \<open>Spec_Documents\<close>, \<open>Spec_History\<close> (\<^verbatim>\<open>features/spec\<close>): line diff, validation, the
    version store. Shown: the diff shows both documents completely and is minimal, history is
    append-only, no save is lost, keys replay across any later operations.
  \<^item> \<open>Drift_Findings\<close>, \<open>Drift_Behaviour\<close> (\<^verbatim>\<open>features/drift\<close>): findings, heals, acknowledgements. Shown: a heal
    closes exactly what it names with one run per tenant; the listing is complete, ordered and
    accounted for.
  \<^item> \<open>Base64\<close>, \<open>Sessions\<close> (\<^verbatim>\<open>server/session.ts\<close>, \<^verbatim>\<open>server/auth\<close>, \<^verbatim>\<open>server/http\<close>, \<^verbatim>\<open>proxy.ts\<close>, the auth routes,
    \<^verbatim>\<open>lib/api/client.ts\<close>). Shown: a sealed session opens to itself until it expires; nothing passes the
    guard without a session sealed under the server's key, and no mutation without the right origin and
    an Idempotency-Key.
  \<^item> \<open>Identity_Providers\<close> (\<^verbatim>\<open>features/identity-providers\<close>): the issuer probe and staged edits. Shown: the guard
    refuses exactly the special-purpose IPv4 blocks; staged edits keep the guard and never the secret.
  \<^item> \<open>Roles\<close> (\<^verbatim>\<open>features/roles\<close>): the role matrix and staged deletion. Shown: no operation removes a role with bound
    tuples, a deletion sticks, and the matrix of a freshly created tenant cannot be read.
  \<^item> \<open>Users\<close> (\<^verbatim>\<open>features/users\<close>): the user mirror, refresh and invitations. Shown: an address is invited at most once,
    in any letter case; listing is complete and unaffected by the other operations.
  \<^item> \<open>Audit_Stream\<close> (\<^verbatim>\<open>features/audit\<close>): the event stream and export requests. Shown: the stream is complete and newest
    first, its actor list exact, an export is queued once per tenant and key, the filter survives the URL.
  \<^item> \<open>Dashboard\<close> (\<^verbatim>\<open>features/dashboard\<close>): the overview per time window and the shell summary. Shown: the overview passes
    its schema and agrees with the fleet totals, and its twelve buckets tile the window.
  \<^item> \<open>New_Tenant\<close> (\<^verbatim>\<open>features/tenants/components/new-tenant\<close>, \<^verbatim>\<open>hooks.ts\<close>): the create wizard in the browser as a state machine.
    Shown: what it may submit, and exactly when the server accepts that.
  \<^item> \<open>Client_View\<close>: pure helpers of the screens (countdown, lifecycle chain, theme, paths, editor). Shown: the
    editor's tokens put together are the line, and what line and column of a caret mean.

  \<^bold>\<open>The screens.\<close> \<open>Client_Requests\<close> has what they share: a request in flight and how its error is shown. Each screen is a state
  machine over the operator's actions, timers and answers, with its requests as outputs; the query client is third-party and enters only as the
  order in which answers arrive.
  \<^item> \<open>Spec_Editor\<close> (\<^verbatim>\<open>features/spec/components\<close>): draft, debounced validation, save, plan dialog, version comparison. Shown: what a
    save sends, that with the server's version store it never overwrites a generation the browser had not fetched, and four defects
    (a refetch rebases the draft, typing during a save is lost, Apply ignores the draft planned, a wrong restore message).
  \<^item> \<open>Relations_Screen\<close> (\<^verbatim>\<open>features/relations/components\<close>): the staged batch and its key. Shown: what is sent, and what screen and
    store hold after the answer.
  \<^item> \<open>Connection_Form\<close> (\<^verbatim>\<open>features/identity-providers/components\<close>): draft, secret, probes in any order. Shown: what is staged, that no
    accepted secret stays, and that an issuer marked as passed is safe.
  \<^item> \<open>Drift_Screen\<close>, \<open>Drift_Panels\<close> (\<^verbatim>\<open>features/drift\<close>): selection and bulk actions; rows, filters and the drawer of a finding. Shown: a
    heal names and closes exactly the findings that are selected and listed; the drawer's error stays for the next finding.
  \<^item> \<open>Playground_Screen\<close>, \<open>Model_Screen\<close> (\<^verbatim>\<open>features/playground/components\<close>, \<^verbatim>\<open>features/authz-model/components\<close>): checks and batches with
    answers in any order, the model draft with validation and staging. Shown: the verdict on screen is the server's answer to the query it
    is filed under, and what is staged is accepted and served back.
  \<^item> \<open>Screen_Text\<close>: the texts made of numbers, dates and names. Shown: grouping loses no digit, a duration is the nearest tenth.
  \<^item> \<open>Users_Screen\<close>, \<open>Roles_Screen\<close>, \<open>Tenants_Screen\<close>, \<open>Audit_Screen\<close>, \<open>Runs_Screen\<close>, \<open>Dashboard_Screen\<close>, \<open>Tenant_Detail\<close> (the
    \<^verbatim>\<open>components\<close> of the features of these names): rows, filters in the URL, drawers and the requests they send. Shown: a filter picked
    is the filter the page parses, what each mutation sends, when a page polls, and the defects named in each theory's header.
  \<^item> \<open>Spec_Panels\<close>, \<open>Relations_Panels\<close>: the parts of the spec and relations screens. Shown: the rendered lines are the text, a line
    is marked by its worst finding, and a row can be staged for deletion once.

  \<^bold>\<open>The whole server.\<close> \<open>Routes\<close> (\<^verbatim>\<open>app/api\<close>) has one definition per exported handler (\<^verbatim>\<open>GET\<close>, \<^verbatim>\<open>POST\<close>, ...) over
  \<open>world\<close>, the record of all stores, and \<open>handle\<close>, which dispatches a request to its handler. \<open>Console\<close> specifies the
  effect of a request as the step relation \<open>console_step\<close> (at most one operation of one feature), shows that
  every handler refines it, and that it keeps \<open>console_ok\<close>, the invariants of all components together.
  \<open>Console_Behaviour\<close> shows what no step undoes and which routes always answer. The properties of the whole
  are below: no effect and no data without an authentic session, the joint invariant, append-only history
  and created tenants as a client sees them over any requests in between, and eighteen routes that never
  end in an uncaught exception but one. \<open>Query_Cache\<close> (\<^verbatim>\<open>features/*/keys.ts\<close> and the mutations) puts the browser's query keys and what its
  mutations write into the cache and invalidate against the handlers: no answer kept as valid is outdated, with three exceptions.

  \<^bold>\<open>Bounds.\<close> Clocks are below the year 9995 (\<open>clock_ok\<close>), so ISO text has four-digit years; the evaluator's
  recursion ends by its depth cap; \<open>depthOf\<close> and \<open>walk\<close> take fuel and are shown to finish with the fuel
  the callers give. Requests run one after another: an \<^verbatim>\<open>await\<close> inside an operation is not a point of
  interleaving.

  \<^bold>\<open>Not modelled.\<close> Response headers (caching, Location, ETag) and the JSON text of a response; JSX markup and styling, page
  components and loading skeletons, the shared UI components, clipboard and downloads; the query client itself (its key matching
  and cache writes are modelled, the matching as a hypothesis of \<open>Query_Cache\<close>; the order in which answers arrive is free); and the
  .NET control plane, which the console does not call.
\<close>

section \<open>Properties\<close>

text \<open>
  C4: nothing happens for a stranger. Given that the cipher accepts only what it produced: if a request
  to any of the forty routes changes any store (the cached key apart) or is answered with anything
  but a problem, its session cookie carries a ciphertext made under the server's key that decodes to an
  operator's session which has not expired; and on a route that is not a GET, the request's Origin
  is the origin it was sent to and it carries a non-empty Idempotency-Key.
\<close>

theorem console_guarded:
  assumes authentic: "\<And>k iv c p. p_decrypt (h_platform h) k iv c = Some p \<Longrightarrow> c = p_encrypt (h_platform h) k iv p"
    and "handle h w (rt, q) = (w', r)"
    and "w' \<noteq> w\<lparr>w_cache := w_cache w'\<rparr> \<or> (\<forall>p. r \<noteq> Problem_json p)"
  shows "\<exists>v dot cache k iv p operator. rq_cookie (in_request q) SESSION_COOKIE = Some v
     \<and> sessionKey (h_platform h) (h_env h) (w_cache w) = (cache, Inr k)
     \<and> fromBase64Url (take dot v) = Some iv \<and> fromBase64Url (drop (Suc dot) v) = Some (p_encrypt (h_platform h) k iv p)
     \<and> p_decode (h_platform h) p = Some operator \<and> int (in_now q div 1000) < sn_exp operator
     \<and> (route_method rt \<noteq> ''GET'' \<longrightarrow>
          rq_header (in_request q) ''origin'' = Some (p_origin (h_platform h) (rq_url (in_request q)))
          \<and> rq_header (in_request q) ''idempotency-key'' \<notin> {None, Some []})"
proof -
  let ?rq = "(in_request q)\<lparr>rq_method := route_method rt\<rparr>"
  let ?now = "int (in_now q div 1000)"
  obtain c res where g: "guardRoute (h_platform h) (h_env h) (w_cache w) ?rq ?now = (c, res)" by fastforce
  have "\<exists>c operator. currentOperator (h_platform h) (h_env h) (w_cache w) ?rq ?now = (c, Some operator)
      \<and> (route_method rt \<noteq> ''GET'' \<longrightarrow> rq_header ?rq ''origin'' = Some (p_origin (h_platform h) (rq_url ?rq))
          \<and> rq_header ?rq ''idempotency-key'' \<notin> {None, Some []})"
  proof (cases "rt = Dashboard_overview")
    case True
    then show ?thesis using assms(2,3)
      by (auto simp: handle_def dashboard_GET_def split: prod.splits option.splits)
  next
    case False
    obtain handler where eq: "handle h w (rt, q) = guarded h (q\<lparr>in_request := ?rq\<rparr>) w handler"
      using handler_guarded [OF False, of h "q\<lparr>in_request := ?rq\<rparr>" w] by (auto simp: handle_def)
    have "\<nexists>p. res = Inl p" using refused_idle [of h w "q\<lparr>in_request := ?rq\<rparr>" c _ handler] g eq assms(2,3) by auto
    then obtain operator key where res: "res = Inr (operator, key)" by (metis old.prod.exhaust sumE)
    show ?thesis using guardRoute_Inr [OF g [unfolded res]] route_method_not_HEAD [of rt] by auto
  qed
  then show ?thesis using operator_sealed [OF authentic, where rq = ?rq] by fastforce
qed

text \<open>
  C5: what holds in every world the server can reach, whatever requests it was sent, in whatever
  order, valid or not: no two tenants share a slug; in every tenant's tuples no two rows have the same id or
  the same (user, relation, object) and none is in the platform's namespace; every spec history
  is numbered 1 to the current generation, each hash is that of its body; every run is stored
  under its id and passes its schema; every seeded drift finding is still there or counted as healed; a
  role list is the tenant's initial list without some roles that had no tuples; and nobody with a
  pending invitation is a member.
\<close>

theorem console_invariant:
  assumes "clocks_ok xs"
  shows "distinct (map ts_slug (allTenants (w_tenants (console_run h boot xs))))
    \<and> (\<forall>slug s. map_get (w_rels (console_run h boot xs)) slug = Some s \<longrightarrow>
         distinct (map tr_id (so_items s)) \<and> distinct (map input_of (so_items s)) \<and> list_all (\<lambda>e. \<not> reserved (input_of e)) (so_items s))
    \<and> (\<forall>slug st. map_get (w_specs (console_run h boot xs)) slug = Some st \<longrightarrow>
         map sv_generation (rev (ss_versions st)) = [1..<Suc (ss_currentGeneration st)]
         \<and> list_all (\<lambda>v. sv_hash v = spec_fnv1a (sv_body v)) (ss_versions st))
    \<and> (\<forall>i r. map_get (s_runs (w_runs (console_run h boot xs))) i = Some r \<longrightarrow> rn_id r = i \<and> RunDetailSchema_ok r)
    \<and> (\<forall>D. w_drift (console_run h boot xs) = Some D \<longrightarrow>
         ds_healedToday D + length (ds_findings D) = HEALED_TODAY_BASELINE + length DRIFT_SEEDS)
    \<and> (\<forall>slug items. map_get (w_roles (console_run h boot xs)) slug = Some items \<longrightarrow>
         (\<exists>seed. role_seed (w_tenants (console_run h boot xs)) slug = Some seed \<and> kept_of seed items))
    \<and> (\<forall>slug email. email \<in> pending (w_mirror (console_run h boot xs)) slug \<longrightarrow> outsider (w_tenants (console_run h boot xs)) slug email)"
proof -
  define w where "w = console_run h boot xs"
  have ok: "console_ok w" unfolding w_def by (rule console_run_ok [OF assms boot_ok])
  have "distinct (map ts_slug (allTenants (w_tenants w)))" using ok distinct_allTenants by (simp add: console_ok_def)
  moreover have "distinct (map tr_id (so_items s)) \<and> distinct (map input_of (so_items s)) \<and> list_all (\<lambda>e. \<not> reserved (input_of e)) (so_items s)"
    if "map_get (w_rels w) slug = Some s" for slug s
    using that ok by (auto simp: console_ok_def rels_wf_def rel_ok_def items_ok_def list_all_iff)
  moreover have "map sv_generation (rev (ss_versions st)) = [1..<Suc (ss_currentGeneration st)]
      \<and> list_all (\<lambda>v. sv_hash v = spec_fnv1a (sv_body v)) (ss_versions st)" if "map_get (w_specs w) slug = Some st" for slug st
    using that ok by (auto simp: console_ok_def specs_ok_def spec_state_ok_def history_def o_def list_all_iff rev_map)
  moreover have "rn_id r = i \<and> RunDetailSchema_ok r" if "map_get (s_runs (w_runs w)) i = Some r" for i r
    using ok run_okD(1,2) [OF store_wfD(1) [OF _ that]] by (simp add: console_ok_def)
  moreover have "ds_healedToday D + length (ds_findings D) = HEALED_TODAY_BASELINE + length DRIFT_SEEDS" if "w_drift w = Some D" for D
    using that ok by (simp add: console_ok_def accounted_def)
  moreover have "\<exists>seed. role_seed (w_tenants w) slug = Some seed \<and> kept_of seed items" if "map_get (w_roles w) slug = Some items" for slug items
    using that ok roles_invD by (auto simp: console_ok_def)
  moreover have "outsider (w_tenants w) slug email" if "email \<in> pending (w_mirror w) slug" for slug email
    using that ok users_invD by (auto simp: console_ok_def)
  ultimately show ?thesis unfolding w_def by blast
qed

text \<open>
  C6: for the clients of the interface, spec history is append-only. Whatever requests come between two
  answered requests for a tenant's versions (saves, restores, creations, anything else), the versions of
  the first answer, oldest first, are an initial part of those of the second, in everything but their
  display status.
\<close>

theorem console_history_append_only:
  assumes "clocks_ok xs"
    and "handle h w (Spec_versions slug, q) = (w1, Json n (J_versions v))"
    and "handle h (console_run h w1 xs) (Spec_versions slug, q') = (w2, Json n' (J_versions v'))"
  shows "prefix (rev (map core (vl_items v))) (rev (map core (vl_items v')))"
proof -
  obtain st where st: "map_get (w_specs w1) slug = Some st" "vl_items v = ss_versions st" using versions_answer [OF assms(2)] by blast
  obtain st1 where st1: "map_get (w_specs (console_run h w1 xs)) slug = Some st1" "grows st st1"
    using console_run_history [OF assms(1), of w1 h] st(1) unfolding stored_grows_def by blast
  have "vl_items v' = ss_versions st1" using versions_answer [OF assms(3)] view_peek [OF st1(1)] by auto
  with st st1(2) show ?thesis by (simp add: grows_def history_def)
qed

text \<open>
  C20: a created tenant is served from then on, but not by every route. If the create route answered with a
  tenant, then after any further requests, the detail route answers every request that passes the guard
  with that tenant: its slug, its name, still pending, and the request changes nothing; while the
  routes for its runs and its drift, which look in the fixtures only, answer that request with 404.
\<close>

theorem created_tenant_served:
  assumes "clocks_ok xs" and "clocks_ok ys" and "clock_ok (in_now q)"
    and "handle h (console_run h boot xs) (Tenants_create body, q) = (w, Json n (J_created s))"
    and "guardRoute (h_platform h) (h_env h) (w_cache (console_run h w ys)) ((in_request q')\<lparr>rq_method := ''GET''\<rparr>)
           (int (in_now q' div 1000)) = (cache, Inr a)"
  shows "\<exists>d. handle h (console_run h w ys) (Tenant_detail (ts_slug s), q') = ((console_run h w ys)\<lparr>w_cache := cache\<rparr>, Json 200 (J_tenant d))
     \<and> ts_slug d = ts_slug s \<and> ts_displayName d = ts_displayName s \<and> ts_phase d = Pending
     \<and> snd (handle h (console_run h w ys) (Tenant_runs (ts_slug s), q'))
         = Problem_json (problem 404 ''Tenant not found'' (Some (''No tenant '' @ ts_slug s @ ''.'')) [])
     \<and> snd (handle h (console_run h w ys) (Tenant_drift (ts_slug s), q'))
         = Problem_json (problem 404 ''Tenant not found'' (Some (''No tenant '' @ ts_slug s @ ''.'')) [])"
proof -
  define w0 where "w0 = console_run h boot xs"
  have ok0: "console_ok w0" unfolding w0_def by (rule console_run_ok [OF assms(1) boot_ok])
  have step: "console_step h w0 w" using handle_step [of "(Tenants_create body, q)" h w0] assms(3,4) by (simp add: w0_def)
  have ok: "console_ok w" by (rule console_step_ok [OF step ok0])
  obtain c where c: "tenant_of (w_tenants w) (ts_slug s) = Some (pendingDetail c)" "ct_summary c = s" "ts_phase s = Pending"
      and none: "findTenant (ts_slug s) = None"
    using created_stored [OF _ assms(4)] ok0 by (auto simp: console_ok_def w0_def)
  have "tenant_of (w_tenants (console_run h w ys)) (ts_slug s) = Some (pendingDetail c)"
    by (rule console_run_tenant [OF assms(2) ok c(1)])
  moreover have "tenants_wf (w_tenants (console_run h w ys))" using console_run_ok [OF assms(2) ok] by (simp add: console_ok_def)
  ultimately have "getTenant (w_tenants (console_run h w ys)) (ts_slug s) = Inr (Some (pendingDetail c))" by (simp add: getTenant_eq)
  then have "handle h (console_run h w ys) (Tenant_detail (ts_slug s), q')
      = ((console_run h w ys)\<lparr>w_cache := cache\<rparr>, Json 200 (J_tenant (pendingDetail c)))"
    using assms(5) by (simp add: handle_def tenant_GET_def guarded_def answer_or_def split: prod.split)
  moreover have "snd (handle h (console_run h w ys) (Tenant_runs (ts_slug s), q'))
      = Problem_json (problem 404 ''Tenant not found'' (Some (''No tenant '' @ ts_slug s @ ''.'')) [])"
    using assms(5) none by (simp add: handle_def tenant_runs_GET_def guarded_def not_found_reply_def no_tenant_def split: prod.split)
  moreover have "snd (handle h (console_run h w ys) (Tenant_drift (ts_slug s), q'))
      = Problem_json (problem 404 ''Tenant not found'' (Some (''No tenant '' @ ts_slug s @ ''.'')) [])"
    using assms(5) none by (simp add: handle_def tenant_drift_GET_def guarded_def not_found_reply_def no_tenant_def split: prod.split)
  moreover have "ts_slug (pendingDetail c) = ts_slug s \<and> ts_displayName (pendingDetail c) = ts_displayName s \<and> ts_phase (pendingDetail c) = Pending"
    using c(2,3) by (simp add: pendingDetail_def TenantSummary.defs TenantDetail.defs)
  ultimately show ?thesis by blast
qed

text \<open>
  C21: eighteen routes never end in an uncaught exception, whatever requests the server was sent before
  and whatever this one carries: the tenant list, creation, slug check and detail; the authorization model's
  read, stage and validation; checks and explanations; a tenant's runs, a run's detail and retry; healing
  and resync; role deletion; invitations; audit exports; the dashboard. With one exception: a check or explanation
  that asks for the relation \<^verbatim>\<open>caller\<close> or \<^verbatim>\<open>arguments\<close> of an object whose type is named like a function every object inherits
  ends in a TypeError.
\<close>

theorem console_answers:
  assumes "clocks_ok xs" and "dependable rt"
  shows "\<forall>e. snd (handle h (console_run h boot xs) (rt, q)) = Threw e \<longrightarrow> e = TypeError \<and> unreadable_request rt"
  using dependable_answers [OF console_run_ok [OF assms(1) boot_ok] assms(2), of h h q] by blast

text \<open>
  C7: what the browser's cache holds as valid stays true across its own mutations. Take a world the server can reach, a cache, and a
  mutation, whose answers may be lost. If a query's entry was current (invalidated, or the server's answers to the requests it was
  fetched with), it is current after the mutation: after one that succeeded, whichever query; after one that failed halfway, a
  query whose key the mutation would not have invalidated. This covers what a success writes into the cache itself. There are
  three exceptions, those of \<open>overlooked\<close>: the plan of a tenant whose spec was saved, the connections of a tenant after a test, and the
  detail of a tenant just created, under whose key the summary is written.
\<close>

theorem cached_answers_current:
  assumes "matches_prefixes matching" and "clocks_ok before" and "w = console_run h boot before"
    and "length qs = length (mutation_routes m)" and "list_all (\<lambda>(q, arrives). clock_ok (in_now q)) qs"
    and "current h w v C" and "\<not> overlooked m v"
    and "mutate matching h m qs (w, C) = (w', C', succeeded)" and "succeeded \<or> \<not> marked_stale matching m v"
  shows "current h w' v C'"
proof (rule mutate_current [OF assms(1) _ _ assms(4-9)])
  show "console_ok w" unfolding assms(3) by (rule console_run_ok [OF assms(2) boot_ok])
  show "key_ok h w" unfolding assms(3) by (rule console_run_key_ok [OF boot_key_ok])
qed

section \<open>Witnesses\<close>

definition demo_host :: host where
  "demo_host = \<lparr>h_platform = demo, h_env = dev_env, h_spec_url = (\<lambda>_. None), h_idp_url = (\<lambda>_. None), h_compare = unit_cmp,
     h_number = (\<lambda>_. None), h_issue = id, h_is_email = (\<lambda>_. True)\<rparr>"

definition demo_incoming :: incoming where
  "demo_incoming = \<lparr>in_request = demo_request, in_params = [], in_message = [], in_now = 2000000, in_draws = [], in_uuid = (\<lambda>_. 0), in_elapsed = 0\<rparr>"

lemma demo_clock: "clock_ok (in_now demo_incoming)" "clocks_ok (map (\<lambda>rt. (rt, demo_incoming)) rts)"
  by (simp_all add: clocks_ok_def list_all_iff demo_incoming_def clock_ok_def)

lemma demo_guarded:
  assumes "w_cache w \<in> {None, demo_cache}"
  shows "guarded demo_host (demo_incoming\<lparr>in_request := demo_request\<lparr>rq_method := m\<rparr>\<rparr>) w handler
    = handler demo_session (if m \<in> {''GET'', ''HEAD''} then [] else ''key-1'') (w\<lparr>w_cache := demo_cache\<rparr>)"
  using demo_passes [OF assms, of m] by (simp add: guarded_def demo_host_def demo_incoming_def)

lemma demo_handle: "handle h w (rt, demo_incoming) = handler_of h rt (demo_incoming\<lparr>in_request := demo_request\<lparr>rq_method := route_method rt\<rparr>\<rparr>) w"
  by (simp add: handle_def demo_incoming_def)

lemma demo_resync:
  assumes "w_cache w \<in> {None, demo_cache}"
  shows "\<exists>D stamp. handle demo_host w (Drift_resync, demo_incoming) = (w\<lparr>w_cache := demo_cache, w_drift := Some D\<rparr>, Json 202 (J_resync stamp))"
  using assms by (simp add: demo_handle drift_resync_POST_def demo_guarded split_beta del: insert_iff) (rule exI, rule refl)

theorem console_guarded_witness:
  "(\<exists>w stamp. handle demo_host boot (Drift_resync, demo_incoming) = (w, Json 202 (J_resync stamp)))
   \<and> rq_header (in_request demo_incoming) ''origin'' = Some (p_origin demo (rq_url (in_request demo_incoming)))"
proof -
  obtain w stamp where h: "handle demo_host boot (Drift_resync, demo_incoming) = (w, Json 202 (J_resync stamp))"
    using demo_resync [of boot] by (auto simp: boot_def)
  have "p_decrypt (h_platform demo_host) k iv c = Some p \<Longrightarrow> c = p_encrypt (h_platform demo_host) k iv p" for k iv c p
    using demo_authentic by (simp add: demo_host_def)
  from console_guarded [OF this h] h show ?thesis by (auto simp: demo_host_def)
qed

theorem console_invariant_witness:
  "\<exists>D. w_drift (console_run demo_host boot [(Drift_resync, demo_incoming)]) = Some D
     \<and> ds_healedToday D + length (ds_findings D) = HEALED_TODAY_BASELINE + length DRIFT_SEEDS"
proof -
  obtain D where "w_drift (console_run demo_host boot [(Drift_resync, demo_incoming)]) = Some D"
    using demo_resync [of boot] by (auto simp: boot_def console_run_def)
  moreover have "clocks_ok [(Drift_resync, demo_incoming)]" using demo_clock(2) [of "[Drift_resync]"] by simp
  ultimately show ?thesis using console_invariant [of "[(Drift_resync, demo_incoming)]" demo_host] by blast
qed

lemma demo_versions:
  assumes "w_cache w \<in> {None, demo_cache}" "w_tenants w = []" "specs.view [] (w_specs w) ''acme-air'' = Some st" "spec_state_ok st"
  shows "\<exists>v. handle demo_host w (Spec_versions ''acme-air'', demo_incoming)
     = (w\<lparr>w_cache := demo_cache, w_specs := fst (stateFor_spec [] (w_specs w) ''acme-air'')\<rparr>, Json 200 (J_versions v))"
  using assms(1,2) reads_of(1) [OF assms(3,4)]
  by (simp add: demo_handle spec_versions_GET_def demo_guarded split_beta spec_reads_fst answer_or_def del: insert_iff)

theorem console_history_append_only_witness:
  "\<exists>w1 w2 v v'. handle demo_host boot (Spec_versions ''acme-air'', demo_incoming) = (w1, Json 200 (J_versions v))
     \<and> handle demo_host (console_run demo_host w1 [(Drift_resync, demo_incoming)]) (Spec_versions ''acme-air'', demo_incoming)
         = (w2, Json 200 (J_versions v'))
     \<and> prefix (rev (map core (vl_items v))) (rev (map core (vl_items v')))"
proof -
  obtain t where t: "tenant_of [] ''acme-air'' = Some t" "has_created_date t" using acme_tenant by blast
  obtain st where seeded: "seeded_state [] ''acme-air'' = Some st" using seed_exists [OF t] by blast
  have ok: "spec_state_ok st" by (rule seed_ok [OF tenants_wf_Nil seeded])
  have view: "specs.view [] (w_specs boot) ''acme-air'' = Some st" using seeded by (simp add: specs.view_def boot_def)
  obtain w1 v where h1: "handle demo_host boot (Spec_versions ''acme-air'', demo_incoming) = (w1, Json 200 (J_versions v))"
      and w1: "w_cache w1 = demo_cache" "w_tenants w1 = []" "specs.view [] (w_specs w1) ''acme-air'' = Some st"
    using demo_versions [of boot, OF _ _ view ok] view by (auto simp: boot_def fst_stateFor_view)
  define w2 where "w2 = console_run demo_host w1 [(Drift_resync, demo_incoming)]"
  have "w_cache w2 = demo_cache" "w_tenants w2 = []" "specs.view [] (w_specs w2) ''acme-air'' = Some st"
    using demo_resync [of w1] w1 by (auto simp: w2_def console_run_def)
  then obtain w3 v' where h3: "handle demo_host w2 (Spec_versions ''acme-air'', demo_incoming) = (w3, Json 200 (J_versions v'))"
    using demo_versions [of w2, OF _ _ _ ok] by blast
  have "clocks_ok [(Drift_resync, demo_incoming)]" using demo_clock(2) [of "[Drift_resync]"] by simp
  from console_history_append_only [OF this h1 h3 [unfolded w2_def]] h1 h3 show ?thesis unfolding w2_def by blast
qed

lemma demo_create:
  "\<exists>w s. handle demo_host boot (Tenants_create (Some (Some example_input)), demo_incoming) = (w, Json 201 (J_created s))
     \<and> ts_slug s = ''hooli-xyz'' \<and> w_cache w = demo_cache"
proof -
  let ?input = "example_input\<lparr>ci_displayName := ''Hooli XYZ''\<rparr>"
  have p: "CreateTenantInputSchema_parse example_input = Inr ?input" by (rule example_input_parse)
  obtain T' s where "createTenant [] example_input 2000000 = (T', Inr s)"
    using p example_input_create by (auto simp: createTenant_cases split: if_splits)
  then have c: "createTenant [] ?input 2000000 = (T', Inr s)" "ts_slug s = ''hooli-xyz''"
    using reparse [OF p] p by (auto simp: createTenant_cases created_summary_def example_input_def split: if_splits)
  then show ?thesis
    by (simp add: demo_handle tenants_POST_def demo_guarded boot_def with_body_def parseBody_def p answer_def) (simp add: demo_incoming_def)
qed

theorem created_tenant_served_witness:
  "\<exists>w d. handle demo_host (console_run demo_host w []) (Tenant_detail ''hooli-xyz'', demo_incoming) = (w\<lparr>w_cache := demo_cache\<rparr>, Json 200 (J_tenant d))
     \<and> ts_slug d = ''hooli-xyz'' \<and> ts_phase d = Pending"
proof -
  obtain w s where c: "handle demo_host (console_run demo_host boot []) (Tenants_create (Some (Some example_input)), demo_incoming)
      = (w, Json 201 (J_created s))" "ts_slug s = ''hooli-xyz''" "w_cache w = demo_cache"
    using demo_create by (auto simp: console_run_def)
  have "guardRoute (h_platform demo_host) (h_env demo_host) (w_cache (console_run demo_host w [])) ((in_request demo_incoming)\<lparr>rq_method := ''GET''\<rparr>)
      (int (in_now demo_incoming div 1000)) = (demo_cache, Inr (demo_session, None))"
    using demo_passes [of "w_cache w" "''GET''"] c(3) by (simp add: console_run_def demo_host_def demo_incoming_def)
  from created_tenant_served [OF _ _ demo_clock(1) c(1) this] c(2) demo_clock(2) [of "[]"] show ?thesis
    by (auto simp: console_run_def)
qed

theorem console_answers_witness:
  "\<forall>e. snd (handle demo_host (console_run demo_host boot [(Drift_resync, demo_incoming)]) (Tenant_detail ''nobody'', demo_incoming)) \<noteq> Threw e"
  using console_answers [of "[(Drift_resync, demo_incoming)]" "Tenant_detail ''nobody''"] demo_clock(2) [of "[Drift_resync]"] by fastforce

text \<open>A cache that holds the versions of a tenant and a drift finding, across a resync: the versions stay, the finding is invalidated.\<close>

definition demo_cached :: "payload \<Rightarrow> payload \<Rightarrow> query_cache" where
  "demo_cached versions finding =
     [specKeys_versions ''acme-air'' \<mapsto> \<lparr>cd_pages = [(demo_incoming, versions)], cd_invalidated = False\<rparr>,
      driftKeys_finding ''f-1'' \<mapsto> \<lparr>cd_pages = [(demo_incoming, finding)], cd_invalidated = False\<rparr>]"

theorem cached_answers_current_witness:
  "\<forall>finding. \<exists>v w' C'. mutate prefix demo_host Do_resync [(demo_incoming, True)] (boot, demo_cached (J_versions v) (J_finding finding)) = (w', C', True)
     \<and> C' (specKeys_versions ''acme-air'') = Some \<lparr>cd_pages = [(demo_incoming, J_versions v)], cd_invalidated = False\<rparr>
     \<and> C' (driftKeys_finding ''f-1'') = Some \<lparr>cd_pages = [(demo_incoming, J_finding finding)], cd_invalidated = True\<rparr>
     \<and> current demo_host w' (Q_versions ''acme-air'') C'"
proof
  fix finding
  obtain t where t: "tenant_of [] ''acme-air'' = Some t" "has_created_date t" using acme_tenant by blast
  obtain st where seeded: "seeded_state [] ''acme-air'' = Some st" using seed_exists [OF t] by blast
  have "specs.view [] (w_specs boot) ''acme-air'' = Some st" using seeded by (simp add: specs.view_def boot_def)
  then obtain v where v: "snd (handle demo_host boot (Spec_versions ''acme-air'', demo_incoming)) = Json 200 (J_versions v)"
    using demo_versions [of boot, OF _ _ _ seed_ok [OF tenants_wf_Nil seeded]] by (auto simp: boot_def)
  obtain w' stamp where w': "handle demo_host boot (Drift_resync, demo_incoming) = (w', Json 202 (J_resync stamp))"
    using demo_resync [of boot] by (auto simp: boot_def)
  let ?C = "demo_cached (J_versions v) (J_finding finding)"
  let ?C' = "on_success prefix Do_resync [(demo_incoming, J_resync stamp)] ?C"
  have mut: "mutate prefix demo_host Do_resync [(demo_incoming, True)] (boot, ?C) = (w', ?C', True)"
    by (simp add: mutate_def w')
  have cur: "current demo_host boot (Q_versions ''acme-air'') ?C"
    using v by (simp add: current_def demo_cached_def key_defs dry_run_def)
  have "current demo_host w' (Q_versions ''acme-air'') ?C'"
    by (rule cached_answers_current [where before = "[]", OF _ _ _ _ _ cur _ mut])
      (simp_all add: matches_prefixes_def clocks_ok_def console_run_def demo_clock(1) overlooked_def)
  moreover have "?C' (specKeys_versions ''acme-air'') = Some \<lparr>cd_pages = [(demo_incoming, J_versions v)], cd_invalidated = False\<rparr>"
      and "?C' (driftKeys_finding ''f-1'') = Some \<lparr>cd_pages = [(demo_incoming, J_finding finding)], cd_invalidated = True\<rparr>"
    by (simp_all add: on_success_def invalidateQueries_def written_def mutation_hook_defs no_data_def demo_cached_def key_defs)
  ultimately show "\<exists>v w' C'. mutate prefix demo_host Do_resync [(demo_incoming, True)] (boot, demo_cached (J_versions v) (J_finding finding)) = (w', C', True)
     \<and> C' (specKeys_versions ''acme-air'') = Some \<lparr>cd_pages = [(demo_incoming, J_versions v)], cd_invalidated = False\<rparr>
     \<and> C' (driftKeys_finding ''f-1'') = Some \<lparr>cd_pages = [(demo_incoming, J_finding finding)], cd_invalidated = True\<rparr>
     \<and> current demo_host w' (Q_versions ''acme-air'') C'"
    using mut by blast
qed

end
